(* ===== verification/Prelude.thy ===== *)
theory Prelude
  imports Main "HOL-Library.Word" "HOL-Library.AList" "HOL-Library.Multiset"
begin

text \<open>
  Shared vocabulary of the development: Python \<open>bytes\<close> as lists of 8-bit words,
  slices, big-endian integers (\<open>int.from_bytes\<close> and \<open>int.to_bytes\<close>), \<open>bytes.find\<close>,
  results of functions that may raise (a sum type, the exception on the left), and
  insertion-ordered dictionaries as association lists.  The collections
  \<open>bytes_simps\<close> and \<open>result_simps\<close> carry the automation of the codec theories.
\<close>

unbundle bit_operations_syntax

named_theorems bytes_simps "lengths, slices and big-endian conversions of byte strings"
named_theorems result_simps "chaining of results that may be an error"

type_synonym byte = "8 word"
type_synonym bytes = "8 word list"
type_synonym address = "string \<times> nat"

section \<open>Results\<close>

text \<open>Python's statement sequence: an exception of the first part skips the second.\<close>

definition rbind :: "'e + 'a \<Rightarrow> ('a \<Rightarrow> 'e + 'b) \<Rightarrow> 'e + 'b" where
  "rbind r f = (case r of Inl e \<Rightarrow> Inl e | Inr x \<Rightarrow> f x)"

lemma rbind_Inl [simp, result_simps]: "rbind (Inl e) f = Inl e"
  by (simp add: rbind_def)

lemma rbind_Inr [simp, result_simps]: "rbind (Inr x) f = f x"
  by (simp add: rbind_def)

lemma rbind_eq_Inr [result_simps]:
  "rbind r f = Inr y \<longleftrightarrow> (\<exists>x. r = Inr x \<and> f x = Inr y)"
  by (cases r) simp_all

lemma rbind_assoc: "rbind (rbind r f) g = rbind r (\<lambda>x. rbind (f x) g)"
  by (cases r) simp_all

definition is_ok :: "'e + 'a \<Rightarrow> bool" where
  "is_ok r = (case r of Inl _ \<Rightarrow> False | Inr _ \<Rightarrow> True)"

lemma is_ok_simps [simp]: "is_ok (Inr x)" "\<not> is_ok (Inl e)"
  by (simp_all add: is_ok_def)

lemma is_ok_iff: "is_ok r \<longleftrightarrow> (\<exists>x. r = Inr x)"
  by (cases r) simp_all

section \<open>Slices\<close>

text \<open>\<open>data[a:b]\<close> for non-negative bounds: a bound past the end is cut off, as Python does.\<close>

definition slice :: "nat \<Rightarrow> nat \<Rightarrow> 'a list \<Rightarrow> 'a list" where
  "slice a b xs = take (b - a) (drop a xs)"

lemma length_slice [simp, bytes_simps]: "length (slice a b xs) = min (b - a) (length xs - a)"
  by (simp add: slice_def)

lemma slice_append_left: "b \<le> length xs \<Longrightarrow> slice a b (xs @ ys) = slice a b xs"
  by (simp add: slice_def)

lemma slice_append_right: "length xs \<le> a \<Longrightarrow> slice a b (xs @ ys) = slice (a - length xs) (b - length xs) ys"
  by (simp add: slice_def)

lemma slice_full [simp, bytes_simps]: "length xs \<le> b \<Longrightarrow> slice 0 b xs = xs"
  by (simp add: slice_def)

lemma slice_mid: "a = length xs \<Longrightarrow> b = length xs + length ys \<Longrightarrow> slice a b (xs @ ys @ zs) = ys"
  by (simp add: slice_def)

lemma slice_slice: "slice c d (slice a b xs) = slice (a + c) (min (a + d) b) xs"
  by (simp add: slice_def drop_take take_take add.commute min_def)

lemma nth_slice: "i < b - a \<Longrightarrow> a + i < length xs \<Longrightarrow> slice a b xs ! i = xs ! (a + i)"
  by (simp add: slice_def)

lemma append_slice_drop: "a \<le> b \<Longrightarrow> slice a b xs @ drop b xs = drop a xs"
  by (simp add: slice_def) (metis append_take_drop_id drop_drop le_add_diff_inverse2)

text \<open>\<open>body[a:b] = new\<close> on a \<open>bytearray\<close>, for \<open>a <= b\<close>.\<close>

definition splice :: "nat \<Rightarrow> nat \<Rightarrow> 'a list \<Rightarrow> 'a list \<Rightarrow> 'a list" where
  "splice a b new xs = take a xs @ new @ drop b xs"

lemma length_splice:
  "a \<le> b \<Longrightarrow> b \<le> length xs \<Longrightarrow> length new = b - a \<Longrightarrow> length (splice a b new xs) = length xs"
  by (simp add: splice_def)

lemma slice_splice_same:
  "a \<le> b \<Longrightarrow> b \<le> length xs \<Longrightarrow> length new = b - a \<Longrightarrow> slice a b (splice a b new xs) = new"
  by (simp add: splice_def slice_def)

lemma nth_splice_other:
  "a \<le> b \<Longrightarrow> b \<le> length xs \<Longrightarrow> length new = b - a \<Longrightarrow> i < a \<or> b \<le> i \<Longrightarrow> i < length xs \<Longrightarrow>
   splice a b new xs ! i = xs ! i"
  by (auto simp: splice_def nth_append)

lemma slice_splice_before:
  "a \<le> b \<Longrightarrow> a \<le> length xs \<Longrightarrow> d \<le> a \<Longrightarrow> slice c d (splice a b new xs) = slice c d xs"
  by (simp add: splice_def slice_append_left) (simp add: slice_def drop_take min_absorb1 diff_le_mono)

lemma slice_splice_after:
  "a \<le> b \<Longrightarrow> b \<le> length xs \<Longrightarrow> length new = b - a \<Longrightarrow> b \<le> c \<Longrightarrow> slice c d (splice a b new xs) = slice c d xs"
  by (simp add: splice_def slice_def min_absorb2)

lemma slice_list_update: "i < c \<or> d \<le> i \<Longrightarrow> slice c d (xs[i := v]) = slice c d xs"
  by (rule nth_equalityI) (auto simp: slice_def nth_list_update)

section \<open>Big-endian integers\<close>

text \<open>\<open>int.from_bytes(bs, "big")\<close>.\<close>

definition be_nat :: "bytes \<Rightarrow> nat" where
  "be_nat bs = foldl (\<lambda>n b. n * 256 + unat b) 0 bs"

text \<open>
  \<open>n.to_bytes(k, "big")\<close> for a value in range; the callers check the range, since
  Python raises \<open>OverflowError\<close> outside it.
\<close>

fun to_be :: "nat \<Rightarrow> nat \<Rightarrow> bytes" where
  "to_be 0 n = []"
| "to_be (Suc k) n = to_be k (n div 256) @ [word_of_nat n]"

lemma be_nat_Nil [simp, bytes_simps]: "be_nat [] = 0"
  by (simp add: be_nat_def)

lemma be_nat_snoc [bytes_simps]: "be_nat (bs @ [b]) = be_nat bs * 256 + unat b"
  by (simp add: be_nat_def)

lemma foldl_be: "foldl (\<lambda>n b. n * 256 + unat (b :: byte)) acc bs = acc * 256 ^ length bs + be_nat bs"
proof (induction bs arbitrary: acc)
  case Nil
  then show ?case by (simp add: be_nat_def)
next
  case (Cons b bs)
  have "foldl (\<lambda>n b. n * 256 + unat (b :: byte)) acc (b # bs)
    = (acc * 256 + unat b) * 256 ^ length bs + be_nat bs"
    using Cons.IH[of "acc * 256 + unat b"] by simp
  moreover have "be_nat (b # bs) = unat b * 256 ^ length bs + be_nat bs"
    using Cons.IH[of "unat b"] by (simp add: be_nat_def)
  ultimately show ?case by (simp add: algebra_simps)
qed

lemma be_nat_Cons [bytes_simps]: "be_nat (b # bs) = unat b * 256 ^ length bs + be_nat bs"
  using foldl_be[of "unat b" bs] by (simp add: be_nat_def)

lemma be_nat_append: "be_nat (xs @ ys) = be_nat xs * 256 ^ length ys + be_nat ys"
  unfolding be_nat_def foldl_append by (rule foldl_be[unfolded be_nat_def])

lemma unat_byte_less [simp]: "unat (b :: byte) < 256"
  using unsigned_less[of b, where ?'a = nat] by simp

lemma unat_byte_le [simp]: "unat (b :: byte) \<le> 255"
  using unat_byte_less[of b] by linarith

lemma unat_word_of_nat_mod: "unat (word_of_nat n :: byte) = n mod 256"
  by (simp add: unat_of_nat)

lemma be_nat_less: "be_nat bs < 256 ^ length bs"
proof (induction bs)
  case Nil
  then show ?case by simp
next
  case (Cons b bs)
  have "unat b * 256 ^ length bs \<le> 255 * 256 ^ length bs" by simp
  moreover have "256 * 256 ^ length bs = 255 * 256 ^ length bs + (256::nat) ^ length bs" by simp
  ultimately show ?case using Cons.IH unfolding be_nat_Cons length_Cons power_Suc by linarith
qed

lemma length_to_be [simp, bytes_simps]: "length (to_be k n) = k"
  by (induction k arbitrary: n) simp_all

lemma be_nat_to_be [simp, bytes_simps]: "be_nat (to_be k n) = n mod 256 ^ k"
proof (induction k arbitrary: n)
  case 0
  then show ?case by simp
next
  case (Suc k)
  have "n mod 256 ^ Suc k = (n div 256) mod 256 ^ k * 256 + n mod 256"
    by (simp add: mod_mult2_eq mult.commute)
  then show ?case
    by (simp add: be_nat_snoc Suc.IH unat_of_nat)
qed

lemma to_be_be_nat [simp, bytes_simps]: "to_be (length bs) (be_nat bs) = bs"
proof (induction bs rule: rev_induct)
  case Nil
  then show ?case by simp
next
  case (snoc b bs)
  have "(be_nat bs * 256 + unat b) div 256 = be_nat bs" by simp
  moreover have "word_of_nat (be_nat bs * 256 + unat b) = b"
    by (simp only: word_unat_eq_iff unat_word_of_nat_mod) simp
  ultimately show ?case
    by (simp add: be_nat_snoc snoc.IH)
qed

lemma to_be_inj: "m < 256 ^ k \<Longrightarrow> n < 256 ^ k \<Longrightarrow> to_be k m = to_be k n \<Longrightarrow> m = n"
  by (metis be_nat_to_be mod_less)

lemma be_nat_inj: "length xs = length ys \<Longrightarrow> be_nat xs = be_nat ys \<Longrightarrow> xs = ys"
  by (metis to_be_be_nat)

lemma unat_word_of_nat_byte: "n < 256 \<Longrightarrow> unat (word_of_nat n :: byte) = n"
  by (simp add: unat_of_nat)

text \<open>\<open>value & 0xFFFFFFFF\<close> and its kin on an unbounded integer, negative ones included.\<close>

definition umask :: "nat \<Rightarrow> int \<Rightarrow> nat" where
  "umask k v = nat (v mod 2 ^ k)"

lemma umask_less [simp]: "umask k v < 2 ^ k"
  by (simp add: umask_def nat_less_iff)

lemma umask_of_nat [simp]: "n < 2 ^ k \<Longrightarrow> umask k (int n) = n"
  by (simp add: umask_def nat_mod_as_int[symmetric] flip: of_nat_power zmod_int)

lemma umask_umask [simp]: "umask k (int (umask k v)) = umask k v"
  by simp

text \<open>Masking commutes with sums and differences, and is exact within half a turn.\<close>

lemma umask_diff: "umask k (int (umask k a) - int (umask k b)) = umask k (a - b)"
  by (simp add: umask_def mod_simps)

lemma umask_small: "0 \<le> v \<Longrightarrow> v < 2 ^ k \<Longrightarrow> umask k v = nat v"
  by (simp add: umask_def)

lemma umask_negative: "v < 0 \<Longrightarrow> - (2 ^ k) \<le> v \<Longrightarrow> umask k v = nat (v + 2 ^ k)"
proof -
  assume "v < 0" "- (2 ^ k) \<le> v"
  then have "(v + 2 ^ k) mod 2 ^ k = v + 2 ^ k" by (intro mod_pos_pos_trivial) simp_all
  moreover have "(v + 2 ^ k) mod 2 ^ k = v mod 2 ^ k" by simp
  ultimately show ?thesis by (simp add: umask_def)
qed

lemma umask_add_right: "umask k (a + int (umask k b)) = umask k (a + b)"
  by (simp add: umask_def mod_simps)

lemma umask_add_left: "umask k (int (umask k a) + b) = umask k (a + b)"
  by (simp add: umask_def mod_simps)

lemma umask_diff_right: "umask k (a - int (umask k b)) = umask k (a - b)"
  by (simp add: umask_def mod_simps)

lemma umask_diff_left: "umask k (int (umask k a) - b) = umask k (a - b)"
  by (simp add: umask_def mod_simps)

lemmas umask_mod_simps = umask_add_right umask_add_left umask_diff_right umask_diff_left

lemma umask_id: "0 \<le> v \<Longrightarrow> v < 2 ^ k \<Longrightarrow> int (umask k v) = v"
  by (simp add: umask_def)

section \<open>Searching\<close>

definition starts_with :: "'a list \<Rightarrow> 'a list \<Rightarrow> bool" where
  "starts_with p xs = (take (length p) xs = p)"

lemma starts_with_append [simp]: "starts_with p (p @ xs)"
  by (simp add: starts_with_def)

lemma starts_with_iff: "starts_with p xs \<longleftrightarrow> (\<exists>ys. xs = p @ ys)"
  by (auto simp: starts_with_def) (metis append_take_drop_id)

text \<open>\<open>body.find(p, start)\<close>: the least match position not below \<open>start\<close>.\<close>

fun find_at :: "'a list \<Rightarrow> 'a list \<Rightarrow> nat option" where
  "find_at p [] = (if p = [] then Some 0 else None)"
| "find_at p (x # xs) = (if starts_with p (x # xs) then Some 0 else map_option Suc (find_at p xs))"

definition find_from :: "'a list \<Rightarrow> 'a list \<Rightarrow> nat \<Rightarrow> nat option" where
  "find_from p xs start = (if length xs < start then None else map_option (\<lambda>i. start + i) (find_at p (drop start xs)))"

lemma find_at_Some: "find_at p xs = Some i \<Longrightarrow> i \<le> length xs \<and> starts_with p (drop i xs)"
proof (induction xs arbitrary: i)
  case Nil
  then show ?case by (simp add: starts_with_def split: if_splits)
next
  case (Cons x xs)
  then show ?case by (auto split: if_splits)
qed

lemma find_at_least: "find_at p xs = Some i \<Longrightarrow> j < i \<Longrightarrow> \<not> starts_with p (drop j xs)"
proof (induction xs arbitrary: i j)
  case Nil
  then show ?case by (simp split: if_splits)
next
  case (Cons x xs)
  then show ?case by (cases j) (auto split: if_splits)
qed

lemma find_at_None: "find_at p xs = None \<Longrightarrow> j \<le> length xs \<Longrightarrow> \<not> starts_with p (drop j xs)"
proof (induction xs arbitrary: j)
  case Nil
  then show ?case by (simp add: starts_with_def split: if_splits)
next
  case (Cons x xs)
  then show ?case by (cases j) (auto split: if_splits)
qed

lemma find_from_Some:
  "find_from p xs start = Some i \<Longrightarrow> start \<le> i \<and> i \<le> length xs \<and> starts_with p (drop i xs)"
  by (auto simp: find_from_def add.commute split: if_splits dest!: find_at_Some)

section \<open>Insertion-ordered dictionaries\<close>

text \<open>
  A Python \<open>dict\<close> is an association list in insertion order: \<open>map_of d k\<close> reads,
  \<open>AList.update k v d\<close> writes (in place, or appended when the key is new),
  \<open>AList.delete k d\<close> removes.  \<open>setdefault\<close> keeps an existing value.
\<close>

definition dict_setdefault :: "'k \<Rightarrow> 'v \<Rightarrow> ('k \<times> 'v) list \<Rightarrow> ('k \<times> 'v) list" where
  "dict_setdefault k v d = (if map_of d k = None then d @ [(k, v)] else d)"

lemma map_of_setdefault: "map_of (dict_setdefault k v d) k' = (if k' = k \<and> map_of d k = None then Some v else map_of d k')"
  by (auto simp: dict_setdefault_def map_add_def split: option.splits)

lemma distinct_setdefault: "distinct (map fst d) \<Longrightarrow> distinct (map fst (dict_setdefault k v d))"
  by (auto simp: dict_setdefault_def map_of_eq_None_iff)

text \<open>\<open>OrderedDict.move_to_end\<close> of a present key.\<close>

definition move_to_end :: "'k \<Rightarrow> ('k \<times> 'v) list \<Rightarrow> ('k \<times> 'v) list" where
  "move_to_end k d = (case map_of d k of None \<Rightarrow> d | Some v \<Rightarrow> AList.delete k d @ [(k, v)])"

lemma set_delete_subset: "set (AList.delete k d) \<subseteq> set d"
  by (auto simp: AList.delete_eq)

lemma set_move_to_end_subset: "set (move_to_end k d) \<subseteq> set d"
  using set_delete_subset[of k d] by (auto simp: move_to_end_def split: option.splits dest: map_of_SomeD)

lemma length_delete_present: "distinct (map fst d) \<Longrightarrow> map_of d k = Some v \<Longrightarrow> Suc (length (AList.delete k d)) = length d"
proof (induction d)
  case Nil
  then show ?case by simp
next
  case (Cons p d)
  show ?case
  proof (cases "fst p = k")
    case True
    with Cons.prems have "k \<notin> fst ` set d" by auto
    then have "AList.delete k d = d" by (rule AList.delete_id)
    with True show ?thesis by (cases p) simp
  next
    case False
    with Cons show ?thesis by (cases p) auto
  qed
qed

lemma length_move_to_end: "distinct (map fst d) \<Longrightarrow> length (move_to_end k d) = length d"
  by (auto simp: move_to_end_def length_delete_present split: option.splits)

lemma set_update_subset: "set (AList.update k v d) \<subseteq> insert (k, v) (set d)"
  by (induction d) auto

lemma length_update: "length (AList.update k v d) \<le> Suc (length d)"
  by (induction d) auto

lemma update_snoc: "k \<notin> fst ` set d \<Longrightarrow> AList.update k v d = d @ [(k, v)]"
  by (induction d) auto

lemma distinct_move_to_end: "distinct (map fst d) \<Longrightarrow> distinct (map fst (move_to_end k d))"
  using AList.delete_notin_dom[of k d]
  by (auto simp: move_to_end_def distinct_delete split: option.splits)

lemma map_of_move_to_end: "distinct (map fst d) \<Longrightarrow> map_of (move_to_end k d) = map_of d"
  by (auto simp: move_to_end_def map_add_def AList.delete_conv' fun_eq_iff split: option.splits)

lemma map_of_setD: "map_of d k = Some v \<Longrightarrow> (k, v) \<in> set d"
  by (rule map_of_SomeD)

lemma distinct_delete_snoc: "distinct (map fst d) \<Longrightarrow> distinct (map fst (AList.delete k d @ [(k, v)]))"
  using AList.delete_notin_dom[of k d] by (simp add: distinct_delete)

end
