(* ===== verification/Rc4.thy ===== *)
theory Rc4
  imports Prelude
begin

text \<open>
  \<open>server/carbon/transport/rc4.py\<close>: the RC4 transform of the ProtoTunnel layer with its
  checkpoint window.  A cipher state is the permutation table with the two indices
  \<open>i\<close> and \<open>j\<close>; the indices are 8-bit words, so the code's \<open>& 0xFF\<close> is their wrap-around.
  The module-level \<open>_checkpoints\<close> (an \<open>OrderedDict\<close> per key, in an \<open>OrderedDict\<close>) is an
  explicit association list, threaded through the functions that read or write it.
  The lemmas show that a transform through the checkpoints yields exactly the keystream
  of a fresh RC4 generator at the absolute position, and that the window stays bounded.
\<close>

section \<open>The generator\<close>

type_synonym rc4_state = "bytes \<times> byte \<times> byte"
type_synonym positions = "(nat \<times> rc4_state) list"
type_synonym checkpoints = "(bytes \<times> positions) list"

definition CHECKPOINTS_PER_KEY :: nat where
  "CHECKPOINTS_PER_KEY = 256"

definition CHECKPOINT_KEY_LIMIT :: nat where
  "CHECKPOINT_KEY_LIMIT = 32"

definition swap :: "nat \<Rightarrow> nat \<Rightarrow> bytes \<Rightarrow> bytes" where
  "swap a b st = (st[a := st ! b])[b := st ! a]"

definition ksa_step :: "bytes \<Rightarrow> bytes \<times> byte \<Rightarrow> nat \<Rightarrow> bytes \<times> byte" where
  "ksa_step key sj i =
     (let (st, j) = sj; j' = j + st ! i + key ! (i mod length key)
      in (swap i (unat j') st, j'))"

definition initial_state :: "bytes \<Rightarrow> rc4_state" where
  "initial_state key =
     (let (st, _) = foldl (ksa_step key) (map word_of_nat [0..<256], 0) [0..<256]
      in (st, 0, 0))"

definition prga_step :: "rc4_state \<Rightarrow> rc4_state" where
  "prga_step s =
     (let (st, i, j) = s; i' = i + 1; j' = j + st ! unat i'
      in (swap (unat i') (unat j') st, i', j'))"

definition stream_byte :: "rc4_state \<Rightarrow> byte" where
  "stream_byte s = (let (st, i, j) = s in st ! unat (st ! unat i + st ! unat j))"

fun skip_steps :: "nat \<Rightarrow> rc4_state \<Rightarrow> rc4_state" where
  "skip_steps 0 s = s"
| "skip_steps (Suc n) s = skip_steps n (prga_step s)"

fun crypt_loop :: "rc4_state \<Rightarrow> bytes \<Rightarrow> bytes \<times> rc4_state" where
  "crypt_loop s [] = ([], s)"
| "crypt_loop s (value # data) =
     (let s' = prga_step s; (out, s'') = crypt_loop s' data
      in ((value XOR stream_byte s') # out, s''))"

section \<open>The checkpoint window\<close>

text \<open>\<open>while len(d) > limit: d.popitem(last=False)\<close>.\<close>

fun evict :: "nat \<Rightarrow> 'a list \<Rightarrow> 'a list" where
  "evict limit [] = []"
| "evict limit (x # xs) = (if length (x # xs) > limit then evict limit xs else x # xs)"

definition remember_state :: "bytes \<Rightarrow> nat \<Rightarrow> rc4_state \<Rightarrow> checkpoints \<Rightarrow> checkpoints" where
  "remember_state key position snapshot cps =
     (let cps1 = move_to_end key (dict_setdefault key [] cps);
          positions = (case map_of cps1 key of None \<Rightarrow> [] | Some p \<Rightarrow> p);
          positions1 = move_to_end position (AList.update position snapshot positions);
          positions2 = evict CHECKPOINTS_PER_KEY positions1
      in evict CHECKPOINT_KEY_LIMIT (AList.update key positions2 cps1))"

definition nearest_step ::
  "nat \<Rightarrow> int \<times> rc4_state option \<Rightarrow> nat \<times> rc4_state \<Rightarrow> int \<times> rc4_state option" where
  "nearest_step position acc c =
     (if fst acc < int (fst c) \<and> fst c \<le> position then (int (fst c), Some (snd c)) else acc)"

definition nearest_checkpoint :: "nat \<Rightarrow> positions \<Rightarrow> int \<times> rc4_state option" where
  "nearest_checkpoint position positions = foldl (nearest_step position) (-1, None) positions"

definition state_at :: "bytes \<Rightarrow> nat \<Rightarrow> checkpoints \<Rightarrow> rc4_state \<times> checkpoints" where
  "state_at key position cps =
     (let found = map_of cps key;
          cps1 = (case found of None \<Rightarrow> cps | Some _ \<Rightarrow> move_to_end key cps);
          positions = (case found of None \<Rightarrow> [] | Some p \<Rightarrow> p)
      in case map_of positions position of
           Some exact \<Rightarrow> (exact, AList.update key (move_to_end position positions) cps1)
         | None \<Rightarrow>
             (let (nearest_position, nearest) = nearest_checkpoint position positions;
                  (s, current_position) =
                    (case nearest of None \<Rightarrow> (initial_state key, 0)
                     | Some snapshot \<Rightarrow> (snapshot, nat nearest_position));
                  s' = skip_steps (position - current_position) s
              in (s', remember_state key position s' cps1)))"

datatype rc4_error = NegativeSkip

definition rc4_xor :: "checkpoints \<Rightarrow> bytes \<Rightarrow> bytes \<Rightarrow> int \<Rightarrow> rc4_error + bytes \<times> checkpoints" where
  "rc4_xor cps data key skip =
     (if key = [] then Inr (data, cps)
      else if skip < 0 then Inl NegativeSkip
      else let (s, cps1) = state_at key (nat skip) cps;
               (output, s') = crypt_loop s data
           in Inr (output, remember_state key (nat skip + length data) s' cps1))"

section \<open>Reference: the keystream of a fresh generator\<close>

definition state_ref :: "bytes \<Rightarrow> nat \<Rightarrow> rc4_state" where
  "state_ref key n = skip_steps n (initial_state key)"

definition keystream :: "bytes \<Rightarrow> nat \<Rightarrow> byte" where
  "keystream key n = stream_byte (state_ref key (Suc n))"

definition rc4_bytes :: "bytes \<Rightarrow> nat \<Rightarrow> bytes \<Rightarrow> bytes" where
  "rc4_bytes key skip data =
     (if key = [] then data
      else map2 (\<lambda>x n. x XOR keystream key n) data [skip ..< skip + length data])"

section \<open>The generator's table stays a permutation\<close>

definition rc4_wf :: "rc4_state \<Rightarrow> bool" where
  "rc4_wf s \<longleftrightarrow> length (fst s) = 256 \<and> distinct (fst s)"

lemma length_swap [simp]: "length (swap a b st) = length st"
  by (simp add: swap_def)

lemma mset_swap: "a < length st \<Longrightarrow> b < length st \<Longrightarrow> set (swap a b st) = set st \<and> (distinct (swap a b st) = distinct st)"
  using set_swap[of a st b] distinct_swap[of a st b] by (simp add: swap_def)

lemma rc4_wf_prga: "rc4_wf s \<Longrightarrow> rc4_wf (prga_step s)"
  by (cases s) (simp add: rc4_wf_def prga_step_def Let_def mset_swap)

lemma rc4_wf_skip: "rc4_wf s \<Longrightarrow> rc4_wf (skip_steps n s)"
  by (induction n arbitrary: s) (simp_all add: rc4_wf_prga)

lemma ksa_step_wf:
  assumes "length (fst sj) = 256" "distinct (fst sj)" "i < 256"
  shows "length (fst (ksa_step key sj i)) = 256 \<and> distinct (fst (ksa_step key sj i))"
  using assms by (cases sj) (simp add: ksa_step_def Let_def mset_swap)

lemma ksa_fold_wf:
  "length (fst sj) = 256 \<Longrightarrow> distinct (fst sj) \<Longrightarrow> \<forall>i\<in>set is. i < 256 \<Longrightarrow>
   length (fst (foldl (ksa_step key) sj is)) = 256 \<and> distinct (fst (foldl (ksa_step key) sj is))"
proof (induction "is" arbitrary: sj)
  case Nil
  then show ?case by simp
next
  case (Cons i "is")
  then show ?case using ksa_step_wf[of sj i key] by simp
qed

lemma identity_table_distinct: "distinct (map word_of_nat [0..<256] :: bytes)"
  by (simp add: distinct_map inj_on_def word_unat_eq_iff unat_word_of_nat_byte)

lemma rc4_wf_initial: "rc4_wf (initial_state key)"
  using ksa_fold_wf[of "(map word_of_nat [0..<256], 0)" "[0..<256]" key] identity_table_distinct
  by (cases "foldl (ksa_step key) (map word_of_nat [0..<256], 0) [0..<256]")
    (simp add: initial_state_def rc4_wf_def)

section \<open>Positions compose\<close>

lemma skip_steps_add: "skip_steps m (skip_steps n s) = skip_steps (n + m) s"
  by (induction n arbitrary: s) simp_all

lemma prga_skip: "prga_step (skip_steps n s) = skip_steps (Suc n) s"
  using skip_steps_add[of 1 n s] by simp

lemma state_ref_add: "skip_steps m (state_ref key n) = state_ref key (n + m)"
  by (simp add: state_ref_def skip_steps_add)

lemma prga_state_ref: "prga_step (state_ref key n) = state_ref key (Suc n)"
  by (simp add: state_ref_def prga_skip)

lemma crypt_loop_ref:
  "crypt_loop (state_ref key n) data =
   (map2 (\<lambda>x m. x XOR keystream key m) data [n ..< n + length data], state_ref key (n + length data))"
proof (induction data arbitrary: n)
  case Nil
  then show ?case by simp
next
  case (Cons x data)
  have "[n ..< n + length (x # data)] = n # [Suc n ..< Suc n + length data]"
    by (simp add: upt_conv_Cons del: upt_Suc)
  then show ?case
    using Cons.IH[of "Suc n"] by (simp add: prga_state_ref keystream_def Let_def del: upt_Suc)
qed

section \<open>The window holds only true positions, and few of them\<close>

definition positions_sound :: "bytes \<Rightarrow> positions \<Rightarrow> bool" where
  "positions_sound key ps \<longleftrightarrow> (\<forall>(p, s) \<in> set ps. s = state_ref key p)"

definition checkpoints_sound :: "checkpoints \<Rightarrow> bool" where
  "checkpoints_sound cps \<longleftrightarrow> (\<forall>(key, ps) \<in> set cps. positions_sound key ps)"

definition checkpoints_bounded :: "checkpoints \<Rightarrow> bool" where
  "checkpoints_bounded cps \<longleftrightarrow>
     distinct (map fst cps) \<and> length cps \<le> CHECKPOINT_KEY_LIMIT
     \<and> (\<forall>(key, ps) \<in> set cps. distinct (map fst ps) \<and> length ps \<le> CHECKPOINTS_PER_KEY)"

lemma evict_drop: "evict limit xs = drop (length xs - limit) xs"
  by (induction xs) (auto simp: Suc_diff_le drop_Cons')

lemma set_evict: "set (evict limit xs) \<subseteq> set xs"
  by (simp add: evict_drop set_drop_subset)

lemma length_evict: "length (evict limit xs) \<le> limit"
  by (simp add: evict_drop)

lemma distinct_evict: "distinct (map fst xs) \<Longrightarrow> distinct (map fst (evict limit xs))"
  by (simp add: evict_drop drop_map[symmetric] distinct_drop)

lemma positions_sound_subset: "positions_sound key ps \<Longrightarrow> set qs \<subseteq> set ps \<Longrightarrow> positions_sound key qs"
  by (auto simp: positions_sound_def)

lemma checkpoints_sound_subset: "checkpoints_sound cps \<Longrightarrow> set cps' \<subseteq> set cps \<Longrightarrow> checkpoints_sound cps'"
  by (auto simp: checkpoints_sound_def)

lemma checkpoints_sound_update:
  "checkpoints_sound cps \<Longrightarrow> positions_sound key ps \<Longrightarrow> checkpoints_sound (AList.update key ps cps)"
  using set_update_subset[of key ps cps] by (auto simp: checkpoints_sound_def)

lemma checkpoints_sound_move: "checkpoints_sound cps \<Longrightarrow> checkpoints_sound (move_to_end key cps)"
  by (rule checkpoints_sound_subset[OF _ set_move_to_end_subset])

lemma checkpoints_sound_lookup: "checkpoints_sound cps \<Longrightarrow> map_of cps key = Some ps \<Longrightarrow> positions_sound key ps"
  by (auto simp: checkpoints_sound_def dest: map_of_SomeD)

lemma checkpoints_sound_setdefault: "checkpoints_sound cps \<Longrightarrow> checkpoints_sound (dict_setdefault key [] cps)"
  by (auto simp: dict_setdefault_def checkpoints_sound_def positions_sound_def)

lemma positions_sound_update:
  "positions_sound key ps \<Longrightarrow> s = state_ref key p \<Longrightarrow> positions_sound key (AList.update p s ps)"
  using set_update_subset[of p s ps] by (auto simp: positions_sound_def)

lemma remember_state_sound:
  assumes "checkpoints_sound cps" "s = state_ref key p"
  shows "checkpoints_sound (remember_state key p s cps)"
proof -
  let ?cps1 = "move_to_end key (dict_setdefault key [] cps)"
  let ?ps = "case map_of ?cps1 key of None \<Rightarrow> [] | Some ps \<Rightarrow> ps"
  have c1: "checkpoints_sound ?cps1"
    by (intro checkpoints_sound_move checkpoints_sound_setdefault assms(1))
  have "positions_sound key ?ps"
    by (auto simp: positions_sound_def[of key "[]"] intro: checkpoints_sound_lookup[OF c1] split: option.splits)
  then have "positions_sound key (AList.update p s ?ps)"
    by (rule positions_sound_update) (rule assms(2))
  then have "positions_sound key (evict CHECKPOINTS_PER_KEY (move_to_end p (AList.update p s ?ps)))"
    by (rule positions_sound_subset) (rule order_trans[OF set_evict set_move_to_end_subset])
  with c1 show ?thesis
    unfolding remember_state_def Let_def
    by (intro checkpoints_sound_subset[OF checkpoints_sound_update set_evict])
qed

lemma remember_state_bounded:
  assumes "checkpoints_bounded cps"
  shows "checkpoints_bounded (remember_state key p s cps)"
proof -
  let ?cps1 = "move_to_end key (dict_setdefault key [] cps)"
  let ?ps = "case map_of ?cps1 key of None \<Rightarrow> [] | Some ps \<Rightarrow> ps"
  let ?ps2 = "evict CHECKPOINTS_PER_KEY (move_to_end p (AList.update p s ?ps))"
  have d1: "distinct (map fst ?cps1)"
    using assms by (intro distinct_move_to_end distinct_setdefault) (simp add: checkpoints_bounded_def)
  have "set ?cps1 \<subseteq> insert (key, []) (set cps)"
    using set_move_to_end_subset[of key "dict_setdefault key [] cps"] by (auto simp: dict_setdefault_def split: if_splits)
  with assms have e1: "\<forall>(k, ps) \<in> set ?cps1. distinct (map fst ps) \<and> length ps \<le> CHECKPOINTS_PER_KEY"
    by (auto simp: checkpoints_bounded_def)
  then have "distinct (map fst ?ps)"
    by (auto dest: map_of_SomeD split: option.splits)
  then have p2: "distinct (map fst ?ps2)"
    by (intro distinct_evict distinct_move_to_end distinct_update)
  have "set (AList.update key ?ps2 ?cps1) \<subseteq> insert (key, ?ps2) (set ?cps1)"
    by (rule set_update_subset)
  with set_evict[of CHECKPOINT_KEY_LIMIT "AList.update key ?ps2 ?cps1"]
  have sub: "set (remember_state key p s cps) \<subseteq> insert (key, ?ps2) (set ?cps1)"
    by (simp add: remember_state_def Let_def)
  have "distinct (map fst (remember_state key p s cps))"
    using d1 by (simp add: remember_state_def Let_def distinct_evict distinct_update)
  moreover have "length (remember_state key p s cps) \<le> CHECKPOINT_KEY_LIMIT"
    by (simp add: remember_state_def Let_def length_evict)
  moreover have "\<forall>(k, ps) \<in> set (remember_state key p s cps). distinct (map fst ps) \<and> length ps \<le> CHECKPOINTS_PER_KEY"
    using sub e1 p2 length_evict[of CHECKPOINTS_PER_KEY] by fastforce
  ultimately show ?thesis by (simp add: checkpoints_bounded_def)
qed

section \<open>Seeking and transforming\<close>

definition nearest_ok :: "bytes \<Rightarrow> nat \<Rightarrow> int \<times> rc4_state option \<Rightarrow> bool" where
  "nearest_ok key position acc \<longleftrightarrow>
     (\<forall>s. snd acc = Some s \<longrightarrow> nat (fst acc) \<le> position \<and> s = state_ref key (nat (fst acc)))"

lemma nearest_step_ok:
  "nearest_ok key position acc \<Longrightarrow> snd c = state_ref key (fst c) \<Longrightarrow> nearest_ok key position (nearest_step position acc c)"
  by (simp add: nearest_ok_def nearest_step_def)

lemma nearest_fold_ok:
  "nearest_ok key position acc \<Longrightarrow> positions_sound key ps \<Longrightarrow> nearest_ok key position (foldl (nearest_step position) acc ps)"
proof (induction ps arbitrary: acc)
  case Nil
  then show ?case by simp
next
  case (Cons c ps)
  then have "snd c = state_ref key (fst c)" "positions_sound key ps"
    by (auto simp: positions_sound_def)
  with Cons show ?case by (simp add: nearest_step_ok)
qed

lemma nearest_checkpoint_sound:
  assumes "positions_sound key ps" "nearest_checkpoint position ps = (np, Some s)"
  shows "nat np \<le> position \<and> s = state_ref key (nat np)"
  using nearest_fold_ok[of key position "(-1, None)" ps] assms
  by (cases s) (simp add: nearest_checkpoint_def nearest_ok_def)

lemma checkpoints_bounded_move: "checkpoints_bounded cps \<Longrightarrow> checkpoints_bounded (move_to_end key cps)"
  using set_move_to_end_subset[of key cps]
  by (auto simp: checkpoints_bounded_def distinct_move_to_end length_move_to_end)

lemma length_update_present: "map_of d k = Some v \<Longrightarrow> length (AList.update k w d) = length d"
  by (induction d) (auto split: if_splits)

lemma checkpoints_bounded_update:
  assumes "checkpoints_bounded cps" "map_of cps key = Some ps0"
    and "distinct (map fst ps)" "length ps \<le> CHECKPOINTS_PER_KEY"
  shows "checkpoints_bounded (AList.update key ps cps)"
  using assms set_update_subset[of key ps cps]
  by (auto simp: checkpoints_bounded_def distinct_update length_update_present)

lemma checkpoints_bounded_lookup:
  "checkpoints_bounded cps \<Longrightarrow> map_of cps key = Some ps \<Longrightarrow> distinct (map fst ps) \<and> length ps \<le> CHECKPOINTS_PER_KEY"
  by (auto simp: checkpoints_bounded_def dest: map_of_SomeD)

lemma state_at_exact:
  assumes "checkpoints_sound cps" "checkpoints_bounded cps"
    and "map_of cps key = Some ps" "map_of ps position = Some s"
  shows "state_at key position cps
    = (s, AList.update key (move_to_end position ps) (move_to_end key cps))"
    and "s = state_ref key position"
    and "checkpoints_sound (snd (state_at key position cps))"
    and "checkpoints_bounded (snd (state_at key position cps))"
proof -
  show eq: "state_at key position cps
    = (s, AList.update key (move_to_end position ps) (move_to_end key cps))"
    using assms by (simp add: state_at_def)
  have sound: "positions_sound key ps" using assms by (blast intro: checkpoints_sound_lookup)
  then show "s = state_ref key position" using assms(4) by (auto simp: positions_sound_def dest: map_of_SomeD)
  from sound have "positions_sound key (move_to_end position ps)"
    by (rule positions_sound_subset[OF _ set_move_to_end_subset])
  then show "checkpoints_sound (snd (state_at key position cps))"
    by (simp add: eq checkpoints_sound_update checkpoints_sound_move assms(1))
  have b: "distinct (map fst ps) \<and> length ps \<le> CHECKPOINTS_PER_KEY"
    using checkpoints_bounded_lookup[OF assms(2,3)] .
  have "map_of (move_to_end key cps) key = Some ps"
    using assms(2,3) by (simp add: map_of_move_to_end checkpoints_bounded_def)
  with b show "checkpoints_bounded (snd (state_at key position cps))"
    by (simp add: eq checkpoints_bounded_update[OF checkpoints_bounded_move[OF assms(2)]]
        distinct_move_to_end length_move_to_end)
qed

lemma state_at_seek:
  assumes "checkpoints_sound cps" "checkpoints_bounded cps"
    and miss: "\<And>ps. map_of cps key = Some ps \<Longrightarrow> map_of ps position = None"
  shows "fst (state_at key position cps) = state_ref key position
    \<and> checkpoints_sound (snd (state_at key position cps))
    \<and> checkpoints_bounded (snd (state_at key position cps))"
proof -
  define ps where "ps = (case map_of cps key of None \<Rightarrow> [] | Some p \<Rightarrow> p)"
  define cps1 where "cps1 = (case map_of cps key of None \<Rightarrow> cps | Some _ \<Rightarrow> move_to_end key cps)"
  obtain np near where near: "nearest_checkpoint position ps = (np, near)" by fastforce
  define s where "s = (case near of None \<Rightarrow> skip_steps position (initial_state key)
     | Some snap \<Rightarrow> skip_steps (position - nat np) snap)"
  have ps_sound: "positions_sound key ps"
    using assms(1) by (auto simp: ps_def positions_sound_def[of key "[]"] intro: checkpoints_sound_lookup split: option.splits)
  have s_ref: "s = state_ref key position"
  proof (cases near)
    case None
    then show ?thesis by (simp add: s_def state_ref_def)
  next
    case (Some snap)
    with near nearest_checkpoint_sound[OF ps_sound] have "nat np \<le> position" "snap = state_ref key (nat np)" by auto
    with Some show ?thesis by (simp add: s_def state_ref_add)
  qed
  have c1: "checkpoints_sound cps1" "checkpoints_bounded cps1"
    using assms(1,2) by (auto simp: cps1_def checkpoints_sound_move checkpoints_bounded_move split: option.splits)
  have "map_of ps position = None"
    using miss by (auto simp: ps_def split: option.splits)
  then have "state_at key position cps = (s, remember_state key position s cps1)"
    by (simp add: state_at_def ps_def[symmetric] cps1_def[symmetric] near s_def Let_def split: option.splits)
  with c1 s_ref show ?thesis
    by (simp add: remember_state_sound remember_state_bounded)
qed

lemma state_at_correct:
  assumes "checkpoints_sound cps" "checkpoints_bounded cps"
  shows "fst (state_at key position cps) = state_ref key position
    \<and> checkpoints_sound (snd (state_at key position cps))
    \<and> checkpoints_bounded (snd (state_at key position cps))"
proof (cases "\<exists>ps s. map_of cps key = Some ps \<and> map_of ps position = Some s")
  case True
  then obtain ps s where "map_of cps key = Some ps" "map_of ps position = Some s" by blast
  from state_at_exact[OF assms this] show ?thesis by simp
next
  case False
  then show ?thesis by (intro state_at_seek[OF assms]) fastforce
qed

lemma length_rc4_bytes [simp]: "length (rc4_bytes key n data) = length data"
  by (simp add: rc4_bytes_def)

lemma rc4_bytes_nth:
  "key \<noteq> [] \<Longrightarrow> i < length data \<Longrightarrow> rc4_bytes key n data ! i = data ! i XOR keystream key (n + i)"
  by (simp add: rc4_bytes_def)

lemma rc4_bytes_involution: "rc4_bytes key n (rc4_bytes key n data) = data"
proof (cases "key = []")
  case True
  then show ?thesis by (simp add: rc4_bytes_def)
next
  case False
  show ?thesis
    by (rule nth_equalityI) (simp_all add: rc4_bytes_nth False xor.assoc)
qed

lemma rc4_bytes_append:
  "rc4_bytes key n (xs @ ys) = rc4_bytes key n xs @ rc4_bytes key (n + length xs) ys"
proof (cases "key = []")
  case True
  then show ?thesis by (simp add: rc4_bytes_def)
next
  case False
  show ?thesis
    by (rule nth_equalityI) (auto simp: rc4_bytes_nth False nth_append add.assoc)
qed

lemma rc4_xor_run:
  assumes "checkpoints_sound cps" "checkpoints_bounded cps" "key \<noteq> []" "0 \<le> skip"
  shows "\<exists>cps'. rc4_xor cps data key skip = Inr (rc4_bytes key (nat skip) data, cps')
    \<and> checkpoints_sound cps' \<and> checkpoints_bounded cps'"
proof -
  obtain s cps1 where sa: "state_at key (nat skip) cps = (s, cps1)" by fastforce
  with state_at_correct[OF assms(1,2), of key "nat skip"]
  have s: "s = state_ref key (nat skip)" and c1: "checkpoints_sound cps1" "checkpoints_bounded cps1" by auto
  let ?s' = "state_ref key (nat skip + length data)"
  let ?cps' = "remember_state key (nat skip + length data) ?s' cps1"
  have "rc4_xor cps data key skip = Inr (rc4_bytes key (nat skip) data, ?cps')"
    using assms(3,4) by (simp add: rc4_xor_def sa s crypt_loop_ref rc4_bytes_def del: upt_Suc)
  moreover have "checkpoints_sound ?cps'" "checkpoints_bounded ?cps'"
    using c1 by (simp_all add: remember_state_sound remember_state_bounded)
  ultimately show ?thesis by blast
qed

section \<open>Properties\<close>

text \<open>
  C2. Whatever the checkpoint window holds, as long as its entries are true positions,
  \<open>rc4_xor\<close> returns the data combined with the keystream of a fresh RC4 generator at the
  absolute position \<open>skip\<close>; the window it leaves is again sound and within its two limits.
  An empty key returns the data unchanged and a negative \<open>skip\<close> raises, window untouched.
\<close>

theorem rc4_xor_refines_fresh_stream:
  assumes "checkpoints_sound cps" and "checkpoints_bounded cps"
  shows "case rc4_xor cps data key skip of
      Inl e \<Rightarrow> e = NegativeSkip \<and> key \<noteq> [] \<and> skip < 0
    | Inr (output, cps') \<Rightarrow> (key = [] \<or> 0 \<le> skip) \<and> output = rc4_bytes key (nat skip) data
        \<and> checkpoints_sound cps' \<and> checkpoints_bounded cps'"
proof (cases "key = [] \<or> skip < 0")
  case True
  then show ?thesis using assms by (auto simp: rc4_xor_def rc4_bytes_def)
next
  case False
  then have "key \<noteq> []" "0 \<le> skip" by auto
  from rc4_xor_run[OF assms this, of data] obtain cps'
    where "rc4_xor cps data key skip = Inr (rc4_bytes key (nat skip) data, cps')"
      "checkpoints_sound cps'" "checkpoints_bounded cps'" by blast
  with \<open>0 \<le> skip\<close> show ?thesis by simp
qed

theorem rc4_xor_refines_fresh_stream_witness:
  "checkpoints_sound [] \<and> checkpoints_bounded []
   \<and> (case rc4_xor [] [1, 2, 3] [7, 9] 5 of Inl e \<Rightarrow> False
      | Inr (output, cps') \<Rightarrow> output = rc4_bytes [7, 9] 5 [1, 2, 3])"
proof -
  have h: "checkpoints_sound []" "checkpoints_bounded []"
    by (simp_all add: checkpoints_sound_def checkpoints_bounded_def)
  show ?thesis
    using h rc4_xor_refines_fresh_stream[OF h, where data = "[1, 2, 3]" and key = "[7, 9]" and skip = 5]
    by (auto split: sum.splits prod.splits)
qed

text \<open>
  A receiver that transforms a transformed packet at the same position, through its own
  window, gets the packet back: encryption and decryption are one operation.
\<close>

theorem rc4_xor_roundtrip:
  assumes "checkpoints_sound cps" "checkpoints_bounded cps" "checkpoints_sound cps2" "checkpoints_bounded cps2"
    and "rc4_xor cps data key skip = Inr (wire, cps')"
  shows "\<exists>cps2'. rc4_xor cps2 wire key skip = Inr (data, cps2')"
proof (cases "key = []")
  case True
  with assms(5) show ?thesis by (simp add: rc4_xor_def)
next
  case False
  with assms(5) have pos: "0 \<le> skip" by (simp add: rc4_xor_def split: if_splits)
  from rc4_xor_run[OF assms(1,2) False pos, of data] assms(5)
  have "wire = rc4_bytes key (nat skip) data" by auto
  with rc4_xor_run[OF assms(3,4) False pos, of wire] show ?thesis
    by (metis rc4_bytes_involution)
qed

theorem rc4_xor_roundtrip_witness:
  "\<exists>wire cps' cps2'. rc4_xor [] [10, 20] [1, 2, 3] 8 = Inr (wire, cps') \<and> rc4_xor [] wire [1, 2, 3] 8 = Inr ([10, 20], cps2')"
proof -
  have h: "checkpoints_sound []" "checkpoints_bounded []"
    by (simp_all add: checkpoints_sound_def checkpoints_bounded_def)
  have "\<exists>wire cps'. rc4_xor [] [10, 20] [1, 2, 3] 8 = Inr (wire, cps')"
    using rc4_xor_run[OF h, where key = "[1, 2, 3]" and skip = 8 and data = "[10, 20]"] by auto
  then obtain wire cps' where "rc4_xor [] [10, 20] [1, 2, 3] 8 = Inr (wire, cps')" by blast
  with rc4_xor_roundtrip[OF h h this] show ?thesis by blast
qed

end
