(* ===== verification/ProtoTunnel.thy ===== *)
theory ProtoTunnel
  imports Rc4
begin

text \<open>
  \<open>server/carbon/transport/prototunnel.py\<close>: the ProtoTunnel datagram codec.  A datagram
  is a 16-bit stream offset, an encrypted table of two-byte subpacket descriptors and
  the bodies, of which those on encrypted channels are enciphered.  The codec takes the
  cipher as an argument (\<open>crypt key skip data\<close>, the code's \<open>rc4_xor(data, key, skip=skip)\<close>);
  the locale \<open>tunnel_cipher\<close> names what it relies on, and \<open>Rc4.rc4_bytes\<close>, the function
  \<open>rc4_xor\<close> is proved to compute, is the instance.
\<close>

section \<open>Packets and errors\<close>

record tunnel_packet =
  tp_channel :: int
  tp_payload :: bytes

record tunnel_datagram =
  td_offset_words :: int
  td_packets :: "tunnel_packet list"

datatype tunnel_error =
    TruncatedDatagram
  | NegativeStreamOffset
  | ExceedsReceiveBuffer
  | InvalidSubpacketTable
  | OffsetOutOfRange
  | EmptyDatagram
  | ChannelOutOfRange int
  | SubpacketLengthOutOfRange nat
  | IdentityNotSixBytes
  | MultipleIdentities
  | VirtualQueueExceeded
  | ExceedsNativeBuffer

type_synonym crypt_fn = "bytes \<Rightarrow> nat \<Rightarrow> bytes \<Rightarrow> bytes"

definition DEFAULT_ENCRYPTED_CHANNELS :: "int set" where
  "DEFAULT_ENCRYPTED_CHANNELS = {1, 2, 7}"

definition NATIVE_MAX_VIRTUAL_PACKETS :: nat where
  "NATIVE_MAX_VIRTUAL_PACKETS = 8"

definition NATIVE_MAX_UDP_BYTES :: nat where
  "NATIVE_MAX_UDP_BYTES = 1000"

definition NATIVE_MAX_VIRTUAL_PAYLOAD :: nat where
  "NATIVE_MAX_VIRTUAL_PAYLOAD = 0x3E3"

definition cipher_region_size :: "tunnel_packet list \<Rightarrow> int set \<Rightarrow> nat" where
  "cipher_region_size packets encrypted =
     2 * length packets
     + sum_list (map (\<lambda>p. length (tp_payload p)) (filter (\<lambda>p. tp_channel p \<in> encrypted) packets))"

section \<open>Decoding\<close>

text \<open>The descriptor loop: \<open>None\<close> is the early return on a zero length.\<close>

definition descriptor_length :: "byte \<Rightarrow> byte \<Rightarrow> nat" where
  "descriptor_length first second = push_bit 4 (unat first) OR drop_bit 4 (unat second)"

definition descriptor_channel :: "byte \<Rightarrow> int" where
  "descriptor_channel second = int (unat second AND 0x0F)"

fun parse_headers :: "nat \<Rightarrow> bytes \<Rightarrow> (int \<times> nat) list option" where
  "parse_headers (Suc n) (first # second # rest) =
     (if descriptor_length first second \<le> 0 then None
      else map_option ((#) (descriptor_channel second, descriptor_length first second))
             (parse_headers n rest))"
| "parse_headers n clear = Some []"

fun read_bodies ::
  "crypt_fn \<Rightarrow> bytes \<Rightarrow> bytes \<Rightarrow> nat \<Rightarrow> int set \<Rightarrow> nat \<Rightarrow> nat \<Rightarrow> (int \<times> nat) list \<Rightarrow> tunnel_packet list" where
  "read_bodies crypt payload key offset encrypted cursor consumed [] = []"
| "read_bodies crypt payload key offset encrypted cursor consumed ((channel, len) # headers) =
     (let raw_body = slice cursor (cursor + len) payload
      in if channel \<in> encrypted
         then \<lparr>tp_channel = channel, tp_payload = crypt key (offset + consumed) raw_body\<rparr>
              # read_bodies crypt payload key offset encrypted (cursor + len) (consumed + len) headers
         else \<lparr>tp_channel = channel, tp_payload = raw_body\<rparr>
              # read_bodies crypt payload key offset encrypted (cursor + len) consumed headers)"

definition decode_candidate ::
  "crypt_fn \<Rightarrow> bytes \<Rightarrow> bytes \<Rightarrow> nat \<Rightarrow> nat \<Rightarrow> int set \<Rightarrow> tunnel_packet list option" where
  "decode_candidate crypt payload key offset header_count encrypted =
     (let headers_size = header_count * 2
      in if 2 + headers_size \<ge> length payload then None
         else case parse_headers header_count (crypt key offset (slice 2 (2 + headers_size) payload)) of
                None \<Rightarrow> None
              | Some headers \<Rightarrow>
                  (let bodies_start = 2 + headers_size; payload_size = sum_list (map snd headers)
                   in if bodies_start + payload_size \<noteq> length payload then None
                      else Some (read_bodies crypt payload key offset encrypted bodies_start headers_size headers)))"

fun first_candidate :: "(nat \<Rightarrow> tunnel_packet list option) \<Rightarrow> nat list \<Rightarrow> tunnel_packet list option" where
  "first_candidate candidate [] = None"
| "first_candidate candidate (n_headers # header_counts) =
     (case candidate n_headers of
        Some (p # ps) \<Rightarrow> Some (p # ps)
      | _ \<Rightarrow> first_candidate candidate header_counts)"

definition decode_datagram ::
  "crypt_fn \<Rightarrow> bytes \<Rightarrow> bytes \<Rightarrow> int option \<Rightarrow> int set \<Rightarrow> tunnel_error + tunnel_datagram" where
  "decode_datagram crypt payload key stream_offset_words encrypted =
     (if length payload < 4 then Inl TruncatedDatagram
      else let offset_words = be_nat (slice 0 2 payload);
               cipher_offset_words = (case stream_offset_words of None \<Rightarrow> int offset_words | Some v \<Rightarrow> v)
           in if cipher_offset_words < 0 then Inl NegativeStreamOffset
              else if length payload > NATIVE_MAX_UDP_BYTES then Inl ExceedsReceiveBuffer
              else let max_headers = min (NATIVE_MAX_VIRTUAL_PACKETS + 1) ((length payload - 2) div 2);
                       offset = nat cipher_offset_words * 4
                   in case first_candidate
                             (\<lambda>n_headers. decode_candidate crypt payload key offset n_headers encrypted)
                             [1 ..< max_headers + 1] of
                        Some packets \<Rightarrow> Inr \<lparr>td_offset_words = int offset_words, td_packets = packets\<rparr>
                      | None \<Rightarrow> Inl InvalidSubpacketTable)"

section \<open>Encoding\<close>

fun check_packets :: "tunnel_packet list \<Rightarrow> tunnel_error + tunnel_packet list" where
  "check_packets [] = Inr []"
| "check_packets (p # ps) =
     (if \<not> (0 \<le> tp_channel p \<and> tp_channel p \<le> 0x0F) then Inl (ChannelOutOfRange (tp_channel p))
      else if \<not> (0 < length (tp_payload p) \<and> length (tp_payload p) \<le> NATIVE_MAX_VIRTUAL_PAYLOAD)
        then Inl (SubpacketLengthOutOfRange (length (tp_payload p)))
      else if tp_channel p = 7 \<and> length (tp_payload p) \<noteq> 6 then Inl IdentityNotSixBytes
      else rbind (check_packets ps) (\<lambda>normalized. Inr (p # normalized)))"

definition order_packets :: "int set \<Rightarrow> tunnel_packet list \<Rightarrow> tunnel_packet list" where
  "order_packets encrypted normalized =
     filter (\<lambda>p. tp_channel p = 7) normalized
     @ filter (\<lambda>p. tp_channel p \<noteq> 7 \<and> tp_channel p \<in> encrypted) normalized
     @ filter (\<lambda>p. tp_channel p \<notin> encrypted) normalized"

definition descriptor_bytes :: "tunnel_packet \<Rightarrow> bytes" where
  "descriptor_bytes p =
     [word_of_nat (drop_bit 4 (length (tp_payload p))),
      word_of_nat (push_bit 4 (length (tp_payload p) AND 0x0F) OR nat (tp_channel p))]"

fun encode_bodies ::
  "crypt_fn \<Rightarrow> bytes \<Rightarrow> nat \<Rightarrow> int set \<Rightarrow> nat \<Rightarrow> tunnel_packet list \<Rightarrow> bytes" where
  "encode_bodies crypt key offset encrypted consumed [] = []"
| "encode_bodies crypt key offset encrypted consumed (p # ps) =
     (if tp_channel p \<in> encrypted
      then crypt key (offset + consumed) (tp_payload p)
           @ encode_bodies crypt key offset encrypted (consumed + length (tp_payload p)) ps
      else tp_payload p @ encode_bodies crypt key offset encrypted consumed ps)"

definition wire_size :: "tunnel_packet list \<Rightarrow> nat" where
  "wire_size ordered = 2 + 2 * length ordered + sum_list (map (\<lambda>p. length (tp_payload p)) ordered)"

definition encode_datagram ::
  "crypt_fn \<Rightarrow> tunnel_packet list \<Rightarrow> bytes \<Rightarrow> int \<Rightarrow> int option \<Rightarrow> int set \<Rightarrow> tunnel_error + bytes" where
  "encode_datagram crypt packets key offset_words stream_offset_words encrypted =
     (if \<not> (0 \<le> offset_words \<and> offset_words \<le> 0xFFFF) then Inl OffsetOutOfRange
      else let cipher_offset_words = (case stream_offset_words of None \<Rightarrow> offset_words | Some v \<Rightarrow> v)
      in if cipher_offset_words < 0 then Inl NegativeStreamOffset
      else if packets = [] then Inl EmptyDatagram
      else rbind (check_packets packets) (\<lambda>normalized.
        let identity_count = length (filter (\<lambda>p. tp_channel p = 7) normalized)
        in if identity_count > 1 then Inl MultipleIdentities
        else if length normalized - identity_count > NATIVE_MAX_VIRTUAL_PACKETS then Inl VirtualQueueExceeded
        else let ordered = order_packets encrypted normalized
        in if wire_size ordered > NATIVE_MAX_UDP_BYTES then Inl ExceedsNativeBuffer
        else let headers = concat (map descriptor_bytes ordered);
                 offset = nat cipher_offset_words * 4
             in Inr (to_be 2 (nat offset_words)
                     @ crypt key offset headers
                     @ encode_bodies crypt key offset encrypted (length headers) ordered)))"

definition encode_tunnel_datagram :: "crypt_fn \<Rightarrow> tunnel_datagram \<Rightarrow> bytes \<Rightarrow> tunnel_error + bytes" where
  "encode_tunnel_datagram crypt d key =
     encode_datagram crypt (td_packets d) key (td_offset_words d mod 0x10000)
       (Some (td_offset_words d)) DEFAULT_ENCRYPTED_CHANNELS"

section \<open>Descriptors\<close>

lemma push_or_nat: "y < 2 ^ k \<Longrightarrow> push_bit k x OR y = x * 2 ^ k + (y :: nat)"
proof -
  assume "y < 2 ^ k"
  then have "take_bit k y = y" by (simp add: take_bit_nat_eq_self)
  then have "\<And>n. bit y n \<Longrightarrow> n < k" by (metis bit_take_bit_iff)
  then have "push_bit k x AND y = 0"
    by (intro bit_eqI) (auto simp: bit_and_iff bit_push_bit_iff not_le[symmetric])
  then have "push_bit k x + y = push_bit k x OR y" by (rule disjunctive_add_eq_or)
  then show ?thesis by (simp add: push_bit_eq_mult)
qed

lemma and_15_nat: "(x :: nat) AND 15 = x mod 16"
proof -
  have "x AND 15 = take_bit 4 x" by (simp add: take_bit_eq_mask mask_eq_exp_minus_1)
  then show ?thesis by (simp add: take_bit_eq_mod)
qed

lemma descriptor_length_eq: "descriptor_length first second = unat first * 16 + unat second div 16"
proof -
  have "unat second div 16 < 16" using unat_byte_less[of second] by (intro less_mult_imp_div_less) simp
  then show ?thesis
    using push_or_nat[of "unat second div 16" 4 "unat first"]
    by (simp add: descriptor_length_def drop_bit_eq_div)
qed

lemma descriptor_channel_eq: "descriptor_channel second = int (unat second mod 16)"
  by (simp add: descriptor_channel_def and_15_nat)

definition valid_packet :: "tunnel_packet \<Rightarrow> bool" where
  "valid_packet p \<longleftrightarrow> 0 \<le> tp_channel p \<and> tp_channel p \<le> 15
     \<and> 0 < length (tp_payload p) \<and> length (tp_payload p) \<le> NATIVE_MAX_VIRTUAL_PAYLOAD"

definition meta :: "tunnel_packet \<Rightarrow> int \<times> nat" where
  "meta p = (tp_channel p, length (tp_payload p))"

lemma descriptor_bytes_parse:
  assumes "valid_packet p"
  shows "\<exists>b1 b2. descriptor_bytes p = [b1, b2]
    \<and> descriptor_length b1 b2 = length (tp_payload p) \<and> descriptor_channel b2 = tp_channel p"
proof -
  let ?n = "length (tp_payload p)" and ?c = "nat (tp_channel p)"
  have n: "?n < 4096" and c: "?c < 16" using assms by (auto simp: valid_packet_def NATIVE_MAX_VIRTUAL_PAYLOAD_def)
  have low: "push_bit 4 (?n AND 15) OR ?c = (?n mod 16) * 16 + ?c"
    using push_or_nat[of ?c 4 "?n AND 15"] c by (simp add: and_15_nat)
  have b1: "unat (word_of_nat (drop_bit 4 ?n) :: byte) = ?n div 16"
    using n by (simp add: drop_bit_eq_div unat_word_of_nat_byte)
  have "(?n mod 16) * 16 + ?c < 256" using c by (simp add: less_mult_imp_div_less)
  then have b2: "unat (word_of_nat (push_bit 4 (?n AND 15) OR ?c) :: byte) = (?n mod 16) * 16 + ?c"
    unfolding low by (rule unat_word_of_nat_byte)
  have "((?n mod 16) * 16 + ?c) div 16 = ?n mod 16" "((?n mod 16) * 16 + ?c) mod 16 = ?c" using c by auto
  with b1 b2 assms show ?thesis
    by (simp add: descriptor_bytes_def descriptor_length_eq descriptor_channel_eq valid_packet_def)
qed

lemma length_le_payloads:
  "\<forall>p \<in> set ps. valid_packet p \<Longrightarrow> length ps \<le> sum_list (map (\<lambda>p. length (tp_payload p)) ps)"
proof (induction ps)
  case Nil
  then show ?case by simp
next
  case (Cons p ps)
  then have "0 < length (tp_payload p)" by (simp add: valid_packet_def)
  with Cons show ?case by (simp del: length_greater_0_conv)
qed

lemma length_descriptor_bytes [simp]: "length (descriptor_bytes p) = 2"
  by (simp add: descriptor_bytes_def)

lemma length_headers [simp]: "length (concat (map descriptor_bytes ps)) = 2 * length ps"
  by (induction ps) simp_all

lemma take_headers: "take (2 * h) (concat (map descriptor_bytes ps)) = concat (map descriptor_bytes (take h ps))"
proof (induction ps arbitrary: h)
  case Nil
  then show ?case by simp
next
  case (Cons p ps)
  then show ?case by (cases h) simp_all
qed

lemma parse_headers_descriptors:
  "\<forall>p \<in> set ps. valid_packet p \<Longrightarrow> parse_headers (length ps) (concat (map descriptor_bytes ps)) = Some (map meta ps)"
proof (induction ps)
  case Nil
  then show ?case by simp
next
  case (Cons p ps)
  then obtain b1 b2 where "descriptor_bytes p = [b1, b2]"
    "descriptor_length b1 b2 = length (tp_payload p)" "descriptor_channel b2 = tp_channel p"
    using descriptor_bytes_parse[of p] by auto
  with Cons show ?case by (auto simp: valid_packet_def meta_def)
qed

lemma decode_datagramI:
  assumes "first_candidate (\<lambda>h. decode_candidate crypt w key (nat cow * 4) h encrypted)
      [1 ..< min (NATIVE_MAX_VIRTUAL_PACKETS + 1) ((length w - 2) div 2) + 1] = Some ps"
    and "be_nat (slice 0 2 w) = ow" "length w \<le> NATIVE_MAX_UDP_BYTES" "4 \<le> length w" "0 \<le> cow"
    and "cow = (case stream of None \<Rightarrow> int ow | Some v \<Rightarrow> v)"
  shows "decode_datagram crypt w key stream encrypted = Inr \<lparr>td_offset_words = int ow, td_packets = ps\<rparr>"
  using assms by (cases stream) (simp_all add: decode_datagram_def del: upt_Suc)

section \<open>What the cipher has to provide\<close>

locale tunnel_cipher =
  fixes crypt :: crypt_fn
  assumes crypt_length: "length (crypt key n data) = length data"
    and crypt_involution: "crypt key n (crypt key n data) = data"
    and crypt_append: "crypt key n (xs @ ys) = crypt key n xs @ crypt key (n + length xs) ys"
begin

lemma crypt_take: "take k (crypt key n data) = crypt key n (take k data)"
  using crypt_append[of key n "take k data" "drop k data"] crypt_length[of key n "take k data"]
  by (cases "k \<le> length data") (simp_all add: crypt_length)

lemma length_encode_bodies:
  "length (encode_bodies crypt key offset encrypted consumed ps) = sum_list (map (\<lambda>p. length (tp_payload p)) ps)"
  by (induction ps arbitrary: consumed) (simp_all add: crypt_length)

lemma read_encode_bodies:
  "drop cursor payload = encode_bodies crypt key offset encrypted consumed ps \<Longrightarrow> cursor \<le> length payload \<Longrightarrow>
   read_bodies crypt payload key offset encrypted cursor consumed (map meta ps) = ps"
proof (induction ps arbitrary: cursor consumed)
  case Nil
  then show ?case by simp
next
  case (Cons p ps)
  let ?n = "length (tp_payload p)"
  let ?body = "if tp_channel p \<in> encrypted then crypt key (offset + consumed) (tp_payload p) else tp_payload p"
  let ?c' = "if tp_channel p \<in> encrypted then consumed + ?n else consumed"
  have split: "drop cursor payload = ?body @ encode_bodies crypt key offset encrypted ?c' ps"
    using Cons.prems(1) by simp
  have lb: "length ?body = ?n" by (simp add: crypt_length)
  have raw: "slice cursor (cursor + ?n) payload = ?body"
    using split lb by (simp add: slice_def)
  have rest: "drop (cursor + ?n) payload = encode_bodies crypt key offset encrypted ?c' ps"
    using arg_cong[OF split, of "drop ?n"] lb by (simp add: add.commute)
  have "length (drop cursor payload) = ?n + length (encode_bodies crypt key offset encrypted ?c' ps)"
    unfolding split using lb by simp
  then have "cursor + ?n \<le> length payload" using Cons.prems(2) by simp
  from Cons.IH[OF rest this] raw show ?case
    by (cases "tp_channel p \<in> encrypted") (simp_all add: meta_def Let_def crypt_involution)
qed

lemma decode_candidate_exact:
  assumes "\<forall>p \<in> set ps. valid_packet p" "ps \<noteq> []" "length prefix = 2"
  shows "decode_candidate crypt
      (prefix @ crypt key offset (concat (map descriptor_bytes ps))
        @ encode_bodies crypt key offset encrypted (2 * length ps) ps)
      key offset (length ps) encrypted = Some ps"
proof -
  let ?H = "concat (map descriptor_bytes ps)"
  let ?B = "encode_bodies crypt key offset encrypted (2 * length ps) ps"
  let ?W = "prefix @ crypt key offset ?H @ ?B"
  have lw: "length ?W = 2 + 2 * length ps + sum_list (map (\<lambda>p. length (tp_payload p)) ps)"
    using assms(3) by (simp add: crypt_length length_encode_bodies)
  have "0 < sum_list (map (\<lambda>p. length (tp_payload p)) ps)"
    using assms(1,2) by (cases ps) (auto simp: valid_packet_def)
  with lw have room: "\<not> 2 + length ps * 2 \<ge> length ?W" by linarith
  have "slice 2 (2 + length ps * 2) ?W = crypt key offset ?H"
    using assms(3) by (simp add: slice_def crypt_length)
  then have hdr: "parse_headers (length ps) (crypt key offset (slice 2 (2 + length ps * 2) ?W)) = Some (map meta ps)"
    by (simp add: crypt_involution parse_headers_descriptors[OF assms(1)])
  have size: "sum_list (map snd (map meta ps)) = sum_list (map (\<lambda>p. length (tp_payload p)) ps)"
    by (simp add: comp_def meta_def)
  have "drop (2 + length ps * 2) ?W = ?B" using assms(3) by (simp add: crypt_length)
  from read_encode_bodies[OF this] lw
  have "read_bodies crypt ?W key offset encrypted (2 + length ps * 2) (2 * length ps) (map meta ps) = ps" by simp
  with room hdr size lw show ?thesis
    unfolding decode_candidate_def Let_def by (simp add: mult.commute del: length_append)
qed

lemma decode_candidate_short:
  assumes "\<forall>p \<in> set ps. valid_packet p" "h < length ps" "length prefix = 2"
  shows "decode_candidate crypt
      (prefix @ crypt key offset (concat (map descriptor_bytes ps))
        @ encode_bodies crypt key offset encrypted (2 * length ps) ps)
      key offset h encrypted = None"
proof -
  let ?H = "concat (map descriptor_bytes ps)"
  let ?B = "encode_bodies crypt key offset encrypted (2 * length ps) ps"
  let ?W = "prefix @ crypt key offset ?H @ ?B"
  have lw: "length ?W = 2 + 2 * length ps + sum_list (map (\<lambda>p. length (tp_payload p)) ps)"
    using assms(3) by (simp add: crypt_length length_encode_bodies)
  have "slice 2 (2 + h * 2) ?W = crypt key offset (take (2 * h) ?H)"
    using assms(2,3) by (simp add: slice_def crypt_length crypt_take mult.commute)
  moreover have "\<forall>p \<in> set (take h ps). valid_packet p" using assms(1) by (auto dest: in_set_takeD)
  with parse_headers_descriptors[of "take h ps"] assms(2)
  have "parse_headers h (take (2 * h) ?H) = Some (map meta (take h ps))" by (simp add: take_headers)
  ultimately have hdr: "parse_headers h (crypt key offset (slice 2 (2 + h * 2) ?W)) = Some (map meta (take h ps))"
    by (simp add: crypt_involution)
  have "sum_list (map (\<lambda>p. length (tp_payload p)) ps)
    = sum_list (map (\<lambda>p. length (tp_payload p)) (take h ps)) + sum_list (map (\<lambda>p. length (tp_payload p)) (drop h ps))"
    by (metis append_take_drop_id map_append sum_list_append)
  then have "2 + h * 2 + sum_list (map snd (map meta (take h ps))) \<noteq> length ?W"
    using assms(2) lw by (simp add: comp_def meta_def)
  with hdr show ?thesis
    unfolding decode_candidate_def Let_def by (simp del: length_append)
qed

lemma first_candidate_at:
  "\<forall>h. 1 \<le> h \<longrightarrow> h < n \<longrightarrow> f h = None \<Longrightarrow> f n = Some (p # ps) \<Longrightarrow> 1 \<le> n \<Longrightarrow> n \<le> m \<Longrightarrow>
   first_candidate f [1 ..< m + 1] = Some (p # ps)"
proof -
  assume none: "\<forall>h. 1 \<le> h \<longrightarrow> h < n \<longrightarrow> f h = None" and hit: "f n = Some (p # ps)" and n: "1 \<le> n" "n \<le> m"
  have skip: "\<forall>h \<in> set hs. f h = None \<Longrightarrow> first_candidate f (hs @ n # rest) = Some (p # ps)" for hs rest
    using hit by (induction hs) simp_all
  have "[1 ..< m + 1] = [1 ..< n] @ n # [Suc n ..< m + 1]"
    using n upt_add_eq_append[of 1 n "m + 1 - n"] by (simp add: upt_conv_Cons[of n] del: upt_Suc)
  with skip[of "[1 ..< n]" "[Suc n ..< m + 1]"] none show ?thesis by simp
qed

theorem decode_wire:
  assumes "\<forall>p \<in> set ps. valid_packet p" "ps \<noteq> []" "length ps \<le> 9" "wire_size ps \<le> NATIVE_MAX_UDP_BYTES"
    and "ow < 0x10000" "0 \<le> cow" and "cow = (case stream of None \<Rightarrow> int ow | Some v \<Rightarrow> v)"
  shows "decode_datagram crypt
      (to_be 2 ow @ crypt key (nat cow * 4) (concat (map descriptor_bytes ps))
        @ encode_bodies crypt key (nat cow * 4) encrypted (2 * length ps) ps)
      key stream encrypted = Inr \<lparr>td_offset_words = int ow, td_packets = ps\<rparr>"
proof -
  let ?W = "to_be 2 ow @ crypt key (nat cow * 4) (concat (map descriptor_bytes ps))
        @ encode_bodies crypt key (nat cow * 4) encrypted (2 * length ps) ps"
  let ?sum = "sum_list (map (\<lambda>p. length (tp_payload p)) ps)"
  have lw: "length ?W = 2 + 2 * length ps + ?sum" by (simp add: crypt_length length_encode_bodies)
  have "length ps \<le> ?sum" using assms(1) by (rule length_le_payloads)
  moreover have "1 \<le> length ps" using assms(2) by (cases ps) simp_all
  ultimately have limits: "4 \<le> length ?W" "1 \<le> length ps"
    "length ps \<le> min (NATIVE_MAX_VIRTUAL_PACKETS + 1) ((length ?W - 2) div 2)"
    using lw assms(3) by (auto simp: NATIVE_MAX_VIRTUAL_PACKETS_def)
  obtain p qs where "ps = p # qs" using assms(2) by (cases ps) auto
  with decode_candidate_exact[OF assms(1,2), of "to_be 2 ow" key "nat cow * 4" encrypted]
  have hit: "decode_candidate crypt ?W key (nat cow * 4) (length ps) encrypted = Some (p # qs)" by simp
  have "\<forall>h. 1 \<le> h \<longrightarrow> h < length ps \<longrightarrow> decode_candidate crypt ?W key (nat cow * 4) h encrypted = None"
    using decode_candidate_short[OF assms(1)] by simp
  from first_candidate_at[OF this hit limits(2,3)] \<open>ps = p # qs\<close>
  have "first_candidate (\<lambda>h. decode_candidate crypt ?W key (nat cow * 4) h encrypted)
      [1 ..< min (NATIVE_MAX_VIRTUAL_PACKETS + 1) ((length ?W - 2) div 2) + 1] = Some ps" by simp
  moreover have "be_nat (slice 0 2 ?W) = ow" using assms(5) by (simp add: slice_def)
  moreover have "length ?W \<le> NATIVE_MAX_UDP_BYTES" using lw assms(4) by (simp add: wire_size_def)
  ultimately show ?thesis
    using limits(1) assms(6,7) by (intro decode_datagramI)
qed

end

interpretation rc4: tunnel_cipher rc4_bytes
  by unfold_locales (simp_all add: rc4_bytes_involution rc4_bytes_append)

section \<open>What the encoder accepts and sends\<close>

definition encodable :: "tunnel_packet \<Rightarrow> bool" where
  "encodable p \<longleftrightarrow> valid_packet p \<and> (tp_channel p = 7 \<longrightarrow> length (tp_payload p) = 6)"

lemma check_packets_ok: "check_packets ps = Inr qs \<longleftrightarrow> qs = ps \<and> (\<forall>p \<in> set ps. encodable p)"
  by (induction ps arbitrary: qs) (auto simp: encodable_def valid_packet_def rbind_eq_Inr)

lemma check_packets_is_ok: "(\<exists>qs. check_packets ps = Inr qs) \<longleftrightarrow> (\<forall>p \<in> set ps. encodable p)"
  using check_packets_ok by blast

lemma set_order_packets: "set (order_packets encrypted ps) = set ps"
  by (auto simp: order_packets_def)

lemma mset_order_packets: "7 \<in> encrypted \<Longrightarrow> mset (order_packets encrypted ps) = mset ps"
  by (induction ps) (auto simp: order_packets_def)

lemma length_order_packets: "7 \<in> encrypted \<Longrightarrow> length (order_packets encrypted ps) = length ps"
  using mset_order_packets by (metis size_mset)

lemma order_packets_repeats_identity:
  "7 \<notin> encrypted \<Longrightarrow>
   length (order_packets encrypted ps) = length ps + length (filter (\<lambda>p. tp_channel p = 7) ps)"
  by (induction ps) (auto simp: order_packets_def)

definition sendable :: "tunnel_packet list \<Rightarrow> int \<Rightarrow> int option \<Rightarrow> int set \<Rightarrow> bool" where
  "sendable packets offset_words stream encrypted \<longleftrightarrow>
     0 \<le> offset_words \<and> offset_words \<le> 0xFFFF
     \<and> 0 \<le> (case stream of None \<Rightarrow> offset_words | Some v \<Rightarrow> v)
     \<and> packets \<noteq> [] \<and> (\<forall>p \<in> set packets. encodable p)
     \<and> length (filter (\<lambda>p. tp_channel p = 7) packets) \<le> 1
     \<and> length packets \<le> 8 + length (filter (\<lambda>p. tp_channel p = 7) packets)
     \<and> wire_size (order_packets encrypted packets) \<le> NATIVE_MAX_UDP_BYTES"

lemma encode_datagram_Inr:
  "encode_datagram crypt packets key ow stream encrypted = Inr wire \<longleftrightarrow>
   sendable packets ow stream encrypted
   \<and> wire = (let offset = nat (case stream of None \<Rightarrow> ow | Some v \<Rightarrow> v) * 4;
                 ordered = order_packets encrypted packets;
                 headers = concat (map descriptor_bytes ordered)
             in to_be 2 (nat ow) @ crypt key offset headers
                @ encode_bodies crypt key offset encrypted (2 * length ordered) ordered)"
  by (auto simp: encode_datagram_def sendable_def Let_def rbind_eq_Inr check_packets_ok
      NATIVE_MAX_VIRTUAL_PACKETS_def check_packets_ok[THEN iffD2] split: if_splits)

section \<open>Properties\<close>

text \<open>
  C1. The receiver recovers what was sent: a datagram the encoder produced decodes, at the
  same stream position, to the same offset and to the encoder's ordering of exactly the
  packets given (the channel-7 identity first, then the encrypted, then the clear ones).
  The search over descriptor counts cannot stop early at a shorter table.
\<close>

theorem tunnel_roundtrip:
  assumes "encode_datagram rc4_bytes packets key ow stream encrypted = Inr wire" and "7 \<in> encrypted"
  shows "decode_datagram rc4_bytes wire key stream encrypted
           = Inr \<lparr>td_offset_words = ow, td_packets = order_packets encrypted packets\<rparr>
    \<and> mset (order_packets encrypted packets) = mset packets"
proof -
  let ?ps = "order_packets encrypted packets"
  define cow where "cow = (case stream of None \<Rightarrow> ow | Some v \<Rightarrow> v)"
  from assms(1) have ok: "sendable packets ow stream encrypted"
    and wire: "wire = to_be 2 (nat ow) @ rc4_bytes key (nat cow * 4) (concat (map descriptor_bytes ?ps))
      @ encode_bodies rc4_bytes key (nat cow * 4) encrypted (2 * length ?ps) ?ps"
    by (simp_all add: encode_datagram_Inr cow_def Let_def)
  have "\<forall>p \<in> set ?ps. valid_packet p" "?ps \<noteq> []" "length ?ps \<le> 9" "wire_size ?ps \<le> NATIVE_MAX_UDP_BYTES"
    "nat ow < 0x10000" "0 \<le> cow"
    using ok length_order_packets[OF assms(2), of packets]
    by (auto simp: sendable_def set_order_packets encodable_def cow_def simp flip: set_empty)
  moreover have "cow = (case stream of None \<Rightarrow> int (nat ow) | Some v \<Rightarrow> v)"
    using ok by (simp add: cow_def sendable_def split: option.splits)
  ultimately have "decode_datagram rc4_bytes wire key stream encrypted
      = Inr \<lparr>td_offset_words = int (nat ow), td_packets = ?ps\<rparr>"
    unfolding wire by (rule rc4.decode_wire)
  with ok mset_order_packets[OF assms(2)] show ?thesis by (simp add: sendable_def)
qed

theorem tunnel_roundtrip_witness:
  "\<exists>wire. encode_datagram rc4_bytes [\<lparr>tp_channel = 0, tp_payload = [5]\<rparr>, \<lparr>tp_channel = 1, tp_payload = [1, 2]\<rparr>]
       [9, 8] 3 (Some 65539) DEFAULT_ENCRYPTED_CHANNELS = Inr wire
     \<and> decode_datagram rc4_bytes wire [9, 8] (Some 65539) DEFAULT_ENCRYPTED_CHANNELS
       = Inr \<lparr>td_offset_words = 3, td_packets = [\<lparr>tp_channel = 1, tp_payload = [1, 2]\<rparr>, \<lparr>tp_channel = 0, tp_payload = [5]\<rparr>]\<rparr>"
proof -
  let ?ps = "[\<lparr>tp_channel = 0, tp_payload = [5]\<rparr>, \<lparr>tp_channel = 1, tp_payload = [1, 2]\<rparr>]"
  have "sendable ?ps 3 (Some 65539) DEFAULT_ENCRYPTED_CHANNELS"
    by (simp add: sendable_def encodable_def valid_packet_def order_packets_def wire_size_def
        DEFAULT_ENCRYPTED_CHANNELS_def NATIVE_MAX_VIRTUAL_PAYLOAD_def NATIVE_MAX_UDP_BYTES_def)
  then obtain wire where w: "encode_datagram rc4_bytes ?ps [9, 8] 3 (Some 65539) DEFAULT_ENCRYPTED_CHANNELS = Inr wire"
    by (simp add: encode_datagram_Inr)
  show ?thesis
    using tunnel_roundtrip[OF w] w by (simp add: DEFAULT_ENCRYPTED_CHANNELS_def order_packets_def)
qed

text \<open>
  \<open>encode_datagram\<close> raises exactly when a limit of the native transport is broken:
  offset, stream position, emptiness, channel and length ranges, the six-byte identity and
  its uniqueness, eight virtual packets beside it, 1000 bytes.  What it returns has the
  computed wire size and enciphers \<open>cipher_region_size\<close> of its bytes.
\<close>

theorem encode_datagram_total_limits:
  "(case encode_datagram rc4_bytes packets key ow stream encrypted of
      Inl e \<Rightarrow> \<not> sendable packets ow stream encrypted
    | Inr wire \<Rightarrow> sendable packets ow stream encrypted
        \<and> length wire = wire_size (order_packets encrypted packets)
        \<and> length wire \<le> 1000
        \<and> length wire = 2 + cipher_region_size (order_packets encrypted packets) encrypted
            + sum_list (map (\<lambda>p. length (tp_payload p))
                (filter (\<lambda>p. tp_channel p \<notin> encrypted) (order_packets encrypted packets))))"
proof (cases "encode_datagram rc4_bytes packets key ow stream encrypted")
  case (Inl e)
  then show ?thesis
    using encode_datagram_Inr[of rc4_bytes packets key ow stream encrypted] by auto
next
  case (Inr wire)
  then have ok: "sendable packets ow stream encrypted"
    and len: "length wire = wire_size (order_packets encrypted packets)"
    by (auto simp: encode_datagram_Inr Let_def wire_size_def rc4.length_encode_bodies)
  have split: "sum_list (map (\<lambda>p. length (tp_payload p)) ps)
    = sum_list (map (\<lambda>p. length (tp_payload p)) (filter (\<lambda>p. tp_channel p \<in> encrypted) ps))
    + sum_list (map (\<lambda>p. length (tp_payload p)) (filter (\<lambda>p. tp_channel p \<notin> encrypted) ps))" for ps
    by (induction ps) simp_all
  show ?thesis
    using ok len split[of "order_packets encrypted packets"]
    by (simp add: Inr sendable_def NATIVE_MAX_UDP_BYTES_def wire_size_def cipher_region_size_def)
qed

end
