(* ===== verification/GmProtocol.thy ===== *)
theory GmProtocol
  imports Prelude
begin

text \<open>
  \<open>server/carbon/gamemanager/protocol.py\<close> and \<open>server/carbon/fesl/primitives.py\<close>: the
  message numbering of the Carbon online protocol, the tag and prefix that open every
  GameManager and OLMSG body, and the FESL signed-integer and string primitives that the
  player and session codecs share.  The lemmas give the round trip of the shifted signed
  integers.
\<close>

section \<open>Constants and message types\<close>

definition LOGICAL_PREFIX :: bytes where
  "LOGICAL_PREFIX = [0, 0, 0, 0]"

definition PLAIN_TERMINATOR :: bytes where
  "PLAIN_TERMINATOR = [0x04]"

definition DESTINATION_FOOTER_FLAG :: bytes where
  "DESTINATION_FOOTER_FLAG = [0x44]"

definition NGL_FOOTER_FLAG :: bytes where
  "NGL_FOOTER_FLAG = [0x40]"

definition NGL_FOOTER_WITH_TRAILER :: bytes where
  "NGL_FOOTER_WITH_TRAILER = [0x40, 0x0D]"

definition REDUNDANT_BODY_SEPARATOR :: bytes where
  "REDUNDANT_BODY_SEPARATOR = [0x0C]"

datatype ol_message_type =
    GAME_INIT_INFO | CLOCK_SYNC_REQUEST | CLOCK_SYNC_START | CLOCK_SYNC_END
  | PLAYER_CAR_DATA | PLAYER_CONTROLLED_AI_CAR | CAR_STATE | CAR_STATE_BLOCK
  | START_LOADING | READY_TO_START | START_RACE_SYNC_BEGIN | START_RACE_SYNC_MESSAGE
  | START_RACE | LEADER_FINISHED | RACER_FINISHED | READY
  | GAME_RESULTS | FINAL_GAME_RESULTS | LATENCY_INFO | MATCHMAKING_ON_REQUEST
  | MATCHMAKING_OFF_REQUEST | INVITES_ON_REQUEST | INVITES_OFF_REQUEST | ENABLE_JOINS_REQUEST
  | DISABLE_JOINS_REQUEST | ACTIVE_GAME_COLLECT_STATS | ACTIVE_GAME_UPDATE_STATS | START_TIMER
  | ACTIVE_GAME_MESSAGE | GAME_ATTRIBUTES | BIG_MESSAGE | PURSUIT_TAG_SYNC
  | KILL_REBROADCASTER | POST_RACE_SYNC

fun ol_value :: "ol_message_type \<Rightarrow> int" where
  "ol_value GAME_INIT_INFO = 0x00" | "ol_value CLOCK_SYNC_REQUEST = 0x01"
| "ol_value CLOCK_SYNC_START = 0x02" | "ol_value CLOCK_SYNC_END = 0x03"
| "ol_value PLAYER_CAR_DATA = 0x04" | "ol_value PLAYER_CONTROLLED_AI_CAR = 0x05"
| "ol_value CAR_STATE = 0x06" | "ol_value CAR_STATE_BLOCK = 0x07"
| "ol_value START_LOADING = 0x08" | "ol_value READY_TO_START = 0x09"
| "ol_value START_RACE_SYNC_BEGIN = 0x0A" | "ol_value START_RACE_SYNC_MESSAGE = 0x0B"
| "ol_value START_RACE = 0x0C" | "ol_value LEADER_FINISHED = 0x0D"
| "ol_value RACER_FINISHED = 0x0E" | "ol_value READY = 0x0F"
| "ol_value GAME_RESULTS = 0x10" | "ol_value FINAL_GAME_RESULTS = 0x11"
| "ol_value LATENCY_INFO = 0x12" | "ol_value MATCHMAKING_ON_REQUEST = 0x13"
| "ol_value MATCHMAKING_OFF_REQUEST = 0x14" | "ol_value INVITES_ON_REQUEST = 0x15"
| "ol_value INVITES_OFF_REQUEST = 0x16" | "ol_value ENABLE_JOINS_REQUEST = 0x17"
| "ol_value DISABLE_JOINS_REQUEST = 0x18" | "ol_value ACTIVE_GAME_COLLECT_STATS = 0x19"
| "ol_value ACTIVE_GAME_UPDATE_STATS = 0x1A" | "ol_value START_TIMER = 0x1B"
| "ol_value ACTIVE_GAME_MESSAGE = 0x1C" | "ol_value GAME_ATTRIBUTES = 0x1D"
| "ol_value BIG_MESSAGE = 0x1E" | "ol_value PURSUIT_TAG_SYNC = 0x1F"
| "ol_value KILL_REBROADCASTER = 0x20" | "ol_value POST_RACE_SYNC = 0x21"

datatype gm_message_type =
    SESSION_TICKET | HOST_HELLO | PLAYER_ROSTER | PLAYER_PUBLISH | PLAYER_JOINED | PLAYER_LEFT | HOST_PROPERTIES

fun gm_value :: "gm_message_type \<Rightarrow> int" where
  "gm_value SESSION_TICKET = 0x00" | "gm_value HOST_HELLO = 0x02" | "gm_value PLAYER_ROSTER = 0x03"
| "gm_value PLAYER_PUBLISH = 0x04" | "gm_value PLAYER_JOINED = 0x05" | "gm_value PLAYER_LEFT = 0x07"
| "gm_value HOST_PROPERTIES = 0x0C"

datatype gm_error = GameManagerTypeOutOfRange int | OlmsgTypeOutOfRange int

definition gm_message_tag :: "int \<Rightarrow> gm_error + bytes" where
  "gm_message_tag message_type =
     (if \<not> (0 \<le> message_type \<and> message_type \<le> 0x7F) then Inl (GameManagerTypeOutOfRange message_type)
      else Inr [0x01, 0x80 OR word_of_int message_type])"

definition logical_message :: "int \<Rightarrow> bytes \<Rightarrow> gm_error + bytes" where
  "logical_message message_type payload =
     (if \<not> (0 \<le> message_type \<and> message_type \<le> 0xFF) then Inl (OlmsgTypeOutOfRange message_type)
      else Inr (LOGICAL_PREFIX @ [word_of_int message_type] @ payload))"

definition with_plain_terminator :: "bytes \<Rightarrow> bytes" where
  "with_plain_terminator body = body @ PLAIN_TERMINATOR"

text \<open>
  For a member of the two enumerations the range checks cannot fail; \<open>gm_tag\<close> and
  \<open>olmsg\<close> are the bytes the call then returns (lemmas \<open>gm_message_tag_member\<close> and
  \<open>logical_message_member\<close>).
\<close>

definition gm_tag :: "gm_message_type \<Rightarrow> bytes" where
  "gm_tag t = [0x01, 0x80 OR word_of_int (gm_value t)]"

definition olmsg :: "ol_message_type \<Rightarrow> bytes \<Rightarrow> bytes" where
  "olmsg t payload = LOGICAL_PREFIX @ [word_of_int (ol_value t)] @ payload"

lemma gm_value_range: "0 \<le> gm_value t \<and> gm_value t \<le> 0x7F"
  by (cases t) simp_all

lemma ol_value_range: "0 \<le> ol_value t \<and> ol_value t \<le> 0xFF"
  by (cases t) simp_all

lemma gm_message_tag_member: "gm_message_tag (gm_value t) = Inr (gm_tag t)"
  using gm_value_range[of t] by (simp add: gm_message_tag_def gm_tag_def)

lemma logical_message_member: "logical_message (ol_value t) payload = Inr (olmsg t payload)"
  using ol_value_range[of t] by (simp add: logical_message_def olmsg_def)

lemma ol_value_inj: "ol_value s = ol_value t \<longleftrightarrow> s = t"
  by (cases s; cases t) simp_all

lemma length_gm_tag [simp, bytes_simps]: "length (gm_tag t) = 2"
  by (simp add: gm_tag_def)

lemma length_olmsg [simp, bytes_simps]: "length (olmsg t payload) = 5 + length payload"
  by (simp add: olmsg_def LOGICAL_PREFIX_def)

section \<open>FESL primitives\<close>

text \<open>
  \<open>((value & M) + H) & M\<close> for the four widths: the signed value moved up by half the range.
\<close>

definition sint8 :: "int \<Rightarrow> bytes" where
  "sint8 value = to_be 1 (umask 8 (int (umask 8 value) + 0x80))"

definition sint16 :: "int \<Rightarrow> bytes" where
  "sint16 value = to_be 2 (umask 16 (int (umask 16 value) + 0x8000))"

definition sint32 :: "int \<Rightarrow> bytes" where
  "sint32 value = to_be 4 (umask 32 (int (umask 32 value) + 0x80000000))"

definition sint64 :: "int \<Rightarrow> bytes" where
  "sint64 value = to_be 8 (umask 64 (int (umask 64 value) + 0x8000000000000000))"

text \<open>
  \<open>str.encode("ascii", errors="ignore")\<close> drops every character above 127.  Strings are
  character lists with code points below 256, so a character is its own byte.
\<close>

definition ascii_ignore :: "string \<Rightarrow> bytes" where
  "ascii_ignore s = map of_char (filter (\<lambda>c. of_char c < (128 :: nat)) s)"

definition fesl_string :: "string \<Rightarrow> nat \<Rightarrow> bytes" where
  "fesl_string value max_len = (let raw = take max_len (ascii_ignore value) in sint32 (int (length raw)) @ raw)"

text \<open>The reader that undoes the shift (\<open>player_codec._read_shifted\<close>) on \<open>k\<close> bytes.\<close>

definition unshift :: "bytes \<Rightarrow> nat" where
  "unshift bs = umask (8 * length bs) (int (be_nat bs) - 2 ^ (8 * length bs - 1))"

lemma umask_add_half:
  assumes "0 < k"
  shows "umask k (int (umask k (int (umask k v) + 2 ^ (k - 1))) - 2 ^ (k - 1)) = umask k v"
  by (simp add: umask_def mod_simps)

lemma unshift_to_be:
  assumes "0 < k" "n < 2 ^ (8 * k)"
  shows "unshift (to_be k n) = umask (8 * k) (int n - 2 ^ (8 * k - 1))"
proof -
  have "(256 :: nat) ^ k = 2 ^ (8 * k)" by (simp add: power_mult)
  with assms show ?thesis by (simp add: unshift_def)
qed

lemma unshift_shift:
  assumes "0 < k"
  shows "unshift (to_be k (umask (8 * k) (int (umask (8 * k) v) + 2 ^ (8 * k - 1)))) = umask (8 * k) v"
  using unshift_to_be[OF assms umask_less] umask_add_half[of "8 * k" v] assms by simp

lemma unshift_sint8: "unshift (sint8 v) = umask 8 v"
  using unshift_shift[of 1 v] by (simp add: sint8_def)

lemma unshift_sint16: "unshift (sint16 v) = umask 16 v"
  using unshift_shift[of 2 v] by (simp add: sint16_def)

lemma unshift_sint32: "unshift (sint32 v) = umask 32 v"
  using unshift_shift[of 4 v] by (simp add: sint32_def)

lemma unshift_sint64: "unshift (sint64 v) = umask 64 v"
  using unshift_shift[of 8 v] by (simp add: sint64_def)

lemma length_sint [simp, bytes_simps]:
  "length (sint8 v) = 1" "length (sint16 v) = 2" "length (sint32 v) = 4" "length (sint64 v) = 8"
  by (simp_all add: sint8_def sint16_def sint32_def sint64_def)

end
