(* ===== verification/CommUdp.thy ===== *)
theory CommUdp
  imports ProtoTunnel GmProtocol
begin

text \<open>
  \<open>server/carbon/transport/commudp.py\<close>: what a channel-1 tunnel packet carries.  An
  eight-byte packet with a known type is a connection control message; anything else of
  eight bytes or more is an active message (sequence, acknowledgement, NGL body), whose
  GameManager body is found after the optional twelve-byte timing footer.
\<close>

section \<open>Message types\<close>

datatype commudp_type = CONNECT | CONNECT_ACK | DISCONNECT | PING | RELIABLE | RELIABLE_ACK

fun commudp_value :: "commudp_type \<Rightarrow> nat" where
  "commudp_value CONNECT = 1" | "commudp_value CONNECT_ACK = 2" | "commudp_value DISCONNECT = 3"
| "commudp_value PING = 4" | "commudp_value RELIABLE = 5" | "commudp_value RELIABLE_ACK = 6"

text \<open>\<open>raw_type in CommUDPType._value2member_map_\<close>, then \<open>CommUDPType(raw_type)\<close>.\<close>

definition commudp_member :: "nat \<Rightarrow> commudp_type option" where
  "commudp_member raw_type =
     (if raw_type = 1 then Some CONNECT else if raw_type = 2 then Some CONNECT_ACK
      else if raw_type = 3 then Some DISCONNECT else if raw_type = 4 then Some PING
      else if raw_type = 5 then Some RELIABLE else if raw_type = 6 then Some RELIABLE_ACK else None)"

record commudp_control =
  cc_kind :: commudp_type
  cc_connection_id :: nat

record game_manager_message =
  gm_message_type_field :: nat
  gm_body :: bytes

record commudp_active =
  ca_sequence :: nat
  ca_acknowledgement :: nat
  ca_payload :: bytes
  ca_game_manager :: "game_manager_message option"

datatype channel_one = Control commudp_control | Active commudp_active

section \<open>Parsing\<close>

definition is_decimal_byte :: "byte \<Rightarrow> bool" where
  "is_decimal_byte b \<longleftrightarrow> 48 \<le> unat b \<and> unat b \<le> 57"

definition parse_session_ticket :: "game_manager_message option \<Rightarrow> bytes option" where
  "parse_session_ticket message =
     (case message of None \<Rightarrow> None
      | Some m \<Rightarrow>
          if gm_message_type_field m \<noteq> 0 then None
          else let body = gm_body m
          in if length body < 9
                \<or> slice 0 7 body \<noteq> gm_tag SESSION_TICKET @ [0x80, 0x04, 0x80, 0x00, 0x00] then None
          else let size = unat (body ! 7)
          in if size = 0 \<or> length body \<noteq> 8 + size then None
          else let ticket = drop 8 body
          in if \<exists>b \<in> set ticket. 128 \<le> unat b then None
          else if ticket \<noteq> [] \<and> (\<forall>b \<in> set ticket. is_decimal_byte b) then Some ticket else None)"

definition game_manager_body :: "bytes \<Rightarrow> bytes" where
  "game_manager_body active_payload =
     (if length active_payload < 10 then []
      else let ngl = drop 8 active_payload; final = last ngl; body = butlast ngl
      in if final AND 0x40 \<noteq> 0
         then if length body < 12 then [] else take (length body - 12) body
         else body)"

definition parse_game_manager :: "bytes \<Rightarrow> game_manager_message option" where
  "parse_game_manager active_payload =
     (let body = game_manager_body active_payload
      in if length body < 2 \<or> body ! 0 \<noteq> 0x01 \<or> unat (body ! 1) < 0x80 then None
         else Some \<lparr>gm_message_type_field = unat (body ! 1) - 0x80, gm_body = body\<rparr>)"

definition parse_active :: "bytes \<Rightarrow> channel_one option" where
  "parse_active payload =
     (if length payload < 8 then None
      else Some (Active \<lparr>ca_sequence = be_nat (slice 0 4 payload), ca_acknowledgement = be_nat (slice 4 8 payload),
                         ca_payload = payload, ca_game_manager = parse_game_manager payload\<rparr>))"

definition parse_channel_one :: "tunnel_packet \<Rightarrow> channel_one option" where
  "parse_channel_one packet =
     (if tp_channel packet \<noteq> 1 then None
      else let payload = tp_payload packet
      in if length payload = 8
         then (case commudp_member (be_nat (slice 0 4 payload)) of
                 Some kind \<Rightarrow> Some (Control \<lparr>cc_kind = kind, cc_connection_id = be_nat (drop 4 payload)\<rparr>)
               | None \<Rightarrow> parse_active payload)
         else parse_active payload)"

lemma commudp_member_value [simp]: "commudp_member (commudp_value t) = Some t"
  by (cases t) (simp_all add: commudp_member_def)

lemma commudp_member_Some: "commudp_member n = Some t \<longleftrightarrow> n = commudp_value t"
  by (cases t) (auto simp: commudp_member_def split: if_splits)

lemma commudp_value_less: "commudp_value t < 2 ^ 32"
  by (cases t) simp_all

end
