(* ===== verification/SessionCodec.thy ===== *)
theory SessionCodec
  imports CommUdp
begin

text \<open>
  \<open>server/carbon/gamemanager/session_codec.py\<close>: the CommUDP active wrapper, the empty
  acknowledgement with its NGL timing footer and the HostHello body.  The lemmas show that
  the parser of \<open>CommUdp\<close> recovers what these encoders sent.
\<close>

section \<open>Encoders\<close>

datatype session_codec_error =
    U32OutOfRange int
  | EmptyActiveBody
  | FooterNotTwelveBytes nat
  | CapacityOutOfRange int
  | ExpectedPlayersOutOfRange int

text \<open>The two captured HostHello payloads, after the \<open>0x0182\<close> tag.\<close>

definition CLIENT_HOSTED_HELLO_PAYLOAD :: bytes where
  "CLIENT_HOSTED_HELLO_PAYLOAD =
     [0x80, 0x04, 0x80, 0x80, 0x81, 0x00, 0x00, 0x00, 0x00, 0x01, 0x01, 0x80, 0x00, 0x00,
      0x00, 0x00, 0x00, 0x00, 0x00, 0x00, 0x00, 0x00, 0x08, 0x00, 0x01, 0x00, 0x04]"

definition DEDICATED_HELLO_PAYLOAD :: bytes where
  "DEDICATED_HELLO_PAYLOAD =
     [0x80, 0x04, 0x80, 0x80, 0x81, 0x00, 0x00, 0x00, 0x00, 0x00, 0x00, 0x82, 0x00, 0x00,
      0x00, 0x00, 0x00, 0x00, 0x00, 0x00, 0x00, 0x00, 0x08, 0x00, 0x01, 0x00, 0x04]"

definition u32 :: "int \<Rightarrow> session_codec_error + nat" where
  "u32 value = (if \<not> (0 \<le> value \<and> value \<le> 0xFFFFFFFF) then Inl (U32OutOfRange value) else Inr (nat value))"

definition encode_active :: "int \<Rightarrow> int \<Rightarrow> bytes \<Rightarrow> session_codec_error + bytes" where
  "encode_active sequence acknowledgement body =
     rbind (u32 sequence) (\<lambda>s. rbind (u32 acknowledgement) (\<lambda>a.
       if body = [] then Inl EmptyActiveBody else Inr (to_be 4 s @ to_be 4 a @ body)))"

record active_message =
  am_sequence :: int
  am_acknowledgement :: int
  am_body :: bytes

definition encode_active_message :: "active_message \<Rightarrow> session_codec_error + bytes" where
  "encode_active_message m = encode_active (am_sequence m) (am_acknowledgement m) (am_body m)"

definition encode_empty_active_ack :: "int \<Rightarrow> int \<Rightarrow> bytes \<Rightarrow> session_codec_error + bytes" where
  "encode_empty_active_ack sequence acknowledgement footer =
     (if length footer \<noteq> 12 then Inl (FooterNotTwelveBytes (length footer))
      else encode_active sequence acknowledgement (footer @ NGL_FOOTER_FLAG))"

definition encode_host_hello :: "int \<Rightarrow> int \<Rightarrow> bytes \<Rightarrow> bool \<Rightarrow> session_codec_error + bytes" where
  "encode_host_hello expected_players capacity footer server_hosted =
     (if \<not> (1 \<le> capacity \<and> capacity \<le> 8) then Inl (CapacityOutOfRange capacity)
      else if \<not> (1 \<le> expected_players \<and> expected_players \<le> capacity) then Inl (ExpectedPlayersOutOfRange expected_players)
      else if length footer \<noteq> 12 then Inl (FooterNotTwelveBytes (length footer))
      else let payload = (if server_hosted then DEDICATED_HELLO_PAYLOAD else CLIENT_HOSTED_HELLO_PAYLOAD);
               body = gm_tag HOST_HELLO @ payload;
               body = splice 23 25 (to_be 2 (nat capacity)) body;
               body = splice 25 27 (to_be 2 (nat expected_players)) body;
               body = body[27 := 0]
           in Inr (body @ footer @ NGL_FOOTER_WITH_TRAILER))"

section \<open>Reading back\<close>

lemma u32_Inr: "u32 v = Inr n \<longleftrightarrow> 0 \<le> v \<and> v \<le> 0xFFFFFFFF \<and> n = nat v"
  by (auto simp: u32_def)

lemma encode_active_Inr:
  "encode_active s a body = Inr bs \<longleftrightarrow>
   0 \<le> s \<and> s \<le> 0xFFFFFFFF \<and> 0 \<le> a \<and> a \<le> 0xFFFFFFFF \<and> body \<noteq> [] \<and> bs = to_be 4 (nat s) @ to_be 4 (nat a) @ body"
  by (auto simp: encode_active_def rbind_eq_Inr u32_Inr)

lemma game_manager_body_plain:
  assumes "length pre = 8" "body \<noteq> []" "final AND 0x40 = 0"
  shows "game_manager_body (pre @ body @ [final]) = body"
  using assms by (cases body) (simp_all add: game_manager_body_def)

lemma game_manager_body_footer:
  assumes "length pre = 8" "length footer = 12" "final AND 0x40 \<noteq> 0"
  shows "game_manager_body (pre @ body @ footer @ [final]) = body"
  using assms by (simp add: game_manager_body_def butlast_append)

lemma parse_active_encode:
  assumes "encode_active s a body = Inr bs"
  shows "parse_active bs = Some (Active \<lparr>ca_sequence = nat s, ca_acknowledgement = nat a, ca_payload = bs,
           ca_game_manager = parse_game_manager bs\<rparr>)"
  using assms by (auto simp: encode_active_Inr parse_active_def slice_def nat_less_iff)

text \<open>
  A GameManager body wrapped by \<open>encode_active\<close>, with the plain terminator or with a
  twelve-byte timing footer, is read back by the channel-1 parser with its sequence, its
  acknowledgement and exactly its body, whatever the body holds after its tag.
\<close>

theorem active_message_roundtrip:
  assumes "encode_active s a (body @ footer @ [final]) = Inr bs"
    and "2 \<le> length body" "body ! 0 = 0x01" "0x80 \<le> unat (body ! 1)"
    and "if final AND 0x40 = 0 then footer = [] else length footer = 12"
  shows "parse_channel_one \<lparr>tp_channel = 1, tp_payload = bs\<rparr>
    = Some (Active \<lparr>ca_sequence = nat s, ca_acknowledgement = nat a, ca_payload = bs,
        ca_game_manager = Some \<lparr>gm_message_type_field = unat (body ! 1) - 0x80, gm_body = body\<rparr>\<rparr>)"
proof -
  from assms(1) have bs: "bs = to_be 4 (nat s) @ to_be 4 (nat a) @ body @ footer @ [final]"
    by (simp add: encode_active_Inr)
  have "game_manager_body ((to_be 4 (nat s) @ to_be 4 (nat a)) @ body @ footer @ [final]) = body"
    using assms(2,5) game_manager_body_plain[of "to_be 4 (nat s) @ to_be 4 (nat a)" body final]
      game_manager_body_footer[of "to_be 4 (nat s) @ to_be 4 (nat a)" footer final body]
    by (cases "final AND 0x40 = 0"; cases "body = []") auto
  then have "game_manager_body bs = body" by (simp add: bs)
  with assms(2-4) have "parse_game_manager bs = Some \<lparr>gm_message_type_field = unat (body ! 1) - 0x80, gm_body = body\<rparr>"
    by (simp add: parse_game_manager_def)
  moreover have "length bs \<noteq> 8" using assms(2) by (simp add: bs)
  ultimately show ?thesis
    using parse_active_encode[OF assms(1)] by (simp add: parse_channel_one_def)
qed

theorem active_message_roundtrip_witness:
  "\<exists>bs. encode_active 257 255 ([0x01, 0x83, 7] @ replicate 12 0 @ [0x40]) = Inr bs
    \<and> parse_channel_one \<lparr>tp_channel = 1, tp_payload = bs\<rparr>
      = Some (Active \<lparr>ca_sequence = 257, ca_acknowledgement = 255, ca_payload = bs,
          ca_game_manager = Some \<lparr>gm_message_type_field = 3, gm_body = [0x01, 0x83, 7]\<rparr>\<rparr>)"
proof -
  obtain bs where "encode_active 257 255 ([0x01, 0x83, 7] @ replicate 12 0 @ [0x40]) = Inr bs"
    by (simp add: encode_active_def u32_def)
  from active_message_roundtrip[OF this] this show ?thesis
    by (simp)
qed

text \<open>
  The empty acknowledgement that follows a ticket bind carries no GameManager message:
  the parser takes its twelve footer bytes as timing only.
\<close>

theorem empty_ack_has_no_message:
  assumes "encode_empty_active_ack s a footer = Inr bs"
  shows "length footer = 12 \<and> parse_game_manager bs = None
    \<and> (\<exists>active. parse_channel_one \<lparr>tp_channel = 1, tp_payload = bs\<rparr> = Some (Active active)
        \<and> ca_sequence active = nat s \<and> ca_acknowledgement active = nat a)"
proof -
  from assms have len: "length footer = 12" and act: "encode_active s a (footer @ [0x40]) = Inr bs"
    by (auto simp: encode_empty_active_ack_def NGL_FOOTER_FLAG_def split: if_splits)
  from act have bs: "bs = (to_be 4 (nat s) @ to_be 4 (nat a)) @ [] @ footer @ [0x40]"
    by (simp add: encode_active_Inr)
  have "game_manager_body bs = []"
    unfolding bs by (rule game_manager_body_footer) (simp_all add: len)
  then have "parse_game_manager bs = None" by (simp add: parse_game_manager_def)
  moreover have "length bs \<noteq> 8" by (simp add: bs)
  ultimately show ?thesis
    using len parse_active_encode[OF act] by (simp add: parse_channel_one_def)
qed

theorem empty_ack_has_no_message_witness:
  "\<exists>bs. encode_empty_active_ack 5 6 (replicate 12 1) = Inr bs \<and> parse_game_manager bs = None"
proof -
  obtain bs where "encode_empty_active_ack 5 6 (replicate 12 1) = Inr bs"
    by (simp add: encode_empty_active_ack_def encode_active_def u32_def)
  with empty_ack_has_no_message[OF this] show ?thesis by blast
qed

lemma hello_payload_lengths:
  "length DEDICATED_HELLO_PAYLOAD = 27" "length CLIENT_HOSTED_HELLO_PAYLOAD = 27"
  "slice 26 27 DEDICATED_HELLO_PAYLOAD = [0x04]" "slice 26 27 CLIENT_HOSTED_HELLO_PAYLOAD = [0x04]"
  by (simp_all add: DEDICATED_HELLO_PAYLOAD_def CLIENT_HOSTED_HELLO_PAYLOAD_def slice_def)

lemma hello_fields:
  assumes "length b = 29" "b' = (splice 25 27 (to_be 2 e) (splice 23 25 (to_be 2 c) b))[27 := 0]"
  shows "length b' = 29 \<and> slice 0 2 b' = slice 0 2 b \<and> slice 23 25 b' = to_be 2 c \<and> slice 25 27 b' = to_be 2 e
    \<and> b' ! 27 = 0 \<and> slice 28 29 b' = slice 28 29 b"
  using assms
  by (simp add: length_splice slice_list_update slice_splice_before slice_splice_after slice_splice_same)

text \<open>
  A HostHello that is not refused announces the capacity and the player count it was
  given, which are in range (at least one player, at most the capacity, at most eight), at
  the offsets the client reads, and carries its timing footer after the 29-byte body.
\<close>

theorem host_hello_layout:
  assumes "encode_host_hello expected capacity footer hosted = Inr bs"
  shows "1 \<le> expected \<and> expected \<le> capacity \<and> capacity \<le> 8 \<and> length bs = 43
    \<and> slice 0 2 bs = gm_tag HOST_HELLO
    \<and> int (be_nat (slice 23 25 bs)) = capacity \<and> int (be_nat (slice 25 27 bs)) = expected
    \<and> bs ! 27 = 0 \<and> slice 29 41 bs = footer"
proof -
  define payload where "payload = (if hosted then DEDICATED_HELLO_PAYLOAD else CLIENT_HOSTED_HELLO_PAYLOAD)"
  define b where "b = gm_tag HOST_HELLO @ payload"
  define b' where "b' = (splice 25 27 (to_be 2 (nat expected)) (splice 23 25 (to_be 2 (nat capacity)) b))[27 := 0]"
  from assms have range: "1 \<le> expected" "expected \<le> capacity" "capacity \<le> 8" and len: "length footer = 12"
    and bs: "bs = b' @ footer @ NGL_FOOTER_WITH_TRAILER"
    by (auto simp: encode_host_hello_def Let_def b'_def b_def payload_def split: if_splits)
  have "length b = 29" by (simp add: b_def payload_def hello_payload_lengths)
  note f = hello_fields[OF this b'_def]
  have "slice 0 2 b = gm_tag HOST_HELLO" by (simp add: b_def slice_def)
  with f len range show ?thesis
    by (simp add: bs slice_append_left slice_append_right nth_append NGL_FOOTER_WITH_TRAILER_def)
qed

theorem host_hello_layout_witness:
  "\<exists>bs. encode_host_hello 3 8 (replicate 12 9) True = Inr bs \<and> be_nat (slice 25 27 bs) = 3 \<and> be_nat (slice 23 25 bs) = 8"
proof -
  obtain bs where "encode_host_hello 3 8 (replicate 12 9) True = Inr bs"
    by (simp add: encode_host_hello_def Let_def)
  with host_hello_layout[OF this] show ?thesis by fastforce
qed

end
