(* ===== verification/PyText.thy ===== *)
theory PyText
  imports Prelude
begin

text \<open>
  The string operations of Python that the modelled code uses, on character lists whose
  code points are below 256 (the wire text of all these protocols is Latin-1): \<open>split\<close>
  and \<open>join\<close> on a character, \<open>strip\<close>, case folding, and the decimal notation of
  naturals with its reader.  U+FFFD, which \<open>errors="replace"\<close> puts for an undecodable
  byte, is represented by the character of code 255; both are dropped by ASCII encoding.
\<close>

section \<open>Split and join\<close>

fun split_on :: "char \<Rightarrow> string \<Rightarrow> string list" where
  "split_on sep [] = [[]]"
| "split_on sep (c # cs) =
     (if c = sep then [] # split_on sep cs
      else (case split_on sep cs of [] \<Rightarrow> [[c]] | w # ws \<Rightarrow> (c # w) # ws))"

fun join_with :: "char \<Rightarrow> string list \<Rightarrow> string" where
  "join_with sep [] = []"
| "join_with sep [w] = w"
| "join_with sep (w # v # ws) = w @ sep # join_with sep (v # ws)"

lemma split_on_nonempty [simp]: "split_on sep s \<noteq> []"
  by (induction s) (auto split: list.splits)

lemma join_split: "join_with sep (split_on sep s) = s"
proof (induction s)
  case Nil
  then show ?case by simp
next
  case (Cons c cs)
  obtain w ws where "split_on sep cs = w # ws" by (cases "split_on sep cs") auto
  with Cons show ?case by (cases ws) auto
qed

lemma split_on_word: "sep \<notin> set w \<Longrightarrow> split_on sep w = [w]"
  by (induction w) auto

lemma split_on_append: "sep \<notin> set w \<Longrightarrow> split_on sep (w @ sep # s) = w # split_on sep s"
  by (induction w) (auto split: list.splits)

lemma split_join: "ws \<noteq> [] \<Longrightarrow> \<forall>w \<in> set ws. sep \<notin> set w \<Longrightarrow> split_on sep (join_with sep ws) = ws"
  by (induction sep ws rule: join_with.induct) (auto simp: split_on_word split_on_append)

section \<open>Whitespace and case\<close>

text \<open>The characters of \<open>str.isspace()\<close> below code point 256.\<close>

definition is_space :: "char \<Rightarrow> bool" where
  "is_space c = (let n = of_char c :: nat in (9 \<le> n \<and> n \<le> 13) \<or> (28 \<le> n \<and> n \<le> 32) \<or> n = 133 \<or> n = 160)"

definition strip :: "string \<Rightarrow> string" where
  "strip s = rev (dropWhile is_space (rev (dropWhile is_space s)))"

text \<open>
  \<open>str.casefold()\<close>: ASCII and Latin-1 capitals become small letters, and the sharp s
  becomes \<open>ss\<close>.  (The micro sign folds outside the modelled range and is kept.)
\<close>

definition fold_char :: "char \<Rightarrow> string" where
  "fold_char c =
     (let n = of_char c :: nat
      in if (65 \<le> n \<and> n \<le> 90) \<or> (192 \<le> n \<and> n \<le> 222 \<and> n \<noteq> 215) then [char_of (n + 32)]
         else if n = 223 then ''ss'' else [c])"

definition casefold :: "string \<Rightarrow> string" where
  "casefold s = concat (map fold_char s)"

text \<open>\<open>str.upper()\<close>, up to the letters whose capital lies outside the range.\<close>

definition upper_char :: "char \<Rightarrow> string" where
  "upper_char c =
     (let n = of_char c :: nat
      in if (97 \<le> n \<and> n \<le> 122) \<or> (224 \<le> n \<and> n \<le> 254 \<and> n \<noteq> 247) then [char_of (n - 32)]
         else if n = 223 then ''SS'' else [c])"

definition upper :: "string \<Rightarrow> string" where
  "upper s = concat (map upper_char s)"

lemma strip_Nil [simp]: "strip [] = []"
  by (simp add: strip_def)

lemma dropWhile_hd: "dropWhile P xs = x # ys \<Longrightarrow> \<not> P x"
  by (metis hd_dropWhile list.distinct(1) list.sel(1))

lemma strip_idem: "strip (strip s) = strip s"
proof -
  have dd: "dropWhile P (dropWhile P xs) = dropWhile P xs" for P and xs :: "'a list"
    by (induction xs) auto
  define t where "t = dropWhile is_space s"
  define u where "u = dropWhile is_space (rev t)"
  have "dropWhile is_space (rev u) = rev u"
  proof (cases "rev u")
    case Nil
    then show ?thesis by simp
  next
    case (Cons x xs)
    then have "last u = x" "u \<noteq> []" by (metis Nil_is_rev_conv hd_rev list.sel(1) rev_rev_ident list.distinct(1))+
    moreover have "last u = last (rev t)" using \<open>u \<noteq> []\<close> unfolding u_def
      by (metis dropWhile_eq_Nil_conv last_appendR takeWhile_dropWhile_id)
    moreover have "t \<noteq> []" using \<open>u \<noteq> []\<close> unfolding u_def by auto
    ultimately have "hd t = x" by (simp add: last_rev)
    with \<open>t \<noteq> []\<close> have "\<not> is_space x" unfolding t_def by (metis hd_dropWhile)
    with Cons show ?thesis by simp
  qed
  then have "strip (rev u) = rev u" by (simp add: strip_def u_def dd)
  then show ?thesis by (simp add: strip_def u_def t_def)
qed

section \<open>Decimal notation\<close>

definition digit :: "nat \<Rightarrow> char" where
  "digit d = char_of (48 + d)"

definition digit_val :: "char \<Rightarrow> nat" where
  "digit_val c = of_char c - 48"

definition is_digit :: "char \<Rightarrow> bool" where
  "is_digit c \<longleftrightarrow> (48 :: nat) \<le> of_char c \<and> of_char c \<le> (57 :: nat)"

fun show_nat :: "nat \<Rightarrow> string" where
  "show_nat n = (if n < 10 then [digit n] else show_nat (n div 10) @ [digit (n mod 10)])"

declare show_nat.simps [simp del]

definition read_nat :: "string \<Rightarrow> nat" where
  "read_nat s = foldl (\<lambda>n c. n * 10 + digit_val c) 0 s"

definition show_int :: "int \<Rightarrow> string" where
  "show_int v = (if v < 0 then CHR ''-'' # show_nat (nat (- v)) else show_nat (nat v))"

lemma of_char_digit: "d < 10 \<Longrightarrow> of_char (digit d) = 48 + d"
  by (simp add: digit_def)

lemma digit_0: "digit 0 = CHR ''0''"
  by code_simp

lemma digit_val_digit [simp]: "d < 10 \<Longrightarrow> digit_val (digit d) = d"
  by (simp add: digit_val_def of_char_digit)

lemma is_digit_digit [simp]: "d < 10 \<Longrightarrow> is_digit (digit d)"
  by (simp add: is_digit_def of_char_digit)

lemma digit_val_less: "is_digit c \<Longrightarrow> digit_val c < 10"
  by (auto simp: is_digit_def digit_val_def)

lemma digit_digit_val: "is_digit c \<Longrightarrow> digit (digit_val c) = c"
  by (simp add: is_digit_def digit_val_def digit_def)

lemma read_nat_snoc: "read_nat (s @ [c]) = read_nat s * 10 + digit_val c"
  by (simp add: read_nat_def)

lemma read_nat_Nil [simp]: "read_nat [] = 0"
  by (simp add: read_nat_def)

lemma show_nat_nonempty [simp]: "show_nat n \<noteq> []"
  by (subst show_nat.simps) simp

lemma show_nat_digits: "\<forall>c \<in> set (show_nat n). is_digit c"
proof (induction n rule: show_nat.induct)
  case (1 n)
  then show ?case by (subst show_nat.simps) auto
qed

lemma read_show_nat [simp]: "read_nat (show_nat n) = n"
proof (induction n rule: show_nat.induct)
  case (1 n)
  show ?case
  proof (cases "n < 10")
    case True
    then show ?thesis by (subst show_nat.simps) (simp add: read_nat_def)
  next
    case False
    with 1 show ?thesis by (subst show_nat.simps) (simp add: read_nat_snoc)
  qed
qed

lemma show_nat_inj: "show_nat m = show_nat n \<Longrightarrow> m = n"
  by (metis read_show_nat)

lemma show_nat_hd: "0 < n \<Longrightarrow> hd (show_nat n) \<noteq> CHR ''0''"
proof (induction n rule: show_nat.induct)
  case (1 n)
  show ?case
  proof (cases "n < 10")
    case True
    have "of_char (digit n) \<noteq> (of_char (CHR ''0'') :: nat)" using True 1(2) by (simp add: of_char_digit)
    then show ?thesis using True by (subst show_nat.simps) auto
  next
    case False
    with 1 show ?thesis by (subst show_nat.simps) simp
  qed
qed

lemma length_show_nat: "n < 10 ^ k \<Longrightarrow> 0 < k \<Longrightarrow> length (show_nat n) \<le> k"
proof (induction k arbitrary: n)
  case 0
  then show ?case by simp
next
  case (Suc k)
  show ?case
  proof (cases "n < 10")
    case True
    then show ?thesis by (subst show_nat.simps) simp
  next
    case False
    then have "0 < k" using Suc.prems by (cases k) simp_all
    moreover have "n div 10 < 10 ^ k" using Suc.prems by (simp add: less_mult_imp_div_less mult.commute)
    ultimately show ?thesis using Suc.IH[of "n div 10"] False by (subst show_nat.simps) simp
  qed
qed

text \<open>A canonical numeral (no leading zero) is what printing its value gives.\<close>

lemma show_read_nat:
  "s \<noteq> [] \<Longrightarrow> \<forall>c \<in> set s. is_digit c \<Longrightarrow> s = ''0'' \<or> hd s \<noteq> CHR ''0'' \<Longrightarrow> show_nat (read_nat s) = s"
proof (induction s rule: rev_induct)
  case Nil
  then show ?case by simp
next
  case (snoc c s)
  have c: "is_digit c" using snoc.prems by simp
  show ?case
  proof (cases "s = []")
    case True
    with c digit_val_less[OF c] show ?thesis
      by (subst show_nat.simps) (simp add: read_nat_def digit_digit_val)
  next
    case False
    then have hd: "hd s \<noteq> CHR ''0''" using snoc.prems(3) by (cases s) auto
    with snoc.IH False snoc.prems(2) have IH: "show_nat (read_nat s) = s" by simp
    have "read_nat s \<noteq> 0"
    proof
      assume "read_nat s = 0"
      then have "s = [digit 0]" using IH by (simp add: show_nat.simps)
      with hd show False by (simp add: digit_0)
    qed
    then show ?thesis
      using IH digit_val_less[OF c] by (subst show_nat.simps) (simp add: read_nat_snoc digit_digit_val c)
  qed
qed

section \<open>UTF-8\<close>

text \<open>
  \<open>str.encode("utf-8")\<close> on code points below 256, and \<open>bytes.decode("utf-8",
  errors="replace")\<close>: a byte that starts no code point of this range (an undecodable one,
  or one of a longer sequence) is replaced.
\<close>

definition utf8_char :: "char \<Rightarrow> bytes" where
  "utf8_char c =
     (let n = of_char c :: nat
      in if n < 128 then [word_of_nat n] else [word_of_nat (192 + n div 64), word_of_nat (128 + n mod 64)])"

definition utf8_encode :: "string \<Rightarrow> bytes" where
  "utf8_encode s = concat (map utf8_char s)"

fun utf8_decode :: "bytes \<Rightarrow> string" where
  "utf8_decode [] = []"
| "utf8_decode [b] = [if unat b < 128 then char_of (unat b) else char_of (255 :: nat)]"
| "utf8_decode (b # c # bs) =
     (if unat b < 128 then char_of (unat b) # utf8_decode (c # bs)
      else if (unat b = 194 \<or> unat b = 195) \<and> 128 \<le> unat c \<and> unat c < 192
      then char_of ((unat b - 192) * 64 + (unat c - 128)) # utf8_decode bs
      else char_of (255 :: nat) # utf8_decode (c # bs))"

lemma utf8_decode_small: "unat b < 128 \<Longrightarrow> utf8_decode (b # bs) = char_of (unat b) # utf8_decode bs"
  by (cases bs) simp_all

lemma utf8_decode_char: "utf8_decode (utf8_char c @ bs) = c # utf8_decode bs"
proof -
  define n where "n = (of_char c :: nat)"
  have n: "n < 256" by (simp add: n_def)
  have c: "char_of n = c" by (simp add: n_def)
  show ?thesis
  proof (cases "n < 128")
    case True
    with c show ?thesis
      by (simp add: utf8_char_def n_def[symmetric] utf8_decode_small unat_word_of_nat_byte)
  next
    case False
    then have d: "n div 64 = 2 \<or> n div 64 = 3" using n by auto
    have m: "n = n div 64 * 64 + n mod 64" by simp
    have u: "unat (word_of_nat (192 + n div 64) :: byte) = 192 + n div 64" "unat (word_of_nat (128 + n mod 64) :: byte) = 128 + n mod 64"
      subgoal using d by (intro unat_word_of_nat_byte) auto
      subgoal by (rule unat_word_of_nat_byte) (use mod_less_divisor[of 64 n] in linarith)
      done
    have "utf8_char c @ bs = word_of_nat (192 + n div 64) # word_of_nat (128 + n mod 64) # bs"
      using False by (simp add: utf8_char_def n_def[symmetric])
    moreover have "utf8_decode (word_of_nat (192 + n div 64) # word_of_nat (128 + n mod 64) # bs)
        = char_of (n div 64 * 64 + n mod 64) # utf8_decode bs"
      using d by (subst utf8_decode.simps(3)) (auto simp only: u, simp_all)
    ultimately show ?thesis using m c by simp
  qed
qed

lemma utf8_roundtrip [simp]: "utf8_decode (utf8_encode s) = s"
proof (induction s)
  case (Cons c s)
  then show ?case using utf8_decode_char[of c "utf8_encode s"] by (simp add: utf8_encode_def)
qed (simp add: utf8_encode_def)

end
