(* ===== verification/Codec.thy ===== *)
theory Codec
  imports Prelude
begin

text \<open>
  The contract between an encoder and a decoder that reads at a position and returns the
  position after what it read, and the loop that reads a fixed number of records.  The
  locale \<open>record_codec\<close> states the contract once; a record type of the wire formats
  interprets it with its own encoder and decoder and gets the round trip of whole runs.
\<close>

fun decode_run :: "(bytes \<Rightarrow> nat \<Rightarrow> 'e + 'a \<times> nat) \<Rightarrow> nat \<Rightarrow> bytes \<Rightarrow> nat \<Rightarrow> 'e + 'a list \<times> nat" where
  "decode_run dec 0 data position = Inr ([], position)"
| "decode_run dec (Suc n) data position =
     rbind (dec data position) (\<lambda>(x, position1).
     rbind (decode_run dec n data position1) (\<lambda>(xs, position2). Inr (x # xs, position2)))"

fun encode_run :: "('a \<Rightarrow> 'e + bytes) \<Rightarrow> 'a list \<Rightarrow> 'e + bytes" where
  "encode_run enc [] = Inr []"
| "encode_run enc (x # xs) = rbind (enc x) (\<lambda>b. rbind (encode_run enc xs) (\<lambda>bs. Inr (b @ bs)))"

locale record_codec =
  fixes enc :: "'a \<Rightarrow> 'e + bytes"
    and dec :: "bytes \<Rightarrow> nat \<Rightarrow> 'f + 'a \<times> nat"
    and canon :: "'a \<Rightarrow> 'a"
  assumes dec_enc: "enc x = Inr bs \<Longrightarrow> dec (pre @ bs @ post) (length pre) = Inr (canon x, length pre + length bs)"
begin

lemma decode_run_encode_run:
  "encode_run enc xs = Inr bs \<Longrightarrow>
   decode_run dec (length xs) (pre @ bs @ post) (length pre) = Inr (map canon xs, length pre + length bs)"
proof (induction xs arbitrary: pre bs)
  case Nil
  then show ?case by simp
next
  case (Cons x xs)
  from Cons.prems obtain b cs where b: "enc x = Inr b" and cs: "encode_run enc xs = Inr cs" and bs: "bs = b @ cs"
    by (auto simp: rbind_eq_Inr)
  have "dec (pre @ bs @ post) (length pre) = Inr (canon x, length pre + length b)"
    using dec_enc[OF b, of pre "cs @ post"] by (simp add: bs)
  moreover have "decode_run dec (length xs) (pre @ bs @ post) (length pre + length b)
      = Inr (map canon xs, length pre + length b + length cs)"
    using Cons.IH[OF cs, of "pre @ b"] by (simp add: bs)
  ultimately show ?case by (simp add: bs)
qed

text \<open>Two records with the same bytes are the same record, up to normalisation.\<close>

lemma enc_injective: "enc x = Inr bs \<Longrightarrow> enc y = Inr bs \<Longrightarrow> canon x = canon y"
  using dec_enc[of x bs "[]" "[]"] dec_enc[of y bs "[]" "[]"] by simp

end

end
