(* ===== verification/PlayerCodec.thy ===== *)
theory PlayerCodec
  imports GmProtocol PyText Codec
begin

text \<open>
  \<open>server/carbon/gamemanager/player_codec.py\<close>: the PlayerData body of the roster (0x0183)
  and join (0x0185) messages, and the leave announcement.  \<open>ipaddress\<close> is modelled as the
  strict dotted-quad parser and printer for IPv4; an address it does not accept (an IPv6
  address included) raises \<open>PlayerCodecError\<close>.  The lemmas give the round trip of the body.
\<close>

section \<open>IPv4 text\<close>

definition parse_octet :: "string \<Rightarrow> nat option" where
  "parse_octet s =
     (if s = [] \<or> \<not> (\<forall>c \<in> set s. is_digit c) \<or> length s > 3 then None
      else if s \<noteq> ''0'' \<and> hd s = CHR ''0'' then None
      else if read_nat s > 255 then None else Some (read_nat s))"

definition parse_ipv4 :: "string \<Rightarrow> bytes option" where
  "parse_ipv4 value =
     (case map parse_octet (split_on CHR ''.'' value) of
        [Some a, Some b, Some c, Some d] \<Rightarrow> Some [word_of_nat a, word_of_nat b, word_of_nat c, word_of_nat d]
      | _ \<Rightarrow> None)"

definition show_ipv4 :: "bytes \<Rightarrow> string" where
  "show_ipv4 packed = join_with CHR ''.'' (map (\<lambda>b. show_nat (unat b)) packed)"

lemma parse_octet_Some:
  "parse_octet s = Some n \<Longrightarrow> n \<le> 255 \<and> show_nat n = s"
  by (auto simp: parse_octet_def intro!: show_read_nat split: if_splits)

lemma parse_ipv4_Some:
  assumes "parse_ipv4 value = Some bs"
  shows "length bs = 4 \<and> show_ipv4 bs = value"
proof -
  from assms obtain w x y z a b c d where sp: "split_on CHR ''.'' value = [w, x, y, z]"
    and p: "parse_octet w = Some a" "parse_octet x = Some b" "parse_octet y = Some c" "parse_octet z = Some d"
    and bs: "bs = [word_of_nat a, word_of_nat b, word_of_nat c, word_of_nat d]"
    by (auto simp: parse_ipv4_def map_eq_Cons_conv split: list.splits option.splits)
  note q = p[THEN parse_octet_Some]
  have "map (\<lambda>b. show_nat (unat b)) bs = [w, x, y, z]"
    using q by (simp add: bs unat_word_of_nat_byte)
  then have "show_ipv4 bs = join_with CHR ''.'' (split_on CHR ''.'' value)"
    by (simp add: show_ipv4_def sp)
  then show ?thesis by (simp add: join_split bs)
qed

section \<open>The record and its encoders\<close>

datatype player_codec_error =
    InvalidIPv4 string
  | PortOutOfRange string int
  | InvalidPlayerId int
  | InvalidPlayerState int
  | LeaveReasonOutOfRange int
  | StructError
  | TruncatedShifted nat
  | TruncatedPlayerId
  | TruncatedName
  | TruncatedConnectionValue
  | TruncatedOptionalFlag
  | UnexpectedBlockLength nat nat
  | TruncatedOptionalBlock
  | UnsupportedAddressType nat
  | TruncatedEndpointPair

record player_wire_data =
  pw_player_id :: int
  pw_name :: string
  pw_profile_id :: int
  pw_state :: int
  pw_internal_ip :: string
  pw_internal_port :: int
  pw_external_ip :: string
  pw_external_port :: int
  pw_connection_value :: int
  pw_trailing_flag :: bool

definition OPTIONAL_NETWORK_BLOCK :: bytes where
  "OPTIONAL_NETWORK_BLOCK =
     [0x01] @ sint8 0x14 @ replicate 20 0 @ sint8 0x08 @ replicate 8 0 @ sint8 0x08 @ replicate 8 0"

definition ipv4 :: "string \<Rightarrow> player_codec_error + bytes" where
  "ipv4 value = (case parse_ipv4 value of None \<Rightarrow> Inl (InvalidIPv4 value) | Some packed \<Rightarrow> Inr packed)"

definition port_ok :: "int \<Rightarrow> bool" where
  "port_ok p \<longleftrightarrow> 0 \<le> p \<and> p \<le> 0xFFFF"

definition encode_endpoint_pair :: "player_wire_data \<Rightarrow> player_codec_error + bytes" where
  "encode_endpoint_pair player =
     (if \<not> port_ok (pw_internal_port player) then Inl (PortOutOfRange ''internal'' (pw_internal_port player))
      else if \<not> port_ok (pw_external_port player) then Inl (PortOutOfRange ''external'' (pw_external_port player))
      else rbind (ipv4 (pw_internal_ip player)) (\<lambda>internal.
           rbind (ipv4 (pw_external_ip player)) (\<lambda>external.
             Inr (internal @ to_be 2 (nat (pw_internal_port player))
                  @ external @ to_be 2 (nat (pw_external_port player))))))"

definition encode_player_data :: "player_wire_data \<Rightarrow> player_codec_error + bytes" where
  "encode_player_data player =
     (let player_id = pw_player_id player; state = pw_state player
      in if \<not> (0 < player_id \<and> player_id \<le> 0xFFFF) then Inl (InvalidPlayerId player_id)
         else if \<not> (0 \<le> state \<and> state \<le> 0x7F) then Inl (InvalidPlayerState state)
         else rbind (encode_endpoint_pair player) (\<lambda>endpoints.
           Inr (to_be 2 (nat player_id)
                @ fesl_string (pw_name player) 63
                @ sint64 (pw_profile_id player)
                @ sint8 state
                @ to_be 8 (umask 64 (pw_connection_value player))
                @ OPTIONAL_NETWORK_BLOCK
                @ sint8 0
                @ endpoints
                @ (if pw_trailing_flag player then [0x01] else [0x00]))))"

definition encode_roster :: "player_wire_data \<Rightarrow> player_codec_error + bytes" where
  "encode_roster player =
     rbind (encode_player_data player) (\<lambda>data. Inr (gm_tag PLAYER_ROSTER @ data @ PLAIN_TERMINATOR))"

text \<open>\<open>struct.pack(">H", player_id)\<close> comes before the body's own range check.\<close>

definition encode_join :: "player_wire_data \<Rightarrow> player_codec_error + bytes" where
  "encode_join player =
     (if \<not> (0 \<le> pw_player_id player \<and> pw_player_id player \<le> 0xFFFF) then Inl StructError
      else rbind (encode_player_data player) (\<lambda>data.
        Inr (gm_tag PLAYER_JOINED @ to_be 2 (nat (pw_player_id player)) @ data @ PLAIN_TERMINATOR)))"

definition encode_leave :: "int \<Rightarrow> int \<Rightarrow> player_codec_error + bytes" where
  "encode_leave player_id reason =
     (if \<not> (0 < player_id \<and> player_id \<le> 0xFFFF) then Inl (InvalidPlayerId player_id)
      else if \<not> (-128 \<le> reason \<and> reason \<le> 127) then Inl (LeaveReasonOutOfRange reason)
      else Inr (gm_tag PLAYER_LEFT @ to_be 2 (nat player_id) @ sint8 reason))"

section \<open>Decoding\<close>

definition read_shifted :: "bytes \<Rightarrow> nat \<Rightarrow> nat \<Rightarrow> player_codec_error + nat \<times> nat" where
  "read_shifted data position width =
     (let e = position + width
      in if e > length data then Inl (TruncatedShifted width) else Inr (unshift (slice position e data), e))"

text \<open>\<open>bytes.decode("ascii", errors="replace")\<close>; see \<open>PyText\<close> for the replacement character.\<close>

definition ascii_replace :: "bytes \<Rightarrow> string" where
  "ascii_replace bs = map (\<lambda>b. if unat b < 128 then char_of (unat b) else char_of (255 :: nat)) bs"

fun skip_blocks :: "bytes \<Rightarrow> nat \<Rightarrow> nat list \<Rightarrow> player_codec_error + nat" where
  "skip_blocks data position [] = Inr position"
| "skip_blocks data position (expected # rest) =
     rbind (read_shifted data position 1) (\<lambda>(block_length, position1).
       if block_length \<noteq> expected then Inl (UnexpectedBlockLength block_length expected)
       else if position1 + block_length > length data then Inl TruncatedOptionalBlock
       else skip_blocks data (position1 + block_length) rest)"

definition decode_player_data :: "bytes \<Rightarrow> nat \<Rightarrow> player_codec_error + player_wire_data \<times> nat" where
  "decode_player_data data p0 =
     (if p0 + 2 > length data then Inl TruncatedPlayerId
      else let player_id = be_nat (slice p0 (p0 + 2) data); p1 = p0 + 2
      in rbind (read_shifted data p1 4) (\<lambda>(name_length, p2).
      if p2 + name_length > length data then Inl TruncatedName
      else let name = ascii_replace (slice p2 (p2 + name_length) data); p3 = p2 + name_length
      in rbind (read_shifted data p3 8) (\<lambda>(profile_id, p4).
      rbind (read_shifted data p4 1) (\<lambda>(state, p5).
      if p5 + 8 > length data then Inl TruncatedConnectionValue
      else let connection_value = be_nat (slice p5 (p5 + 8) data); p6 = p5 + 8
      in if p6 \<ge> length data then Inl TruncatedOptionalFlag
      else let optional = data ! p6; p7 = p6 + 1
      in rbind (if optional \<noteq> 0 then skip_blocks data p7 [20, 8, 8] else Inr p7) (\<lambda>p8.
      rbind (read_shifted data p8 1) (\<lambda>(address_type, p9).
      if address_type \<noteq> 0 then Inl (UnsupportedAddressType address_type)
      else if p9 + 13 > length data then Inl TruncatedEndpointPair
      else Inr (\<lparr>pw_player_id = int player_id, pw_name = name, pw_profile_id = int profile_id, pw_state = int state,
                 pw_internal_ip = show_ipv4 (slice p9 (p9 + 4) data),
                 pw_internal_port = int (be_nat (slice (p9 + 4) (p9 + 6) data)),
                 pw_external_ip = show_ipv4 (slice (p9 + 6) (p9 + 10) data),
                 pw_external_port = int (be_nat (slice (p9 + 10) (p9 + 12) data)),
                 pw_connection_value = int connection_value,
                 pw_trailing_flag = (data ! (p9 + 12) \<noteq> 0)\<rparr>, p9 + 13)))))))"

section \<open>Round trip\<close>

text \<open>What the wire keeps of a record: ASCII letters of the name, at most 63, and 64 bits of the two ids.\<close>

definition canonical_player :: "player_wire_data \<Rightarrow> player_wire_data" where
  "canonical_player p = p\<lparr>pw_name := take 63 (filter (\<lambda>c. of_char c < (128 :: nat)) (pw_name p)),
     pw_profile_id := int (umask 64 (pw_profile_id p)),
     pw_connection_value := int (umask 64 (pw_connection_value p))\<rparr>"

lemma slice_at: "slice (length pre) (length pre + length f) (pre @ f @ rest) = f"
  by (simp add: slice_def)

lemma read_shifted_at: "length f = w \<Longrightarrow> read_shifted (pre @ f @ rest) (length pre) w = Inr (unshift f, length pre + w)"
  by (auto simp: read_shifted_def slice_at)

lemma read_shifted_field:
  assumes "data = pre @ f @ rest" "p = length pre" "length f = w"
  shows "read_shifted data p w = Inr (unshift f, p + w)"
  unfolding assms(1,2) by (rule read_shifted_at[OF assms(3)])

lemma slice_field:
  assumes "data = pre @ f @ rest" "p = length pre" "q = p + length f"
  shows "slice p q data = f"
  unfolding assms by (rule slice_at)

lemma unat_of_char_byte [simp]: "unat (of_char c :: byte) = of_char c"
proof -
  have "(of_char c :: byte) = word_of_nat (of_char c)" by (simp only: of_nat_of_char)
  moreover have "unat (word_of_nat (of_char c) :: byte) = of_char c"
    by (rule unat_word_of_nat_byte) (metis of_char_mod_256 mod_less_divisor zero_less_numeral)
  ultimately show ?thesis by (simp only:)
qed

lemma ascii_replace_ignore:
  "ascii_replace (take n (ascii_ignore s)) = take n (filter (\<lambda>c. of_char c < (128 :: nat)) s)"
proof -
  have "ascii_replace (ascii_ignore t) = filter (\<lambda>c. of_char c < (128 :: nat)) t" for t
    by (induction t) (auto simp: ascii_replace_def ascii_ignore_def)
  moreover have "ascii_replace (take n bs) = take n (ascii_replace bs)" for bs
    by (simp add: ascii_replace_def take_map)
  ultimately show ?thesis by simp
qed

lemma length_ascii_take: "umask 32 (int (length (take 63 (ascii_ignore s)))) = length (take 63 (ascii_ignore s))"
  by (rule umask_of_nat) (simp add: min_def)

lemma optional_block_skipped:
  assumes "data = pre @ OPTIONAL_NETWORK_BLOCK @ rest"
  shows "data ! length pre = 0x01" "skip_blocks data (Suc (length pre)) [20, 8, 8] = Inr (length pre + 40)"
proof -
  show "data ! length pre = 0x01" by (simp add: assms OPTIONAL_NETWORK_BLOCK_def)
  have u: "unshift (sint8 0x14) = 20" "unshift (sint8 0x08) = 8" by (simp_all add: unshift_sint8 umask_def)
  let ?pre = "pre @ [0x01]"
  have 1: "read_shifted data (Suc (length pre)) 1 = Inr (20, length pre + 2)"
    using read_shifted_field[where p = "Suc (length pre)" and w = 1 and pre = ?pre and f = "sint8 0x14"
      and rest = "replicate 20 0 @ sint8 0x08 @ replicate 8 0 @ sint8 0x08 @ replicate 8 0 @ rest" and data = data]
    by (simp add: assms OPTIONAL_NETWORK_BLOCK_def u)
  have 2: "read_shifted data (length pre + 22) 1 = Inr (8, length pre + 23)"
    using read_shifted_field[where p = "length pre + 22" and w = 1 and pre = "?pre @ sint8 0x14 @ replicate 20 0"
      and f = "sint8 0x08" and rest = "replicate 8 0 @ sint8 0x08 @ replicate 8 0 @ rest" and data = data]
    by (simp add: assms OPTIONAL_NETWORK_BLOCK_def u)
  have 3: "read_shifted data (length pre + 31) 1 = Inr (8, length pre + 32)"
    using read_shifted_field[where p = "length pre + 31" and w = 1
      and pre = "?pre @ sint8 0x14 @ replicate 20 0 @ sint8 0x08 @ replicate 8 0"
      and f = "sint8 0x08" and rest = "replicate 8 0 @ rest" and data = data]
    by (simp add: assms OPTIONAL_NETWORK_BLOCK_def u)
  have "length data = length pre + 40 + length rest" by (simp add: assms OPTIONAL_NETWORK_BLOCK_def)
  with 1 2 3 show "skip_blocks data (Suc (length pre)) [20, 8, 8] = Inr (length pre + 40)"
    by (simp add: add.commute)
qed

lemma length_optional_block: "length OPTIONAL_NETWORK_BLOCK = 40"
  by (simp add: OPTIONAL_NETWORK_BLOCK_def)

text \<open>The fields of the encoded body, one after the other.\<close>

lemma encode_player_data_Inr:
  "encode_player_data p = Inr bs \<Longrightarrow>
   \<exists>ii ei. 0 < pw_player_id p \<and> pw_player_id p \<le> 0xFFFF \<and> 0 \<le> pw_state p \<and> pw_state p \<le> 0x7F
     \<and> port_ok (pw_internal_port p) \<and> port_ok (pw_external_port p)
     \<and> parse_ipv4 (pw_internal_ip p) = Some ii \<and> parse_ipv4 (pw_external_ip p) = Some ei
     \<and> bs = to_be 2 (nat (pw_player_id p)) @ sint32 (int (length (take 63 (ascii_ignore (pw_name p)))))
         @ take 63 (ascii_ignore (pw_name p)) @ sint64 (pw_profile_id p) @ sint8 (pw_state p)
         @ to_be 8 (umask 64 (pw_connection_value p)) @ OPTIONAL_NETWORK_BLOCK @ sint8 0
         @ ii @ to_be 2 (nat (pw_internal_port p)) @ ei @ to_be 2 (nat (pw_external_port p))
         @ [if pw_trailing_flag p then 0x01 else 0x00]"
  by (auto simp: encode_player_data_def encode_endpoint_pair_def ipv4_def rbind_eq_Inr Let_def fesl_string_def
      split: if_splits option.splits)

lemma decode_encode_player:
  assumes "encode_player_data p = Inr bs"
  shows "decode_player_data (pre @ bs @ post) (length pre) = Inr (canonical_player p, length pre + length bs)"
proof -
  define raw where "raw = take 63 (ascii_ignore (pw_name p))"
  define idb where "idb = to_be 2 (nat (pw_player_id p))"
  define iport where "iport = to_be 2 (nat (pw_internal_port p))"
  define eport where "eport = to_be 2 (nat (pw_external_port p))"
  define conn where "conn = to_be 8 (umask 64 (pw_connection_value p))"
  define flag where "flag = [if pw_trailing_flag p then 0x01 else 0x00 :: byte]"
  define lenb where "lenb = sint32 (int (length raw))"
  define prof where "prof = sint64 (pw_profile_id p)"
  define stb where "stb = sint8 (pw_state p)"
  define addr where "addr = sint8 0"
  from encode_player_data_Inr[OF assms] obtain ii ei where r: "0 < pw_player_id p" "pw_player_id p \<le> 0xFFFF"
    "0 \<le> pw_state p" "pw_state p \<le> 0x7F" "port_ok (pw_internal_port p)" "port_ok (pw_external_port p)"
    "parse_ipv4 (pw_internal_ip p) = Some ii" "parse_ipv4 (pw_external_ip p) = Some ei"
    and bs: "bs = idb @ lenb @ raw @ prof @ stb @ conn @ OPTIONAL_NETWORK_BLOCK @ addr @ ii @ iport @ ei @ eport @ flag"
    unfolding raw_def idb_def iport_def eport_def conn_def flag_def lenb_def prof_def stb_def addr_def by blast
  note ip = r(7,8)[THEN parse_ipv4_Some]
  have len [simp]: "length idb = 2" "length lenb = 4" "length prof = 8" "length stb = 1" "length conn = 8"
    "length addr = 1" "length ii = 4" "length iport = 2" "length ei = 4" "length eport = 2" "length flag = 1"
    using ip by (simp_all add: idb_def iport_def eport_def conn_def flag_def lenb_def prof_def stb_def addr_def)
  define L where "L = length raw"
  define N where "N = length pre"
  define data where "data = pre @ bs @ post"
  have val: "unshift lenb = L" "unshift prof = umask 64 (pw_profile_id p)" "unshift stb = nat (pw_state p)" "unshift addr = 0"
    "be_nat idb = nat (pw_player_id p)" "be_nat conn = umask 64 (pw_connection_value p)"
    "be_nat iport = nat (pw_internal_port p)" "be_nat eport = nat (pw_external_port p)"
         apply (simp add: lenb_def unshift_sint32 L_def raw_def length_ascii_take)
        apply (simp add: prof_def unshift_sint64)
       apply (simp add: stb_def unshift_sint8 umask_def r)
       subgoal using r by simp
      apply (simp add: addr_def unshift_sint8 umask_def)
     subgoal using r by (simp add: idb_def nat_less_iff)
    subgoal using umask_less[of 64 "pw_connection_value p"] by (simp add: conn_def)
   subgoal using r by (simp add: iport_def port_ok_def nat_less_iff)
  subgoal using r by (simp add: eport_def port_ok_def nat_less_iff)
  done
  have lend: "length data = N + L + 77 + length post"
    by (simp add: data_def bs N_def L_def length_optional_block)
  have f1: "slice N (N + 2) data = idb"
    by (rule slice_field[of _ pre]) (simp_all add: data_def bs N_def)
  have f2: "read_shifted data (N + 2) 4 = Inr (L, N + 6)"
    using read_shifted_field[of data "pre @ idb" lenb _ "N + 2" 4] by (simp add: data_def bs N_def val)
  have f3: "slice (N + 6) (N + 6 + L) data = raw"
    by (rule slice_field[of _ "pre @ idb @ lenb"]) (simp_all add: data_def bs N_def L_def)
  have f4: "read_shifted data (N + 6 + L) 8 = Inr (umask 64 (pw_profile_id p), N + L + 14)"
    using read_shifted_field[of data "pre @ idb @ lenb @ raw" prof _ "N + 6 + L" 8] by (simp add: data_def bs N_def L_def val)
  have f5: "read_shifted data (N + L + 14) 1 = Inr (nat (pw_state p), N + L + 15)"
    using read_shifted_field[of data "pre @ idb @ lenb @ raw @ prof" stb _ "N + L + 14" 1]
    by (simp add: data_def bs N_def L_def val)
  have f6: "slice (N + L + 15) (N + L + 23) data = conn"
    by (rule slice_field[of _ "pre @ idb @ lenb @ raw @ prof @ stb"]) (simp_all add: data_def bs N_def L_def)
  have "data = (pre @ idb @ lenb @ raw @ prof @ stb @ conn) @ OPTIONAL_NETWORK_BLOCK @ (addr @ ii @ iport @ ei @ eport @ flag @ post)"
    by (simp add: data_def bs)
  moreover have "length (pre @ idb @ lenb @ raw @ prof @ stb @ conn) = N + L + 23"
    by (simp add: N_def L_def)
  ultimately have f7: "data ! (N + L + 23) = 0x01" "skip_blocks data (Suc (N + L + 23)) [20, 8, 8] = Inr (N + L + 23 + 40)"
    using optional_block_skipped by (metis, metis)
  have f8: "read_shifted data (N + L + 63) 1 = Inr (0, N + L + 64)"
    using read_shifted_field[of data "pre @ idb @ lenb @ raw @ prof @ stb @ conn @ OPTIONAL_NETWORK_BLOCK" addr _ "N + L + 63" 1]
    by (simp add: data_def bs N_def L_def val length_optional_block)
  let ?h = "pre @ idb @ lenb @ raw @ prof @ stb @ conn @ OPTIONAL_NETWORK_BLOCK @ addr"
  have f9: "slice (N + L + 64) (N + L + 68) data = ii"
    by (rule slice_field[of _ ?h]) (simp_all add: data_def bs N_def L_def length_optional_block)
  have f10: "slice (N + L + 68) (N + L + 70) data = iport"
    by (rule slice_field[of _ "?h @ ii"]) (simp_all add: data_def bs N_def L_def length_optional_block)
  have f11: "slice (N + L + 70) (N + L + 74) data = ei"
    by (rule slice_field[of _ "?h @ ii @ iport"]) (simp_all add: data_def bs N_def L_def length_optional_block)
  have f12: "slice (N + L + 74) (N + L + 76) data = eport"
    by (rule slice_field[of _ "?h @ ii @ iport @ ei"]) (simp_all add: data_def bs N_def L_def length_optional_block)
  have "slice (N + L + 76) (N + L + 77) data = flag"
    by (rule slice_field[of _ "?h @ ii @ iport @ ei @ eport"]) (simp_all add: data_def bs N_def L_def length_optional_block)
  then have f13: "data ! (N + L + 76) = (if pw_trailing_flag p then 0x01 else 0x00)"
    using nth_slice[of 0 "N + L + 77" "N + L + 76" data] by (simp add: lend flag_def)
  have name: "ascii_replace raw = take 63 (filter (\<lambda>c. of_char c < (128 :: nat)) (pw_name p))"
    unfolding raw_def by (rule ascii_replace_ignore)
  have blen: "length bs = L + 77" by (simp add: bs L_def length_optional_block)
  have "decode_player_data data N = Inr (canonical_player p, N + (L + 77))"
    using f1 f2 f3 f4 f5 f6 f7 f8 f9 f10 f11 f12 f13 val(5-8) r(1-6) ip name
    by (simp add: decode_player_data_def Let_def lend ac_simps canonical_player_def port_ok_def)
  then show ?thesis by (simp add: data_def N_def blen)
qed

interpretation player: record_codec encode_player_data decode_player_data canonical_player
  by unfold_locales (rule decode_encode_player)

lemma encode_roster_Inr: "encode_roster p = Inr bs \<longleftrightarrow> (\<exists>b. encode_player_data p = Inr b \<and> bs = gm_tag PLAYER_ROSTER @ b @ PLAIN_TERMINATOR)"
  by (auto simp: encode_roster_def rbind_eq_Inr)

lemma encode_join_Inr:
  "encode_join p = Inr bs \<longleftrightarrow>
   (\<exists>b. encode_player_data p = Inr b \<and> bs = (gm_tag PLAYER_JOINED @ to_be 2 (nat (pw_player_id p))) @ b @ PLAIN_TERMINATOR)"
  by (auto simp: encode_join_def rbind_eq_Inr dest: encode_player_data_Inr)

text \<open>
  The roster and join messages that are not refused are read back by the player decoder,
  at the position where their player body starts (after the tag, and after the tag and the
  id in a join), as the record that was sent, up to the name's ASCII letters and the 64-bit
  ids; the decoder stops exactly before the terminator.
\<close>

theorem player_messages_roundtrip:
  "(encode_roster p = Inr bs \<longrightarrow> decode_player_data bs 2 = Inr (canonical_player p, length bs - 1))
   \<and> (encode_join p = Inr bs \<longrightarrow> decode_player_data bs 4 = Inr (canonical_player p, length bs - 1))"
proof (intro conjI impI)
  assume "encode_roster p = Inr bs"
  then obtain b where "encode_player_data p = Inr b" and bs: "bs = gm_tag PLAYER_ROSTER @ b @ PLAIN_TERMINATOR"
    by (auto simp: encode_roster_Inr)
  from player.dec_enc[OF this(1), of "gm_tag PLAYER_ROSTER" PLAIN_TERMINATOR]
  show "decode_player_data bs 2 = Inr (canonical_player p, length bs - 1)"
    by (simp add: bs PLAIN_TERMINATOR_def)
next
  assume "encode_join p = Inr bs"
  then obtain b where "encode_player_data p = Inr b"
    and bs: "bs = (gm_tag PLAYER_JOINED @ to_be 2 (nat (pw_player_id p))) @ b @ PLAIN_TERMINATOR"
    by (auto simp: encode_join_Inr)
  from player.dec_enc[OF this(1), of "gm_tag PLAYER_JOINED @ to_be 2 (nat (pw_player_id p))" PLAIN_TERMINATOR]
  show "decode_player_data bs 4 = Inr (canonical_player p, length bs - 1)"
    by (simp add: bs PLAIN_TERMINATOR_def)
qed

definition sample_player :: player_wire_data where
  "sample_player = \<lparr>pw_player_id = 7, pw_name = ''Mia'', pw_profile_id = -1, pw_state = 3,
     pw_internal_ip = ''10.0.0.5'', pw_internal_port = 3658, pw_external_ip = ''192.168.1.20'', pw_external_port = 65535,
     pw_connection_value = 81985529216486895, pw_trailing_flag = True\<rparr>"

lemma sample_addresses: "parse_ipv4 ''10.0.0.5'' = Some [10, 0, 0, 5]" "parse_ipv4 ''192.168.1.20'' = Some [192, 168, 1, 20]"
  by code_simp+

lemma sample_player_encodes: "is_ok (encode_roster sample_player) \<and> is_ok (encode_join sample_player)"
  by (simp add: encode_roster_def encode_join_def encode_player_data_def encode_endpoint_pair_def ipv4_def
      sample_player_def sample_addresses port_ok_def Let_def)

theorem player_messages_roundtrip_witness:
  "\<exists>bs cs. encode_roster sample_player = Inr bs
     \<and> decode_player_data bs 2 = Inr (sample_player\<lparr>pw_profile_id := 18446744073709551615\<rparr>, length bs - 1)
     \<and> encode_join sample_player = Inr cs
     \<and> decode_player_data cs 4 = Inr (sample_player\<lparr>pw_profile_id := 18446744073709551615\<rparr>, length cs - 1)"
proof -
  obtain bs cs where e: "encode_roster sample_player = Inr bs" "encode_join sample_player = Inr cs"
    using sample_player_encodes by (auto simp: is_ok_iff)
  have "canonical_player sample_player = sample_player\<lparr>pw_profile_id := 18446744073709551615\<rparr>"
    by (simp add: canonical_player_def sample_player_def umask_def)
  with player_messages_roundtrip[of sample_player bs] player_messages_roundtrip[of sample_player cs] e show ?thesis
    by auto
qed

end
