(* ===== verification/SessionObject.thy ===== *)
theory SessionObject
  imports GmProtocol
begin

text \<open>
  \<open>server/carbon/gamemanager/session_object.py\<close>: the three-chunk 0x1e race-session object,
  its scanner, its completeness test and the rewriting for another receiver.  The lemmas
  show that the scanner recovers every chunk of a compound in order and that rewriting
  changes the receiver-local fields only.
\<close>

section \<open>Scanner\<close>

definition SESSION_OBJECT_PREFIX :: bytes where
  "SESSION_OBJECT_PREFIX = olmsg BIG_MESSAGE []"

definition SESSION_OBJECT_CHUNK_OFFSETS :: "nat list" where
  "SESSION_OBJECT_CHUNK_OFFSETS = [0, 0x1E4, 0x3C8]"

datatype session_object_error =
    InvalidRemoteObjectId int
  | InvalidRemoteSlot int
  | IncompleteObject
  | TruncatedOffsetZeroBlock

record session_object_block =
  so_object_id :: nat
  so_total_size :: nat
  so_offset :: nat
  so_raw :: bytes

text \<open>Positions are naturals here, so the source's test \<open>start < 0\<close> has no counterpart.\<close>

definition parse_session_object_at :: "bytes \<Rightarrow> nat \<Rightarrow> (session_object_block \<times> nat) option" where
  "parse_session_object_at body start =
     (let header_end = start + 23
      in if header_end > length body then None
         else if slice start (start + length SESSION_OBJECT_PREFIX) body \<noteq> SESSION_OBJECT_PREFIX then None
         else
           let object_id = be_nat (slice (start + 5) (start + 9) body);
               total_size = be_nat (slice (start + 9) (start + 13) body);
               offset = be_nat (slice (start + 13) (start + 17) body);
               maximum_chunk_size = be_nat (slice (start + 17) (start + 21) body);
               chunk_size = be_nat (slice (start + 21) (start + 23) body);
               e = header_end + chunk_size
           in if object_id \<le> 0 \<or> total_size \<le> 0 \<or> offset \<notin> set SESSION_OBJECT_CHUNK_OFFSETS
                \<or> maximum_chunk_size \<le> 0 \<or> chunk_size \<le> 0 \<or> chunk_size > maximum_chunk_size
                \<or> offset \<ge> total_size \<or> offset + chunk_size > total_size \<or> e > length body
              then None
              else Some (\<lparr>so_object_id = object_id, so_total_size = total_size, so_offset = offset,
                          so_raw = slice start e body\<rparr>, e))"

lemma length_prefix [simp]: "length SESSION_OBJECT_PREFIX = 5"
  by (simp add: SESSION_OBJECT_PREFIX_def)

lemma parse_at_advances: "parse_session_object_at body start = Some (block, e) \<Longrightarrow> start + 23 < e \<and> e \<le> length body"
  by (auto simp: parse_session_object_at_def Let_def split: if_splits)

text \<open>
  The scanning loop, by recursion on the rest of the body: a match that is not a chunk moves
  the cursor one byte past it, a chunk moves it to the chunk's end.
\<close>

function iter_session_object_blocks :: "bytes \<Rightarrow> nat \<Rightarrow> session_object_block list" where
  "iter_session_object_blocks body cursor =
     (if cursor < length body then
        (case find_from SESSION_OBJECT_PREFIX body cursor of
           None \<Rightarrow> []
         | Some start \<Rightarrow>
             (case parse_session_object_at body start of
                None \<Rightarrow> iter_session_object_blocks body (start + 1)
              | Some (block, cursor1) \<Rightarrow> block # iter_session_object_blocks body cursor1))
      else [])"
  by pat_completeness auto

termination
  by (relation "measure (\<lambda>(body, cursor). length body - cursor)")
    (auto dest!: find_from_Some parse_at_advances)

declare iter_session_object_blocks.simps [simp del]

definition parse_session_object_block :: "bytes \<Rightarrow> session_object_block option" where
  "parse_session_object_block raw =
     (if \<not> starts_with SESSION_OBJECT_PREFIX raw then None
      else map_option fst (parse_session_object_at raw 0))"

section \<open>Completeness and rewriting\<close>

definition by_offset :: "bytes list \<Rightarrow> (nat \<times> session_object_block) list" where
  "by_offset blocks =
     fold (\<lambda>raw d. case parse_session_object_block raw of
                     None \<Rightarrow> d | Some parsed \<Rightarrow> dict_setdefault (so_offset parsed) parsed d) blocks []"

definition unique_blocks :: "bytes list \<Rightarrow> session_object_block list" where
  "unique_blocks blocks = map snd (sort_key fst (by_offset blocks))"

definition is_session_object_complete :: "bytes list \<Rightarrow> bool" where
  "is_session_object_complete blocks \<longleftrightarrow>
     set SESSION_OBJECT_CHUNK_OFFSETS \<subseteq> set (map so_offset (unique_blocks blocks))"

definition is_capture_complete :: "bytes list \<Rightarrow> bool" where
  "is_capture_complete blocks = is_session_object_complete blocks"

definition first_block_identity :: "bytes list \<Rightarrow> nat \<times> nat \<times> string" where
  "first_block_identity blocks =
     (let first = (case filter (\<lambda>item. so_offset item = 0) (unique_blocks blocks) of [] \<Rightarrow> [] | item # _ \<Rightarrow> so_raw item)
      in if first = [] then (0, 0, [])
         else
           let player_id = (if length first \<ge> 35 then be_nat (slice 31 35 first) else 0);
               name = (case find_from [0x22, 0x01, 0x2b, 0x18] first 23 of
                         None \<Rightarrow> []
                       | Some marker \<Rightarrow>
                           if marker + 6 \<le> length first then
                             let size = unat (first ! (marker + 5)); start = marker + 6; e = start + size
                             in if e \<le> length first
                                then map (\<lambda>b. char_of (unat b)) (filter (\<lambda>b. unat b < 128) (slice start e first))
                                else []
                           else [])
           in (be_nat (slice 5 9 first), player_id, name))"

definition rewrite_block :: "nat \<Rightarrow> nat \<Rightarrow> session_object_block \<Rightarrow> session_object_error + bytes" where
  "rewrite_block object_id slot item =
     (let body = splice 5 9 (to_be 4 object_id) (so_raw item)
      in if so_offset item = 0 then
           if length body < 43 then Inl TruncatedOffsetZeroBlock
           else Inr (splice 39 43 (to_be 4 slot) (splice 35 39 (to_be 4 slot) body))
         else Inr body)"

fun rewrite_all :: "nat \<Rightarrow> nat \<Rightarrow> session_object_block list \<Rightarrow> session_object_error + bytes list" where
  "rewrite_all object_id slot [] = Inr []"
| "rewrite_all object_id slot (item # items) =
     rbind (rewrite_block object_id slot item) (\<lambda>body.
     rbind (rewrite_all object_id slot items) (\<lambda>rest. Inr (body # rest)))"

definition rewrite_for_receiver :: "bytes list \<Rightarrow> int \<Rightarrow> int \<Rightarrow> session_object_error + bytes list" where
  "rewrite_for_receiver blocks remote_object_id remote_slot =
     (if \<not> (1 \<le> remote_object_id \<and> remote_object_id \<le> 0xFFFFFFFF) then Inl (InvalidRemoteObjectId remote_object_id)
      else if \<not> (0 \<le> remote_slot \<and> remote_slot \<le> 0xFFFFFFFF) then Inl (InvalidRemoteSlot remote_slot)
      else if \<not> set SESSION_OBJECT_CHUNK_OFFSETS \<subseteq> set (map so_offset (unique_blocks blocks)) then Inl IncompleteObject
      else rewrite_all (nat remote_object_id) (nat remote_slot) (unique_blocks blocks))"

section \<open>Scanning a compound\<close>

lemma slice_inner: "d \<le> length raw \<Longrightarrow> slice (length pre + c) (length pre + d) (pre @ raw @ post) = slice c d raw"
  by (simp add: slice_append_right slice_append_left)

lemma parse_at_inner:
  assumes "parse_session_object_at raw 0 = Some (b, length raw)"
  shows "parse_session_object_at (pre @ raw @ post) (length pre) = Some (b, length pre + length raw)"
proof -
  have len: "23 \<le> length raw" using parse_at_advances[OF assms] by simp
  have s: "slice (length pre + c) (length pre + d) (pre @ raw @ post) = slice c d raw" if "d \<le> 23" for c d
    using that len by (intro slice_inner) simp
  have s0: "slice (length pre) (length pre + 5) (pre @ raw @ post) = slice 0 5 raw"
    using s[of 5 0] by simp
  have "length raw = 23 + be_nat (slice 21 23 raw)" "b = b\<lparr>so_raw := raw\<rparr>"
    using assms by (auto simp: parse_session_object_at_def Let_def split: if_splits)
  then have full: "slice (length pre) (length pre + (23 + be_nat (slice 21 23 raw))) (pre @ raw @ post) = raw"
    using slice_inner[of "length raw" raw pre 0 post] by simp
  show ?thesis
    using assms len unfolding parse_session_object_at_def Let_def
    by (auto simp: s s0 full add.assoc split: if_splits)
qed

lemma parse_at_raw:
  assumes "parse_session_object_at body start = Some (b, e)"
  shows "so_raw b = slice start e body \<and> parse_session_object_at (so_raw b) 0 = Some (b, length (so_raw b))"
proof -
  have e: "start + 23 < e" "e \<le> length body" using parse_at_advances[OF assms] by simp_all
  have raw: "so_raw b = slice start e body" and ee: "e = start + 23 + be_nat (slice (start + 21) (start + 23) body)"
    using assms by (auto simp: parse_session_object_at_def Let_def split: if_splits)
  define R where "R = slice start e body"
  have s: "slice c d R = slice (start + c) (start + d) body" if "d \<le> 23" for c d
    using that e by (simp add: slice_slice min_def R_def)
  have s0: "slice 0 5 R = slice start (start + 5) body" using s[of 5 0] by simp
  have len: "length R = 23 + be_nat (slice (start + 21) (start + 23) body)" using e ee by (simp add: R_def)
  have "parse_session_object_at R 0 = Some (b, length R)"
    using assms e(2) raw[folded R_def] unfolding parse_session_object_at_def Let_def
    by (auto simp: s s0 len split: if_splits)
  with raw show ?thesis by (simp add: R_def)
qed

lemma parse_at_prefix: "parse_session_object_at body start = Some (b, e) \<Longrightarrow> starts_with SESSION_OBJECT_PREFIX (drop start body)"
  by (auto simp: parse_session_object_at_def Let_def starts_with_def slice_def split: if_splits)

lemma parse_block_Some:
  "parse_session_object_block raw = Some b \<longleftrightarrow> (\<exists>e. parse_session_object_at raw 0 = Some (b, e))"
  using parse_at_prefix[of raw 0] by (force simp: parse_session_object_block_def split: if_splits)

lemma find_from_here: "starts_with p (drop n xs) \<Longrightarrow> n < length xs \<Longrightarrow> find_from p xs n = Some n"
  by (cases "drop n xs") (auto simp: find_from_def)

lemma iter_step:
  assumes "parse_session_object_at body start = Some (b, e)"
  shows "iter_session_object_blocks body start = b # iter_session_object_blocks body e"
proof -
  have "start < length body" using parse_at_advances[OF assms] by simp
  with assms parse_at_prefix[OF assms] show ?thesis
    by (subst iter_session_object_blocks.simps) (simp add: find_from_here)
qed

text \<open>
  A compound of complete chunks, one behind the other, is scanned into exactly these
  chunks, in order: the scanner loses none, splits none and finds no other.
\<close>

theorem compound_scan:
  assumes "list_all2 (\<lambda>raw block. parse_session_object_at raw 0 = Some (block, length raw)) raws blocks"
  shows "iter_session_object_blocks (concat raws) 0 = blocks"
proof -
  have "iter_session_object_blocks (pre @ concat raws) (length pre) = blocks" for pre
    using assms
  proof (induction raws blocks arbitrary: pre rule: list_all2_induct)
    case Nil
    then show ?case by (subst iter_session_object_blocks.simps) simp
  next
    case (Cons raw raws block blocks)
    from iter_step[OF parse_at_inner[OF Cons.hyps(1), of pre "concat raws"]]
    show ?case using Cons.IH[of "pre @ raw"] by simp
  qed
  from this[of "[]"] show ?thesis by simp
qed

definition sample_chunk :: bytes where
  "sample_chunk = SESSION_OBJECT_PREFIX @ [0, 0, 0, 9, 0, 0, 4, 0, 0, 0, 0x01, 0xE4, 0, 0, 0, 8, 0, 2, 0xAA, 0xBB]"

definition sample_block :: session_object_block where
  "sample_block = \<lparr>so_object_id = 9, so_total_size = 1024, so_offset = 0x1E4, so_raw = sample_chunk\<rparr>"

lemma sample_chunk_parses: "parse_session_object_at sample_chunk 0 = Some (sample_block, length sample_chunk)"
  by (simp add: sample_chunk_def sample_block_def parse_session_object_at_def slice_def be_nat_def
      SESSION_OBJECT_PREFIX_def olmsg_def LOGICAL_PREFIX_def SESSION_OBJECT_CHUNK_OFFSETS_def)

theorem compound_scan_witness:
  "iter_session_object_blocks (sample_chunk @ sample_chunk) 0 = [sample_block, sample_block]"
  using compound_scan[of "[sample_chunk, sample_chunk]" "[sample_block, sample_block]"]
  by (simp add: sample_chunk_parses)

section \<open>Rewriting for a receiver\<close>

lemma by_offset_step_dom:
  "distinct (map fst d) \<Longrightarrow> \<forall>(k, item) \<in> set d. so_offset item = k \<and> (\<exists>raw. parse_session_object_block raw = Some item) \<Longrightarrow>
   d' = fold (\<lambda>raw d. case parse_session_object_block raw of
                     None \<Rightarrow> d | Some parsed \<Rightarrow> dict_setdefault (so_offset parsed) parsed d) blocks d \<Longrightarrow>
   distinct (map fst d') \<and> (\<forall>(k, item) \<in> set d'. so_offset item = k \<and> (\<exists>raw. parse_session_object_block raw = Some item))"
proof (induction blocks arbitrary: d)
  case Nil
  then show ?case by simp
next
  case (Cons raw blocks)
  let ?d = "case parse_session_object_block raw of None \<Rightarrow> d | Some parsed \<Rightarrow> dict_setdefault (so_offset parsed) parsed d"
  have "distinct (map fst ?d)"
    using Cons.prems(1) by (auto simp: distinct_setdefault split: option.splits)
  moreover have "\<forall>(k, item) \<in> set ?d. so_offset item = k \<and> (\<exists>raw. parse_session_object_block raw = Some item)"
    using Cons.prems(2) by (auto simp: dict_setdefault_def split: option.splits)
  ultimately show ?case using Cons.IH[of ?d] Cons.prems(3) by simp
qed

lemma by_offset_inv:
  "distinct (map fst (by_offset blocks))
   \<and> (\<forall>(k, item) \<in> set (by_offset blocks). so_offset item = k \<and> (\<exists>raw. parse_session_object_block raw = Some item))"
  by (rule by_offset_step_dom[of "[]"]) (simp_all add: by_offset_def)

lemma unique_blocks_parse: "item \<in> set (unique_blocks blocks) \<Longrightarrow> parse_session_object_at (so_raw item) 0 = Some (item, length (so_raw item))"
  using by_offset_inv[of blocks] by (fastforce simp: unique_blocks_def parse_block_Some dest: parse_at_raw)

lemma unique_blocks_offsets: "sorted (map so_offset (unique_blocks blocks)) \<and> distinct (map so_offset (unique_blocks blocks))"
proof -
  have "map so_offset (unique_blocks blocks) = map fst (sort_key fst (by_offset blocks))"
    using by_offset_inv[of blocks] by (auto simp: unique_blocks_def)
  moreover have "distinct (map fst (sort_key fst (by_offset blocks)))"
    using by_offset_inv[of blocks] by (simp add: distinct_map)
  ultimately show ?thesis by simp
qed

lemma parse_block_offset: "parse_session_object_at raw s = Some (b, e) \<Longrightarrow> so_offset b \<in> set SESSION_OBJECT_CHUNK_OFFSETS"
  by (auto simp: parse_session_object_at_def Let_def split: if_splits)

lemma complete_offsets:
  assumes "set SESSION_OBJECT_CHUNK_OFFSETS \<subseteq> set (map so_offset (unique_blocks blocks))"
  shows "map so_offset (unique_blocks blocks) = SESSION_OBJECT_CHUNK_OFFSETS"
proof (rule sorted_distinct_set_unique)
  show "set (map so_offset (unique_blocks blocks)) = set SESSION_OBJECT_CHUNK_OFFSETS"
    using assms unique_blocks_parse[THEN parse_block_offset] by (fastforce simp del: set_map simp: set_map)
  show "sorted SESSION_OBJECT_CHUNK_OFFSETS" "distinct SESSION_OBJECT_CHUNK_OFFSETS"
    by (simp_all add: SESSION_OBJECT_CHUNK_OFFSETS_def)
qed (use unique_blocks_offsets in blast)+

lemma splice_id_parse:
  assumes "parse_session_object_at raw 0 = Some (b, length raw)" "0 < n" "n < 2 ^ 32"
  shows "parse_session_object_at (splice 5 9 (to_be 4 n) raw) 0
    = Some (b\<lparr>so_object_id := n, so_raw := splice 5 9 (to_be 4 n) raw\<rparr>, length raw)"
proof -
  have len: "23 \<le> length raw" using parse_at_advances[OF assms(1)] by simp
  define R where "R = splice 5 9 (to_be 4 n) raw"
  have f: "slice 0 5 R = slice 0 5 raw" "slice 5 9 R = to_be 4 n" "length R = length raw"
    "slice 9 13 R = slice 9 13 raw" "slice 13 17 R = slice 13 17 raw" "slice 17 21 R = slice 17 21 raw" "slice 21 23 R = slice 21 23 raw"
    using len by (simp_all add: R_def length_splice slice_splice_before slice_splice_after slice_splice_same)
  have "length raw = 23 + be_nat (slice 21 23 raw)"
    using assms(1) by (auto simp: parse_session_object_at_def Let_def split: if_splits)
  then show ?thesis
    using assms unfolding R_def[symmetric] unfolding parse_session_object_at_def Let_def
    by (auto simp: f len split: if_splits)
qed

lemma splice_slot_parse:
  assumes "parse_session_object_at raw 0 = Some (b, length raw)" "23 \<le> a" "a \<le> c" "c \<le> length raw" "length new = c - a"
  shows "parse_session_object_at (splice a c new raw) 0 = Some (b\<lparr>so_raw := splice a c new raw\<rparr>, length raw)"
proof -
  have len: "23 \<le> length raw" using parse_at_advances[OF assms(1)] by simp
  define R where "R = splice a c new raw"
  have f: "slice x y R = slice x y raw" if "y \<le> 23" for x y
    using that assms by (simp add: R_def slice_splice_before)
  have g: "length R = length raw" using assms by (simp add: R_def length_splice)
  have "length raw = 23 + be_nat (slice 21 23 raw)"
    using assms(1) by (auto simp: parse_session_object_at_def Let_def split: if_splits)
  then show ?thesis
    using assms(1) unfolding R_def[symmetric] unfolding parse_session_object_at_def Let_def
    by (auto simp: f g len split: if_splits)
qed

definition rewritten :: "nat \<Rightarrow> nat \<Rightarrow> session_object_block \<Rightarrow> bytes \<Rightarrow> bool" where
  "rewritten object_id slot item out \<longleftrightarrow>
     parse_session_object_block out = Some (item\<lparr>so_object_id := object_id, so_raw := out\<rparr>)
     \<and> length out = length (so_raw item)
     \<and> (\<forall>j < length out. j < 5 \<or> 9 \<le> j \<longrightarrow> so_offset item = 0 \<longrightarrow> j < 35 \<or> 43 \<le> j \<longrightarrow> out ! j = so_raw item ! j)
     \<and> (\<forall>j < length out. j < 5 \<or> 9 \<le> j \<longrightarrow> so_offset item \<noteq> 0 \<longrightarrow> out ! j = so_raw item ! j)
     \<and> (so_offset item = 0 \<longrightarrow> be_nat (slice 35 39 out) = slot \<and> be_nat (slice 39 43 out) = slot)"

lemma rewrite_block_ok:
  assumes "parse_session_object_at (so_raw item) 0 = Some (item, length (so_raw item))" "0 < n" "n < 2 ^ 32" "slot < 2 ^ 32"
    "rewrite_block n slot item = Inr out"
  shows "rewritten n slot item out"
proof -
  define body where "body = splice 5 9 (to_be 4 n) (so_raw item)"
  have len: "23 \<le> length (so_raw item)" using parse_at_advances[OF assms(1)] by simp
  have blen: "length body = length (so_raw item)" using len by (simp add: body_def length_splice)
  note id = splice_id_parse[OF assms(1-3), folded body_def]
  have other: "j < length body \<Longrightarrow> j < 5 \<or> 9 \<le> j \<Longrightarrow> body ! j = so_raw item ! j" for j
    using len blen by (simp add: body_def nth_splice_other)
  show ?thesis
  proof (cases "so_offset item = 0")
    case False
    with assms(5) have "out = body" by (simp add: rewrite_block_def body_def)
    with False id blen other show ?thesis by (auto simp: rewritten_def parse_block_Some)
  next
    case True
    define body1 where "body1 = splice 35 39 (to_be 4 slot) body"
    from True assms(5) have l43: "43 \<le> length body" and out: "out = splice 39 43 (to_be 4 slot) body1"
      by (auto simp: rewrite_block_def body_def[symmetric] body1_def split: if_splits)
    have l1: "length body1 = length body" using l43 by (simp add: body1_def length_splice)
    have lo: "length out = length body" using l43 l1 by (simp add: out length_splice)
    have "parse_session_object_at body1 0 = Some (item\<lparr>so_object_id := n, so_raw := body1\<rparr>, length body1)"
      using splice_slot_parse[of body "item\<lparr>so_object_id := n, so_raw := body\<rparr>" 35 39 "to_be 4 slot"] id l43 blen l1
      by (simp add: body1_def)
    then have "parse_session_object_at out 0 = Some (item\<lparr>so_object_id := n, so_raw := out\<rparr>, length out)"
      using splice_slot_parse[of body1 "item\<lparr>so_object_id := n, so_raw := body1\<rparr>" 39 43 "to_be 4 slot"] l43 l1 lo
      by (simp add: out)
    moreover have "slice 35 39 out = to_be 4 slot" "slice 39 43 out = to_be 4 slot"
      using l43 l1 by (simp_all add: out slice_splice_before slice_splice_same body1_def)
    moreover have "j < length out \<Longrightarrow> j < 35 \<or> 43 \<le> j \<Longrightarrow> out ! j = body ! j" for j
      using l43 l1 lo by (auto simp: out nth_splice_other body1_def)
    ultimately show ?thesis
      using True lo blen other assms(4) by (auto simp: rewritten_def parse_block_Some)
  qed
qed

lemma rewrite_all_ok:
  "rewrite_all n slot items = Inr outs \<Longrightarrow> \<forall>item \<in> set items. parse_session_object_at (so_raw item) 0 = Some (item, length (so_raw item))
   \<Longrightarrow> 0 < n \<Longrightarrow> n < 2 ^ 32 \<Longrightarrow> slot < 2 ^ 32 \<Longrightarrow> list_all2 (rewritten n slot) items outs"
  by (induction items arbitrary: outs) (auto simp: rbind_eq_Inr intro: rewrite_block_ok)

text \<open>
  C40. Rewriting a session object for another receiver gives exactly the three chunks at
  offsets 0, 0x1e4 and 0x3c8; each parses back with the new object id and its total size
  and offset, carries the receiver's slot twice in the offset-zero chunk, and agrees with
  the uploaded chunk in every other byte, so the car payload is never touched.
\<close>

theorem rewrite_preserves_payload:
  assumes "rewrite_for_receiver blocks object_id slot = Inr outs"
  shows "map so_offset (unique_blocks blocks) = SESSION_OBJECT_CHUNK_OFFSETS
    \<and> list_all2 (rewritten (nat object_id) (nat slot)) (unique_blocks blocks) outs"
proof -
  from assms have r: "1 \<le> object_id" "object_id \<le> 0xFFFFFFFF" "0 \<le> slot" "slot \<le> 0xFFFFFFFF"
    and c: "set SESSION_OBJECT_CHUNK_OFFSETS \<subseteq> set (map so_offset (unique_blocks blocks))"
    and out: "rewrite_all (nat object_id) (nat slot) (unique_blocks blocks) = Inr outs"
    by (auto simp: rewrite_for_receiver_def split: if_splits)
  have "list_all2 (rewritten (nat object_id) (nat slot)) (unique_blocks blocks) outs"
    by (rule rewrite_all_ok[OF out]) (use r unique_blocks_parse in \<open>auto simp: nat_less_iff\<close>)
  with complete_offsets[OF c] show ?thesis by simp
qed

definition chunk_at :: "byte \<Rightarrow> byte \<Rightarrow> bytes" where
  "chunk_at hi lo = SESSION_OBJECT_PREFIX @ [0, 0, 0, 9, 0, 0, 4, 0] @ [0, 0, hi, lo, 0, 0, 0, 20, 0, 20] @ replicate 20 0xAA"

lemma chunk_at_parses:
  "parse_session_object_block (chunk_at 0 0) = Some \<lparr>so_object_id = 9, so_total_size = 1024, so_offset = 0, so_raw = chunk_at 0 0\<rparr>"
  "parse_session_object_block (chunk_at 1 0xE4) = Some \<lparr>so_object_id = 9, so_total_size = 1024, so_offset = 484, so_raw = chunk_at 1 0xE4\<rparr>"
  "parse_session_object_block (chunk_at 3 0xC8) = Some \<lparr>so_object_id = 9, so_total_size = 1024, so_offset = 968, so_raw = chunk_at 3 0xC8\<rparr>"
  by (simp_all add: chunk_at_def parse_session_object_block_def parse_session_object_at_def slice_def be_nat_def starts_with_def
      SESSION_OBJECT_PREFIX_def olmsg_def LOGICAL_PREFIX_def SESSION_OBJECT_CHUNK_OFFSETS_def)

theorem rewrite_preserves_payload_witness:
  "\<exists>outs. rewrite_for_receiver [chunk_at 3 0xC8, chunk_at 0 0, chunk_at 1 0xE4] 5 2 = Inr outs \<and> length outs = 3
    \<and> list_all2 (rewritten 5 2) (unique_blocks [chunk_at 3 0xC8, chunk_at 0 0, chunk_at 1 0xE4]) outs"
proof -
  let ?u = "unique_blocks [chunk_at 3 0xC8, chunk_at 0 0, chunk_at 1 0xE4]"
  have u: "?u = [\<lparr>so_object_id = 9, so_total_size = 1024, so_offset = 0, so_raw = chunk_at 0 0\<rparr>,
      \<lparr>so_object_id = 9, so_total_size = 1024, so_offset = 484, so_raw = chunk_at 1 0xE4\<rparr>,
      \<lparr>so_object_id = 9, so_total_size = 1024, so_offset = 968, so_raw = chunk_at 3 0xC8\<rparr>]"
    by (simp add: unique_blocks_def by_offset_def chunk_at_parses dict_setdefault_def)
  have "length (splice 5 9 (to_be 4 5) (chunk_at 0 0)) = 43"
    by (simp add: chunk_at_def splice_def)
  then obtain outs where o: "rewrite_for_receiver [chunk_at 3 0xC8, chunk_at 0 0, chunk_at 1 0xE4] 5 2 = Inr outs" "length outs = 3"
    by (simp add: rewrite_for_receiver_def u SESSION_OBJECT_CHUNK_OFFSETS_def rewrite_block_def Let_def)
  from rewrite_preserves_payload[OF o(1)] o show ?thesis by auto
qed

end
