(* ===== verification/Lifecycle.thy ===== *)
theory Lifecycle
  imports Prelude
begin

text \<open>
  The contract of a state machine whose stage only moves forward, stated once as a locale:
  a step function on states and a rank in a linear order that no step lowers.  The race
  phase, the tunnel handshake and the room clocks interpret it.
\<close>

locale monotone_lifecycle =
  fixes step :: "'s \<Rightarrow> 'op \<Rightarrow> 's"
    and rank :: "'s \<Rightarrow> 'r::linorder"
  assumes step_up: "rank s \<le> rank (step s op)"
begin

lemma run_up: "rank s \<le> rank (foldl step s ops)"
proof (induction ops arbitrary: s)
  case Nil
  then show ?case by simp
next
  case (Cons op ops)
  from step_up[of s op] Cons.IH[of "step s op"] show ?case by simp
qed

lemma stays_reached: "r \<le> rank s \<Longrightarrow> r \<le> rank (foldl step s ops)"
  using run_up[of s ops] by simp

lemma never_back: "rank s < rank (step s op) \<Longrightarrow> foldl step (step s op) ops \<noteq> s"
  using run_up[of "step s op" ops] by auto

text \<open>A run that ends at the rank it began with never changed the rank on the way.\<close>

lemma same_rank_split:
  "rank (foldl step s (ops1 @ ops2)) = rank s \<Longrightarrow> rank (foldl step s ops1) = rank s"
  using run_up[of s ops1] run_up[of "foldl step s ops1" ops2] by simp

end

end
