(* ===== verification/PyNumber.thy ===== *)
theory PyNumber
  imports Complex_Main PyText
begin

text \<open>
  Python's \<open>float(text)\<close> and \<open>int(text)\<close> on text, and the float arithmetic the
  matchmaking code does with what it parsed.  A float is an exact rational, an infinity or
  NaN: a result whose magnitude reaches \<open>2^1024 - 2^970\<close> is an infinity and one not above
  \<open>2^-1075\<close> is zero, as in binary64, but the rounding to 53 bits in between is not
  modelled.  Comparisons with NaN are false, so \<open>max\<close> and \<open>min\<close> keep their first
  argument there.
\<close>

datatype pyfloat = Fin rat | PosInf | NegInf | NaN

definition double_limit :: rat where
  "double_limit = 2 ^ 1024 - 2 ^ 970"

definition double_scale :: rat where
  "double_scale = 2 ^ 1075"

definition fl_of :: "rat \<Rightarrow> pyfloat" where
  "fl_of q = (if double_limit \<le> q then PosInf else if q \<le> - double_limit then NegInf
     else if \<bar>q\<bar> * double_scale \<le> 1 then Fin 0 else Fin q)"

lemma double_limit_big: "1000000 < double_limit"
  by (simp add: double_limit_def)

lemma double_scale_big: "1000000 < double_scale"
  by (simp add: double_scale_def)

text \<open>Evaluation looks at the extreme magnitudes only when it has to.\<close>

lemma fl_of_small: "q = 0 \<or> (1 \<le> \<bar>q\<bar> * 1000000 \<and> \<bar>q\<bar> \<le> 1000000) \<Longrightarrow> fl_of q = Fin q"
proof -
  assume h: "q = 0 \<or> (1 \<le> \<bar>q\<bar> * 1000000 \<and> \<bar>q\<bar> \<le> 1000000)"
  then have "\<bar>q\<bar> \<le> 1000000" by auto
  then have "\<not> double_limit \<le> q" "\<not> q \<le> - double_limit" using double_limit_big by linarith+
  moreover have "\<bar>q\<bar> * double_scale \<le> 1 \<Longrightarrow> q = 0"
  proof (rule ccontr)
    assume a: "\<bar>q\<bar> * double_scale \<le> 1" and "q \<noteq> 0"
    then have q: "1 \<le> \<bar>q\<bar> * 1000000" "0 < \<bar>q\<bar>" using h by auto
    have "\<bar>q\<bar> * 1000000 < \<bar>q\<bar> * double_scale" by (rule mult_strict_left_mono[OF double_scale_big q(2)])
    with a q(1) show False by linarith
  qed
  ultimately show ?thesis by (auto simp: fl_of_def)
qed

lemma fl_of_code [code]:
  "fl_of q = (if q = 0 \<or> (1 \<le> \<bar>q\<bar> * 1000000 \<and> \<bar>q\<bar> \<le> 1000000) then Fin q
     else if double_limit \<le> q then PosInf else if q \<le> - double_limit then NegInf
     else if \<bar>q\<bar> * double_scale \<le> 1 then Fin 0 else Fin q)"
  using fl_of_small[of q] by (simp add: fl_of_def)

fun fl_less :: "pyfloat \<Rightarrow> pyfloat \<Rightarrow> bool" where
  "fl_less NaN y = False"
| "fl_less x NaN = False"
| "fl_less PosInf y = False"
| "fl_less x PosInf = True"
| "fl_less x NegInf = False"
| "fl_less NegInf y = True"
| "fl_less (Fin a) (Fin b) = (a < b)"

definition fl_le :: "pyfloat \<Rightarrow> pyfloat \<Rightarrow> bool" where
  "fl_le x y \<longleftrightarrow> fl_less x y \<or> (x = y \<and> x \<noteq> NaN)"

lemma fl_le_Fin [simp]: "fl_le (Fin a) (Fin b) \<longleftrightarrow> a \<le> b"
  by (auto simp: fl_le_def)

fun fl_neg :: "pyfloat \<Rightarrow> pyfloat" where
  "fl_neg (Fin a) = Fin (- a)"
| "fl_neg PosInf = NegInf"
| "fl_neg NegInf = PosInf"
| "fl_neg NaN = NaN"

fun fl_add :: "pyfloat \<Rightarrow> pyfloat \<Rightarrow> pyfloat" where
  "fl_add (Fin a) (Fin b) = fl_of (a + b)"
| "fl_add NaN y = NaN"
| "fl_add x NaN = NaN"
| "fl_add PosInf y = (if y = NegInf then NaN else PosInf)"
| "fl_add x PosInf = (if x = NegInf then NaN else PosInf)"
| "fl_add x y = NegInf"

definition fl_sub :: "pyfloat \<Rightarrow> pyfloat \<Rightarrow> pyfloat" where
  "fl_sub x y = fl_add x (fl_neg y)"

definition fl_abs :: "pyfloat \<Rightarrow> pyfloat" where
  "fl_abs x = (case x of Fin a \<Rightarrow> Fin \<bar>a\<bar> | PosInf \<Rightarrow> PosInf | NegInf \<Rightarrow> PosInf | NaN \<Rightarrow> NaN)"

text \<open>Infinity times a number has the sign of the product; infinity times zero is NaN.\<close>

definition inf_times :: "rat \<Rightarrow> pyfloat" where
  "inf_times a = (if 0 < a then PosInf else if a < 0 then NegInf else NaN)"

fun fl_mult :: "pyfloat \<Rightarrow> pyfloat \<Rightarrow> pyfloat" where
  "fl_mult (Fin a) (Fin b) = fl_of (a * b)"
| "fl_mult NaN y = NaN"
| "fl_mult x NaN = NaN"
| "fl_mult PosInf (Fin b) = inf_times b"
| "fl_mult (Fin a) PosInf = inf_times a"
| "fl_mult NegInf (Fin b) = inf_times (- b)"
| "fl_mult (Fin a) NegInf = inf_times (- a)"
| "fl_mult PosInf y = y"
| "fl_mult NegInf y = fl_neg y"

text \<open>The divisors of the modelled code are positive, so the zero divisor is left out.\<close>

fun fl_div :: "pyfloat \<Rightarrow> pyfloat \<Rightarrow> pyfloat" where
  "fl_div (Fin a) (Fin b) = fl_of (a / b)"
| "fl_div NaN y = NaN"
| "fl_div x NaN = NaN"
| "fl_div (Fin a) y = Fin 0"
| "fl_div PosInf (Fin b) = (if 0 \<le> b then PosInf else NegInf)"
| "fl_div NegInf (Fin b) = (if 0 \<le> b then NegInf else PosInf)"
| "fl_div x y = NaN"

definition fl_max :: "pyfloat \<Rightarrow> pyfloat \<Rightarrow> pyfloat" where
  "fl_max x y = (if fl_less x y then y else x)"

definition fl_min :: "pyfloat \<Rightarrow> pyfloat \<Rightarrow> pyfloat" where
  "fl_min x y = (if fl_less y x then y else x)"

text \<open>\<open>min(1.0, max(0.0, x))\<close>, which is a number whatever \<open>x\<close> is.\<close>

definition unit_clamp :: "pyfloat \<Rightarrow> pyfloat" where
  "unit_clamp x = fl_min (Fin 1) (fl_max (Fin 0) x)"

definition in_unit :: "pyfloat \<Rightarrow> bool" where
  "in_unit x = (case x of Fin q \<Rightarrow> 0 \<le> q \<and> q \<le> 1 | _ \<Rightarrow> False)"

lemma unit_clamp_in_unit [simp]: "in_unit (unit_clamp x)"
  by (cases x) (auto simp: unit_clamp_def in_unit_def fl_min_def fl_max_def)

lemma in_unit_iff: "in_unit x \<longleftrightarrow> (\<exists>q. x = Fin q \<and> 0 \<le> q \<and> q \<le> 1)"
  by (cases x) (auto simp: in_unit_def)

lemma unit_clamp_id: "0 \<le> q \<Longrightarrow> q \<le> 1 \<Longrightarrow> unit_clamp (Fin q) = Fin q"
  by (auto simp: unit_clamp_def fl_min_def fl_max_def)

section \<open>Reading numbers\<close>

definition digit_groups :: "string \<Rightarrow> string option" where
  "digit_groups s = (let gs = split_on CHR ''_'' s in
     if \<forall>g \<in> set gs. g \<noteq> [] \<and> (\<forall>c \<in> set g. is_digit c) then Some (concat gs) else None)"

definition split_sign :: "string \<Rightarrow> bool \<times> string" where
  "split_sign s = (case s of [] \<Rightarrow> (False, [])
     | c # cs \<Rightarrow> if c = CHR ''-'' then (True, cs) else if c = CHR ''+'' then (False, cs) else (False, s))"

text \<open>\<open>int(text)\<close>; \<open>None\<close> is \<open>ValueError\<close>, also for more than 4300 digits.\<close>

definition py_int :: "string \<Rightarrow> int option" where
  "py_int s = (let (neg, body) = split_sign (strip s) in
     case digit_groups body of None \<Rightarrow> None
     | Some ds \<Rightarrow> if 4300 < length ds then None else Some (if neg then - int (read_nat ds) else int (read_nat ds)))"

definition optional_digits :: "string \<Rightarrow> string option" where
  "optional_digits s = (if s = [] then Some [] else digit_groups s)"

definition read_mantissa :: "string \<Rightarrow> (nat \<times> nat) option" where
  "read_mantissa s = (case split_on CHR ''.'' s of
      [a] \<Rightarrow> map_option (\<lambda>ds. (read_nat ds, 0)) (digit_groups a)
    | [a, b] \<Rightarrow> if a = [] \<and> b = [] then None
        else (case (optional_digits a, optional_digits b) of
            (Some x, Some y) \<Rightarrow> Some (read_nat (x @ y), length y) | _ \<Rightarrow> None)
    | _ \<Rightarrow> None)"

definition read_exponent :: "string \<Rightarrow> int option" where
  "read_exponent s = (case s of [] \<Rightarrow> Some 0
    | _ # r \<Rightarrow> let (neg, body) = split_sign r in
        map_option (\<lambda>ds. if neg then - int (read_nat ds) else int (read_nat ds)) (digit_groups body))"

definition scale_ten :: "rat \<Rightarrow> int \<Rightarrow> rat" where
  "scale_ten q e = (if 0 \<le> e then q * 10 ^ nat e else q / 10 ^ nat (- e))"

text \<open>\<open>float(text)\<close>; \<open>None\<close> is \<open>ValueError\<close>.\<close>

definition py_float :: "string \<Rightarrow> pyfloat option" where
  "py_float s = (let (neg, body) = split_sign (strip s); b = casefold body;
       sgn = (\<lambda>x. if neg then fl_neg x else x) in
     if b = ''inf'' \<or> b = ''infinity'' then Some (sgn PosInf)
     else if b = ''nan'' then Some NaN
     else (case (read_mantissa (takeWhile (\<lambda>c. c \<noteq> CHR ''e'') b), read_exponent (dropWhile (\<lambda>c. c \<noteq> CHR ''e'') b)) of
         (Some (m, k), Some e) \<Rightarrow> Some (sgn (fl_of (scale_ten (of_nat m) (e - int k))))
       | _ \<Rightarrow> None))"

lemma py_float_samples:
  "py_float '' 1_0.5e1 '' = Some (Fin 105)" "py_float ''-.25'' = Some (Fin (-1/4))" "py_float ''1e'' = None"
  "py_float ''-Inf'' = Some NegInf" "py_int ''+07'' = Some 7" "py_int ''7.0'' = None"
  by code_simp+

end
