(* ===== verification/RaceState.thy ===== *)
theory RaceState
  imports Lifecycle PyNumber "HOL-Library.FSet"
begin

text \<open>
  \<open>server/carbon/gamemanager/race_state.py\<close>: the room-scoped lifecycle of a race, its
  operations on the phase and the join-access lock.  Times are rationals, but
  what is taken from a timer message (the countdown's duration and deadlines) is a float
  that can be an infinity or NaN; a Python set is a finite set.  The lemmas show that
  every operation moves the phase forward only, and which transitions a run can contain.
\<close>

section \<open>State\<close>

datatype race_phase = SESSION_SETUP | COUNTDOWN | COUNTDOWN_EXPIRED | START_LOCKED | LOADING | RACING | FINISHED

fun phase_value :: "race_phase \<Rightarrow> nat" where
  "phase_value SESSION_SETUP = 0"
| "phase_value COUNTDOWN = 1"
| "phase_value COUNTDOWN_EXPIRED = 2"
| "phase_value START_LOCKED = 3"
| "phase_value LOADING = 4"
| "phase_value RACING = 5"
| "phase_value FINISHED = 6"

lemma phase_value_inj [simp]: "phase_value p = phase_value q \<longleftrightarrow> p = q"
  by (cases p; cases q) simp_all

text \<open>The order of an \<open>IntEnum\<close> is the order of its values.\<close>

instantiation race_phase :: linorder
begin

definition less_eq_race_phase :: "race_phase \<Rightarrow> race_phase \<Rightarrow> bool" where
  "less_eq_race_phase p q \<longleftrightarrow> phase_value p \<le> phase_value q"

definition less_race_phase :: "race_phase \<Rightarrow> race_phase \<Rightarrow> bool" where
  "less_race_phase p q \<longleftrightarrow> phase_value p < phase_value q"

instance
  by standard (auto simp: less_eq_race_phase_def less_race_phase_def)

end

lemmas phase_order = less_eq_race_phase_def less_race_phase_def

datatype room_access = OPEN | LOCKED

datatype race_state_error =
    CountdownDurationOutOfRange pyfloat
  | InvalidTransition race_phase race_phase

record game_race_state =
  rs_attributes :: bytes
  rs_challenge_event_identity :: "(string \<times> string) list"
  rs_countdown_duration :: pyfloat
  rs_start_delay_seconds :: rat
  rs_start_sync_ping :: rat
  rs_fallback_latency_to_host :: rat
  rs_countdown_deadline :: pyfloat
  rs_latest_match_timer :: bytes
  rs_countdown_wire_deadline :: pyfloat
  rs_countdown_generation_id :: int
  rs_countdown_initial_timer :: bytes
  rs_countdown_latest_timer :: bytes
  rs_latest_room_timer :: bytes
  rs_latest_post_race_timer :: bytes
  rs_room_wait_deadline :: rat
  rs_post_race_deadline :: rat
  rs_coop_barrier_host :: "address option"
  rs_coop_barrier_token :: bytes
  rs_coop_host_state7_seen :: bool
  rs_pending_coop_host_state7 :: bytes
  rs_challenge_capacity :: int
  rs_coop_committed_helpers :: "address fset"
  rs_room_commit_sent :: bool
  rs_countdown_transition_sent :: bool
  rs_post_race_reopened :: bool
  rs_player_controlled_ai :: "(int \<times> bytes) list"
  rs_relayed_racer_finished :: "int fset"
  rs_loading_started_at :: rat
  rs_loading_player_ids :: "int fset"
  rs_phase :: race_phase
  rs_room_access :: room_access

definition initial_race_state :: game_race_state where
  "initial_race_state = \<lparr>rs_attributes = [], rs_challenge_event_identity = [], rs_countdown_duration = Fin (61 / 2),
     rs_start_delay_seconds = 2, rs_start_sync_ping = 0, rs_fallback_latency_to_host = 25, rs_countdown_deadline = Fin 0,
     rs_latest_match_timer = [], rs_countdown_wire_deadline = Fin 0, rs_countdown_generation_id = 0,
     rs_countdown_initial_timer = [], rs_countdown_latest_timer = [], rs_latest_room_timer = [],
     rs_latest_post_race_timer = [], rs_room_wait_deadline = 0, rs_post_race_deadline = 0, rs_coop_barrier_host = None,
     rs_coop_barrier_token = [], rs_coop_host_state7_seen = False, rs_pending_coop_host_state7 = [],
     rs_challenge_capacity = 0, rs_coop_committed_helpers = {||}, rs_room_commit_sent = False,
     rs_countdown_transition_sent = False, rs_post_race_reopened = False, rs_player_controlled_ai = [],
     rs_relayed_racer_finished = {||}, rs_loading_started_at = 0, rs_loading_player_ids = {||},
     rs_phase = SESSION_SETUP, rs_room_access = OPEN\<rparr>"

section \<open>Operations\<close>

definition advance_exact :: "race_phase \<Rightarrow> race_phase \<Rightarrow> game_race_state \<Rightarrow> race_state_error + bool \<times> game_race_state" where
  "advance_exact expected target s =
     (if rs_phase s \<ge> target then Inr (False, s)
      else if rs_phase s \<noteq> expected then Inl (InvalidTransition (rs_phase s) target)
      else Inr (True, s\<lparr>rs_phase := target\<rparr>))"

definition begin_countdown :: "rat \<Rightarrow> game_race_state \<Rightarrow> race_state_error + bool \<times> game_race_state" where
  "begin_countdown now s =
     (if rs_phase s \<noteq> SESSION_SETUP then Inr (False, s)
      else if \<not> (fl_less (Fin 0) (rs_countdown_duration s) \<and> fl_le (rs_countdown_duration s) (Fin 300))
           then Inl (CountdownDurationOutOfRange (rs_countdown_duration s))
      else Inr (True, s\<lparr>rs_countdown_deadline := fl_add (Fin now) (rs_countdown_duration s), rs_phase := COUNTDOWN\<rparr>))"

definition lock_room_access :: "game_race_state \<Rightarrow> race_state_error + bool \<times> game_race_state" where
  "lock_room_access s =
     (if rs_room_access s = LOCKED then Inr (False, s) else Inr (True, s\<lparr>rs_room_access := LOCKED\<rparr>))"

definition mark_countdown_expired :: "game_race_state \<Rightarrow> race_state_error + bool \<times> game_race_state" where
  "mark_countdown_expired = advance_exact COUNTDOWN COUNTDOWN_EXPIRED"

definition mark_start_locked :: "game_race_state \<Rightarrow> race_state_error + bool \<times> game_race_state" where
  "mark_start_locked = advance_exact COUNTDOWN_EXPIRED START_LOCKED"

definition mark_loading :: "rat option \<Rightarrow> int option \<Rightarrow> game_race_state \<Rightarrow> race_state_error + bool \<times> game_race_state" where
  "mark_loading now source_player_id s =
     (if rs_phase s \<ge> LOADING then Inr (False, s)
      else if \<not> (rs_phase s = COUNTDOWN_EXPIRED \<or> rs_phase s = START_LOCKED) then Inl (InvalidTransition (rs_phase s) LOADING)
      else Inr (True, s\<lparr>rs_phase := LOADING,
                        rs_loading_started_at := (case now of None \<Rightarrow> 0 | Some t \<Rightarrow> t),
                        rs_loading_player_ids := (case source_player_id of None \<Rightarrow> {||} | Some p \<Rightarrow> {|p|})\<rparr>))"

definition observe_loading_player :: "int \<Rightarrow> game_race_state \<Rightarrow> race_state_error + bool \<times> game_race_state" where
  "observe_loading_player player_id s =
     (if rs_phase s \<noteq> LOADING then Inr (False, s)
      else let previous = fcard (rs_loading_player_ids s);
               ids = finsert player_id (rs_loading_player_ids s)
           in Inr (fcard ids \<noteq> previous, s\<lparr>rs_loading_player_ids := ids\<rparr>))"

definition mark_racing :: "game_race_state \<Rightarrow> race_state_error + bool \<times> game_race_state" where
  "mark_racing = advance_exact LOADING RACING"

definition mark_finished :: "game_race_state \<Rightarrow> race_state_error + bool \<times> game_race_state" where
  "mark_finished = advance_exact RACING FINISHED"

section \<open>Calls and runs\<close>

datatype race_call =
    BeginCountdown rat | LockRoomAccess | MarkCountdownExpired | MarkStartLocked
  | MarkLoading "rat option" "int option" | ObserveLoadingPlayer int | MarkRacing | MarkFinished

fun race_apply :: "race_call \<Rightarrow> game_race_state \<Rightarrow> race_state_error + bool \<times> game_race_state" where
  "race_apply (BeginCountdown now) = begin_countdown now"
| "race_apply LockRoomAccess = lock_room_access"
| "race_apply MarkCountdownExpired = mark_countdown_expired"
| "race_apply MarkStartLocked = mark_start_locked"
| "race_apply (MarkLoading now player) = mark_loading now player"
| "race_apply (ObserveLoadingPlayer player) = observe_loading_player player"
| "race_apply MarkRacing = mark_racing"
| "race_apply MarkFinished = mark_finished"

text \<open>The state after a call; a call that raises leaves the object as it was.\<close>

definition race_after :: "game_race_state \<Rightarrow> race_call \<Rightarrow> game_race_state" where
  "race_after s c = (case race_apply c s of Inl _ \<Rightarrow> s | Inr (_, s') \<Rightarrow> s')"

text \<open>The phase a call leads to when it answers \<open>True\<close>; none for the two calls that keep the phase.\<close>

fun call_target :: "race_call \<Rightarrow> race_phase option" where
  "call_target (BeginCountdown _) = Some COUNTDOWN"
| "call_target MarkCountdownExpired = Some COUNTDOWN_EXPIRED"
| "call_target MarkStartLocked = Some START_LOCKED"
| "call_target (MarkLoading _ _) = Some LOADING"
| "call_target MarkRacing = Some RACING"
| "call_target MarkFinished = Some FINISHED"
| "call_target LockRoomAccess = None"
| "call_target (ObserveLoadingPlayer _) = None"

text \<open>
  A run: calls in any order and number, each returning or raising, with the phases that the
  answers \<open>True\<close> reported, oldest first.
\<close>

inductive race_run :: "game_race_state \<Rightarrow> race_phase list \<Rightarrow> game_race_state \<Rightarrow> bool" where
  start: "race_run s [] s"
| raised: "race_run s ts s1 \<Longrightarrow> race_apply c s1 = Inl e \<Longrightarrow> race_run s ts s1"
| ignored: "race_run s ts s1 \<Longrightarrow> race_apply c s1 = Inr (ok, s2) \<Longrightarrow> \<not> ok \<or> call_target c = None \<Longrightarrow> race_run s ts s2"
| advanced: "race_run s ts s1 \<Longrightarrow> race_apply c s1 = Inr (True, s2) \<Longrightarrow> call_target c = Some t \<Longrightarrow> race_run s (ts @ [t]) s2"

inductive_cases race_run_emptyE: "race_run s [] s'"

section \<open>Every call moves the phase forward only\<close>

lemmas race_calls = begin_countdown_def lock_room_access_def mark_countdown_expired_def mark_start_locked_def
  mark_loading_def observe_loading_player_def mark_racing_def mark_finished_def advance_exact_def Let_def

fun fits :: "race_phase \<Rightarrow> race_phase \<Rightarrow> bool" where
  "fits p COUNTDOWN \<longleftrightarrow> p = SESSION_SETUP"
| "fits p COUNTDOWN_EXPIRED \<longleftrightarrow> p = COUNTDOWN"
| "fits p START_LOCKED \<longleftrightarrow> p = COUNTDOWN_EXPIRED"
| "fits p LOADING \<longleftrightarrow> p = COUNTDOWN_EXPIRED \<or> p = START_LOCKED"
| "fits p RACING \<longleftrightarrow> p = LOADING"
| "fits p FINISHED \<longleftrightarrow> p = RACING"
| "fits p SESSION_SETUP \<longleftrightarrow> False"

lemma call_effect:
  assumes "race_apply c s = Inr (ok, s')"
  shows "(if ok \<and> call_target c \<noteq> None then call_target c = Some (rs_phase s') \<and> fits (rs_phase s) (rs_phase s')
          else rs_phase s' = rs_phase s)"
  using assms by (cases c) (auto simp: race_calls split: if_splits)

lemma fits_less: "fits p q \<Longrightarrow> p < q"
  by (cases q) (auto simp: phase_order)

lemma race_after_up: "rs_phase s \<le> rs_phase (race_after s c)"
proof (cases "race_apply c s")
  case (Inr r)
  then obtain ok s' where "race_apply c s = Inr (ok, s')" by (cases r) simp
  with call_effect[OF this] show ?thesis
    by (auto simp: race_after_def dest!: fits_less split: if_splits)
qed (simp add: race_after_def)

interpretation race: monotone_lifecycle race_after rs_phase
  by unfold_locales (rule race_after_up)

text \<open>
  Whatever calls arrive, in whatever order, a race never returns to an earlier phase:
  once a phase is reached, every later state is at that phase or past it, and a call that
  advanced the phase can never be undone by the calls after it.
\<close>

theorem race_phase_never_returns:
  "rs_phase s \<le> rs_phase (foldl race_after s cs)
   \<and> (rs_phase s < rs_phase (race_after s c) \<longrightarrow> foldl race_after (race_after s c) cs \<noteq> s)"
  using race.run_up race.never_back by blast

theorem race_phase_never_returns_witness:
  "foldl race_after (race_after initial_race_state (BeginCountdown 0)) [MarkRacing, LockRoomAccess] \<noteq> initial_race_state"
proof -
  have "rs_phase initial_race_state < rs_phase (race_after initial_race_state (BeginCountdown 0))"
    by (simp add: race_after_def begin_countdown_def initial_race_state_def phase_order)
  with race_phase_never_returns show ?thesis by blast
qed

section \<open>Which transitions a run contains\<close>

definition phases_after_setup :: "race_phase list" where
  "phases_after_setup = [COUNTDOWN, COUNTDOWN_EXPIRED, START_LOCKED, LOADING, RACING, FINISHED]"

definition transitions_up_to :: "race_phase \<Rightarrow> race_phase list" where
  "transitions_up_to p = filter (\<lambda>q. q \<le> p) phases_after_setup"

lemma transitions_up_to_simps:
  "transitions_up_to SESSION_SETUP = []"
  "transitions_up_to COUNTDOWN = [COUNTDOWN]"
  "transitions_up_to COUNTDOWN_EXPIRED = [COUNTDOWN, COUNTDOWN_EXPIRED]"
  "transitions_up_to START_LOCKED = [COUNTDOWN, COUNTDOWN_EXPIRED, START_LOCKED]"
  "transitions_up_to LOADING = [COUNTDOWN, COUNTDOWN_EXPIRED, START_LOCKED, LOADING]"
  "transitions_up_to RACING = [COUNTDOWN, COUNTDOWN_EXPIRED, START_LOCKED, LOADING, RACING]"
  "transitions_up_to FINISHED = [COUNTDOWN, COUNTDOWN_EXPIRED, START_LOCKED, LOADING, RACING, FINISHED]"
  by (simp_all add: transitions_up_to_def phases_after_setup_def phase_order)

lemma transitions_extend:
  assumes "fits p q" "ts = transitions_up_to p \<or> LOADING \<le> p \<and> ts = removeAll START_LOCKED (transitions_up_to p)"
  shows "ts @ [q] = transitions_up_to q \<or> LOADING \<le> q \<and> ts @ [q] = removeAll START_LOCKED (transitions_up_to q)"
  using assms by (cases q) (auto simp: transitions_up_to_simps phase_order)

text \<open>
  C11. The transitions a race reports in a run from the set-up phase are exactly the phases
  up to its current one, each once and in order; only START_LOCKED can be missing, and only
  once loading has begun.  So no client message sequence makes a race load, start or finish
  twice, or race without having counted down and loaded.
\<close>

theorem race_run_transitions:
  assumes "race_run s ts s'" "rs_phase s = SESSION_SETUP"
  shows "ts = transitions_up_to (rs_phase s')
    \<or> LOADING \<le> rs_phase s' \<and> ts = removeAll START_LOCKED (transitions_up_to (rs_phase s'))"
  using assms
proof (induction rule: race_run.induct)
  case (start s)
  then show ?case by (simp add: transitions_up_to_simps)
next
  case (raised s ts s1 c e)
  then show ?case by simp
next
  case (ignored s ts s1 c ok s2)
  from call_effect[OF ignored.hyps(2)] ignored.hyps(3) have "rs_phase s2 = rs_phase s1" by (auto split: if_splits)
  with ignored show ?case by simp
next
  case (advanced s ts s1 c s2 t)
  from call_effect[OF advanced.hyps(2)] advanced.hyps(3) have "t = rs_phase s2" "fits (rs_phase s1) (rs_phase s2)" by auto
  with transitions_extend[of "rs_phase s1" "rs_phase s2" ts] advanced.IH advanced.prems show ?case by simp
qed

lemma sample_race_run:
  "\<exists>s'. race_run initial_race_state [COUNTDOWN, COUNTDOWN_EXPIRED, LOADING] s' \<and> rs_phase s' = LOADING"
proof -
  let ?s1 = "race_after initial_race_state (BeginCountdown 5)"
  let ?s2 = "race_after ?s1 MarkCountdownExpired"
  let ?s3 = "race_after ?s2 (MarkLoading (Some 36) (Some 1))"
  have 1: "race_run initial_race_state ([] @ [COUNTDOWN]) ?s1"
    by (rule race_run.advanced[OF race_run.start, where c = "BeginCountdown 5"])
      (simp_all add: race_after_def begin_countdown_def initial_race_state_def)
  have 2: "race_run initial_race_state (([] @ [COUNTDOWN]) @ [COUNTDOWN_EXPIRED]) ?s2"
    by (rule race_run.advanced[OF 1, where c = MarkCountdownExpired])
      (simp_all add: race_after_def race_calls initial_race_state_def phase_order)
  have 3: "race_run initial_race_state ((([] @ [COUNTDOWN]) @ [COUNTDOWN_EXPIRED]) @ [LOADING]) ?s3"
    by (rule race_run.advanced[OF 2, where c = "MarkLoading (Some 36) (Some 1)"])
      (simp_all add: race_after_def race_calls initial_race_state_def phase_order)
  have "rs_phase ?s3 = LOADING"
    by (simp add: race_after_def race_calls initial_race_state_def phase_order)
  with 3 show ?thesis by (metis append_Cons append_Nil)
qed

theorem race_run_transitions_witness:
  "\<exists>s'. race_run initial_race_state [COUNTDOWN, COUNTDOWN_EXPIRED, LOADING] s'
    \<and> [COUNTDOWN, COUNTDOWN_EXPIRED, LOADING] = removeAll START_LOCKED (transitions_up_to (rs_phase s'))"
proof -
  obtain s' where r: "race_run initial_race_state [COUNTDOWN, COUNTDOWN_EXPIRED, LOADING] s'" "rs_phase s' = LOADING"
    using sample_race_run by blast
  from race_run_transitions[OF r(1)] have "[COUNTDOWN, COUNTDOWN_EXPIRED, LOADING] = transitions_up_to LOADING
      \<or> [COUNTDOWN, COUNTDOWN_EXPIRED, LOADING] = removeAll START_LOCKED (transitions_up_to LOADING)"
    using r(2) by (auto simp: initial_race_state_def)
  with r show ?thesis by (auto simp: transitions_up_to_simps)
qed

text \<open>
  Which calls raise: a transition raises exactly when the race is still before the phase
  it requires; a countdown raises exactly when it would start with a duration outside
  (0, 300]; locking the room and observing a loading player never raise.  A repeated call
  is answered \<open>False\<close> instead.
\<close>

theorem race_call_raises_iff:
  "is_ok (race_apply c s) \<longleftrightarrow>
   (case c of
      BeginCountdown _ \<Rightarrow> rs_phase s = SESSION_SETUP \<longrightarrow> fl_less (Fin 0) (rs_countdown_duration s) \<and> fl_le (rs_countdown_duration s) (Fin 300)
    | MarkCountdownExpired \<Rightarrow> COUNTDOWN \<le> rs_phase s
    | MarkStartLocked \<Rightarrow> COUNTDOWN_EXPIRED \<le> rs_phase s
    | MarkLoading _ _ \<Rightarrow> COUNTDOWN_EXPIRED \<le> rs_phase s
    | MarkRacing \<Rightarrow> LOADING \<le> rs_phase s
    | MarkFinished \<Rightarrow> RACING \<le> rs_phase s
    | LockRoomAccess \<Rightarrow> True
    | ObserveLoadingPlayer _ \<Rightarrow> True)"
  by (cases c; cases "rs_phase s") (simp_all add: race_calls phase_order)

theorem race_call_raises_iff_witness:
  "\<not> is_ok (race_apply MarkRacing initial_race_state) \<and> is_ok (race_apply (BeginCountdown 3) initial_race_state)"
  using race_call_raises_iff[of MarkRacing initial_race_state] race_call_raises_iff[of "BeginCountdown 3" initial_race_state]
  by (simp add: initial_race_state_def phase_order)

lemma loading_players_after_loading:
  assumes "rs_loading_player_ids s = {||} \<or> LOADING \<le> rs_phase s"
  shows "rs_loading_player_ids (race_after s c) = {||} \<or> LOADING \<le> rs_phase (race_after s c)"
proof (cases "rs_loading_player_ids s = {||}")
  case True
  then show ?thesis by (cases c) (auto simp: race_after_def race_calls phase_order)
next
  case False
  with assms race_after_up[of s c] show ?thesis by (meson order.trans)
qed

lemma room_access_call:
  "rs_room_access (race_after s c) = (if c = LockRoomAccess then LOCKED else rs_room_access s)"
proof (cases c)
  case LockRoomAccess
  then show ?thesis by (simp add: race_after_def race_calls)
qed (auto simp: race_after_def race_calls)

text \<open>
  The join-access lock is independent of the phase: after any calls the room is locked
  exactly if it was locked before or one of them was \<open>lock_room_access\<close>.  And players are
  recorded as loading only while or after the race loads, from a state where none was.
\<close>

theorem race_lock_and_loading_players:
  "(rs_room_access (foldl race_after s cs) = LOCKED \<longleftrightarrow> rs_room_access s = LOCKED \<or> LockRoomAccess \<in> set cs)
   \<and> (rs_loading_player_ids s = {||} \<longrightarrow>
      rs_loading_player_ids (foldl race_after s cs) = {||} \<or> LOADING \<le> rs_phase (foldl race_after s cs))"
proof
  show "rs_room_access (foldl race_after s cs) = LOCKED \<longleftrightarrow> rs_room_access s = LOCKED \<or> LockRoomAccess \<in> set cs"
    by (induction cs arbitrary: s) (auto simp: room_access_call)
  have "rs_loading_player_ids s = {||} \<or> LOADING \<le> rs_phase s \<Longrightarrow>
      rs_loading_player_ids (foldl race_after s cs) = {||} \<or> LOADING \<le> rs_phase (foldl race_after s cs)"
    by (induction cs arbitrary: s) (simp_all add: loading_players_after_loading)
  then show "rs_loading_player_ids s = {||} \<longrightarrow>
      rs_loading_player_ids (foldl race_after s cs) = {||} \<or> LOADING \<le> rs_phase (foldl race_after s cs)"
    by blast
qed

theorem race_lock_and_loading_players_witness:
  "rs_room_access (foldl race_after initial_race_state [BeginCountdown 0, LockRoomAccess, MarkRacing]) = LOCKED
   \<and> rs_loading_player_ids (foldl race_after initial_race_state [ObserveLoadingPlayer 4]) = {||}"
proof -
  have "rs_phase (foldl race_after initial_race_state [ObserveLoadingPlayer 4]) = SESSION_SETUP"
    by (simp add: race_after_def race_calls initial_race_state_def)
  with race_lock_and_loading_players[of initial_race_state "[ObserveLoadingPlayer 4]"]
    race_lock_and_loading_players[of initial_race_state "[BeginCountdown 0, LockRoomAccess, MarkRacing]"]
  show ?thesis by (auto simp: initial_race_state_def phase_order)
qed

end
