(* ===== verification/Retry.thy ===== *)
theory Retry
  imports Complex_Main Prelude
begin

text \<open>
  \<open>server/carbon/rebroadcaster/retry.py\<close>: the retry policy, the schedule of one reliable
  publication and the retained window.  Times are rationals.  The locale \<open>bounded_retry\<close>
  states what a sender of retries relies on; the lemmas show the bounds of a schedule.
\<close>

section \<open>Policy and schedule\<close>

datatype retry_error =
    InitialDelayNotPositive
  | MaximumDelayBelowInitial
  | MaximumRetriesNotPositive
  | TimeoutNotPositive
  | ExhaustedSchedule
  | EmptyWindow

record retry_policy =
  ry_initial_delay_seconds :: rat
  ry_maximum_delay_seconds :: rat
  ry_maximum_retries :: int
  ry_timeout_seconds :: rat

text \<open>The checks of \<open>__post_init__\<close>, in their order.\<close>

definition make_retry_policy :: "rat \<Rightarrow> rat \<Rightarrow> int \<Rightarrow> rat \<Rightarrow> retry_error + retry_policy" where
  "make_retry_policy initial maximum retries timeout =
     (if initial \<le> 0 then Inl InitialDelayNotPositive
      else if maximum < initial then Inl MaximumDelayBelowInitial
      else if retries < 1 then Inl MaximumRetriesNotPositive
      else if timeout \<le> 0 then Inl TimeoutNotPositive
      else Inr \<lparr>ry_initial_delay_seconds = initial, ry_maximum_delay_seconds = maximum,
                ry_maximum_retries = retries, ry_timeout_seconds = timeout\<rparr>)"

record retry_schedule =
  rt_policy :: retry_policy
  rt_opened_at :: rat
  rt_retry_not_before :: rat
  rt_deadline :: rat
  rt_retries_sent :: nat

definition begin_retry :: "retry_policy \<Rightarrow> rat \<Rightarrow> retry_schedule" where
  "begin_retry policy now =
     \<lparr>rt_policy = policy, rt_opened_at = now, rt_retry_not_before = now + ry_initial_delay_seconds policy,
      rt_deadline = now + ry_timeout_seconds policy, rt_retries_sent = 0\<rparr>"

definition exhausted :: "retry_schedule \<Rightarrow> rat \<Rightarrow> bool" where
  "exhausted s now \<longleftrightarrow> int (rt_retries_sent s) \<ge> ry_maximum_retries (rt_policy s) \<or> now \<ge> rt_deadline s"

definition due :: "retry_schedule \<Rightarrow> rat \<Rightarrow> bool" where
  "due s now \<longleftrightarrow> \<not> exhausted s now \<and> now \<ge> rt_retry_not_before s"

datatype exhaustion = Deadline | AttemptLimit

definition exhaustion_reason :: "retry_schedule \<Rightarrow> rat \<Rightarrow> exhaustion option" where
  "exhaustion_reason s now =
     (if now \<ge> rt_deadline s then Some Deadline
      else if int (rt_retries_sent s) \<ge> ry_maximum_retries (rt_policy s) then Some AttemptLimit
      else None)"

definition defer_from :: "rat \<Rightarrow> retry_schedule \<Rightarrow> retry_schedule" where
  "defer_from now s = s\<lparr>rt_retry_not_before := min (rt_deadline s) (now + ry_initial_delay_seconds (rt_policy s))\<rparr>"

definition record_retry :: "rat \<Rightarrow> retry_schedule \<Rightarrow> retry_error + rat \<times> retry_schedule" where
  "record_retry now s =
     (if exhausted s now then Inl ExhaustedSchedule
      else let sent = Suc (rt_retries_sent s);
               delay = min (ry_maximum_delay_seconds (rt_policy s)) (ry_initial_delay_seconds (rt_policy s) * 2 ^ sent)
           in Inr (delay, s\<lparr>rt_retries_sent := sent, rt_retry_not_before := min (rt_deadline s) (now + delay)\<rparr>))"

record reliable_window =
  rw_records :: "bytes list"
  rw_base_sequence :: int
  rw_final_sequence :: int
  rw_retry :: retry_schedule
  rw_transport_acknowledged :: bool

definition make_reliable_window :: "bytes list \<Rightarrow> int \<Rightarrow> int \<Rightarrow> retry_schedule \<Rightarrow> retry_error + reliable_window" where
  "make_reliable_window records base_sequence final_sequence retry =
     (if records = [] then Inl EmptyWindow
      else Inr \<lparr>rw_records = records, rw_base_sequence = base_sequence, rw_final_sequence = final_sequence,
                rw_retry = retry, rw_transport_acknowledged = False\<rparr>)"

section \<open>A bounded sender\<close>

text \<open>
  What a polling sender relies on: being due means having an attempt left, and recording a
  retry spends one.  \<open>poll_sends\<close> is the sender: at each poll time it sends when due.
\<close>

fun poll_sends :: "('s \<Rightarrow> rat \<Rightarrow> bool) \<Rightarrow> ('s \<Rightarrow> rat \<Rightarrow> 's) \<Rightarrow> 's \<Rightarrow> rat list \<Rightarrow> rat list \<times> 's" where
  "poll_sends is_due spend s [] = ([], s)"
| "poll_sends is_due spend s (t # ts) =
     (if is_due s t then let (sent, s') = poll_sends is_due spend (spend s t) ts in (t # sent, s')
      else poll_sends is_due spend s ts)"

locale bounded_retry =
  fixes is_due :: "'s \<Rightarrow> rat \<Rightarrow> bool"
    and spend :: "'s \<Rightarrow> rat \<Rightarrow> 's"
    and spent :: "'s \<Rightarrow> nat"
    and limit :: "'s \<Rightarrow> nat"
    and stop :: "'s \<Rightarrow> rat"
  assumes due_spent: "is_due s t \<Longrightarrow> spent s < limit s"
    and due_stop: "is_due s t \<Longrightarrow> t < stop s"
    and spend_spent: "is_due s t \<Longrightarrow> spent (spend s t) = Suc (spent s)"
    and spend_limit: "is_due s t \<Longrightarrow> limit (spend s t) = limit s"
    and spend_stop: "is_due s t \<Longrightarrow> stop (spend s t) = stop s"
begin

lemma poll_sends_bounded:
  "poll_sends is_due spend s ts = (sent, s') \<Longrightarrow>
   length sent \<le> limit s - spent s \<and> spent s' = spent s + length sent \<and> limit s' = limit s \<and> stop s' = stop s
   \<and> (\<forall>t \<in> set sent. t < stop s)"
proof (induction ts arbitrary: s sent)
  case Nil
  then show ?case by simp
next
  case (Cons t ts)
  show ?case
  proof (cases "is_due s t")
    case True
    with Cons.prems obtain rest where r: "poll_sends is_due spend (spend s t) ts = (rest, s')" and sent: "sent = t # rest"
      by (auto split: prod.splits)
    from Cons.IH[OF r] due_spent[OF True] due_stop[OF True] spend_spent[OF True] spend_limit[OF True] spend_stop[OF True]
    show ?thesis by (auto simp: sent)
  next
    case False
    with Cons show ?thesis by simp
  qed
qed

end

section \<open>The schedule is bounded\<close>

definition spend_retry :: "retry_schedule \<Rightarrow> rat \<Rightarrow> retry_schedule" where
  "spend_retry s now = (case record_retry now s of Inl _ \<Rightarrow> s | Inr (_, s') \<Rightarrow> s')"

lemma due_record: "due s now \<Longrightarrow> \<exists>delay s'. record_retry now s = Inr (delay, s')"
  by (simp add: due_def record_retry_def Let_def)

lemma exhausted_iff_reason: "exhausted s now \<longleftrightarrow> exhaustion_reason s now \<noteq> None"
  by (auto simp: exhausted_def exhaustion_reason_def)

interpretation schedule: bounded_retry due spend_retry rt_retries_sent
  "\<lambda>s. nat (ry_maximum_retries (rt_policy s))" rt_deadline
  by unfold_locales (auto simp: due_def exhausted_def spend_retry_def record_retry_def Let_def)

text \<open>
  A publication that is polled at any times, in any order, is sent again at most as
  often as its policy allows, and never at or after its deadline.
\<close>

theorem retries_bounded:
  assumes "poll_sends due spend_retry (begin_retry policy now) ts = (sent, s')"
  shows "length sent \<le> nat (ry_maximum_retries policy) \<and> rt_retries_sent s' = length sent
    \<and> rt_deadline s' = now + ry_timeout_seconds policy \<and> (\<forall>t \<in> set sent. t < now + ry_timeout_seconds policy)"
  using schedule.poll_sends_bounded[OF assms] by (simp add: begin_retry_def)

definition sample_policy :: retry_policy where
  "sample_policy = \<lparr>ry_initial_delay_seconds = 1, ry_maximum_delay_seconds = 2, ry_maximum_retries = 2, ry_timeout_seconds = 45\<rparr>"

theorem retries_bounded_witness:
  "\<exists>s'. poll_sends due spend_retry (begin_retry sample_policy 0) [1, 2, 3, 9, 50] = ([1, 3], s') \<and> rt_retries_sent s' = 2"
proof -
  obtain s' where r: "poll_sends due spend_retry (begin_retry sample_policy 0) [1, 2, 3, 9, 50] = ([1, 3], s')"
    by (simp add: sample_policy_def begin_retry_def due_def exhausted_def spend_retry_def record_retry_def)
  with retries_bounded[OF r] show ?thesis by simp
qed

text \<open>
  Waiting is bounded by the policy: from a valid policy, every delay a schedule
  records lies between twice the initial delay, or the maximum if that is smaller, and the
  maximum; neither deferring nor recording moves the deadline; and the next attempt is never
  scheduled after it.
\<close>

theorem retry_delays_bounded:
  assumes "make_retry_policy initial maximum retries timeout = Inr policy" "rt_policy s = policy"
  shows "(case record_retry now s of
            Inl e \<Rightarrow> e = ExhaustedSchedule \<and> exhausted s now
          | Inr (delay, s') \<Rightarrow> min maximum (2 * initial) \<le> delay \<and> 0 < delay \<and> delay \<le> maximum
              \<and> rt_deadline s' = rt_deadline s \<and> rt_retry_not_before s' \<le> rt_deadline s' \<and> now < rt_retry_not_before s')
    \<and> rt_deadline (defer_from now s) = rt_deadline s \<and> rt_retry_not_before (defer_from now s) \<le> rt_deadline s"
proof -
  from assms have i: "0 < initial" "initial \<le> maximum"
    and p: "ry_initial_delay_seconds (rt_policy s) = initial" "ry_maximum_delay_seconds (rt_policy s) = maximum"
    unfolding assms(2) by (auto simp: make_retry_policy_def split: if_splits)
  have "1 \<le> (2 :: rat) ^ n" for n by simp
  then have two: "2 * initial \<le> initial * (2 * 2 ^ n)" for n
    using mult_left_mono[of 1 "2 ^ n" "2 * initial"] i(1) by (simp add: mult.commute mult.left_commute)
  define d where "d = min maximum (initial * 2 ^ Suc (rt_retries_sent s))"
  have d: "min maximum (2 * initial) \<le> d" "0 < d" "d \<le> maximum"
    using i two[of "rt_retries_sent s"] by (simp_all add: d_def min_le_iff_disj min_less_iff_disj)
  have r: "record_retry now s = (if exhausted s now then Inl ExhaustedSchedule
      else Inr (d, s\<lparr>rt_retries_sent := Suc (rt_retries_sent s), rt_retry_not_before := min (rt_deadline s) (now + d)\<rparr>))"
    by (simp add: record_retry_def p d_def Let_def)
  show ?thesis
    using d by (simp add: r defer_from_def) (simp add: exhausted_def)
qed

theorem retry_delays_bounded_witness:
  "case record_retry 1 (begin_retry sample_policy 0) of Inl _ \<Rightarrow> False | Inr (delay, s') \<Rightarrow> delay = 2"
proof -
  have p: "make_retry_policy 1 2 2 45 = Inr sample_policy" by (simp add: make_retry_policy_def sample_policy_def)
  have q: "rt_policy (begin_retry sample_policy 0) = sample_policy" by (simp add: begin_retry_def)
  have "is_ok (record_retry 1 (begin_retry sample_policy 0))"
    by (simp add: record_retry_def begin_retry_def exhausted_def sample_policy_def Let_def)
  with retry_delays_bounded[OF p q, of 1] show ?thesis
    by (auto simp: is_ok_iff)
qed

end
