(* ===== verification/WireState.thy ===== *)
theory WireState
  imports Retry PyNumber "HOL-Library.FSet"
begin

text \<open>
  \<open>server/carbon/rebroadcaster/state.py\<close>: the per-destination progress of ProtoTunnel,
  CommUDP and GameManager, field by field, and the ready epoch of a room.  Sets are finite
  sets, dictionaries association lists; the defaults are those of the dataclass.
\<close>

type_synonym source_key = "string \<times> int"

record rebroadcaster_stats =
  st_datagrams_received :: int
  st_datagrams_rejected :: int
  st_handshakes_started :: int
  st_endpoints_bound :: int
  st_tickets_rejected :: int

record endpoint_wire_state =
  ew_bound_at :: rat
  ew_last_activity_at :: rat
  ew_tunnel_key :: bytes
  ew_client_stream_offset_words :: "int option"
  ew_next_offset_words :: int
  ew_next_server_sequence :: int
  ew_next_server_virtual_sequence :: int
  ew_last_world_state_footer_tick_ms :: int
  ew_last_client_sequence :: int
  ew_last_client_acknowledgement :: int
  ew_last_client_footer :: bytes
  ew_last_client_footer_received_tick_ms :: int
  ew_world_footer_observation_count :: int
  ew_world_footer_observation_log_tick_ms :: int
  ew_world_footer_send_log_tick_ms :: int
  ew_world_footer_remote_ack_tick_ms :: int
  ew_world_footer_received_tick_ms :: int
  ew_world_footer_rtt_avg_ms :: int
  ew_world_footer_jitter_avg_ms :: int
  ew_world_footer_lag_repair_logged :: bool
  ew_footer :: bytes
  ew_fallback_client_tick_ms :: int
  ew_bootstrap_pending :: bool
  ew_bootstrap_acknowledgement :: int
  ew_bootstrap_sent :: bool
  ew_suppress_self_join_publication :: bool
  ew_published_player_ids :: "int fset"
  ew_initial_hostprops_sent :: bool
  ew_session_bootstrap_sent :: bool
  ew_session_self_join_body :: bytes
  ew_session_self_join_record :: bytes
  ew_session_bootstrap_specs :: "(int \<times> bytes) list"
  ew_session_bootstrap_window :: "reliable_window option"
  ew_session_object_id :: int
  ew_session_generation :: int
  ew_session_blocks :: "(int \<times> bytes) list"
  ew_local_reflected_object_id :: int
  ew_allocation_lock_triggered :: bool
  ew_pending_allocation_offset_zero_sent :: bool
  ew_pending_allocation_object_id :: int
  ew_pending_allocation_reflected_object_id :: int
  ew_pending_allocation_blocks :: "bytes list"
  ew_allocation_release_final_sequences :: "(address \<times> int) list"
  ew_allocation_reflection_final_sequences :: "(address \<times> int) list"
  ew_allocation_release_wait_logged :: bool
  ew_allocation_reflection_wait_logged :: bool
  ew_room_commit_prerequisite_sequence :: int
  ew_room_commit_prerequisite_wait_logged :: bool
  ew_remote_object_ids :: "int fset"
  ew_published_remote_objects :: "(source_key \<times> bytes list) list"
  ew_published_session_offsets :: "(source_key \<times> int fset) list"
  ew_pending_session_releases :: "address fset"
  ew_invite_join_sequence :: int
  ew_invite_host_continuation_final_sequence :: int
  ew_invite_host_barrier_pending :: bool
  ew_invite_host_barrier_deferred_client_sequence :: int
  ew_invite_host_barrier_progress_wait_logged :: bool
  ew_pending_player_leaves :: "bytes list"
  ew_host_exit_queued_at :: rat
  ew_host_exit_player_left_sent :: bool
  ew_session_probe_sent :: bool
  ew_clock_probe_sent :: bool
  ew_session_token :: bytes
  ew_session_confirmation_pending :: bool
  ew_session_confirmed :: bool
  ew_preconfirm_deferred_types :: "int fset"
  ew_preconfirm_session_fragments_logged :: "(int \<times> int) fset"
  ew_latest_latency_info :: bytes
  ew_ready_requested :: bool
  ew_start_lock_final_sequence :: int
  ew_latency_info_sent :: bool
  ew_race_ready_seen :: bool
  ew_gameplay_ready :: bool
  ew_active_game_ready :: bool
  ew_match_timer_retry :: "retry_schedule option"
  ew_match_timer_sequence :: int
  ew_match_timer_generation_id :: int
  ew_ready_seed_final_sequence :: int
  ew_ready_seed_used_latency_history :: bool
  ew_pending_ai_registration_windows :: "reliable_window list"
  ew_ai_registration_ready_refresh_sent :: bool
  ew_ready_epoch_generation :: int
  ew_world_state_log_not_before :: rat
  ew_world_state_footer_diagnostic_logged :: bool
  ew_pursuit_tag_log_not_before :: rat

definition initial_wire_state :: endpoint_wire_state where
  "initial_wire_state = \<lparr>ew_bound_at = 0,
     ew_last_activity_at = 0,
     ew_tunnel_key = [],
     ew_client_stream_offset_words = None,
     ew_next_offset_words = 0,
     ew_next_server_sequence = 0x101,
     ew_next_server_virtual_sequence = 0x80,
     ew_last_world_state_footer_tick_ms = 0,
     ew_last_client_sequence = 0xFF,
     ew_last_client_acknowledgement = 0xFF,
     ew_last_client_footer = [],
     ew_last_client_footer_received_tick_ms = 0,
     ew_world_footer_observation_count = 0,
     ew_world_footer_observation_log_tick_ms = 0,
     ew_world_footer_send_log_tick_ms = 0,
     ew_world_footer_remote_ack_tick_ms = 0,
     ew_world_footer_received_tick_ms = 0,
     ew_world_footer_rtt_avg_ms = 0,
     ew_world_footer_jitter_avg_ms = 0,
     ew_world_footer_lag_repair_logged = False,
     ew_footer = [],
     ew_fallback_client_tick_ms = 0,
     ew_bootstrap_pending = False,
     ew_bootstrap_acknowledgement = 0xFF,
     ew_bootstrap_sent = False,
     ew_suppress_self_join_publication = False,
     ew_published_player_ids = {||},
     ew_initial_hostprops_sent = False,
     ew_session_bootstrap_sent = False,
     ew_session_self_join_body = [],
     ew_session_self_join_record = [],
     ew_session_bootstrap_specs = [],
     ew_session_bootstrap_window = None,
     ew_session_object_id = 0,
     ew_session_generation = 0,
     ew_session_blocks = [],
     ew_local_reflected_object_id = 0,
     ew_allocation_lock_triggered = False,
     ew_pending_allocation_offset_zero_sent = False,
     ew_pending_allocation_object_id = 0,
     ew_pending_allocation_reflected_object_id = 0,
     ew_pending_allocation_blocks = [],
     ew_allocation_release_final_sequences = [],
     ew_allocation_reflection_final_sequences = [],
     ew_allocation_release_wait_logged = False,
     ew_allocation_reflection_wait_logged = False,
     ew_room_commit_prerequisite_sequence = 0,
     ew_room_commit_prerequisite_wait_logged = False,
     ew_remote_object_ids = {||},
     ew_published_remote_objects = [],
     ew_published_session_offsets = [],
     ew_pending_session_releases = {||},
     ew_invite_join_sequence = 0,
     ew_invite_host_continuation_final_sequence = 0,
     ew_invite_host_barrier_pending = False,
     ew_invite_host_barrier_deferred_client_sequence = 0,
     ew_invite_host_barrier_progress_wait_logged = False,
     ew_pending_player_leaves = [],
     ew_host_exit_queued_at = 0,
     ew_host_exit_player_left_sent = False,
     ew_session_probe_sent = False,
     ew_clock_probe_sent = False,
     ew_session_token = [],
     ew_session_confirmation_pending = False,
     ew_session_confirmed = False,
     ew_preconfirm_deferred_types = {||},
     ew_preconfirm_session_fragments_logged = {||},
     ew_latest_latency_info = [],
     ew_ready_requested = False,
     ew_start_lock_final_sequence = 0,
     ew_latency_info_sent = False,
     ew_race_ready_seen = False,
     ew_gameplay_ready = False,
     ew_active_game_ready = False,
     ew_match_timer_retry = None,
     ew_match_timer_sequence = 0,
     ew_match_timer_generation_id = 0,
     ew_ready_seed_final_sequence = 0,
     ew_ready_seed_used_latency_history = False,
     ew_pending_ai_registration_windows = [],
     ew_ai_registration_ready_refresh_sent = False,
     ew_ready_epoch_generation = 0,
     ew_world_state_log_not_before = 0,
     ew_world_state_footer_diagnostic_logged = False,
     ew_pursuit_tag_log_not_before = 0\<rparr>"

datatype ready_stage = SEED_SENT_WAIT_GUEST_13_15 | STATE_PAIR_SENT_WAIT_HOST_NATIVE_BUNDLE | COUNTDOWN_ACTIVE | ABORTED

record ready_epoch =
  re_generation :: int
  re_stage :: ready_stage
  re_host_pid :: int
  re_guest_pid :: int
  re_source_first_sequence :: int
  re_source_final_sequence :: int
  re_source_payload_hash :: int
  re_attributes :: bytes
  re_wire_deadline :: pyfloat
  re_state13 :: bytes
  re_state15 :: bytes
  re_guest_pre_state_sequence :: int
  re_guest_state_final_sequence :: int
  re_guest_state_window_started :: bool
  re_seed_ack_wait_logged :: bool
  re_native_bundle_hash :: int

end
