(* ===== verification/Confirmations.thy ===== *)
theory Confirmations
  imports WireState
begin

text \<open>
  \<open>server/carbon/rebroadcaster/confirmations.py\<close>: the windows of encrypted records retained
  until their final sequence is acknowledged, their polling and replay, and the filter of
  duplicate inbound packets.  The clock is an argument.  The lemmas show what an
  acknowledgement retires, that only registered unacknowledged records are ever sent again
  and how often, and that the duplicate filter remembers the last 256 fingerprints.
\<close>

section \<open>State\<close>

definition SEQUENCE_MASK :: int where
  "SEQUENCE_MASK = 0x0FFFFFFF"

definition SEQUENCE_HALF :: nat where
  "SEQUENCE_HALF = 0x08000000"

definition CONFIRMATION_RETRY_POLICY :: retry_policy where
  "CONFIRMATION_RETRY_POLICY = \<lparr>ry_initial_delay_seconds = 1 / 4, ry_maximum_delay_seconds = 2,
     ry_maximum_retries = 16, ry_timeout_seconds = 45\<rparr>"

record pending_confirmation =
  pc_label :: string
  pc_records :: "bytes list"
  pc_base_sequence :: nat
  pc_final_sequence :: nat
  pc_retry :: retry_schedule
  pc_application_confirmation :: bool
  pc_transport_acknowledged :: bool
  pc_exhausted_logged :: bool

type_synonym fingerprint = "nat \<times> 32 word"

record confirmation_manager =
  cm_wires :: "(address \<times> endpoint_wire_state) list"
  cm_retry_policy :: retry_policy
  cm_pending :: "(address \<times> pending_confirmation list) list"
  cm_acknowledgement_high_water :: "(address \<times> nat) list"
  cm_recent_inbound :: "(address \<times> fingerprint list \<times> fingerprint set) list"

datatype confirmation_error = UnknownWire address | RetryFailed retry_error

definition new_confirmation_manager :: "(address \<times> endpoint_wire_state) list \<Rightarrow> retry_policy \<Rightarrow> confirmation_manager" where
  "new_confirmation_manager wires policy = \<lparr>cm_wires = wires, cm_retry_policy = policy, cm_pending = [],
     cm_acknowledgement_high_water = [], cm_recent_inbound = []\<rparr>"

section \<open>Sequence arithmetic\<close>

text \<open>\<open>value & _SEQUENCE_MASK\<close> keeps 28 bits.\<close>

definition sequence_acked :: "int \<Rightarrow> int \<Rightarrow> bool" where
  "sequence_acked acknowledgement target \<longleftrightarrow> umask 28 (acknowledgement - target) < SEQUENCE_HALF"

definition sequence_newer :: "int \<Rightarrow> int \<Rightarrow> bool" where
  "sequence_newer candidate current \<longleftrightarrow>
     (let delta = umask 28 (candidate - current) in 0 < delta \<and> delta < SEQUENCE_HALF)"

section \<open>CRC-32 (\<open>zlib.crc32\<close>)\<close>

fun crc_bits :: "nat \<Rightarrow> 32 word \<Rightarrow> 32 word" where
  "crc_bits 0 c = c"
| "crc_bits (Suc n) c = crc_bits n (if c AND 1 = 1 then drop_bit 1 c XOR 0xEDB88320 else drop_bit 1 c)"

definition crc32 :: "bytes \<Rightarrow> 32 word" where
  "crc32 bs = NOT (fold (\<lambda>b c. crc_bits 8 (c XOR ucast b)) bs (NOT 0))"

section \<open>Operations\<close>

definition advance_acknowledgement_high_water :: "address \<Rightarrow> int \<Rightarrow> confirmation_manager \<Rightarrow> nat \<times> confirmation_manager" where
  "advance_acknowledgement_high_water address acknowledgement m =
     (let ack = umask 28 acknowledgement
      in case map_of (cm_acknowledgement_high_water m) address of
           None \<Rightarrow> (ack, m\<lparr>cm_acknowledgement_high_water := AList.update address ack (cm_acknowledgement_high_water m)\<rparr>)
         | Some current \<Rightarrow>
             if sequence_newer (int ack) (int current)
             then (ack, m\<lparr>cm_acknowledgement_high_water := AList.update address ack (cm_acknowledgement_high_water m)\<rparr>)
             else (current, m))"

text \<open>The loop of \<open>acknowledge\<close> over the windows of an address, in order.\<close>

fun retain_windows :: "nat \<Rightarrow> pending_confirmation list \<Rightarrow> pending_confirmation list" where
  "retain_windows ack [] = []"
| "retain_windows ack (window # rest) =
     (if \<not> sequence_acked (int ack) (int (pc_final_sequence window)) then window # retain_windows ack rest
      else if \<not> pc_application_confirmation window then retain_windows ack rest
      else window\<lparr>pc_transport_acknowledged := True\<rparr> # retain_windows ack rest)"

definition store_windows :: "address \<Rightarrow> pending_confirmation list \<Rightarrow> confirmation_manager \<Rightarrow> confirmation_manager" where
  "store_windows address retained m =
     (if retained \<noteq> [] then m\<lparr>cm_pending := AList.update address retained (cm_pending m)\<rparr>
      else m\<lparr>cm_pending := AList.delete address (cm_pending m)\<rparr>)"

definition acknowledge :: "address \<Rightarrow> int \<Rightarrow> confirmation_manager \<Rightarrow> nat \<times> confirmation_manager" where
  "acknowledge address acknowledgement m =
     (let ack = umask 28 acknowledgement;
          m1 = snd (advance_acknowledgement_high_water address (int ack) m)
      in case map_of (cm_pending m1) address of
           None \<Rightarrow> (0, m1)
         | Some [] \<Rightarrow> (0, m1)
         | Some pending \<Rightarrow>
             let retained = retain_windows ack pending
             in (length pending - length retained, store_windows address retained m1))"

text \<open>The bounded deque with its membership set: an appended fingerprint evicts the oldest past 256.\<close>

fun evict_recent :: "fingerprint list \<Rightarrow> fingerprint set \<Rightarrow> fingerprint list \<times> fingerprint set" where
  "evict_recent order members =
     (if length order > 256 then evict_recent (tl order) (members - {hd order}) else (order, members))"

declare evict_recent.simps [simp del]

definition observe_inbound ::
  "address \<Rightarrow> int \<Rightarrow> int \<Rightarrow> bytes \<Rightarrow> bool \<Rightarrow> confirmation_manager \<Rightarrow> confirmation_error + bool \<times> confirmation_manager" where
  "observe_inbound address sequence acknowledgement payload track_sequence m =
     (case map_of (cm_wires m) address of
        None \<Rightarrow> Inl (UnknownWire address)
      | Some wire \<Rightarrow>
          let ack = umask 28 acknowledgement;
              wire1 = wire\<lparr>ew_last_client_acknowledgement := int ack\<rparr>;
              m1 = m\<lparr>cm_wires := AList.update address wire1 (cm_wires m)\<rparr>;
              m2 = snd (acknowledge address (int ack) m1)
          in if \<not> track_sequence then Inr (False, m2)
             else
               let received = umask 28 sequence;
                   wire2 = wire1\<lparr>ew_last_client_sequence := int received\<rparr>;
                   m3 = m2\<lparr>cm_wires := AList.update address wire2 (cm_wires m2)\<rparr>;
                   fp = (received, crc32 payload);
                   (order, members) = (case map_of (cm_recent_inbound m3) address of None \<Rightarrow> ([], {}) | Some recent \<Rightarrow> recent)
               in if fp \<in> members then Inr (True, m3)
                  else Inr (False, m3\<lparr>cm_recent_inbound :=
                         AList.update address (evict_recent (order @ [fp]) (insert fp members)) (cm_recent_inbound m3)\<rparr>))"

definition register ::
  "address \<Rightarrow> bytes list \<Rightarrow> int \<Rightarrow> int \<Rightarrow> string \<Rightarrow> bool \<Rightarrow> rat \<Rightarrow> confirmation_manager
   \<Rightarrow> pending_confirmation option \<times> confirmation_manager" where
  "register address records base_sequence final_sequence label application_confirmation now m =
     (let base = umask 28 base_sequence;
          final = umask 28 final_sequence;
          payloads = filter (\<lambda>record. record \<noteq> []) records
      in if payloads = [] then (None, m)
         else
           let m1 = m\<lparr>cm_pending := dict_setdefault address [] (cm_pending m)\<rparr>;
               pending = (case map_of (cm_pending m1) address of None \<Rightarrow> [] | Some p \<Rightarrow> p)
           in case find (\<lambda>existing. pc_final_sequence existing = final \<and> pc_records existing = payloads) pending of
                Some existing \<Rightarrow> (Some existing, m1)
              | None \<Rightarrow>
                  let window = \<lparr>pc_label = label, pc_records = payloads, pc_base_sequence = base, pc_final_sequence = final,
                        pc_retry = begin_retry (cm_retry_policy m) now, pc_application_confirmation = application_confirmation,
                        pc_transport_acknowledged = False, pc_exhausted_logged = False\<rparr>
                  in (Some window, m1\<lparr>cm_pending := AList.update address (pending @ [window]) (cm_pending m1)\<rparr>))"

definition confirm_application :: "address \<Rightarrow> string \<Rightarrow> confirmation_manager \<Rightarrow> nat \<times> confirmation_manager" where
  "confirm_application address label m =
     (case map_of (cm_pending m) address of
        None \<Rightarrow> (0, m)
      | Some [] \<Rightarrow> (0, m)
      | Some pending \<Rightarrow>
          let retained = filter (\<lambda>w. \<not> (pc_application_confirmation w \<and> pc_label w = label)) pending
          in (length pending - length retained, store_windows address retained m))"

definition poll_window :: "rat \<Rightarrow> pending_confirmation \<Rightarrow> retry_error + bytes list \<times> pending_confirmation" where
  "poll_window current window =
     (if pc_transport_acknowledged window then
        (if current \<ge> rt_deadline (pc_retry window) \<and> \<not> pc_exhausted_logged window
         then Inr ([], window\<lparr>pc_exhausted_logged := True\<rparr>) else Inr ([], window))
      else if exhaustion_reason (pc_retry window) current \<noteq> None then Inr ([], window\<lparr>pc_exhausted_logged := True\<rparr>)
      else if \<not> due (pc_retry window) current then Inr ([], window)
      else rbind (record_retry current (pc_retry window)) (\<lambda>(delay, retry).
             Inr (pc_records window, window\<lparr>pc_retry := retry\<rparr>)))"

fun poll_windows :: "rat \<Rightarrow> pending_confirmation list \<Rightarrow> retry_error + bytes list \<times> pending_confirmation list" where
  "poll_windows current [] = Inr ([], [])"
| "poll_windows current (w # ws) =
     rbind (poll_window current w) (\<lambda>(rs, w').
     rbind (poll_windows current ws) (\<lambda>(rest, ws'). Inr (rs @ rest, w' # ws')))"

fun poll_items ::
  "rat \<Rightarrow> (address \<times> endpoint_wire_state) list \<Rightarrow> (address \<times> pending_confirmation list) list
   \<Rightarrow> retry_error + (bytes \<times> address) list \<times> (address \<times> pending_confirmation list) list" where
  "poll_items current wires [] = Inr ([], [])"
| "poll_items current wires ((address, pending) # items) =
     (case map_of wires address of
        None \<Rightarrow> poll_items current wires items
      | Some _ \<Rightarrow>
          rbind (poll_windows current pending) (\<lambda>(rs, pending').
          rbind (poll_items current wires items) (\<lambda>(rest, items').
            Inr (map (\<lambda>r. (r, address)) rs @ rest, (address, pending') # items'))))"

definition poll :: "rat \<Rightarrow> confirmation_manager \<Rightarrow> retry_error + (bytes \<times> address) list \<times> confirmation_manager" where
  "poll now m =
     rbind (poll_items now (cm_wires m) (cm_pending m)) (\<lambda>(replies, pending).
       Inr (replies, m\<lparr>cm_pending := pending\<rparr>))"

definition replay_window :: "retry_policy \<Rightarrow> rat \<Rightarrow> pending_confirmation \<Rightarrow> pending_confirmation" where
  "replay_window policy current window =
     (if pc_transport_acknowledged window then window
      else if exhausted (pc_retry window) current
      then window\<lparr>pc_retry := begin_retry policy current, pc_exhausted_logged := False\<rparr>
      else window\<lparr>pc_retry := defer_from current (pc_retry window)\<rparr>)"

definition replay_pending :: "address \<Rightarrow> rat \<Rightarrow> confirmation_manager \<Rightarrow> (bytes \<times> address) list \<times> confirmation_manager" where
  "replay_pending address now m =
     (case map_of (cm_wires m) address of
        None \<Rightarrow> ([], m)
      | Some _ \<Rightarrow>
          let windows = (case map_of (cm_pending m) address of None \<Rightarrow> [] | Some p \<Rightarrow> p);
              pending = filter (\<lambda>w. \<not> pc_transport_acknowledged w) windows;
              replies = concat (map (\<lambda>w. map (\<lambda>r. (r, address)) (pc_records w)) pending)
          in if replies = [] then ([], m)
             else (replies, m\<lparr>cm_pending := AList.update address (map (replay_window (cm_retry_policy m) now) windows) (cm_pending m)\<rparr>))"

definition pending_of :: "address \<Rightarrow> confirmation_manager \<Rightarrow> pending_confirmation list" where
  "pending_of address m = (case map_of (cm_pending m) address of None \<Rightarrow> [] | Some p \<Rightarrow> p)"

definition clear_endpoint :: "address \<Rightarrow> confirmation_manager \<Rightarrow> confirmation_manager" where
  "clear_endpoint address m =
     m\<lparr>cm_pending := AList.delete address (cm_pending m),
       cm_acknowledgement_high_water := AList.delete address (cm_acknowledgement_high_water m),
       cm_recent_inbound := AList.delete address (cm_recent_inbound m)\<rparr>"

section \<open>Sequences\<close>

text \<open>
  On the 28 bits that travel, the cumulative test means what it says for the unbounded
  counters: as long as the two positions are less than half the space apart, a target is
  acknowledged exactly when it is not after the acknowledgement, and a candidate is newer
  exactly when it is after the current value, across the wrap-around.
\<close>

theorem sequence_tests_exact:
  assumes "- (2 ^ 27) < a - t" "a - t < 2 ^ 27"
  shows "(sequence_acked (int (umask 28 a)) (int (umask 28 t)) \<longleftrightarrow> t \<le> a)
    \<and> (sequence_newer (int (umask 28 a)) (int (umask 28 t)) \<longleftrightarrow> t < a)"
proof (cases "t \<le> a")
  case True
  then have "umask 28 (a - t) = nat (a - t)" using assms by (intro umask_small) simp_all
  with True assms show ?thesis
    by (auto simp: sequence_acked_def sequence_newer_def umask_diff SEQUENCE_HALF_def Let_def)
next
  case False
  then have "umask 28 (a - t) = nat (a - t + 2 ^ 28)" using assms by (intro umask_negative) simp_all
  with False assms show ?thesis
    by (auto simp: sequence_acked_def sequence_newer_def umask_diff SEQUENCE_HALF_def Let_def)
qed

theorem sequence_tests_exact_witness:
  "sequence_acked (int (umask 28 (2 ^ 28 + 3))) (int (umask 28 (2 ^ 28 - 2)))
   \<and> \<not> sequence_newer (int (umask 28 (2 ^ 28 - 2))) (int (umask 28 (2 ^ 28 + 3)))"
  using sequence_tests_exact[of "2 ^ 28 + 3" "2 ^ 28 - 2"] sequence_tests_exact[of "2 ^ 28 - 2" "2 ^ 28 + 3"]
  by simp

section \<open>Acknowledgements\<close>

lemma retain_windows_spec:
  "retain_windows ack ws =
     map (\<lambda>w. if sequence_acked (int ack) (int (pc_final_sequence w)) then w\<lparr>pc_transport_acknowledged := True\<rparr> else w)
       (filter (\<lambda>w. if sequence_acked (int ack) (int (pc_final_sequence w)) then pc_application_confirmation w else True) ws)"
  by (induction ws) auto

lemma high_water_pending [simp]:
  "cm_pending (snd (advance_acknowledgement_high_water address ack m)) = cm_pending m"
  "cm_wires (snd (advance_acknowledgement_high_water address ack m)) = cm_wires m"
  "cm_retry_policy (snd (advance_acknowledgement_high_water address ack m)) = cm_retry_policy m"
  "cm_recent_inbound (snd (advance_acknowledgement_high_water address ack m)) = cm_recent_inbound m"
  by (auto simp: advance_acknowledgement_high_water_def Let_def split: option.splits)

lemma pending_store: "pending_of a (store_windows address retained m) = (if a = address then retained else pending_of a m)"
  by (auto simp: pending_of_def store_windows_def update_conv' AList.delete_conv')

lemma store_windows_other [simp]:
  "cm_wires (store_windows address retained m) = cm_wires m"
  "cm_retry_policy (store_windows address retained m) = cm_retry_policy m"
  "cm_recent_inbound (store_windows address retained m) = cm_recent_inbound m"
  by (simp_all add: store_windows_def)

lemma pending_acknowledge:
  "pending_of a (snd (acknowledge address n m))
   = (if a = address then retain_windows (umask 28 n) (pending_of address m) else pending_of a m)"
  by (auto simp: acknowledge_def Let_def pending_of_def store_windows_def update_conv' AList.delete_conv'
      split: option.splits list.splits)

lemma acknowledge_other [simp]:
  "cm_wires (snd (acknowledge address n m)) = cm_wires m"
  "cm_retry_policy (snd (acknowledge address n m)) = cm_retry_policy m"
  "cm_recent_inbound (snd (acknowledge address n m)) = cm_recent_inbound m"
  by (auto simp: acknowledge_def Let_def split: option.splits list.splits)

text \<open>
  A cumulative acknowledgement retires exactly the windows of its own address whose
  final sequence it covers, except those that wait for an application confirmation, which
  it keeps and marks as received; every other window stays as it was, in order, and the
  answer is the number retired.
\<close>

theorem acknowledge_retires_covered:
  "pending_of a (snd (acknowledge address n m)) =
     (if a = address
      then map (\<lambda>w. if sequence_acked (int (umask 28 n)) (int (pc_final_sequence w))
                    then w\<lparr>pc_transport_acknowledged := True\<rparr> else w)
             (filter (\<lambda>w. if sequence_acked (int (umask 28 n)) (int (pc_final_sequence w)) then pc_application_confirmation w else True)
               (pending_of address m))
      else pending_of a m)
   \<and> fst (acknowledge address n m) = length (pending_of address m) - length (pending_of address (snd (acknowledge address n m)))"
proof
  show "pending_of a (snd (acknowledge address n m)) =
     (if a = address
      then map (\<lambda>w. if sequence_acked (int (umask 28 n)) (int (pc_final_sequence w))
                    then w\<lparr>pc_transport_acknowledged := True\<rparr> else w)
             (filter (\<lambda>w. if sequence_acked (int (umask 28 n)) (int (pc_final_sequence w)) then pc_application_confirmation w else True)
               (pending_of address m))
      else pending_of a m)"
    by (simp add: pending_acknowledge retain_windows_spec)
  show "fst (acknowledge address n m) = length (pending_of address m) - length (pending_of address (snd (acknowledge address n m)))"
    unfolding pending_acknowledge
    by (auto simp: acknowledge_def Let_def pending_of_def split: option.splits list.splits)
qed

section \<open>Polling\<close>

definition window_due :: "pending_confirmation \<Rightarrow> rat \<Rightarrow> bool" where
  "window_due w now \<longleftrightarrow> \<not> pc_transport_acknowledged w \<and> due (pc_retry w) now"

definition polled_window :: "pending_confirmation \<Rightarrow> rat \<Rightarrow> pending_confirmation" where
  "polled_window w now = (case poll_window now w of Inl _ \<Rightarrow> w | Inr (_, w') \<Rightarrow> w')"

lemma poll_window_total:
  "poll_window now w = Inr (if window_due w now then pc_records w else [], polled_window w now)"
proof (cases "window_due w now")
  case True
  then obtain delay r where "record_retry now (pc_retry w) = Inr (delay, r)"
    using due_record[of "pc_retry w" now] by (auto simp: window_due_def)
  moreover have "exhaustion_reason (pc_retry w) now = None"
    using True exhausted_iff_reason by (auto simp: window_due_def due_def)
  ultimately show ?thesis using True by (simp add: poll_window_def polled_window_def window_due_def)
next
  case False
  then show ?thesis by (auto simp: poll_window_def polled_window_def window_due_def)
qed

text \<open>The identity of a window: what it was registered with.\<close>

definition window_key :: "pending_confirmation \<Rightarrow> string \<times> bytes list \<times> nat \<times> nat \<times> bool" where
  "window_key w = (pc_label w, pc_records w, pc_base_sequence w, pc_final_sequence w, pc_application_confirmation w)"

lemma polled_window_key: "window_key (polled_window w now) = window_key w"
  "pc_transport_acknowledged (polled_window w now) = pc_transport_acknowledged w"
  by (auto simp: polled_window_def poll_window_def window_key_def record_retry_def Let_def split: if_splits)

lemma polled_window_retry:
  "pc_retry (polled_window w now) = (if window_due w now then spend_retry (pc_retry w) now else pc_retry w)"
  using due_record[of "pc_retry w" now] exhausted_iff_reason[of "pc_retry w" now]
  by (auto simp: polled_window_def poll_window_def window_due_def spend_retry_def due_def)

interpretation window: bounded_retry window_due polled_window
  "\<lambda>w. rt_retries_sent (pc_retry w)" "\<lambda>w. nat (ry_maximum_retries (rt_policy (pc_retry w)))" "\<lambda>w. rt_deadline (pc_retry w)"
  by unfold_locales
    (auto simp: window_due_def polled_window_retry
      intro: schedule.due_spent schedule.due_stop schedule.spend_spent schedule.spend_limit schedule.spend_stop)

lemma poll_windows_total:
  "poll_windows now ws = Inr (concat (map (\<lambda>w. if window_due w now then pc_records w else []) ws), map (\<lambda>w. polled_window w now) ws)"
  by (induction ws) (simp_all add: poll_window_total)

lemma poll_items_total:
  "poll_items now wires items = Inr
     (concat (map (\<lambda>(a, ws). if map_of wires a = None then []
        else map (\<lambda>r. (r, a)) (concat (map (\<lambda>w. if window_due w now then pc_records w else []) ws))) items),
      map (\<lambda>(a, ws). (a, map (\<lambda>w. polled_window w now) ws)) (filter (\<lambda>(a, _). map_of wires a \<noteq> None) items))"
  by (induction items) (auto simp: poll_windows_total split: option.splits)

lemma map_of_polled_items:
  "map_of (map (\<lambda>(a, ws). (a, f ws)) (filter (\<lambda>(a, _). map_of wires a \<noteq> None) items)) a
   = (if map_of wires a = None then None else map_option f (map_of items a))"
proof (induction items)
  case Nil
  then show ?case by simp
next
  case (Cons item items)
  show ?case
  proof (cases "fst item = a")
    case True
    with Cons show ?thesis by (cases item) (cases "map_of wires a", simp_all)
  next
    case False
    with Cons show ?thesis by (cases item) simp
  qed
qed

lemma poll_total:
  "\<exists>m'. poll now m = Inr (concat (map (\<lambda>(a, ws). if map_of (cm_wires m) a = None then []
        else map (\<lambda>r. (r, a)) (concat (map (\<lambda>w. if window_due w now then pc_records w else []) ws))) (cm_pending m)), m')
     \<and> cm_pending m' = map (\<lambda>(a, ws). (a, map (\<lambda>w. polled_window w now) ws))
          (filter (\<lambda>(a, _). map_of (cm_wires m) a \<noteq> None) (cm_pending m))
     \<and> cm_recent_inbound m' = cm_recent_inbound m"
  by (simp add: poll_def poll_items_total)

text \<open>
  Polling never raises.  Everything it sends is a record of a window registered for
  that very address which is neither acknowledged nor exhausted and whose wait is over, and
  polling changes nothing of a window but its retry state; windows of an address whose wire
  state is gone are dropped.
\<close>

theorem poll_sends_pending_only:
  assumes "distinct (map fst (cm_pending m))"
  shows "\<exists>replies m'. poll now m = Inr (replies, m')
    \<and> (\<forall>(r, a) \<in> set replies. \<exists>w \<in> set (pending_of a m). r \<in> set (pc_records w) \<and> window_due w now)
    \<and> (\<forall>a. map window_key (pending_of a m')
         = (if map_of (cm_wires m) a = None then [] else map window_key (pending_of a m)))"
proof -
  let ?replies = "concat (map (\<lambda>(a, ws). if map_of (cm_wires m) a = None then []
        else map (\<lambda>r. (r, a)) (concat (map (\<lambda>w. if window_due w now then pc_records w else []) ws))) (cm_pending m))"
  obtain m' where p: "poll now m = Inr (?replies, m')"
    and m': "cm_pending m' = map (\<lambda>(a, ws). (a, map (\<lambda>w. polled_window w now) ws))
          (filter (\<lambda>(a, _). map_of (cm_wires m) a \<noteq> None) (cm_pending m))"
    using poll_total[of now m] by blast
  have "\<exists>w \<in> set (pending_of a m). r \<in> set (pc_records w) \<and> window_due w now" if "(r, a) \<in> set ?replies" for r a
  proof -
    from that obtain ws w where "(a, ws) \<in> set (cm_pending m)" "w \<in> set ws" "r \<in> set (pc_records w)" "window_due w now"
      by (auto split: if_splits)
    moreover from this(1) assms have "pending_of a m = ws" by (simp add: pending_of_def)
    ultimately show ?thesis by blast
  qed
  moreover have "map window_key (pending_of a m')
         = (if map_of (cm_wires m) a = None then [] else map window_key (pending_of a m))" for a
    using map_of_polled_items[of "map (\<lambda>w. polled_window w now)" "cm_wires m" "cm_pending m" a]
    by (auto simp: pending_of_def m' polled_window_key comp_def split: option.splits)
  ultimately show ?thesis using p by blast
qed

definition sample_manager :: confirmation_manager where
  "sample_manager = snd (register (''10.0.0.5'', 3658) [[1, 2]] 5 6 ''join'' False 0
     (new_confirmation_manager [((''10.0.0.5'', 3658), initial_wire_state)] sample_policy))"

theorem poll_sends_pending_only_witness:
  "\<exists>replies m'. poll 9 sample_manager = Inr (replies, m')
    \<and> map window_key (pending_of (''10.0.0.5'', 3658) m') = [(''join'', [[1, 2]], 5, 6, False)]"
proof -
  have d: "distinct (map fst (cm_pending sample_manager))"
    and k: "map window_key (pending_of (''10.0.0.5'', 3658) sample_manager) = [(''join'', [[1, 2]], 5, 6, False)]"
    and w: "map_of (cm_wires sample_manager) (''10.0.0.5'', 3658) \<noteq> None"
    by (simp_all add: sample_manager_def register_def new_confirmation_manager_def dict_setdefault_def umask_def
        pending_of_def window_key_def Let_def)
  from poll_sends_pending_only[OF d, of 9] k w show ?thesis by force
qed

text \<open>
  One retained window, polled at any times, is sent again at most as often as the
  policy it was opened with allows, never at or after its deadline, and never once the
  client acknowledged it.
\<close>

theorem window_resends_bounded:
  assumes "poll_sends window_due polled_window w ts = (sent, w')"
  shows "length sent \<le> nat (ry_maximum_retries (rt_policy (pc_retry w))) - rt_retries_sent (pc_retry w)
    \<and> (\<forall>t \<in> set sent. t < rt_deadline (pc_retry w)) \<and> (pc_transport_acknowledged w \<longrightarrow> sent = [])"
proof -
  have "pc_transport_acknowledged w \<Longrightarrow> poll_sends window_due polled_window w ts = ([], w)"
    by (induction ts) (simp_all add: window_due_def)
  with assms window.poll_sends_bounded[OF assms] show ?thesis by auto
qed

theorem window_resends_bounded_witness:
  "\<exists>w'. poll_sends window_due polled_window
     \<lparr>pc_label = ''x'', pc_records = [[1]], pc_base_sequence = 1, pc_final_sequence = 1, pc_retry = begin_retry sample_policy 0,
      pc_application_confirmation = False, pc_transport_acknowledged = True, pc_exhausted_logged = False\<rparr> [1, 2, 3] = ([], w')"
proof -
  let ?w = "\<lparr>pc_label = ''x'', pc_records = [[1]], pc_base_sequence = 1, pc_final_sequence = 1, pc_retry = begin_retry sample_policy 0,
      pc_application_confirmation = False, pc_transport_acknowledged = True, pc_exhausted_logged = False\<rparr>"
  obtain sent w' where r: "poll_sends window_due polled_window ?w [1, 2, 3] = (sent, w')" by fastforce
  with window_resends_bounded[OF r] show ?thesis by auto
qed

section \<open>The invariant of the manager\<close>

definition recent_ok :: "fingerprint list \<times> fingerprint set \<Rightarrow> bool" where
  "recent_ok recent \<longleftrightarrow> distinct (fst recent) \<and> snd recent = set (fst recent) \<and> length (fst recent) \<le> 256"

definition windows_ok :: "pending_confirmation list \<Rightarrow> bool" where
  "windows_ok ws \<longleftrightarrow> ws \<noteq> [] \<and> distinct (map (\<lambda>w. (pc_final_sequence w, pc_records w)) ws)
     \<and> (\<forall>w \<in> set ws. pc_records w \<noteq> [] \<and> [] \<notin> set (pc_records w))"

definition manager_ok :: "confirmation_manager \<Rightarrow> bool" where
  "manager_ok m \<longleftrightarrow> distinct (map fst (cm_pending m)) \<and> (\<forall>(a, ws) \<in> set (cm_pending m). windows_ok ws)
     \<and> (\<forall>(a, recent) \<in> set (cm_recent_inbound m). recent_ok recent)"

lemma manager_ok_update:
  "manager_ok m \<Longrightarrow> windows_ok ws \<Longrightarrow> manager_ok (m\<lparr>cm_pending := AList.update a ws (cm_pending m)\<rparr>)"
  using set_update_subset[of a ws "cm_pending m"] by (auto simp: manager_ok_def distinct_update)

lemma manager_ok_delete: "manager_ok m \<Longrightarrow> manager_ok (m\<lparr>cm_pending := AList.delete a (cm_pending m)\<rparr>)"
  using set_delete_subset[of a "cm_pending m"] by (auto simp: manager_ok_def distinct_delete)

lemma manager_ok_store: "manager_ok m \<Longrightarrow> ws \<noteq> [] \<longrightarrow> windows_ok ws \<Longrightarrow> manager_ok (store_windows a ws m)"
  by (simp add: store_windows_def manager_ok_update manager_ok_delete)

lemma manager_ok_pending: "manager_ok m \<Longrightarrow> map_of (cm_pending m) a = Some ws \<Longrightarrow> windows_ok ws"
  by (auto simp: manager_ok_def dest: map_of_SomeD)

lemma windows_ok_map_filter:
  assumes "windows_ok ws" "\<And>w. pc_final_sequence (f w) = pc_final_sequence w \<and> pc_records (f w) = pc_records w"
    "map f (filter P ws) \<noteq> []"
  shows "windows_ok (map f (filter P ws))"
  using assms by (auto simp: windows_ok_def comp_def distinct_map_filter)

lemma manager_ok_high_water:
  "manager_ok m \<Longrightarrow> manager_ok (snd (advance_acknowledgement_high_water a n m))"
  by (simp add: manager_ok_def)

lemma windows_ok_retain:
  assumes "windows_ok ws" "retain_windows ack ws \<noteq> []"
  shows "windows_ok (retain_windows ack ws)"
  using assms(2) unfolding retain_windows_spec by (intro windows_ok_map_filter assms(1)) auto

lemma manager_ok_acknowledge: "manager_ok m \<Longrightarrow> manager_ok (snd (acknowledge a n m))"
  using manager_ok_pending[of m a]
  by (auto simp: acknowledge_def Let_def manager_ok_high_water simp del: retain_windows.simps
      split: option.splits list.splits intro!: manager_ok_store windows_ok_retain)

lemma evict_recent_spec:
  "distinct order \<Longrightarrow> evict_recent order (set order) = (drop (length order - 256) order, set (drop (length order - 256) order))"
proof (induction order rule: length_induct)
  case (1 order)
  show ?case
  proof (cases "length order > 256")
    case False
    then show ?thesis by (subst evict_recent.simps) simp
  next
    case True
    then obtain x xs where o: "order = x # xs" by (cases order) auto
    with 1(2) have "set order - {x} = set xs" by auto
    moreover have "evict_recent xs (set xs) = (drop (length xs - 256) xs, set (drop (length xs - 256) xs))"
      using 1 o by simp
    moreover have "drop (length order - 256) order = drop (length xs - 256) xs"
      using True o by (simp add: drop_Cons' Suc_diff_Suc)
    ultimately show ?thesis using True o by (subst evict_recent.simps) simp
  qed
qed

definition recent_of :: "address \<Rightarrow> confirmation_manager \<Rightarrow> fingerprint list \<times> fingerprint set" where
  "recent_of a m = (case map_of (cm_recent_inbound m) a of None \<Rightarrow> ([], {}) | Some recent \<Rightarrow> recent)"

lemma recent_of_ok: "manager_ok m \<Longrightarrow> recent_ok (recent_of a m)"
  by (auto simp: recent_of_def manager_ok_def recent_ok_def split: option.splits dest!: map_of_SomeD)

lemma recent_ok_add:
  assumes "recent_ok recent" "fp \<notin> set (fst recent)"
  shows "evict_recent (fst recent @ [fp]) (insert fp (snd recent))
      = (drop (length (fst recent) - 255) (fst recent @ [fp]), set (drop (length (fst recent) - 255) (fst recent @ [fp])))"
    and "recent_ok (evict_recent (fst recent @ [fp]) (insert fp (snd recent)))"
proof -
  have "insert fp (snd recent) = set (fst recent @ [fp])" using assms by (auto simp: recent_ok_def)
  moreover have "distinct (fst recent @ [fp])" using assms by (simp add: recent_ok_def)
  ultimately show e: "evict_recent (fst recent @ [fp]) (insert fp (snd recent))
      = (drop (length (fst recent) - 255) (fst recent @ [fp]), set (drop (length (fst recent) - 255) (fst recent @ [fp])))"
    by (simp only: evict_recent_spec) simp
  show "recent_ok (evict_recent (fst recent @ [fp]) (insert fp (snd recent)))"
    unfolding e using assms by (auto simp: recent_ok_def distinct_drop dest: in_set_dropD)
qed

text \<open>What \<open>observe_inbound\<close> does once its wire is known, with the duplicate filter named.\<close>

lemma observe_inbound_known:
  assumes "map_of (cm_wires m) a = Some wire" "manager_ok m"
  shows "\<exists>m'. observe_inbound a sequence ack payload track m =
      Inr (track \<and> (umask 28 sequence, crc32 payload) \<in> set (fst (recent_of a m)), m')
    \<and> manager_ok m' \<and> pending_of a m' = retain_windows (umask 28 ack) (pending_of a m)
    \<and> recent_of a m' = (if track \<and> (umask 28 sequence, crc32 payload) \<notin> set (fst (recent_of a m))
         then (let order = drop (length (fst (recent_of a m)) - 255) (fst (recent_of a m) @ [(umask 28 sequence, crc32 payload)])
               in (order, set order))
         else recent_of a m)"
proof -
  define fp where "fp = (umask 28 sequence, crc32 payload)"
  define w1 where "w1 = AList.update a (wire\<lparr>ew_last_client_acknowledgement := int (umask 28 ack)\<rparr>) (cm_wires m)"
  define m2 where "m2 = snd (acknowledge a (int (umask 28 ack)) (m\<lparr>cm_wires := w1\<rparr>))"
  define m3 where "m3 = m2\<lparr>cm_wires := AList.update a (wire\<lparr>ew_last_client_acknowledgement := int (umask 28 ack),
      ew_last_client_sequence := int (umask 28 sequence)\<rparr>) (cm_wires m2)\<rparr>"
  have "manager_ok (m\<lparr>cm_wires := w1\<rparr>)" using assms(2) by (simp add: manager_ok_def)
  then have ok2: "manager_ok m2" unfolding m2_def by (rule manager_ok_acknowledge)
  then have ok3: "manager_ok m3" by (simp add: m3_def manager_ok_def)
  have r2: "recent_of a m2 = recent_of a m" "recent_of a m3 = recent_of a m" by (simp_all add: m2_def m3_def recent_of_def)
  have p2: "pending_of a m2 = retain_windows (umask 28 ack) (pending_of a m)"
    unfolding m2_def pending_acknowledge by (simp add: pending_of_def)
  have p3: "pending_of a m3 = pending_of a m2" by (simp add: m3_def pending_of_def)
  have mem: "snd (recent_of a m) = set (fst (recent_of a m))"
    using recent_of_ok[OF assms(2)] by (simp add: recent_ok_def)
  have obs: "observe_inbound a sequence ack payload track m =
      (if \<not> track then Inr (False, m2)
       else if fp \<in> snd (recent_of a m3) then Inr (True, m3)
       else Inr (False, m3\<lparr>cm_recent_inbound :=
              AList.update a (evict_recent (fst (recent_of a m3) @ [fp]) (insert fp (snd (recent_of a m3)))) (cm_recent_inbound m3)\<rparr>))"
    using assms(1)
    by (auto simp: observe_inbound_def Let_def m2_def m3_def w1_def fp_def recent_of_def split: option.splits prod.splits)
  show ?thesis
  proof (cases "track \<and> fp \<notin> set (fst (recent_of a m))")
    case False
    then show ?thesis
      using obs ok2 ok3 r2 p2 p3 by (auto simp: mem fp_def[symmetric])
  next
    case True
    let ?e = "evict_recent (fst (recent_of a m) @ [fp]) (insert fp (snd (recent_of a m)))"
    let ?m = "m3\<lparr>cm_recent_inbound := AList.update a ?e (cm_recent_inbound m3)\<rparr>"
    note add = recent_ok_add[OF recent_of_ok[OF assms(2), of a] conjunct2[OF True]]
    have "manager_ok ?m"
      using ok3 add(2) set_update_subset[of a ?e "cm_recent_inbound m3"] by (auto simp: manager_ok_def)
    moreover have "recent_of a ?m = ?e" by (simp add: recent_of_def update_conv')
    moreover have "pending_of a ?m = pending_of a m3" by (simp add: pending_of_def)
    ultimately show ?thesis
      using True obs r2 p2 p3 add(1) by (auto simp: mem fp_def[symmetric] Let_def)
  qed
qed

text \<open>
  C16. The duplicate filter: an inbound packet of a known endpoint is reported as a
  duplicate exactly when its fingerprint (28-bit sequence and CRC of the payload) is among
  the remembered ones; a new one is remembered, and only the last 256 are kept.  Tracked or
  not, its acknowledgement retires windows as \<open>acknowledge\<close> does.
\<close>

theorem duplicate_filter_exact:
  assumes "map_of (cm_wires m) a = Some wire" "manager_ok m"
  shows "\<exists>m'. observe_inbound a sequence ack payload track m =
      Inr (track \<and> (umask 28 sequence, crc32 payload) \<in> set (fst (recent_of a m)), m')
    \<and> pending_of a m' = retain_windows (umask 28 ack) (pending_of a m)
    \<and> fst (recent_of a m') = (if track \<and> (umask 28 sequence, crc32 payload) \<notin> set (fst (recent_of a m))
         then drop (length (fst (recent_of a m)) - 255) (fst (recent_of a m) @ [(umask 28 sequence, crc32 payload)])
         else fst (recent_of a m))
    \<and> length (fst (recent_of a m')) \<le> 256"
  using observe_inbound_known[OF assms, of sequence ack payload track] recent_of_ok[of _ a]
  by (fastforce simp: Let_def recent_ok_def)

theorem duplicate_filter_exact_witness:
  "\<exists>m1 m2. observe_inbound (''10.0.0.5'', 3658) 7 5 [0x11] True sample_manager = Inr (False, m1)
    \<and> fst (recent_of (''10.0.0.5'', 3658) m1) = [(7, crc32 [0x11])]
    \<and> pending_of (''10.0.0.5'', 3658) m1 \<noteq> []"
proof -
  have ok: "manager_ok sample_manager"
    by (simp add: sample_manager_def register_def new_confirmation_manager_def dict_setdefault_def umask_def
        manager_ok_def windows_ok_def Let_def)
  have w: "map_of (cm_wires sample_manager) (''10.0.0.5'', 3658) = Some initial_wire_state"
    and r: "recent_of (''10.0.0.5'', 3658) sample_manager = ([], {})"
    and q: "retain_windows (umask 28 5) (pending_of (''10.0.0.5'', 3658) sample_manager) \<noteq> []"
    by (simp_all add: sample_manager_def register_def new_confirmation_manager_def dict_setdefault_def umask_def
        recent_of_def pending_of_def sequence_acked_def SEQUENCE_HALF_def Let_def)
  from duplicate_filter_exact[OF w ok, of 7 5 "[0x11]" True] r q show ?thesis
    by (auto simp: umask_def)
qed

section \<open>Every operation keeps the invariant\<close>

datatype manager_call =
    ObserveInbound address int int bytes bool
  | Register address "bytes list" int int string bool rat
  | Acknowledge address int
  | ConfirmApplication address string
  | Poll rat
  | ReplayPending address rat
  | ClearEndpoint address

definition state_of :: "'s \<Rightarrow> 'e + 'a \<times> 's \<Rightarrow> 's" where
  "state_of s r = (case r of Inl _ \<Rightarrow> s | Inr (_, s') \<Rightarrow> s')"

fun manager_after :: "confirmation_manager \<Rightarrow> manager_call \<Rightarrow> confirmation_manager" where
  "manager_after m (ObserveInbound a sequence ack payload track) = state_of m (observe_inbound a sequence ack payload track m)"
| "manager_after m (Register a records base final label app now) = snd (register a records base final label app now m)"
| "manager_after m (Acknowledge a ack) = snd (acknowledge a ack m)"
| "manager_after m (ConfirmApplication a label) = snd (confirm_application a label m)"
| "manager_after m (Poll now) = state_of m (poll now m)"
| "manager_after m (ReplayPending a now) = snd (replay_pending a now m)"
| "manager_after m (ClearEndpoint a) = clear_endpoint a m"

lemma setdefault_pending:
  "map_of (dict_setdefault a [] d) a = Some (case map_of d a of None \<Rightarrow> [] | Some ws \<Rightarrow> ws)"
  by (auto simp: map_of_setdefault split: option.splits)

lemma update_setdefault: "AList.update a v (dict_setdefault a w d) = AList.update a v d"
proof (induction d)
  case (Cons p d)
  then show ?case by (cases p) (auto simp: dict_setdefault_def)
qed (simp add: dict_setdefault_def)

lemma manager_ok_register: "manager_ok m \<Longrightarrow> manager_ok (snd (register a records base final label app now m))"
proof -
  assume ok: "manager_ok m"
  define payloads where "payloads = filter (\<lambda>record. record \<noteq> []) records"
  define pending where "pending = (case map_of (cm_pending m) a of None \<Rightarrow> [] | Some ws \<Rightarrow> ws)"
  define fin where "fin = umask 28 final"
  show ?thesis
  proof (cases "payloads = []")
    case True
    with ok show ?thesis by (simp add: register_def payloads_def)
  next
    case False
    show ?thesis
    proof (cases "find (\<lambda>e. pc_final_sequence e = fin \<and> pc_records e = payloads) pending")
      case (Some e)
      then have "map_of (cm_pending m) a \<noteq> None" by (auto simp: pending_def split: option.splits)
      then have "dict_setdefault a [] (cm_pending m) = cm_pending m" by (simp add: dict_setdefault_def)
      with ok Some False show ?thesis
        by (simp add: register_def payloads_def[symmetric] fin_def[symmetric] setdefault_pending pending_def[symmetric] Let_def)
    next
      case None
      let ?w = "\<lparr>pc_label = label, pc_records = payloads, pc_base_sequence = umask 28 base, pc_final_sequence = fin,
          pc_retry = begin_retry (cm_retry_policy m) now, pc_application_confirmation = app,
          pc_transport_acknowledged = False, pc_exhausted_logged = False\<rparr>"
      have "pending = [] \<or> windows_ok pending"
        using manager_ok_pending[OF ok, of a] by (auto simp: pending_def split: option.splits)
      moreover have "\<forall>e \<in> set pending. \<not> (pc_final_sequence e = fin \<and> pc_records e = payloads)"
        using None by (simp add: find_None_iff)
      ultimately have "windows_ok (pending @ [?w])"
        using False by (auto simp: windows_ok_def payloads_def)
      from manager_ok_update[OF ok this, of a] None False show ?thesis
        by (simp add: register_def payloads_def[symmetric] fin_def[symmetric] setdefault_pending pending_def[symmetric]
            update_setdefault Let_def)
    qed
  qed
qed

lemma windows_ok_map:
  assumes "windows_ok ws" "\<And>w. window_key (f w) = window_key w"
  shows "windows_ok (map f ws)"
proof -
  have "pc_final_sequence (f w) = pc_final_sequence w \<and> pc_records (f w) = pc_records w" for w
    using assms(2)[of w] by (simp add: window_key_def)
  with windows_ok_map_filter[OF assms(1) this, of "\<lambda>_. True"] assms(1) show ?thesis
    by (simp add: windows_ok_def)
qed

lemma manager_ok_poll: "manager_ok m \<Longrightarrow> manager_ok (state_of m (poll now m))"
proof -
  assume ok: "manager_ok m"
  obtain replies m' where p: "poll now m = Inr (replies, m')"
    and m': "cm_pending m' = map (\<lambda>(a, ws). (a, map (\<lambda>w. polled_window w now) ws))
          (filter (\<lambda>(a, _). map_of (cm_wires m) a \<noteq> None) (cm_pending m))" "cm_recent_inbound m' = cm_recent_inbound m"
    using poll_total[of now m] by blast
  have polled: "windows_ok (map (\<lambda>w. polled_window w now) ws)" if "windows_ok ws" for ws
    using that polled_window_key(1) by (rule windows_ok_map)
  have keys: "map fst (cm_pending m') = map fst (filter (\<lambda>(a, _). map_of (cm_wires m) a \<noteq> None) (cm_pending m))"
    unfolding m' by (auto simp: comp_def split_def)
  have "distinct (map fst (cm_pending m'))"
    unfolding keys using ok by (simp add: manager_ok_def distinct_map_filter)
  moreover have "\<forall>(a, ws) \<in> set (cm_pending m'). windows_ok ws"
    using ok polled by (auto simp: manager_ok_def m')
  ultimately have "manager_ok m'" using ok by (simp add: manager_ok_def m'(2))
  with p show ?thesis by (simp add: state_of_def)
qed

lemma replay_window_key: "window_key (replay_window policy now w) = window_key w"
  by (simp add: replay_window_def window_key_def)

lemma manager_ok_replay: "manager_ok m \<Longrightarrow> manager_ok (snd (replay_pending a now m))"
proof -
  assume ok: "manager_ok m"
  show ?thesis
  proof (cases "map_of (cm_pending m) a")
    case None
    with ok show ?thesis by (simp add: replay_pending_def Let_def split: option.splits)
  next
    case (Some ws)
    from windows_ok_map[OF manager_ok_pending[OF ok Some] replay_window_key]
    have "manager_ok (m\<lparr>cm_pending := AList.update a (map (replay_window (cm_retry_policy m) now) ws) (cm_pending m)\<rparr>)"
      by (rule manager_ok_update[OF ok])
    with ok Some show ?thesis by (simp add: replay_pending_def Let_def split: option.splits)
  qed
qed

lemma manager_ok_confirm: "manager_ok m \<Longrightarrow> manager_ok (snd (confirm_application a label m))"
proof -
  assume ok: "manager_ok m"
  have "windows_ok (filter P ws)" if "windows_ok ws" "filter P ws \<noteq> []" for P ws
    using windows_ok_map_filter[OF that(1), of id P] that(2) by simp
  with manager_ok_pending[OF ok, of a] ok show ?thesis
    by (auto simp: confirm_application_def Let_def simp del: filter.simps
        split: option.splits list.splits intro!: manager_ok_store)
qed

lemma manager_ok_clear: "manager_ok m \<Longrightarrow> manager_ok (clear_endpoint a m)"
  using set_delete_subset[of a "cm_pending m"] set_delete_subset[of a "cm_recent_inbound m"]
  by (auto simp: manager_ok_def clear_endpoint_def distinct_delete)

lemma manager_ok_observe: "manager_ok m \<Longrightarrow> manager_ok (state_of m (observe_inbound a sequence ack payload track m))"
proof (cases "map_of (cm_wires m) a")
  case None
  assume "manager_ok m"
  with None show ?thesis by (simp add: state_of_def observe_inbound_def)
next
  case (Some wire)
  assume "manager_ok m"
  from observe_inbound_known[OF Some this, of sequence ack payload track] show ?thesis
    by (auto simp: state_of_def)
qed

lemma manager_ok_after: "manager_ok m \<Longrightarrow> manager_ok (manager_after m c)"
  by (cases c) (simp_all add: manager_ok_observe manager_ok_register manager_ok_acknowledge manager_ok_confirm
      manager_ok_poll manager_ok_replay manager_ok_clear)

text \<open>
  C15. From a new manager, after any operations in any order: an address that has pending
  windows has no two with the same final sequence and records, every window holds at least
  one record and no empty one, and the duplicate filter of an address holds at most 256
  distinct fingerprints, its set being exactly those of its queue.
\<close>

theorem manager_invariant:
  "manager_ok (foldl manager_after (new_confirmation_manager wires policy) calls)"
proof -
  have "manager_ok m \<Longrightarrow> manager_ok (foldl manager_after m calls)" for m
    by (induction calls arbitrary: m) (simp_all add: manager_ok_after)
  moreover have "manager_ok (new_confirmation_manager wires policy)"
    by (simp add: manager_ok_def new_confirmation_manager_def)
  ultimately show ?thesis .
qed

text \<open>
  C17. When a client repeats a packet, every record of its address's unacknowledged windows
  is sent again at once, in order and nothing else; and after that none of these windows is
  exhausted, so the periodic retries go on, if the manager's policy is a valid one.
\<close>

theorem replay_revives:
  assumes "make_retry_policy initial maximum retries timeout = Inr (cm_retry_policy m)"
    and "map_of (cm_wires m) a \<noteq> None"
  shows "fst (replay_pending a now m)
      = map (\<lambda>r. (r, a)) (concat (map pc_records (filter (\<lambda>w. \<not> pc_transport_acknowledged w) (pending_of a m))))
    \<and> (fst (replay_pending a now m) \<noteq> [] \<longrightarrow>
        (\<forall>w \<in> set (pending_of a (snd (replay_pending a now m))). pc_transport_acknowledged w \<or> \<not> exhausted (pc_retry w) now))"
proof
  show first: "fst (replay_pending a now m)
      = map (\<lambda>r. (r, a)) (concat (map pc_records (filter (\<lambda>w. \<not> pc_transport_acknowledged w) (pending_of a m))))"
    using assms(2) by (auto simp: replay_pending_def pending_of_def Let_def map_concat comp_def split: option.splits)
  from assms(1) have policy: "cm_retry_policy m = \<lparr>ry_initial_delay_seconds = initial, ry_maximum_delay_seconds = maximum,
      ry_maximum_retries = retries, ry_timeout_seconds = timeout\<rparr>" "1 \<le> retries" "0 < timeout"
    by (auto simp: make_retry_policy_def split: if_splits)
  have live: "pc_transport_acknowledged (replay_window (cm_retry_policy m) now w)
      \<or> \<not> exhausted (pc_retry (replay_window (cm_retry_policy m) now w)) now" for w
    using policy(2,3) by (simp add: replay_window_def exhausted_def begin_retry_def defer_from_def policy(1))
  have "pending_of a (snd (replay_pending a now m)) = map (replay_window (cm_retry_policy m) now) (pending_of a m)"
    if "fst (replay_pending a now m) \<noteq> []"
    using that assms(2) by (auto simp: replay_pending_def pending_of_def update_conv' Let_def split: option.splits if_splits)
  with live show "fst (replay_pending a now m) \<noteq> [] \<longrightarrow>
        (\<forall>w \<in> set (pending_of a (snd (replay_pending a now m))). pc_transport_acknowledged w \<or> \<not> exhausted (pc_retry w) now)"
    by auto
qed

theorem replay_revives_witness:
  "fst (replay_pending (''10.0.0.5'', 3658) 99 sample_manager) = [([1, 2], (''10.0.0.5'', 3658))]"
proof -
  have p: "make_retry_policy 1 2 2 45 = Inr (cm_retry_policy sample_manager)"
    and w: "map_of (cm_wires sample_manager) (''10.0.0.5'', 3658) \<noteq> None"
    and q: "map pc_records (filter (\<lambda>w. \<not> pc_transport_acknowledged w) (pending_of (''10.0.0.5'', 3658) sample_manager)) = [[[1, 2]]]"
    by (simp_all add: sample_manager_def register_def new_confirmation_manager_def dict_setdefault_def umask_def
        pending_of_def make_retry_policy_def sample_policy_def Let_def)
  from replay_revives[OF p w, of 99] q show ?thesis by simp
qed

end
