(* ===== verification/WorldState.thy ===== *)
theory WorldState
  imports WireState SessionCodec
begin

text \<open>
  \<open>server/carbon/rebroadcaster/world_state.py\<close>: the destination-local virtual sequence, the
  smoothing of the client's clock samples and the twelve-byte timing footer of world-state
  datagrams.  The clock of the host is an argument; log lines are not modelled, the flags
  and ticks that throttle them are.  The lemmas bound the sequence and the averages and
  show that every batch is well formed.
\<close>

section \<open>Sequence and clock samples\<close>

definition VIRTUAL_SEQUENCE_FIRST :: int where
  "VIRTUAL_SEQUENCE_FIRST = 0x80"

definition VIRTUAL_SEQUENCE_LAST :: int where
  "VIRTUAL_SEQUENCE_LAST = 0xFF"

definition FOOTER_DELAY_MS :: nat where
  "FOOTER_DELAY_MS = 0xFA"

definition MAX_PEER_LAG_MS :: nat where
  "MAX_PEER_LAG_MS = 0xFA"

definition reset_race_state :: "endpoint_wire_state \<Rightarrow> endpoint_wire_state" where
  "reset_race_state wire =
     wire\<lparr>ew_next_server_virtual_sequence := VIRTUAL_SEQUENCE_FIRST,
          ew_last_world_state_footer_tick_ms := 0,
          ew_world_state_log_not_before := 0,
          ew_world_state_footer_diagnostic_logged := False\<rparr>"

definition take_virtual_sequence :: "endpoint_wire_state \<Rightarrow> int \<times> endpoint_wire_state" where
  "take_virtual_sequence wire =
     (let sequence = ew_next_server_virtual_sequence wire;
          sequence = (if \<not> (VIRTUAL_SEQUENCE_FIRST \<le> sequence \<and> sequence \<le> VIRTUAL_SEQUENCE_LAST)
                      then VIRTUAL_SEQUENCE_FIRST else sequence)
      in (sequence, wire\<lparr>ew_next_server_virtual_sequence :=
            (if sequence = VIRTUAL_SEQUENCE_LAST then VIRTUAL_SEQUENCE_FIRST else sequence + 1)\<rparr>))"

text \<open>A signed reading of sixteen bits: the test \<open>sample & 0x8000\<close> of a value below 2^16.\<close>

definition signed16 :: "nat \<Rightarrow> int" where
  "signed16 n = (if n \<ge> 0x8000 then int n - 0x10000 else int n)"

definition observe_footer :: "endpoint_wire_state \<Rightarrow> bytes \<Rightarrow> int \<Rightarrow> endpoint_wire_state" where
  "observe_footer wire client_footer received_tick_ms =
     (if length client_footer < 8 then wire
      else
        let received_tick = umask 32 received_tick_ms;
            previous_received_tick = umask 32 (ew_world_footer_received_tick_ms wire);
            wire = wire\<lparr>ew_world_footer_observation_count := ew_world_footer_observation_count wire + 1,
                        ew_last_client_footer_received_tick_ms := int received_tick,
                        ew_world_footer_remote_ack_tick_ms := int (be_nat (slice 4 8 client_footer)),
                        ew_world_footer_received_tick_ms := int received_tick\<rparr>;
            peer_send_tick = be_nat (slice 0 4 client_footer);
            sample = signed16 (umask 16 (int (received_tick mod 0x10000) - int (peer_send_tick mod 0x10000)))
        in if sample < 0 \<or> sample \<ge> 0x09C5 then wire
           else
             let gap = umask 32 (int received_tick - int previous_received_tick);
                 receive_gap = (if gap \<ge> 0x80000000 then 10 else max 10 (int gap))
             in if receive_gap < 0x400 then
                  let old_rtt = max 0 (ew_world_footer_rtt_avg_ms wire);
                      old_jitter = max 0 (ew_world_footer_jitter_avg_ms wire);
                      jitter_sample = \<bar>sample - old_rtt\<bar>
                  in wire\<lparr>ew_world_footer_jitter_avg_ms :=
                            (old_jitter * (0x400 - receive_gap) + jitter_sample * receive_gap) div 0x400,
                          ew_world_footer_rtt_avg_ms :=
                            (old_rtt * (0x400 - receive_gap) + sample * receive_gap) div 0x400\<rparr>
                else wire\<lparr>ew_world_footer_rtt_avg_ms := sample, ew_world_footer_jitter_avg_ms := 0\<rparr>)"

section \<open>Footer\<close>

definition remote_tick_of :: "endpoint_wire_state \<Rightarrow> nat \<Rightarrow> nat \<times> nat \<times> nat" where
  "remote_tick_of wire current =
     (let estimated_remote_tick =
            (if ew_world_footer_received_tick_ms wire \<noteq> 0 then
               let elapsed = umask 32 (int current - ew_world_footer_received_tick_ms wire)
               in umask 32 (ew_world_footer_remote_ack_tick_ms wire + int elapsed)
             else current);
          latest_client_tick =
            (if length (ew_last_client_footer wire) \<ge> 8 then be_nat (slice 4 8 (ew_last_client_footer wire)) else 0);
          latest_received_tick = umask 32 (ew_last_client_footer_received_tick_ms wire);
          remote_tick =
            (if latest_client_tick \<noteq> 0 \<and> latest_received_tick \<noteq> 0 then
               let elapsed = umask 32 (int current - int latest_received_tick);
                   latest_elapsed = (if elapsed \<ge> 0x80000000 then 0 else elapsed)
               in umask 32 (int (latest_client_tick + latest_elapsed))
             else estimated_remote_tick)
      in (remote_tick, estimated_remote_tick, latest_client_tick))"

text \<open>The two throttled log lines leave a flag and a tick behind.\<close>

definition note_peer_lag :: "endpoint_wire_state \<Rightarrow> nat \<Rightarrow> nat \<Rightarrow> nat \<Rightarrow> endpoint_wire_state" where
  "note_peer_lag wire remote_tick estimated_remote_tick latest_client_tick =
     (let peer_lag = umask 32 (int remote_tick - int estimated_remote_tick)
      in if latest_client_tick \<noteq> 0 \<and> MAX_PEER_LAG_MS < peer_lag \<and> peer_lag < 0x80000000
            \<and> \<not> ew_world_footer_lag_repair_logged wire
         then wire\<lparr>ew_world_footer_lag_repair_logged := True\<rparr> else wire)"

definition note_footer_send :: "endpoint_wire_state \<Rightarrow> nat \<Rightarrow> endpoint_wire_state" where
  "note_footer_send wire current =
     (let send_log_gap = umask 32 (int current - ew_world_footer_send_log_tick_ms wire)
      in if ew_world_footer_send_log_tick_ms wire = 0 \<or> send_log_gap \<ge> 2000
         then wire\<lparr>ew_world_footer_send_log_tick_ms := int current\<rparr> else wire)"

definition build_footer :: "endpoint_wire_state \<Rightarrow> int \<Rightarrow> bytes \<times> endpoint_wire_state" where
  "build_footer wire local_now =
     (let current = umask 32 local_now;
          (remote_tick, estimated_remote_tick, latest_client_tick) = remote_tick_of wire current;
          wire = note_footer_send (note_peer_lag wire remote_tick estimated_remote_tick latest_client_tick) current;
          latency = (max 0 (ew_world_footer_rtt_avg_ms wire) + max 0 (ew_world_footer_jitter_avg_ms wire) + 1) div 2
      in (to_be 4 remote_tick @ to_be 4 current @ to_be 2 (nat (min latency 0xFFFF)) @ [0x00, 0x00], wire))"

section \<open>Batches\<close>

record virtual_world_batch =
  vb_datagram :: tunnel_datagram
  vb_sequences :: "int list"

definition footer_due :: "endpoint_wire_state \<Rightarrow> nat \<Rightarrow> bool" where
  "footer_due wire local_now \<longleftrightarrow>
     (let last_footer_tick = umask 32 (ew_last_world_state_footer_tick_ms wire)
      in last_footer_tick = 0 \<or> umask 32 (int local_now - int last_footer_tick) > FOOTER_DELAY_MS)"

definition virtual_body :: "endpoint_wire_state \<Rightarrow> bytes \<Rightarrow> nat \<Rightarrow> bytes \<times> endpoint_wire_state" where
  "virtual_body wire logical local_now =
     (if footer_due wire local_now then
        let (footer, wire) = build_footer wire (int local_now)
        in (logical @ footer @ [0x45],
            wire\<lparr>ew_world_state_footer_diagnostic_logged := True,
                 ew_last_world_state_footer_tick_ms := int local_now\<rparr>)
      else (logical @ [0x05], wire))"

definition build_virtual_packet ::
  "endpoint_wire_state \<Rightarrow> bytes \<Rightarrow> int \<Rightarrow> session_codec_error + (tunnel_packet \<times> int) \<times> endpoint_wire_state" where
  "build_virtual_packet wire logical clock =
     (let (sequence, wire) = take_virtual_sequence wire;
          (body, wire) = virtual_body wire logical (umask 32 clock)
      in rbind (encode_active sequence (int (umask 28 (ew_last_client_sequence wire))) body) (\<lambda>payload.
           Inr ((\<lparr>tp_channel = 1, tp_payload = payload\<rparr>, sequence), wire)))"

text \<open>One clock reading per body, in the order of the loop.\<close>

fun build_virtual_packets ::
  "endpoint_wire_state \<Rightarrow> (bytes \<times> int) list \<Rightarrow> session_codec_error + (tunnel_packet \<times> int) list \<times> endpoint_wire_state" where
  "build_virtual_packets wire [] = Inr ([], wire)"
| "build_virtual_packets wire ((logical, clock) # rest) =
     rbind (build_virtual_packet wire logical clock) (\<lambda>(packet, wire1).
     rbind (build_virtual_packets wire1 rest) (\<lambda>(packets, wire2). Inr (packet # packets, wire2)))"

definition build_virtual_datagram ::
  "endpoint_wire_state \<Rightarrow> bytes list \<Rightarrow> (nat \<Rightarrow> int) \<Rightarrow> session_codec_error + virtual_world_batch \<times> endpoint_wire_state" where
  "build_virtual_datagram wire bodies clock_ms =
     rbind (build_virtual_packets wire (zip bodies (map clock_ms [0..<length bodies]))) (\<lambda>(packets, wire').
       Inr (\<lparr>vb_datagram = \<lparr>td_offset_words = ew_next_offset_words wire', td_packets = map fst packets\<rparr>,
             vb_sequences = map snd packets\<rparr>, wire'))"

section \<open>The virtual sequence\<close>

lemmas virtual_bounds = VIRTUAL_SEQUENCE_FIRST_def VIRTUAL_SEQUENCE_LAST_def

text \<open>The sequence the next datagram will carry: a value outside the window restarts it.\<close>

definition virtual_position :: "endpoint_wire_state \<Rightarrow> int" where
  "virtual_position wire =
     (if VIRTUAL_SEQUENCE_FIRST \<le> ew_next_server_virtual_sequence wire
         \<and> ew_next_server_virtual_sequence wire \<le> VIRTUAL_SEQUENCE_LAST
      then ew_next_server_virtual_sequence wire else VIRTUAL_SEQUENCE_FIRST)"

lemma take_virtual_sequence_spec:
  assumes "take_virtual_sequence wire = (sequence, wire')"
  shows "sequence = virtual_position wire \<and> 0x80 \<le> sequence \<and> sequence \<le> 0xFF
    \<and> virtual_position wire' = 0x80 + (sequence - 0x80 + 1) mod 0x80
    \<and> wire' = wire\<lparr>ew_next_server_virtual_sequence := virtual_position wire'\<rparr>"
proof -
  let ?s = "virtual_position wire"
  have r: "0x80 \<le> ?s \<and> ?s \<le> 0xFF" by (auto simp: virtual_position_def virtual_bounds)
  have e: "sequence = ?s" "wire' = wire\<lparr>ew_next_server_virtual_sequence := (if ?s = 0xFF then 0x80 else ?s + 1)\<rparr>"
    using assms by (auto simp: take_virtual_sequence_def virtual_position_def virtual_bounds Let_def)
  have "(if ?s = 0xFF then 0x80 else ?s + 1) = 0x80 + (?s - 0x80 + 1) mod 0x80"
    using r by (cases "?s = 0xFF") (simp_all add: mod_pos_pos_trivial)
  moreover have "virtual_position wire' = (if ?s = 0xFF then 0x80 else ?s + 1)"
    using e r by (auto simp: virtual_position_def virtual_bounds)
  ultimately show ?thesis using e r by simp
qed

section \<open>The averages\<close>

definition averages_ok :: "endpoint_wire_state \<Rightarrow> bool" where
  "averages_ok wire \<longleftrightarrow> 0 \<le> ew_world_footer_rtt_avg_ms wire \<and> ew_world_footer_rtt_avg_ms wire \<le> 0x9C4
     \<and> 0 \<le> ew_world_footer_jitter_avg_ms wire \<and> ew_world_footer_jitter_avg_ms wire \<le> 0x9C4"

lemma weighted_average_bounds:
  fixes x y g :: int
  assumes "0 \<le> x" "x \<le> b" "0 \<le> y" "y \<le> b" "0 \<le> g" "g \<le> 0x400"
  shows "0 \<le> (x * (0x400 - g) + y * g) div 0x400 \<and> (x * (0x400 - g) + y * g) div 0x400 \<le> b"
proof -
  have "x * (0x400 - g) \<le> b * (0x400 - g)" "y * g \<le> b * g"
    using assms by (simp_all add: mult_right_mono)
  then have "x * (0x400 - g) + y * g \<le> b * 0x400" by (simp add: algebra_simps)
  then have "(x * (0x400 - g) + y * g) div 0x400 \<le> (b * 0x400) div 0x400" by (rule zdiv_mono1) simp
  moreover have "0 \<le> x * (0x400 - g) + y * g" using assms by simp
  ultimately show ?thesis by simp
qed

text \<open>
  The smoothed round-trip and jitter values stay between 0 and 2500 ms whatever footers
  the client sends and whenever they arrive: samples outside the range are ignored, and the
  others move the averages by a weighted mean, or replace them after a gap of 1024 ms.
\<close>

theorem averages_bounded:
  assumes "averages_ok wire"
  shows "averages_ok (foldl (\<lambda>w (footer, tick). observe_footer w footer tick) wire observations)"
proof -
  have step: "averages_ok (observe_footer w footer tick)" if ok: "averages_ok w" for w footer tick
  proof -
    define sample where "sample = signed16 (umask 16 (int (umask 32 tick mod 0x10000) - int (be_nat (slice 0 4 footer) mod 0x10000)))"
    define gap where "gap = umask 32 (int (umask 32 tick) - int (umask 32 (ew_world_footer_received_tick_ms w)))"
    define g where "g = (if gap \<ge> 0x80000000 then 10 else max 10 (int gap))"
    have g: "0 \<le> g" by (auto simp: g_def)
    consider "length footer < 8" | "8 \<le> length footer" "sample < 0 \<or> 0x9C5 \<le> sample"
      | "8 \<le> length footer" "0 \<le> sample" "sample < 0x9C5" by linarith
    then show ?thesis
    proof cases
      case 3
      have j: "0 \<le> \<bar>sample - max 0 (ew_world_footer_rtt_avg_ms w)\<bar>" "\<bar>sample - max 0 (ew_world_footer_rtt_avg_ms w)\<bar> \<le> 0x9C4"
        using 3 ok by (auto simp: averages_ok_def)
      have old: "0 \<le> max 0 (ew_world_footer_rtt_avg_ms w)" "max 0 (ew_world_footer_rtt_avg_ms w) \<le> 0x9C4"
        "0 \<le> max 0 (ew_world_footer_jitter_avg_ms w)" "max 0 (ew_world_footer_jitter_avg_ms w) \<le> 0x9C4"
        using ok by (auto simp: averages_ok_def)
      show ?thesis
      proof (cases "g < 0x400")
        case True
        then have "g \<le> 0x400" by simp
        from weighted_average_bounds[OF old(3,4) j g this] weighted_average_bounds[OF old(1,2) _ _ g this, of sample] 3 True
        show ?thesis
          unfolding observe_footer_def Let_def sample_def[symmetric] gap_def[symmetric] g_def[symmetric]
          by (simp add: averages_ok_def not_less sample_def[symmetric] gap_def[symmetric] g_def[symmetric])
      next
        case False
        with 3 show ?thesis
          unfolding observe_footer_def Let_def sample_def[symmetric] gap_def[symmetric] g_def[symmetric]
          by (simp add: averages_ok_def)
      qed
    qed (use ok in \<open>auto simp: observe_footer_def averages_ok_def Let_def sample_def\<close>)
  qed
  show ?thesis using assms
    by (induction observations arbitrary: wire) (auto simp: step)
qed

theorem averages_bounded_witness:
  "averages_ok (foldl (\<lambda>w (footer, tick). observe_footer w footer tick) initial_wire_state [(replicate 12 0, 100), ([1], 7)])"
proof -
  have "averages_ok initial_wire_state" by (simp add: averages_ok_def initial_wire_state_def)
  from averages_bounded[OF this] show ?thesis by blast
qed

section \<open>What a footer says\<close>

lemma note_keeps [simp]:
  "ew_world_footer_rtt_avg_ms (note_peer_lag w r e l) = ew_world_footer_rtt_avg_ms w"
  "ew_world_footer_jitter_avg_ms (note_peer_lag w r e l) = ew_world_footer_jitter_avg_ms w"
  "ew_last_client_sequence (note_peer_lag w r e l) = ew_last_client_sequence w"
  "ew_next_offset_words (note_peer_lag w r e l) = ew_next_offset_words w"
  "ew_next_server_virtual_sequence (note_peer_lag w r e l) = ew_next_server_virtual_sequence w"
  "ew_world_footer_rtt_avg_ms (note_footer_send w c) = ew_world_footer_rtt_avg_ms w"
  "ew_world_footer_jitter_avg_ms (note_footer_send w c) = ew_world_footer_jitter_avg_ms w"
  "ew_last_client_sequence (note_footer_send w c) = ew_last_client_sequence w"
  "ew_next_offset_words (note_footer_send w c) = ew_next_offset_words w"
  "ew_next_server_virtual_sequence (note_footer_send w c) = ew_next_server_virtual_sequence w"
  by (simp_all add: note_peer_lag_def note_footer_send_def Let_def)

lemma build_footer_bytes:
  "fst (build_footer wire now) = to_be 4 (fst (remote_tick_of wire (umask 32 now))) @ to_be 4 (umask 32 now)
     @ to_be 2 (nat (min ((max 0 (ew_world_footer_rtt_avg_ms wire) + max 0 (ew_world_footer_jitter_avg_ms wire) + 1) div 2) 0xFFFF))
     @ [0, 0]"
  by (simp add: build_footer_def Let_def split: prod.splits)

lemma build_footer_keeps:
  "ew_last_client_sequence (snd (build_footer wire now)) = ew_last_client_sequence wire"
  "ew_next_offset_words (snd (build_footer wire now)) = ew_next_offset_words wire"
  "ew_next_server_virtual_sequence (snd (build_footer wire now)) = ew_next_server_virtual_sequence wire"
  by (simp_all add: build_footer_def Let_def split: prod.splits)

lemma length_build_footer: "length (fst (build_footer wire now)) = 12"
  by (simp add: build_footer_bytes)

text \<open>The anchors that observing a footer leaves behind.\<close>

lemma observe_footer_anchors:
  assumes "8 \<le> length f"
  shows "ew_world_footer_received_tick_ms (observe_footer wire f t) = int (umask 32 t)
    \<and> ew_last_client_footer_received_tick_ms (observe_footer wire f t) = int (umask 32 t)
    \<and> ew_world_footer_remote_ack_tick_ms (observe_footer wire f t) = int (be_nat (slice 4 8 f))
    \<and> ew_last_client_footer (observe_footer wire f t) = ew_last_client_footer wire"
  using assms by (simp add: observe_footer_def Let_def)

text \<open>
  The clock echo: once a client footer was observed (and kept as the latest one), any
  footer sent less than 2^31 ms later carries the client's own tick advanced by exactly the
  time that has passed, and the server's current tick, both modulo 2^32, and a latency that
  fits its two bytes.
\<close>

theorem footer_echoes_client_clock:
  assumes "8 \<le> length f" "ew_last_client_footer wire = f" "umask 32 t \<noteq> 0" "0 \<le> elapsed" "elapsed < 2 ^ 31"
  defines "footer \<equiv> fst (build_footer (observe_footer wire f t) (t + elapsed))"
  shows "be_nat (slice 0 4 footer) = umask 32 (int (be_nat (slice 4 8 f)) + elapsed)
    \<and> be_nat (slice 4 8 footer) = umask 32 (t + elapsed)
    \<and> be_nat (slice 8 10 footer) \<le> 0xFFFF \<and> length footer = 12"
proof -
  let ?w = "observe_footer wire f t"
  note anchors = observe_footer_anchors[OF assms(1), of wire t]
  have e: "umask 32 (int (umask 32 (t + elapsed)) - int (umask 32 t)) = umask 32 elapsed"
    by (simp add: umask_diff)
  have e31: "umask 32 elapsed = nat elapsed" using assms(4,5) by (intro umask_small) simp_all
  have half: "\<not> 2147483648 \<le> nat elapsed" using assms(5) by simp
  have remote: "fst (remote_tick_of ?w (umask 32 (t + elapsed))) = umask 32 (int (be_nat (slice 4 8 f)) + elapsed)"
    using anchors assms(2-5) by (simp add: remote_tick_of_def Let_def e e31 half umask_add_right)
  have b: "slice 0 4 footer = to_be 4 (umask 32 (int (be_nat (slice 4 8 f)) + elapsed))" "slice 4 8 footer = to_be 4 (umask 32 (t + elapsed))"
    unfolding footer_def build_footer_bytes remote by (simp_all add: slice_def)
  have l: "be_nat (slice 8 10 footer) < 256 ^ length (slice 8 10 footer)" by (rule be_nat_less)
  have len: "length footer = 12" by (simp add: footer_def length_build_footer)
  have m: "umask 32 x mod 256 ^ 4 = umask 32 x" for x
    using umask_less[of 32 x] by simp
  from l show ?thesis by (simp add: b len m[simplified])
qed

theorem footer_echoes_client_clock_witness:
  "be_nat (slice 0 4 (fst (build_footer (observe_footer (initial_wire_state\<lparr>ew_last_client_footer := [0, 0, 0, 90, 0, 0, 1, 0]\<rparr>)
      [0, 0, 0, 90, 0, 0, 1, 0] 100) (100 + 44)))) = 300"
  using footer_echoes_client_clock[of "[0, 0, 0, 90, 0, 0, 1, 0]" "initial_wire_state\<lparr>ew_last_client_footer := [0, 0, 0, 90, 0, 0, 1, 0]\<rparr>" 100 44]
  by (simp add: umask_def slice_def be_nat_def)

section \<open>Batches are well formed\<close>

definition virtual_record :: "nat \<Rightarrow> bytes \<times> int \<Rightarrow> tunnel_packet \<Rightarrow> bool" where
  "virtual_record ack = (\<lambda>(logical, sequence) packet. tp_channel packet = 1
     \<and> (\<exists>suffix. tp_payload packet = to_be 4 (nat sequence) @ to_be 4 ack @ logical @ suffix
          \<and> (suffix = [0x05] \<or> (\<exists>footer. length footer = 12 \<and> suffix = footer @ [0x45]))))"

lemma virtual_body_spec:
  assumes "virtual_body wire logical now = (body, wire')"
  shows "(body = logical @ [0x05] \<and> \<not> footer_due wire now
      \<or> (\<exists>footer. length footer = 12 \<and> body = logical @ footer @ [0x45]
           \<and> footer_due wire now \<and> ew_last_world_state_footer_tick_ms wire' = int now))
    \<and> ew_last_client_sequence wire' = ew_last_client_sequence wire \<and> ew_next_offset_words wire' = ew_next_offset_words wire
    \<and> ew_next_server_virtual_sequence wire' = ew_next_server_virtual_sequence wire"
proof (cases "footer_due wire now")
  case True
  define f where "f = fst (build_footer wire (int now))"
  define w3 where "w3 = snd (build_footer wire (int now))"
  have bf: "build_footer wire (int now) = (f, w3)" by (simp add: f_def w3_def)
  have l: "length f = 12" by (simp add: f_def length_build_footer)
  have k: "ew_last_client_sequence w3 = ew_last_client_sequence wire" "ew_next_offset_words w3 = ew_next_offset_words wire"
    "ew_next_server_virtual_sequence w3 = ew_next_server_virtual_sequence wire"
    by (simp_all add: w3_def build_footer_keeps)
  from assms True have e: "body = logical @ f @ [0x45]" and
    w: "wire' = w3\<lparr>ew_world_state_footer_diagnostic_logged := True, ew_last_world_state_footer_tick_ms := int now\<rparr>"
    by (simp_all add: virtual_body_def bf)
  show ?thesis using True l by (auto simp: e w k)
next
  case False
  with assms show ?thesis by (simp add: virtual_body_def)
qed

lemma build_virtual_packet_ok:
  "\<exists>packet wire'. build_virtual_packet wire logical clock = Inr ((packet, virtual_position wire), wire')
     \<and> virtual_record (umask 28 (ew_last_client_sequence wire)) (logical, virtual_position wire) packet
     \<and> virtual_position wire' = 0x80 + (virtual_position wire - 0x80 + 1) mod 0x80
     \<and> ew_last_client_sequence wire' = ew_last_client_sequence wire
     \<and> ew_next_offset_words wire' = ew_next_offset_words wire"
proof -
  obtain sequence w1 where t: "take_virtual_sequence wire = (sequence, w1)" by fastforce
  obtain body w2 where b: "virtual_body w1 logical (umask 32 clock) = (body, w2)" by fastforce
  note ts = take_virtual_sequence_spec[OF t] and bs = virtual_body_spec[OF b]
  define pos where "pos = virtual_position w1"
  from ts have s: "sequence = virtual_position wire" "0x80 \<le> sequence" "sequence \<le> 0xFF" "pos = 0x80 + (sequence - 0x80 + 1) mod 0x80"
    unfolding pos_def by blast+
  have w1: "w1 = wire\<lparr>ew_next_server_virtual_sequence := pos\<rparr>" using ts unfolding pos_def by blast
  have k1: "ew_last_client_sequence w1 = ew_last_client_sequence wire" "ew_next_offset_words w1 = ew_next_offset_words wire"
    by (simp_all add: w1)
  define ack where "ack = umask 28 (ew_last_client_sequence wire)"
  have ack: "ack < 2 ^ 32" using umask_less[of 28 "ew_last_client_sequence wire"] by (simp add: ack_def)
  have k2: "umask 28 (ew_last_client_sequence w2) = ack" using bs k1 by (simp add: ack_def)
  have "body \<noteq> []" using bs by auto
  then have enc: "encode_active sequence (int ack) body = Inr (to_be 4 (nat sequence) @ to_be 4 ack @ body)"
    using s ack by (simp add: encode_active_Inr)
  have step: "build_virtual_packet wire logical clock
      = Inr ((\<lparr>tp_channel = 1, tp_payload = to_be 4 (nat sequence) @ to_be 4 ack @ body\<rparr>, sequence), w2)"
    by (simp add: build_virtual_packet_def t b k2 enc)
  have "virtual_position w2 = pos" using bs by (simp add: pos_def virtual_position_def)
  moreover have "virtual_record ack (logical, sequence) \<lparr>tp_channel = 1, tp_payload = to_be 4 (nat sequence) @ to_be 4 ack @ body\<rparr>"
    using bs by (auto simp: virtual_record_def)
  ultimately show ?thesis
    using step bs k1 s by (simp add: ack_def)
qed

lemma build_virtual_packets_ok:
  "\<exists>packets wire'. build_virtual_packets wire items = Inr (packets, wire')
     \<and> map snd packets = map (\<lambda>i. 0x80 + (virtual_position wire - 0x80 + int i) mod 0x80) [0..<length items]
     \<and> list_all2 (virtual_record (umask 28 (ew_last_client_sequence wire))) (zip (map fst items) (map snd packets)) (map fst packets)
     \<and> ew_next_offset_words wire' = ew_next_offset_words wire"
proof (induction items arbitrary: wire)
  case Nil
  then show ?case by simp
next
  case (Cons item items)
  obtain logical clock where item: "item = (logical, clock)" by fastforce
  obtain packet w1 where p: "build_virtual_packet wire logical clock = Inr ((packet, virtual_position wire), w1)"
    "virtual_record (umask 28 (ew_last_client_sequence wire)) (logical, virtual_position wire) packet"
    "virtual_position w1 = 0x80 + (virtual_position wire - 0x80 + 1) mod 0x80"
    "ew_last_client_sequence w1 = ew_last_client_sequence wire" "ew_next_offset_words w1 = ew_next_offset_words wire"
    using build_virtual_packet_ok[of wire logical clock] by blast
  obtain packets w2 where q: "build_virtual_packets w1 items = Inr (packets, w2)"
    "map snd packets = map (\<lambda>i. 0x80 + (virtual_position w1 - 0x80 + int i) mod 0x80) [0..<length items]"
    "list_all2 (virtual_record (umask 28 (ew_last_client_sequence w1))) (zip (map fst items) (map snd packets)) (map fst packets)"
    "ew_next_offset_words w2 = ew_next_offset_words w1"
    using Cons.IH[of w1] by blast
  have r: "0x80 + (virtual_position wire - 0x80) mod 0x80 = virtual_position wire"
  proof -
    have "0 \<le> virtual_position wire - 0x80" "virtual_position wire - 0x80 < 0x80"
      by (auto simp: virtual_position_def virtual_bounds)
    then have "(virtual_position wire - 0x80) mod 0x80 = virtual_position wire - 0x80" by (rule mod_pos_pos_trivial)
    then show ?thesis by simp
  qed
  have "map (\<lambda>i. 0x80 + (virtual_position wire - 0x80 + int i) mod 0x80) [0..<length (item # items)]
      = virtual_position wire # map (\<lambda>i. 0x80 + (virtual_position wire - 0x80 + int (Suc i)) mod 0x80) [0..<length items]"
    by (subst length_Cons, subst map_upt_Suc) (use r in \<open>simp del: upt_Suc\<close>)
  also have "map (\<lambda>i. 0x80 + (virtual_position wire - 0x80 + int (Suc i)) mod 0x80) [0..<length items] = map snd packets"
    unfolding q(2) p(3) by (rule map_cong) (simp_all add: mod_simps algebra_simps)
  finally show ?case
    using p q by (simp add: item del: upt_Suc)
qed

text \<open>
  Building a batch of world-state bodies never fails.  Its virtual sequences are the
  consecutive values of the cycle 0x80..0xFF from the destination's position on, and each
  packet carries its sequence, the client sequence it acknowledges, its body untouched, and
  either the plain suffix or a twelve-byte footer with its flag; the reliable cipher offset
  does not move.
\<close>

theorem virtual_batch_well_formed:
  "\<exists>batch wire'. build_virtual_datagram wire bodies clock = Inr (batch, wire')
     \<and> vb_sequences batch = map (\<lambda>i. 0x80 + (virtual_position wire - 0x80 + int i) mod 0x80) [0..<length bodies]
     \<and> list_all2 (virtual_record (umask 28 (ew_last_client_sequence wire)))
          (zip bodies (vb_sequences batch)) (td_packets (vb_datagram batch))
     \<and> td_offset_words (vb_datagram batch) = ew_next_offset_words wire
     \<and> ew_next_offset_words wire' = ew_next_offset_words wire"
  using build_virtual_packets_ok[of wire "zip bodies (map clock [0..<length bodies])"]
  by (auto simp: build_virtual_datagram_def)

end
