(* ===== verification/Handshake.thy ===== *)
theory Handshake
  imports CommUdp PyText Lifecycle
begin

text \<open>
  \<open>server/carbon/rebroadcaster/handshake.py\<close>: the ProtoTunnel/CommUDP connection handshake
  of one endpoint, its replies and the hash that names the server's tunnel on channel 7.
  The lemmas show that replies read back as what they say, that the stage and the role only
  move forward, and that both handshakes complete.
\<close>

section \<open>Replies\<close>

datatype handshake_stage = NEW | CONNECT_SENT | WAIT_CONFIRMATION | ESTABLISHED

datatype handshake_role = UNKNOWN | HOST | JOINER

datatype handshake_error = HuidNotDecimal | TunnelIdOutOfRange int

text \<open>\<open>str.isdigit()\<close> below code point 256: the ASCII digits and the three superscripts.\<close>

definition py_isdigit :: "char \<Rightarrow> bool" where
  "py_isdigit c \<longleftrightarrow> is_digit c \<or> of_char c \<in> {178 :: nat, 179, 185}"

text \<open>
  One round of the hash on its 32 bits: \<open>signed >> 27\<close> is the arithmetic shift of the signed
  reading, and all three terms are masked to 32 bits.
\<close>

definition hash_step :: "32 word \<Rightarrow> char \<Rightarrow> 32 word" where
  "hash_step hashed character =
     (let signed = sint hashed
      in of_char character XOR word_of_int (drop_bit 27 signed) XOR push_bit 5 hashed)"

definition hash_sar_decimal :: "string \<Rightarrow> handshake_error + nat" where
  "hash_sar_decimal value =
     (let text = strip value; digits = dropWhile (\<lambda>c. c = CHR ''-'') text
      in if text = [] \<or> digits = [] \<or> \<not> list_all py_isdigit digits then Inl HuidNotDecimal
         else Inr (unat (foldl hash_step 0 text)))"

definition DEFAULT_TUNNEL_ID :: int where
  "DEFAULT_TUNNEL_ID = (case hash_sar_decimal (show_int 51) of Inl _ \<Rightarrow> 0 | Inr h \<Rightarrow> int h)"

definition channel7_identity :: "int \<Rightarrow> int \<Rightarrow> handshake_error + bytes" where
  "channel7_identity server_tunnel_id stage =
     (if \<not> (0 \<le> server_tunnel_id \<and> server_tunnel_id \<le> 0xFFFFFFFF) then Inl (TunnelIdOutOfRange server_tunnel_id)
      else Inr ([0x00] @ to_be 4 (nat server_tunnel_id) @ [word_of_int stage]))"

definition control_payload :: "commudp_type \<Rightarrow> int \<Rightarrow> bytes" where
  "control_payload kind connection_id = to_be 4 (commudp_value kind) @ to_be 4 (umask 32 connection_id)"

definition connect_reply :: "int \<Rightarrow> int \<Rightarrow> int \<Rightarrow> handshake_error + tunnel_datagram" where
  "connect_reply connection_id server_tunnel_id offset_words =
     rbind (channel7_identity server_tunnel_id 1) (\<lambda>identity.
       Inr \<lparr>td_offset_words = offset_words,
            td_packets = [\<lparr>tp_channel = 7, tp_payload = identity\<rparr>,
                          \<lparr>tp_channel = 1, tp_payload = control_payload CONNECT_ACK connection_id\<rparr>,
                          \<lparr>tp_channel = 1, tp_payload = control_payload CONNECT connection_id\<rparr>]\<rparr>)"

definition connect_offer :: "int \<Rightarrow> int \<Rightarrow> handshake_error + tunnel_datagram" where
  "connect_offer connection_id server_tunnel_id =
     rbind (channel7_identity server_tunnel_id 0) (\<lambda>identity.
       Inr \<lparr>td_offset_words = 0,
            td_packets = [\<lparr>tp_channel = 7, tp_payload = identity\<rparr>,
                          \<lparr>tp_channel = 1, tp_payload = control_payload CONNECT connection_id\<rparr>]\<rparr>)"

definition joiner_confirmation_reply :: "int \<Rightarrow> tunnel_datagram" where
  "joiner_confirmation_reply connection_id =
     \<lparr>td_offset_words = 12,
      td_packets = [\<lparr>tp_channel = 1, tp_payload = control_payload CONNECT_ACK connection_id\<rparr>,
                    \<lparr>tp_channel = 1, tp_payload = [0x00, 0x00, 0x01, 0x00, 0x00, 0x00, 0x00, 0xFF]\<rparr>]\<rparr>"

section \<open>The endpoint\<close>

record endpoint_handshake =
  eh_server_tunnel_id :: int
  eh_dedicated :: bool
  eh_stage :: handshake_stage
  eh_connection_id :: nat
  eh_role :: handshake_role

definition new_handshake :: "int \<Rightarrow> bool \<Rightarrow> endpoint_handshake" where
  "new_handshake server_tunnel_id dedicated =
     \<lparr>eh_server_tunnel_id = server_tunnel_id, eh_dedicated = dedicated, eh_stage = NEW, eh_connection_id = 0, eh_role = UNKNOWN\<rparr>"

definition controls_of :: "tunnel_datagram \<Rightarrow> commudp_control list" where
  "controls_of datagram =
     List.map_filter (\<lambda>packet. case parse_channel_one packet of Some (Control c) \<Rightarrow> Some c | _ \<Rightarrow> None) (td_packets datagram)"

definition channel7_of :: "tunnel_datagram \<Rightarrow> bytes" where
  "channel7_of datagram =
     (case find (\<lambda>packet. tp_channel packet = 7) (td_packets datagram) of None \<Rightarrow> [] | Some packet \<Rightarrow> tp_payload packet)"

text \<open>
  \<open>accept\<close> answers with an optional reply or raises; the stage and role it stored before
  raising stay stored, so the new state is returned in either case.
\<close>

definition accept :: "tunnel_datagram \<Rightarrow> endpoint_handshake \<Rightarrow> (handshake_error + tunnel_datagram option) \<times> endpoint_handshake" where
  "accept datagram h =
     (let channel7 = channel7_of datagram;
          controls = controls_of datagram;
          connect = find (\<lambda>item. cc_kind item = CONNECT) controls;
          acknowledgement = find (\<lambda>item. cc_kind item = CONNECT_ACK) controls;
          reply = (\<lambda>h. rbind (connect_reply (int (eh_connection_id h)) (eh_server_tunnel_id h) 5) (\<lambda>d. Inr (Some d)))
      in if connect = None \<and> acknowledgement = None then (Inr None, h)
         else
           let h = (case connect of Some c \<Rightarrow> h\<lparr>eh_connection_id := cc_connection_id c\<rparr>
                    | None \<Rightarrow> (case acknowledgement of Some a \<Rightarrow> h\<lparr>eh_connection_id := cc_connection_id a\<rparr> | None \<Rightarrow> h))
           in if acknowledgement \<noteq> None then
                (if eh_role h = JOINER \<and> connect \<noteq> None then
                   let h = h\<lparr>eh_stage := WAIT_CONFIRMATION\<rparr> in (reply h, h)
                 else
                   let h = h\<lparr>eh_stage := ESTABLISHED\<rparr>
                   in if eh_role h = JOINER then (Inr (Some (joiner_confirmation_reply (int (eh_connection_id h)))), h)
                      else (Inr None, h))
              else if eh_stage h = NEW then
                (let h = h\<lparr>eh_stage := CONNECT_SENT\<rparr>
                 in if \<not> eh_dedicated h \<and> length channel7 = 6 \<and> channel7 ! 4 = 0x37 \<and> channel7 ! 5 = 0 then
                      let h = h\<lparr>eh_role := JOINER\<rparr>
                      in (rbind (connect_offer (int (eh_connection_id h)) (eh_server_tunnel_id h)) (\<lambda>d. Inr (Some d)), h)
                    else let h = h\<lparr>eh_role := HOST\<rparr> in (reply h, h))
              else (reply h, h))"

section \<open>Reading replies\<close>

lemma control_payload_reads:
  "parse_channel_one \<lparr>tp_channel = 1, tp_payload = control_payload kind (int n)\<rparr>
   = Some (Control \<lparr>cc_kind = kind, cc_connection_id = n mod 2 ^ 32\<rparr>)"
proof -
  have "int n mod 2 ^ 32 = int (n mod 2 ^ 32)" by (simp add: zmod_int)
  then have "umask 32 (int n) = n mod 2 ^ 32" by (simp add: umask_def)
  moreover have "commudp_value kind mod 4294967296 = commudp_value kind" using commudp_value_less[of kind] by simp
  ultimately show ?thesis
    by (simp add: parse_channel_one_def control_payload_def slice_append_left slice_def)
qed

lemma confirmation_is_active: "(case parse_channel_one \<lparr>tp_channel = 1, tp_payload = [0x00, 0x00, 0x01, 0x00, 0x00, 0x00, 0x00, 0xFF]\<rparr> of
    Some (Active a) \<Rightarrow> ca_sequence a = 0x100 \<and> ca_acknowledgement a = 0xFF | _ \<Rightarrow> False)"
  by (simp add: parse_channel_one_def parse_active_def slice_def be_nat_def commudp_member_def Let_def)

lemma hash_51: "hash_sar_decimal (show_int 51) = Inr 0x691"
  by code_simp

lemma control_id_range: "c \<in> set (controls_of d) \<Longrightarrow> cc_connection_id c < 2 ^ 32"
proof -
  assume "c \<in> set (controls_of d)"
  then obtain packet where "parse_channel_one packet = Some (Control c)"
    by (auto simp: controls_of_def List.map_filter_def split: option.splits channel_one.splits)
  then have "length (tp_payload packet) = 8" "cc_connection_id c = be_nat (drop 4 (tp_payload packet))"
    by (auto simp: parse_channel_one_def parse_active_def Let_def split: if_splits option.splits)
  with be_nat_less[of "drop 4 (tp_payload packet)"] show ?thesis by simp
qed

text \<open>The first control of a kind in a datagram, as \<open>accept\<close> looks it up.\<close>

definition first_control :: "commudp_type \<Rightarrow> tunnel_datagram \<Rightarrow> commudp_control option" where
  "first_control kind d = find (\<lambda>item. cc_kind item = kind) (controls_of d)"

lemma first_control_range: "first_control kind d = Some c \<Longrightarrow> cc_connection_id c < 2 ^ 32"
  by (rule control_id_range[of c d]) (auto simp: first_control_def find_Some_iff)

lemma connect_reply_Inr:
  "connect_reply n tid offset = Inr d \<longleftrightarrow> 0 \<le> tid \<and> tid \<le> 0xFFFFFFFF
   \<and> d = \<lparr>td_offset_words = offset, td_packets = [\<lparr>tp_channel = 7, tp_payload = [0] @ to_be 4 (nat tid) @ [1]\<rparr>,
        \<lparr>tp_channel = 1, tp_payload = control_payload CONNECT_ACK n\<rparr>, \<lparr>tp_channel = 1, tp_payload = control_payload CONNECT n\<rparr>]\<rparr>"
  by (auto simp: connect_reply_def channel7_identity_def rbind_eq_Inr)

lemma connect_offer_Inr:
  "connect_offer n tid = Inr d \<longleftrightarrow> 0 \<le> tid \<and> tid \<le> 0xFFFFFFFF
   \<and> d = \<lparr>td_offset_words = 0, td_packets = [\<lparr>tp_channel = 7, tp_payload = [0] @ to_be 4 (nat tid) @ [0]\<rparr>,
        \<lparr>tp_channel = 1, tp_payload = control_payload CONNECT n\<rparr>]\<rparr>"
  by (auto simp: connect_offer_def channel7_identity_def rbind_eq_Inr)

lemma channel7_no_control: "parse_channel_one \<lparr>tp_channel = 7, tp_payload = b\<rparr> = None"
  by (simp add: parse_channel_one_def)

lemma active_no_control:
  "(case parse_channel_one \<lparr>tp_channel = 1, tp_payload = [0x00, 0x00, 0x01, 0x00, 0x00, 0x00, 0x00, 0xFF]\<rparr> of
      Some (Control c) \<Rightarrow> Some c | _ \<Rightarrow> None) = None"
  by (simp add: parse_channel_one_def parse_active_def slice_def be_nat_def commudp_member_def Let_def)

lemma controls_of_replies:
  assumes "n < 2 ^ 32"
  shows "connect_reply (int n) tid offset = Inr d \<Longrightarrow> controls_of d = [\<lparr>cc_kind = CONNECT_ACK, cc_connection_id = n\<rparr>, \<lparr>cc_kind = CONNECT, cc_connection_id = n\<rparr>]"
    and "connect_offer (int n) tid = Inr d \<Longrightarrow> controls_of d = [\<lparr>cc_kind = CONNECT, cc_connection_id = n\<rparr>]"
    and "controls_of (joiner_confirmation_reply (int n)) = [\<lparr>cc_kind = CONNECT_ACK, cc_connection_id = n\<rparr>]"
  using assms
  by (simp_all add: controls_of_def connect_reply_Inr connect_offer_Inr joiner_confirmation_reply_def channel7_no_control
      control_payload_reads active_no_control List.map_filter_simps)

section \<open>Progress\<close>

fun stage_rank :: "handshake_stage \<Rightarrow> nat" where
  "stage_rank NEW = 0"
| "stage_rank CONNECT_SENT = 1"
| "stage_rank WAIT_CONFIRMATION = 2"
| "stage_rank ESTABLISHED = 2"

definition handshake_after :: "endpoint_handshake \<Rightarrow> tunnel_datagram \<Rightarrow> endpoint_handshake" where
  "handshake_after h d = snd (accept d h)"

text \<open>\<open>accept\<close>, branch by branch.\<close>

lemma accept_quiet: "first_control CONNECT d = None \<Longrightarrow> first_control CONNECT_ACK d = None \<Longrightarrow> accept d h = (Inr None, h)"
  by (simp add: accept_def first_control_def Let_def)

lemma accept_acknowledged:
  assumes "first_control CONNECT_ACK d = Some a"
    "n = (case first_control CONNECT d of Some c \<Rightarrow> cc_connection_id c | None \<Rightarrow> cc_connection_id a)"
  shows "accept d h =
     (if eh_role h = JOINER \<and> first_control CONNECT d \<noteq> None
      then (rbind (connect_reply (int n) (eh_server_tunnel_id h) 5) (\<lambda>r. Inr (Some r)), h\<lparr>eh_connection_id := n, eh_stage := WAIT_CONFIRMATION\<rparr>)
      else (Inr (if eh_role h = JOINER then Some (joiner_confirmation_reply (int n)) else None),
            h\<lparr>eh_connection_id := n, eh_stage := ESTABLISHED\<rparr>))"
  using assms by (cases "first_control CONNECT d") (simp_all add: accept_def first_control_def Let_def)

definition joiner_mark :: "tunnel_datagram \<Rightarrow> endpoint_handshake \<Rightarrow> bool" where
  "joiner_mark d h \<longleftrightarrow> \<not> eh_dedicated h \<and> length (channel7_of d) = 6 \<and> channel7_of d ! 4 = 0x37 \<and> channel7_of d ! 5 = 0"

lemma accept_connect:
  assumes "first_control CONNECT_ACK d = None" "first_control CONNECT d = Some c" "n = cc_connection_id c"
  shows "accept d h =
     (if eh_stage h \<noteq> NEW then (rbind (connect_reply (int n) (eh_server_tunnel_id h) 5) (\<lambda>r. Inr (Some r)), h\<lparr>eh_connection_id := n\<rparr>)
      else if joiner_mark d h
      then (rbind (connect_offer (int n) (eh_server_tunnel_id h)) (\<lambda>r. Inr (Some r)),
            h\<lparr>eh_connection_id := n, eh_stage := CONNECT_SENT, eh_role := JOINER\<rparr>)
      else (rbind (connect_reply (int n) (eh_server_tunnel_id h) 5) (\<lambda>r. Inr (Some r)),
            h\<lparr>eh_connection_id := n, eh_stage := CONNECT_SENT, eh_role := HOST\<rparr>))"
  using assms by (auto simp: accept_def first_control_def joiner_mark_def Let_def)

text \<open>The four outcomes of \<open>accept\<close> on the state.\<close>

lemma handshake_after_cases:
  "handshake_after h d = h
   \<or> (\<exists>n < 2 ^ 32. first_control CONNECT_ACK d \<noteq> None \<and> eh_role h = JOINER \<and> handshake_after h d = h\<lparr>eh_connection_id := n, eh_stage := WAIT_CONFIRMATION\<rparr>)
   \<or> (\<exists>n < 2 ^ 32. first_control CONNECT_ACK d \<noteq> None \<and> handshake_after h d = h\<lparr>eh_connection_id := n, eh_stage := ESTABLISHED\<rparr>)
   \<or> (\<exists>n < 2 ^ 32. \<exists>role. eh_stage h = NEW \<and> role \<noteq> UNKNOWN \<and> handshake_after h d = h\<lparr>eh_connection_id := n, eh_stage := CONNECT_SENT, eh_role := role\<rparr>)
   \<or> (\<exists>n < 2 ^ 32. eh_stage h \<noteq> NEW \<and> handshake_after h d = h\<lparr>eh_connection_id := n\<rparr>)"
proof (cases "first_control CONNECT_ACK d")
  case None
  show ?thesis
  proof (cases "first_control CONNECT d")
    case None
    with \<open>first_control CONNECT_ACK d = None\<close> show ?thesis by (simp add: handshake_after_def accept_quiet)
  next
    case (Some c)
    with first_control_range[OF Some] show ?thesis
      by (auto simp: handshake_after_def accept_connect[OF None Some refl])
  qed
next
  case (Some a)
  define n where "n = (case first_control CONNECT d of Some c \<Rightarrow> cc_connection_id c | None \<Rightarrow> cc_connection_id a)"
  have "n < 2 ^ 32" using first_control_range Some by (auto simp: n_def split: option.splits)
  with Some show ?thesis by (auto simp: handshake_after_def accept_acknowledged[OF Some n_def])
qed

lemma stage_rank_0: "stage_rank s = 0 \<longleftrightarrow> s = NEW"
  by (cases s) simp_all

lemma stage_rank_le_2: "stage_rank s \<le> 2"
  by (cases s) simp_all

interpretation handshake: monotone_lifecycle handshake_after "\<lambda>h. stage_rank (eh_stage h)"
proof
  fix h d
  show "stage_rank (eh_stage h) \<le> stage_rank (eh_stage (handshake_after h d))"
    using handshake_after_cases[of h d] stage_rank_le_2[of "eh_stage h"] by (elim disjE) auto
qed

text \<open>
  The handshake of an endpoint only moves forward under any datagrams: NEW, then
  CONNECT_SENT, then the confirmation stages; it never falls back to one before.  Once it
  has left NEW its role is fixed for ever, and no datagram changes the tunnel identity or
  the dedicated flag of the room.
\<close>

theorem handshake_forward_only:
  "stage_rank (eh_stage h) \<le> stage_rank (eh_stage (foldl handshake_after h ds))
   \<and> (eh_stage h \<noteq> NEW \<longrightarrow> eh_role (foldl handshake_after h ds) = eh_role h)
   \<and> eh_server_tunnel_id (foldl handshake_after h ds) = eh_server_tunnel_id h
   \<and> eh_dedicated (foldl handshake_after h ds) = eh_dedicated h"
proof -
  have keeps: "eh_server_tunnel_id (handshake_after h d) = eh_server_tunnel_id h \<and> eh_dedicated (handshake_after h d) = eh_dedicated h
      \<and> (eh_stage h \<noteq> NEW \<longrightarrow> eh_role (handshake_after h d) = eh_role h \<and> eh_stage (handshake_after h d) \<noteq> NEW)" for h d
    using handshake_after_cases[of h d] by (elim disjE) auto
  have "eh_server_tunnel_id (foldl handshake_after h ds) = eh_server_tunnel_id h
      \<and> eh_dedicated (foldl handshake_after h ds) = eh_dedicated h
      \<and> (eh_stage h \<noteq> NEW \<longrightarrow> eh_role (foldl handshake_after h ds) = eh_role h)"
    by (induction ds arbitrary: h) (auto simp: keeps)
  with handshake.run_up show ?thesis by blast
qed

definition connect_datagram :: "byte \<Rightarrow> tunnel_datagram" where
  "connect_datagram marker = \<lparr>td_offset_words = 0, td_packets =
     [\<lparr>tp_channel = 7, tp_payload = [0, 0, 0, 6, marker, 0]\<rparr>, \<lparr>tp_channel = 1, tp_payload = control_payload CONNECT (int 77)\<rparr>]\<rparr>"

definition ack_datagram :: tunnel_datagram where
  "ack_datagram = \<lparr>td_offset_words = 0, td_packets = [\<lparr>tp_channel = 1, tp_payload = control_payload CONNECT_ACK (int 77)\<rparr>]\<rparr>"

definition both_datagram :: tunnel_datagram where
  "both_datagram = \<lparr>td_offset_words = 0, td_packets = [\<lparr>tp_channel = 1, tp_payload = control_payload CONNECT_ACK (int 77)\<rparr>,
     \<lparr>tp_channel = 1, tp_payload = control_payload CONNECT (int 77)\<rparr>]\<rparr>"

lemma sample_controls:
  "controls_of (connect_datagram marker) = [\<lparr>cc_kind = CONNECT, cc_connection_id = 77\<rparr>]"
  "controls_of ack_datagram = [\<lparr>cc_kind = CONNECT_ACK, cc_connection_id = 77\<rparr>]"
  "controls_of both_datagram = [\<lparr>cc_kind = CONNECT_ACK, cc_connection_id = 77\<rparr>, \<lparr>cc_kind = CONNECT, cc_connection_id = 77\<rparr>]"
  using control_payload_reads[of _ 77]
  by (simp_all add: controls_of_def connect_datagram_def ack_datagram_def both_datagram_def channel7_no_control List.map_filter_simps)

theorem handshake_forward_only_witness:
  "eh_role (foldl handshake_after (handshake_after (new_handshake 5 False) (connect_datagram 0x37)) [connect_datagram 1]) = JOINER"
proof -
  let ?h = "handshake_after (new_handshake 5 False) (connect_datagram 0x37)"
  have f: "first_control CONNECT_ACK (connect_datagram 0x37) = None"
    "first_control CONNECT (connect_datagram 0x37) = Some \<lparr>cc_kind = CONNECT, cc_connection_id = 77\<rparr>"
    by (simp_all add: first_control_def sample_controls)
  have "joiner_mark (connect_datagram 0x37) (new_handshake 5 False)"
    by (simp add: joiner_mark_def channel7_of_def connect_datagram_def new_handshake_def)
  then have "eh_stage ?h = CONNECT_SENT \<and> eh_role ?h = JOINER"
    using accept_connect[OF f refl, of "new_handshake 5 False"] by (simp add: handshake_after_def new_handshake_def)
  with handshake_forward_only[of ?h "[connect_datagram 1]"] show ?thesis by simp
qed

text \<open>
  Every reply names the connection the client asked for: all control packets of an
  answer carry the connection id the endpoint now holds, which is the one in the client's
  own CONNECT or, without one, in its acknowledgement.
\<close>

theorem replies_name_the_connection:
  assumes "accept d h = (Inr (Some reply), h')"
  shows "(\<forall>c \<in> set (controls_of reply). cc_connection_id c = eh_connection_id h') \<and> controls_of reply \<noteq> []
    \<and> Some (eh_connection_id h') = map_option cc_connection_id
        (if first_control CONNECT d \<noteq> None then first_control CONNECT d else first_control CONNECT_ACK d)"
proof (cases "first_control CONNECT_ACK d")
  case None
  then obtain c where c: "first_control CONNECT d = Some c"
    using assms accept_quiet[of d h] by (cases "first_control CONNECT d") auto
  note n = first_control_range[OF c]
  from assms have "eh_connection_id h' = cc_connection_id c"
    "connect_reply (int (cc_connection_id c)) (eh_server_tunnel_id h) 5 = Inr reply
     \<or> connect_offer (int (cc_connection_id c)) (eh_server_tunnel_id h) = Inr reply"
    by (auto simp: accept_connect[OF None c refl] rbind_eq_Inr split: if_splits)
  with controls_of_replies[OF n] c show ?thesis by auto
next
  case (Some a)
  define n where "n = (case first_control CONNECT d of Some c \<Rightarrow> cc_connection_id c | None \<Rightarrow> cc_connection_id a)"
  have n: "n < 2 ^ 32" using first_control_range Some by (auto simp: n_def split: option.splits)
  from assms have "eh_connection_id h' = n"
    "connect_reply (int n) (eh_server_tunnel_id h) 5 = Inr reply \<or> reply = joiner_confirmation_reply (int n)"
    by (auto simp: accept_acknowledged[OF Some n_def] rbind_eq_Inr split: if_splits)
  with controls_of_replies[OF n] Some show ?thesis by (auto simp: n_def split: option.splits)
qed

theorem replies_name_the_connection_witness:
  "\<exists>reply h'. accept both_datagram (new_handshake 5 True\<lparr>eh_role := JOINER\<rparr>) = (Inr (Some reply), h')
     \<and> eh_connection_id h' = 77 \<and> controls_of reply \<noteq> []"
proof -
  obtain reply h' where a: "accept both_datagram (new_handshake 5 True\<lparr>eh_role := JOINER\<rparr>) = (Inr (Some reply), h')"
    by (simp add: accept_def sample_controls new_handshake_def connect_reply_def channel7_identity_def)
  from replies_name_the_connection[OF a] a show ?thesis
    by (simp add: first_control_def sample_controls)
qed

text \<open>
  C39. Both handshakes complete.  A host that connects is answered with the combined reply
  and is established by its acknowledgement, with nothing more to send; a joiner of a room
  that is not dedicated is answered with the offer, then, for its combined packet, with the
  combined reply, and is established by its last acknowledgement, which is confirmed.
\<close>

theorem handshakes_complete:
  assumes "0 \<le> tid" "tid \<le> 0xFFFFFFFF"
    and "first_control CONNECT c = Some \<lparr>cc_kind = CONNECT, cc_connection_id = n\<rparr>" "first_control CONNECT_ACK c = None"
    and "first_control CONNECT_ACK a = Some \<lparr>cc_kind = CONNECT_ACK, cc_connection_id = n\<rparr>" "first_control CONNECT a = None"
    and "first_control CONNECT_ACK b = Some \<lparr>cc_kind = CONNECT_ACK, cc_connection_id = n\<rparr>"
    and "first_control CONNECT b = Some \<lparr>cc_kind = CONNECT, cc_connection_id = n\<rparr>"
  shows "if \<not> dedicated \<and> length (channel7_of c) = 6 \<and> channel7_of c ! 4 = 0x37 \<and> channel7_of c ! 5 = 0
    then (\<exists>h1 h2 h3 r1 r2. accept c (new_handshake tid dedicated) = (Inr (Some r1), h1) \<and> connect_offer (int n) tid = Inr r1
      \<and> accept b h1 = (Inr (Some r2), h2) \<and> connect_reply (int n) tid 5 = Inr r2 \<and> eh_stage h2 = WAIT_CONFIRMATION
      \<and> accept a h2 = (Inr (Some (joiner_confirmation_reply (int n))), h3) \<and> eh_stage h3 = ESTABLISHED \<and> eh_role h3 = JOINER)
    else (\<exists>h1 h2 r1. accept c (new_handshake tid dedicated) = (Inr (Some r1), h1) \<and> connect_reply (int n) tid 5 = Inr r1
      \<and> eh_stage h1 = CONNECT_SENT
      \<and> accept a h1 = (Inr None, h2) \<and> eh_stage h2 = ESTABLISHED \<and> eh_role h2 = HOST)"
  using assms
  by (auto simp: accept_connect[OF assms(4,3)] accept_acknowledged[OF assms(5)] accept_acknowledged[OF assms(7)]
      joiner_mark_def new_handshake_def connect_reply_def connect_offer_def channel7_identity_def)

theorem handshakes_complete_witness:
  "\<exists>h1 h2 r1. accept (connect_datagram 0x37) (new_handshake 0x691 True) = (Inr (Some r1), h1)
    \<and> accept ack_datagram h1 = (Inr None, h2) \<and> eh_stage h2 = ESTABLISHED"
  using handshakes_complete[where tid = "0x691" and c = "connect_datagram 0x37" and n = 77 and a = ack_datagram
      and b = both_datagram and dedicated = True]
  by (auto simp: first_control_def sample_controls)

end
