(* ===== verification/Float32.thy ===== *)
theory Float32
  imports Complex_Main Prelude
begin

text \<open>
  \<open>struct.pack(">f", x)\<close> of a finite number: the IEEE single-precision pattern nearest to
  it, ties to even, big-endian; \<open>None\<close> is the \<open>OverflowError\<close> of a number too large.  The
  source's floats are rationals here (infinities and NaN are outside the model).
\<close>

definition round_half_even :: "rat \<Rightarrow> int" where
  "round_half_even x =
     (let n = \<lfloor>x\<rfloor>; r = x - of_int n
      in if r < 1 / 2 then n else if 1 / 2 < r then n + 1 else if even n then n else n + 1)"

text \<open>
  Scaling into [1, 2), or to the least exponent.  A number below 2^128 needs at most 127
  halvings, and the doublings stop at exponent -126, so a fuel of 256 never runs out.
\<close>

fun normalise :: "nat \<Rightarrow> rat \<Rightarrow> int \<Rightarrow> rat \<times> int" where
  "normalise 0 x e = (x, e)"
| "normalise (Suc k) x e =
     (if 2 \<le> x then normalise k (x / 2) (e + 1)
      else if x < 1 \<and> -126 < e then normalise k (2 * x) (e - 1)
      else (x, e))"

definition pack_f32 :: "rat \<Rightarrow> bytes option" where
  "pack_f32 x =
     (let sign = (if x < 0 then 0x80000000 else 0 :: int); a = \<bar>x\<bar>
      in if 2 ^ 128 \<le> a then None
         else let (m, e) = normalise 256 a 0;
                  q = round_half_even (m * 0x800000);
                  p = (if q < 0x800000 then q else (e + 127) * 0x800000 + (q - 0x800000))
              in if 0x7F800000 \<le> p then None else Some (to_be 4 (nat (sign + p))))"

lemma length_pack_f32: "pack_f32 x = Some bs \<Longrightarrow> length bs = 4"
  by (auto simp: pack_f32_def Let_def split: if_splits prod.splits)

text \<open>The fuel never runs out: the result is scaled, or at the least exponent.\<close>

lemma normalise_down: "1 \<le> x \<Longrightarrow> x < 2 ^ Suc k \<Longrightarrow> normalise k x e = (m, e') \<Longrightarrow> 1 \<le> m \<and> m < 2"
proof (induction k arbitrary: x e)
  case (Suc k)
  show ?case
  proof (cases "2 \<le> x")
    case True
    then show ?thesis using Suc.IH[of "x / 2" "e + 1"] Suc.prems by simp
  next
    case False
    with Suc.prems show ?thesis by auto
  qed
qed auto

lemma normalise_up:
  "0 \<le> x \<Longrightarrow> x < 2 \<Longrightarrow> -126 \<le> e \<Longrightarrow> nat (e + 126) \<le> k \<Longrightarrow> normalise k x e = (m, e') \<Longrightarrow>
   0 \<le> m \<and> m < 2 \<and> -126 \<le> e' \<and> (1 \<le> m \<or> e' = -126)"
proof (induction k arbitrary: x e)
  case (Suc k)
  show ?case
  proof (cases "x < 1 \<and> -126 < e")
    case True
    then show ?thesis using Suc.IH[of "2 * x" "e - 1"] Suc.prems by simp
  next
    case False
    with Suc.prems show ?thesis by auto
  qed
qed auto

lemma normalise_scaled:
  assumes "0 \<le> a" "a < 2 ^ 128" "normalise 256 a 0 = (m, e)"
  shows "m < 2 \<and> (1 \<le> m \<or> e = -126)"
proof (cases "2 \<le> a")
  case True
  have "(2 :: rat) ^ 128 \<le> 2 ^ Suc 256" by (rule power_increasing) simp_all
  with assms(2) have "a < 2 ^ Suc 256" by (rule less_le_trans)
  with normalise_down[of a 256 0 m e] True assms(3) show ?thesis by simp
next
  case False
  with normalise_up[of a 0 256 m e] assms show ?thesis by simp
qed

lemma normalise_numeral:
  "normalise (numeral k) x e =
     (if 2 \<le> x then normalise (pred_numeral k) (x / 2) (e + 1)
      else if x < 1 \<and> -126 < e then normalise (pred_numeral k) (2 * x) (e - 1)
      else (x, e))"
  by (simp add: numeral_eq_Suc)

lemma to_be_numeral: "to_be (numeral k) n = to_be (pred_numeral k) (n div 256) @ [word_of_nat n]"
  by (subst numeral_eq_Suc[of k]) (rule to_be.simps(2))

lemma round_half_even_numeral [simp]: "round_half_even (numeral k) = numeral k"
  by (simp add: round_half_even_def)

lemma round_half_even_zero [simp]: "round_half_even 0 = 0"
  by (simp add: round_half_even_def)

lemma pack_samples:
  "pack_f32 (61 / 2) = Some [0x41, 0xF4, 0, 0]" "pack_f32 25 = Some [0x41, 0xC8, 0, 0]"
  by (simp_all add: pack_f32_def normalise_numeral to_be_numeral Let_def)

end
