(* ===== verification/RaceSession.thy ===== *)
theory RaceSession
  imports GmProtocol PyText Float32
begin

text \<open>
  \<open>server/carbon/gamemanager/race_session.py\<close>: the room-attribute broadcast, the host
  properties with their lock and reopen sequences, and the small timing messages of a race.
  Property values are given as text (\<open>str(value)\<close> of the source's mapping).  The lemmas
  give the round trip of the attributes, the injectivity of the host properties, the shape
  of the two sequences and the type every message is recognised by.
\<close>

section \<open>Errors and constants\<close>

datatype race_session_error =
    VersionTooLong
  | AttributeTooLong string
  | NotAnAttributeBody
  | TruncatedVersion
  | TruncatedAttributeHeader
  | TruncatedAttributeValue
  | InvalidAttributeIndex nat
  | InvalidJoinFlags int
  | InvalidMaxHostedPlayers int
  | SmallEnumOutOfRange int
  | InvalidDescriptorHandle int
  | InvalidDescriptorTick int
  | TokenNotFourBytes
  | InvalidTimerDuration rat
  | FloatOverflow

definition SESSION_DESCRIPTOR_LAYOUT :: bytes where
  "SESSION_DESCRIPTOR_LAYOUT = [0x00, 0x00, 0x00, 0x00, 0x00, 0x22, 0x01, 0x2b, 0x18, 0x00, 0x00, 0x00, 0x00,
     0x00, 0x00, 0x00, 0x00, 0x00, 0x00, 0x00, 0x00, 0x00, 0x00, 0x00, 0x00]"

definition SESSION_ATTRIBUTE_NAMES :: "string list" where
  "SESSION_ATTRIBUTE_NAMES = [''version'', ''matchmaking_state'', ''game_type'', ''help_type'', ''game_mode'', ''skill'',
     ''team_play'', ''car_tier'', ''max_online_player'', ''length'', ''track'', ''n2o'', ''collision_detection'',
     ''player_dnf'', ''location'', ''race_type_circuit'', ''race_type_sprint'', ''race_type_canyon_due'',
     ''race_type_speedtrap'', ''race_type_knockout'', ''race_type_pursuit_tag'']"

definition SESSION_ATTRIBUTE_DEFAULTS :: "(string \<times> string) list" where
  "SESSION_ATTRIBUTE_DEFAULTS = [(''version'', ''298_prod_server+22012b18''), (''matchmaking_state'', ''0''), (''game_type'', ''1''),
     (''help_type'', ''0''), (''game_mode'', ''''), (''skill'', ''''), (''team_play'', ''1''), (''car_tier'', ''''),
     (''max_online_player'', ''''), (''length'', ''''), (''track'', ''''), (''n2o'', ''''), (''collision_detection'', ''''),
     (''player_dnf'', ''''), (''location'', ''WH-EU''), (''race_type_circuit'', ''''), (''race_type_sprint'', ''''),
     (''race_type_canyon_due'', ''''), (''race_type_speedtrap'', ''''), (''race_type_knockout'', ''''),
     (''race_type_pursuit_tag'', '''')]"

section \<open>Attributes\<close>

type_synonym properties = "(string \<times> string) list"

definition session_attribute_value :: "properties \<Rightarrow> string \<Rightarrow> string" where
  "session_attribute_value properties name =
     (let keys = (if name = ''version'' then [''B-U-version'', ''B-version'', ''version''] else [''B-U-'' @ name])
      in case find (\<lambda>key. map_of properties key \<noteq> None) keys of
           Some key \<Rightarrow> the (map_of properties key)
         | None \<Rightarrow> the (map_of SESSION_ATTRIBUTE_DEFAULTS name))"

fun encode_attributes :: "properties \<Rightarrow> nat \<Rightarrow> string list \<Rightarrow> race_session_error + bytes" where
  "encode_attributes properties index [] = Inr []"
| "encode_attributes properties index (name # names) =
     (let encoded = utf8_encode (session_attribute_value properties name)
      in if length encoded > 0xFFFF then Inl (AttributeTooLong name)
         else rbind (encode_attributes properties (index + 1) names) (\<lambda>rest.
                Inr ([word_of_nat index] @ to_be 2 (length encoded) @ encoded @ rest)))"

definition session_attributes :: "properties \<Rightarrow> race_session_error + bytes" where
  "session_attributes properties =
     (let version = utf8_encode (session_attribute_value properties ''version'')
      in if length version > 0xFFFFFF then Inl VersionTooLong
         else rbind (encode_attributes properties 1 (tl SESSION_ATTRIBUTE_NAMES)) (\<lambda>attributes.
                Inr (olmsg GAME_ATTRIBUTES [0x15] @ to_be 3 (length version) @ version @ attributes)))"

function decode_attributes :: "bytes \<Rightarrow> nat \<Rightarrow> properties \<Rightarrow> race_session_error + properties" where
  "decode_attributes raw offset result =
     (if offset < length raw then
        if offset + 3 > length raw then Inl TruncatedAttributeHeader
        else let index = unat (raw ! offset);
                 len = be_nat (slice (offset + 1) (offset + 3) raw);
                 start = offset + 3
             in if start + len > length raw then Inl TruncatedAttributeValue
                else if index \<ge> length SESSION_ATTRIBUTE_NAMES then Inl (InvalidAttributeIndex index)
                else decode_attributes raw (start + len)
                       (AList.update (SESSION_ATTRIBUTE_NAMES ! index) (utf8_decode (slice start (start + len) raw)) result)
      else Inr result)"
  by pat_completeness auto

termination
  by (relation "measure (\<lambda>(raw, offset, _). length raw - offset)") auto

declare decode_attributes.simps [simp del]

definition decode_session_attributes :: "bytes \<Rightarrow> race_session_error + properties" where
  "decode_session_attributes raw =
     (if length raw < 9 \<or> take 6 raw \<noteq> olmsg GAME_ATTRIBUTES [0x15] then Inl NotAnAttributeBody
      else let version_length = be_nat (slice 6 9 raw); offset = 9
           in if offset + version_length > length raw then Inl TruncatedVersion
              else decode_attributes raw (offset + version_length)
                     [(''version'', utf8_decode (slice offset (offset + version_length) raw))])"

section \<open>Host properties\<close>

datatype invite_status = INVITES_ENABLED | HOST_ONLY | INVITES_DISABLED

fun invite_value :: "invite_status \<Rightarrow> int" where
  "invite_value INVITES_ENABLED = 0" | "invite_value HOST_ONLY = 1" | "invite_value INVITES_DISABLED = 2"

datatype join_mode = JOIN_CLOSED | JOIN_OPEN | JOIN_AUTO | JOIN_CUSTOM

fun join_value :: "join_mode \<Rightarrow> int" where
  "join_value JOIN_CLOSED = 0" | "join_value JOIN_OPEN = 1" | "join_value JOIN_AUTO = 2" | "join_value JOIN_CUSTOM = 3"

record host_properties =
  hp_wire_flag0 :: bool
  hp_join_in_progress :: bool
  hp_join_via_presence :: bool
  hp_invite_status :: invite_status
  hp_join_mode :: join_mode
  hp_join_flags :: int
  hp_max_hosted_players :: int

definition encode_small_enum :: "int \<Rightarrow> race_session_error + byte" where
  "encode_small_enum parsed =
     (if \<not> (0 \<le> parsed \<and> parsed \<le> 0x7F) then Inl (SmallEnumOutOfRange parsed) else Inr (0x80 OR word_of_int parsed))"

definition bool_byte :: "bool \<Rightarrow> byte" where
  "bool_byte b = (if b then 1 else 0)"

definition encode_host_properties :: "host_properties \<Rightarrow> race_session_error + bytes" where
  "encode_host_properties p =
     (let flags = hp_join_flags p; maximum = hp_max_hosted_players p
      in if \<not> (0 \<le> flags \<and> flags \<le> 0xFFFF) then Inl (InvalidJoinFlags flags)
         else if \<not> (1 \<le> maximum \<and> maximum \<le> 8) then Inl (InvalidMaxHostedPlayers maximum)
         else rbind (encode_small_enum (invite_value (hp_invite_status p))) (\<lambda>invite.
              rbind (encode_small_enum (join_value (hp_join_mode p))) (\<lambda>join.
                Inr (gm_tag HOST_PROPERTIES
                     @ [bool_byte (hp_wire_flag0 p), bool_byte (hp_join_in_progress p), bool_byte (hp_join_via_presence p), invite, join]
                     @ to_be 2 (nat flags) @ to_be 2 (nat maximum)))))"

definition host_props :: "bool \<Rightarrow> bool \<Rightarrow> bool \<Rightarrow> invite_status \<Rightarrow> join_mode \<Rightarrow> int \<Rightarrow> host_properties" where
  "host_props wire_flag0 in_progress via_presence invite join maximum =
     \<lparr>hp_wire_flag0 = wire_flag0, hp_join_in_progress = in_progress, hp_join_via_presence = via_presence,
      hp_invite_status = invite, hp_join_mode = join, hp_join_flags = 0, hp_max_hosted_players = maximum\<rparr>"

definition open_host_properties :: "int \<Rightarrow> bool \<Rightarrow> host_properties" where
  "open_host_properties maximum flag0 = host_props flag0 True True INVITES_ENABLED JOIN_OPEN maximum"

definition locked_host_properties :: "int \<Rightarrow> bool \<Rightarrow> host_properties" where
  "locked_host_properties maximum flag0 = host_props flag0 False False INVITES_DISABLED JOIN_CLOSED maximum"

definition reopen_host_properties :: "int \<Rightarrow> bool \<Rightarrow> host_properties list" where
  "reopen_host_properties maximum flag0 =
     [host_props flag0 False False INVITES_DISABLED JOIN_OPEN maximum,
      host_props flag0 False True INVITES_DISABLED JOIN_OPEN maximum,
      host_props flag0 True True INVITES_DISABLED JOIN_OPEN maximum,
      open_host_properties maximum flag0]"

definition start_lock_host_properties :: "int \<Rightarrow> bool \<Rightarrow> host_properties list" where
  "start_lock_host_properties maximum flag0 =
     [host_props flag0 True True INVITES_ENABLED JOIN_CLOSED maximum,
      host_props flag0 True False INVITES_ENABLED JOIN_CLOSED maximum,
      host_props flag0 False False INVITES_ENABLED JOIN_CLOSED maximum,
      locked_host_properties maximum flag0]"

section \<open>Timing messages\<close>

definition logical_type :: "bytes \<Rightarrow> nat option" where
  "logical_type raw = (if length raw < 5 \<or> take 4 raw \<noteq> LOGICAL_PREFIX then None else Some (unat (raw ! 4)))"

definition contains_logical_type :: "bytes \<Rightarrow> int \<Rightarrow> bool" where
  "contains_logical_type body message_type \<longleftrightarrow>
     find_at (LOGICAL_PREFIX @ [word_of_nat (umask 8 message_type)]) body \<noteq> None"

definition pack_float :: "rat \<Rightarrow> race_session_error + bytes" where
  "pack_float x = (case pack_f32 x of None \<Rightarrow> Inl FloatOverflow | Some b \<Rightarrow> Inr b)"

definition descriptor :: "int \<Rightarrow> rat \<Rightarrow> int \<Rightarrow> race_session_error + bytes" where
  "descriptor handle elapsed_seconds tick =
     (if \<not> (1 \<le> handle \<and> handle \<le> 0xFFFFFFFF) then Inl (InvalidDescriptorHandle handle)
      else let body = splice 9 13 (to_be 4 (nat handle)) SESSION_DESCRIPTOR_LAYOUT
           in rbind (pack_float (max 0 elapsed_seconds)) (\<lambda>clock.
              let body = splice 13 17 clock body
              in if \<not> (1 \<le> tick \<and> tick \<le> 0xFFFFFFFF) then Inl (InvalidDescriptorTick tick)
                 else Inr (splice 21 25 (to_be 4 (nat tick)) body)))"

definition descriptor_bundle :: "int \<Rightarrow> rat \<Rightarrow> int \<Rightarrow> race_session_error + bytes" where
  "descriptor_bundle handle elapsed_seconds tick =
     rbind (descriptor handle elapsed_seconds tick) (\<lambda>body.
       Inr (olmsg CLOCK_SYNC_REQUEST (PLAIN_TERMINATOR @ body @ PLAIN_TERMINATOR)))"

definition session_probe :: bytes where
  "session_probe = olmsg CLOCK_SYNC_REQUEST []"

definition session_confirm :: "bytes \<Rightarrow> rat \<Rightarrow> race_session_error + bytes" where
  "session_confirm token elapsed_seconds =
     (if length token \<noteq> 4 then Inl TokenNotFourBytes
      else rbind (pack_float (max 0 elapsed_seconds)) (\<lambda>clock. Inr (olmsg CLOCK_SYNC_END (token @ clock))))"

definition anonymous_state :: "int \<Rightarrow> bytes" where
  "anonymous_state state = olmsg ACTIVE_GAME_MESSAGE ([0x00, 0x00] @ to_be 4 (umask 32 state))"

definition named_state :: "string \<Rightarrow> int \<Rightarrow> bytes" where
  "named_state name state =
     (let encoded = take 255 (utf8_encode (if name = [] then ''player'' else name))
      in olmsg ACTIVE_GAME_MESSAGE [] @ to_be 2 (length encoded) @ encoded @ to_be 4 (umask 32 state))"

definition start_timer :: "rat \<Rightarrow> rat \<Rightarrow> int \<Rightarrow> race_session_error + bytes" where
  "start_timer current_seconds duration timer_id =
     (if \<not> (0 < duration \<and> duration \<le> 900) then Inl (InvalidTimerDuration duration)
      else rbind (pack_float (max 0 current_seconds)) (\<lambda>current.
           rbind (pack_float duration) (\<lambda>dur.
             Inr (olmsg START_TIMER [] @ to_be 4 (umask 32 timer_id) @ current @ dur))))"

definition start_race_sync :: "int \<Rightarrow> rat \<Rightarrow> rat \<Rightarrow> race_session_error + bytes" where
  "start_race_sync clock_ms start_delay_seconds ping =
     rbind (pack_float start_delay_seconds) (\<lambda>delay.
     rbind (pack_float ping) (\<lambda>p.
       Inr (olmsg START_RACE_SYNC_BEGIN [] @ to_be 4 (umask 32 clock_ms) @ delay @ p)))"

definition latency_info :: "int \<Rightarrow> rat \<Rightarrow> race_session_error + bytes" where
  "latency_info player_id latency_to_host =
     rbind (pack_float latency_to_host) (\<lambda>latency.
       Inr (olmsg LATENCY_INFO [] @ to_be 4 (umask 32 player_id) @ latency))"

section \<open>Attributes read back\<close>

lemma decode_attributes_step:
  assumes "data = pre @ [word_of_nat index] @ to_be 2 (length encoded) @ encoded @ rest"
    "index < length SESSION_ATTRIBUTE_NAMES" "length encoded \<le> 0xFFFF"
  shows "decode_attributes data (length pre) result
    = decode_attributes data (length pre + 3 + length encoded)
        (AList.update (SESSION_ATTRIBUTE_NAMES ! index) (utf8_decode encoded) result)"
proof -
  have i: "index < 21" using assms(2) by (simp add: SESSION_ATTRIBUTE_NAMES_def)
  have u: "unat (data ! length pre) = index" using i by (simp add: assms(1) unat_word_of_nat_byte)
  have l: "be_nat (slice (Suc (length pre)) (length pre + 3) data) = length encoded"
    using assms(3) by (simp add: assms(1) slice_def)
  have s: "slice (length pre + 3) (length pre + 3 + length encoded) data = encoded"
    by (simp add: assms(1) slice_def)
  have "length data = length pre + 3 + length encoded + length rest" by (simp add: assms(1))
  with u l s assms(2) show ?thesis
    by (subst decode_attributes.simps) (simp add: Let_def add.assoc)
qed

lemma decode_attributes_end: "decode_attributes data (length data) result = Inr result"
  by (subst decode_attributes.simps) simp

lemma decode_encode_attributes:
  "encode_attributes properties index names = Inr bs \<Longrightarrow> names = drop index SESSION_ATTRIBUTE_NAMES \<Longrightarrow>
   decode_attributes (pre @ bs) (length pre) result
   = Inr (fold (\<lambda>name r. AList.update name (session_attribute_value properties name) r) names result)"
proof (induction properties index names arbitrary: bs pre result rule: encode_attributes.induct)
  case (1 properties index)
  then show ?case using decode_attributes_end[of pre] by simp
next
  case (2 properties index name names)
  define encoded where "encoded = utf8_encode (session_attribute_value properties name)"
  from "2.prems"(1) obtain rest where len: "length encoded \<le> 0xFFFF"
    and rest: "encode_attributes properties (index + 1) names = Inr rest"
    and bs: "bs = [word_of_nat index] @ to_be 2 (length encoded) @ encoded @ rest"
    by (auto simp: encoded_def[symmetric] Let_def rbind_eq_Inr split: if_splits)
  have index: "index < length SESSION_ATTRIBUTE_NAMES"
    using "2.prems"(2) by (metis drop_all list.distinct(1) not_le)
  have name: "SESSION_ATTRIBUTE_NAMES ! index = name" and names: "names = drop (index + 1) SESSION_ATTRIBUTE_NAMES"
    using "2.prems"(2) index by (metis Cons_nth_drop_Suc list.inject Suc_eq_plus1)+
  let ?pre = "pre @ [word_of_nat index] @ to_be 2 (length encoded) @ encoded"
  have "decode_attributes (?pre @ rest) (length ?pre) (AList.update name (utf8_decode encoded) result)
      = Inr (fold (\<lambda>name r. AList.update name (session_attribute_value properties name) r) names
          (AList.update name (utf8_decode encoded) result))"
    by (rule "2.IH"[OF encoded_def _ rest names]) (use len in simp)
  moreover have "?pre @ rest = pre @ bs" by (simp add: bs)
  moreover have "length ?pre = length pre + 3 + length encoded" by simp
  moreover have "decode_attributes (pre @ bs) (length pre) result
      = decode_attributes (pre @ bs) (length pre + 3 + length encoded) (AList.update name (utf8_decode encoded) result)"
    using decode_attributes_step[of "pre @ bs" pre index encoded rest result] bs index len name by simp
  ultimately have "decode_attributes (pre @ bs) (length pre) result
      = Inr (fold (\<lambda>name r. AList.update name (session_attribute_value properties name) r) names
          (AList.update name (utf8_decode encoded) result))"
    by (simp only:)
  then show ?case by (simp add: encoded_def)
qed

lemma fold_update_fresh:
  "distinct (map fst r @ names) \<Longrightarrow> fold (\<lambda>name r. AList.update name (v name) r) names r = r @ map (\<lambda>name. (name, v name)) names"
proof (induction names arbitrary: r)
  case (Cons name names)
  then have "AList.update name (v name) r = r @ [(name, v name)]"
  proof (induction r)
    case (Cons p r)
    then show ?case by (cases p) auto
  qed simp
  with Cons.prems Cons.IH[of "r @ [(name, v name)]"] show ?case by auto
qed simp

lemma attribute_names_distinct: "distinct SESSION_ATTRIBUTE_NAMES"
  by (simp add: SESSION_ATTRIBUTE_NAMES_def)

lemma olmsg_attributes: "olmsg GAME_ATTRIBUTES [0x15] = [0, 0, 0, 0, 0x1D, 0x15]"
  by (simp add: olmsg_def LOGICAL_PREFIX_def)

text \<open>
  A room-attribute broadcast that is not refused reads back as exactly the 21
  attributes in the order of the retail table, each with the value the room's properties
  give it (for the version, the first of its three keys), or its default.
\<close>

theorem session_attributes_roundtrip:
  assumes "session_attributes properties = Inr bs"
  shows "decode_session_attributes bs
    = Inr (map (\<lambda>name. (name, session_attribute_value properties name)) SESSION_ATTRIBUTE_NAMES)"
proof -
  define version where "version = utf8_encode (session_attribute_value properties ''version'')"
  obtain attributes where len: "length version \<le> 0xFFFFFF"
    and enc: "encode_attributes properties 1 (tl SESSION_ATTRIBUTE_NAMES) = Inr attributes"
    and bs: "bs = [0, 0, 0, 0, 0x1D, 0x15] @ to_be 3 (length version) @ version @ attributes"
    using assms unfolding session_attributes_def version_def[symmetric] olmsg_attributes Let_def
    by (auto simp: rbind_eq_Inr split: if_splits)
  let ?pre = "[0, 0, 0, 0, 0x1D, 0x15] @ to_be 3 (length version) @ version"
  have names: "SESSION_ATTRIBUTE_NAMES = ''version'' # tl SESSION_ATTRIBUTE_NAMES" by (simp add: SESSION_ATTRIBUTE_NAMES_def)
  have six: "take 6 bs = [0, 0, 0, 0, 0x1D, 0x15]" by (simp add: bs)
  have l: "be_nat (slice 6 9 bs) = length version" using len by (simp add: bs slice_def)
  have v: "slice 9 (9 + length version) bs = version" by (simp add: bs slice_def)
  have "distinct (''version'' # tl SESSION_ATTRIBUTE_NAMES)" using attribute_names_distinct names by simp
  then have fresh: "distinct (map fst [(''version'', utf8_decode version)] @ tl SESSION_ATTRIBUTE_NAMES)" by simp
  have "decode_session_attributes bs = decode_attributes (?pre @ attributes) (length ?pre) [(''version'', utf8_decode version)]"
    using six l v by (simp add: decode_session_attributes_def olmsg_attributes Let_def) (simp add: bs)
  also have "\<dots> = Inr ([(''version'', utf8_decode version)]
      @ map (\<lambda>name. (name, session_attribute_value properties name)) (tl SESSION_ATTRIBUTE_NAMES))"
    by (subst decode_encode_attributes[OF enc]) (simp_all only: drop_Suc drop_0 One_nat_def fold_update_fresh[OF fresh])
  finally show ?thesis
    by (subst names) (simp add: version_def)
qed

lemma length_utf8: "length (utf8_encode s) \<le> 2 * length s"
  by (induction s) (auto simp: utf8_encode_def utf8_char_def Let_def)

lemma encode_attributes_ok:
  "\<forall>name \<in> set names. length (session_attribute_value properties name) \<le> 1000 \<Longrightarrow> is_ok (encode_attributes properties index names)"
proof (induction properties index names rule: encode_attributes.induct)
  case (2 properties index name names)
  have "length (utf8_encode (session_attribute_value properties name)) \<le> 2000"
    using length_utf8[of "session_attribute_value properties name"] "2.prems" by simp
  with 2 show ?case by (auto simp: Let_def is_ok_iff)
qed simp

lemma session_attributes_ok:
  assumes "\<forall>name \<in> set SESSION_ATTRIBUTE_NAMES. length (session_attribute_value properties name) \<le> 1000"
  shows "is_ok (session_attributes properties)"
proof -
  have names: "SESSION_ATTRIBUTE_NAMES = ''version'' # tl SESSION_ATTRIBUTE_NAMES" by (simp add: SESSION_ATTRIBUTE_NAMES_def)
  have "''version'' \<in> set SESSION_ATTRIBUTE_NAMES" by (subst names) simp
  with assms length_utf8[of "session_attribute_value properties ''version''"]
  have "length (utf8_encode (session_attribute_value properties ''version'')) \<le> 2000" by fastforce
  moreover have "is_ok (encode_attributes properties 1 (tl SESSION_ATTRIBUTE_NAMES))"
    by (rule encode_attributes_ok) (use assms names in \<open>metis list.set_intros(2)\<close>)
  ultimately show ?thesis by (auto simp: session_attributes_def Let_def is_ok_iff)
qed

theorem session_attributes_roundtrip_witness:
  "\<exists>bs. session_attributes [(''B-U-length'', ''3'')] = Inr bs
     \<and> decode_session_attributes bs
       = Inr (map (\<lambda>name. (name, session_attribute_value [(''B-U-length'', ''3'')] name)) SESSION_ATTRIBUTE_NAMES)"
proof -
  have "is_ok (session_attributes [(''B-U-length'', ''3'')])"
    by (rule session_attributes_ok)
      (simp add: SESSION_ATTRIBUTE_NAMES_def session_attribute_value_def SESSION_ATTRIBUTE_DEFAULTS_def)
  then obtain bs where b: "session_attributes [(''B-U-length'', ''3'')] = Inr bs" by (auto simp: is_ok_iff)
  from session_attributes_roundtrip[OF b] b show ?thesis by blast
qed

section \<open>Host properties\<close>

lemma bool_byte_inj: "bool_byte a = bool_byte b \<longleftrightarrow> a = b"
  by (auto simp: bool_byte_def)

lemma small_enum_values:
  "encode_small_enum (invite_value i) = Inr (0x80 OR word_of_int (invite_value i))"
  "encode_small_enum (join_value j) = Inr (0x80 OR word_of_int (join_value j))"
  by (cases i; simp add: encode_small_enum_def) (cases j; simp add: encode_small_enum_def)

lemma small_enum_inj:
  "(0x80 OR word_of_int (invite_value i) :: byte) = 0x80 OR word_of_int (invite_value i') \<longleftrightarrow> i = i'"
  "(0x80 OR word_of_int (join_value j) :: byte) = 0x80 OR word_of_int (join_value j') \<longleftrightarrow> j = j'"
  by (cases i; cases i'; simp) (cases j; cases j'; simp)

lemma encode_host_properties_Inr:
  "encode_host_properties p = Inr bs \<longleftrightarrow>
   0 \<le> hp_join_flags p \<and> hp_join_flags p \<le> 0xFFFF \<and> 1 \<le> hp_max_hosted_players p \<and> hp_max_hosted_players p \<le> 8
   \<and> bs = gm_tag HOST_PROPERTIES
      @ [bool_byte (hp_wire_flag0 p), bool_byte (hp_join_in_progress p), bool_byte (hp_join_via_presence p),
         0x80 OR word_of_int (invite_value (hp_invite_status p)), 0x80 OR word_of_int (join_value (hp_join_mode p))]
      @ to_be 2 (nat (hp_join_flags p)) @ to_be 2 (nat (hp_max_hosted_players p))"
  by (auto simp: encode_host_properties_def small_enum_values Let_def)

text \<open>
  The host-properties message is faithful: two properties that encode to the same
  eleven bytes are the same, and only join flags of sixteen bits and rooms of one to eight
  players are encoded at all.
\<close>

theorem host_properties_faithful:
  assumes "encode_host_properties p = Inr bs" "encode_host_properties q = Inr bs"
  shows "p = q \<and> length bs = 11 \<and> 1 \<le> hp_max_hosted_players p \<and> hp_max_hosted_players p \<le> 8"
proof -
  note e = assms[unfolded encode_host_properties_Inr]
  have "to_be 2 (nat (hp_join_flags p)) = to_be 2 (nat (hp_join_flags q))"
    "to_be 2 (nat (hp_max_hosted_players p)) = to_be 2 (nat (hp_max_hosted_players q))"
    using e by (auto simp: bool_byte_inj)
  then have "nat (hp_join_flags p) = nat (hp_join_flags q)" "nat (hp_max_hosted_players p) = nat (hp_max_hosted_players q)"
    using e by (auto dest!: to_be_inj[rotated 2] simp: nat_less_iff)
  moreover have "hp_wire_flag0 p = hp_wire_flag0 q" "hp_join_in_progress p = hp_join_in_progress q"
    "hp_join_via_presence p = hp_join_via_presence q" "hp_invite_status p = hp_invite_status q" "hp_join_mode p = hp_join_mode q"
    using e by (auto simp: bool_byte_inj small_enum_inj)
  ultimately have "p = q" using e by (intro host_properties.equality) auto
  then show ?thesis using e by simp
qed

theorem host_properties_faithful_witness:
  "\<exists>bs. encode_host_properties (locked_host_properties 4 False) = Inr bs \<and> length bs = 11"
proof -
  obtain bs where b: "encode_host_properties (locked_host_properties 4 False) = Inr bs"
    by (simp add: encode_host_properties_Inr locked_host_properties_def host_props_def)
  from host_properties_faithful[OF b b] b show ?thesis by blast
qed

text \<open>How many of the four doors into a room its properties leave open.\<close>

definition open_doors :: "host_properties \<Rightarrow> nat" where
  "open_doors p = of_bool (hp_join_in_progress p) + of_bool (hp_join_via_presence p)
     + of_bool (hp_invite_status p = INVITES_ENABLED) + of_bool (hp_join_mode p = JOIN_OPEN)"

text \<open>
  Locking a room for the start closes its doors one at a time until none is open, and
  reopening it opens them one at a time until all four are; every step of both keeps the
  room's size and flag and is encoded exactly for rooms of one to eight players.
\<close>

theorem lock_and_reopen_sequences:
  "map open_doors (start_lock_host_properties maximum flag0) = [3, 2, 1, 0]
   \<and> map open_doors (reopen_host_properties maximum flag0) = [1, 2, 3, 4]
   \<and> last (start_lock_host_properties maximum flag0) = locked_host_properties maximum flag0
   \<and> last (reopen_host_properties maximum flag0) = open_host_properties maximum flag0
   \<and> list_all (\<lambda>p. hp_max_hosted_players p = maximum \<and> hp_wire_flag0 p = flag0 \<and> hp_join_flags p = 0
        \<and> is_ok (encode_host_properties p) = (1 \<le> maximum \<and> maximum \<le> 8))
      (start_lock_host_properties maximum flag0 @ reopen_host_properties maximum flag0)"
  by (simp add: start_lock_host_properties_def reopen_host_properties_def locked_host_properties_def open_host_properties_def
      host_props_def open_doors_def is_ok_iff encode_host_properties_Inr)

section \<open>Messages are recognised by their type\<close>

lemma logical_type_olmsg: "logical_type (olmsg t payload @ rest) = Some (nat (ol_value t))"
proof -
  have "unat (word_of_int (ol_value t) :: byte) = nat (ol_value t)"
    using ol_value_range[of t] by (simp add: unat_eq_nat_uint uint_word_of_int mod_pos_pos_trivial)
  then show ?thesis by (simp add: logical_type_def olmsg_def LOGICAL_PREFIX_def)
qed

lemma contains_olmsg: "contains_logical_type (olmsg t payload @ rest) (ol_value t)"
proof -
  have u: "umask 8 (ol_value t) = nat (ol_value t)" using ol_value_range[of t] by (simp add: umask_def mod_pos_pos_trivial)
  have "word_of_nat (nat (ol_value t)) = (word_of_int (ol_value t) :: byte)"
    using ol_value_range[of t] by simp
  then show ?thesis
    by (simp add: contains_logical_type_def u olmsg_def LOGICAL_PREFIX_def starts_with_def)
qed

lemma pack_float_length: "pack_float x = Inr b \<Longrightarrow> length b = 4"
  by (auto simp: pack_float_def length_pack_f32 split: option.splits)

text \<open>
  Every session message is recognised by its own type, which no other message of this
  module shares except the descriptor and the probe, both clock requests; and the messages
  that carry a state, a timer, a token or a latency have the fixed length the client reads.
\<close>

theorem messages_recognised:
  "logical_type session_probe = Some 1
   \<and> (\<forall>h e t bs. descriptor_bundle h e t = Inr bs \<longrightarrow> logical_type bs = Some 1 \<and> length bs = 32)
   \<and> (\<forall>token e bs. session_confirm token e = Inr bs \<longrightarrow> logical_type bs = Some 3 \<and> length bs = 13)
   \<and> (\<forall>p bs. session_attributes p = Inr bs \<longrightarrow> logical_type bs = Some 0x1D)
   \<and> (\<forall>c d i bs. start_timer c d i = Inr bs \<longrightarrow> logical_type bs = Some 0x1B \<and> length bs = 17)
   \<and> (\<forall>c d p bs. start_race_sync c d p = Inr bs \<longrightarrow> logical_type bs = Some 0x0A \<and> length bs = 17)
   \<and> (\<forall>p l bs. latency_info p l = Inr bs \<longrightarrow> logical_type bs = Some 0x12 \<and> length bs = 13)
   \<and> logical_type (anonymous_state s) = Some 0x1C \<and> logical_type (named_state name s) = Some 0x1C"
proof -
  have l: "logical_type (olmsg t payload) = Some (nat (ol_value t))" for t payload
    using logical_type_olmsg[of t payload "[]"] by simp
  have d: "length body = 25" if "descriptor h e t = Inr body" for h e t body
    using that pack_float_length by (auto simp: descriptor_def rbind_eq_Inr Let_def splice_def SESSION_DESCRIPTOR_LAYOUT_def split: if_splits)
  show ?thesis
    using pack_float_length
    by (auto simp: l logical_type_olmsg d session_probe_def descriptor_bundle_def session_confirm_def session_attributes_def
        start_timer_def start_race_sync_def latency_info_def anonymous_state_def named_state_def rbind_eq_Inr Let_def
        PLAIN_TERMINATOR_def split: if_splits)
qed

theorem messages_recognised_witness:
  "\<exists>bs. start_timer 0 (61 / 2) 2 = Inr bs \<and> logical_type bs = Some 0x1B"
proof -
  have "pack_f32 0 \<noteq> None"
    by (simp add: pack_f32_def Let_def normalise_numeral)
  then obtain bs where b: "start_timer 0 (61 / 2) 2 = Inr bs"
    by (auto simp: start_timer_def pack_float_def pack_samples)
  moreover have "logical_type bs = Some 0x1B"
    using messages_recognised b by blast
  ultimately show ?thesis by blast
qed

text \<open>
  A race descriptor carries the object handle, the clock and the room tick it was given
  at their fixed offsets and the captured layout everywhere else; a handle or tick outside
  1 to 2^32 - 1 is refused.
\<close>

theorem descriptor_layout:
  assumes "descriptor handle elapsed tick = Inr bs"
  shows "length bs = 25 \<and> int (be_nat (slice 9 13 bs)) = handle \<and> int (be_nat (slice 21 25 bs)) = tick
    \<and> pack_f32 (max 0 elapsed) = Some (slice 13 17 bs) \<and> slice 0 9 bs = [0, 0, 0, 0, 0, 0x22, 0x01, 0x2b, 0x18]
    \<and> slice 17 21 bs = [0, 0, 0, 0] \<and> 1 \<le> handle \<and> 1 \<le> tick"
proof -
  from assms obtain clock where range: "1 \<le> handle" "handle \<le> 0xFFFFFFFF" "1 \<le> tick" "tick \<le> 0xFFFFFFFF"
    and clock: "pack_f32 (max 0 elapsed) = Some clock"
    and bs: "bs = splice 21 25 (to_be 4 (nat tick)) (splice 13 17 clock (splice 9 13 (to_be 4 (nat handle)) SESSION_DESCRIPTOR_LAYOUT))"
    by (auto simp: descriptor_def pack_float_def rbind_eq_Inr Let_def split: if_splits option.splits)
  have c: "length clock = 4" by (rule length_pack_f32[OF clock])
  have layout: "length SESSION_DESCRIPTOR_LAYOUT = 25" by (simp add: SESSION_DESCRIPTOR_LAYOUT_def)
  have "slice 0 9 bs = slice 0 9 SESSION_DESCRIPTOR_LAYOUT" "slice 17 21 bs = slice 17 21 SESSION_DESCRIPTOR_LAYOUT"
    "slice 9 13 bs = to_be 4 (nat handle)" "slice 13 17 bs = clock" "slice 21 25 bs = to_be 4 (nat tick)" "length bs = 25"
    using c layout by (simp_all add: bs length_splice slice_splice_before slice_splice_after slice_splice_same)
  then show ?thesis
    using range clock by (simp add: SESSION_DESCRIPTOR_LAYOUT_def slice_def)
qed

theorem descriptor_layout_witness:
  "\<exists>bs. descriptor 9 (61 / 2) 77 = Inr bs \<and> be_nat (slice 9 13 bs) = 9"
proof -
  obtain bs where b: "descriptor 9 (61 / 2) 77 = Inr bs"
    by (simp add: descriptor_def pack_float_def pack_samples)
  from descriptor_layout[OF b] b show ?thesis by fastforce
qed

end
