(* ===== verification/ResultCodec.thy ===== *)
theory ResultCodec
  imports GmProtocol Codec
begin

text \<open>
  The codecs of \<open>server/carbon/gamemanager/results.py\<close>: finish signals, racer slots, the
  game results and the timestamp of the final results.  The floats of a slot are the
  single-precision patterns of the wire (\<open>struct\<close> reads and writes a finite one unchanged).
  The lemmas give the round trips; the slot codec interprets \<open>record_codec\<close>.
\<close>

section \<open>Constants and errors\<close>

definition MAX_RACERS :: nat where
  "MAX_RACERS = 8"

definition LEADER_FINISHED_TYPE :: int where
  "LEADER_FINISHED_TYPE = ol_value LEADER_FINISHED"

definition RACER_FINISHED_TYPE :: int where
  "RACER_FINISHED_TYPE = ol_value RACER_FINISHED"

definition GAME_RESULTS_TYPE :: int where
  "GAME_RESULTS_TYPE = ol_value GAME_RESULTS"

definition FINAL_GAME_RESULTS_TYPE :: int where
  "FINAL_GAME_RESULTS_TYPE = ol_value FINAL_GAME_RESULTS"

lemmas result_types = LEADER_FINISHED_TYPE_def RACER_FINISHED_TYPE_def GAME_RESULTS_TYPE_def FINAL_GAME_RESULTS_TYPE_def

definition PLAYER_SLOT_WIRE_SIZE :: nat where
  "PLAYER_SLOT_WIRE_SIZE = 47"

definition PLAYER_RESULTS_WIRE_SIZE :: nat where
  "PLAYER_RESULTS_WIRE_SIZE = 10 + MAX_RACERS * PLAYER_SLOT_WIRE_SIZE"

definition GAME_RESULTS_WIRE_SIZE :: nat where
  "GAME_RESULTS_WIRE_SIZE = length LOGICAL_PREFIX + 1 + PLAYER_RESULTS_WIRE_SIZE"

definition FINAL_DATE_WIRE_SIZE :: nat where
  "FINAL_DATE_WIRE_SIZE = 10"

definition FINAL_RESULTS_WIRE_SIZE :: nat where
  "FINAL_RESULTS_WIRE_SIZE = GAME_RESULTS_WIRE_SIZE + FINAL_DATE_WIRE_SIZE"

lemma wire_sizes: "GAME_RESULTS_WIRE_SIZE = 391" "FINAL_RESULTS_WIRE_SIZE = 401"
  by (simp_all add: GAME_RESULTS_WIRE_SIZE_def FINAL_RESULTS_WIRE_SIZE_def PLAYER_RESULTS_WIRE_SIZE_def MAX_RACERS_def
      PLAYER_SLOT_WIRE_SIZE_def FINAL_DATE_WIRE_SIZE_def LOGICAL_PREFIX_def)

datatype result_error =
    FinishSignalTruncated
  | UnexpectedFinishType nat int
  | NotAFinishSignal nat
  | InvalidFinishMessageType int
  | SignedOverflow
  | InvalidRanking int
  | NonFiniteValue
  | InvalidNumberOfRacers int
  | InvalidResultMessageType int
  | LacksPrefix
  | NotAResultMessage nat
  | ResultTruncated nat nat
  | TimestampTruncated
  | StructOutOfRange
  | AlreadyFinalized
  | NoParticipants

section \<open>Signed 32-bit integers\<close>

definition fits_i32 :: "int \<Rightarrow> bool" where
  "fits_i32 v \<longleftrightarrow> -0x80000000 \<le> v \<and> v \<le> 0x7FFFFFFF"

definition signed_be :: "bytes \<Rightarrow> int" where
  "signed_be bs = (let n = int (be_nat bs) in if n \<ge> 0x80000000 then n - 0x100000000 else n)"

lemma signed_be_to_be: "fits_i32 v \<Longrightarrow> signed_be (to_be 4 (umask 32 v)) = v"
proof -
  assume v: "fits_i32 v"
  have "int (umask 32 v) = (if 0 \<le> v then v else v + 0x100000000)"
    using v umask_small[of v 32] umask_negative[of v 32] by (auto simp: fits_i32_def)
  moreover have "umask 32 v mod 4294967296 = umask 32 v" using umask_less[of 32 v] by simp
  ultimately show ?thesis using v by (auto simp: signed_be_def fits_i32_def Let_def)
qed

section \<open>Finish signals\<close>

record finish_signal =
  fs_server_car_id :: int
  fs_finish_reason :: int

definition decode_finish_signal :: "bytes \<Rightarrow> int option \<Rightarrow> result_error + finish_signal" where
  "decode_finish_signal raw expected_type =
     (if length raw < 13 \<or> take 4 raw \<noteq> LOGICAL_PREFIX then Inl FinishSignalTruncated
      else let kind = unat (raw ! 4)
           in case expected_type of
                Some t \<Rightarrow> if int kind \<noteq> t then Inl (UnexpectedFinishType kind t)
                          else if int kind \<noteq> LEADER_FINISHED_TYPE \<and> int kind \<noteq> RACER_FINISHED_TYPE then Inl (NotAFinishSignal kind)
                          else Inr \<lparr>fs_server_car_id = signed_be (slice 9 13 raw), fs_finish_reason = signed_be (slice 5 9 raw)\<rparr>
              | None \<Rightarrow>
                  if int kind \<noteq> LEADER_FINISHED_TYPE \<and> int kind \<noteq> RACER_FINISHED_TYPE then Inl (NotAFinishSignal kind)
                  else Inr \<lparr>fs_server_car_id = signed_be (slice 9 13 raw), fs_finish_reason = signed_be (slice 5 9 raw)\<rparr>)"

definition encode_finish_signal :: "finish_signal \<Rightarrow> int \<Rightarrow> result_error + bytes" where
  "encode_finish_signal signal kind =
     (if kind \<noteq> LEADER_FINISHED_TYPE \<and> kind \<noteq> RACER_FINISHED_TYPE then Inl (InvalidFinishMessageType kind)
      else if \<not> fits_i32 (fs_finish_reason signal) \<or> \<not> fits_i32 (fs_server_car_id signal) then Inl SignedOverflow
      else Inr (LOGICAL_PREFIX @ [word_of_int kind] @ to_be 4 (umask 32 (fs_finish_reason signal))
                @ to_be 4 (umask 32 (fs_server_car_id signal))))"

section \<open>Racer slots\<close>

type_synonym f32 = "32 word"

definition f32_finite :: "f32 \<Rightarrow> bool" where
  "f32_finite w \<longleftrightarrow> (w AND 0x7F800000) \<noteq> 0x7F800000"

record racer_result =
  rr_lost_connection :: bool
  rr_ranking :: int
  rr_finish_reason :: int
  rr_canyon_points :: f32
  rr_server_car_id :: int
  rr_laps_completed :: f32
  rr_race_time :: f32
  rr_best_lap_time :: f32
  rr_average_speed :: f32
  rr_top_speed :: f32
  rr_lbs_nos_used :: f32
  rr_delta_xp :: f32
  rr_custom :: f32
  rr_custom2 :: f32

definition EMPTY_RACER :: racer_result where
  "EMPTY_RACER = \<lparr>rr_lost_connection = False, rr_ranking = 0, rr_finish_reason = 0, rr_canyon_points = 0, rr_server_car_id = 0,
     rr_laps_completed = 0, rr_race_time = 0, rr_best_lap_time = 0, rr_average_speed = 0, rr_top_speed = 0, rr_lbs_nos_used = 0,
     rr_delta_xp = 0, rr_custom = 0, rr_custom2 = 0\<rparr>"

text \<open>The ten float fields, in the order \<open>clean\<close> checks them and in the order of the wire.\<close>

definition racer_floats :: "racer_result \<Rightarrow> f32 list" where
  "racer_floats r = [rr_canyon_points r, rr_laps_completed r, rr_race_time r, rr_best_lap_time r, rr_average_speed r,
     rr_top_speed r, rr_lbs_nos_used r, rr_delta_xp r, rr_custom r, rr_custom2 r]"

definition clean_racer :: "racer_result \<Rightarrow> result_error + racer_result" where
  "clean_racer r =
     (if \<not> (0 \<le> rr_ranking r \<and> rr_ranking r \<le> int MAX_RACERS) then Inl (InvalidRanking (rr_ranking r))
      else if \<not> list_all f32_finite (racer_floats r) then Inl NonFiniteValue
      else Inr (r\<lparr>rr_finish_reason := int (umask 8 (rr_finish_reason r))\<rparr>))"

definition f32_bytes :: "f32 \<Rightarrow> bytes" where
  "f32_bytes w = to_be 4 (unat w)"

definition f32_of :: "bytes \<Rightarrow> f32" where
  "f32_of bs = word_of_nat (be_nat bs)"

text \<open>\<open>struct.pack(">BBBfi9f", ...)\<close> of a cleaned row.\<close>

definition pack_slot :: "racer_result \<Rightarrow> result_error + bytes" where
  "pack_slot r =
     (if \<not> fits_i32 (rr_server_car_id r) then Inl StructOutOfRange
      else Inr ([of_bool (rr_lost_connection r), word_of_int (rr_ranking r), word_of_int (rr_finish_reason r)]
                @ f32_bytes (rr_canyon_points r) @ to_be 4 (umask 32 (rr_server_car_id r))
                @ f32_bytes (rr_laps_completed r) @ f32_bytes (rr_race_time r) @ f32_bytes (rr_best_lap_time r)
                @ f32_bytes (rr_average_speed r) @ f32_bytes (rr_top_speed r) @ f32_bytes (rr_lbs_nos_used r)
                @ f32_bytes (rr_delta_xp r) @ f32_bytes (rr_custom r) @ f32_bytes (rr_custom2 r)))"

definition encode_slot :: "racer_result \<Rightarrow> result_error + bytes" where
  "encode_slot r = rbind (clean_racer r) pack_slot"

text \<open>\<open>struct.unpack_from(">BBBfi9f", raw, offset)\<close> on a buffer of checked length, then \<open>clean\<close>.\<close>

definition unpack_slot :: "bytes \<Rightarrow> nat \<Rightarrow> racer_result" where
  "unpack_slot raw offset =
     \<lparr>rr_lost_connection = (raw ! offset \<noteq> 0), rr_ranking = uint (raw ! (offset + 1)), rr_finish_reason = uint (raw ! (offset + 2)),
      rr_canyon_points = f32_of (slice (offset + 3) (offset + 7) raw),
      rr_server_car_id = signed_be (slice (offset + 7) (offset + 11) raw),
      rr_laps_completed = f32_of (slice (offset + 11) (offset + 15) raw),
      rr_race_time = f32_of (slice (offset + 15) (offset + 19) raw),
      rr_best_lap_time = f32_of (slice (offset + 19) (offset + 23) raw),
      rr_average_speed = f32_of (slice (offset + 23) (offset + 27) raw),
      rr_top_speed = f32_of (slice (offset + 27) (offset + 31) raw),
      rr_lbs_nos_used = f32_of (slice (offset + 31) (offset + 35) raw),
      rr_delta_xp = f32_of (slice (offset + 35) (offset + 39) raw),
      rr_custom = f32_of (slice (offset + 39) (offset + 43) raw),
      rr_custom2 = f32_of (slice (offset + 43) (offset + 47) raw)\<rparr>"

definition decode_slot :: "bytes \<Rightarrow> nat \<Rightarrow> result_error + racer_result \<times> nat" where
  "decode_slot raw offset =
     rbind (clean_racer (unpack_slot raw offset)) (\<lambda>row. Inr (row, offset + PLAYER_SLOT_WIRE_SIZE))"

lemma f32_roundtrip [simp]: "f32_of (f32_bytes w) = w"
proof -
  have "unat w < 2 ^ 32" using unsigned_less[of w, where ?'a = nat] by simp
  then show ?thesis by (simp add: f32_of_def f32_bytes_def)
qed

lemma length_f32_bytes [simp]: "length (f32_bytes w) = 4"
  by (simp add: f32_bytes_def)

definition canonical_racer :: "racer_result \<Rightarrow> racer_result" where
  "canonical_racer r = r\<lparr>rr_finish_reason := int (umask 8 (rr_finish_reason r))\<rparr>"

lemma clean_racer_Inr:
  "clean_racer r = Inr r' \<longleftrightarrow> 0 \<le> rr_ranking r \<and> rr_ranking r \<le> 8 \<and> list_all f32_finite (racer_floats r) \<and> r' = canonical_racer r"
  by (auto simp: clean_racer_def canonical_racer_def MAX_RACERS_def)

lemma clean_racer_idem: "clean_racer r = Inr r' \<Longrightarrow> clean_racer r' = Inr r'"
  by (auto simp: clean_racer_Inr canonical_racer_def racer_floats_def)

lemma uint_byte_of_int: "0 \<le> v \<Longrightarrow> v < 256 \<Longrightarrow> uint (word_of_int v :: byte) = v"
  by (simp add: uint_word_of_int)

lemma uint_byte_of_umask: "uint (word_of_int (int (umask 8 v)) :: byte) = int (umask 8 v)"
  using umask_less[of 8 v] by (intro uint_byte_of_int) simp_all

lemma unpack_pack_slot:
  assumes "pack_slot r = Inr bs" "0 \<le> rr_ranking r" "rr_ranking r \<le> 8" "0 \<le> rr_finish_reason r" "rr_finish_reason r < 256"
  shows "length bs = 47 \<and> unpack_slot (pre @ bs @ post) (length pre) = r"
proof -
  from assms(1) have fits: "fits_i32 (rr_server_car_id r)"
    and bs: "bs = [of_bool (rr_lost_connection r), word_of_int (rr_ranking r), word_of_int (rr_finish_reason r)]
                @ f32_bytes (rr_canyon_points r) @ to_be 4 (umask 32 (rr_server_car_id r))
                @ f32_bytes (rr_laps_completed r) @ f32_bytes (rr_race_time r) @ f32_bytes (rr_best_lap_time r)
                @ f32_bytes (rr_average_speed r) @ f32_bytes (rr_top_speed r) @ f32_bytes (rr_lbs_nos_used r)
                @ f32_bytes (rr_delta_xp r) @ f32_bytes (rr_custom r) @ f32_bytes (rr_custom2 r)"
    by (auto simp: pack_slot_def split: if_splits)
  have len: "length bs = 47" by (simp add: bs)
  have s: "slice (length pre + a) (length pre + b) (pre @ bs @ post) = slice a b bs" if "b \<le> 47" for a b
    using that len by (simp add: slice_append_right slice_append_left)
  have n: "(pre @ bs @ post) ! (length pre + i) = bs ! i" if "i < 47" for i
    using that len by (simp add: nth_append)
  have n0: "(pre @ bs @ post) ! length pre = bs ! 0" "(pre @ bs @ post) ! Suc (length pre) = bs ! Suc 0"
    "(pre @ bs @ post) ! Suc (Suc (length pre)) = bs ! 2"
    using n[of 0] n[of 1] n[of 2] by simp_all
  have f: "slice 3 7 bs = f32_bytes (rr_canyon_points r)" "slice 7 11 bs = to_be 4 (umask 32 (rr_server_car_id r))"
    "slice 11 15 bs = f32_bytes (rr_laps_completed r)" "slice 15 19 bs = f32_bytes (rr_race_time r)"
    "slice 19 23 bs = f32_bytes (rr_best_lap_time r)" "slice 23 27 bs = f32_bytes (rr_average_speed r)"
    "slice 27 31 bs = f32_bytes (rr_top_speed r)" "slice 31 35 bs = f32_bytes (rr_lbs_nos_used r)"
    "slice 35 39 bs = f32_bytes (rr_delta_xp r)" "slice 39 43 bs = f32_bytes (rr_custom r)" "slice 43 47 bs = f32_bytes (rr_custom2 r)"
    by (simp_all add: bs slice_def)
  have b: "(bs ! 0 \<noteq> 0) = rr_lost_connection r" "uint (bs ! Suc 0) = rr_ranking r" "uint (bs ! 2) = rr_finish_reason r"
    using assms(2-5) by (simp_all add: bs uint_byte_of_int)
  have "unpack_slot (pre @ bs @ post) (length pre) = r"
    by (rule racer_result.equality) (simp_all add: unpack_slot_def s n n0 f b signed_be_to_be[OF fits] del: append_assoc)
  with len show ?thesis by simp
qed

lemma decode_encode_slot:
  assumes "encode_slot r = Inr bs"
  shows "length bs = PLAYER_SLOT_WIRE_SIZE \<and> decode_slot (pre @ bs @ post) (length pre) = Inr (canonical_racer r, length pre + length bs)"
proof -
  from assms have clean: "clean_racer r = Inr (canonical_racer r)" and pack: "pack_slot (canonical_racer r) = Inr bs"
    by (auto simp: encode_slot_def rbind_eq_Inr clean_racer_Inr)
  have "0 \<le> rr_ranking (canonical_racer r)" "rr_ranking (canonical_racer r) \<le> 8"
    "0 \<le> rr_finish_reason (canonical_racer r)" "rr_finish_reason (canonical_racer r) < 256"
    using clean umask_less[of 8 "rr_finish_reason r"] by (auto simp: clean_racer_Inr canonical_racer_def)
  from unpack_pack_slot[OF pack this] have "length bs = 47" "unpack_slot (pre @ bs @ post) (length pre) = canonical_racer r"
    by blast+
  then show ?thesis using clean_racer_idem[OF clean] by (simp add: decode_slot_def PLAYER_SLOT_WIRE_SIZE_def)
qed

interpretation slot: record_codec encode_slot decode_slot canonical_racer
  by unfold_locales (use decode_encode_slot in blast)

section \<open>Game results\<close>

record player_game_results =
  pg_number_of_racers :: int
  pg_race_mode :: int
  pg_track_number :: int
  pg_track_direction :: int
  pg_number_of_laps :: int
  pg_reporting_server_car_id :: int
  pg_racers :: "racer_result list"

definition empty_results :: "int \<Rightarrow> player_game_results" where
  "empty_results race_mode = \<lparr>pg_number_of_racers = 0, pg_race_mode = race_mode, pg_track_number = 0, pg_track_direction = 0,
     pg_number_of_laps = 0, pg_reporting_server_car_id = 0, pg_racers = replicate MAX_RACERS EMPTY_RACER\<rparr>"

fun clean_all :: "racer_result list \<Rightarrow> result_error + racer_result list" where
  "clean_all [] = Inr []"
| "clean_all (r # rs) = rbind (clean_racer r) (\<lambda>r'. rbind (clean_all rs) (\<lambda>rs'. Inr (r' # rs')))"

definition normalized :: "player_game_results \<Rightarrow> result_error + player_game_results" where
  "normalized p =
     (let racer_count = pg_number_of_racers p
      in if \<not> (0 \<le> racer_count \<and> racer_count \<le> int MAX_RACERS) then Inl (InvalidNumberOfRacers racer_count)
         else rbind (clean_all (take MAX_RACERS (pg_racers p))) (\<lambda>racers.
           Inr (p\<lparr>pg_race_mode := int (umask 8 (pg_race_mode p)),
                  pg_track_number := int (umask 16 (pg_track_number p)),
                  pg_track_direction := int (umask 8 (pg_track_direction p)),
                  pg_number_of_laps := int (umask 8 (pg_number_of_laps p)),
                  pg_racers := racers @ replicate (MAX_RACERS - length racers) EMPTY_RACER\<rparr>)))"

definition row_for_car :: "player_game_results \<Rightarrow> int \<Rightarrow> racer_result option" where
  "row_for_car p target = find (\<lambda>row. rr_server_car_id row = target) (pg_racers p)"

text \<open>The fields of \<open>datetime.timetuple()\<close> that the encoder reads.\<close>

record time_tuple =
  tm_year :: int
  tm_mon :: int
  tm_mday :: int
  tm_hour :: int
  tm_min :: int
  tm_sec :: int
  tm_wday :: int
  tm_yday :: int
  tm_isdst :: int

record result_timestamp =
  ts_year_day :: nat
  ts_hour :: nat
  ts_daylight_saving :: nat
  ts_month_day :: nat
  ts_minute :: nat
  ts_month :: nat
  ts_second :: nat
  ts_week_day :: nat
  ts_year_since_1900 :: nat

definition encode_final_datetime :: "time_tuple \<Rightarrow> bytes" where
  "encode_final_datetime t =
     to_be 2 (umask 16 (max 0 (tm_yday t - 1)))
     @ [word_of_nat (umask 8 (tm_hour t)),
        (if tm_isdst t > 0 then 1 else 0),
        word_of_nat (umask 8 (tm_mday t)),
        word_of_nat (umask 8 (tm_min t)),
        word_of_nat (umask 8 (tm_mon t - 1)),
        word_of_nat (umask 8 (tm_sec t)),
        word_of_int ((tm_wday t + 1) mod 7),
        word_of_nat (umask 8 (tm_year t - 1900))]"

definition decode_final_datetime :: "bytes \<Rightarrow> result_error + result_timestamp" where
  "decode_final_datetime raw =
     (if length raw < FINAL_DATE_WIRE_SIZE then Inl TimestampTruncated
      else Inr \<lparr>ts_year_day = be_nat (slice 0 2 raw), ts_hour = unat (raw ! 2), ts_daylight_saving = unat (raw ! 3),
                ts_month_day = unat (raw ! 4), ts_minute = unat (raw ! 5), ts_month = unat (raw ! 6), ts_second = unat (raw ! 7),
                ts_week_day = unat (raw ! 8), ts_year_since_1900 = unat (raw ! 9)\<rparr>)"

definition pack_header :: "player_game_results \<Rightarrow> result_error + bytes" where
  "pack_header p =
     (if \<not> fits_i32 (pg_reporting_server_car_id p) then Inl StructOutOfRange
      else Inr ([word_of_int (pg_number_of_racers p), word_of_int (pg_race_mode p)] @ to_be 2 (nat (pg_track_number p))
                @ [word_of_int (pg_track_direction p), word_of_int (pg_number_of_laps p)]
                @ to_be 4 (umask 32 (pg_reporting_server_car_id p))))"

text \<open>\<open>when\<close> is the time given, or the current one when the source reads the clock.\<close>

definition encode_results :: "player_game_results \<Rightarrow> int \<Rightarrow> time_tuple \<Rightarrow> result_error + bytes" where
  "encode_results p kind when =
     (if kind \<noteq> GAME_RESULTS_TYPE \<and> kind \<noteq> FINAL_GAME_RESULTS_TYPE then Inl (InvalidResultMessageType kind)
      else rbind (normalized p) (\<lambda>result.
           rbind (pack_header result) (\<lambda>header.
           rbind (encode_run encode_slot (pg_racers result)) (\<lambda>rows.
             Inr (LOGICAL_PREFIX @ [word_of_int kind] @ header @ rows
                  @ (if kind = FINAL_GAME_RESULTS_TYPE then encode_final_datetime when else []))))))"

record decoded_game_results =
  dg_message_type :: nat
  dg_results :: player_game_results
  dg_timestamp :: "result_timestamp option"
  dg_trailing :: bytes

definition decode_results :: "bytes \<Rightarrow> result_error + decoded_game_results" where
  "decode_results raw =
     (if length raw < 5 \<or> take 4 raw \<noteq> LOGICAL_PREFIX then Inl LacksPrefix
      else
        let kind = unat (raw ! 4);
            minimum = (if int kind = FINAL_GAME_RESULTS_TYPE then FINAL_RESULTS_WIRE_SIZE else GAME_RESULTS_WIRE_SIZE)
        in if int kind \<noteq> GAME_RESULTS_TYPE \<and> int kind \<noteq> FINAL_GAME_RESULTS_TYPE then Inl (NotAResultMessage kind)
           else if length raw < minimum then Inl (ResultTruncated kind minimum)
           else rbind (decode_run decode_slot MAX_RACERS raw 15) (\<lambda>(rows, offset).
                rbind (if int kind = FINAL_GAME_RESULTS_TYPE
                       then rbind (decode_final_datetime (slice offset (offset + FINAL_DATE_WIRE_SIZE) raw)) (\<lambda>t. Inr (Some t))
                       else Inr None) (\<lambda>timestamp.
                rbind (normalized \<lparr>pg_number_of_racers = uint (raw ! 5), pg_race_mode = uint (raw ! 6),
                         pg_track_number = int (be_nat (slice 7 9 raw)), pg_track_direction = uint (raw ! 9),
                         pg_number_of_laps = uint (raw ! 10), pg_reporting_server_car_id = signed_be (slice 11 15 raw),
                         pg_racers = rows\<rparr>) (\<lambda>results.
                  Inr \<lparr>dg_message_type = kind, dg_results = results, dg_timestamp = timestamp,
                       dg_trailing = drop minimum raw\<rparr>))))"

section \<open>Results read back\<close>

lemma clean_all_Inr: "clean_all rs = Inr rs' \<longleftrightarrow> (\<forall>r \<in> set rs. is_ok (clean_racer r)) \<and> rs' = map canonical_racer rs"
proof (induction rs arbitrary: rs')
  case (Cons r rs)
  show ?case
  proof (cases "clean_racer r")
    case (Inr r')
    then have "r' = canonical_racer r" by (simp add: clean_racer_Inr)
    with Inr Cons show ?thesis by (auto simp: rbind_eq_Inr)
  qed simp
qed auto

lemma canonical_idem [simp]: "canonical_racer (canonical_racer r) = canonical_racer r"
  by (simp add: canonical_racer_def)

lemma canonical_clean: "is_ok (clean_racer r) \<Longrightarrow> clean_racer (canonical_racer r) = Inr (canonical_racer r)"
  by (auto simp: is_ok_iff clean_racer_Inr canonical_racer_def racer_floats_def)

lemma empty_racer_clean [simp]: "canonical_racer EMPTY_RACER = EMPTY_RACER" "clean_racer EMPTY_RACER = Inr EMPTY_RACER"
  by (simp_all add: canonical_racer_def EMPTY_RACER_def umask_def clean_racer_def racer_floats_def f32_finite_def)

definition results_normal :: "player_game_results \<Rightarrow> bool" where
  "results_normal q \<longleftrightarrow> 0 \<le> pg_number_of_racers q \<and> pg_number_of_racers q \<le> 8
     \<and> 0 \<le> pg_race_mode q \<and> pg_race_mode q < 256 \<and> 0 \<le> pg_track_number q \<and> pg_track_number q < 65536
     \<and> 0 \<le> pg_track_direction q \<and> pg_track_direction q < 256 \<and> 0 \<le> pg_number_of_laps q \<and> pg_number_of_laps q < 256
     \<and> length (pg_racers q) = 8 \<and> (\<forall>r \<in> set (pg_racers q). clean_racer r = Inr r)"

lemma normalized_normal: "normalized p = Inr q \<Longrightarrow> results_normal q"
proof -
  assume n: "normalized p = Inr q"
  then obtain racers where c: "clean_all (take 8 (pg_racers p)) = Inr racers" "0 \<le> pg_number_of_racers p" "pg_number_of_racers p \<le> 8"
    and q: "q = p\<lparr>pg_race_mode := int (umask 8 (pg_race_mode p)), pg_track_number := int (umask 16 (pg_track_number p)),
                  pg_track_direction := int (umask 8 (pg_track_direction p)), pg_number_of_laps := int (umask 8 (pg_number_of_laps p)),
                  pg_racers := racers @ replicate (8 - length racers) EMPTY_RACER\<rparr>"
    by (auto simp: normalized_def rbind_eq_Inr Let_def MAX_RACERS_def split: if_splits)
  have "umask 8 v < 256" "umask 16 v < 65536" for v using umask_less[of 8 v] umask_less[of 16 v] by simp_all
  moreover have "length racers \<le> 8" "\<forall>r \<in> set racers. clean_racer r = Inr r"
    using c(1) canonical_clean by (auto simp: clean_all_Inr)
  ultimately show ?thesis
    using c by (auto simp: q results_normal_def)
qed

lemma clean_all_clean: "\<forall>r \<in> set rs. clean_racer r = Inr r \<Longrightarrow> clean_all rs = Inr rs"
  by (induction rs) simp_all

lemma umask_fixed: "0 \<le> v \<Longrightarrow> v < 2 ^ k \<Longrightarrow> int (umask k v) = v"
  by (simp add: umask_def)

lemma normal_normalized: "results_normal q \<Longrightarrow> normalized q = Inr q"
proof -
  assume n: "results_normal q"
  then have "take MAX_RACERS (pg_racers q) = pg_racers q" by (simp add: results_normal_def MAX_RACERS_def)
  moreover have "int (umask 8 (pg_race_mode q)) = pg_race_mode q" "int (umask 16 (pg_track_number q)) = pg_track_number q"
    "int (umask 8 (pg_track_direction q)) = pg_track_direction q" "int (umask 8 (pg_number_of_laps q)) = pg_number_of_laps q"
    using n by (auto simp: results_normal_def intro!: umask_fixed)
  ultimately show ?thesis
    using n clean_all_clean[of "pg_racers q"] by (simp add: normalized_def results_normal_def MAX_RACERS_def Let_def)
qed

lemma length_encode_run_slots: "encode_run encode_slot rs = Inr bs \<Longrightarrow> length bs = 47 * length rs"
proof (induction rs arbitrary: bs)
  case (Cons r rs)
  then obtain b cs where "encode_slot r = Inr b" "encode_run encode_slot rs = Inr cs" "bs = b @ cs"
    by (auto simp: rbind_eq_Inr)
  with Cons.IH[of cs] decode_encode_slot[of r b] show ?case by (simp add: PLAYER_SLOT_WIRE_SIZE_def)
qed simp

lemma length_final_datetime: "length (encode_final_datetime t) = 10"
  by (simp add: encode_final_datetime_def)

lemma canonical_of_clean: "clean_racer r = Inr r \<Longrightarrow> canonical_racer r = r"
  by (simp add: clean_racer_Inr)

lemma map_canonical: "\<forall>r \<in> set rs. clean_racer r = Inr r \<Longrightarrow> map canonical_racer rs = rs"
  by (simp add: canonical_of_clean map_idI)

text \<open>An encoded result message reads back as the normalised results it was made from.\<close>

lemma results_read_back:
  assumes "encode_results p kind when = Inr bs"
  shows "\<exists>q. normalized p = Inr q
    \<and> decode_results (bs @ trailing) = Inr \<lparr>dg_message_type = nat kind, dg_results = q,
        dg_timestamp = (if kind = FINAL_GAME_RESULTS_TYPE
          then (case decode_final_datetime (encode_final_datetime when) of Inl _ \<Rightarrow> None | Inr t \<Rightarrow> Some t) else None),
        dg_trailing = trailing\<rparr>"
proof -
  define date where "date = (if kind = FINAL_GAME_RESULTS_TYPE then encode_final_datetime when else [])"
  from assms obtain q header rows where kind: "kind = 0x10 \<or> kind = 0x11"
    and q: "normalized p = Inr q" and header: "pack_header q = Inr header"
    and rows: "encode_run encode_slot (pg_racers q) = Inr rows"
    and bs: "bs = LOGICAL_PREFIX @ [word_of_int kind] @ header @ rows @ date"
    by (auto simp: encode_results_def rbind_eq_Inr result_types date_def split: if_splits)
  note normal = normalized_normal[OF q]
  have lr: "length rows = 376" using length_encode_run_slots[OF rows] normal by (simp add: results_normal_def)
  from header have fits: "fits_i32 (pg_reporting_server_car_id q)" and h: "header =
      [word_of_int (pg_number_of_racers q), word_of_int (pg_race_mode q)] @ to_be 2 (nat (pg_track_number q))
      @ [word_of_int (pg_track_direction q), word_of_int (pg_number_of_laps q)] @ to_be 4 (umask 32 (pg_reporting_server_car_id q))"
    by (auto simp: pack_header_def split: if_splits)
  have lh: "length header = 10" by (simp add: h)
  have ld: "length date = (if kind = FINAL_GAME_RESULTS_TYPE then 10 else 0)" by (simp add: date_def length_final_datetime)
  define raw where "raw = bs @ trailing"
  define pre where "pre = LOGICAL_PREFIX @ [word_of_int kind] @ header"
  have lp: "length pre = 15" by (simp add: pre_def lh LOGICAL_PREFIX_def)
  have raw: "raw = pre @ rows @ date @ trailing" by (simp add: raw_def bs pre_def)
  have k: "int (unat (raw ! 4)) = kind" "unat (raw ! 4) = nat kind" using kind by (auto simp: raw pre_def LOGICAL_PREFIX_def)
  have prefix: "take 4 raw = LOGICAL_PREFIX" by (simp add: raw pre_def LOGICAL_PREFIX_def)
  have run: "decode_run decode_slot MAX_RACERS raw 15 = Inr (pg_racers q, 391)"
    using slot.decode_run_encode_run[OF rows, of pre "date @ trailing"] normal lp lr map_canonical[of "pg_racers q"]
    by (simp add: raw results_normal_def MAX_RACERS_def)
  have fields: "uint (raw ! 5) = pg_number_of_racers q" "uint (raw ! 6) = pg_race_mode q" "int (be_nat (slice 7 9 raw)) = pg_track_number q"
    "uint (raw ! 9) = pg_track_direction q" "uint (raw ! 10) = pg_number_of_laps q"
    "signed_be (slice 11 15 raw) = pg_reporting_server_car_id q"
    using normal signed_be_to_be[OF fits]
    by (simp_all add: raw pre_def LOGICAL_PREFIX_def h slice_def results_normal_def uint_byte_of_int nat_less_iff nth_append)
  have date_slice: "slice 391 401 raw = date" if "kind = FINAL_GAME_RESULTS_TYPE"
    using that lp lr ld by (simp add: raw slice_def)
  have drop: "drop (391 + length date) raw = trailing" using lp lr by (simp add: raw)
  have len: "length raw = 391 + length date + length trailing" using lp lr by (simp add: raw)
  have self: "\<lparr>pg_number_of_racers = pg_number_of_racers q, pg_race_mode = pg_race_mode q, pg_track_number = pg_track_number q,
      pg_track_direction = pg_track_direction q, pg_number_of_laps = pg_number_of_laps q,
      pg_reporting_server_car_id = pg_reporting_server_car_id q, pg_racers = pg_racers q\<rparr> = q" by simp
  obtain t where dec: "decode_final_datetime (encode_final_datetime when) = Inr t"
    by (simp add: decode_final_datetime_def length_final_datetime FINAL_DATE_WIRE_SIZE_def)
  have "decode_results raw = Inr \<lparr>dg_message_type = nat kind, dg_results = q,
        dg_timestamp = (if kind = FINAL_GAME_RESULTS_TYPE
          then (case decode_final_datetime (encode_final_datetime when) of Inl _ \<Rightarrow> None | Inr t \<Rightarrow> Some t) else None),
        dg_trailing = trailing\<rparr>"
  proof (cases "kind = FINAL_GAME_RESULTS_TYPE")
    case True
    then show ?thesis
      using prefix k run date_slice drop len ld normal_normalized[OF normal] dec
      by (simp add: decode_results_def wire_sizes fields self date_def FINAL_DATE_WIRE_SIZE_def result_types Let_def)
  next
    case False
    then show ?thesis
      using prefix k run drop len ld kind normal_normalized[OF normal]
      by (auto simp: decode_results_def wire_sizes fields self result_types Let_def)
  qed
  with q show ?thesis unfolding raw_def by blast
qed


definition sample_results :: player_game_results where
  "sample_results = (empty_results 1)\<lparr>pg_number_of_racers := 1, pg_reporting_server_car_id := 5,
     pg_racers := [EMPTY_RACER\<lparr>rr_ranking := 1, rr_server_car_id := 5, rr_race_time := 0x42C80000\<rparr>]\<rparr>"

lemma sample_row_clean:
  "clean_racer (EMPTY_RACER\<lparr>rr_ranking := 1, rr_server_car_id := 5, rr_race_time := 0x42C80000\<rparr>)
   = Inr (EMPTY_RACER\<lparr>rr_ranking := 1, rr_server_car_id := 5, rr_race_time := 0x42C80000\<rparr>)"
  by (simp add: clean_racer_def EMPTY_RACER_def MAX_RACERS_def racer_floats_def f32_finite_def umask_def)


text \<open>
  Finish signals round-trip: the car and the finish reason a signal is encoded with,
  negative ones included, are what its decoder returns, for both message types, asked for
  or not; any other expected type is refused.
\<close>

theorem finish_signal_roundtrip:
  assumes "encode_finish_signal signal kind = Inr bs"
  shows "decode_finish_signal bs None = Inr signal \<and> decode_finish_signal bs (Some kind) = Inr signal
    \<and> (\<forall>other. other \<noteq> kind \<longrightarrow> decode_finish_signal bs (Some other) = Inl (UnexpectedFinishType (nat kind) other))"
proof -
  from assms have kind: "kind = 0x0D \<or> kind = 0x0E" and fits: "fits_i32 (fs_finish_reason signal)" "fits_i32 (fs_server_car_id signal)"
    and bs: "bs = LOGICAL_PREFIX @ [word_of_int kind] @ to_be 4 (umask 32 (fs_finish_reason signal)) @ to_be 4 (umask 32 (fs_server_car_id signal))"
    by (auto simp: encode_finish_signal_def result_types split: if_splits)
  have "unat (bs ! 4) = nat kind" "int (nat kind) = kind" using kind by (auto simp: bs LOGICAL_PREFIX_def)
  moreover have "length bs = 13" "take 4 bs = LOGICAL_PREFIX" by (simp_all add: bs LOGICAL_PREFIX_def)
  moreover have "slice 5 9 bs = to_be 4 (umask 32 (fs_finish_reason signal))" "slice 9 13 bs = to_be 4 (umask 32 (fs_server_car_id signal))"
    by (simp_all add: bs LOGICAL_PREFIX_def slice_def)
  ultimately show ?thesis
    using kind signed_be_to_be[OF fits(1)] signed_be_to_be[OF fits(2)]
    by (auto simp: decode_finish_signal_def result_types Let_def)
qed

theorem finish_signal_roundtrip_witness:
  "\<exists>bs. encode_finish_signal \<lparr>fs_server_car_id = 5, fs_finish_reason = -1\<rparr> LEADER_FINISHED_TYPE = Inr bs
    \<and> decode_finish_signal bs None = Inr \<lparr>fs_server_car_id = 5, fs_finish_reason = -1\<rparr>"
proof -
  obtain bs where b: "encode_finish_signal \<lparr>fs_server_car_id = 5, fs_finish_reason = -1\<rparr> LEADER_FINISHED_TYPE = Inr bs"
    by (simp add: encode_finish_signal_def fits_i32_def)
  from finish_signal_roundtrip[OF b] b show ?thesis by blast
qed

end
