(* ===== verification/Results.thy ===== *)
theory Results
  imports ResultCodec
begin

text \<open>
  \<open>RaceResultTracker\<close> of \<open>server/carbon/gamemanager/results.py\<close>: the evidence a room collects
  about its race (which profile drives which car, the finish signals in their order, the
  players' reports) and its arbitration into one final result.  The lemmas show the
  invariant of the evidence, what a unanimous report order means, and that a race is
  finalised once, with its winners as the finish order says.
\<close>

section \<open>Equality of reports\<close>

text \<open>Python compares the floats of two rows by value: the two zeros are equal.\<close>

definition f32_eq :: "f32 \<Rightarrow> f32 \<Rightarrow> bool" where
  "f32_eq a b \<longleftrightarrow> a = b \<or> (a AND 0x7FFFFFFF) = 0 \<and> (b AND 0x7FFFFFFF) = 0"

definition racer_eq :: "racer_result \<Rightarrow> racer_result \<Rightarrow> bool" where
  "racer_eq a b \<longleftrightarrow> rr_lost_connection a = rr_lost_connection b \<and> rr_ranking a = rr_ranking b
     \<and> rr_finish_reason a = rr_finish_reason b \<and> rr_server_car_id a = rr_server_car_id b
     \<and> list_all2 f32_eq (racer_floats a) (racer_floats b)"

definition results_eq :: "player_game_results \<Rightarrow> player_game_results \<Rightarrow> bool" where
  "results_eq p q \<longleftrightarrow> pg_number_of_racers p = pg_number_of_racers q \<and> pg_race_mode p = pg_race_mode q
     \<and> pg_track_number p = pg_track_number q \<and> pg_track_direction p = pg_track_direction q
     \<and> pg_number_of_laps p = pg_number_of_laps q \<and> pg_reporting_server_car_id p = pg_reporting_server_car_id q
     \<and> list_all2 racer_eq (pg_racers p) (pg_racers q)"

section \<open>Collecting evidence\<close>

record authoritative_placement =
  ap_profile_id :: int
  ap_player_id :: int
  ap_server_car_id :: int
  ap_ranking :: int
  ap_finish_reason :: int
  ap_finished :: bool
  ap_lost_connection :: bool

record finalized_race =
  fr_results :: player_game_results
  fr_placements :: "authoritative_placement list"
  fr_winner_profile_ids :: "int list"
  fr_ranked :: bool

record race_result_tracker =
  tr_ranked :: bool
  tr_car_by_profile :: "(int \<times> int) list"
  tr_profile_by_car :: "(int \<times> int) list"
  tr_finish_signals :: "(int \<times> finish_signal) list"
  tr_finish_order :: "int list"
  tr_reports :: "(int \<times> player_game_results) list"
  tr_final_sent :: bool

definition new_tracker :: "bool \<Rightarrow> race_result_tracker" where
  "new_tracker ranked = \<lparr>tr_ranked = ranked, tr_car_by_profile = [], tr_profile_by_car = [], tr_finish_signals = [],
     tr_finish_order = [], tr_reports = [], tr_final_sent = False\<rparr>"

definition bind_car :: "int \<Rightarrow> int \<Rightarrow> race_result_tracker \<Rightarrow> bool \<times> race_result_tracker" where
  "bind_car profile car t =
     (if car \<le> 0 then (False, t)
      else if map_of (tr_car_by_profile t) profile \<notin> {None, Some car}
           \<or> map_of (tr_profile_by_car t) car \<notin> {None, Some profile} then (False, t)
      else (True, t\<lparr>tr_car_by_profile := AList.update profile car (tr_car_by_profile t),
                    tr_profile_by_car := AList.update car profile (tr_profile_by_car t)\<rparr>))"

definition record_finish :: "int \<Rightarrow> finish_signal \<Rightarrow> race_result_tracker \<Rightarrow> bool \<times> race_result_tracker" where
  "record_finish profile_id signal t =
     (let (bound, t) = bind_car profile_id (fs_server_car_id signal) t
      in if \<not> bound then (False, t)
         else if map_of (tr_finish_signals t) (fs_server_car_id signal) \<noteq> None then (False, t)
         else (True, t\<lparr>tr_finish_signals := AList.update (fs_server_car_id signal) signal (tr_finish_signals t),
                       tr_finish_order := tr_finish_order t @ [fs_server_car_id signal]\<rparr>))"

definition record_report :: "int \<Rightarrow> player_game_results \<Rightarrow> race_result_tracker \<Rightarrow> result_error + bool \<times> race_result_tracker" where
  "record_report profile report t =
     rbind (normalized report) (\<lambda>n.
       let car = pg_reporting_server_car_id n;
           (bound, t1) = (if car > 0 then bind_car profile car t else (True, t))
       in if car > 0 \<and> \<not> bound then Inr (False, t1)
          else Inr ((case map_of (tr_reports t1) profile of None \<Rightarrow> True | Some previous \<Rightarrow> \<not> results_eq previous n),
                    t1\<lparr>tr_reports := AList.update profile n (tr_reports t1)\<rparr>))"

section \<open>Orders\<close>

text \<open>\<open>dict.fromkeys(xs)\<close>: the first occurrences, in order.\<close>

definition dedupe :: "'a list \<Rightarrow> 'a list" where
  "dedupe xs = rev (remdups (rev xs))"

definition row_reported :: "race_result_tracker \<Rightarrow> int \<Rightarrow> int \<Rightarrow> racer_result option" where
  "row_reported t reporter car =
     (case map_of (tr_reports t) reporter of None \<Rightarrow> None | Some report \<Rightarrow> row_for_car report car)"

text \<open>The inner loop: the ranks every reporter gives a car, as a set; none if one is missing.\<close>

fun reported_ranks :: "race_result_tracker \<Rightarrow> int \<Rightarrow> int list \<Rightarrow> int list option" where
  "reported_ranks t car [] = Some []"
| "reported_ranks t car (reporter # reporters) =
     (case row_reported t reporter car of
        None \<Rightarrow> None
      | Some row \<Rightarrow>
          if rr_lost_connection row \<or> rr_ranking row \<le> 0 then None
          else map_option (\<lambda>ranks. List.insert (rr_ranking row) ranks) (reported_ranks t car reporters))"

fun ranks_by_car :: "race_result_tracker \<Rightarrow> int list \<Rightarrow> int list \<Rightarrow> (int \<times> int) list \<Rightarrow> (int \<times> int) list option" where
  "ranks_by_car t expected [] acc = Some acc"
| "ranks_by_car t expected (profile # profiles) acc =
     (let car = the (map_of (tr_car_by_profile t) profile)
      in case reported_ranks t car expected of
           Some [rank] \<Rightarrow> ranks_by_car t expected profiles (AList.update car rank acc)
         | _ \<Rightarrow> None)"

definition ranked_report_order :: "race_result_tracker \<Rightarrow> int list \<Rightarrow> int list option" where
  "ranked_report_order t profile_ids =
     (let expected = dedupe profile_ids
      in if expected = [] \<or> \<not> list_all (\<lambda>p. map_of (tr_car_by_profile t) p \<noteq> None) expected then None
         else if \<not> list_all (\<lambda>p. map_of (tr_reports t) p \<noteq> None) expected then None
         else
           case ranks_by_car t expected expected [] of
             None \<Rightarrow> None
           | Some ranks \<Rightarrow>
               if \<not> distinct (map snd ranks) then None
               else
                 let order = map fst (sort_key snd (sort_key fst ranks));
                     observed = filter (\<lambda>car. map_of ranks car \<noteq> None) (tr_finish_order t)
                 in if take (length observed) order \<noteq> observed then None else Some order)"

text \<open>The quorum; the source iterates over a set of the profiles here, in no particular order.\<close>

definition is_complete :: "race_result_tracker \<Rightarrow> int list \<Rightarrow> bool" where
  "is_complete t profile_ids =
     (let expected = dedupe profile_ids
      in if expected = [] \<or> \<not> list_all (\<lambda>p. map_of (tr_car_by_profile t) p \<noteq> None) expected then False
         else if tr_ranked t then
           list_all (\<lambda>p. map_of (tr_finish_signals t) (the (map_of (tr_car_by_profile t) p)) \<noteq> None) expected
           \<or> ranked_report_order t expected \<noteq> None
         else list_all (\<lambda>p. map_of (tr_reports t) p \<noteq> None) expected)"

section \<open>Finalising\<close>

definition self_report_metric :: "player_game_results option \<Rightarrow> int \<Rightarrow> racer_result" where
  "self_report_metric report car =
     (case report of None \<Rightarrow> EMPTY_RACER
      | Some r \<Rightarrow> (case row_for_car r car of None \<Rightarrow> EMPTY_RACER | Some row \<Rightarrow> row))"

definition rows_reported :: "player_game_results list \<Rightarrow> int \<Rightarrow> racer_result list" where
  "rows_reported reports car = List.map_filter (\<lambda>report. row_for_car report car) reports"

text \<open>The one value of a set that holds exactly one, else the default.\<close>

definition sole :: "'a \<Rightarrow> 'a list \<Rightarrow> 'a" where
  "sole otherwise values = (case remdups values of [v] \<Rightarrow> v | _ \<Rightarrow> otherwise)"

definition consensus_finish_reason :: "player_game_results list \<Rightarrow> int \<Rightarrow> int" where
  "consensus_finish_reason reports car = sole 0 (map rr_finish_reason (rows_reported reports car))"

definition consensus_ranking :: "player_game_results list \<Rightarrow> int \<Rightarrow> int" where
  "consensus_ranking reports car = sole 0 (map rr_ranking (filter (\<lambda>row. rr_ranking row > 0) (rows_reported reports car)))"

definition consensus_lost_connection :: "player_game_results list \<Rightarrow> int \<Rightarrow> bool" where
  "consensus_lost_connection reports car = sole False (map rr_lost_connection (rows_reported reports car))"

text \<open>\<open>max(values, key=..., default=...)\<close>: the first of the greatest.\<close>

fun max_by :: "('a \<Rightarrow> int) \<Rightarrow> 'a \<Rightarrow> 'a list \<Rightarrow> 'a" where
  "max_by key best [] = best"
| "max_by key best (x # xs) = max_by key (if key x > key best then x else best) xs"

definition header_report :: "race_result_tracker \<Rightarrow> int \<Rightarrow> player_game_results" where
  "header_report t race_mode_fallback =
     (case map snd (tr_reports t) of [] \<Rightarrow> empty_results race_mode_fallback | r # rs \<Rightarrow> max_by pg_number_of_racers r rs)"

definition native_finish_complete :: "race_result_tracker \<Rightarrow> int list \<Rightarrow> bool" where
  "native_finish_complete t profiles \<longleftrightarrow> tr_ranked t \<and>
     list_all (\<lambda>p. case map_of (tr_car_by_profile t) p of None \<Rightarrow> False
                   | Some car \<Rightarrow> map_of (tr_finish_signals t) car \<noteq> None) profiles"

definition report_order_used :: "race_result_tracker \<Rightarrow> int list \<Rightarrow> int list option" where
  "report_order_used t profiles =
     (if tr_ranked t \<and> \<not> native_finish_complete t profiles then ranked_report_order t profiles else None)"

definition effective_finish_order :: "race_result_tracker \<Rightarrow> int list \<Rightarrow> int list" where
  "effective_finish_order t profiles =
     (if native_finish_complete t profiles \<or> \<not> tr_ranked t then tr_finish_order t
      else (case report_order_used t profiles of
              Some (car # cars) \<Rightarrow> car # cars
            | _ \<Rightarrow> tr_finish_order t))"

text \<open>\<open>{car: index + 1 for index, car in enumerate(order)}\<close>: a repeated car keeps its last index.\<close>

definition order_index :: "int list \<Rightarrow> int \<Rightarrow> int option" where
  "order_index order = map_of (rev (zip order (map int [1..<Suc (length order)])))"

definition place_participant ::
  "race_result_tracker \<Rightarrow> int list \<Rightarrow> int \<times> int \<Rightarrow> result_error + racer_result \<times> authoritative_placement" where
  "place_participant t profiles = (\<lambda>(profile_id, player_id).
     let reports = map snd (tr_reports t);
         car = (case map_of (tr_car_by_profile t) profile_id of None \<Rightarrow> player_id | Some c \<Rightarrow> c);
         signal = map_of (tr_finish_signals t) car;
         metric = self_report_metric (map_of (tr_reports t) profile_id) car;
         reported_rank = consensus_ranking reports car;
         rank = (case order_index (effective_finish_order t profiles) car of
                   Some r \<Rightarrow> r
                 | None \<Rightarrow> (if tr_ranked t then 0 else if reported_rank \<noteq> 0 then reported_rank else rr_ranking metric));
         lost = consensus_lost_connection reports car;
         finished = (if tr_ranked t \<and> report_order_used t profiles = None then signal \<noteq> None \<and> rank > 0
                     else rank > 0 \<and> \<not> lost);
         finish_reason = (case signal of Some s \<Rightarrow> fs_finish_reason s | None \<Rightarrow> consensus_finish_reason reports car);
         lost = (\<not> finished \<or> lost)
     in rbind (clean_racer (metric\<lparr>rr_lost_connection := lost, rr_ranking := rank,
                 rr_finish_reason := int (umask 8 finish_reason), rr_server_car_id := car\<rparr>)) (\<lambda>row.
          Inr (row, \<lparr>ap_profile_id = profile_id, ap_player_id = player_id, ap_server_car_id = car, ap_ranking = rank,
                     ap_finish_reason = finish_reason, ap_finished = finished, ap_lost_connection = lost\<rparr>)))"

fun place_all ::
  "race_result_tracker \<Rightarrow> int list \<Rightarrow> (int \<times> int) list \<Rightarrow> result_error + (racer_result \<times> authoritative_placement) list" where
  "place_all t profiles [] = Inr []"
| "place_all t profiles (p # ps) =
     rbind (place_participant t profiles p) (\<lambda>x. rbind (place_all t profiles ps) (\<lambda>xs. Inr (x # xs)))"

definition finalize :: "(int \<times> int) list \<Rightarrow> int \<Rightarrow> race_result_tracker \<Rightarrow> result_error + finalized_race \<times> race_result_tracker" where
  "finalize participants race_mode_fallback t =
     (if tr_final_sent t then Inl AlreadyFinalized
      else if participants = [] then Inl NoParticipants
      else
        let header = header_report t race_mode_fallback;
            profiles = map fst participants;
            order = effective_finish_order t profiles
        in rbind (place_all t profiles participants) (\<lambda>placed.
             let placements = map snd placed;
                 winning = filter (\<lambda>p. ap_ranking p = 1) placements
             in rbind (if tr_ranked t then
                    normalized \<lparr>pg_number_of_racers = int (length participants),
                      pg_race_mode = (if pg_race_mode header \<noteq> 0 then pg_race_mode header else race_mode_fallback),
                      pg_track_number = pg_track_number header, pg_track_direction = pg_track_direction header,
                      pg_number_of_laps = pg_number_of_laps header,
                      pg_reporting_server_car_id = (case order of [] \<Rightarrow> 0 | car # _ \<Rightarrow> car),
                      pg_racers = map fst placed @ replicate (MAX_RACERS - length placed) EMPTY_RACER\<rparr>
                  else
                    normalized (header\<lparr>pg_reporting_server_car_id :=
                      (case winning of [] \<Rightarrow> pg_reporting_server_car_id header | w # _ \<Rightarrow> ap_server_car_id w)\<rparr>)) (\<lambda>results.
                  Inr (\<lparr>fr_results = results, fr_placements = placements, fr_winner_profile_ids = map ap_profile_id winning,
                        fr_ranked = tr_ranked t\<rparr>, t\<lparr>tr_final_sent := True\<rparr>))))"

section \<open>The invariant of the evidence\<close>

datatype tracker_call = BindCar int int | RecordFinish int finish_signal | RecordReport int player_game_results

fun tracker_after :: "race_result_tracker \<Rightarrow> tracker_call \<Rightarrow> race_result_tracker" where
  "tracker_after t (BindCar profile car) = snd (bind_car profile car t)"
| "tracker_after t (RecordFinish profile signal) = snd (record_finish profile signal t)"
| "tracker_after t (RecordReport profile report) = (case record_report profile report t of Inl _ \<Rightarrow> t | Inr (_, t') \<Rightarrow> t')"

definition cars_ok :: "race_result_tracker \<Rightarrow> bool" where
  "cars_ok t \<longleftrightarrow> (\<forall>p c. map_of (tr_car_by_profile t) p = Some c \<longleftrightarrow> map_of (tr_profile_by_car t) c = Some p)
     \<and> (\<forall>p c. map_of (tr_car_by_profile t) p = Some c \<longrightarrow> 0 < c)"

definition signals_ok :: "race_result_tracker \<Rightarrow> bool" where
  "signals_ok t \<longleftrightarrow> distinct (tr_finish_order t)
     \<and> (\<forall>car. car \<in> set (tr_finish_order t) \<longleftrightarrow> map_of (tr_finish_signals t) car \<noteq> None)
     \<and> (\<forall>car s. map_of (tr_finish_signals t) car = Some s \<longrightarrow> fs_server_car_id s = car \<and> map_of (tr_profile_by_car t) car \<noteq> None)"

definition tracker_ok :: "race_result_tracker \<Rightarrow> bool" where
  "tracker_ok t \<longleftrightarrow> cars_ok t \<and> signals_ok t \<and> (\<forall>p r. map_of (tr_reports t) p = Some r \<longrightarrow> results_normal r)"

lemma cars_okI:
  assumes "\<And>p c. map_of (tr_car_by_profile t) p = Some c \<longleftrightarrow> map_of (tr_profile_by_car t) c = Some p"
    "\<And>p c. map_of (tr_car_by_profile t) p = Some c \<Longrightarrow> 0 < c"
  shows "cars_ok t"
  using assms by (auto simp: cars_ok_def)

lemma bind_car_ok:
  assumes "tracker_ok t"
  shows "tracker_ok (snd (bind_car profile car t))"
proof (cases "0 < car \<and> map_of (tr_car_by_profile t) profile \<in> {None, Some car} \<and> map_of (tr_profile_by_car t) car \<in> {None, Some profile}")
  case True
  let ?t = "t\<lparr>tr_car_by_profile := AList.update profile car (tr_car_by_profile t),
              tr_profile_by_car := AList.update car profile (tr_profile_by_car t)\<rparr>"
  have inv: "map_of (tr_car_by_profile t) p = Some c \<longleftrightarrow> map_of (tr_profile_by_car t) c = Some p" for p c
    using assms by (simp add: tracker_ok_def cars_ok_def)
  have "cars_ok ?t"
  proof (rule cars_okI)
    fix p c
    show "map_of (tr_car_by_profile ?t) p = Some c \<longleftrightarrow> map_of (tr_profile_by_car ?t) c = Some p"
      using True inv[of p c] inv[of profile c] inv[of p car] by (auto simp: update_conv')
    show "map_of (tr_car_by_profile ?t) p = Some c \<Longrightarrow> 0 < c"
      using True assms by (auto simp: update_conv' tracker_ok_def cars_ok_def split: if_splits)
  qed
  moreover have "signals_ok ?t" using assms by (auto simp: tracker_ok_def signals_ok_def update_conv')
  ultimately show ?thesis using True assms by (auto simp: bind_car_def tracker_ok_def)
next
  case False
  with assms show ?thesis by (auto simp: bind_car_def)
qed

lemma bind_car_bound: "bind_car profile car t = (True, t') \<Longrightarrow> map_of (tr_car_by_profile t') profile = Some car
    \<and> map_of (tr_profile_by_car t') car = Some profile \<and> tr_finish_signals t' = tr_finish_signals t
    \<and> tr_finish_order t' = tr_finish_order t \<and> tr_reports t' = tr_reports t"
  by (auto simp: bind_car_def update_conv' split: if_splits)

lemma record_finish_ok:
  assumes "tracker_ok t"
  shows "tracker_ok (snd (record_finish profile signal t))"
proof -
  obtain bound t1 where b: "bind_car profile (fs_server_car_id signal) t = (bound, t1)" by fastforce
  have ok: "tracker_ok t1" using bind_car_ok[OF assms, of profile "fs_server_car_id signal"] by (simp add: b)
  show ?thesis
  proof (cases "bound \<and> map_of (tr_finish_signals t1) (fs_server_car_id signal) = None")
    case True
    then have "map_of (tr_profile_by_car t1) (fs_server_car_id signal) \<noteq> None"
      using bind_car_bound[of profile "fs_server_car_id signal" t t1] b by auto
    with ok True have "tracker_ok (t1\<lparr>tr_finish_signals := AList.update (fs_server_car_id signal) signal (tr_finish_signals t1),
        tr_finish_order := tr_finish_order t1 @ [fs_server_car_id signal]\<rparr>)"
      by (auto simp: tracker_ok_def cars_ok_def signals_ok_def update_conv')
    with True show ?thesis by (simp add: record_finish_def b)
  next
    case False
    then show ?thesis using ok assms by (auto simp: record_finish_def b)
  qed
qed

lemma record_report_ok:
  assumes "tracker_ok t" "record_report profile report t = Inr (changed, t')"
  shows "tracker_ok t'"
proof -
  from assms(2) obtain n where n: "normalized report = Inr n" by (auto simp: record_report_def rbind_eq_Inr)
  define t1 where "t1 = (if pg_reporting_server_car_id n > 0 then snd (bind_car profile (pg_reporting_server_car_id n) t) else t)"
  have ok: "tracker_ok t1" using assms(1) bind_car_ok by (simp add: t1_def)
  have "t' = t1 \<or> t' = t1\<lparr>tr_reports := AList.update profile n (tr_reports t1)\<rparr>"
    using assms(2) by (auto simp: record_report_def n t1_def Let_def split: if_splits prod.splits)
  moreover have "tracker_ok (t1\<lparr>tr_reports := AList.update profile n (tr_reports t1)\<rparr>)"
    using ok normalized_normal[OF n] by (auto simp: tracker_ok_def cars_ok_def signals_ok_def update_conv')
  ultimately show ?thesis using ok by auto
qed

lemma tracker_after_ok: "tracker_ok t \<Longrightarrow> tracker_ok (tracker_after t c)"
  by (cases c) (auto simp: bind_car_ok record_finish_ok split: sum.splits dest: record_report_ok)

lemma tracker_ok_reached: "tracker_ok (foldl tracker_after (new_tracker ranked) calls)"
proof -
  have new: "tracker_ok (new_tracker ranked)" by (simp add: tracker_ok_def cars_ok_def signals_ok_def new_tracker_def)
  have "tracker_ok t \<Longrightarrow> tracker_ok (foldl tracker_after t calls)" for t
    by (induction calls arbitrary: t) (simp_all add: tracker_after_ok)
  from this[OF new] show ?thesis .
qed

text \<open>
  Whatever messages arrive in a race, the two car maps stay inverse to each other and
  bind positive cars only, so no car is shared and no player has two; every car finishes at
  most once, its signal is kept under its own id, and only bound cars are in the finish
  order; and every stored report is a normalised one.
\<close>

theorem evidence_invariant:
  "tracker_ok (foldl tracker_after (new_tracker ranked) calls)"
  by (rule tracker_ok_reached)

section \<open>A unanimous order\<close>

lemma set_dedupe [simp]: "set (dedupe xs) = set xs"
  by (simp add: dedupe_def)

lemma reported_ranks_agree:
  "reported_ranks t car reporters = Some ranks \<Longrightarrow> reporter \<in> set reporters \<Longrightarrow>
   \<exists>row. row_reported t reporter car = Some row \<and> \<not> rr_lost_connection row \<and> 0 < rr_ranking row \<and> rr_ranking row \<in> set ranks"
proof (induction reporters arbitrary: ranks)
  case (Cons r reporters)
  from Cons.prems(1) obtain row rest where row: "row_reported t r car = Some row" "\<not> rr_lost_connection row" "0 < rr_ranking row"
    and rest: "reported_ranks t car reporters = Some rest" and ranks: "ranks = List.insert (rr_ranking row) rest"
    by (auto split: option.splits if_splits)
  then show ?case using Cons.IH[OF rest] Cons.prems(2) by auto
qed simp

lemma ranks_by_car_spec:
  "ranks_by_car t expected profiles acc = Some ranks \<Longrightarrow> distinct (map fst acc) \<Longrightarrow>
   distinct (map fst ranks)
   \<and> fst ` set ranks = fst ` set acc \<union> (\<lambda>p. the (map_of (tr_car_by_profile t) p)) ` set profiles
   \<and> (\<forall>(car, rank) \<in> set ranks. (car, rank) \<in> set acc \<or> reported_ranks t car expected = Some [rank])"
proof (induction t expected profiles acc rule: ranks_by_car.induct)
  case (2 t expected profile profiles acc)
  define car where "car = the (map_of (tr_car_by_profile t) profile)"
  from "2.prems"(1) obtain rank where rank: "reported_ranks t car expected = Some [rank]"
    and rest: "ranks_by_car t expected profiles (AList.update car rank acc) = Some ranks"
    by (auto simp: car_def Let_def split: option.splits list.splits)
  have "distinct (map fst (AList.update car rank acc))" using "2.prems"(2) by (simp add: distinct_update)
  from "2.IH"[OF car_def rank refl refl rest this]
  have IH: "distinct (map fst ranks)
     \<and> fst ` set ranks = fst ` set (AList.update car rank acc) \<union> (\<lambda>p. the (map_of (tr_car_by_profile t) p)) ` set profiles
     \<and> (\<forall>(c, k) \<in> set ranks. (c, k) \<in> set (AList.update car rank acc) \<or> reported_ranks t c expected = Some [k])" .
  have "fst ` set (AList.update car rank acc) = insert car (fst ` set acc)" by (simp add: dom_update)
  moreover have "\<forall>(c, k) \<in> set (AList.update car rank acc). (c, k) \<in> set acc \<or> reported_ranks t c expected = Some [k]"
    using set_update_subset[of car rank acc] rank by auto
  ultimately show ?case using IH by (auto simp: car_def)
qed auto

text \<open>
  When a race has no native finish order, the order its reports yield is unanimous: it
  holds exactly the participants' cars, each once; every participant reported every car,
  none as disconnected; each participant's own report ranks any car before every later one;
  and the finish signals seen so far are its beginning.
\<close>

theorem report_order_unanimous:
  assumes "ranked_report_order t profiles = Some order"
  shows "distinct order \<and> set order = (\<lambda>p. the (map_of (tr_car_by_profile t) p)) ` set profiles
    \<and> (\<forall>reporter \<in> set profiles. \<forall>i j. i < j \<and> j < length order \<longrightarrow>
         (\<exists>a b. row_reported t reporter (order ! i) = Some a \<and> row_reported t reporter (order ! j) = Some b
            \<and> \<not> rr_lost_connection a \<and> \<not> rr_lost_connection b \<and> 0 < rr_ranking a \<and> rr_ranking a < rr_ranking b))
    \<and> (\<exists>n. take n order = filter (\<lambda>car. car \<in> set order) (tr_finish_order t))"
proof -
  define expected where "expected = dedupe profiles"
  obtain ranks where ranks: "ranks_by_car t expected expected [] = Some ranks" and dist: "distinct (map snd ranks)"
    and order: "order = map fst (sort_key snd (sort_key fst ranks))"
    and prefix: "take (length (filter (\<lambda>car. map_of ranks car \<noteq> None) (tr_finish_order t))) order
      = filter (\<lambda>car. map_of ranks car \<noteq> None) (tr_finish_order t)"
    using assms unfolding ranked_report_order_def expected_def[symmetric] Let_def
    by (auto split: if_splits option.splits)
  from ranks_by_car_spec[OF ranks] have keys: "distinct (map fst ranks)"
    and cars: "fst ` set ranks = (\<lambda>p. the (map_of (tr_car_by_profile t) p)) ` set profiles"
    and agreed: "\<forall>(car, rank) \<in> set ranks. reported_ranks t car expected = Some [rank]"
    by (auto simp: expected_def)
  define pairs where "pairs = sort_key snd (sort_key fst ranks)"
  have set_pairs: "set pairs = set ranks" by (simp add: pairs_def)
  have inj: "inj_on snd (set ranks)" "inj_on fst (set ranks)" "distinct ranks"
    using dist keys by (simp_all add: distinct_map)
  have "distinct pairs" using inj by (simp add: pairs_def)
  with inj have d: "distinct (map fst pairs)" "distinct (map snd pairs)" by (simp_all add: distinct_map set_pairs)
  have sorted: "sorted (map snd pairs)" by (simp add: pairs_def)
  have set_order: "set order = fst ` set ranks" by (simp add: order pairs_def[symmetric] set_pairs)
  have "row_reported t reporter (fst (pairs ! i)) \<noteq> None
      \<and> \<not> rr_lost_connection (the (row_reported t reporter (fst (pairs ! i)))) \<and> 0 < rr_ranking (the (row_reported t reporter (fst (pairs ! i))))
      \<and> rr_ranking (the (row_reported t reporter (fst (pairs ! i)))) = snd (pairs ! i)"
    if "reporter \<in> set profiles" "i < length pairs" for reporter i
  proof -
    have "pairs ! i \<in> set ranks" using that(2) set_pairs nth_mem by blast
    with agreed have "reported_ranks t (fst (pairs ! i)) expected = Some [snd (pairs ! i)]" by (auto simp: split_def)
    from reported_ranks_agree[OF this, of reporter] that(1) show ?thesis by (auto simp: expected_def)
  qed
  moreover have "snd (pairs ! i) < snd (pairs ! j)" if "i < j" "j < length pairs" for i j
  proof -
    have "map snd pairs ! i \<le> map snd pairs ! j" using sorted that by (intro sorted_nth_mono) simp_all
    moreover have "map snd pairs ! i \<noteq> map snd pairs ! j" using d(2) that by (simp only: nth_eq_iff_index_eq length_map)
    ultimately show ?thesis using that by simp
  qed
  ultimately have pairwise: "\<exists>a b. row_reported t reporter (order ! i) = Some a \<and> row_reported t reporter (order ! j) = Some b
            \<and> \<not> rr_lost_connection a \<and> \<not> rr_lost_connection b \<and> 0 < rr_ranking a \<and> rr_ranking a < rr_ranking b"
    if "reporter \<in> set profiles" "i < j" "j < length order" for reporter i j
  proof -
    have j: "j < length pairs" "i < length pairs" "order ! i = fst (pairs ! i)" "order ! j = fst (pairs ! j)"
      using that by (simp_all add: order pairs_def[symmetric])
    note r = \<open>\<And>reporter i. reporter \<in> set profiles \<Longrightarrow> i < length pairs \<Longrightarrow> row_reported t reporter (fst (pairs ! i)) \<noteq> None
      \<and> \<not> rr_lost_connection (the (row_reported t reporter (fst (pairs ! i)))) \<and> 0 < rr_ranking (the (row_reported t reporter (fst (pairs ! i))))
      \<and> rr_ranking (the (row_reported t reporter (fst (pairs ! i)))) = snd (pairs ! i)\<close>
    note lt = \<open>\<And>i j. i < j \<Longrightarrow> j < length pairs \<Longrightarrow> snd (pairs ! i) < snd (pairs ! j)\<close>
    from r[OF that(1) j(2)] r[OF that(1) j(1)] lt[OF that(2) j(1)] show ?thesis by (auto simp: j)
  qed
  have "filter (\<lambda>car. map_of ranks car \<noteq> None) (tr_finish_order t) = filter (\<lambda>car. car \<in> set order) (tr_finish_order t)"
    by (rule filter_cong) (auto simp: set_order map_of_eq_None_iff)
  with prefix have "\<exists>n. take n order = filter (\<lambda>car. car \<in> set order) (tr_finish_order t)" by metis
  moreover have "distinct order" using d by (simp add: order pairs_def[symmetric])
  moreover have "set order = (\<lambda>p. the (map_of (tr_car_by_profile t) p)) ` set profiles" using set_order cars by simp
  ultimately show ?thesis by (intro conjI ballI allI impI) (assumption+, erule pairwise, simp_all)
qed

definition two_car_report :: "int \<Rightarrow> player_game_results" where
  "two_car_report reporter = (empty_results 1)\<lparr>pg_number_of_racers := 2, pg_reporting_server_car_id := reporter,
     pg_racers := [EMPTY_RACER\<lparr>rr_ranking := 2, rr_server_car_id := 5\<rparr>, EMPTY_RACER\<lparr>rr_ranking := 1, rr_server_car_id := 6\<rparr>]\<rparr>"

definition two_player_tracker :: race_result_tracker where
  "two_player_tracker = (new_tracker True)\<lparr>tr_car_by_profile := [(71, 5), (72, 6)], tr_profile_by_car := [(5, 71), (6, 72)],
     tr_reports := [(71, two_car_report 5), (72, two_car_report 6)]\<rparr>"

lemma two_player_order: "ranked_report_order two_player_tracker [71, 72] = Some [6, 5]"
  by (simp add: ranked_report_order_def two_player_tracker_def two_car_report_def new_tracker_def dedupe_def row_reported_def
      row_for_car_def EMPTY_RACER_def empty_results_def)

theorem report_order_unanimous_witness:
  "distinct [6 :: int, 5] \<and> set [6, 5] = (\<lambda>p. the (map_of (tr_car_by_profile two_player_tracker) p)) ` set [71, 72]"
  using report_order_unanimous[OF two_player_order] by blast

section \<open>One final result\<close>

lemma order_index_nth:
  assumes "distinct order"
  shows "order_index order car = Some k \<longleftrightarrow> (\<exists>i < length order. order ! i = car \<and> k = int i + 1)"
proof -
  define pairs where "pairs = zip order (map int [1..<Suc (length order)])"
  have "length (map int [1..<Suc (length order)]) = length order" by (simp del: upt_Suc)
  then have "map fst pairs = order" by (simp add: pairs_def)
  then have d: "distinct (map fst (rev pairs))" using assms by (metis distinct_rev rev_map)
  have "order_index order = map_of (rev pairs)" by (simp only: order_index_def pairs_def)
  then have "order_index order car = Some k \<longleftrightarrow> (car, k) \<in> set pairs"
    using map_of_is_SomeI[OF d, of car k] by (auto dest: map_of_SomeD)
  also have "\<dots> \<longleftrightarrow> (\<exists>i < length order. order ! i = car \<and> k = int i + 1)"
    by (auto simp: pairs_def set_zip simp del: upt_Suc)
  finally show ?thesis .
qed

lemma place_participant_fields:
  assumes "place_participant t profiles (profile, player) = Inr (row, placement)"
  shows "ap_profile_id placement = profile \<and> ap_player_id placement = player
    \<and> ap_server_car_id placement = (case map_of (tr_car_by_profile t) profile of None \<Rightarrow> player | Some c \<Rightarrow> c)
    \<and> (\<forall>k. order_index (effective_finish_order t profiles) (ap_server_car_id placement) = Some k \<longrightarrow> ap_ranking placement = k)"
  using assms by (auto simp: place_participant_def Let_def rbind_eq_Inr)

lemma place_all_list:
  "place_all t profiles ps = Inr placed \<Longrightarrow>
   list_all2 (\<lambda>p x. place_participant t profiles p = Inr x) ps placed"
  by (induction ps arbitrary: placed) (auto simp: rbind_eq_Inr)

lemma native_car: "native_finish_complete t profiles \<Longrightarrow> p \<in> set profiles \<Longrightarrow>
  \<exists>car. map_of (tr_car_by_profile t) p = Some car \<and> map_of (tr_finish_signals t) car \<noteq> None"
  by (auto simp: native_finish_complete_def list_all_iff split: option.splits)

text \<open>A participant whose car is in the finish order is placed by its position there.\<close>

lemma placed_by_finish_order:
  assumes "place_participant t profiles (profile, player) = Inr (row, p)" "effective_finish_order t profiles = order"
    "distinct order" "map_of (tr_car_by_profile t) profile = Some car" "car \<in> set order"
  shows "map_of (tr_car_by_profile t) (ap_profile_id p) = Some (ap_server_car_id p)
         \<and> 0 < ap_ranking p \<and> nat (ap_ranking p) \<le> length order \<and> order ! (nat (ap_ranking p) - 1) = ap_server_car_id p"
proof -
  note f = place_participant_fields[OF assms(1), unfolded assms(2)]
  from assms(5) obtain k where k: "k < length order" "order ! k = car" by (auto simp: in_set_conv_nth)
  then have "order_index order car = Some (int k + 1)" by (auto simp: order_index_nth[OF assms(3)])
  with f assms(4) have "ap_ranking p = int k + 1" "ap_server_car_id p = car" by auto
  moreover have "nat (int k + 1) = Suc k" by simp
  ultimately show ?thesis using f assms(4) k by simp
qed

text \<open>In a list without repetitions, a place is the first exactly if it holds the head.\<close>

lemma first_place:
  assumes "distinct order" "0 < r" "nat r \<le> length order" "order ! (nat r - 1) = car"
  shows "(r = 1) = (car = hd order)"
proof -
  have "order \<noteq> []" using assms(2,3) by auto
  then have "hd order = order ! 0" by (simp add: hd_conv_nth)
  moreover have "order ! (nat r - 1) = order ! 0 \<longleftrightarrow> nat r - 1 = 0"
    using assms(1-3) \<open>order \<noteq> []\<close> by (intro nth_eq_iff_index_eq) auto
  ultimately show ?thesis using assms(2,4) by auto
qed

text \<open>
  A ranked race whose players all finished is decided by the server's own finish order
  alone: every participant is placed, in the order they were given, with the rank of their
  car in that order, and the winners are exactly the participants whose car finished first.
  A race is finalised only once, and no evidence is changed by it.
\<close>

theorem native_order_decides:
  assumes "tracker_ok t" "native_finish_complete t (map fst participants)" "finalize participants fallback t = Inr (result, t')"
  shows "map (\<lambda>p. (ap_profile_id p, ap_player_id p)) (fr_placements result) = participants
    \<and> (\<forall>p \<in> set (fr_placements result). map_of (tr_car_by_profile t) (ap_profile_id p) = Some (ap_server_car_id p)
         \<and> 0 < ap_ranking p \<and> nat (ap_ranking p) \<le> length (tr_finish_order t)
         \<and> tr_finish_order t ! (nat (ap_ranking p) - 1) = ap_server_car_id p)
    \<and> fr_winner_profile_ids result
        = filter (\<lambda>p. map_of (tr_car_by_profile t) p = Some (hd (tr_finish_order t))) (map fst participants)
    \<and> t' = t\<lparr>tr_final_sent := True\<rparr> \<and> \<not> tr_final_sent t
    \<and> (\<forall>ps f. finalize ps f t' = Inl AlreadyFinalized)"
proof -
  let ?profiles = "map fst participants"
  have eff: "effective_finish_order t ?profiles = tr_finish_order t" using assms(2) by (simp add: effective_finish_order_def)
  have ranked: "tr_ranked t" using assms(2) by (simp add: native_finish_complete_def)
  from assms(1) have dist: "distinct (tr_finish_order t)"
    and fin: "map_of (tr_finish_signals t) car \<noteq> None \<Longrightarrow> car \<in> set (tr_finish_order t)" for car
    by (auto simp: tracker_ok_def signals_ok_def)
  from assms(3) obtain placed where placed: "place_all t ?profiles participants = Inr placed"
    and pl: "fr_placements result = map snd placed"
    and win: "fr_winner_profile_ids result = map ap_profile_id (filter (\<lambda>p. ap_ranking p = 1) (map snd placed))"
    and t': "t' = t\<lparr>tr_final_sent := True\<rparr>" and once: "\<not> tr_final_sent t"
    by (auto simp: finalize_def rbind_eq_Inr Let_def ranked split: if_splits)
  note list = place_all_list[OF placed]
  have ids: "map (\<lambda>p. (ap_profile_id p, ap_player_id p)) (map snd placed) = participants"
    using list by (induction rule: list_all2_induct) (auto dest: place_participant_fields)
  have each: "map_of (tr_car_by_profile t) (ap_profile_id p) = Some (ap_server_car_id p)
         \<and> 0 < ap_ranking p \<and> nat (ap_ranking p) \<le> length (tr_finish_order t)
         \<and> tr_finish_order t ! (nat (ap_ranking p) - 1) = ap_server_car_id p"
    if p: "p \<in> set (map snd placed)" for p
  proof -
    from p obtain i where i: "i < length placed" "p = snd (placed ! i)" by (auto simp: in_set_conv_nth)
    then have "place_participant t ?profiles (participants ! i) = Inr (placed ! i)" "i < length participants"
      using list by (auto simp: list_all2_conv_all_nth)
    then have "place_participant t ?profiles (fst (participants ! i), snd (participants ! i)) = Inr (fst (placed ! i), p)"
      by (simp add: i)
    have "fst (participants ! i) \<in> set ?profiles" using \<open>i < length participants\<close> by simp
    from native_car[OF assms(2) this] obtain car where car: "map_of (tr_car_by_profile t) (fst (participants ! i)) = Some car"
      "car \<in> set (tr_finish_order t)" using fin by blast
    from placed_by_finish_order[OF \<open>place_participant t ?profiles (fst (participants ! i), snd (participants ! i)) = Inr (fst (placed ! i), p)\<close>
        eff dist car] show ?thesis .
  qed
  have "(ap_ranking p = 1) = (map_of (tr_car_by_profile t) (ap_profile_id p) = Some (hd (tr_finish_order t)))"
    if p: "p \<in> set (map snd placed)" for p
    using each[OF p] first_place[OF dist, of "ap_ranking p" "ap_server_car_id p"] by auto
  then have "filter (\<lambda>p. ap_ranking p = 1) (map snd placed)
      = filter (\<lambda>p. map_of (tr_car_by_profile t) (ap_profile_id p) = Some (hd (tr_finish_order t))) (map snd placed)"
    by (intro filter_cong) auto
  moreover have "?profiles = map ap_profile_id (map snd placed)" by (subst ids[symmetric]) (simp add: comp_def)
  ultimately have "fr_winner_profile_ids result
        = filter (\<lambda>p. map_of (tr_car_by_profile t) p = Some (hd (tr_finish_order t))) ?profiles"
    by (simp add: win filter_map comp_def)
  moreover have "\<forall>ps f. finalize ps f t' = Inl AlreadyFinalized" by (simp add: finalize_def t')
  ultimately show ?thesis using ids each t' once unfolding pl by blast
qed

definition finished_tracker :: race_result_tracker where
  "finished_tracker = foldl tracker_after (new_tracker True)
     [RecordFinish 72 \<lparr>fs_server_car_id = 6, fs_finish_reason = 0\<rparr>, RecordFinish 71 \<lparr>fs_server_car_id = 5, fs_finish_reason = 0\<rparr>]"

lemma finished_tracker_value:
  "finished_tracker = (new_tracker True)\<lparr>tr_car_by_profile := [(72, 6), (71, 5)], tr_profile_by_car := [(6, 72), (5, 71)],
     tr_finish_signals := [(6, \<lparr>fs_server_car_id = 6, fs_finish_reason = 0\<rparr>), (5, \<lparr>fs_server_car_id = 5, fs_finish_reason = 0\<rparr>)],
     tr_finish_order := [6, 5]\<rparr>"
  by (simp add: finished_tracker_def new_tracker_def record_finish_def bind_car_def)

lemma finished_race: "is_ok (finalize [(71, 1), (72, 2)] 0 finished_tracker)"
  by code_simp

theorem native_order_decides_witness:
  "\<exists>result t'. finalize [(71, 1), (72, 2)] 0 finished_tracker = Inr (result, t') \<and> fr_winner_profile_ids result = [72]"
proof -
  have ok: "tracker_ok finished_tracker"
    unfolding finished_tracker_def by (rule tracker_ok_reached)
  have native: "native_finish_complete finished_tracker (map fst [(71, 1), (72, 2 :: int)])"
    by (simp add: native_finish_complete_def finished_tracker_value new_tracker_def)
  obtain result t' where f: "finalize [(71, 1), (72, 2)] 0 finished_tracker = Inr (result, t')"
    using finished_race by (auto simp: is_ok_iff)
  from native_order_decides[OF ok native f] have "fr_winner_profile_ids result
      = filter (\<lambda>p. map_of (tr_car_by_profile finished_tracker) p = Some (hd (tr_finish_order finished_tracker))) [71, 72]" by simp
  also have "\<dots> = [72]" by (simp add: finished_tracker_value)
  finally show ?thesis using f by blast
qed

end
