(* ===== verification/SessionDirectory.thy ===== *)
theory SessionDirectory
  imports Prelude "HOL-Library.FSet"
begin

text \<open>
  The shared room and game directory of \<open>carbon/ea/directory.py\<close>: the records
  \<open>Room\<close> and \<open>GameSession\<close>, their admission rule \<open>can_join\<close>, and every operation of
  \<open>SessionDirectory\<close> as a function on its state (two id counters and two
  dictionaries).  An operation that answers a \<open>bool\<close> returns the state beside it; one
  that raises \<open>ValueError\<close> returns a sum.  The lock makes each operation one step.

  The locale \<open>membership_store\<close> is the contract that rooms and games share (who is in
  a container, how joining and leaving change it); it is interpreted on both.
\<close>

section \<open>Data\<close>

datatype visibility = PUBLIC | PRIVATE

datatype session_state = SS_OPEN | SS_ACTIVE | SS_CLOSED

record room =
  rm_id :: int
  rm_owner :: int
  rm_name :: string
  rm_capacity :: int
  rm_min_players :: int
  rm_visibility :: visibility
  rm_password :: string
  rm_members :: "int fset"

record game_session =
  gs_id :: int
  gs_room :: int
  gs_owner :: int
  gs_capacity :: int
  gs_min_players :: int
  gs_visibility :: visibility
  gs_password :: string
  gs_state :: session_state
  gs_participants :: "int fset"

definition room_visible_to :: "room \<Rightarrow> int \<Rightarrow> bool" where
  "room_visible_to r u = (rm_visibility r = PUBLIC \<or> u |\<in>| rm_members r \<or> u = rm_owner r)"

definition room_can_join :: "room \<Rightarrow> int \<Rightarrow> string \<Rightarrow> bool" where
  "room_can_join r u pw =
    (if u |\<in>| rm_members r \<or> u = rm_owner r then True
     else if rm_capacity r \<le> int (fcard (rm_members r)) then False
     else if rm_visibility r = PRIVATE \<and> rm_password r = [] then False
     else rm_password r = [] \<or> rm_password r = pw)"

definition game_can_join :: "game_session \<Rightarrow> int \<Rightarrow> string \<Rightarrow> bool" where
  "game_can_join g u pw =
    (if u |\<in>| gs_participants g \<or> u = gs_owner g then True
     else if gs_state g \<noteq> SS_OPEN \<or> gs_capacity g \<le> int (fcard (gs_participants g)) then False
     else if gs_visibility g = PRIVATE \<and> gs_password g = [] then False
     else gs_password g = [] \<or> gs_password g = pw)"

record session_directory =
  sd_next_room :: int
  sd_next_game :: int
  sd_rooms :: "(int \<times> room) list"
  sd_games :: "(int \<times> game_session) list"

definition new_directory :: session_directory where
  "new_directory = \<lparr>sd_next_room = 1, sd_next_game = 1, sd_rooms = [], sd_games = []\<rparr>"

datatype directory_error = Invalid_Room_Capacity | Invalid_Game_Capacity

section \<open>Rooms\<close>

definition create_room ::
  "session_directory \<Rightarrow> int \<Rightarrow> string \<Rightarrow> int \<Rightarrow> int \<Rightarrow> visibility \<Rightarrow> string \<Rightarrow>
   directory_error + session_directory \<times> room" where
  "create_room d owner name cap min_players vis pw =
    (if cap < 1 \<or> min_players < 1 \<or> cap < min_players then Inl Invalid_Room_Capacity
     else let r = \<lparr>rm_id = sd_next_room d, rm_owner = owner, rm_name = name, rm_capacity = cap,
                   rm_min_players = min_players, rm_visibility = vis, rm_password = pw,
                   rm_members = {|owner|}\<rparr>
          in Inr (d\<lparr>sd_rooms := AList.update (rm_id r) r (sd_rooms d),
                    sd_next_room := sd_next_room d + 1\<rparr>, r))"

definition join_room :: "session_directory \<Rightarrow> int \<Rightarrow> int \<Rightarrow> string \<Rightarrow> session_directory \<times> bool" where
  "join_room d i u pw = (case map_of (sd_rooms d) i of
      None \<Rightarrow> (d, False)
    | Some r \<Rightarrow> if \<not> room_can_join r u pw then (d, False)
        else (d\<lparr>sd_rooms := AList.update i (r\<lparr>rm_members := finsert u (rm_members r)\<rparr>) (sd_rooms d)\<rparr>, True))"

definition leave_room :: "session_directory \<Rightarrow> int \<Rightarrow> int \<Rightarrow> session_directory \<times> bool" where
  "leave_room d i u = (case map_of (sd_rooms d) i of
      None \<Rightarrow> (d, False)
    | Some r \<Rightarrow> if u |\<notin>| rm_members r then (d, False)
        else let r' = r\<lparr>rm_members := rm_members r |-| {|u|}\<rparr> in
          (if rm_members r' = {||} then d\<lparr>sd_rooms := AList.delete (rm_id r) (sd_rooms d)\<rparr>
           else d\<lparr>sd_rooms := AList.update i r' (sd_rooms d)\<rparr>, True))"

definition visible_rooms :: "session_directory \<Rightarrow> int \<Rightarrow> room list" where
  "visible_rooms d u = [r \<leftarrow> map snd (sd_rooms d). room_visible_to r u]"

section \<open>Games\<close>

definition create_game ::
  "session_directory \<Rightarrow> int \<Rightarrow> int \<Rightarrow> int \<Rightarrow> int \<Rightarrow> visibility \<Rightarrow> string \<Rightarrow> bool \<Rightarrow>
   directory_error + session_directory \<times> game_session" where
  "create_game d room_id owner cap min_players vis pw include_owner =
    (if cap < 1 \<or> min_players < 1 \<or> cap < min_players then Inl Invalid_Game_Capacity
     else let g = \<lparr>gs_id = sd_next_game d, gs_room = room_id, gs_owner = owner, gs_capacity = cap,
                   gs_min_players = min_players, gs_visibility = vis, gs_password = pw,
                   gs_state = SS_OPEN,
                   gs_participants = (if include_owner then {|owner|} else {||})\<rparr>
          in Inr (d\<lparr>sd_games := AList.update (gs_id g) g (sd_games d),
                    sd_next_game := sd_next_game d + 1\<rparr>, g))"

definition get_game :: "session_directory \<Rightarrow> int \<Rightarrow> game_session option" where
  "get_game d i = map_of (sd_games d) i"

text \<open>
  A retired game is also changed in place for callers that still hold it: the second
  component is that object as they see it afterwards.
\<close>

definition close_game :: "session_directory \<Rightarrow> int \<Rightarrow> session_directory \<times> game_session option" where
  "close_game d i = (case map_of (sd_games d) i of
      None \<Rightarrow> (d, None)
    | Some g \<Rightarrow> (d\<lparr>sd_games := AList.delete i (sd_games d)\<rparr>,
                Some (g\<lparr>gs_state := SS_CLOSED, gs_participants := {||}\<rparr>)))"

definition list_games :: "session_directory \<Rightarrow> game_session list" where
  "list_games d = map snd (sd_games d)"

definition join_game :: "session_directory \<Rightarrow> int \<Rightarrow> int \<Rightarrow> string \<Rightarrow> session_directory \<times> bool" where
  "join_game d i u pw = (case map_of (sd_games d) i of
      None \<Rightarrow> (d, False)
    | Some g \<Rightarrow> if \<not> game_can_join g u pw then (d, False)
        else (d\<lparr>sd_games := AList.update i (g\<lparr>gs_participants := finsert u (gs_participants g)\<rparr>) (sd_games d)\<rparr>, True))"

definition resize_game :: "session_directory \<Rightarrow> int \<Rightarrow> int \<Rightarrow> session_directory \<times> bool" where
  "resize_game d i target = (case map_of (sd_games d) i of
      None \<Rightarrow> (d, False)
    | Some g \<Rightarrow> if target < max 1 (gs_min_players g) \<or> target < int (fcard (gs_participants g)) then (d, False)
        else (d\<lparr>sd_games := AList.update i (g\<lparr>gs_capacity := target\<rparr>) (sd_games d)\<rparr>, True))"

definition leave_game :: "session_directory \<Rightarrow> int \<Rightarrow> int \<Rightarrow> session_directory \<times> bool" where
  "leave_game d i u = (case map_of (sd_games d) i of
      None \<Rightarrow> (d, False)
    | Some g \<Rightarrow> if u |\<notin>| gs_participants g then (d, False)
        else let g' = g\<lparr>gs_participants := gs_participants g |-| {|u|}\<rparr> in
          (if gs_participants g' = {||} then d\<lparr>sd_games := AList.delete (gs_id g) (sd_games d)\<rparr>
           else d\<lparr>sd_games := AList.update i g' (sd_games d)\<rparr>, True))"

section \<open>The invariant of the directory\<close>

text \<open>
  Every entry sits under its own id, ids are distinct and below the counter, and the
  configuration is the one \<open>create\<close> admits.  The owner has a standing right to come back,
  so the occupancy bound counts everyone else.
\<close>

definition room_wf :: "session_directory \<Rightarrow> int \<Rightarrow> room \<Rightarrow> bool" where
  "room_wf d i r = (rm_id r = i \<and> 0 < i \<and> i < sd_next_room d \<and> 1 \<le> rm_min_players r \<and>
    rm_min_players r \<le> rm_capacity r \<and> rm_members r \<noteq> {||} \<and>
    int (fcard (rm_members r |-| {|rm_owner r|})) \<le> rm_capacity r)"

definition game_wf :: "session_directory \<Rightarrow> int \<Rightarrow> game_session \<Rightarrow> bool" where
  "game_wf d i g = (gs_id g = i \<and> 0 < i \<and> i < sd_next_game d \<and> 1 \<le> gs_min_players g \<and>
    gs_min_players g \<le> gs_capacity g \<and> gs_state g = SS_OPEN \<and>
    int (fcard (gs_participants g |-| {|gs_owner g|})) \<le> gs_capacity g)"

definition directory_ok :: "session_directory \<Rightarrow> bool" where
  "directory_ok d = (distinct (map fst (sd_rooms d)) \<and> distinct (map fst (sd_games d)) \<and>
    0 < sd_next_room d \<and> 0 < sd_next_game d \<and>
    (\<forall>(i, r) \<in> set (sd_rooms d). room_wf d i r) \<and> (\<forall>(i, g) \<in> set (sd_games d). game_wf d i g))"

lemmas room_ops = create_room_def join_room_def leave_room_def
lemmas game_ops = create_game_def close_game_def join_game_def resize_game_def leave_game_def

lemma in_updateD: "(k', v') \<in> set (AList.update k v d) \<Longrightarrow> (k' = k \<and> v' = v) \<or> (k', v') \<in> set d"
  using set_update_subset[of k v d] by auto

lemma in_deleteD: "(k', v') \<in> set (AList.delete k d) \<Longrightarrow> (k', v') \<in> set d"
  using set_delete_subset[of k d] by auto

text \<open>Admitting a user who is not the owner needs a free place.\<close>

lemma fcard_admit:
  assumes "u = owner \<or> u |\<in>| m \<or> int (fcard m) < cap" and "int (fcard (m |-| {|owner|})) \<le> cap"
  shows "int (fcard (finsert u m |-| {|owner|})) \<le> cap"
proof (cases "u = owner \<or> u |\<in>| m")
  case True
  then have "finsert u m |-| {|owner|} = m |-| {|owner|}" by auto
  with assms(2) show ?thesis by simp
next
  case False
  with assms(1) have "int (fcard m) < cap" by simp
  moreover have "fcard (finsert u m |-| {|owner|}) \<le> fcard (finsert u m)" by (rule fcard_mono) auto
  moreover have "fcard (finsert u m) \<le> Suc (fcard m)" using False by (simp add: fcard_finsert_disjoint)
  ultimately show ?thesis by simp
qed

lemma fcard_release:
  "int (fcard (m |-| {|owner|})) \<le> cap \<Longrightarrow> int (fcard (m |-| {|u|} |-| {|owner|})) \<le> cap"
proof -
  assume h: "int (fcard (m |-| {|owner|})) \<le> cap"
  have "m |-| {|u|} |-| {|owner|} |\<subseteq>| m |-| {|owner|}" by auto
  then have "fcard (m |-| {|u|} |-| {|owner|}) \<le> fcard (m |-| {|owner|})" by (rule fcard_mono)
  with h show ?thesis by simp
qed

lemma room_admit_bound: "room_can_join r u pw \<Longrightarrow> u = rm_owner r \<or> u |\<in>| rm_members r \<or> int (fcard (rm_members r)) < rm_capacity r"
  by (auto simp: room_can_join_def split: if_splits)

lemma game_admit_bound: "game_can_join g u pw \<Longrightarrow> u = gs_owner g \<or> u |\<in>| gs_participants g \<or> int (fcard (gs_participants g)) < gs_capacity g"
  by (auto simp: game_can_join_def split: if_splits)

lemma directory_roomD: "directory_ok d \<Longrightarrow> map_of (sd_rooms d) i = Some r \<Longrightarrow> room_wf d i r"
  by (auto simp: directory_ok_def dest!: map_of_SomeD)

lemma directory_gameD: "directory_ok d \<Longrightarrow> map_of (sd_games d) i = Some g \<Longrightarrow> game_wf d i g"
  by (auto simp: directory_ok_def dest!: map_of_SomeD)

text \<open>Writing or removing one well-formed entry keeps the invariant.\<close>

lemma room_written:
  "directory_ok d \<Longrightarrow> room_wf d i r \<Longrightarrow> directory_ok (d\<lparr>sd_rooms := AList.update i r (sd_rooms d)\<rparr>)"
  unfolding directory_ok_def by (auto simp: distinct_update room_wf_def game_wf_def dest!: in_updateD)

lemma room_removed: "directory_ok d \<Longrightarrow> directory_ok (d\<lparr>sd_rooms := AList.delete i (sd_rooms d)\<rparr>)"
  unfolding directory_ok_def by (auto simp: distinct_delete room_wf_def game_wf_def dest!: in_deleteD)

lemma game_written:
  "directory_ok d \<Longrightarrow> game_wf d i g \<Longrightarrow> directory_ok (d\<lparr>sd_games := AList.update i g (sd_games d)\<rparr>)"
  unfolding directory_ok_def by (auto simp: distinct_update room_wf_def game_wf_def dest!: in_updateD)

lemma game_removed: "directory_ok d \<Longrightarrow> directory_ok (d\<lparr>sd_games := AList.delete i (sd_games d)\<rparr>)"
  unfolding directory_ok_def by (auto simp: distinct_delete room_wf_def game_wf_def dest!: in_deleteD)

lemma room_counter_raised: "directory_ok d \<Longrightarrow> directory_ok (d\<lparr>sd_next_room := sd_next_room d + 1\<rparr>)"
  unfolding directory_ok_def by (fastforce simp: room_wf_def game_wf_def)

lemma game_counter_raised: "directory_ok d \<Longrightarrow> directory_ok (d\<lparr>sd_next_game := sd_next_game d + 1\<rparr>)"
  unfolding directory_ok_def by (fastforce simp: room_wf_def game_wf_def)

lemma create_room_ok:
  assumes "directory_ok d" and "create_room d owner name cap mp vis pw = Inr (d', r)"
  shows "directory_ok d'"
proof -
  let ?d = "d\<lparr>sd_next_room := sd_next_room d + 1\<rparr>"
  from assms have "d' = ?d\<lparr>sd_rooms := AList.update (sd_next_room d) r (sd_rooms ?d)\<rparr>"
    and "room_wf ?d (sd_next_room d) r"
    by (auto simp: create_room_def Let_def room_wf_def fcard_fempty directory_ok_def split: if_splits)
  with room_written[OF room_counter_raised[OF assms(1)]] show ?thesis by simp
qed

lemma create_game_ok:
  assumes "directory_ok d" and "create_game d room_id owner cap mp vis pw inc = Inr (d', g)"
  shows "directory_ok d'"
proof -
  let ?d = "d\<lparr>sd_next_game := sd_next_game d + 1\<rparr>"
  from assms have "d' = ?d\<lparr>sd_games := AList.update (sd_next_game d) g (sd_games ?d)\<rparr>"
    and "game_wf ?d (sd_next_game d) g"
    by (auto simp: create_game_def Let_def game_wf_def fcard_fempty directory_ok_def split: if_splits)
  with game_written[OF game_counter_raised[OF assms(1)]] show ?thesis by simp
qed

lemma join_room_ok: "directory_ok d \<Longrightarrow> directory_ok (fst (join_room d i u pw))"
  using directory_roomD[of d i]
  by (auto simp: join_room_def room_wf_def split: option.splits
      intro!: room_written dest!: room_admit_bound intro: fcard_admit)

lemma leave_room_ok: "directory_ok d \<Longrightarrow> directory_ok (fst (leave_room d i u))"
  using directory_roomD[of d i]
  by (auto simp: leave_room_def room_wf_def Let_def split: option.splits
      intro!: room_written room_removed fcard_release)

lemma join_game_ok: "directory_ok d \<Longrightarrow> directory_ok (fst (join_game d i u pw))"
  using directory_gameD[of d i]
  by (auto simp: join_game_def game_wf_def split: option.splits
      intro!: game_written dest!: game_admit_bound intro: fcard_admit)

lemma leave_game_ok: "directory_ok d \<Longrightarrow> directory_ok (fst (leave_game d i u))"
  using directory_gameD[of d i]
  by (auto simp: leave_game_def game_wf_def Let_def split: option.splits
      intro!: game_written game_removed fcard_release)

lemma close_game_ok: "directory_ok d \<Longrightarrow> directory_ok (fst (close_game d i))"
  by (auto simp: close_game_def split: option.splits intro!: game_removed)

lemma resize_game_ok: "directory_ok d \<Longrightarrow> directory_ok (fst (resize_game d i target))"
proof (cases "map_of (sd_games d) i")
  case None
  then show "directory_ok d \<Longrightarrow> ?thesis" by (simp add: resize_game_def)
next
  case (Some g)
  assume ok: "directory_ok d"
  have "fcard (gs_participants g |-| {|gs_owner g|}) \<le> fcard (gs_participants g)" by (rule fcard_mono) auto
  with Some directory_gameD[OF ok Some] ok show ?thesis
    by (auto simp: resize_game_def game_wf_def intro!: game_written)
qed

section \<open>The contract of a membership store\<close>

text \<open>
  What the clients of rooms and of games rely on: a successful join adds exactly that
  user, a successful leave removes exactly that user and retires the container when it
  becomes empty, a refused call changes nothing, and neither touches another container.
\<close>

locale membership_store =
  fixes join :: "'s \<Rightarrow> int \<Rightarrow> int \<Rightarrow> string \<Rightarrow> 's \<times> bool"
    and leave :: "'s \<Rightarrow> int \<Rightarrow> int \<Rightarrow> 's \<times> bool"
    and occupants :: "'s \<Rightarrow> int \<Rightarrow> int fset option"
    and sound :: "'s \<Rightarrow> bool"
  assumes join_sound: "sound s \<Longrightarrow> sound (fst (join s i u pw))"
    and leave_sound: "sound s \<Longrightarrow> sound (fst (leave s i u))"
    and join_accepted: "snd (join s i u pw) \<Longrightarrow>
      \<exists>m. occupants s i = Some m \<and> occupants (fst (join s i u pw)) i = Some (finsert u m)"
    and join_refused: "\<not> snd (join s i u pw) \<Longrightarrow> fst (join s i u pw) = s"
    and join_elsewhere: "j \<noteq> i \<Longrightarrow> occupants (fst (join s i u pw)) j = occupants s j"
    and leave_accepted: "sound s \<Longrightarrow> snd (leave s i u) \<Longrightarrow>
      \<exists>m. occupants s i = Some m \<and> u |\<in>| m \<and>
        occupants (fst (leave s i u)) i = (if m = {|u|} then None else Some (m |-| {|u|}))"
    and leave_refused: "\<not> snd (leave s i u) \<Longrightarrow> fst (leave s i u) = s"
    and leave_known: "occupants s i = Some m \<Longrightarrow> u |\<in>| m \<Longrightarrow> snd (leave s i u)"
    and leave_elsewhere: "sound s \<Longrightarrow> j \<noteq> i \<Longrightarrow> occupants (fst (leave s i u)) j = occupants s j"
begin

text \<open>A visit of a newcomer leaves no trace.\<close>

lemma visit_restores:
  assumes s: "sound s" and m: "occupants s i = Some m" and u: "u |\<notin>| m" and ne: "m \<noteq> {||}"
    and j: "snd (join s i u pw)"
  shows "snd (leave (fst (join s i u pw)) i u)" and
    "occupants (fst (leave (fst (join s i u pw)) i u)) k = occupants s k"
proof -
  let ?s = "fst (join s i u pw)"
  have joined: "occupants ?s i = Some (finsert u m)" using join_accepted[OF j] m by auto
  then show left: "snd (leave ?s i u)" by (rule leave_known) simp
  have "finsert u m \<noteq> {|u|}" using u ne by auto
  moreover have "finsert u m |-| {|u|} = m" using u by auto
  ultimately show "occupants (fst (leave ?s i u)) k = occupants s k"
    using leave_accepted[OF join_sound[OF s] left] leave_elsewhere[OF join_sound[OF s], of k i]
      join_elsewhere[of k i] joined m by (cases "k = i") auto
qed

text \<open>A retired container stays retired, whoever knocks.\<close>

lemma retired_stays_join: "occupants s k = None \<Longrightarrow> occupants (fst (join s i u pw)) k = None"
  using join_accepted[of s i u pw] join_refused[of s i u pw] join_elsewhere[of k i s u pw]
  by (cases "k = i"; cases "snd (join s i u pw)") auto

lemma retired_stays_leave:
  "sound s \<Longrightarrow> occupants s k = None \<Longrightarrow> occupants (fst (leave s i u)) k = None"
  using leave_accepted[of s i u] leave_refused[of s i u] leave_elsewhere[of s k i u]
  by (cases "k = i"; cases "snd (leave s i u)") auto

text \<open>The whole occupancy after an accepted call, as one update.\<close>

lemma join_occupants:
  "snd (join s i u pw) \<Longrightarrow> occupants s i = Some m \<Longrightarrow> occupants (fst (join s i u pw)) = (occupants s)(i \<mapsto> finsert u m)"
  using join_accepted[of s i u pw] join_elsewhere[of _ i s u pw] by (auto simp: fun_eq_iff)

lemma leave_occupants:
  "sound s \<Longrightarrow> occupants s i = Some m \<Longrightarrow> u |\<in>| m \<Longrightarrow>
   occupants (fst (leave s i u)) = (occupants s)(i := if m = {|u|} then None else Some (m |-| {|u|}))"
  using leave_accepted[OF _ leave_known, of s i m u] leave_elsewhere[of s _ i u] by (auto simp: fun_eq_iff)

lemma departed_absent:
  "sound s \<Longrightarrow> snd (leave s i u) \<Longrightarrow> (\<forall>m. occupants (fst (leave s i u)) i = Some m \<longrightarrow> u |\<notin>| m)"
  using leave_accepted[of s i u] by (auto split: if_splits)

end

definition room_members :: "session_directory \<Rightarrow> int \<Rightarrow> int fset option" where
  "room_members d i = map_option rm_members (map_of (sd_rooms d) i)"

definition game_members :: "session_directory \<Rightarrow> int \<Rightarrow> int fset option" where
  "game_members d i = map_option gs_participants (map_of (sd_games d) i)"

lemma map_of_update_dict: "map_of (AList.update k v d) k' = (if k' = k then Some v else map_of d k')"
  by (simp add: AList.update_conv')

lemma map_of_delete_dict: "map_of (AList.delete k d) k' = (if k' = k then None else map_of d k')"
  by (simp add: AList.delete_conv')

lemma room_join_accepted: "snd (join_room s i u pw) \<Longrightarrow>
    \<exists>m. room_members s i = Some m \<and> room_members (fst (join_room s i u pw)) i = Some (finsert u m)"
  by (auto simp: join_room_def room_members_def map_of_update_dict split: option.splits if_splits)

lemma room_join_refused: "\<not> snd (join_room s i u pw) \<Longrightarrow> fst (join_room s i u pw) = s"
  by (auto simp: join_room_def split: option.splits if_splits)

lemma room_join_elsewhere: "j \<noteq> i \<Longrightarrow> room_members (fst (join_room s i u pw)) j = room_members s j"
  by (auto simp: join_room_def room_members_def map_of_update_dict split: option.splits if_splits)

lemma room_leave_effect:
  assumes "directory_ok s" and "map_of (sd_rooms s) i = Some g" and "u |\<in>| rm_members g"
  shows "leave_room s i u = (s\<lparr>sd_rooms := if rm_members g = {|u|} then AList.delete i (sd_rooms s)
    else AList.update i (g\<lparr>rm_members := rm_members g |-| {|u|}\<rparr>) (sd_rooms s)\<rparr>, True)"
proof -
  have "rm_members g |-| {|u|} = {||} \<longleftrightarrow> rm_members g = {|u|}" using assms(3) by auto
  with assms(2,3) directory_roomD[OF assms(1,2)] show ?thesis by (simp add: leave_room_def Let_def room_wf_def)
qed

lemma room_leave_refused: "\<not> snd (leave_room s i u) \<Longrightarrow> fst (leave_room s i u) = s"
  by (auto simp: leave_room_def Let_def split: option.splits if_splits)

lemma room_leave_known: "room_members s i = Some m \<Longrightarrow> u |\<in>| m \<Longrightarrow> snd (leave_room s i u)"
  by (auto simp: leave_room_def room_members_def Let_def)

lemma room_leave_cases: "snd (leave_room s i u) \<Longrightarrow> \<exists>g. map_of (sd_rooms s) i = Some g \<and> u |\<in>| rm_members g"
  by (auto simp: leave_room_def Let_def split: option.splits if_splits)

lemma room_leave_accepted: "directory_ok s \<Longrightarrow> snd (leave_room s i u) \<Longrightarrow>
    \<exists>m. room_members s i = Some m \<and> u |\<in>| m \<and>
      room_members (fst (leave_room s i u)) i = (if m = {|u|} then None else Some (m |-| {|u|}))"
proof -
  assume ok: "directory_ok s" and left: "snd (leave_room s i u)"
  from room_leave_cases[OF left] obtain g where g: "map_of (sd_rooms s) i = Some g" "u |\<in>| rm_members g" by blast
  then show ?thesis
    by (intro exI[of _ "rm_members g"]) (simp add: room_leave_effect[OF ok g] room_members_def map_of_update_dict map_of_delete_dict)
qed

lemma room_leave_elsewhere: "directory_ok s \<Longrightarrow> j \<noteq> i \<Longrightarrow> room_members (fst (leave_room s i u)) j = room_members s j"
  using room_leave_cases[of s i u] room_leave_effect[of s i] room_leave_refused[of s i u]
  by (cases "snd (leave_room s i u)") (auto simp: room_members_def map_of_update_dict map_of_delete_dict)

interpretation room_store: membership_store join_room leave_room room_members directory_ok
  by unfold_locales
    (erule join_room_ok leave_room_ok room_join_accepted room_join_refused room_join_elsewhere room_leave_refused
      room_leave_elsewhere | erule (1) room_leave_accepted room_leave_known room_leave_elsewhere)+

lemma game_join_accepted: "snd (join_game s i u pw) \<Longrightarrow>
    \<exists>m. game_members s i = Some m \<and> game_members (fst (join_game s i u pw)) i = Some (finsert u m)"
  by (auto simp: join_game_def game_members_def map_of_update_dict split: option.splits if_splits)

lemma game_join_refused: "\<not> snd (join_game s i u pw) \<Longrightarrow> fst (join_game s i u pw) = s"
  by (auto simp: join_game_def split: option.splits if_splits)

lemma game_join_elsewhere: "j \<noteq> i \<Longrightarrow> game_members (fst (join_game s i u pw)) j = game_members s j"
  by (auto simp: join_game_def game_members_def map_of_update_dict split: option.splits if_splits)

lemma game_leave_effect:
  assumes "directory_ok s" and "map_of (sd_games s) i = Some g" and "u |\<in>| gs_participants g"
  shows "leave_game s i u = (s\<lparr>sd_games := if gs_participants g = {|u|} then AList.delete i (sd_games s)
    else AList.update i (g\<lparr>gs_participants := gs_participants g |-| {|u|}\<rparr>) (sd_games s)\<rparr>, True)"
proof -
  have "gs_participants g |-| {|u|} = {||} \<longleftrightarrow> gs_participants g = {|u|}" using assms(3) by auto
  with assms(2,3) directory_gameD[OF assms(1,2)] show ?thesis by (simp add: leave_game_def Let_def game_wf_def)
qed

lemma game_leave_refused: "\<not> snd (leave_game s i u) \<Longrightarrow> fst (leave_game s i u) = s"
  by (auto simp: leave_game_def Let_def split: option.splits if_splits)

lemma game_leave_known: "game_members s i = Some m \<Longrightarrow> u |\<in>| m \<Longrightarrow> snd (leave_game s i u)"
  by (auto simp: leave_game_def game_members_def Let_def)

lemma game_leave_cases: "snd (leave_game s i u) \<Longrightarrow> \<exists>g. map_of (sd_games s) i = Some g \<and> u |\<in>| gs_participants g"
  by (auto simp: leave_game_def Let_def split: option.splits if_splits)

lemma game_leave_accepted: "directory_ok s \<Longrightarrow> snd (leave_game s i u) \<Longrightarrow>
    \<exists>m. game_members s i = Some m \<and> u |\<in>| m \<and>
      game_members (fst (leave_game s i u)) i = (if m = {|u|} then None else Some (m |-| {|u|}))"
proof -
  assume ok: "directory_ok s" and left: "snd (leave_game s i u)"
  from game_leave_cases[OF left] obtain g where g: "map_of (sd_games s) i = Some g" "u |\<in>| gs_participants g" by blast
  then show ?thesis
    by (intro exI[of _ "gs_participants g"]) (simp add: game_leave_effect[OF ok g] game_members_def map_of_update_dict map_of_delete_dict)
qed

lemma game_leave_elsewhere: "directory_ok s \<Longrightarrow> j \<noteq> i \<Longrightarrow> game_members (fst (leave_game s i u)) j = game_members s j"
  using game_leave_cases[of s i u] game_leave_effect[of s i] game_leave_refused[of s i u]
  by (cases "snd (leave_game s i u)") (auto simp: game_members_def map_of_update_dict map_of_delete_dict)

interpretation game_store: membership_store join_game leave_game game_members directory_ok
  by unfold_locales
    (erule join_game_ok leave_game_ok game_join_accepted game_join_refused game_join_elsewhere game_leave_refused
      game_leave_elsewhere | erule (1) game_leave_accepted game_leave_known game_leave_elsewhere)+

text \<open>Creating, closing and resizing games, on the membership.\<close>

lemma create_game_members:
  "directory_ok d \<Longrightarrow> create_game d room_id owner cap mp vis pw inc = Inr (d', g) \<Longrightarrow>
   game_members d (gs_id g) = None \<and> game_members d' = (game_members d)(gs_id g \<mapsto> if inc then {|owner|} else {||})"
proof -
  assume ok: "directory_ok d" and c: "create_game d room_id owner cap mp vis pw inc = Inr (d', g)"
  have "map_of (sd_games d) (sd_next_game d) = None"
    using directory_gameD[OF ok, of "sd_next_game d"]
    by (cases "map_of (sd_games d) (sd_next_game d)") (auto simp: game_wf_def)
  with c show ?thesis
    by (auto simp: create_game_def Let_def game_members_def map_of_update_dict fun_eq_iff split: if_splits)
qed

lemma close_game_members: "game_members (fst (close_game d i)) = (game_members d)(i := None)"
  by (auto simp: close_game_def game_members_def map_of_delete_dict fun_eq_iff split: option.splits)

lemma resize_game_members: "game_members (fst (resize_game d i c)) = game_members d"
  by (auto simp: resize_game_def game_members_def map_of_update_dict fun_eq_iff split: option.splits)

section \<open>Runs of the directory\<close>

datatype directory_call =
    Create_Room int string int int visibility string
  | Join_Room int int string
  | Leave_Room int int
  | Create_Game int int int int visibility string bool
  | Join_Game int int string
  | Resize_Game int int
  | Leave_Game int int
  | Close_Game int

fun directory_call_state :: "directory_call \<Rightarrow> session_directory \<Rightarrow> session_directory" where
  "directory_call_state (Create_Room ow n c m v pw) d = (case create_room d ow n c m v pw of Inl _ \<Rightarrow> d | Inr (d', _) \<Rightarrow> d')"
| "directory_call_state (Join_Room i u pw) d = fst (join_room d i u pw)"
| "directory_call_state (Leave_Room i u) d = fst (leave_room d i u)"
| "directory_call_state (Create_Game rid ow c m v pw inc) d = (case create_game d rid ow c m v pw inc of Inl _ \<Rightarrow> d | Inr (d', _) \<Rightarrow> d')"
| "directory_call_state (Join_Game i u pw) d = fst (join_game d i u pw)"
| "directory_call_state (Resize_Game i c) d = fst (resize_game d i c)"
| "directory_call_state (Leave_Game i u) d = fst (leave_game d i u)"
| "directory_call_state (Close_Game i) d = fst (close_game d i)"

lemma directory_call_ok: "directory_ok d \<Longrightarrow> directory_ok (directory_call_state c d)"
  by (cases c) (auto simp: join_room_ok leave_room_ok join_game_ok leave_game_ok close_game_ok resize_game_ok
      split: sum.splits dest: create_room_ok create_game_ok)

lemma new_directory_ok: "directory_ok new_directory"
  by (simp add: directory_ok_def new_directory_def)

lemma directory_run_ok: "directory_ok d \<Longrightarrow> directory_ok (fold directory_call_state cs d)"
  by (induction cs arbitrary: d) (auto simp: directory_call_ok)

text \<open>
  Whatever calls the directory has answered, every room and game is stored under its own
  fresh id, never exceeds its capacity except by its owner, and a stored room is never empty.
\<close>

theorem directory_invariant:
  "directory_ok (fold directory_call_state cs new_directory)"
  by (rule directory_run_ok[OF new_directory_ok])

text \<open>
  A private game with no password admits nobody but its members and its owner; a game that
  is full or no longer open admits nobody else either; any other newcomer needs the exact
  password when there is one.
\<close>

theorem game_admission_rule:
  "game_can_join g u pw =
    (u |\<in>| gs_participants g \<or> u = gs_owner g \<or>
     (gs_state g = SS_OPEN \<and> int (fcard (gs_participants g)) < gs_capacity g \<and>
      (gs_password g = pw \<or> (gs_password g = [] \<and> gs_visibility g = PUBLIC))) \<and>
      (gs_visibility g = PUBLIC \<or> gs_password g \<noteq> [] \<or> u |\<in>| gs_participants g \<or> u = gs_owner g))"
  by (cases "gs_visibility g") (auto simp: game_can_join_def)

text \<open>
  A newcomer who joins a running game and leaves again restores the membership of every
  game of the directory.
\<close>

theorem game_visit_restores:
  assumes "directory_ok d" and "game_members d i = Some m" and "u |\<notin>| m" and "m \<noteq> {||}"
    and "snd (join_game d i u pw)"
  shows "snd (leave_game (fst (join_game d i u pw)) i u) \<and>
    game_members (fst (leave_game (fst (join_game d i u pw)) i u)) k = game_members d k"
  using game_store.visit_restores[OF assms] by blast

definition two_games :: session_directory where
  "two_games = fold directory_call_state
    [Create_Game 1 10 8 2 PUBLIC '''' True, Create_Game 1 11 2 2 PRIVATE ''pw'' False, Resize_Game 1 4] new_directory"

theorem game_visit_restores_witness:
  "snd (leave_game (fst (join_game two_games 1 20 [])) 1 20) \<and>
    game_members (fst (leave_game (fst (join_game two_games 1 20 [])) 1 20)) 2 = game_members two_games 2"
proof (rule game_visit_restores)
  show "directory_ok two_games" unfolding two_games_def by (rule directory_run_ok[OF new_directory_ok])
  show "game_members two_games 1 = Some {|10|}" by code_simp
  show "snd (join_game two_games 1 20 [])" by code_simp
qed simp_all

text \<open>
  Resizing never evicts: it succeeds exactly when the new capacity holds the minimum, one
  player and everyone present, and then only the capacity of that game changes.
\<close>

theorem resize_never_evicts:
  assumes "get_game d i = Some g"
  shows "snd (resize_game d i c) = (1 \<le> c \<and> gs_min_players g \<le> c \<and> int (fcard (gs_participants g)) \<le> c) \<and>
    get_game (fst (resize_game d i c)) i = Some (if snd (resize_game d i c) then g\<lparr>gs_capacity := c\<rparr> else g) \<and>
    game_members (fst (resize_game d i c)) k = game_members d k"
  using assms by (auto simp: resize_game_def get_game_def game_members_def map_of_update_dict)

theorem resize_never_evicts_witness:
  "snd (resize_game two_games 1 1) = (1 \<le> (1::int) \<and> (2::int) \<le> 1 \<and> int (fcard {|10::int|}) \<le> 1) \<and>
    game_members (fst (resize_game two_games 1 1)) 2 = game_members two_games 2"
proof -
  have "get_game two_games 1 = Some \<lparr>gs_id = 1, gs_room = 1, gs_owner = 10, gs_capacity = 4, gs_min_players = 2,
      gs_visibility = PUBLIC, gs_password = [], gs_state = SS_OPEN, gs_participants = {|10|}\<rparr>"
    by code_simp
  from resize_never_evicts[OF this, of 1 2] show ?thesis by simp
qed

text \<open>The owner is let back in past the capacity: two players in a game of one.\<close>

lemma owner_may_overfill:
  "game_members (fold directory_call_state
     [Create_Game 1 10 1 1 PUBLIC '''' False, Join_Game 1 20 '''', Join_Game 1 10 ''''] new_directory) 1 = Some {|20, 10|}"
  by code_simp

end
