(* ===== verification/Matchmaking.thy ===== *)
theory Matchmaking
  imports PyNumber "HOL-Library.FSet"
begin

text \<open>
  PlayNow matchmaking, from \<open>carbon/theater/matchmaking.py\<close>: reading a request out of its
  wire fields, resolving a dedicated room's published properties, the weighted fit of a
  room, the strict filter and the two asymmetric co-op forms.  Field and property
  dictionaries are association lists; a \<open>frozenset\<close> is a finite set, and the element that
  \<open>next(iter(s))\<close> yields is the argument \<open>pick\<close> (Python leaves that order open).
\<close>

type_synonym fields = "(string \<times> string) list"

section \<open>Constants\<close>

definition PLAY_NOW_PREFIX :: string where
  "PLAY_NOW_PREFIX = ''players.0.props.''"

definition RACE_PREFERENCES :: "string list" where
  "RACE_PREFERENCES =
    [''race_type_circuit'', ''race_type_knockout'', ''race_type_speedtrap'',
     ''race_type_pursuit_tag'', ''race_type_canyon_due'', ''race_type_sprint'']"

definition GAME_MODE_RACE_PROPERTY :: "(string \<times> string) list" where
  "GAME_MODE_RACE_PROPERTY =
    [(''0'', ''race_type_sprint''), (''1'', ''race_type_circuit''), (''5'', ''race_type_speedtrap''),
     (''13'', ''race_type_canyon_due''), (''14'', ''race_type_pursuit_tag''), (''15'', ''race_type_knockout'')]"

definition RACE_PROPERTY_GAME_MODE :: "(string \<times> string) list" where
  "RACE_PROPERTY_GAME_MODE = map (\<lambda>(mode, race). (race, mode)) GAME_MODE_RACE_PROPERTY"

definition STRING_PREFERENCES :: "string list" where
  "STRING_PREFERENCES =
    [''car_tier'', ''collision_detection'', ''game_mode'', ''help_type'', ''length'', ''n2o'']
    @ RACE_PREFERENCES @ [''team_play'']"

definition INTEGER_PREFERENCES :: "string list" where
  "INTEGER_PREFERENCES = [''max_online_player'', ''player_dnf'', ''skill'']"

definition DEDICATED_DEFAULTS :: fields where
  "DEDICATED_DEFAULTS =
    [(''game_mode'', ''1''), (''help_type'', ''0''), (''car_tier'', ''1''), (''collision_detection'', ''1''),
     (''n2o'', ''1''), (''length'', ''1''), (''team_play'', ''1''), (''race_type_circuit'', ''ex.5.1''),
     (''race_type_knockout'', ''qr.5.1''), (''race_type_speedtrap'', ''mu.2.2''),
     (''race_type_pursuit_tag'', ''qr.6.1''), (''race_type_canyon_due'', ''qr.3.3''),
     (''race_type_sprint'', ''ct.4.2'')]"

definition CHALLENGE_ROOM_IDENTITY :: fields where
  "CHALLENGE_ROOM_IDENTITY =
    [(''game_type'', ''2''), (''matchmaking_state'', ''0''), (''help_type'', ''0''), (''game_mode'', ''0''),
     (''max_online_player'', ''2''), (''skill'', ''''), (''player_dnf'', ''''), (''team_play'', ''1'')]"

definition CHALLENGE_ROOM_IDENTITY_PROPERTIES :: fields where
  "CHALLENGE_ROOM_IDENTITY_PROPERTIES = map (\<lambda>(name, v). (''B-U-'' @ name, v)) CHALLENGE_ROOM_IDENTITY"

section \<open>The selected event\<close>

definition get_or :: "fields \<Rightarrow> string \<Rightarrow> string \<Rightarrow> string" where
  "get_or fs k dflt = (case map_of fs k of None \<Rightarrow> dflt | Some v \<Rightarrow> v)"

definition selected_race_property :: "fields \<Rightarrow> string \<Rightarrow> string option" where
  "selected_race_property ps prefix =
    (let selected = [race \<leftarrow> map snd GAME_MODE_RACE_PROPERTY.
           upper (strip (get_or ps (prefix @ race) '''')) \<notin> {[], ''ABSTAIN''}];
         preferred = map_of GAME_MODE_RACE_PROPERTY (strip (get_or ps (prefix @ ''game_mode'') ''''))
     in case preferred of
          Some p \<Rightarrow> if p \<in> set selected then Some p
                    else if length selected = 1 then Some (hd selected) else None
        | None \<Rightarrow> if length selected = 1 then Some (hd selected) else None)"

definition selected_challenge_event :: "fields \<Rightarrow> string \<Rightarrow> (string \<times> string) option" where
  "selected_challenge_event ps prefix =
    (let selected = [(race, v) \<leftarrow> map (\<lambda>race. (race, strip (get_or ps (prefix @ race) ''''))) RACE_PREFERENCES.
           starts_with ''cs.'' (casefold v)]
     in if length selected = 1 then Some (hd selected) else None)"

section \<open>Requests\<close>

record play_now_request =
  pn_session_type :: string
  pn_allowed_game_types :: "string fset"
  pn_concrete_game_type :: "string option"
  pn_matchmaking_states :: "string fset"
  pn_version :: string
  pn_fit_threshold :: pyfloat
  pn_requested_help_type :: string

definition is_find :: "play_now_request \<Rightarrow> bool" where
  "is_find r = (pn_session_type r = ''findserver'')"

definition dedicated_session_types :: "string list" where
  "dedicated_session_types = [''resetserver'', ''createserver'', ''createsession'', ''hostserver'']"

definition creates_dedicated :: "play_now_request \<Rightarrow> bool" where
  "creates_dedicated r = (pn_session_type r \<in> set dedicated_session_types)"

fun field_value :: "fields \<Rightarrow> string list \<Rightarrow> string \<Rightarrow> string" where
  "field_value fs [] dflt = dflt"
| "field_value fs (k # ks) dflt = (case map_of fs k of
      None \<Rightarrow> field_value fs ks dflt
    | Some v \<Rightarrow> if strip v \<noteq> [] then strip v else field_value fs ks dflt)"

definition preference_key :: "string \<Rightarrow> string \<Rightarrow> string" where
  "preference_key kind name = PLAY_NOW_PREFIX @ ''{'' @ kind @ ''-'' @ name @ ''}''"

definition split_values :: "string \<Rightarrow> string fset" where
  "split_values v = fset_of_list
    [strip item. item \<leftarrow> split_on CHR ''|'' v, strip item \<noteq> [] \<and> casefold (strip item) \<noteq> ''abstain'']"

definition concrete :: "string \<Rightarrow> string \<Rightarrow> string" where
  "concrete v dflt = (let candidate = strip v in
     if candidate = [] \<or> CHR ''|'' \<in> set candidate \<or> casefold candidate \<in> {''abstain'', ''random''}
     then dflt else candidate)"

definition parse_threshold :: "string \<Rightarrow> pyfloat \<Rightarrow> pyfloat" where
  "parse_threshold v dflt =
    (let txt = strip v in
     if txt = [] then dflt
     else let first = strip (hd (split_on CHR '','' txt));
              first = (if CHR '':'' \<in> set first then strip (tl (dropWhile (\<lambda>c. c \<noteq> CHR '':'') first)) else first)
          in case py_float first of
               None \<Rightarrow> dflt
             | Some parsed \<Rightarrow> unit_clamp (if fl_less (Fin 1) parsed then fl_div parsed (Fin 10000) else parsed))"

definition parse_request :: "fields \<Rightarrow> play_now_request" where
  "parse_request fs =
    (let session_type = casefold (field_value fs [PLAY_NOW_PREFIX @ ''{sessionType}'', ''sessionType''] '''');
         raw_types = field_value fs [preference_key ''filter'' ''game_type'', ''B-U-game_type''] '''';
         concrete_type = concrete raw_types '''';
         (concrete_opt, allowed) =
           (if raw_types = [] \<and> session_type \<in> set dedicated_session_types then (Some ''0'', {|''0''|})
            else if concrete_type \<notin> {''0'', ''1'', ''2''} then (None, split_values raw_types)
            else (Some concrete_type, split_values raw_types))
     in \<lparr>pn_session_type = session_type, pn_allowed_game_types = allowed, pn_concrete_game_type = concrete_opt,
         pn_matchmaking_states = split_values (field_value fs
           [preference_key ''filter'' ''matchmaking_state'', ''B-U-matchmaking_state''] ''''),
         pn_version = field_value fs [preference_key ''filter'' ''version'', ''B-U-version'', ''B-version''] '''',
         pn_fit_threshold = parse_threshold (field_value fs [PLAY_NOW_PREFIX @ ''{fitThreshold}''] '''') (Fin 0),
         pn_requested_help_type = concrete (field_value fs
           [''B-U-help_type'', preference_key ''pref'' ''help_type'', preference_key ''filter'' ''help_type''] '''') ''''\<rparr>)"

definition requested_preference :: "fields \<Rightarrow> string \<Rightarrow> string \<Rightarrow> string" where
  "requested_preference fs name dflt =
     field_value fs [''B-U-'' @ name, preference_key ''pref'' name, preference_key ''filter'' name] dflt"

section \<open>The properties of a dedicated room\<close>

text \<open>
  \<open>Game_Type_Not_Concrete\<close> is the \<open>ValueError\<close> of the function itself;
  \<open>Float_To_Int_Overflow\<close> is the \<open>OverflowError\<close> of \<open>int(float("inf"))\<close>, which its
  \<open>except ValueError\<close> does not catch.
\<close>

datatype resolve_error = Game_Type_Not_Concrete | Float_To_Int_Overflow

definition resolve_strings :: "fields \<Rightarrow> string \<Rightarrow> fields \<Rightarrow> fields" where
  "resolve_strings fs game_type ps = fold (\<lambda>name. AList.update (''B-U-'' @ name)
     (if game_type = ''2'' \<and> name = ''help_type'' then ''0''
      else concrete (requested_preference fs name '''') (the (map_of DEDICATED_DEFAULTS name)))) STRING_PREFERENCES ps"

definition resolve_max_players :: "fields \<Rightarrow> string \<Rightarrow> string" where
  "resolve_max_players fs game_type =
    (let parsed = (case py_int (concrete (requested_preference fs ''max_online_player'' '''') ''8'') of
           None \<Rightarrow> 8 | Some v \<Rightarrow> v)
     in if game_type = ''2'' then ''2'' else show_int (min 8 (max 2 parsed)))"

definition resolve_challenge :: "fields \<Rightarrow> fields \<Rightarrow> fields" where
  "resolve_challenge fs ps =
    (let ps = fold (\<lambda>(k, v). AList.update k v) CHALLENGE_ROOM_IDENTITY_PROPERTIES ps;
         requested = map (\<lambda>name. (name, requested_preference fs name '''')) RACE_PREFERENCES;
         ps = fold (\<lambda>name. AList.update (''B-U-'' @ name) ''ABSTAIN'') RACE_PREFERENCES ps;
         ps = (case selected_challenge_event requested '''' of
             None \<Rightarrow> ps
           | Some (race, event) \<Rightarrow> AList.update ''B-U-game_mode'' (the (map_of RACE_PROPERTY_GAME_MODE race))
               (AList.update (''B-U-'' @ race) event ps))
     in AList.update ''B-U-track'' '''' ps)"

definition truncate_float :: "pyfloat \<Rightarrow> int \<Rightarrow> resolve_error + int" where
  "truncate_float x dflt = (case x of
      Fin q \<Rightarrow> Inr (if 0 \<le> q then \<lfloor>q\<rfloor> else - \<lfloor>- q\<rfloor>)
    | NaN \<Rightarrow> Inr dflt
    | _ \<Rightarrow> Inl Float_To_Int_Overflow)"

definition resolve_half :: "fields \<Rightarrow> string \<Rightarrow> int \<Rightarrow> fields \<Rightarrow> resolve_error + fields" where
  "resolve_half fs name dflt ps =
    (let raw = concrete (requested_preference fs name '''') (show_int dflt)
     in rbind (case py_float raw of None \<Rightarrow> Inr dflt | Some x \<Rightarrow> truncate_float x dflt)
       (\<lambda>requested. Inr (AList.update (''B-U-'' @ name) (show_int (max 0 (requested div 2))) ps)))"

definition resolved_dedicated_properties ::
  "(string fset \<Rightarrow> string) \<Rightarrow> fields \<Rightarrow> play_now_request \<Rightarrow> resolve_error + fields" where
  "resolved_dedicated_properties pick fs request = (case pn_concrete_game_type request of
      None \<Rightarrow> Inl Game_Type_Not_Concrete
    | Some game_type \<Rightarrow>
        if game_type \<notin> {''0'', ''1'', ''2''} then Inl Game_Type_Not_Concrete
        else let version = (if pn_version request = [] then ''298_prod_server+22012b18'' else pn_version request);
                 states = pn_matchmaking_states request;
                 state = (if states = {||} then ''1'' else pick states);
                 state = (if state \<notin> {''0'', ''1''} then ''1'' else state);
                 ps = [(''B-version'', version), (''B-U-version'', version), (''B-U-game_type'', game_type),
                   (''B-U-matchmaking_state'', state), (''B-U-track'', '''')];
                 ps = resolve_strings fs game_type ps;
                 ps = AList.update ''B-U-max_online_player'' (resolve_max_players fs game_type) ps
             in if game_type = ''2'' then Inr (resolve_challenge fs ps)
                else rbind (resolve_half fs ''skill'' 1000 ps) (resolve_half fs ''player_dnf'' 0))"

section \<open>Fit scoring\<close>

definition strip_quotes :: "string \<Rightarrow> string" where
  "strip_quotes v = (let txt = strip v in
     if 2 \<le> length txt \<and> hd txt = CHR 0x22 \<and> last txt = CHR 0x22 then slice 1 (length txt - 1) txt else txt)"

definition parse_fit_values :: "string \<Rightarrow> string list" where
  "parse_fit_values v = [strip item. item \<leftarrow> split_on CHR '','' (strip_quotes v), strip item \<noteq> []]"

definition parse_fit_table :: "string \<Rightarrow> pyfloat list list" where
  "parse_fit_table v = map (\<lambda>row. map (\<lambda>item. case py_float (strip item) of None \<Rightarrow> Fin 0 | Some x \<Rightarrow> x)
     (split_on CHR '';'' row)) (split_on CHR ''|'' v)"

definition float_field :: "fields \<Rightarrow> string \<Rightarrow> pyfloat \<Rightarrow> pyfloat" where
  "float_field fs key dflt = (case map_of fs key of None \<Rightarrow> dflt
    | Some v \<Rightarrow> (case py_float (strip v) of None \<Rightarrow> dflt | Some x \<Rightarrow> x))"

fun index_of :: "'a \<Rightarrow> 'a list \<Rightarrow> nat option" where
  "index_of x [] = None"
| "index_of x (y # ys) = (if y = x then Some 0 else map_option Suc (index_of x ys))"

definition string_preference_fit :: "fields \<Rightarrow> fields \<Rightarrow> string \<Rightarrow> pyfloat option" where
  "string_preference_fit fs ps name = (case map_of fs (preference_key ''pref'' name) of
      None \<Rightarrow> Some (Fin 1)
    | Some requested \<Rightarrow> (case map_of ps (''B-U-'' @ name) of
          None \<Rightarrow> Some (Fin 1)
        | Some game_value \<Rightarrow>
            let vals = parse_fit_values (get_or fs (preference_key ''fitValues'' name) '''');
                table = parse_fit_table (get_or fs (preference_key ''fitTable'' name) '''')
            in if vals = [] \<or> table = [] then
                 (if casefold requested = ''abstain'' \<or> casefold game_value = ''abstain'' then Some (Fin 1)
                  else Some (if requested = game_value then Fin 1 else Fin 0))
               else (case (index_of requested vals, index_of game_value vals) of
                   (Some i, Some j) \<Rightarrow>
                     if length table \<le> i \<or> length (table ! i) \<le> j then Some (Fin 0)
                     else let score = table ! i ! j in
                       if fl_less score (Fin 0) then None else Some (unit_clamp score)
                 | _ \<Rightarrow> Some (Fin 0))))"

definition integer_preference_fit :: "fields \<Rightarrow> fields \<Rightarrow> string \<Rightarrow> pyfloat" where
  "integer_preference_fit fs ps name =
    (case (map_of fs (preference_key ''pref'' name), map_of ps (''B-U-'' @ name)) of
        (Some requested, Some game_value) \<Rightarrow>
          (case (py_float requested, py_float game_value) of
              (Some x, Some y) \<Rightarrow>
                let scale = fl_max (Fin 1) (float_field fs (preference_key ''fitScale'' name) (Fin 1))
                in unit_clamp (fl_sub (Fin 1) (fl_div (fl_abs (fl_sub x y)) scale))
            | _ \<Rightarrow> Fin 0)
      | _ \<Rightarrow> Fin 1)"

definition fit_weight :: "fields \<Rightarrow> string \<Rightarrow> pyfloat" where
  "fit_weight fs name = fl_max (Fin 0) (float_field fs (preference_key ''fitWeight'' name) (Fin 1))"

fun string_fits :: "fields \<Rightarrow> fields \<Rightarrow> bool \<Rightarrow> string list \<Rightarrow> pyfloat \<times> pyfloat \<Rightarrow> (pyfloat \<times> pyfloat) option" where
  "string_fits fs ps reject [] acc = Some acc"
| "string_fits fs ps reject (name # names) (tot, weighted) =
    (if map_of fs (preference_key ''pref'' name) = None then string_fits fs ps reject names (tot, weighted)
     else case (string_preference_fit fs ps name, reject) of
         (None, True) \<Rightarrow> None
       | (fit, _) \<Rightarrow> let w = fit_weight fs name; f = (case fit of None \<Rightarrow> Fin 0 | Some x \<Rightarrow> x) in
           string_fits fs ps reject names (fl_add tot w, fl_add weighted (fl_mult f w)))"

definition integer_fits :: "fields \<Rightarrow> fields \<Rightarrow> pyfloat \<times> pyfloat \<Rightarrow> pyfloat \<times> pyfloat" where
  "integer_fits fs ps = fold (\<lambda>name (tot, weighted).
     if map_of fs (preference_key ''pref'' name) = None then (tot, weighted)
     else let w = fit_weight fs name in
       (fl_add tot w, fl_add weighted (fl_mult (integer_preference_fit fs ps name) w))) INTEGER_PREFERENCES"

definition match_fit :: "fields \<Rightarrow> fields \<Rightarrow> bool \<Rightarrow> pyfloat option" where
  "match_fit fs ps reject = (case string_fits fs ps reject STRING_PREFERENCES (Fin 0, Fin 0) of
      None \<Rightarrow> None
    | Some acc \<Rightarrow> (let (tot, weighted) = integer_fits fs ps acc in
        Some (if fl_less (Fin 0) tot then fl_div weighted tot else Fin 1)))"

section \<open>The strict filter and the co-op forms\<close>

definition is_direct_coop_helper_reset :: "fields \<Rightarrow> play_now_request \<Rightarrow> bool" where
  "is_direct_coop_helper_reset fs r =
    (if pn_session_type r \<noteq> ''resetserver'' then False
     else if pn_concrete_game_type r \<noteq> Some ''1'' then False
     else if pn_matchmaking_states r \<noteq> {||} \<and> pn_matchmaking_states r \<noteq> {|''0''|} then False
     else if concrete (requested_preference fs ''help_type'' '''') '''' \<notin> {[], ''0''} then False
     else if concrete (requested_preference fs ''game_mode'' '''') '''' \<noteq> [] then False
     else (\<forall>name \<in> set RACE_PREFERENCES. concrete (requested_preference fs name '''') '''' = []))"

definition is_coop_state_bridge :: "play_now_request \<Rightarrow> fields \<Rightarrow> bool" where
  "is_coop_state_bridge r ps =
    (get_or ps ''B-U-game_type'' '''' = ''2'' \<and> ''2'' |\<in>| pn_allowed_game_types r \<and>
     ''1'' |\<in>| pn_allowed_game_types r \<and> ''0'' |\<notin>| pn_allowed_game_types r \<and>
     get_or ps ''B-U-matchmaking_state'' '''' = ''0'' \<and> ''1'' |\<in>| pn_matchmaking_states r)"

definition strict_match :: "play_now_request \<Rightarrow> fields \<Rightarrow> bool" where
  "strict_match r ps =
    (if pn_allowed_game_types r \<noteq> {||} \<and> get_or ps ''B-U-game_type'' '''' |\<notin>| pn_allowed_game_types r then False
     else if pn_matchmaking_states r \<noteq> {||} \<and> get_or ps ''B-U-matchmaking_state'' '''' |\<notin>| pn_matchmaking_states r
       \<and> \<not> is_coop_state_bridge r ps then False
     else if pn_version r \<noteq> [] \<and> get_or ps ''B-U-version'' '''' \<noteq> pn_version r then False
     else True)"

section \<open>Fits are fractions\<close>

lemma string_preference_fit_unit: "string_preference_fit fs ps name = Some x \<Longrightarrow> in_unit x"
  by (auto simp: string_preference_fit_def Let_def in_unit_iff[of "Fin 1"] in_unit_iff[of "Fin 0"]
      split: option.splits if_splits)

lemma integer_preference_fit_unit: "in_unit (integer_preference_fit fs ps name)"
  by (auto simp: integer_preference_fit_def Let_def in_unit_iff[of "Fin 1"] in_unit_iff[of "Fin 0"] split: option.splits)

definition weight_like :: "pyfloat \<Rightarrow> bool" where
  "weight_like w = (case w of Fin q \<Rightarrow> 0 \<le> q | PosInf \<Rightarrow> True | _ \<Rightarrow> False)"

lemma fit_weight_like: "weight_like (fit_weight fs name)"
  by (cases "float_field fs (preference_key ''fitWeight'' name) (Fin 1)") (auto simp: fit_weight_def fl_max_def weight_like_def)

text \<open>
  The accumulator: a finite total carries at most itself; once the weights have summed to
  infinity the weighted sum may be anything but negative.
\<close>

definition fit_acc :: "pyfloat \<times> pyfloat \<Rightarrow> bool" where
  "fit_acc acc = (case acc of
      (Fin t, Fin w) \<Rightarrow> 0 \<le> w \<and> w \<le> t
    | (PosInf, Fin w) \<Rightarrow> 0 \<le> w
    | (PosInf, PosInf) \<Rightarrow> True
    | (PosInf, NaN) \<Rightarrow> True
    | _ \<Rightarrow> False)"

lemma fl_of_nonneg: "0 \<le> q \<Longrightarrow> fl_of q = PosInf \<or> (\<exists>p. fl_of q = Fin p \<and> 0 \<le> p \<and> p \<le> q)"
  using double_limit_big by (auto simp: fl_of_def)

lemma fl_of_mono: "0 \<le> p \<Longrightarrow> p \<le> q \<Longrightarrow> fit_acc (fl_of q, fl_of p)"
proof -
  assume h: "0 \<le> p" "p \<le> q"
  have "\<bar>p\<bar> * double_scale \<le> \<bar>q\<bar> * double_scale" by (rule mult_right_mono) (use h double_scale_big in simp_all)
  with h double_limit_big show ?thesis by (auto simp: fl_of_def fit_acc_def)
qed

lemma fit_acc_PosInf: "fit_acc (PosInf, w) \<longleftrightarrow> (case w of Fin q \<Rightarrow> 0 \<le> q | NegInf \<Rightarrow> False | _ \<Rightarrow> True)"
  by (cases w) (simp_all add: fit_acc_def)

lemma fit_acc_nonneg: "fit_acc (t, Fin w) \<Longrightarrow> 0 \<le> w"
  by (cases t) (simp_all add: fit_acc_def)

text \<open>One scored preference keeps the accumulator well formed.\<close>

lemma fit_acc_finite_step:
  assumes "0 \<le> w" "w \<le> t" "0 \<le> q" "q \<le> 1" "0 \<le> v"
  shows "fit_acc (fl_of (t + v), fl_add (Fin w) (fl_of (q * v)))"
proof (cases "fl_of (q * v) = PosInf")
  case True
  have "q * v \<le> v" using assms mult_right_mono[of q 1 v] by simp
  with True assms have "fl_of (t + v) = PosInf" by (auto simp: fl_of_def split: if_splits)
  with True show ?thesis by (simp add: fit_acc_def)
next
  case False
  have nn: "0 \<le> q * v" using assms by simp
  with False fl_of_nonneg obtain p where p: "fl_of (q * v) = Fin p" "0 \<le> p" "p \<le> q * v" by blast
  have "q * v \<le> v" using assms mult_right_mono[of q 1 v] by simp
  with p assms have "fit_acc (fl_of (t + v), fl_of (w + p))" by (intro fl_of_mono) simp_all
  with p(1) show ?thesis by simp
qed

lemma fit_acc_infinite:
  assumes "fit_acc (t, w)" "x = PosInf \<or> x = NaN \<or> (\<exists>q. x = Fin q \<and> 0 \<le> q)"
  shows "fit_acc (PosInf, fl_add w x)"
proof (cases w)
  case (Fin a)
  have a: "0 \<le> a" using assms(1) by (simp add: Fin fit_acc_nonneg)
  from assms(2) show ?thesis
  proof (elim disjE exE conjE)
    fix q assume q: "x = Fin q" "0 \<le> q"
    have "0 \<le> a + q" using a q(2) by simp
    from fl_of_nonneg[OF this] show ?thesis by (auto simp: Fin q(1) fit_acc_PosInf)
  qed (simp_all add: Fin fit_acc_PosInf)
next
  case NegInf
  with assms show ?thesis by (cases t) (simp_all add: fit_acc_def)
qed (use assms(2) in \<open>auto simp: fit_acc_PosInf\<close>)

lemma fit_acc_step:
  assumes acc: "fit_acc (t, w)" and f: "in_unit f" and u: "weight_like u"
  shows "fit_acc (fl_add t u, fl_add w (fl_mult f u))"
proof -
  obtain q where q: "f = Fin q" "0 \<le> q" "q \<le> 1" using f by (auto simp: in_unit_iff)
  show ?thesis
  proof (cases u)
    case (Fin v)
    then have v: "0 \<le> v" using u by (simp add: weight_like_def)
    have x: "fl_of (q * v) = PosInf \<or> fl_of (q * v) = NaN \<or> (\<exists>r. fl_of (q * v) = Fin r \<and> 0 \<le> r)"
      using fl_of_nonneg[of "q * v"] q v by auto
    show ?thesis
    proof (cases t)
      case (Fin a)
      show ?thesis
      proof (cases w)
        case (Fin b)
        with acc \<open>t = Fin a\<close> have "0 \<le> b" "b \<le> a" by (simp_all add: fit_acc_def)
        with fit_acc_finite_step q v \<open>u = Fin v\<close> \<open>t = Fin a\<close> Fin show ?thesis by simp
      qed (use acc Fin in \<open>simp_all add: fit_acc_def\<close>)
    next
      case PosInf
      with fit_acc_infinite[OF acc x] \<open>u = Fin v\<close> q show ?thesis by simp
    qed (use acc in \<open>simp_all add: fit_acc_def\<close>)
  next
    case PosInf
    have "fl_add t PosInf = PosInf" using acc by (cases t) (simp_all add: fit_acc_def)
    moreover have "fit_acc (PosInf, fl_add w (inf_times q))"
      by (rule fit_acc_infinite[OF acc]) (use q in \<open>auto simp: inf_times_def\<close>)
    ultimately show ?thesis using PosInf q by simp
  qed (use u in \<open>simp_all add: weight_like_def\<close>)
qed

lemma in_unit_zero: "in_unit (Fin 0)"
  by (simp add: in_unit_def)

lemma string_fits_step:
  "string_fits fs ps reject (name # names) (t, w) = Some acc' \<Longrightarrow>
   string_fits fs ps reject names (t, w) = Some acc' \<or>
   (\<exists>f. in_unit f \<and> string_fits fs ps reject names (fl_add t (fit_weight fs name), fl_add w (fl_mult f (fit_weight fs name))) = Some acc')"
  using string_preference_fit_unit[of fs ps name] in_unit_zero
  by (cases "string_preference_fit fs ps name"; cases reject) (auto simp: Let_def split: if_splits)

lemma string_fits_acc: "fit_acc acc \<Longrightarrow> string_fits fs ps reject names acc = Some acc' \<Longrightarrow> fit_acc acc'"
proof (induction names arbitrary: acc)
  case (Cons name names)
  obtain t w where acc: "acc = (t, w)" by (cases acc)
  from string_fits_step[OF Cons.prems(2)[unfolded acc]] show ?case
  proof (elim disjE exE conjE)
    fix f assume "in_unit f" and rest: "string_fits fs ps reject names (fl_add t (fit_weight fs name), fl_add w (fl_mult f (fit_weight fs name))) = Some acc'"
    show ?thesis by (rule Cons.IH[OF fit_acc_step[OF Cons.prems(1)[unfolded acc] \<open>in_unit f\<close> fit_weight_like] rest])
  qed (rule Cons.IH[OF Cons.prems(1)[unfolded acc]])
qed simp

lemma integer_fits_acc: "fit_acc acc \<Longrightarrow> fit_acc (integer_fits fs ps acc)"
  unfolding integer_fits_def
  by (rule fold_invariant[where Q = "\<lambda>_. True"])
    (auto simp: Let_def fit_acc_step[OF _ integer_preference_fit_unit fit_weight_like])

text \<open>
  The fit of a room is a fraction between 0 and 1 whatever fields, tables and weights the
  client sent; the one exception is weights that sum to infinity, where it may be NaN.
\<close>

theorem match_fit_bounded:
  assumes "match_fit fs ps reject = Some x"
  shows "in_unit x \<or> x = NaN"
proof -
  obtain acc where acc: "string_fits fs ps reject STRING_PREFERENCES (Fin 0, Fin 0) = Some acc"
    using assms by (auto simp: match_fit_def split: option.splits)
  obtain t w where tw: "integer_fits fs ps acc = (t, w)" by (cases "integer_fits fs ps acc")
  have "fit_acc (Fin 0, Fin 0)" by (simp add: fit_acc_def)
  from integer_fits_acc[OF string_fits_acc[OF this acc], of fs ps] tw have inv: "fit_acc (t, w)" by simp
  have x: "x = (if fl_less (Fin 0) t then fl_div w t else Fin 1)" using assms acc tw by (simp add: match_fit_def)
  show ?thesis
  proof (cases t)
    case (Fin a)
    then obtain b where b: "w = Fin b" "0 \<le> b" "b \<le> a" using inv by (cases w) (auto simp: fit_acc_def)
    show ?thesis
    proof (cases "0 < a")
      case True
      then have ba: "0 \<le> b / a" "b / a \<le> 1" using b by (simp_all add: divide_simps)
      moreover have "\<not> double_limit \<le> b / a" using double_limit_big ba(2) by linarith
      ultimately have "in_unit (fl_of (b / a))" using fl_of_nonneg[of "b / a"] by (auto simp: in_unit_def fl_of_def)
      with x Fin b True show ?thesis by simp
    qed (use x Fin in \<open>simp add: in_unit_def\<close>)
  next
    case PosInf
    with inv x show ?thesis by (cases w) (auto simp: fit_acc_def in_unit_def)
  qed (use inv in \<open>simp_all add: fit_acc_def\<close>)
qed

theorem match_fit_bounded_witness:
  "in_unit (Fin (1/2)) \<or> Fin (1/2) = NaN"
proof (rule match_fit_bounded)
  show "match_fit [(preference_key ''pref'' ''n2o'', ''1''), (preference_key ''pref'' ''skill'', ''5'')]
      [(''B-U-n2o'', ''1''), (''B-U-skill'', ''7'')] True = Some (Fin (1/2))"
    by code_simp
qed

section \<open>What a dedicated room publishes\<close>

definition is_concrete :: "string \<Rightarrow> bool" where
  "is_concrete v = (strip v = v \<and> v \<noteq> [] \<and> CHR ''|'' \<notin> set v \<and> casefold v \<notin> {''abstain'', ''random''})"

lemma concrete_is_concrete: "is_concrete dflt \<Longrightarrow> is_concrete (concrete v dflt)"
  by (auto simp: concrete_def is_concrete_def Let_def strip_idem)

lemma defaults_concrete: "\<forall>(name, v) \<in> set DEDICATED_DEFAULTS. is_concrete v"
  by code_simp

lemma defaults_complete: "\<forall>name \<in> set STRING_PREFERENCES. map_of DEDICATED_DEFAULTS name \<noteq> None"
  by code_simp

lemma default_concrete: "name \<in> set STRING_PREFERENCES \<Longrightarrow> is_concrete (the (map_of DEDICATED_DEFAULTS name))"
  using defaults_concrete defaults_complete by (fastforce dest: map_of_SomeD)

lemma map_of_fold_update:
  "map_of (fold (\<lambda>n. AList.update (key n) (f n)) ns d) k =
    (case [n \<leftarrow> ns. key n = k] of [] \<Rightarrow> map_of d k | m # ms \<Rightarrow> Some (f (last (m # ms))))"
proof (induction ns arbitrary: d)
  case (Cons n ns)
  then show ?case by (cases "[n \<leftarrow> ns. key n = k]") (auto simp: AList.update_conv')
qed simp

lemma last_filter_eq: "x \<in> set xs \<Longrightarrow> \<exists>m ms. [n \<leftarrow> xs. n = x] = m # ms \<and> last (m # ms) = x"
proof -
  assume "x \<in> set xs"
  then have ne: "[n \<leftarrow> xs. n = x] \<noteq> []" by (auto simp: filter_empty_conv)
  then have "last [n \<leftarrow> xs. n = x] \<in> set [n \<leftarrow> xs. n = x]" by (rule last_in_set)
  then have "last [n \<leftarrow> xs. n = x] = x" by simp
  moreover obtain m ms where "[n \<leftarrow> xs. n = x] = m # ms" using ne by (cases "[n \<leftarrow> xs. n = x]") blast+
  ultimately show ?thesis by metis
qed

lemma resolve_strings_lookup:
  "name \<in> set STRING_PREFERENCES \<Longrightarrow> map_of (resolve_strings fs gt ps) (''B-U-'' @ name) =
     Some (if gt = ''2'' \<and> name = ''help_type'' then ''0''
           else concrete (requested_preference fs name '''') (the (map_of DEDICATED_DEFAULTS name)))"
  using last_filter_eq[of name STRING_PREFERENCES]
  by (auto simp: resolve_strings_def map_of_fold_update split: if_splits)

lemma resolve_half_other: "resolve_half fs name dflt ps = Inr ps' \<Longrightarrow> k \<noteq> ''B-U-'' @ name \<Longrightarrow> map_of ps' k = map_of ps k"
  by (auto simp: resolve_half_def Let_def rbind_eq_Inr AList.update_conv' split: option.splits)

lemma half_not_string: "name \<in> set STRING_PREFERENCES \<Longrightarrow> name \<notin> set INTEGER_PREFERENCES"
  by (auto simp: STRING_PREFERENCES_def RACE_PREFERENCES_def INTEGER_PREFERENCES_def)

lemma ranked_resolution:
  assumes "resolved_dedicated_properties pick fs r = Inr ps" and "pn_concrete_game_type r = Some gt" and "gt \<noteq> ''2''"
  shows "\<exists>d ps1. resolve_half fs ''skill'' 1000
        (AList.update ''B-U-max_online_player'' (resolve_max_players fs gt) (resolve_strings fs gt d)) = Inr ps1 \<and>
      resolve_half fs ''player_dnf'' 0 ps1 = Inr ps"
  using assms by (auto simp: resolved_dedicated_properties_def Let_def rbind_eq_Inr split: if_splits)

text \<open>
  A ranked or unranked room publishes one concrete value for every string preference:
  a search alternative such as 0|2, an abstention or a random vote never reaches it.
\<close>

theorem published_values_concrete:
  assumes "resolved_dedicated_properties pick fs r = Inr ps" and "pn_concrete_game_type r \<noteq> Some ''2''"
    and "name \<in> set STRING_PREFERENCES"
  shows "\<exists>v. map_of ps (''B-U-'' @ name) = Some v \<and> is_concrete v"
proof -
  obtain gt where gt: "pn_concrete_game_type r = Some gt" "gt \<noteq> ''2''"
    using assms(1,2) by (auto simp: resolved_dedicated_properties_def split: option.splits)
  have other: "name \<noteq> ''skill''" "name \<noteq> ''player_dnf''" "name \<noteq> ''max_online_player''"
    using half_not_string[OF assms(3)] by (auto simp: INTEGER_PREFERENCES_def)
  from ranked_resolution[OF assms(1) gt]
  have "map_of ps (''B-U-'' @ name) = map_of (resolve_strings fs gt d) (''B-U-'' @ name)" if
    "resolve_half fs ''skill'' 1000
        (AList.update ''B-U-max_online_player'' (resolve_max_players fs gt) (resolve_strings fs gt d)) = Inr ps1"
    "resolve_half fs ''player_dnf'' 0 ps1 = Inr ps" for d ps1
    using that other by (simp add: resolve_half_other AList.update_conv')
  with ranked_resolution[OF assms(1) gt] resolve_strings_lookup[OF assms(3)] gt(2)
    concrete_is_concrete[OF default_concrete[OF assms(3)]]
  show ?thesis by fastforce
qed

text \<open>When resolution raises.\<close>

definition reads_infinite :: "fields \<Rightarrow> string \<Rightarrow> string \<Rightarrow> bool" where
  "reads_infinite fs name dflt =
     (py_float (concrete (requested_preference fs name '''') dflt) \<in> {Some PosInf, Some NegInf})"

lemma resolve_half_raises:
  "resolve_half fs name dflt ps = Inl e \<longleftrightarrow> e = Float_To_Int_Overflow \<and> reads_infinite fs name (show_int dflt)"
  by (cases "py_float (concrete (requested_preference fs name '''') (show_int dflt))")
    (auto simp: resolve_half_def reads_infinite_def truncate_float_def Let_def split: pyfloat.splits)

lemma resolution_raises:
  "resolved_dedicated_properties pick fs r = Inl e \<longleftrightarrow>
    (e = Game_Type_Not_Concrete \<and> pn_concrete_game_type r \<notin> {Some ''0'', Some ''1'', Some ''2''}) \<or>
    (e = Float_To_Int_Overflow \<and> pn_concrete_game_type r \<in> {Some ''0'', Some ''1''} \<and>
     (reads_infinite fs ''skill'' (show_int 1000) \<or> reads_infinite fs ''player_dnf'' (show_int 0)))"
proof (cases "pn_concrete_game_type r")
  case (Some gt)
  have halves: "rbind (resolve_half fs ''skill'' 1000 ps) (resolve_half fs ''player_dnf'' 0) = Inl e \<longleftrightarrow>
      e = Float_To_Int_Overflow \<and> (reads_infinite fs ''skill'' (show_int 1000) \<or> reads_infinite fs ''player_dnf'' (show_int 0))" for ps
    using resolve_half_raises[of fs "''skill''" 1000 ps] resolve_half_raises[of fs "''player_dnf''" 0]
    by (cases "resolve_half fs ''skill'' 1000 ps") auto
  show ?thesis
    by (auto simp: resolved_dedicated_properties_def Let_def Some halves)
qed (auto simp: resolved_dedicated_properties_def)

definition ranked_fields :: fields where
  "ranked_fields = [(''sessionType'', '' resetServer ''), (''B-U-game_type'', ''1''),
     (preference_key ''pref'' ''length'', ''ABSTAIN''), (preference_key ''pref'' ''skill'', ''1000''),
     (preference_key ''pref'' ''race_type_sprint'', ''ct.1.1'')]"

definition some_state :: "string fset \<Rightarrow> string" where
  "some_state s = (if ''0'' |\<in>| s then ''0'' else ''1'')"

theorem published_values_concrete_witness:
  "\<exists>v. map_of (case resolved_dedicated_properties some_state ranked_fields (parse_request ranked_fields) of
      Inl _ \<Rightarrow> [] | Inr ps \<Rightarrow> ps) (''B-U-'' @ ''length'') = Some v \<and> is_concrete v"
proof (rule published_values_concrete[where pick = some_state and fs = ranked_fields and r = "parse_request ranked_fields"])
  have t: "pn_concrete_game_type (parse_request ranked_fields) = Some ''1''" by code_simp
  have "\<not> reads_infinite ranked_fields ''skill'' (show_int 1000)" "\<not> reads_infinite ranked_fields ''player_dnf'' (show_int 0)" by code_simp+
  then have "is_ok (resolved_dedicated_properties some_state ranked_fields (parse_request ranked_fields))"
    using resolution_raises[of some_state ranked_fields "parse_request ranked_fields"] t
    by (cases "resolved_dedicated_properties some_state ranked_fields (parse_request ranked_fields)") auto
  then show "resolved_dedicated_properties some_state ranked_fields (parse_request ranked_fields) =
      Inr (case resolved_dedicated_properties some_state ranked_fields (parse_request ranked_fields) of
      Inl _ \<Rightarrow> [] | Inr ps \<Rightarrow> ps)"
    by (auto simp: is_ok_iff)
  show "pn_concrete_game_type (parse_request ranked_fields) \<noteq> Some ''2''" by code_simp
  show "''length'' \<in> set STRING_PREFERENCES" by code_simp
qed

lemma resolve_challenge_lookup:
  "map_of (resolve_challenge fs ps) k =
    (if k = ''B-U-track'' then Some ''''
     else case selected_challenge_event (map (\<lambda>name. (name, requested_preference fs name '''')) RACE_PREFERENCES) '''' of
         Some (race, event) \<Rightarrow>
           if k = ''B-U-game_mode'' then Some (the (map_of RACE_PROPERTY_GAME_MODE race))
           else if k = ''B-U-'' @ race then Some event
           else if k \<in> (\<lambda>name. ''B-U-'' @ name) ` set RACE_PREFERENCES then Some ''ABSTAIN''
           else map_of (fold (\<lambda>(k, v). AList.update k v) CHALLENGE_ROOM_IDENTITY_PROPERTIES ps) k
       | None \<Rightarrow> if k \<in> (\<lambda>name. ''B-U-'' @ name) ` set RACE_PREFERENCES then Some ''ABSTAIN''
           else map_of (fold (\<lambda>(k, v). AList.update k v) CHALLENGE_ROOM_IDENTITY_PROPERTIES ps) k)"
proof -
  have abstain: "map_of (fold (\<lambda>name. AList.update (''B-U-'' @ name) ''ABSTAIN'') ns d) k =
      (if k \<in> (\<lambda>name. ''B-U-'' @ name) ` set ns then Some ''ABSTAIN'' else map_of d k)" for ns and d :: fields
    by (induction ns arbitrary: d) (auto simp: AList.update_conv')
  show ?thesis
    by (cases "selected_challenge_event (map (\<lambda>name. (name, requested_preference fs name [])) RACE_PREFERENCES) []")
      (simp_all only: resolve_challenge_def Let_def AList.update_conv' abstain option.case case_prod_beta fun_upd_apply)
qed

lemma selected_challenge_race:
  "selected_challenge_event ps prefix = Some (race, event) \<Longrightarrow>
   race \<in> set RACE_PREFERENCES \<and> starts_with ''cs.'' (casefold event)"
proof -
  assume "selected_challenge_event ps prefix = Some (race, event)"
  then obtain sel where "sel = [(race, v) \<leftarrow> map (\<lambda>race. (race, strip (get_or ps (prefix @ race) ''''))) RACE_PREFERENCES.
           starts_with ''cs.'' (casefold v)]" "length sel = 1" "hd sel = (race, event)"
    by (auto simp: selected_challenge_event_def Let_def split: if_splits)
  then have "(race, event) \<in> set [(race, v) \<leftarrow> map (\<lambda>race. (race, strip (get_or ps (prefix @ race) ''''))) RACE_PREFERENCES.
           starts_with ''cs.'' (casefold v)]"
    by (metis hd_in_set length_0_conv zero_neq_one)
  then show ?thesis by auto
qed

lemma race_slots_apart:
  "race \<in> set RACE_PREFERENCES \<Longrightarrow> ''B-U-'' @ race \<noteq> ''B-U-track'' \<and> ''B-U-'' @ race \<noteq> ''B-U-game_mode''"
  by (auto simp: RACE_PREFERENCES_def)

lemma identity_lookup:
  "map_of (fold (\<lambda>(k, v). AList.update k v) l d) k = (case map_of (rev l) k of None \<Rightarrow> map_of d k | Some v \<Rightarrow> Some v)"
  by (induction l arbitrary: d) (auto simp: AList.update_conv' map_add_def split: option.splits)

lemma identity_values:
  "map_of (rev CHALLENGE_ROOM_IDENTITY_PROPERTIES) ''B-U-game_type'' = Some ''2''"
  "map_of (rev CHALLENGE_ROOM_IDENTITY_PROPERTIES) ''B-U-max_online_player'' = Some ''2''"
  "map_of (rev CHALLENGE_ROOM_IDENTITY_PROPERTIES) ''B-U-help_type'' = Some ''0''"
  "map_of (rev CHALLENGE_ROOM_IDENTITY_PROPERTIES) ''B-U-game_mode'' = Some ''0''"
  by code_simp+

lemma identity_not_race:
  "\<forall>k \<in> {''B-U-game_type'', ''B-U-max_online_player'', ''B-U-help_type''}.
     k \<notin> (\<lambda>name. ''B-U-'' @ name) ` set RACE_PREFERENCES \<and> k \<noteq> ''B-U-track'' \<and> k \<noteq> ''B-U-game_mode'' \<and>
     map_of (rev CHALLENGE_ROOM_IDENTITY_PROPERTIES) k \<noteq> None"
  by code_simp

text \<open>The identity fields other than the game mode are those of the retail capture.\<close>

lemma resolve_challenge_identity:
  assumes "k \<in> {''B-U-game_type'', ''B-U-max_online_player'', ''B-U-help_type''}"
  shows "map_of (resolve_challenge fs d) k = map_of (rev CHALLENGE_ROOM_IDENTITY_PROPERTIES) k"
proof -
  note k = bspec[OF identity_not_race assms]
  have "race \<in> set RACE_PREFERENCES \<Longrightarrow> k \<noteq> ''B-U-'' @ race" for race using k by blast
  with k show ?thesis
    unfolding resolve_challenge_lookup identity_lookup
    by (auto simp del: append.simps split: option.splits dest: selected_challenge_race)
qed

lemma challenge_slots:
  assumes "selected_challenge_event (map (\<lambda>name. (name, requested_preference fs name '''')) RACE_PREFERENCES) '''' = Some (race, event)"
  shows "{r \<in> set RACE_PREFERENCES. map_of (resolve_challenge fs d) (''B-U-'' @ r) \<noteq> Some ''ABSTAIN''} = {race}"
    and "map_of (resolve_challenge fs d) ''B-U-game_mode'' = map_of RACE_PROPERTY_GAME_MODE race"
proof -
  note sel = selected_challenge_race[OF assms]
  have "\<not> starts_with ''cs.'' (casefold ''ABSTAIN'')" by code_simp
  with sel have "event \<noteq> ''ABSTAIN''" by auto
  moreover have "map_of (resolve_challenge fs d) (''B-U-'' @ r) = Some (if r = race then event else ''ABSTAIN'')"
    if "r \<in> set RACE_PREFERENCES" for r
    using that race_slots_apart[OF that] by (simp only: resolve_challenge_lookup assms) (auto simp del: append.simps)
  ultimately show "{r \<in> set RACE_PREFERENCES. map_of (resolve_challenge fs d) (''B-U-'' @ r) \<noteq> Some ''ABSTAIN''} = {race}"
    using sel by (auto simp del: append.simps split: if_splits)
  have "\<forall>race \<in> set RACE_PREFERENCES. map_of RACE_PROPERTY_GAME_MODE race \<noteq> None" by code_simp
  then show "map_of (resolve_challenge fs d) ''B-U-game_mode'' = map_of RACE_PROPERTY_GAME_MODE race"
    using sel by (subst resolve_challenge_lookup) (auto simp: assms)
qed

lemma challenge_no_slot:
  assumes "selected_challenge_event (map (\<lambda>name. (name, requested_preference fs name '''')) RACE_PREFERENCES) '''' = None"
  shows "{r \<in> set RACE_PREFERENCES. map_of (resolve_challenge fs d) (''B-U-'' @ r) \<noteq> Some ''ABSTAIN''} = {}"
    and "map_of (resolve_challenge fs d) ''B-U-game_mode'' = Some ''0''"
proof -
  have "map_of (resolve_challenge fs d) (''B-U-'' @ r) = Some ''ABSTAIN''" if "r \<in> set RACE_PREFERENCES" for r
    using that race_slots_apart[OF that] by (simp only: resolve_challenge_lookup assms) (auto simp del: append.simps)
  then show "{r \<in> set RACE_PREFERENCES. map_of (resolve_challenge fs d) (''B-U-'' @ r) \<noteq> Some ''ABSTAIN''} = {}"
    by blast
  have "''B-U-game_mode'' \<notin> (\<lambda>name. ''B-U-'' @ name) ` set RACE_PREFERENCES" by code_simp
  then show "map_of (resolve_challenge fs d) ''B-U-game_mode'' = Some ''0''"
    unfolding resolve_challenge_lookup identity_lookup assms by (simp add: identity_values del: append.simps)
qed

text \<open>
  A Challenge room is created with the retail identity: game type 2, two places, no help
  type; and of the six race slots at most one names an event, the one the request selected,
  whose native mode is then the published game mode.
\<close>

theorem challenge_room_identity:
  assumes "resolved_dedicated_properties pick fs r = Inr ps" and "pn_concrete_game_type r = Some ''2''"
  shows "map_of ps ''B-U-game_type'' = Some ''2'' \<and> map_of ps ''B-U-max_online_player'' = Some ''2'' \<and>
    map_of ps ''B-U-help_type'' = Some ''0'' \<and>
    (map_of ps ''B-U-game_mode'' = Some ''0'' \<and> {race \<in> set RACE_PREFERENCES. map_of ps (''B-U-'' @ race) \<noteq> Some ''ABSTAIN''} = {}
     \<or> (\<exists>race. {race \<in> set RACE_PREFERENCES. map_of ps (''B-U-'' @ race) \<noteq> Some ''ABSTAIN''} = {race} \<and>
          map_of ps ''B-U-game_mode'' = map_of RACE_PROPERTY_GAME_MODE race))"
proof -
  obtain d where ps: "ps = resolve_challenge fs d"
    using assms by (auto simp: resolved_dedicated_properties_def Let_def)
  have "map_of ps ''B-U-game_type'' = Some ''2''" "map_of ps ''B-U-max_online_player'' = Some ''2''"
    "map_of ps ''B-U-help_type'' = Some ''0''"
    unfolding ps by (simp_all only: resolve_challenge_identity identity_values insert_iff simp_thms)
  moreover have "map_of ps ''B-U-game_mode'' = Some ''0'' \<and> {race \<in> set RACE_PREFERENCES. map_of ps (''B-U-'' @ race) \<noteq> Some ''ABSTAIN''} = {}
     \<or> (\<exists>race. {race \<in> set RACE_PREFERENCES. map_of ps (''B-U-'' @ race) \<noteq> Some ''ABSTAIN''} = {race} \<and>
          map_of ps ''B-U-game_mode'' = map_of RACE_PROPERTY_GAME_MODE race)"
  proof (cases "selected_challenge_event (map (\<lambda>name. (name, requested_preference fs name [])) RACE_PREFERENCES) []")
    case None
    show ?thesis unfolding ps using challenge_no_slot[OF None, of d] by blast
  next
    case (Some ev)
    obtain race event where ev: "ev = (race, event)" by (cases ev)
    show ?thesis unfolding ps using challenge_slots[OF Some[unfolded ev], of d] by blast
  qed
  ultimately show ?thesis by blast
qed


definition challenge_fields :: fields where
  "challenge_fields = [(''sessionType'', ''resetServer''), (''B-U-game_type'', ''2''),
     (''B-U-race_type_circuit'', ''cs.1.1''), (''B-U-race_type_sprint'', ''mu.2.2'')]"

definition challenge_result :: fields where
  "challenge_result = (case resolved_dedicated_properties some_state challenge_fields (parse_request challenge_fields) of
      Inl _ \<Rightarrow> [] | Inr ps \<Rightarrow> ps)"

theorem challenge_room_identity_witness:
  "map_of challenge_result ''B-U-game_type'' = Some ''2'' \<and> map_of challenge_result ''B-U-max_online_player'' = Some ''2'' \<and>
    map_of challenge_result ''B-U-help_type'' = Some ''0'' \<and>
    (map_of challenge_result ''B-U-game_mode'' = Some ''0'' \<and>
      {race \<in> set RACE_PREFERENCES. map_of challenge_result (''B-U-'' @ race) \<noteq> Some ''ABSTAIN''} = {}
     \<or> (\<exists>race. {race \<in> set RACE_PREFERENCES. map_of challenge_result (''B-U-'' @ race) \<noteq> Some ''ABSTAIN''} = {race} \<and>
          map_of challenge_result ''B-U-game_mode'' = map_of RACE_PROPERTY_GAME_MODE race))"
proof (rule challenge_room_identity[where pick = some_state and fs = challenge_fields and r = "parse_request challenge_fields"])
  have t: "pn_concrete_game_type (parse_request challenge_fields) = Some ''2''" by code_simp
  then have "is_ok (resolved_dedicated_properties some_state challenge_fields (parse_request challenge_fields))"
    using resolution_raises[of some_state challenge_fields "parse_request challenge_fields"]
    by (cases "resolved_dedicated_properties some_state challenge_fields (parse_request challenge_fields)") auto
  then show "resolved_dedicated_properties some_state challenge_fields (parse_request challenge_fields) = Inr challenge_result"
    by (auto simp: is_ok_iff challenge_result_def)
  show "pn_concrete_game_type (parse_request challenge_fields) = Some ''2''" by code_simp
qed

section \<open>Errors and the co-op forms\<close>

text \<open>
  Resolution raises in two cases only: no concrete game type, or, for a ranked or unranked
  room, a skill or DNF preference that reads as an infinity.
\<close>

theorem resolution_errors:
  "resolved_dedicated_properties pick fs r = Inl e \<longleftrightarrow>
    (e = Game_Type_Not_Concrete \<and> pn_concrete_game_type r \<notin> {Some ''0'', Some ''1'', Some ''2''}) \<or>
    (e = Float_To_Int_Overflow \<and> pn_concrete_game_type r \<in> {Some ''0'', Some ''1''} \<and>
     (reads_infinite fs ''skill'' (show_int 1000) \<or> reads_infinite fs ''player_dnf'' (show_int 0)))"
  by (rule resolution_raises)

text \<open>Every threshold read from the wire lies between 0 and 1.\<close>

lemma parse_threshold_unit: "in_unit dflt \<Longrightarrow> in_unit (parse_threshold v dflt)"
  by (simp add: parse_threshold_def Let_def split: option.splits)

lemma parsed_threshold: "in_unit (pn_fit_threshold (parse_request fs))"
  by (simp add: parse_request_def Let_def parse_threshold_unit in_unit_zero split: prod.splits)

lemma field_value_stripped: "strip dflt = dflt \<Longrightarrow> strip (field_value fs ks dflt) = field_value fs ks dflt"
  by (induction fs ks dflt rule: field_value.induct) (auto simp: strip_idem split: option.splits)

lemma concrete_single: "concrete v [] = c \<Longrightarrow> c \<noteq> [] \<Longrightarrow> split_values v = {|c|}"
proof -
  assume c: "concrete v [] = c" "c \<noteq> []"
  then have v: "strip v = c" "CHR ''|'' \<notin> set c" "casefold c \<noteq> ''abstain''" by (auto simp: concrete_def Let_def split: if_splits)
  have "CHR ''|'' \<notin> set v"
  proof
    assume bar: "CHR ''|'' \<in> set v"
    have keep: "x \<in> set xs \<Longrightarrow> \<not> P x \<Longrightarrow> x \<in> set (dropWhile P xs)" for x P and xs :: string
      by (induction xs) auto
    have "\<not> is_space CHR ''|''" by code_simp
    with bar have "CHR ''|'' \<in> set (strip v)" by (simp add: strip_def keep)
    with v show False by simp
  qed
  with v c show ?thesis by (simp add: split_values_def split_on_word)
qed

text \<open>
  The two co-op forms never overlap: a request recognised as the direct helper reset is not
  a search that may cross the state bridge, into whatever room.
\<close>

theorem coop_forms_disjoint:
  "\<not> (is_direct_coop_helper_reset fs (parse_request fs) \<and>
      (is_find (parse_request fs) \<or> is_coop_state_bridge (parse_request fs) ps))"
proof (rule notI, elim conjE)
  assume direct: "is_direct_coop_helper_reset fs (parse_request fs)"
    and other: "is_find (parse_request fs) \<or> is_coop_state_bridge (parse_request fs) ps"
  define raw where "raw = field_value fs [preference_key ''filter'' ''game_type'', ''B-U-game_type''] ''''"
  have s: "pn_session_type (parse_request fs) = ''resetserver''" and g: "pn_concrete_game_type (parse_request fs) = Some ''1''"
    using direct by (auto simp: is_direct_coop_helper_reset_def split: if_splits)
  have "concrete raw [] = ''1''" and allowed: "pn_allowed_game_types (parse_request fs) = split_values raw"
    using g by (auto simp: parse_request_def Let_def raw_def split: if_splits prod.splits)
  then have "pn_allowed_game_types (parse_request fs) = {|''1''|}" using concrete_single[of raw "''1''"] by simp
  with other s show False by (auto simp: is_find_def is_coop_state_bridge_def)
qed

end
