(* ===== verification/Allocation.thy ===== *)
theory Allocation
  imports Main "HOL-Library.While_Combinator"
begin

text \<open>
  The allocation loop that the server uses for wire player ids and room ticks: from a
  candidate in 1..M, step cyclically until one is not taken.  The source's \<open>while\<close> is
  \<open>while_option\<close>, whose \<open>None\<close> is a loop that never ends; it ends when some value is free.
\<close>

definition next_cyclic :: "int \<Rightarrow> int \<Rightarrow> int" where
  "next_cyclic maximum candidate = (if maximum \<le> candidate then 1 else candidate + 1)"

definition next_free :: "int \<Rightarrow> (int \<Rightarrow> bool) \<Rightarrow> int \<Rightarrow> int option" where
  "next_free maximum taken candidate = while_option taken (next_cyclic maximum) candidate"

lemma next_free_unfold:
  "next_free m taken c = (if taken c then next_free m taken (next_cyclic m c) else Some c)"
  unfolding next_free_def by (rule while_option_unfold)

lemma next_free_immediate [simp]: "\<not> taken c \<Longrightarrow> next_free m taken c = Some c"
  by (subst next_free_unfold) simp

lemma next_free_result:
  "next_free m taken c = Some r \<Longrightarrow> 1 \<le> c \<Longrightarrow> c \<le> m \<Longrightarrow> \<not> taken r \<and> 1 \<le> r \<and> r \<le> m"
  unfolding next_free_def
  using while_option_stop[of taken "next_cyclic m" c r]
    while_option_rule[of "\<lambda>x. 1 \<le> x \<and> x \<le> m" taken "next_cyclic m" c r]
  by (auto simp: next_cyclic_def split: if_splits)

text \<open>The number of steps from \<open>c\<close> to a free \<open>x\<close>, around the cycle.\<close>

definition cyclic_distance :: "int \<Rightarrow> int \<Rightarrow> int \<Rightarrow> nat" where
  "cyclic_distance m x c = nat (if c \<le> x then x - c else m - c + x)"

lemma next_free_terminates:
  assumes "1 \<le> x" "x \<le> m" "\<not> taken x" "1 \<le> c" "c \<le> m"
  shows "\<exists>r. next_free m taken c = Some r"
  unfolding next_free_def
proof (rule measure_while_option_Some[where P = "\<lambda>c. 1 \<le> c \<and> c \<le> m" and f = "cyclic_distance m x"])
  fix s assume s: "1 \<le> s \<and> s \<le> m" "taken s"
  with assms have "s \<noteq> x" by auto
  with s assms show "(1 \<le> next_cyclic m s \<and> next_cyclic m s \<le> m) \<and> cyclic_distance m x (next_cyclic m s) < cyclic_distance m x s"
    by (auto simp: next_cyclic_def cyclic_distance_def)
qed (use assms in auto)

text \<open>A finite set smaller than the cycle leaves something free.\<close>

lemma free_exists:
  assumes "finite A" "int (card A) < m" "0 \<le> m"
  shows "\<exists>x. 1 \<le> x \<and> x \<le> m \<and> x \<notin> A"
proof (rule ccontr)
  assume "\<not> ?thesis"
  then have "{1..m} \<subseteq> A" by auto
  then have "card {1..m} \<le> card A" by (rule card_mono[OF assms(1)])
  with assms show False by simp
qed

lemma next_free_total:
  assumes "finite A" "int (card A) < m" "1 \<le> c" "c \<le> m" "\<And>x. taken x \<Longrightarrow> x \<in> A"
  shows "\<exists>r. next_free m taken c = Some r \<and> \<not> taken r \<and> 1 \<le> r \<and> r \<le> m"
proof -
  obtain x where "1 \<le> x" "x \<le> m" "x \<notin> A" using free_exists[OF assms(1,2)] assms(3,4) by auto
  then obtain r where "next_free m taken c = Some r" using next_free_terminates[of x m taken c] assms by blast
  then show ?thesis using next_free_result assms(3,4) by blast
qed

end
