(* ===== verification/IdentityStore.thy ===== *)
theory IdentityStore
  imports PyText Allocation "HOL-Library.FSet"
begin

text \<open>
  The identity and session store of \<open>carbon/accounts/identity.py\<close>: stable identities per
  account, session tokens, the forced-logoff markers of a duplicate login, and the
  collision-safe 15-bit wire player ids.  \<open>hashlib.md5\<close> is the argument \<open>digest\<close>; the token
  that the factory of the store returns is an argument of \<open>login\<close>.
\<close>

definition MAX_CARBON_WIRE_PLAYER_ID :: int where
  "MAX_CARBON_WIRE_PLAYER_ID = 0x7FFF"

definition MAX_FORCED_LOGOFF_MARKERS :: nat where
  "MAX_FORCED_LOGOFF_MARKERS = 256"

record identity =
  id_account_name :: string
  id_persona :: string
  id_profile_id :: int
  id_user_id :: int

record identity_store =
  is_identities :: "(string \<times> identity) list"
  is_sessions :: "(string \<times> identity) list"
  is_forced_logoffs :: "(string \<times> (identity \<times> string)) list"
  is_theater_ready :: "string fset"
  is_wire_ids :: "(string \<times> int) list"
  is_wire_id_owners :: "(int \<times> string) list"

definition new_identity_store :: identity_store where
  "new_identity_store = \<lparr>is_identities = [], is_sessions = [], is_forced_logoffs = [],
     is_theater_ready = {||}, is_wire_ids = [], is_wire_id_owners = []\<rparr>"

text \<open>\<open>a or b\<close> on strings, and \<open>str.lower()\<close> on Latin-1.\<close>

definition or_text :: "string \<Rightarrow> string \<Rightarrow> string" where
  "or_text a b = (if a = [] then b else a)"

definition lower_char :: "char \<Rightarrow> char" where
  "lower_char c = (let n = of_char c :: nat in
     if (65 \<le> n \<and> n \<le> 90) \<or> (192 \<le> n \<and> n \<le> 222 \<and> n \<noteq> 215) then char_of (n + 32) else c)"

definition lower :: "string \<Rightarrow> string" where
  "lower s = map lower_char s"

definition profile_id_for :: "(bytes \<Rightarrow> bytes) \<Rightarrow> string \<Rightarrow> int" where
  "profile_id_for digest persona =
     100000000 + int (be_nat (slice 0 4 (digest (utf8_encode (lower (strip (or_text persona ''Player''))))))) mod 900000000"

datatype login_error = Empty_Token | No_Established_Session | Token_Exists

text \<open>\<open>next(token for token, identity in items if ..., "")\<close>.\<close>

definition first_token :: "(identity \<Rightarrow> bool) \<Rightarrow> (string \<times> identity) list \<Rightarrow> string" where
  "first_token P items = (case find (\<lambda>(token, i). P i) items of None \<Rightarrow> [] | Some (token, i) \<Rightarrow> token)"

fun trim_forced :: "(string \<times> (identity \<times> string)) list \<Rightarrow> string fset \<Rightarrow> (string \<times> (identity \<times> string)) list \<times> string fset" where
  "trim_forced [] ready = ([], ready)"
| "trim_forced ((token, v) # rest) ready =
     (if MAX_FORCED_LOGOFF_MARKERS < length ((token, v) # rest) then trim_forced rest (ready |-| {|token|})
      else ((token, v) # rest, ready))"

definition login_identity :: "(bytes \<Rightarrow> bytes) \<Rightarrow> string \<Rightarrow> string option \<Rightarrow> identity_store \<Rightarrow> identity \<times> identity_store" where
  "login_identity digest account_name persona s =
    (let account = or_text (strip (or_text account_name ''Player'')) ''Player'';
         display = or_text (strip (or_text (case persona of None \<Rightarrow> [] | Some p \<Rightarrow> p) account)) account;
         key = casefold account;
         profile_id = profile_id_for digest display;
         fresh = \<lparr>id_account_name = account, id_persona = display, id_profile_id = profile_id, id_user_id = profile_id\<rparr>
     in case map_of (is_identities s) key of
          Some i \<Rightarrow> if id_persona i = display then (i, s)
                    else (fresh, s\<lparr>is_identities := AList.update key fresh (is_identities s)\<rparr>)
        | None \<Rightarrow> (fresh, s\<lparr>is_identities := AList.update key fresh (is_identities s)\<rparr>))"

definition displace_session ::
  "string \<Rightarrow> string \<Rightarrow> string \<Rightarrow> identity \<Rightarrow> identity_store \<Rightarrow> (login_error + identity \<times> string) \<times> identity_store" where
  "displace_session account token reason i s =
    (let previous_token = first_token (\<lambda>j. casefold (id_account_name j) = casefold account) (is_sessions s)
     in if previous_token = [] then (Inl No_Established_Session, s)
        else if token \<in> fst ` set (is_sessions s) \<or> token \<in> fst ` set (is_forced_logoffs s) then (Inl Token_Exists, s)
        else let previous_identity = the (map_of (is_sessions s) previous_token);
                 forced = AList.update previous_token (previous_identity, reason) (is_forced_logoffs s);
                 (forced, ready) = trim_forced forced (is_theater_ready s |-| {|previous_token|})
             in (Inr (i, token), s\<lparr>is_sessions := AList.update token i (AList.delete previous_token (is_sessions s)),
                                   is_forced_logoffs := forced, is_theater_ready := ready\<rparr>))"

definition login ::
  "(bytes \<Rightarrow> bytes) \<Rightarrow> string \<Rightarrow> string \<Rightarrow> string option \<Rightarrow> string \<Rightarrow> identity_store \<Rightarrow>
   (login_error + identity \<times> string) \<times> identity_store" where
  "login digest token account_name persona forced_logoff_reason s =
    (let (i, s) = login_identity digest account_name persona s;
         reason = upper (strip forced_logoff_reason)
     in if token = [] then (Inl Empty_Token, s)
        else if reason \<noteq> [] then
          displace_session (or_text (strip (or_text account_name ''Player'')) ''Player'') token reason i s
        else (Inr (i, token), s\<lparr>is_forced_logoffs := AList.delete token (is_forced_logoffs s),
               is_theater_ready := is_theater_ready s |-| {|token|},
               is_sessions := AList.update token i (is_sessions s)\<rparr>))"

text \<open>\<open>None\<close> is the loop that never ends, when every id belongs to somebody else.\<close>

definition wire_player_id :: "(bytes \<Rightarrow> bytes) \<Rightarrow> string \<Rightarrow> identity_store \<Rightarrow> (int \<times> identity_store) option" where
  "wire_player_id digest persona s =
    (let key = or_text (casefold (strip persona)) ''player''
     in case map_of (is_wire_ids s) key of
          Some existing \<Rightarrow> Some (existing, s)
        | None \<Rightarrow>
            let raw = digest (utf8_encode key);
                candidate = 1 + int (be_nat (slice 4 6 raw)) mod MAX_CARBON_WIRE_PLAYER_ID;
                owners = is_wire_id_owners s
            in map_option (\<lambda>c. (c, s\<lparr>is_wire_ids := AList.update key c (is_wire_ids s),
                                      is_wire_id_owners := AList.update c key owners\<rparr>))
                 (next_free MAX_CARBON_WIRE_PLAYER_ID (\<lambda>c. map_of owners c \<noteq> None \<and> map_of owners c \<noteq> Some key) candidate))"

definition active_session_token :: "string \<Rightarrow> string option \<Rightarrow> identity_store \<Rightarrow> string" where
  "active_session_token account_name persona s =
    (let key = casefold (strip account_name)
     in first_token (\<lambda>i. casefold (id_account_name i) = key \<and>
          (case persona of None \<Rightarrow> True | Some p \<Rightarrow> casefold (id_persona i) = casefold (strip p))) (is_sessions s))"

definition forced_logoff_reason :: "string \<Rightarrow> identity_store \<Rightarrow> string" where
  "forced_logoff_reason token s = (case map_of (is_forced_logoffs s) token of None \<Rightarrow> [] | Some forced \<Rightarrow> snd forced)"

definition resolve_forced_logoff :: "string \<Rightarrow> identity_store \<Rightarrow> (identity \<times> string) option" where
  "resolve_forced_logoff token s = map_of (is_forced_logoffs s) token"

definition mark_forced_logoff_theater_ready :: "string \<Rightarrow> identity_store \<Rightarrow> bool \<times> identity_store" where
  "mark_forced_logoff_theater_ready token s =
    (if map_of (is_forced_logoffs s) token = None then (False, s)
     else (True, s\<lparr>is_theater_ready := finsert token (is_theater_ready s)\<rparr>))"

definition forced_logoff_theater_ready :: "string \<Rightarrow> identity_store \<Rightarrow> bool" where
  "forced_logoff_theater_ready token s = (token |\<in>| is_theater_ready s)"

definition resolve_session :: "string \<Rightarrow> identity_store \<Rightarrow> identity option" where
  "resolve_session token s = map_of (is_sessions s) token"

definition revoke_session :: "string \<Rightarrow> identity_store \<Rightarrow> bool \<times> identity_store" where
  "revoke_session token s =
    (map_of (is_sessions s) token \<noteq> None, s\<lparr>is_sessions := AList.delete token (is_sessions s)\<rparr>)"

fun with_wire_ids :: "(bytes \<Rightarrow> bytes) \<Rightarrow> (string \<times> identity) list \<Rightarrow> identity_store \<Rightarrow> ((string \<times> identity \<times> int) list \<times> identity_store) option" where
  "with_wire_ids digest [] s = Some ([], s)"
| "with_wire_ids digest ((token, i) # items) s = (case wire_player_id digest (id_persona i) s of
      None \<Rightarrow> None
    | Some (n, s1) \<Rightarrow> (case with_wire_ids digest items s1 of
          None \<Rightarrow> None | Some (rows, s2) \<Rightarrow> Some ((token, i, n) # rows, s2)))"

definition active_sessions :: "(bytes \<Rightarrow> bytes) \<Rightarrow> identity_store \<Rightarrow> ((string \<times> identity \<times> int) list \<times> identity_store) option" where
  "active_sessions digest s = with_wire_ids digest (is_sessions s) s"

definition forced_logoffs :: "(bytes \<Rightarrow> bytes) \<Rightarrow> identity_store \<Rightarrow> ((string \<times> identity \<times> int) list \<times> string list \<times> identity_store) option" where
  "forced_logoffs digest s = (case with_wire_ids digest (map (\<lambda>(token, i, _). (token, i)) (is_forced_logoffs s)) s of
      None \<Rightarrow> None
    | Some (rows, s') \<Rightarrow> Some (rows, map (\<lambda>(_, _, reason). reason) (is_forced_logoffs s), s'))"

section \<open>The invariant of the store\<close>

definition wire_ids_ok :: "(string \<times> int) list \<Rightarrow> (int \<times> string) list \<Rightarrow> bool" where
  "wire_ids_ok ids owners = (distinct (map fst ids) \<and> distinct (map fst owners) \<and>
     (\<forall>k c. map_of ids k = Some c \<longleftrightarrow> map_of owners c = Some k) \<and>
     (\<forall>(k, c) \<in> set ids. 1 \<le> c \<and> c \<le> MAX_CARBON_WIRE_PLAYER_ID))"

text \<open>
  The session half: a token is never both live and displaced, the markers are bounded and
  a token counts as shown to Theater only while it has a marker.
\<close>

definition sessions_ok :: "(string \<times> identity) list \<Rightarrow> (string \<times> (identity \<times> string)) list \<Rightarrow> string fset \<Rightarrow> bool" where
  "sessions_ok live forced ready = (distinct (map fst live) \<and> distinct (map fst forced) \<and>
     length forced \<le> MAX_FORCED_LOGOFF_MARKERS \<and> fst ` set live \<inter> fst ` set forced = {} \<and>
     [] \<notin> fst ` set live \<and> fset ready \<subseteq> fst ` set forced)"

definition store_ok :: "identity_store \<Rightarrow> bool" where
  "store_ok s = (distinct (map fst (is_identities s)) \<and>
     sessions_ok (is_sessions s) (is_forced_logoffs s) (is_theater_ready s) \<and>
     wire_ids_ok (is_wire_ids s) (is_wire_id_owners s))"

lemma keys_update: "fst ` set (AList.update k v d) = insert k (fst ` set d)"
  by (simp add: dom_update flip: dom_map_of_conv_image_fst) (simp add: dom_map_of_conv_image_fst AList.dom_update)

lemma keys_delete: "fst ` set (AList.delete k d) = fst ` set d - {k}"
  by (auto simp: AList.delete_keys[symmetric] AList.delete_eq)

lemma trim_forced_spec:
  "trim_forced l ready = (l', ready') \<Longrightarrow> distinct (map fst l) \<Longrightarrow> fset ready \<subseteq> fst ` set l \<Longrightarrow>
   length l' = min (length l) MAX_FORCED_LOGOFF_MARKERS \<and> (\<exists>old. l = old @ l') \<and> distinct (map fst l') \<and> fset ready' \<subseteq> fst ` set l'"
proof (induction l ready rule: trim_forced.induct)
  case (2 token v rest ready)
  show ?case
  proof (cases "MAX_FORCED_LOGOFF_MARKERS < length ((token, v) # rest)")
    case True
    with 2 have "length l' = min (length rest) MAX_FORCED_LOGOFF_MARKERS \<and> (\<exists>old. rest = old @ l') \<and> distinct (map fst l') \<and> fset ready' \<subseteq> fst ` set l'"
      by (intro "2.IH"[OF True]) auto
    moreover have "min (length rest) MAX_FORCED_LOGOFF_MARKERS = min (length ((token, v) # rest)) MAX_FORCED_LOGOFF_MARKERS"
      using True by simp
    ultimately show ?thesis by (metis append_Cons)
  next
    case False
    with 2 show ?thesis by (auto simp del: length_Cons)
  qed
qed auto

lemma trim_keys: "trim_forced l ready = (l', ready') \<Longrightarrow> distinct (map fst l) \<Longrightarrow> fset ready \<subseteq> fst ` set l \<Longrightarrow> set l' \<subseteq> set l"
  using trim_forced_spec[of l ready l' ready'] by auto

lemma first_token_in: "first_token P items \<noteq> [] \<Longrightarrow> \<exists>i. (first_token P items, i) \<in> set items \<and> P i"
proof (induction items)
  case (Cons x items)
  have "first_token P (x # items) = (if P (snd x) then fst x else first_token P items)"
    by (auto simp: first_token_def split: prod.splits)
  with Cons show ?case by (cases "P (snd x)") (auto intro: exI[of _ "snd x"])
qed (simp add: first_token_def)

lemma login_identity_rest:
  "login_identity digest a p s = (i, s') \<Longrightarrow>
   \<exists>ids. s' = s\<lparr>is_identities := ids\<rparr> \<and> (store_ok s \<longrightarrow> distinct (map fst ids))"
  by (auto simp: login_identity_def Let_def store_ok_def distinct_update split: option.splits if_splits)
    (metis identity_store.surjective identity_store.update_convs(1))+

lemma displace_ok:
  assumes "sessions_ok (is_sessions s) (is_forced_logoffs s) (is_theater_ready s)" "token \<noteq> []"
    and "displace_session account token reason i s = (r, s')"
  shows "sessions_ok (is_sessions s') (is_forced_logoffs s') (is_theater_ready s') \<and>
    is_identities s' = is_identities s \<and> is_wire_ids s' = is_wire_ids s \<and> is_wire_id_owners s' = is_wire_id_owners s"
proof -
  define prev where "prev = first_token (\<lambda>j. casefold (id_account_name j) = casefold account) (is_sessions s)"
  show ?thesis
  proof (cases "prev = [] \<or> token \<in> fst ` set (is_sessions s) \<or> token \<in> fst ` set (is_forced_logoffs s)")
    case True
    with assms show ?thesis by (auto simp: displace_session_def prev_def[symmetric] Let_def split: if_splits)
  next
    case False
    then have live: "prev \<in> fst ` set (is_sessions s)" using first_token_in prev_def by force
    define forced where "forced = AList.update prev (the (map_of (is_sessions s) prev), reason) (is_forced_logoffs s)"
    obtain forced' ready' where tr: "trim_forced forced (is_theater_ready s |-| {|prev|}) = (forced', ready')"
      by (cases "trim_forced forced (is_theater_ready s |-| {|prev|})")
    have s': "s' = s\<lparr>is_sessions := AList.update token i (AList.delete prev (is_sessions s)),
        is_forced_logoffs := forced', is_theater_ready := ready'\<rparr>"
      using assms(3) False tr by (auto simp: displace_session_def prev_def[symmetric] Let_def forced_def)
    have d: "distinct (map fst forced)" "fset (is_theater_ready s |-| {|prev|}) \<subseteq> fst ` set forced"
      using assms(1) by (auto simp: forced_def sessions_ok_def distinct_update keys_update)
    note t = trim_forced_spec[OF tr d]
    have "fst ` set forced' \<subseteq> insert prev (fst ` set (is_forced_logoffs s))"
      using trim_keys[OF tr d] keys_update[of prev _ "is_forced_logoffs s"] unfolding forced_def by (metis image_mono)
    then have apart: "fst ` set (AList.update token i (AList.delete prev (is_sessions s))) \<inter> fst ` set forced' = {}"
      using assms(1) False live unfolding keys_update keys_delete sessions_ok_def by blast
    have "distinct (map fst (AList.update token i (AList.delete prev (is_sessions s))))"
      using assms(1) by (simp add: sessions_ok_def distinct_update distinct_delete)
    moreover have "[] \<notin> fst ` set (AList.update token i (AList.delete prev (is_sessions s)))"
      using assms(1,2) unfolding keys_update keys_delete sessions_ok_def by auto
    ultimately show ?thesis using t apart by (auto simp: s' sessions_ok_def)
  qed
qed

lemma login_ok: "store_ok s \<Longrightarrow> store_ok (snd (login digest token a p reason s))"
proof -
  assume ok: "store_ok s"
  obtain i s1 where l: "login_identity digest a p s = (i, s1)" by (cases "login_identity digest a p s")
  with login_identity_rest[OF l] ok have ok1: "store_ok s1" by (auto simp: store_ok_def)
  obtain r s2 where d: "displace_session (or_text (strip (or_text a ''Player'')) ''Player'') token (upper (strip reason)) i s1 = (r, s2)"
    by (cases "displace_session (or_text (strip (or_text a ''Player'')) ''Player'') token (upper (strip reason)) i s1")
  have "token \<noteq> [] \<Longrightarrow> store_ok s2"
    using displace_ok[OF _ _ d] ok1 by (simp add: store_ok_def)
  moreover have "token \<noteq> [] \<Longrightarrow> store_ok (s1\<lparr>is_forced_logoffs := AList.delete token (is_forced_logoffs s1),
               is_theater_ready := is_theater_ready s1 |-| {|token|}, is_sessions := AList.update token i (is_sessions s1)\<rparr>)"
    using ok1 length_delete_le[of token "is_forced_logoffs s1"]
    by (auto simp: store_ok_def sessions_ok_def distinct_update distinct_delete keys_update keys_delete)
  ultimately show ?thesis using ok1 by (simp add: login_def l d Let_def)
qed

section \<open>Wire player ids\<close>

lemma wire_ids_size:
  assumes "wire_ids_ok ids owners"
  shows "fst ` set owners = snd ` set ids"
proof -
  have "ran (map_of ids) = snd ` set ids" by (rule ran_distinct) (use assms in \<open>simp add: wire_ids_ok_def\<close>)
  moreover have "dom (map_of owners) = ran (map_of ids)" using assms by (auto simp: wire_ids_ok_def dom_def ran_def)
  ultimately show ?thesis by (simp add: dom_map_of_conv_image_fst)
qed

lemma candidate_range: "1 \<le> 1 + int n mod MAX_CARBON_WIRE_PLAYER_ID \<and> 1 + int n mod MAX_CARBON_WIRE_PLAYER_ID \<le> MAX_CARBON_WIRE_PLAYER_ID"
  using pos_mod_bound[of MAX_CARBON_WIRE_PLAYER_ID "int n"] pos_mod_sign[of MAX_CARBON_WIRE_PLAYER_ID "int n"]
  by (simp add: MAX_CARBON_WIRE_PLAYER_ID_def)

text \<open>An id is either remembered, or new: in range, nobody's, and recorded on both sides.\<close>

lemma wire_player_id_cases:
  assumes "wire_player_id digest p s = Some (n, s')" and "store_ok s"
  defines "key \<equiv> or_text (casefold (strip p)) ''player''"
  shows "(map_of (is_wire_ids s) key = Some n \<and> s' = s) \<or>
    (map_of (is_wire_ids s) key = None \<and> map_of (is_wire_id_owners s) n = None \<and> 1 \<le> n \<and> n \<le> MAX_CARBON_WIRE_PLAYER_ID \<and>
     s' = s\<lparr>is_wire_ids := AList.update key n (is_wire_ids s), is_wire_id_owners := AList.update n key (is_wire_id_owners s)\<rparr>)"
proof (cases "map_of (is_wire_ids s) key")
  case (Some e)
  with assms show ?thesis by (simp add: wire_player_id_def Let_def)
next
  case None
  let ?c = "1 + int (be_nat (slice 4 6 (digest (utf8_encode key)))) mod MAX_CARBON_WIRE_PLAYER_ID"
  let ?taken = "\<lambda>c. map_of (is_wire_id_owners s) c \<noteq> None \<and> map_of (is_wire_id_owners s) c \<noteq> Some key"
  have n: "next_free MAX_CARBON_WIRE_PLAYER_ID ?taken ?c = Some n"
    and s': "s' = s\<lparr>is_wire_ids := AList.update key n (is_wire_ids s), is_wire_id_owners := AList.update n key (is_wire_id_owners s)\<rparr>"
    using assms(1) None by (auto simp: wire_player_id_def Let_def key_def[symmetric])
  from next_free_result[OF n] candidate_range have r: "\<not> ?taken n" "1 \<le> n" "n \<le> MAX_CARBON_WIRE_PLAYER_ID" by blast+
  moreover have "map_of (is_wire_id_owners s) n \<noteq> Some key"
    using assms(2) None by (auto simp: store_ok_def wire_ids_ok_def)
  ultimately show ?thesis using None s' by blast
qed

lemma wire_player_id_ok: "wire_player_id digest p s = Some (n, s') \<Longrightarrow> store_ok s \<Longrightarrow> store_ok s'"
proof -
  assume w: "wire_player_id digest p s = Some (n, s')" and ok: "store_ok s"
  from wire_player_id_cases[OF w ok] show ?thesis
  proof (elim disjE conjE)
    assume new: "map_of (is_wire_ids s) (or_text (casefold (strip p)) ''player'') = None" "map_of (is_wire_id_owners s) n = None"
      "1 \<le> n" "n \<le> MAX_CARBON_WIRE_PLAYER_ID"
      "s' = s\<lparr>is_wire_ids := AList.update (or_text (casefold (strip p)) ''player'') n (is_wire_ids s),
              is_wire_id_owners := AList.update n (or_text (casefold (strip p)) ''player'') (is_wire_id_owners s)\<rparr>"
    have "wire_ids_ok (is_wire_ids s') (is_wire_id_owners s')"
      using ok new set_update_subset[of "or_text (casefold (strip p)) ''player''" n "is_wire_ids s"]
      by (auto simp: store_ok_def wire_ids_ok_def distinct_update AList.update_conv')
    with ok new(5) show ?thesis by (simp add: store_ok_def)
  qed (simp add: ok)
qed

text \<open>The loop ends as long as fewer names than ids were seen.\<close>

lemma wire_player_id_total:
  assumes "store_ok s" "int (length (is_wire_ids s)) < MAX_CARBON_WIRE_PLAYER_ID"
  shows "\<exists>r. wire_player_id digest p s = Some r"
proof -
  let ?owned = "fst ` set (is_wire_id_owners s)"
  have "card ?owned \<le> length (is_wire_ids s)"
    using wire_ids_size[of "is_wire_ids s" "is_wire_id_owners s"] assms(1)
      card_image_le[of "set (is_wire_ids s)" snd] card_length[of "is_wire_ids s"] by (simp add: store_ok_def)
  then have small: "int (card ?owned) < MAX_CARBON_WIRE_PLAYER_ID" using assms(2) by linarith
  have "\<exists>r. next_free MAX_CARBON_WIRE_PLAYER_ID (\<lambda>c. map_of (is_wire_id_owners s) c \<noteq> None \<and> map_of (is_wire_id_owners s) c \<noteq> Some key) (1 + int n mod MAX_CARBON_WIRE_PLAYER_ID) = Some r" for key n
  proof -
    have "\<exists>r. next_free MAX_CARBON_WIRE_PLAYER_ID (\<lambda>c. map_of (is_wire_id_owners s) c \<noteq> None \<and> map_of (is_wire_id_owners s) c \<noteq> Some key) (1 + int n mod MAX_CARBON_WIRE_PLAYER_ID) = Some r
        \<and> \<not> (map_of (is_wire_id_owners s) r \<noteq> None \<and> map_of (is_wire_id_owners s) r \<noteq> Some key) \<and> 1 \<le> r \<and> r \<le> MAX_CARBON_WIRE_PLAYER_ID"
      by (rule next_free_total[OF _ small conjunct1[OF candidate_range] conjunct2[OF candidate_range]]) (simp, rule ccontr, simp add: map_of_eq_None_iff[symmetric])
    then show ?thesis by (elim exE conjE) (rule exI)
  qed
  from this[of "or_text (casefold (strip p)) ''player''" "be_nat (slice 4 6 (digest (utf8_encode (or_text (casefold (strip p)) ''player''))))"]
  obtain r where r: "next_free MAX_CARBON_WIRE_PLAYER_ID (\<lambda>c. map_of (is_wire_id_owners s) c \<noteq> None \<and>
      map_of (is_wire_id_owners s) c \<noteq> Some (or_text (casefold (strip p)) ''player''))
      (1 + int (be_nat (slice 4 6 (digest (utf8_encode (or_text (casefold (strip p)) ''player''))))) mod MAX_CARBON_WIRE_PLAYER_ID) = Some r"
    by blast
  show ?thesis
    by (cases "map_of (is_wire_ids s) (or_text (casefold (strip p)) ''player'')")
      (simp_all only: wire_player_id_def Let_def r option.case option.map, blast+)
qed

section \<open>Runs\<close>

datatype identity_call =
    Login string string "string option" string
  | Wire_Player_Id string
  | Mark_Theater_Ready string
  | Revoke_Session string

fun store_call :: "(bytes \<Rightarrow> bytes) \<Rightarrow> identity_call \<Rightarrow> identity_store \<Rightarrow> identity_store option" where
  "store_call digest (Login token account persona reason) s = Some (snd (login digest token account persona reason s))"
| "store_call digest (Wire_Player_Id persona) s = map_option snd (wire_player_id digest persona s)"
| "store_call digest (Mark_Theater_Ready token) s = Some (snd (mark_forced_logoff_theater_ready token s))"
| "store_call digest (Revoke_Session token) s = Some (snd (revoke_session token s))"

fun store_run :: "(bytes \<Rightarrow> bytes) \<Rightarrow> identity_call list \<Rightarrow> identity_store \<Rightarrow> identity_store option" where
  "store_run digest [] s = Some s"
| "store_run digest (c # cs) s = (case store_call digest c s of None \<Rightarrow> None | Some s' \<Rightarrow> store_run digest cs s')"

lemma mark_ready_ok: "store_ok s \<Longrightarrow> store_ok (snd (mark_forced_logoff_theater_ready token s))"
proof (cases "map_of (is_forced_logoffs s) token")
  case (Some v)
  then have "token \<in> fst ` set (is_forced_logoffs s)" by (force dest: map_of_SomeD)
  with Some show "store_ok s \<Longrightarrow> ?thesis"
    by (simp add: mark_forced_logoff_theater_ready_def store_ok_def sessions_ok_def)
qed (simp add: mark_forced_logoff_theater_ready_def)

lemma revoke_session_ok: "store_ok s \<Longrightarrow> store_ok (snd (revoke_session token s))"
  using keys_delete[of token "is_sessions s"]
  by (simp add: revoke_session_def store_ok_def sessions_ok_def distinct_delete) blast

lemma store_call_ok: "store_call digest c s = Some s' \<Longrightarrow> store_ok s \<Longrightarrow> store_ok s'"
proof (cases c)
  case (Mark_Theater_Ready token)
  then show "store_call digest c s = Some s' \<Longrightarrow> store_ok s \<Longrightarrow> ?thesis" using mark_ready_ok[of s token] by auto
next
  case (Revoke_Session token)
  then show "store_call digest c s = Some s' \<Longrightarrow> store_ok s \<Longrightarrow> ?thesis" using revoke_session_ok[of s token] by auto
qed (auto simp: login_ok intro: wire_player_id_ok)

lemma store_run_ok: "store_run digest cs s = Some s' \<Longrightarrow> store_ok s \<Longrightarrow> store_ok s'"
  by (induction cs arbitrary: s) (auto split: option.splits dest: store_call_ok)

lemma new_identity_store_ok: "store_ok new_identity_store"
  by (simp add: store_ok_def new_identity_store_def sessions_ok_def wire_ids_ok_def)

text \<open>
  C24. Whatever logins, displacements, revocations and id requests a store has served: a session
  token is never both live and displaced, at most 256 displaced tokens are remembered, a
  token counts as shown to Theater only while it is remembered, and wire ids and their
  owners are two sides of one table with values from 1 to 0x7FFF.
\<close>

theorem identity_store_invariant:
  "store_run digest cs new_identity_store = Some s \<Longrightarrow> store_ok s"
  by (rule store_run_ok[OF _ new_identity_store_ok])

definition plain_digest :: "bytes \<Rightarrow> bytes" where
  "plain_digest bs = replicate 16 0"

definition two_logins :: "identity_call list" where
  "two_logins = [Login ''t1'' ''Ann'' None '''', Login ''t2'' ''ann'' None ''dupl'', Mark_Theater_Ready ''t1'']"

theorem identity_store_invariant_witness:
  "\<exists>s. store_run plain_digest two_logins new_identity_store = Some s \<and> store_ok s"
proof -
  obtain s where "store_run plain_digest two_logins new_identity_store = Some s" by (simp add: two_logins_def)
  with identity_store_invariant[OF this] show ?thesis by blast
qed

lemma login_wire_ids: "is_wire_ids (snd (login digest token a p reason s)) = is_wire_ids s"
proof -
  obtain i s1 where l: "login_identity digest a p s = (i, s1)" by (cases "login_identity digest a p s")
  from login_identity_rest[OF l] have "is_wire_ids s1 = is_wire_ids s" by auto
  then show ?thesis by (auto simp: login_def l Let_def displace_session_def split: prod.splits)
qed

lemma store_call_keeps_ids:
  assumes "store_call digest c s = Some s'" "store_ok s" "map_of (is_wire_ids s) k = Some n"
  shows "map_of (is_wire_ids s') k = Some n"
proof (cases c)
  case (Wire_Player_Id q)
  with assms(1) obtain m where w: "wire_player_id digest q s = Some (m, s')" by auto
  from wire_player_id_cases[OF w assms(2)] assms(3) show ?thesis by (auto simp: AList.update_conv')
qed (use assms in \<open>auto simp: login_wire_ids mark_forced_logoff_theater_ready_def revoke_session_def split: if_splits\<close>)

lemma store_run_keeps_ids:
  "store_run digest cs s = Some s' \<Longrightarrow> store_ok s \<Longrightarrow> map_of (is_wire_ids s) k = Some n \<Longrightarrow> map_of (is_wire_ids s') k = Some n"
  by (induction cs arbitrary: s) (auto split: option.splits dest: store_call_keeps_ids store_call_ok)

lemma wire_player_id_recorded:
  "wire_player_id digest p s = Some (n, s') \<Longrightarrow> store_ok s \<Longrightarrow>
   map_of (is_wire_ids s') (or_text (casefold (strip p)) ''player'') = Some n"
  using wire_player_id_cases[of digest p s n s'] by (auto simp: AList.update_conv')

lemma wire_ids_injective:
  "store_ok s \<Longrightarrow> map_of (is_wire_ids s) k = Some n \<Longrightarrow> map_of (is_wire_ids s) l = Some n \<Longrightarrow> k = l"
  unfolding store_ok_def wire_ids_ok_def by (metis option.inject)

lemma wire_ids_range: "store_ok s \<Longrightarrow> map_of (is_wire_ids s) k = Some n \<Longrightarrow> 1 \<le> n \<and> n \<le> MAX_CARBON_WIRE_PLAYER_ID"
  by (auto simp: store_ok_def wire_ids_ok_def dest!: map_of_SomeD)

text \<open>
  A wire player id is stable and unique: once a persona got an id, every later request for
  it is answered with the same positive 15-bit id, whatever happened in between, and no
  persona with another key is ever answered with that id.
\<close>

theorem wire_player_ids_stable:
  assumes "store_ok s" and "wire_player_id digest p s = Some (n, s')" and "store_run digest cs s' = Some t"
    and "wire_player_id digest q t = Some (m, t')"
  shows "1 \<le> n \<and> n \<le> MAX_CARBON_WIRE_PLAYER_ID \<and> wire_player_id digest p t = Some (n, t) \<and>
    (m = n \<longleftrightarrow> or_text (casefold (strip q)) ''player'' = or_text (casefold (strip p)) ''player'')"
proof -
  have ok': "store_ok s'" by (rule wire_player_id_ok[OF assms(2,1)])
  have okt: "store_ok t" by (rule store_run_ok[OF assms(3) ok'])
  have okt': "store_ok t'" by (rule wire_player_id_ok[OF assms(4) okt])
  have n: "map_of (is_wire_ids t) (or_text (casefold (strip p)) ''player'') = Some n"
    by (rule store_run_keeps_ids[OF assms(3) ok' wire_player_id_recorded[OF assms(2,1)]])
  then have n': "map_of (is_wire_ids t') (or_text (casefold (strip p)) ''player'') = Some n"
    using wire_player_id_cases[OF assms(4) okt] by (auto simp: AList.update_conv')
  have m: "map_of (is_wire_ids t') (or_text (casefold (strip q)) ''player'') = Some m"
    by (rule wire_player_id_recorded[OF assms(4) okt])
  have "m = n \<longleftrightarrow> or_text (casefold (strip q)) ''player'' = or_text (casefold (strip p)) ''player''"
    using wire_ids_injective[OF okt'] n' m by auto
  moreover have "wire_player_id digest p t = Some (n, t)" using n by (simp add: wire_player_id_def Let_def)
  ultimately show ?thesis using wire_ids_range[OF okt n] by blast
qed

lemma wire_player_id_length:
  "wire_player_id digest p s = Some (n, s') \<Longrightarrow> store_ok s \<Longrightarrow> length (is_wire_ids s') \<le> Suc (length (is_wire_ids s))"
  using wire_player_id_cases[of digest p s n s'] by (auto simp: length_update)

theorem wire_player_ids_stable_witness:
  "\<exists>n m s t t'. wire_player_id plain_digest ''Ann'' new_identity_store = Some (n, s) \<and>
    store_run plain_digest two_logins s = Some t \<and> wire_player_id plain_digest ''Bob'' t = Some (m, t') \<and>
    wire_player_id plain_digest ''Ann'' t = Some (n, t) \<and> n \<noteq> m"
proof -
  have "int (length (is_wire_ids new_identity_store)) < MAX_CARBON_WIRE_PLAYER_ID"
    by (simp add: new_identity_store_def MAX_CARBON_WIRE_PLAYER_ID_def)
  then obtain n s where n: "wire_player_id plain_digest ''Ann'' new_identity_store = Some (n, s)"
    using wire_player_id_total[OF new_identity_store_ok] by fast
  note ok = wire_player_id_ok[OF n new_identity_store_ok]
  have len: "length (is_wire_ids s) \<le> 1" using wire_player_id_length[OF n new_identity_store_ok] by (simp add: new_identity_store_def)
  obtain t where t: "store_run plain_digest two_logins s = Some t" and same: "is_wire_ids t = is_wire_ids s"
    by (simp add: two_logins_def login_wire_ids mark_forced_logoff_theater_ready_def)
  have "int (length (is_wire_ids t)) < MAX_CARBON_WIRE_PLAYER_ID" using len same by (simp add: MAX_CARBON_WIRE_PLAYER_ID_def)
  then obtain m t' where m: "wire_player_id plain_digest ''Bob'' t = Some (m, t')"
    using wire_player_id_total[OF store_run_ok[OF t ok]] by fast
  have "or_text (casefold (strip ''Bob'')) ''player'' \<noteq> or_text (casefold (strip ''Ann'')) ''player''" by code_simp
  with wire_player_ids_stable[OF new_identity_store_ok n t m] n t m show ?thesis by blast
qed

text \<open>
  A request for an id always returns as long as fewer personas than ids are known, and the
  answer leaves the store well formed.
\<close>

theorem wire_player_id_returns:
  assumes "store_ok s" "int (length (is_wire_ids s)) < MAX_CARBON_WIRE_PLAYER_ID"
  shows "\<exists>n s'. wire_player_id digest p s = Some (n, s') \<and> store_ok s' \<and> length (is_wire_ids s') \<le> Suc (length (is_wire_ids s))"
proof -
  obtain n s' where w: "wire_player_id digest p s = Some (n, s')" using wire_player_id_total[OF assms] by fast
  with wire_player_id_length[OF w assms(1)] wire_player_id_ok[OF w assms(1)] show ?thesis by blast
qed

theorem wire_player_id_returns_witness:
  "\<exists>n s'. wire_player_id plain_digest ''Ann'' new_identity_store = Some (n, s') \<and> store_ok s' \<and> length (is_wire_ids s') \<le> 1"
proof -
  have "int (length (is_wire_ids new_identity_store)) < MAX_CARBON_WIRE_PLAYER_ID"
    by (simp add: new_identity_store_def MAX_CARBON_WIRE_PLAYER_ID_def)
  from wire_player_id_returns[OF new_identity_store_ok this, of plain_digest "''Ann''"] show ?thesis
    by (simp add: new_identity_store_def)
qed

text \<open>
  A duplicate login hands the account over: the session that was live is displaced and
  remembered with its reason, and the new token is the account's live session.
\<close>

theorem duplicate_login_displaces:
  assumes "store_ok s" and "upper (strip reason) \<noteq> []" and "login digest token account persona reason s = (Inr (i, tok), s')"
  shows "\<exists>previous j. previous \<noteq> token \<and> resolve_session previous s = Some j \<and>
      casefold (id_account_name j) = casefold (or_text (strip (or_text account ''Player'')) ''Player'') \<and>
      resolve_session previous s' = None \<and> resolve_forced_logoff previous s' = Some (j, upper (strip reason)) \<and>
      tok = token \<and> resolve_session token s' = Some i"
proof -
  define acc where "acc = or_text (strip (or_text account ''Player'')) ''Player''"
  obtain i1 s1 where l: "login_identity digest account persona s = (i1, s1)" by (cases "login_identity digest account persona s")
  then obtain ids where s1: "s1 = s\<lparr>is_identities := ids\<rparr>" using login_identity_rest[OF l] by blast
  define prev where "prev = first_token (\<lambda>j. casefold (id_account_name j) = casefold acc) (is_sessions s)"
  have d: "displace_session acc token (upper (strip reason)) i1 s1 = (Inr (i, tok), s')" and tok: "token \<noteq> []"
    using assms(2,3) by (auto simp: login_def l acc_def Let_def split: if_splits)
  define forced where "forced = AList.update prev (the (map_of (is_sessions s) prev), upper (strip reason)) (is_forced_logoffs s)"
  obtain forced' ready' where tr: "trim_forced forced (is_theater_ready s |-| {|prev|}) = (forced', ready')" by fastforce
  have prev: "prev \<noteq> []" "token \<notin> fst ` set (is_sessions s)" "i = i1" "tok = token"
    and s': "s' = s1\<lparr>is_sessions := AList.update token i1 (AList.delete prev (is_sessions s)),
        is_forced_logoffs := forced', is_theater_ready := ready'\<rparr>"
    using d tr by (auto simp: displace_session_def s1 prev_def[symmetric] forced_def Let_def split: if_splits)
  obtain j where j: "(prev, j) \<in> set (is_sessions s)" "casefold (id_account_name j) = casefold acc"
    using first_token_in[of _ "is_sessions s"] prev(1) unfolding prev_def by blast
  have jm: "map_of (is_sessions s) prev = Some j" using assms(1) j(1) by (simp add: store_ok_def sessions_ok_def)
  have pt: "prev \<noteq> token" using prev(2) j(1) by force
  have dist: "distinct (map fst forced)" "fset (is_theater_ready s |-| {|prev|}) \<subseteq> fst ` set forced"
    using assms(1) by (auto simp: forced_def store_ok_def sessions_ok_def distinct_update keys_update)
  have "prev \<in> fst ` set (is_sessions s)" by (rule image_eqI[OF _ j(1)]) simp
  then have "prev \<notin> fst ` set (is_forced_logoffs s)" using assms(1) unfolding store_ok_def sessions_ok_def by blast
  then have snoc: "forced = is_forced_logoffs s @ [(prev, j, upper (strip reason))]"
    unfolding forced_def jm option.sel by (rule update_snoc)
  note spec = trim_forced_spec[OF tr dist]
  have "0 < length forced'" using spec snoc by (simp add: MAX_FORCED_LOGOFF_MARKERS_def)
  then have ne: "forced' \<noteq> []" by simp
  obtain old where "forced = old @ forced'" using spec by blast
  then have "last forced' = last forced" using ne by simp
  with ne have "(prev, j, upper (strip reason)) \<in> set forced'" using snoc by (metis last_in_set last_snoc)
  then have "map_of forced' prev = Some (j, upper (strip reason))" using spec by simp
  then show ?thesis
    using pt prev j jm s' unfolding resolve_session_def resolve_forced_logoff_def acc_def[symmetric]
    by (intro exI[of _ prev] exI[of _ j]) (simp add: AList.update_conv' AList.delete_conv')
qed

definition ann_store :: identity_store where
  "ann_store = snd (login plain_digest ''t1'' ''Ann'' None '''' new_identity_store)"

theorem duplicate_login_displaces_witness:
  "\<exists>previous j i s'. login plain_digest ''t2'' ''ann'' None ''dupl'' ann_store = (Inr (i, ''t2''), s') \<and>
    resolve_session previous ann_store = Some j \<and> resolve_session previous s' = None \<and> resolve_session ''t2'' s' = Some i"
proof -
  have "is_ok (fst (login plain_digest ''t2'' ''ann'' None ''dupl'' ann_store))" by code_simp
  then obtain i tok s' where l: "login plain_digest ''t2'' ''ann'' None ''dupl'' ann_store = (Inr (i, tok), s')"
    by (cases "login plain_digest ''t2'' ''ann'' None ''dupl'' ann_store") (auto simp: is_ok_iff)
  have "store_ok ann_store" unfolding ann_store_def by (rule login_ok[OF new_identity_store_ok])
  moreover have "upper (strip ''dupl'') \<noteq> []" by code_simp
  ultimately show ?thesis using duplicate_login_displaces[OF _ _ l] l by blast
qed

end
