(* ===== verification/CarbonGame.thy ===== *)
theory CarbonGame
  imports Matchmaking SessionDirectory IdentityStore
begin

text \<open>
  A Carbon room as the Theater directory keeps it, from \<open>carbon/theater/directory.py\<close>: the
  records \<open>CarbonParticipant\<close> and \<open>CarbonGame\<close>, the published \<open>GDAT\<close> row, the invite
  snapshot and the fit view of a room.

  A room refers to its neutral session by the session's id; Python holds the object that
  the session directory also holds, and \<open>session_capacity\<close> reads it there.
\<close>

record carbon_participant =
  cp_identity :: identity
  cp_player_id :: int
  cp_internal_ip :: string
  cp_internal_port :: int
  cp_invite_remote_player_id :: int
  cp_entered_at :: rat
  cp_external_ip :: string

record carbon_game =
  cg_gid :: string
  cg_ugid :: string
  cg_lobby_id :: string
  cg_session :: int
  cg_host :: identity
  cg_properties :: fields
  cg_participants :: "(int \<times> carbon_participant) list"
  cg_completed_invite_entries :: "int fset"
  cg_server_hosted :: bool
  cg_allocator_user_id :: "int option"
  cg_coop_match_help_type :: "string option"
  cg_quick_join_locked :: bool
  cg_challenge_ready :: bool
  cg_created_tick_ms :: int
  cg_descriptor_handle_base :: int
  cg_descriptor_slot_capacity :: int
  cg_created_at :: rat

definition session_capacity :: "session_directory \<Rightarrow> carbon_game \<Rightarrow> int" where
  "session_capacity sd g = (case get_game sd (cg_session g) of None \<Rightarrow> 0 | Some s \<Rightarrow> gs_capacity s)"

definition positive_int :: "string \<Rightarrow> int \<Rightarrow> int \<Rightarrow> int \<Rightarrow> int" where
  "positive_int value dflt minimum maximum = (case py_int (strip value) of
      None \<Rightarrow> dflt
    | Some parsed \<Rightarrow> if minimum \<le> parsed \<and> parsed \<le> maximum then parsed else dflt)"

definition RANKED_KEYS :: "string list" where
  "RANKED_KEYS = [''B-U-ranked'', ''B-ranked'', ''ranked'', ''RANKED'', ''QROptionsRankedMode'']"

fun ranked_by_keys :: "fields \<Rightarrow> string list \<Rightarrow> bool" where
  "ranked_by_keys ps [] = (strip (get_or ps ''B-U-game_type'' '''') = ''0'')"
| "ranked_by_keys ps (key # keys) = (case map_of ps key of
      None \<Rightarrow> ranked_by_keys ps keys
    | Some v \<Rightarrow>
        let value = casefold (strip v) in
        if value \<in> {''1'', ''true'', ''yes'', ''on'', ''ranked'', ''r''} then True
        else if value \<in> {''0'', ''false'', ''no'', ''off'', ''unranked'', ''u''} then False
        else ranked_by_keys ps keys)"

definition ranked_from_properties :: "fields \<Rightarrow> bool" where
  "ranked_from_properties ps = ranked_by_keys ps RANKED_KEYS"

definition is_ranked :: "carbon_game \<Rightarrow> bool" where
  "is_ranked g = ranked_from_properties (cg_properties g)"

definition dict_update :: "('k \<times> 'v) list \<Rightarrow> ('k \<times> 'v) list \<Rightarrow> ('k \<times> 'v) list" where
  "dict_update d new = fold (\<lambda>(k, v). AList.update k v) new d"

definition ROW_HEADER_KEYS :: "string list" where
  "ROW_HEADER_KEYS = [''N'', ''TYPE'', ''I'', ''P'', ''PW'', ''V'', ''B-version'', ''PL'', ''J'']"

definition game_row :: "session_directory \<Rightarrow> carbon_game \<Rightarrow> fields" where
  "game_row sd g =
    (let ps = cg_properties g;
         player_count = int (length (cg_participants g));
         host_user_id = (if cg_server_hosted g then ''1'' else show_int (id_profile_id (cg_host g)));
         join_players = (if cg_server_hosted g then ''0'' else show_int (max 0 (session_capacity sd g - player_count)));
         quick_players = (if cg_server_hosted g then ''0'' else show_int player_count);
         row = [(''LID'', cg_lobby_id g), (''GID'', cg_gid g), (''N'', get_or ps ''N'' ''''),
           (''TYPE'', get_or ps ''TYPE'' ''G''), (''MP'', show_int (session_capacity sd g)),
           (''I'', get_or ps ''I'' ''''), (''P'', get_or ps ''P'' ''''), (''PW'', get_or ps ''PW'' ''0''),
           (''AP'', show_int player_count), (''JP'', join_players), (''QP'', quick_players),
           (''HN'', id_persona (cg_host g)), (''HU'', host_user_id), (''V'', get_or ps ''V'' ''1.0''),
           (''B-version'', get_or ps ''B-version'' ''''), (''PL'', get_or ps ''PL'' ''PC''), (''J'', get_or ps ''J'' ''O'')]
     in dict_update row (filter (\<lambda>(k, v). k \<notin> set ROW_HEADER_KEYS) ps))"

definition property_value :: "fields \<Rightarrow> string \<Rightarrow> string \<Rightarrow> string" where
  "property_value row name dflt = or_text (strip (get_or row (''B-U-'' @ name) '''')) dflt"

text \<open>The event of a room that is not a Challenge: the selected one, or the first that is set.\<close>

definition is_event :: "string \<Rightarrow> bool" where
  "is_event v = (upper v \<notin> {[], ''ABSTAIN''})"

fun first_event :: "fields \<Rightarrow> string list \<Rightarrow> (string \<times> string) option" where
  "first_event row [] = None"
| "first_event row (race # races) =
     (if is_event (property_value row race '''') then Some (race, property_value row race '''') else first_event row races)"

definition invite_event :: "fields \<Rightarrow> string \<Rightarrow> string \<Rightarrow> (string \<times> string) option" where
  "invite_event row game_type game_mode =
    (if game_type = ''2'' then selected_challenge_event row ''B-U-''
     else let race = (case selected_race_property row ''B-U-'' of
                 Some r \<Rightarrow> Some r | None \<Rightarrow> map_of GAME_MODE_RACE_PROPERTY game_mode);
              selected = (case race of Some r \<Rightarrow> property_value row r '''' | None \<Rightarrow> '''')
          in if is_event selected then map_option (\<lambda>r. (r, selected)) race
             else first_event row (map snd GAME_MODE_RACE_PROPERTY))"

definition invite_fields :: "session_directory \<Rightarrow> carbon_game \<Rightarrow> fields" where
  "invite_fields sd g =
    (let row = game_row sd g;
         game_type = property_value row ''game_type'' ''1'';
         game_mode = property_value row ''game_mode'' ''1'';
         event = invite_event row game_type game_mode;
         game_mode = (case event of None \<Rightarrow> game_mode | Some (race, _) \<Rightarrow> get_or RACE_PROPERTY_GAME_MODE race game_mode);
         track = property_value row ''track'' '''';
         track = (if track = [] \<or> upper track = ''ABSTAIN''
                  then or_text (case event of None \<Rightarrow> [] | Some (_, e) \<Rightarrow> e) ''ABSTAIN'' else track);
         race_fields = map (\<lambda>name. (name, ''ABSTAIN'')) RACE_PREFERENCES;
         race_fields = (case event of None \<Rightarrow> race_fields | Some (race, e) \<Rightarrow> AList.update race e race_fields);
         result = dict_update
          [(''version'', property_value row ''version'' (get_or row ''B-version'' ''298_prod_server+22012b18'')),
           (''matchmaking_state'', property_value row ''matchmaking_state'' ''0''),
           (''game_type'', game_type), (''help_type'', property_value row ''help_type'' ''0''), (''game_mode'', game_mode),
           (''skill'', property_value row ''skill'' ''''), (''team_play'', property_value row ''team_play'' ''1''),
           (''car_tier'', property_value row ''car_tier'' ''1''),
           (''max_online_player'', property_value row ''max_online_player'' (show_int (session_capacity sd g))),
           (''length'', property_value row ''length'' ''1''), (''track'', track), (''n2o'', property_value row ''n2o'' ''1''),
           (''collision_detection'', property_value row ''collision_detection'' ''1''),
           (''player_dnf'', property_value row ''player_dnf'' ''''), (''location'', property_value row ''location'' ''WH-EU'')]
          (race_fields @ [(''AP'', show_int (int (length (cg_participants g)))), (''MP'', show_int (session_capacity sd g))])
     in if game_type = ''2''
        then dict_update result (filter (\<lambda>(name, v). name \<notin> {''game_mode'', ''max_online_player''}) CHALLENGE_ROOM_IDENTITY)
        else result)"

definition match_properties :: "carbon_game \<Rightarrow> fields" where
  "match_properties g = (case cg_coop_match_help_type g of
      None \<Rightarrow> cg_properties g
    | Some help \<Rightarrow> if help = [] then cg_properties g else AList.update ''B-U-help_type'' help (cg_properties g))"

section \<open>The invite names one event\<close>

lemma map_of_dict_update: "map_of (dict_update d new) k = (case map_of (rev new) k of None \<Rightarrow> map_of d k | Some v \<Rightarrow> Some v)"
  by (simp add: dict_update_def identity_lookup)

definition race_slots :: "(string \<times> string) option \<Rightarrow> fields" where
  "race_slots event = (case event of None \<Rightarrow> map (\<lambda>name. (name, ''ABSTAIN'')) RACE_PREFERENCES
     | Some (race, e) \<Rightarrow> AList.update race e (map (\<lambda>name. (name, ''ABSTAIN'')) RACE_PREFERENCES))"

lemma map_of_const: "map_of (map (\<lambda>n. (n, c)) ns) k = (if k \<in> set ns then Some c else None)"
  by (induction ns) auto

lemma race_slots_lookup:
  "r \<in> set RACE_PREFERENCES \<Longrightarrow> map_of (race_slots event) r =
     Some (case event of None \<Rightarrow> ''ABSTAIN'' | Some (race, e) \<Rightarrow> if r = race then e else ''ABSTAIN'')"
  by (auto simp: race_slots_def map_of_const AList.update_conv' split: option.splits)

lemma race_slots_keys:
  "(case event of None \<Rightarrow> True | Some (race, e) \<Rightarrow> race \<in> set RACE_PREFERENCES) \<Longrightarrow> fst ` set (race_slots event) = set RACE_PREFERENCES"
  by (auto simp: race_slots_def keys_update image_image split: option.splits)

lemma race_slots_distinct: "distinct (map fst (race_slots event))"
  by (auto simp: race_slots_def distinct_update comp_def RACE_PREFERENCES_def split: option.splits)

lemma map_of_rev_distinct: "distinct (map fst l) \<Longrightarrow> map_of (rev l) = map_of l"
  by (intro map_of_eqI) (auto simp: rev_map[symmetric])

lemma first_event_in: "first_event row races = Some (race, e) \<Longrightarrow> race \<in> set races \<and> is_event e"
  by (induction races) (auto split: if_splits)

lemma race_property_known: "map_of GAME_MODE_RACE_PROPERTY m = Some r \<Longrightarrow> r \<in> set RACE_PREFERENCES"
  by (auto simp: GAME_MODE_RACE_PROPERTY_def RACE_PREFERENCES_def split: if_splits)

lemma race_properties_known: "set (map snd GAME_MODE_RACE_PROPERTY) = set RACE_PREFERENCES"
  by (auto simp: GAME_MODE_RACE_PROPERTY_def RACE_PREFERENCES_def)

lemma selected_race_property_known: "selected_race_property ps prefix = Some r \<Longrightarrow> r \<in> set RACE_PREFERENCES"
proof -
  define selected where "selected = [race \<leftarrow> map snd GAME_MODE_RACE_PROPERTY.
     upper (strip (get_or ps (prefix @ race) [])) \<notin> {[], ''ABSTAIN''}]"
  assume "selected_race_property ps prefix = Some r"
  then have "r \<in> set selected \<or> (length selected = 1 \<and> r = hd selected)"
    unfolding selected_race_property_def Let_def selected_def[symmetric] by (auto split: option.splits if_splits)
  then have "r \<in> set selected" by (cases selected) auto
  then have "r \<in> set (map snd GAME_MODE_RACE_PROPERTY)" unfolding selected_def by simp
  with race_properties_known show ?thesis by simp
qed

text \<open>An invite's event belongs to a race slot and is a real event.\<close>

lemma invite_event_known:
  "invite_event row gt gm = Some (race, e) \<Longrightarrow> race \<in> set RACE_PREFERENCES \<and> e \<noteq> ''ABSTAIN''"
proof (cases "gt = ''2''")
  case True
  assume "invite_event row gt gm = Some (race, e)"
  then have "selected_challenge_event row ''B-U-'' = Some (race, e)" using True by (simp add: invite_event_def)
  from selected_challenge_race[OF this] have "race \<in> set RACE_PREFERENCES" "starts_with ''cs.'' (casefold e)" by auto
  moreover have "\<not> starts_with ''cs.'' (casefold ''ABSTAIN'')" by code_simp
  ultimately show ?thesis by auto
next
  case False
  assume ev: "invite_event row gt gm = Some (race, e)"
  have "is_event e \<Longrightarrow> e \<noteq> ''ABSTAIN''"
  proof
    assume "is_event e" "e = ''ABSTAIN''"
    moreover have "\<not> is_event ''ABSTAIN''" by code_simp
    ultimately show False by simp
  qed
  moreover have "race \<in> set RACE_PREFERENCES \<and> is_event e"
  proof (cases "first_event row (map snd GAME_MODE_RACE_PROPERTY) = Some (race, e)")
    case True
    with first_event_in race_properties_known show ?thesis by blast
  next
    case no: False
    with ev False show ?thesis
      by (auto simp: invite_event_def Let_def split: option.splits if_splits
          dest: selected_race_property_known race_property_known)
  qed
  ultimately show ?thesis by blast
qed

lemma identity_has_no_race:
  "\<forall>r \<in> set RACE_PREFERENCES. map_of (rev (filter (\<lambda>(name, v). name \<notin> {''game_mode'', ''max_online_player''}) CHALLENGE_ROOM_IDENTITY)) r = None"
  by code_simp

lemma identity_has_no_mode:
  "map_of (rev (filter (\<lambda>(name, v). name \<notin> {''game_mode'', ''max_online_player''}) CHALLENGE_ROOM_IDENTITY)) ''game_mode'' = None"
  by code_simp

lemma population_not_race: "\<forall>r \<in> set RACE_PREFERENCES. r \<noteq> ''AP'' \<and> r \<noteq> ''MP'' \<and> r \<noteq> ''game_mode''"
  by code_simp

text \<open>The shape of the snapshot: a base block, the race slots, the population, and the Challenge identity.\<close>

lemma invite_shape:
  fixes sd :: session_directory and g :: carbon_game
  defines "row \<equiv> game_row sd g"
  defines "gt \<equiv> property_value row ''game_type'' ''1''"
  defines "gm \<equiv> property_value row ''game_mode'' ''1''"
  defines "ev \<equiv> invite_event row gt gm"
  shows "\<exists>base pop. invite_fields sd g = (let result = dict_update base (race_slots ev @ pop) in
      if gt = ''2'' then dict_update result (filter (\<lambda>(name, v). name \<notin> {''game_mode'', ''max_online_player''}) CHALLENGE_ROOM_IDENTITY)
      else result) \<and>
    map fst pop = [''AP'', ''MP''] \<and>
    map_of base ''game_mode'' = Some (case ev of None \<Rightarrow> gm | Some (race, _) \<Rightarrow> get_or RACE_PROPERTY_GAME_MODE race gm)"
  unfolding invite_fields_def Let_def race_slots_def row_def[symmetric] gt_def[symmetric] gm_def[symmetric] ev_def[symmetric]
  by (intro exI conjI, rule refl) simp_all

text \<open>
  An invite presents one event at most: at most one of the six race slots differs from
  ABSTAIN, and the published game mode is then that slot's native mode, whatever stale
  mode or further events the room's properties hold.
\<close>

theorem invite_presents_one_event:
  "{r \<in> set RACE_PREFERENCES. map_of (invite_fields sd g) r \<noteq> Some ''ABSTAIN''} = {} \<or>
   (\<exists>race. {r \<in> set RACE_PREFERENCES. map_of (invite_fields sd g) r \<noteq> Some ''ABSTAIN''} = {race} \<and>
      map_of (invite_fields sd g) ''game_mode'' = map_of RACE_PROPERTY_GAME_MODE race)"
proof -
  define row where "row = game_row sd g"
  define gt where "gt = property_value row ''game_type'' ''1''"
  define gm where "gm = property_value row ''game_mode'' ''1''"
  define ev where "ev = invite_event row gt gm"
  have known: "case ev of None \<Rightarrow> True | Some (race, e) \<Rightarrow> race \<in> set RACE_PREFERENCES"
    using invite_event_known[of row gt gm] by (auto simp: ev_def split: option.splits)
  obtain base pop where shape: "invite_fields sd g = (let result = dict_update base (race_slots ev @ pop) in
      if gt = ''2'' then dict_update result (filter (\<lambda>(name, v). name \<notin> {''game_mode'', ''max_online_player''}) CHALLENGE_ROOM_IDENTITY)
      else result)"
    and pop: "map fst pop = [''AP'', ''MP'']"
    and base: "map_of base ''game_mode'' = Some (case ev of None \<Rightarrow> gm | Some (race, _) \<Rightarrow> get_or RACE_PROPERTY_GAME_MODE race gm)"
    using invite_shape[of sd g] unfolding row_def[symmetric] gt_def[symmetric] gm_def[symmetric] ev_def[symmetric]
    by (elim exE conjE) (rule that)
  have pop_keys: "k \<notin> {''AP'', ''MP''} \<Longrightarrow> map_of (rev pop) k = None" for k
    using pop by (auto simp: map_of_eq_None_iff simp flip: set_map)
  have slot: "map_of (invite_fields sd g) r = map_of (race_slots ev) r" if r: "r \<in> set RACE_PREFERENCES" for r
    using bspec[OF identity_has_no_race r] bspec[OF population_not_race r] pop_keys[of r] race_slots_lookup[OF r, of ev]
    by (simp add: shape Let_def map_of_dict_update map_of_rev_distinct[OF race_slots_distinct] map_add_def)
  have "''game_mode'' \<notin> fst ` set (race_slots ev)" using race_slots_keys[OF known] population_not_race by blast
  then have "map_of (rev (race_slots ev)) ''game_mode'' = None" by (simp add: map_of_eq_None_iff)
  then have mode: "map_of (invite_fields sd g) ''game_mode'' =
      Some (case ev of None \<Rightarrow> gm | Some (race, _) \<Rightarrow> get_or RACE_PROPERTY_GAME_MODE race gm)"
    using identity_has_no_mode pop_keys[of "''game_mode''"] base
    by (simp add: shape Let_def map_of_dict_update map_add_def)
  show ?thesis
  proof (cases ev)
    case None
    then show ?thesis by (auto simp: slot race_slots_lookup)
  next
    case (Some v)
    obtain race e where v: "v = (race, e)" by (cases v)
    with Some have e: "race \<in> set RACE_PREFERENCES" "e \<noteq> ''ABSTAIN''" using invite_event_known[of row gt gm] by (auto simp: ev_def)
    then have "{r \<in> set RACE_PREFERENCES. map_of (invite_fields sd g) r \<noteq> Some ''ABSTAIN''} = {race}"
      by (auto simp: slot race_slots_lookup Some v split: if_splits)
    moreover have "\<forall>r \<in> set RACE_PREFERENCES. map_of RACE_PROPERTY_GAME_MODE r \<noteq> None" by code_simp
    then have "map_of (invite_fields sd g) ''game_mode'' = map_of RACE_PROPERTY_GAME_MODE race"
      using e(1) by (auto simp: mode Some v get_or_def)
    ultimately show ?thesis by blast
  qed
qed

end
