(* ===== verification/GameDirectory.thy ===== *)
theory GameDirectory
  imports CarbonGame
begin

text \<open>
  The authoritative Carbon game directory, \<open>CarbonGameDirectory\<close> of
  \<open>carbon/theater/directory.py\<close>: allocation of room ids, ticks, descriptor handles and
  player ids, creating, entering, leaving and retiring rooms, the gates that hide a room
  from Quick Join, and the resolution of PlayNow requests.

  What Python takes from outside is an environment: the clock, a fresh UUID, the player-id
  resolver of the constructor and the choice of a set element.  A loop that could run for
  ever gives an option; an exception is the left side of a sum, beside the state it leaves
  behind.
\<close>

record environment =
  env_pick :: "string fset \<Rightarrow> string"
  env_player_id_resolver :: "(identity \<Rightarrow> int) option"
  env_uuid :: string
  env_clock_ms :: int
  env_clock :: rat

record game_directory =
  gd_race_endpoint :: "string \<times> int"
  gd_local_race_endpoint :: "(string \<times> int) option"
  gd_ekey :: string
  gd_server_huid :: int
  gd_quick_join_before_ready :: bool
  gd_quick_join_after_ready :: bool
  gd_sessions :: session_directory
  gd_games :: "(string \<times> carbon_game) list"
  gd_next_gid :: int
  gd_next_descriptor_handle :: int

definition new_game_directory ::
  "string \<times> int \<Rightarrow> (string \<times> int) option \<Rightarrow> string \<Rightarrow> int \<Rightarrow> bool \<Rightarrow> bool \<Rightarrow> game_directory" where
  "new_game_directory race_endpoint local_endpoint ekey server_huid before after =
     \<lparr>gd_race_endpoint = race_endpoint, gd_local_race_endpoint = local_endpoint, gd_ekey = ekey,
      gd_server_huid = server_huid, gd_quick_join_before_ready = before, gd_quick_join_after_ready = after,
      gd_sessions = new_directory, gd_games = [], gd_next_gid = 235278, gd_next_descriptor_handle = 100\<rparr>"

definition race_endpoint_for ::
  "(string \<Rightarrow> int \<Rightarrow> (string \<times> int) option) \<Rightarrow> string \<Rightarrow> string \<Rightarrow> game_directory \<Rightarrow> string \<times> int" where
  "race_endpoint_for local_route internal_ip external_ip d =
    (case gd_local_race_endpoint d of
        None \<Rightarrow> gd_race_endpoint d
      | Some local \<Rightarrow>
          if strip internal_ip = fst local then local
          else if strip external_ip = strip internal_ip \<or> strip external_ip = fst (gd_race_endpoint d)
          then (case local_route (strip internal_ip) (snd local) of Some routed \<Rightarrow> routed | None \<Rightarrow> gd_race_endpoint d)
          else gd_race_endpoint d)"

section \<open>Allocation\<close>

definition used_ticks :: "game_directory \<Rightarrow> int set" where
  "used_ticks d = {int (umask 32 (cg_created_tick_ms g)) | g. g \<in> snd ` set (gd_games d) \<and> cg_created_tick_ms g \<noteq> 0}"

lemma used_ticks_code [code]:
  "used_ticks d = set (map (\<lambda>(k, g). int (umask 32 (cg_created_tick_ms g))) (filter (\<lambda>(k, g). cg_created_tick_ms g \<noteq> 0) (gd_games d)))"
  unfolding used_ticks_def by force

definition allocate_room_tick_ms :: "int \<Rightarrow> game_directory \<Rightarrow> int option" where
  "allocate_room_tick_ms clock_ms d =
    (let candidate = int (umask 32 clock_ms);
         candidate = (if candidate = 0 then 1 else candidate);
         used = used_ticks d
     in next_free 0xFFFFFFFF (\<lambda>c. c \<in> used \<or> c = 0) candidate)"

definition active_ranges :: "game_directory \<Rightarrow> (int \<times> int) list" where
  "active_ranges d = map (\<lambda>(k, g). (cg_descriptor_handle_base g, cg_descriptor_handle_base g +
       (max 2 (max (session_capacity (gd_sessions d) g) (cg_descriptor_slot_capacity g)) - 1) * 10))
     (filter (\<lambda>(k, g). 0 < cg_descriptor_handle_base g) (gd_games d))"

definition wrap_base :: "int \<Rightarrow> int \<Rightarrow> int" where
  "wrap_base slots base = (if 0xFFFFFFFF < base + (slots - 1) * 10 then 100 else base)"

definition overlaps :: "(int \<times> int) list \<Rightarrow> int \<Rightarrow> int \<Rightarrow> bool" where
  "overlaps ranges slots base = (\<exists>(first, final) \<in> set ranges. \<not> (base + (slots - 1) * 10 < first \<or> final < base))"

definition allocate_descriptor_handle_base :: "int \<Rightarrow> game_directory \<Rightarrow> (int \<times> game_directory) option" where
  "allocate_descriptor_handle_base capacity d =
    (let slots = max 2 (min 64 capacity)
     in map_option (\<lambda>base. (base, d\<lparr>gd_next_descriptor_handle := base + slots * 10\<rparr>))
          (while_option (overlaps (active_ranges d) slots) (\<lambda>base. wrap_base slots (base + 10))
             (wrap_base slots (max 10 (gd_next_descriptor_handle d)))))"

datatype game_error = Resolution resolve_error | Session_Refused directory_error | Player_Id_Out_Of_Range

definition player_id :: "environment \<Rightarrow> identity \<Rightarrow> int set \<Rightarrow> (game_error + int) option" where
  "player_id env i used_ids = (case env_player_id_resolver env of
      None \<Rightarrow> map_option Inr (next_free MAX_CARBON_WIRE_PLAYER_ID (\<lambda>c. c \<in> used_ids) 1)
    | Some resolver \<Rightarrow>
        if \<not> (0 < resolver i \<and> resolver i \<le> MAX_CARBON_WIRE_PLAYER_ID) then Some (Inl Player_Id_Out_Of_Range)
        else map_option Inr (next_free MAX_CARBON_WIRE_PLAYER_ID (\<lambda>c. c \<in> used_ids) (resolver i)))"

section \<open>Creating a room\<close>

definition hosted_properties :: "fields \<Rightarrow> int \<Rightarrow> fields" where
  "hosted_properties vals max_players =
    (let version = get_or vals ''B-U-version'' (get_or vals ''B-version'' ''298_prod_server+22012b18'');
         raw_type = get_or vals ''B-U-game_type'' ''1'';
         game_type = (if raw_type \<in> {''0'', ''1'', ''2''} then raw_type else ''1'')
     in [(''B-version'', version), (''B-U-version'', version), (''B-U-max_online_player'', show_int max_players),
         (''B-U-matchmaking_state'', get_or vals ''B-U-matchmaking_state'' ''0''), (''B-U-game_type'', game_type),
         (''B-U-game_mode'', get_or vals ''B-U-game_mode'' ''1''), (''B-U-skill'', get_or vals ''B-U-skill'' ''0'')])"

definition creation_properties ::
  "(string fset \<Rightarrow> string) \<Rightarrow> fields \<Rightarrow> bool \<Rightarrow> play_now_request \<Rightarrow> game_error + fields \<times> int" where
  "creation_properties pick vals server_hosted request =
    (if server_hosted
     then (case resolved_dedicated_properties pick vals request of
             Inl e \<Rightarrow> Inl (Resolution e)
           | Inr dedicated \<Rightarrow> Inr (dedicated, positive_int (get_or dedicated ''B-U-max_online_player'' ''8'') 8 2 8))
     else let max_players = positive_int (get_or vals ''MAX-PLAYERS'' (get_or vals ''B-U-max_online_player'' ''8'')) 8 2 8
          in Inr (hosted_properties vals max_players, max_players))"

definition room_properties :: "game_directory \<Rightarrow> string \<Rightarrow> fields \<Rightarrow> fields \<Rightarrow> bool \<Rightarrow> fields" where
  "room_properties d gid vals dedicated server_hosted =
    (let (host, port) = gd_race_endpoint d;
         ps = dict_update
           [(''N'', get_or vals ''N'' (if server_hosted then ''NFSC_WH_63'' else ''LOCALCarbon-'' @ gid)),
            (''J'', or_text (get_or vals ''J'' (get_or vals ''JOIN'' ''O'')) ''O''),
            (''PW'', get_or vals ''PW'' ''0''), (''PL'', ''PC''), (''V'', ''1.0''), (''TYPE'', ''G''),
            (''I'', host), (''P'', show_int port), (''INT-IP'', host), (''INT-PORT'', show_int port)] dedicated;
         ps = (if server_hosted then AList.delete ''INT-PORT'' (AList.delete ''INT-IP'' ps) else ps);
         ps = dict_update ps (filter (\<lambda>(k, v). starts_with ''B-'' k \<and> CHR ''|'' \<notin> set v) vals);
         ps = dict_update ps dedicated;
         ps = dict_update ps [(k, get_or vals k ''''). k \<leftarrow> RANKED_KEYS, map_of vals k \<noteq> None]
     in if server_hosted \<and> get_or ps ''B-U-game_type'' '''' = ''2''
        then let ps = dict_update ps CHALLENGE_ROOM_IDENTITY_PROPERTIES
             in (case selected_challenge_event ps ''B-U-'' of
                   None \<Rightarrow> ps
                 | Some (race, event) \<Rightarrow> AList.update ''B-U-game_mode'' (the (map_of RACE_PROPERTY_GAME_MODE race)) ps)
        else ps)"

definition store_game :: "carbon_game \<Rightarrow> game_directory \<Rightarrow> game_directory" where
  "store_game g d = d\<lparr>gd_games := AList.update (cg_gid g) g (gd_games d)\<rparr>"

definition new_participant :: "environment \<Rightarrow> identity \<Rightarrow> int \<Rightarrow> carbon_participant" where
  "new_participant env i pid = \<lparr>cp_identity = i, cp_player_id = pid, cp_internal_ip = ''0.0.0.0'', cp_internal_port = 0,
     cp_invite_remote_player_id = 0, cp_entered_at = env_clock env, cp_external_ip = ''''\<rparr>"

definition build_room ::
  "environment \<Rightarrow> identity \<Rightarrow> identity \<Rightarrow> bool \<Rightarrow> play_now_request \<Rightarrow> fields \<Rightarrow> int \<Rightarrow> int \<Rightarrow> string \<Rightarrow>
   (int \<times> carbon_participant) list \<Rightarrow> game_directory \<Rightarrow> (carbon_game \<times> game_directory) option" where
  "build_room env i host server_hosted request ps session max_players gid participants d =
    (let challenge = (server_hosted \<and> get_or ps ''B-U-game_type'' '''' = ''2'');
         slots = (if challenge then 8 else max_players)
     in Option.bind (allocate_room_tick_ms (env_clock_ms env) d) (\<lambda>tick.
        map_option (\<lambda>(base, d).
          let g = \<lparr>cg_gid = gid, cg_ugid = env_uuid env, cg_lobby_id = ''257'', cg_session = session, cg_host = host,
                cg_properties = ps, cg_participants = participants, cg_completed_invite_entries = {||},
                cg_server_hosted = server_hosted,
                cg_allocator_user_id = (if server_hosted then Some (id_user_id i) else None),
                cg_coop_match_help_type = (if challenge \<and> pn_requested_help_type request \<in> {''1'', ''2'', ''3''}
                  then Some (pn_requested_help_type request) else None),
                cg_quick_join_locked = (challenge \<and> \<not> gd_quick_join_before_ready d), cg_challenge_ready = False,
                cg_created_tick_ms = tick, cg_descriptor_handle_base = base, cg_descriptor_slot_capacity = slots,
                cg_created_at = env_clock env\<rparr>
          in (g, store_game g d)) (allocate_descriptor_handle_base slots d)))"

definition room_host :: "identity \<Rightarrow> bool \<Rightarrow> game_directory \<Rightarrow> identity" where
  "room_host i server_hosted d = (if server_hosted
     then \<lparr>id_account_name = ''nfsdevserver'', id_persona = ''nfsdevserver'',
           id_profile_id = gd_server_huid d, id_user_id = gd_server_huid d\<rparr>
     else i)"

definition create ::
  "environment \<Rightarrow> identity \<Rightarrow> fields \<Rightarrow> bool \<Rightarrow> play_now_request option \<Rightarrow> game_directory \<Rightarrow>
   ((game_error + carbon_game) \<times> game_directory) option" where
  "create env i vals server_hosted play_now_request d =
    (let request = (case play_now_request of Some r \<Rightarrow> r | None \<Rightarrow> parse_request vals)
     in case creation_properties (env_pick env) vals server_hosted request of
          Inl e \<Rightarrow> Some (Inl e, d)
        | Inr (dedicated, max_players) \<Rightarrow>
            let d = d\<lparr>gd_next_gid := gd_next_gid d + 1\<rparr>;
                gid = show_int (gd_next_gid d);
                host = room_host i server_hosted d
            in case create_game (gd_sessions d) 257 (id_user_id host) max_players 2 PUBLIC [] (\<not> server_hosted) of
                 Inl e \<Rightarrow> Some (Inl (Session_Refused e), d)
               | Inr (sessions, session) \<Rightarrow>
                   let d = d\<lparr>gd_sessions := sessions\<rparr>;
                       ps = room_properties d gid vals dedicated server_hosted;
                       build = (\<lambda>participants. map_option (\<lambda>(g, d). (Inr g, d))
                         (build_room env i host server_hosted request ps (gs_id session) max_players gid participants d))
                   in if server_hosted then build []
                      else (case player_id env i {} of
                              None \<Rightarrow> None
                            | Some (Inl e) \<Rightarrow> Some (Inl e, d)
                            | Some (Inr pid) \<Rightarrow> build [(id_user_id i, new_participant env i pid)]))"

section \<open>Gates and capacity\<close>

definition set_authoritative_capacity :: "string \<Rightarrow> int \<Rightarrow> game_directory \<Rightarrow> int option \<times> game_directory" where
  "set_authoritative_capacity gid requested d = (case map_of (gd_games d) gid of
      None \<Rightarrow> (None, d)
    | Some g \<Rightarrow>
        let applied = min 8 (max 2 (max (int (length (cg_participants g))) requested));
            (sessions, resized) = resize_game (gd_sessions d) (cg_session g) applied
        in if \<not> resized then (None, d\<lparr>gd_sessions := sessions\<rparr>)
           else (Some applied, store_game (g\<lparr>cg_properties := AList.update ''B-U-max_online_player'' (show_int applied) (cg_properties g)\<rparr>)
                   (d\<lparr>gd_sessions := sessions\<rparr>)))"

definition list_rooms :: "string \<Rightarrow> game_directory \<Rightarrow> carbon_game list" where
  "list_rooms lobby d = [g \<leftarrow> map snd (gd_games d). cg_lobby_id g = lobby]"

definition get_room :: "string \<Rightarrow> game_directory \<Rightarrow> carbon_game option" where
  "get_room gid d = map_of (gd_games d) gid"

definition leave_all :: "int \<Rightarrow> (int \<times> carbon_participant) list \<Rightarrow> session_directory \<Rightarrow> session_directory" where
  "leave_all session participants sd =
     fold (\<lambda>(user, p) sd. fst (leave_game sd session (id_user_id (cp_identity p)))) participants sd"

definition retire :: "string \<Rightarrow> game_directory \<Rightarrow> bool \<times> game_directory" where
  "retire gid d = (case map_of (gd_games d) gid of
      None \<Rightarrow> (False, d)
    | Some g \<Rightarrow> (True, d\<lparr>
        gd_sessions := fst (close_game (leave_all (cg_session g) (cg_participants g) (gd_sessions d)) (cg_session g)),
        gd_games := AList.delete gid (gd_games d)\<rparr>))"

definition set_quick_join_locked :: "string \<Rightarrow> bool \<Rightarrow> game_directory \<Rightarrow> bool \<times> game_directory" where
  "set_quick_join_locked gid locked d = (case map_of (gd_games d) gid of
      None \<Rightarrow> (False, d)
    | Some g \<Rightarrow> (cg_quick_join_locked g \<noteq> locked, store_game (g\<lparr>cg_quick_join_locked := locked\<rparr>) d))"

definition set_challenge_ready :: "string \<Rightarrow> bool \<Rightarrow> game_directory \<Rightarrow> bool \<times> game_directory" where
  "set_challenge_ready gid ready d = (case map_of (gd_games d) gid of
      None \<Rightarrow> (False, d)
    | Some g \<Rightarrow>
        if get_or (cg_properties g) ''B-U-game_type'' '''' \<noteq> ''2'' then (False, d)
        else let locked = (\<not> (if ready then gd_quick_join_after_ready d else gd_quick_join_before_ready d))
             in (cg_challenge_ready g \<noteq> ready \<or> cg_quick_join_locked g \<noteq> locked,
                 store_game (g\<lparr>cg_challenge_ready := ready, cg_quick_join_locked := locked\<rparr>) d))"

definition find_for_persona :: "string \<Rightarrow> game_directory \<Rightarrow> carbon_game option" where
  "find_for_persona persona d =
    (let wanted = casefold (strip persona)
     in if wanted = [] then None
        else find (\<lambda>g. \<exists>(user, p) \<in> set (cg_participants g). casefold (id_persona (cp_identity p)) = wanted)
               (rev (map snd (gd_games d))))"

definition invite_fields_for_persona :: "string \<Rightarrow> game_directory \<Rightarrow> fields" where
  "invite_fields_for_persona persona d = (case find_for_persona persona d of
      None \<Rightarrow> [] | Some g \<Rightarrow> invite_fields (gd_sessions d) g)"

record messenger_entry =
  me_persona :: string
  me_session_id :: string
  me_inviteable :: bool
  me_invite_join_complete :: bool
  me_details :: fields

definition room_entries :: "game_directory \<Rightarrow> carbon_game \<Rightarrow> (string \<times> messenger_entry) list" where
  "room_entries d g = map (\<lambda>(user, p). (casefold (id_persona (cp_identity p)),
      \<lparr>me_persona = id_persona (cp_identity p), me_session_id = cg_gid g, me_inviteable = True,
       me_invite_join_complete = (id_user_id (cp_identity p) |\<in>| cg_completed_invite_entries g),
       me_details = invite_fields (gd_sessions d) g\<rparr>)) (cg_participants g)"

definition messenger_snapshot :: "game_directory \<Rightarrow> (string \<times> messenger_entry) list" where
  "messenger_snapshot d = dict_update [] (concat (map (\<lambda>(gid, g). room_entries d g) (gd_games d)))"

definition mark_invite_entry_complete :: "string \<Rightarrow> int \<Rightarrow> game_directory \<Rightarrow> bool \<times> game_directory" where
  "mark_invite_entry_complete gid user d = (case map_of (gd_games d) gid of
      None \<Rightarrow> (False, d)
    | Some g \<Rightarrow> (case map_of (cg_participants g) user of
          None \<Rightarrow> (False, d)
        | Some p \<Rightarrow>
            let entries = finsert (id_user_id (cp_identity p)) (cg_completed_invite_entries g)
            in (fcard entries \<noteq> fcard (cg_completed_invite_entries g),
                store_game (g\<lparr>cg_completed_invite_entries := entries\<rparr>) d)))"

section \<open>PlayNow\<close>

record play_now_resolution =
  pr_game :: carbon_game
  pr_avg_fit :: pyfloat
  pr_created :: bool

text \<open>The checks of a search, in the order of the code; the fit of an accepted room.\<close>

definition search_fit :: "identity \<Rightarrow> fields \<Rightarrow> play_now_request \<Rightarrow> game_directory \<Rightarrow> carbon_game \<Rightarrow> pyfloat option" where
  "search_fit i fs request d g =
    (let ps = match_properties g in
     if \<not> cg_server_hosted g then None
     else if cg_quick_join_locked g then None
     else if session_capacity (gd_sessions d) g \<le> int (length (cg_participants g)) then None
     else if map_of (cg_participants g) (id_user_id i) \<noteq> None then None
     else if cg_allocator_user_id g = Some (id_user_id i) then None
     else if is_coop_state_bridge request ps \<and> cg_participants g = [] then None
     else if \<not> strict_match request ps then None
     else (case match_fit fs ps True of
         None \<Rightarrow> None
       | Some fit \<Rightarrow> if fl_less fit (pn_fit_threshold request) then None else Some fit))"

definition search_candidates :: "identity \<Rightarrow> fields \<Rightarrow> play_now_request \<Rightarrow> game_directory \<Rightarrow> (pyfloat \<times> carbon_game) list" where
  "search_candidates i fs request d =
     concat (map (\<lambda>(k, g). case search_fit i fs request d g of None \<Rightarrow> [] | Some fit \<Rightarrow> [(fit, g)]) (gd_games d))"

definition gid_number :: "carbon_game \<Rightarrow> int" where
  "gid_number g = (case py_int (cg_gid g) of Some n \<Rightarrow> n | None \<Rightarrow> 0)"

text \<open>\<open>max\<close> with the key (fit, -gid): a later candidate wins only if its key is greater.\<close>

definition better :: "pyfloat \<times> carbon_game \<Rightarrow> pyfloat \<times> carbon_game \<Rightarrow> bool" where
  "better a b = (if fst a \<noteq> NaN \<and> fst a = fst b then gid_number (snd a) < gid_number (snd b)
     else fl_less (fst b) (fst a))"

definition best_candidate :: "(pyfloat \<times> carbon_game) list \<Rightarrow> (pyfloat \<times> carbon_game) option" where
  "best_candidate cs = (case cs of [] \<Rightarrow> None
     | c # rest \<Rightarrow> Some (foldl (\<lambda>best c. if better c best then c else best) c rest))"

definition waits_for_helper :: "identity \<Rightarrow> play_now_request \<Rightarrow> game_directory \<Rightarrow> carbon_game \<Rightarrow> bool" where
  "waits_for_helper i request d g =
    (cg_server_hosted g \<and> \<not> cg_quick_join_locked g \<and>
     map_of (cg_properties g) ''B-U-game_type'' = Some ''2'' \<and>
     map_of (cg_properties g) ''B-U-matchmaking_state'' = Some ''0'' \<and>
     cg_coop_match_help_type g \<in> {Some ''1'', Some ''2'', Some ''3''} \<and>
     (pn_version request = [] \<or> map_of (cg_properties g) ''B-U-version'' = Some (pn_version request)) \<and>
     cg_allocator_user_id g \<noteq> Some (id_user_id i) \<and> map_of (cg_participants g) (id_user_id i) = None \<and>
     length (cg_participants g) = 1 \<and> int (length (cg_participants g)) < session_capacity (gd_sessions d) g)"

definition oldest :: "carbon_game list \<Rightarrow> carbon_game option" where
  "oldest gs = (case gs of [] \<Rightarrow> None
     | g # rest \<Rightarrow> Some (foldl (\<lambda>best g. if gid_number g < gid_number best then g else best) g rest))"

definition fit_or_one :: "fields \<Rightarrow> fields \<Rightarrow> pyfloat" where
  "fit_or_one fs ps = (case match_fit fs ps False of None \<Rightarrow> Fin 1 | Some fit \<Rightarrow> fit)"

definition resolve_play_now ::
  "environment \<Rightarrow> identity \<Rightarrow> fields \<Rightarrow> game_directory \<Rightarrow>
   ((game_error + play_now_resolution option) \<times> game_directory) option" where
  "resolve_play_now env i fs d =
    (let request = parse_request fs;
         created = (\<lambda>fit r. case r of
             (Inl e, d) \<Rightarrow> (Inl e, d)
           | (Inr g, d) \<Rightarrow> (Inr (Some \<lparr>pr_game = g, pr_avg_fit = fit g, pr_created = True\<rparr>), d))
     in if is_find request
        then Some (Inr (map_option (\<lambda>(fit, g). \<lparr>pr_game = g, pr_avg_fit = fit, pr_created = False\<rparr>)
                     (best_candidate (search_candidates i fs request d))), d)
        else if creates_dedicated request then
          (case (if is_direct_coop_helper_reset fs request
                 then oldest [g \<leftarrow> map snd (gd_games d). waits_for_helper i request d g] else None) of
             Some g \<Rightarrow> Some (Inr (Some \<lparr>pr_game = g, pr_avg_fit = fit_or_one fs (match_properties g), pr_created = False\<rparr>), d)
           | None \<Rightarrow>
               if pn_concrete_game_type request \<notin> {Some ''0'', Some ''1'', Some ''2''} then Some (Inr None, d)
               else map_option (created (\<lambda>g. fit_or_one fs (cg_properties g))) (create env i fs True (Some request) d))
        else if pn_session_type request = ''create''
        then map_option (created (\<lambda>g. Fin 1)) (create env i fs False None d)
        else Some (Inr None, d))"

definition match_or_create ::
  "environment \<Rightarrow> identity \<Rightarrow> fields \<Rightarrow> game_directory \<Rightarrow> ((game_error + carbon_game option) \<times> game_directory) option" where
  "match_or_create env i fs d = map_option (\<lambda>(r, d). (case r of Inl e \<Rightarrow> Inl e | Inr res \<Rightarrow> Inr (map_option pr_game res), d))
     (resolve_play_now env i fs d)"

section \<open>Entering and leaving\<close>

text \<open>The body of the loop over the other rooms of the player.\<close>

definition leave_one :: "int \<Rightarrow> carbon_game \<Rightarrow> carbon_participant \<Rightarrow> game_directory \<Rightarrow> game_directory" where
  "leave_one user g stale d =
    (let g' = g\<lparr>cg_participants := AList.delete user (cg_participants g)\<rparr>;
         d = d\<lparr>gd_sessions := fst (leave_game (gd_sessions d) (cg_session g) (id_user_id (cp_identity stale)))\<rparr>
     in if cg_participants g' = [] then d\<lparr>gd_games := AList.delete (cg_gid g) (gd_games d)\<rparr> else store_game g' d)"

definition leave_step :: "string \<Rightarrow> int \<Rightarrow> carbon_game \<Rightarrow> game_directory \<Rightarrow> game_directory" where
  "leave_step gid user g d = (if cg_gid g = gid then d else (case map_of (cg_participants g) user of
      None \<Rightarrow> d | Some stale \<Rightarrow> leave_one user g stale d))"

definition leave_previous :: "string \<Rightarrow> int \<Rightarrow> game_directory \<Rightarrow> game_directory" where
  "leave_previous gid user d = fold (\<lambda>(k, g). leave_step gid user g) (gd_games d) d"

definition enter ::
  "environment \<Rightarrow> string \<Rightarrow> identity \<Rightarrow> string \<Rightarrow> int \<Rightarrow> string \<Rightarrow> int \<Rightarrow> bool \<Rightarrow> game_directory \<Rightarrow>
   ((game_error + carbon_participant option) \<times> game_directory) option" where
  "enter env gid i internal_ip internal_port external_ip invite_remote invite_entry d =
    (case map_of (gd_games d) gid of
        None \<Rightarrow> Some (Inr None, d)
      | Some g \<Rightarrow>
          let user = id_user_id i;
              d = leave_previous (cg_gid g) user d
          in case map_of (cg_participants g) user of
               Some existing \<Rightarrow>
                 let refreshed = \<lparr>cp_identity = cp_identity existing, cp_player_id = cp_player_id existing,
                       cp_internal_ip = internal_ip, cp_internal_port = internal_port,
                       cp_invite_remote_player_id = (if invite_remote \<noteq> 0 then invite_remote else cp_invite_remote_player_id existing),
                       cp_entered_at = cp_entered_at existing, cp_external_ip = or_text external_ip (cp_external_ip existing)\<rparr>
                 in Some (Inr (Some refreshed),
                          store_game (g\<lparr>cg_participants := AList.update user refreshed (cg_participants g)\<rparr>) d)
             | None \<Rightarrow>
                 if cg_quick_join_locked g \<and> cg_allocator_user_id g \<noteq> Some user \<and> \<not> invite_entry then Some (Inr None, d)
                 else let (sessions, joined) = join_game (gd_sessions d) (cg_session g) user [];
                          d = d\<lparr>gd_sessions := sessions\<rparr>
                      in if \<not> joined then Some (Inr None, d)
                         else (case player_id env i (set (map (\<lambda>(k, p). cp_player_id p) (cg_participants g))) of
                             None \<Rightarrow> None
                           | Some (Inl e) \<Rightarrow> Some (Inl e, d)
                           | Some (Inr pid) \<Rightarrow>
                               let p = \<lparr>cp_identity = i, cp_player_id = pid, cp_internal_ip = internal_ip,
                                     cp_internal_port = internal_port, cp_invite_remote_player_id = invite_remote,
                                     cp_entered_at = env_clock env, cp_external_ip = external_ip\<rparr>
                               in Some (Inr (Some p),
                                        store_game (g\<lparr>cg_participants := AList.update user p (cg_participants g)\<rparr>) d)))"

definition ticket :: "(bytes \<Rightarrow> bytes) \<Rightarrow> carbon_game \<Rightarrow> carbon_participant \<Rightarrow> string" where
  "ticket digest g p =
    (let seed = ''carbon-ticket:'' @ cg_gid g @ '':'' @ show_int (cp_player_id p) @ '':'' @ show_int (id_user_id (cp_identity p));
         raw = be_nat (slice 0 4 (digest (utf8_encode seed)))
     in show_int (1000000000 + int raw mod 9000000000))"

definition resolve_ticket :: "(bytes \<Rightarrow> bytes) \<Rightarrow> string \<Rightarrow> game_directory \<Rightarrow> (carbon_game \<times> carbon_participant) option" where
  "resolve_ticket digest candidate d =
     find (\<lambda>(g, p). ticket digest g p = candidate)
       (concat (map (\<lambda>(k, g). map (\<lambda>(user, p). (g, p)) (cg_participants g)) (gd_games d)))"

definition coordinator :: "carbon_game \<Rightarrow> int" where
  "coordinator g = (case cg_allocator_user_id g of
      Some a \<Rightarrow> if cg_server_hosted g then a else id_user_id (cg_host g)
    | None \<Rightarrow> id_user_id (cg_host g))"

definition leave :: "string \<Rightarrow> int \<Rightarrow> game_directory \<Rightarrow> bool \<times> game_directory" where
  "leave gid user d = (case map_of (gd_games d) gid of
      None \<Rightarrow> (False, d)
    | Some g \<Rightarrow> (case map_of (cg_participants g) user of
          None \<Rightarrow> (False, d)
        | Some p \<Rightarrow>
            let who = id_user_id (cp_identity p);
                g = g\<lparr>cg_participants := AList.delete user (cg_participants g),
                      cg_completed_invite_entries := cg_completed_invite_entries g |-| {|who|}\<rparr>;
                sessions = fst (leave_game (gd_sessions d) (cg_session g) who);
                retired = (who = coordinator g \<or> cg_participants g = [])
            in (True, if retired
                  then d\<lparr>gd_sessions := leave_all (cg_session g) (cg_participants g) sessions,
                         gd_games := AList.delete gid (gd_games d)\<rparr>
                  else store_game g (d\<lparr>gd_sessions := sessions\<rparr>))))"

end
