(* ===== verification/GameDirectoryInv.thy ===== *)
theory GameDirectoryInv
  imports GameDirectory
begin

text \<open>
  The invariant of the Carbon game directory: its rooms and the neutral sessions stay in
  step (the sessions are exactly those of the rooms, with the same members), player ids
  are unique in a room, and every operation keeps that.  The proofs use what the locale
  \<open>membership_store\<close> proves of the session directory through \<open>game_store\<close>.
\<close>

section \<open>Association lists with a second key\<close>

lemma second_key_update:
  assumes "distinct (map (f \<circ> snd) l)" "map_of l k = Some g" "f g' = f g"
  shows "map_of (map (\<lambda>(k, g). (f g, h g)) (AList.update k g' l)) = (map_of (map (\<lambda>(k, g). (f g, h g)) l))(f g \<mapsto> h g')"
    and "map (f \<circ> snd) (AList.update k g' l) = map (f \<circ> snd) l"
  using assms
proof (induction l)
  case (Cons x l)
  obtain a b where x: "x = (a, b)" by (cases x)
  {
    case 1
    show ?case
    proof (cases "a = k")
      case False
      with 1 x have m: "map_of l k = Some g" by simp
      then have "f g \<in> (f \<circ> snd) ` set l" by (force dest: map_of_SomeD)
      moreover have "f b \<notin> (f \<circ> snd) ` set l" using 1(1) x by simp
      ultimately have "f b \<noteq> f g" by metis
      with 1 x False m Cons.IH(1) show ?thesis by (auto simp: fun_eq_iff)
    qed (use 1 x in \<open>auto simp: fun_eq_iff\<close>)
  next
    case 2
    with x Cons.IH(2) show ?case by auto
  }
qed simp_all

lemma second_key_delete:
  assumes "distinct (map fst l)" "distinct (map (f \<circ> snd) l)" "map_of l k = Some g"
  shows "map_of (map (\<lambda>(k, g). (f g, h g)) (AList.delete k l)) = (map_of (map (\<lambda>(k, g). (f g, h g)) l))(f g := None)"
  using assms
proof (induction l)
  case (Cons x l)
  obtain a b where x: "x = (a, b)" by (cases x)
  show ?case
  proof (cases "a = k")
    case True
    with Cons.prems x have "k \<notin> fst ` set l" and b: "b = g" by auto
    then have "AList.delete k l = l" by (simp add: AList.delete_id)
    moreover have "map_of (map (\<lambda>(k, g). (f g, h g)) l) (f g) = None"
      using Cons.prems(2) x b by (auto simp: map_of_eq_None_iff image_iff)
    ultimately show ?thesis using x True b by (auto simp: fun_eq_iff)
  next
    case False
    with Cons.prems x have m: "map_of l k = Some g" by simp
    then have "f g \<in> (f \<circ> snd) ` set l" by (force dest: map_of_SomeD)
    moreover have "f b \<notin> (f \<circ> snd) ` set l" using Cons.prems(2) x by simp
    ultimately have "f b \<noteq> f g" by metis
    with Cons x False m show ?thesis by (auto simp: fun_eq_iff)
  qed
qed simp

lemma distinct_second_delete: "distinct (map (f \<circ> snd) l) \<Longrightarrow> distinct (map (f \<circ> snd) (AList.delete k l))"
  by (induction l) (auto dest: in_deleteD)

lemma map_of_snoc: "k \<notin> fst ` set d \<Longrightarrow> map_of (d @ [(k, v)]) = (map_of d)(k \<mapsto> v)"
  using update_snoc[of k d v] AList.update_conv'[of k v d] by simp

section \<open>Rooms and sessions in step\<close>

definition roster_of :: "(int \<times> carbon_participant) list \<Rightarrow> int fset" where
  "roster_of ps = fset_of_list (map fst ps)"

definition roster :: "carbon_game \<Rightarrow> int fset" where
  "roster g = roster_of (cg_participants g)"

lemma in_roster_of: "u |\<in>| roster_of ps \<longleftrightarrow> u \<in> fst ` set ps"
  unfolding roster_of_def fset_of_list_elem by simp

lemma roster_of_Nil [simp]: "roster_of [] = {||}"
  by (simp add: roster_of_def)

lemma roster_of_Cons [simp]: "roster_of ((u, p) # ps) = finsert u (roster_of ps)"
  by (simp add: roster_of_def)

lemma roster_of_empty: "roster_of ps = {||} \<longleftrightarrow> ps = []"
  by (cases ps) auto

lemma roster_of_update: "roster_of (AList.update u p ps) = finsert u (roster_of ps)"
  by (rule fset_eqI) (simp add: in_roster_of keys_update)

definition rosters :: "game_directory \<Rightarrow> (int \<times> int fset) list" where
  "rosters d = map (\<lambda>(k, g). (cg_session g, roster g)) (gd_games d)"

definition players_ok :: "(int \<times> carbon_participant) list \<Rightarrow> bool" where
  "players_ok ps = (distinct (map fst ps) \<and> distinct (map (cp_player_id \<circ> snd) ps) \<and>
     (\<forall>(user, p) \<in> set ps. id_user_id (cp_identity p) = user \<and> 1 \<le> cp_player_id p \<and> cp_player_id p \<le> MAX_CARBON_WIRE_PLAYER_ID))"

definition room_ok :: "int \<Rightarrow> string \<Rightarrow> carbon_game \<Rightarrow> bool" where
  "room_ok next_gid k g = (cg_gid g = k \<and> (\<exists>n. k = show_int n \<and> 235278 < n \<and> n \<le> next_gid) \<and> players_ok (cg_participants g))"

definition in_step :: "game_directory \<Rightarrow> bool" where
  "in_step d = (distinct (map fst (gd_games d)) \<and> distinct (map (cg_session \<circ> snd) (gd_games d)) \<and>
     directory_ok (gd_sessions d) \<and> game_members (gd_sessions d) = map_of (rosters d) \<and> 235278 \<le> gd_next_gid d \<and>
     (\<forall>(k, g) \<in> set (gd_games d). room_ok (gd_next_gid d) k g))"

lemma in_step_room: "in_step d \<Longrightarrow> map_of (gd_games d) k = Some g \<Longrightarrow> room_ok (gd_next_gid d) k g"
  by (auto simp: in_step_def dest!: map_of_SomeD)

lemma in_step_members:
  assumes "in_step d" "map_of (gd_games d) k = Some g"
  shows "game_members (gd_sessions d) (cg_session g) = Some (roster g)"
proof -
  have "(cg_session g, roster g) \<in> set (rosters d)" using map_of_SomeD[OF assms(2)] by (force simp: rosters_def)
  moreover have "map fst (rosters d) = map (cg_session \<circ> snd) (gd_games d)" by (simp add: rosters_def comp_def case_prod_beta)
  ultimately show ?thesis using assms(1) by (auto simp: in_step_def intro: map_of_is_SomeI)
qed

text \<open>Replacing a room, removing one, adding one, with the sessions following.\<close>

lemma in_step_replace:
  assumes "in_step d" "map_of (gd_games d) k = Some g" "room_ok (gd_next_gid d) k g'" "cg_session g' = cg_session g"
    and "directory_ok sessions" "game_members sessions = (game_members (gd_sessions d))(cg_session g \<mapsto> roster g')"
  shows "in_step (d\<lparr>gd_sessions := sessions, gd_games := AList.update k g' (gd_games d)\<rparr>)"
proof -
  have ds: "distinct (map (cg_session \<circ> snd) (gd_games d))" using assms(1) by (simp add: in_step_def)
  note keys = second_key_update(1)[OF ds assms(2,4), where h = roster] second_key_update(2)[OF ds assms(2,4)]
  from assms keys show ?thesis
    by (auto simp: in_step_def distinct_update rosters_def dest!: in_updateD)
qed

lemma in_step_remove:
  assumes "in_step d" "map_of (gd_games d) k = Some g"
    and "directory_ok sessions" "game_members sessions = (game_members (gd_sessions d))(cg_session g := None)"
  shows "in_step (d\<lparr>gd_sessions := sessions, gd_games := AList.delete k (gd_games d)\<rparr>)"
proof -
  have ds: "distinct (map fst (gd_games d))" "distinct (map (cg_session \<circ> snd) (gd_games d))"
    using assms(1) by (simp_all add: in_step_def)
  note keys = second_key_delete[OF ds assms(2), where h = roster]
  from assms keys show ?thesis
    by (auto simp: in_step_def distinct_delete distinct_second_delete rosters_def dest!: in_deleteD)
qed

lemma room_ok_later: "room_ok n k g \<Longrightarrow> n \<le> m \<Longrightarrow> room_ok m k g"
  unfolding room_ok_def by (meson order_trans)

lemma show_int_inj: "0 \<le> m \<Longrightarrow> 0 \<le> n \<Longrightarrow> show_int m = show_int n \<Longrightarrow> m = n"
  by (auto simp: show_int_def dest!: show_nat_inj)

lemma fresh_gid: "in_step d \<Longrightarrow> gd_next_gid d < n \<Longrightarrow> show_int n \<notin> fst ` set (gd_games d)"
proof
  assume d: "in_step d" "gd_next_gid d < n" and "show_int n \<in> fst ` set (gd_games d)"
  then obtain g where "(show_int n, g) \<in> set (gd_games d)" by auto
  with d obtain m where "show_int n = show_int m" "235278 < m" "m \<le> gd_next_gid d"
    by (auto simp: in_step_def room_ok_def)
  with d show False using show_int_inj[of n m] by (simp add: in_step_def)
qed

lemma in_step_add:
  assumes "in_step d" "gd_next_gid d < n" "cg_gid g = show_int n" "players_ok (cg_participants g)"
    and "directory_ok sessions" "game_members (gd_sessions d) (cg_session g) = None"
    and "game_members sessions = (game_members (gd_sessions d))(cg_session g \<mapsto> roster g)"
  shows "in_step (d\<lparr>gd_next_gid := n, gd_sessions := sessions, gd_games := AList.update (cg_gid g) g (gd_games d)\<rparr>)"
proof -
  have fresh: "cg_gid g \<notin> fst ` set (gd_games d)" using fresh_gid[OF assms(1,2)] assms(3) by simp
  have "map_of (rosters d) (cg_session g) = None" using assms(1,6) by (simp add: in_step_def)
  then have new: "cg_session g \<notin> fst ` set (rosters d)" by (simp add: map_of_eq_None_iff)
  have keys: "map fst (rosters d) = map (cg_session \<circ> snd) (gd_games d)" by (simp add: rosters_def comp_def case_prod_beta)
  have old: "map_of (rosters d) = game_members (gd_sessions d)" using assms(1) by (simp add: in_step_def)
  have "map_of (rosters d @ [(cg_session g, roster g)]) = (game_members (gd_sessions d))(cg_session g \<mapsto> roster g)"
    using map_of_snoc[OF new] old by simp
  moreover have "cg_session g \<notin> (cg_session \<circ> snd) ` set (gd_games d)" using new keys by (metis list.set_map)
  moreover have "room_ok n k h" if "(k, h) \<in> set (gd_games d)" for k h
    using that assms(1,2) room_ok_later[of "gd_next_gid d" k h n] by (auto simp: in_step_def)
  moreover have "room_ok n (cg_gid g) g" using assms(1-4) by (auto simp: room_ok_def in_step_def)
  ultimately show ?thesis
    using assms fresh update_snoc[OF fresh, of g] by (auto simp: in_step_def rosters_def)
qed

section \<open>The operations keep the step\<close>

lemma in_step_sound: "in_step d \<Longrightarrow> directory_ok (gd_sessions d)"
  by (simp add: in_step_def)

text \<open>Changes of a room that leave its id, session and players alone.\<close>

lemma in_step_gate:
  assumes "in_step d" "map_of (gd_games d) k = Some g"
    and "cg_gid g' = cg_gid g" "cg_session g' = cg_session g" "cg_participants g' = cg_participants g"
    and "directory_ok sessions" "game_members sessions = game_members (gd_sessions d)"
  shows "in_step (store_game g' (d\<lparr>gd_sessions := sessions\<rparr>))"
proof -
  have r: "room_ok (gd_next_gid d) k g" by (rule in_step_room[OF assms(1,2)])
  have k: "cg_gid g' = k" using r assms(3) by (simp add: room_ok_def)
  have "in_step (d\<lparr>gd_sessions := sessions, gd_games := AList.update k g' (gd_games d)\<rparr>)"
  proof (rule in_step_replace[OF assms(1,2) _ assms(4,6)])
    show "room_ok (gd_next_gid d) k g'" using r k assms(5) by (simp add: room_ok_def)
    show "game_members sessions = (game_members (gd_sessions d))(cg_session g \<mapsto> roster g')"
      using in_step_members[OF assms(1,2)] assms(5,7) by (simp add: roster_def fun_upd_idem)
  qed
  then show ?thesis by (simp add: store_game_def k)
qed

lemma in_step_gate_only:
  "in_step d \<Longrightarrow> map_of (gd_games d) k = Some g \<Longrightarrow> cg_gid g' = cg_gid g \<Longrightarrow> cg_session g' = cg_session g \<Longrightarrow>
   cg_participants g' = cg_participants g \<Longrightarrow> in_step (store_game g' d)"
  using in_step_gate[of d k g g' "gd_sessions d"] in_step_sound[of d] by (simp add: store_game_def)

lemma set_quick_join_locked_in_step: "in_step d \<Longrightarrow> in_step (snd (set_quick_join_locked gid locked d))"
  by (auto simp: set_quick_join_locked_def split: option.splits intro: in_step_gate_only)

lemma set_challenge_ready_in_step: "in_step d \<Longrightarrow> in_step (snd (set_challenge_ready gid ready d))"
  by (auto simp: set_challenge_ready_def Let_def split: option.splits intro: in_step_gate_only)

lemma mark_invite_in_step: "in_step d \<Longrightarrow> in_step (snd (mark_invite_entry_complete gid user d))"
  by (auto simp: mark_invite_entry_complete_def Let_def split: option.splits intro: in_step_gate_only)

lemma capacity_in_step: "in_step d \<Longrightarrow> in_step (snd (set_authoritative_capacity gid c d))"
proof (cases "map_of (gd_games d) gid")
  case (Some g)
  assume d: "in_step d"
  define applied where "applied = min 8 (max 2 (max (int (length (cg_participants g))) c))"
  have s: "directory_ok (fst (resize_game (gd_sessions d) (cg_session g) applied))" "game_members (fst (resize_game (gd_sessions d) (cg_session g) applied)) = game_members (gd_sessions d)"
    by (rule resize_game_ok[OF in_step_sound[OF d]]) (rule resize_game_members)
  have "in_step (store_game g (d\<lparr>gd_sessions := fst (resize_game (gd_sessions d) (cg_session g) applied)\<rparr>))"
    by (rule in_step_gate[OF d Some refl refl refl s])
  moreover have "AList.update (cg_gid g) g (gd_games d) = gd_games d"
    using in_step_room[OF d Some] Some by (simp add: room_ok_def AList.update_triv)
  moreover have "in_step (store_game (g\<lparr>cg_properties := ps\<rparr>) (d\<lparr>gd_sessions := fst (resize_game (gd_sessions d) (cg_session g) applied)\<rparr>))" for ps
    by (rule in_step_gate[OF d Some _ _ _ s]) simp_all
  ultimately show ?thesis
    by (simp add: set_authoritative_capacity_def Some Let_def applied_def[symmetric] store_game_def split: prod.splits)
      (metis fst_conv)
qed (simp add: set_authoritative_capacity_def)

text \<open>Emptying a session one player after the other.\<close>

lemma leave_all_ok: "directory_ok sd \<Longrightarrow> directory_ok (leave_all s ps sd)"
  unfolding leave_all_def by (induction ps arbitrary: sd) (auto simp: leave_game_ok)

lemma leave_all_retired:
  "directory_ok sd \<Longrightarrow> game_members sd s = None \<Longrightarrow> game_members (leave_all s ps sd) = game_members sd"
proof (induction ps arbitrary: sd)
  case (Cons x ps)
  obtain u p where x: "x = (u, p)" by (cases x)
  let ?sd = "fst (leave_game sd s (id_user_id (cp_identity p)))"
  have "\<not> snd (leave_game sd s (id_user_id (cp_identity p)))"
    using game_store.leave_accepted[OF Cons.prems(1)] Cons.prems(2) by fastforce
  then have "?sd = sd" by (rule game_store.leave_refused)
  with Cons show ?case by (simp add: leave_all_def x)
qed (simp add: leave_all_def)

lemma leave_all_members:
  assumes "directory_ok sd" "players_ok ps" "game_members sd s = Some (roster_of ps)" "ps \<noteq> []"
  shows "game_members (leave_all s ps sd) = (game_members sd)(s := None)"
  using assms
proof (induction ps arbitrary: sd)
  case (Cons x ps)
  obtain u p where x: "x = (u, p)" by (cases x)
  have u: "id_user_id (cp_identity p) = u" "u \<notin> fst ` set ps" using Cons.prems(2) x by (auto simp: players_ok_def)
  let ?sd = "fst (leave_game sd s u)"
  have ok: "directory_ok ?sd" by (rule leave_game_ok[OF Cons.prems(1)])
  have m: "game_members sd s = Some (finsert u (roster_of ps))" using Cons.prems(3) x by simp
  have "u |\<notin>| roster_of ps" using u(2) by (simp add: in_roster_of)
  then have rest: "finsert u (roster_of ps) |-| {|u|} = roster_of ps" by auto
  note upd = game_store.leave_occupants[OF Cons.prems(1) m, of u]
  have step: "leave_all s (x # ps) sd = leave_all s ps ?sd" by (simp add: leave_all_def x u)
  show ?case
  proof (cases "ps = []")
    case True
    then have "leave_all s (x # ps) sd = ?sd" by (simp add: leave_all_def x u)
    with True upd show ?thesis by simp
  next
    case False
    then have "roster_of ps \<noteq> {||}" by (simp add: roster_of_empty)
    then have "finsert u (roster_of ps) \<noteq> {|u|}" using \<open>u |\<notin>| roster_of ps\<close> by auto
    with upd rest have upd': "game_members ?sd = (game_members sd)(s \<mapsto> roster_of ps)" by simp
    have "players_ok ps" using Cons.prems(2) x by (auto simp: players_ok_def)
    from Cons.IH[OF ok this _ False] upd' show ?thesis by (simp add: step fun_eq_iff)
  qed
qed simp

lemma retire_in_step: "in_step d \<Longrightarrow> in_step (snd (retire gid d))"
proof (cases "map_of (gd_games d) gid")
  case (Some g)
  assume d: "in_step d"
  have p: "players_ok (cg_participants g)" using in_step_room[OF d Some] by (simp add: room_ok_def)
  have m: "game_members (gd_sessions d) (cg_session g) = Some (roster_of (cg_participants g))"
    using in_step_members[OF d Some] by (simp add: roster_def)
  let ?sd = "leave_all (cg_session g) (cg_participants g) (gd_sessions d)"
  have "(game_members ?sd)(cg_session g := None) = (game_members (gd_sessions d))(cg_session g := None)"
    using leave_all_members[OF in_step_sound[OF d] p m] by (cases "cg_participants g = []") (simp_all add: leave_all_def)
  then have "game_members (fst (close_game ?sd (cg_session g))) = (game_members (gd_sessions d))(cg_session g := None)"
    by (simp add: close_game_members)
  from in_step_remove[OF d Some close_game_ok[OF leave_all_ok[OF in_step_sound[OF d]]] this]
  show ?thesis by (simp add: retire_def Some)
qed (simp add: retire_def)

lemma players_delete: "players_ok ps \<Longrightarrow> players_ok (AList.delete u ps)"
  by (auto simp: players_ok_def distinct_delete distinct_second_delete dest!: in_deleteD)

lemma players_member: "players_ok ps \<Longrightarrow> map_of ps u = Some p \<Longrightarrow> id_user_id (cp_identity p) = u"
  by (auto simp: players_ok_def dest!: map_of_SomeD)

lemma roster_delete: "roster_of (AList.delete u ps) = roster_of ps |-| {|u|}"
  by (rule fset_eqI) (simp add: in_roster_of keys_delete)

lemma roster_member: "map_of ps u = Some p \<Longrightarrow> u |\<in>| roster_of ps"
  unfolding in_roster_of by (force dest: map_of_SomeD)

text \<open>The session after one player of a room left it.\<close>

lemma leave_session:
  assumes "in_step d" "map_of (gd_games d) k = Some g" "map_of (cg_participants g) u = Some p"
  shows "directory_ok (fst (leave_game (gd_sessions d) (cg_session g) u))"
    and "game_members (fst (leave_game (gd_sessions d) (cg_session g) u)) = (game_members (gd_sessions d))
      (cg_session g := if AList.delete u (cg_participants g) = [] then None
         else Some (roster_of (AList.delete u (cg_participants g))))"
proof -
  show "directory_ok (fst (leave_game (gd_sessions d) (cg_session g) u))" by (rule leave_game_ok[OF in_step_sound[OF assms(1)]])
  have m: "game_members (gd_sessions d) (cg_session g) = Some (roster g)" by (rule in_step_members[OF assms(1,2)])
  have u: "u |\<in>| roster g" unfolding roster_def by (rule roster_member[OF assms(3)])
  have "(roster g = {|u|}) = (roster_of (AList.delete u (cg_participants g)) = {||})"
    unfolding roster_delete roster_def[symmetric] using u by auto
  then have e: "(roster g = {|u|}) = (AList.delete u (cg_participants g) = [])" unfolding roster_of_empty .
  show "game_members (fst (leave_game (gd_sessions d) (cg_session g) u)) = (game_members (gd_sessions d))
      (cg_session g := if AList.delete u (cg_participants g) = [] then None
         else Some (roster_of (AList.delete u (cg_participants g))))"
    using game_store.leave_occupants[OF in_step_sound[OF assms(1)] m u] unfolding e roster_delete roster_def[symmetric] .
qed

lemma leave_one_in_step:
  assumes "in_step d" "map_of (gd_games d) k = Some g" "map_of (cg_participants g) user = Some stale"
  shows "in_step (leave_one user g stale d)"
proof -
  have r: "room_ok (gd_next_gid d) k g" by (rule in_step_room[OF assms(1,2)])
  then have k: "cg_gid g = k" and p: "players_ok (cg_participants g)" by (simp_all add: room_ok_def)
  have u: "id_user_id (cp_identity stale) = user" by (rule players_member[OF p assms(3)])
  note s = leave_session[OF assms]
  show ?thesis
  proof (cases "AList.delete user (cg_participants g) = []")
    case True
    with s(2) have "game_members (fst (leave_game (gd_sessions d) (cg_session g) user)) = (game_members (gd_sessions d))(cg_session g := None)"
      by simp
    from in_step_remove[OF assms(1,2) s(1) this] show ?thesis by (simp add: leave_one_def u True k)
  next
    case False
    let ?g = "g\<lparr>cg_participants := AList.delete user (cg_participants g)\<rparr>"
    have "in_step (d\<lparr>gd_sessions := fst (leave_game (gd_sessions d) (cg_session g) user), gd_games := AList.update k ?g (gd_games d)\<rparr>)"
    proof (rule in_step_replace[OF assms(1,2) _ _ s(1)])
      show "room_ok (gd_next_gid d) k ?g" using r by (simp add: room_ok_def players_delete)
      show "game_members (fst (leave_game (gd_sessions d) (cg_session g) user)) = (game_members (gd_sessions d))(cg_session g \<mapsto> roster ?g)"
        using s(2) False by (simp add: roster_def)
    qed simp
    then show ?thesis by (simp add: leave_one_def u False store_game_def k)
  qed
qed

lemma leave_one_games:
  "distinct (map fst (gd_games d)) \<Longrightarrow> map_of (gd_games (leave_one user g stale d)) j =
     (if j = cg_gid g then (if AList.delete user (cg_participants g) = [] then None
        else Some (g\<lparr>cg_participants := AList.delete user (cg_participants g)\<rparr>))
      else map_of (gd_games d) j)"
  by (auto simp: leave_one_def store_game_def map_of_update_dict map_of_delete_dict Let_def)

lemma leave_one_next [simp]: "gd_next_gid (leave_one user g stale d) = gd_next_gid d"
  by (simp add: leave_one_def store_game_def Let_def)

text \<open>
  After the loop the player is gone from every listed room but the one entered, which is
  unchanged; rooms without the player are unchanged too.
\<close>

lemma leave_fold:
  fixes gid :: string and user :: int
  assumes "in_step d" "distinct (map fst l)" "\<forall>(k, g) \<in> set l. map_of (gd_games d) k = Some g"
  defines "d' \<equiv> fold (\<lambda>(k, g). leave_step gid user g) l d"
  shows "in_step d' \<and> gd_next_gid d' = gd_next_gid d \<and>
    (\<forall>j. j \<notin> fst ` set l \<or> j = gid \<longrightarrow> map_of (gd_games d') j = map_of (gd_games d) j) \<and>
    (\<forall>j g. j \<in> fst ` set l \<and> j \<noteq> gid \<and> map_of (gd_games d') j = Some g \<longrightarrow> map_of (cg_participants g) user = None)"
  using assms(1-3) unfolding d'_def
proof (induction l arbitrary: d)
  case (Cons x l)
  obtain k g where x: "x = (k, g)" by (cases x)
  have g: "map_of (gd_games d) k = Some g" using Cons.prems(3) x by simp
  have r: "room_ok (gd_next_gid d) k g" by (rule in_step_room[OF Cons.prems(1) g])
  then have k: "cg_gid g = k" by (simp add: room_ok_def)
  define d1 where "d1 = leave_step gid user g d"
  have dist: "distinct (map fst (gd_games d))" using Cons.prems(1) by (simp add: in_step_def)
  have step: "in_step d1" unfolding d1_def leave_step_def
    using Cons.prems(1) leave_one_in_step[OF Cons.prems(1) g] by (auto split: option.splits)
  have others: "map_of (gd_games d1) j = map_of (gd_games d) j" if "j \<noteq> k \<or> j = gid" for j
    using that k by (auto simp: d1_def leave_step_def leave_one_games[OF dist] split: option.splits)
  have gone: "map_of (cg_participants h) user = None" if "map_of (gd_games d1) k = Some h" "k \<noteq> gid" for h
    using that g k by (auto simp: d1_def leave_step_def leave_one_games[OF dist] map_of_delete_dict split: option.splits if_splits)
  have "map_of (gd_games d1) j = Some h" if "(j, h) \<in> set l" for j h
  proof -
    have "j \<noteq> k" using that Cons.prems(2) x by force
    moreover have "map_of (gd_games d) j = Some h" using that Cons.prems(3) by auto
    ultimately show ?thesis using others by simp
  qed
  then have "\<forall>(j, h) \<in> set l. map_of (gd_games d1) j = Some h" by blast
  note IH = Cons.IH[OF step _ this]
  have next_same: "gd_next_gid d1 = gd_next_gid d" by (auto simp: d1_def leave_step_def split: option.splits)
  have f: "fold (\<lambda>(k, g). leave_step gid user g) (x # l) d = fold (\<lambda>(k, g). leave_step gid user g) l d1"
    by (simp add: x d1_def)
  have kl: "k \<notin> fst ` set l" "distinct (map fst l)" using Cons.prems(2) x by auto
  note IH = IH[OF kl(2)]
  show ?case unfolding f
  proof (intro conjI allI impI)
    show "in_step (fold (\<lambda>(k, g). leave_step gid user g) l d1)" using IH by blast
    show "gd_next_gid (fold (\<lambda>(k, g). leave_step gid user g) l d1) = gd_next_gid d" using IH next_same by simp
    fix j assume j: "j \<notin> fst ` set (x # l) \<or> j = gid"
    then have "j \<noteq> k \<or> j = gid" "j \<notin> fst ` set l \<or> j = gid" using x by auto
    with IH others show "map_of (gd_games (fold (\<lambda>(k, g). leave_step gid user g) l d1)) j = map_of (gd_games d) j" by metis
  next
    fix j h assume j: "j \<in> fst ` set (x # l) \<and> j \<noteq> gid \<and> map_of (gd_games (fold (\<lambda>(k, g). leave_step gid user g) l d1)) j = Some h"
    show "map_of (cg_participants h) user = None"
    proof (cases "j \<in> fst ` set l")
      case False
      then have "j = k" using j x by simp
      moreover have "map_of (gd_games d1) j = Some h" using IH j False by metis
      ultimately show ?thesis using gone j by blast
    qed (use IH j in blast)
  qed
qed simp

lemma in_step_cong:
  "gd_games d = gd_games e \<Longrightarrow> gd_sessions d = gd_sessions e \<Longrightarrow> gd_next_gid d = gd_next_gid e \<Longrightarrow> in_step d = in_step e"
  by (simp add: in_step_def rosters_def)

lemma leave_in_step: "in_step d \<Longrightarrow> in_step (snd (leave gid user d))"
proof -
  assume d: "in_step d"
  show ?thesis
  proof (cases "map_of (gd_games d) gid")
    case (Some g)
    show ?thesis
    proof (cases "map_of (cg_participants g) user")
      case (Some p)
      have r: "room_ok (gd_next_gid d) gid g" by (rule in_step_room[OF d \<open>map_of (gd_games d) gid = Some g\<close>])
      then have pl: "players_ok (cg_participants g)" and k: "cg_gid g = gid" by (simp_all add: room_ok_def)
      have who: "id_user_id (cp_identity p) = user" by (rule players_member[OF pl Some])
      note s = leave_session[OF d \<open>map_of (gd_games d) gid = Some g\<close> Some]
      define g' where "g' = g\<lparr>cg_participants := AList.delete user (cg_participants g),
          cg_completed_invite_entries := cg_completed_invite_entries g |-| {|user|}\<rparr>"
      define sessions where "sessions = fst (leave_game (gd_sessions d) (cg_session g) user)"
      have pl': "players_ok (cg_participants g')" by (simp add: g'_def players_delete[OF pl])
      have keep: "in_step (store_game g' (d\<lparr>gd_sessions := sessions\<rparr>))" if "cg_participants g' \<noteq> []"
      proof -
        have "in_step (d\<lparr>gd_sessions := sessions, gd_games := AList.update gid g' (gd_games d)\<rparr>)"
        proof (rule in_step_replace[OF d \<open>map_of (gd_games d) gid = Some g\<close>])
          show "room_ok (gd_next_gid d) gid g'" using r pl' by (simp add: room_ok_def g'_def)
          show "game_members sessions = (game_members (gd_sessions d))(cg_session g \<mapsto> roster g')"
            using s(2) that by (simp add: sessions_def g'_def roster_def)
        qed (use s(1) in \<open>simp_all add: g'_def sessions_def\<close>)
        then show ?thesis by (simp add: store_game_def g'_def k)
      qed
      have gone: "in_step (d\<lparr>gd_sessions := leave_all (cg_session g) (cg_participants g') sessions, gd_games := AList.delete gid (gd_games d)\<rparr>)"
      proof (rule in_step_remove[OF d \<open>map_of (gd_games d) gid = Some g\<close>])
        have ok: "directory_ok sessions" using s(1) by (simp add: sessions_def)
        then show "directory_ok (leave_all (cg_session g) (cg_participants g') sessions)" by (rule leave_all_ok)
        show "game_members (leave_all (cg_session g) (cg_participants g') sessions) = (game_members (gd_sessions d))(cg_session g := None)"
        proof (cases "cg_participants g' = []")
          case True
          with s(2) show ?thesis by (simp add: leave_all_def sessions_def g'_def)
        next
          case False
          with s(2) have "game_members sessions = (game_members (gd_sessions d))(cg_session g \<mapsto> roster_of (cg_participants g'))"
            by (simp add: sessions_def g'_def)
          with leave_all_members[OF ok pl' _ False, of "cg_session g"] show ?thesis by (simp add: fun_eq_iff)
        qed
      qed
      have "snd (leave gid user d) = d\<lparr>gd_sessions := leave_all (cg_session g) (cg_participants g') sessions, gd_games := AList.delete gid (gd_games d)\<rparr>
        \<or> (cg_participants g' \<noteq> [] \<and> snd (leave gid user d) = store_game g' (d\<lparr>gd_sessions := sessions\<rparr>))"
        by (auto simp: leave_def \<open>map_of (gd_games d) gid = Some g\<close> Some who Let_def g'_def sessions_def)
      with keep gone show ?thesis by metis
    qed (use Some d in \<open>simp add: leave_def\<close>)
  qed (use d in \<open>simp add: leave_def\<close>)
qed

section \<open>Entering\<close>

definition resolver_ok :: "environment \<Rightarrow> bool" where
  "resolver_ok env = (case env_player_id_resolver env of None \<Rightarrow> True
     | Some r \<Rightarrow> \<forall>i. 0 < r i \<and> r i \<le> MAX_CARBON_WIRE_PLAYER_ID)"

lemma player_id_result:
  "player_id env i used = Some (Inr pid) \<Longrightarrow> pid \<notin> used \<and> 1 \<le> pid \<and> pid \<le> MAX_CARBON_WIRE_PLAYER_ID"
  by (auto simp: player_id_def MAX_CARBON_WIRE_PLAYER_ID_def split: option.splits if_splits dest!: next_free_result)

lemma player_id_no_error: "resolver_ok env \<Longrightarrow> player_id env i used \<noteq> Some (Inl e)"
  by (auto simp: player_id_def resolver_ok_def split: option.splits)

lemma players_refresh:
  "players_ok ps \<Longrightarrow> map_of ps u = Some e \<Longrightarrow> cp_identity e' = cp_identity e \<Longrightarrow> cp_player_id e' = cp_player_id e \<Longrightarrow>
   players_ok (AList.update u e' ps)"
  using second_key_update(2)[of cp_player_id ps u e e']
  by (auto simp: players_ok_def distinct_update dest!: in_updateD map_of_SomeD)

lemma players_add:
  "players_ok ps \<Longrightarrow> u \<notin> fst ` set ps \<Longrightarrow> id_user_id (cp_identity p) = u \<Longrightarrow> cp_player_id p \<notin> cp_player_id ` snd ` set ps \<Longrightarrow>
   1 \<le> cp_player_id p \<Longrightarrow> cp_player_id p \<le> MAX_CARBON_WIRE_PLAYER_ID \<Longrightarrow> players_ok (AList.update u p ps)"
  by (simp add: players_ok_def update_snoc image_comp)

lemma leave_previous_in_step:
  assumes "in_step d"
  shows "in_step (leave_previous gid user d)" "map_of (gd_games (leave_previous gid user d)) gid = map_of (gd_games d) gid"
    "gd_next_gid (leave_previous gid user d) = gd_next_gid d"
    "map_of (gd_games (leave_previous gid user d)) j = Some g \<Longrightarrow> j \<noteq> gid \<Longrightarrow> map_of (cg_participants g) user = None"
proof -
  have dist: "distinct (map fst (gd_games d))" using assms by (simp add: in_step_def)
  have "\<forall>(k, g) \<in> set (gd_games d). map_of (gd_games d) k = Some g" using dist by auto
  note f = leave_fold[OF assms dist this, of gid user, folded leave_previous_def]
  show "in_step (leave_previous gid user d)" "map_of (gd_games (leave_previous gid user d)) gid = map_of (gd_games d) gid"
    "gd_next_gid (leave_previous gid user d) = gd_next_gid d" using f by blast+
  assume j: "map_of (gd_games (leave_previous gid user d)) j = Some g" "j \<noteq> gid"
  then have "j \<in> fst ` set (gd_games d)" using f by (metis map_of_eq_None_iff option.distinct(1))
  with f j show "map_of (cg_participants g) user = None" by blast
qed

text \<open>A room whose roster changed with its session.\<close>

lemma in_step_roster:
  assumes "in_step d" "map_of (gd_games d) gid = Some g" "players_ok ps"
    and "directory_ok sessions" "game_members sessions = (game_members (gd_sessions d))(cg_session g \<mapsto> roster_of ps)"
  shows "in_step (store_game (g\<lparr>cg_participants := ps\<rparr>) (d\<lparr>gd_sessions := sessions\<rparr>))"
proof -
  have r: "room_ok (gd_next_gid d) gid g" by (rule in_step_room[OF assms(1,2)])
  then have k: "cg_gid g = gid" by (simp add: room_ok_def)
  have "in_step (d\<lparr>gd_sessions := sessions, gd_games := AList.update gid (g\<lparr>cg_participants := ps\<rparr>) (gd_games d)\<rparr>)"
    by (rule in_step_replace[OF assms(1,2) _ _ assms(4)]) (use r assms(3,5) in \<open>simp_all add: room_ok_def roster_def\<close>)
  then show ?thesis by (simp add: store_game_def k)
qed

text \<open>What a successful or refused entry leaves behind.\<close>

lemma enter_cases:
  assumes d: "in_step d" and e: "enter env gid i ip port ext remote invite d = Some (r, d')" and env: "resolver_ok env"
  shows "in_step d' \<and>
     (\<forall>p. r = Inr (Some p) \<longrightarrow> (\<exists>g. map_of (gd_games d') gid = Some g \<and> map_of (cg_participants g) (id_user_id i) = Some p) \<and>
        (\<forall>j g. map_of (gd_games d') j = Some g \<and> j \<noteq> gid \<longrightarrow> map_of (cg_participants g) (id_user_id i) = None))"
proof (cases "map_of (gd_games d) gid")
  case None
  with d e show ?thesis by (auto simp: enter_def)
next
  case (Some g)
  define u where "u = id_user_id i"
  define d1 where "d1 = leave_previous gid u d"
  have r: "room_ok (gd_next_gid d) gid g" by (rule in_step_room[OF d Some])
  then have k: "cg_gid g = gid" and pl: "players_ok (cg_participants g)" by (simp_all add: room_ok_def)
  note prev = leave_previous_in_step[OF d, of gid u, folded d1_def]
  have g1: "map_of (gd_games d1) gid = Some g" using prev(2) Some by simp
  note room = in_step_roster[OF prev(1) g1]
  have m: "game_members (gd_sessions d1) (cg_session g) = Some (roster_of (cg_participants g))"
    using in_step_members[OF prev(1) g1] by (simp add: roster_def)
  have placed: ?thesis
    if "in_step d'" "r = Inr (Some p)" "d' = store_game (g\<lparr>cg_participants := AList.update u p (cg_participants g)\<rparr>) e"
      "gd_games e = gd_games d1" for p e
  proof -
    have m: "map_of (gd_games d') j = (if j = gid then Some (g\<lparr>cg_participants := AList.update u p (cg_participants g)\<rparr>)
        else map_of (gd_games d1) j)" for j
      using that(3,4) by (simp add: store_game_def map_of_update_dict k)
    show ?thesis
      using that(1,2) prev(4) by (auto simp: m u_def map_of_update_dict split: if_splits)
  qed
  show ?thesis
  proof (cases "map_of (cg_participants g) u")
    case ex: (Some existing)
    define p where "p = \<lparr>cp_identity = cp_identity existing, cp_player_id = cp_player_id existing,
       cp_internal_ip = ip, cp_internal_port = port,
       cp_invite_remote_player_id = (if remote \<noteq> 0 then remote else cp_invite_remote_player_id existing),
       cp_entered_at = cp_entered_at existing, cp_external_ip = or_text ext (cp_external_ip existing)\<rparr>"
    have res: "r = Inr (Some p)" "d' = store_game (g\<lparr>cg_participants := AList.update u p (cg_participants g)\<rparr>) (d1\<lparr>gd_sessions := gd_sessions d1\<rparr>)"
      using e by (auto simp: enter_def Some Let_def u_def[symmetric] k d1_def[symmetric] ex p_def)
    have "game_members (gd_sessions d1) = (game_members (gd_sessions d1))(cg_session g \<mapsto> roster_of (AList.update u p (cg_participants g)))"
      using m roster_member[OF ex] by (simp add: roster_of_update finsert_absorb fun_upd_idem)
    from room[OF players_refresh[OF pl ex, of p] in_step_sound[OF prev(1)] this]
    have "in_step d'" unfolding res by (simp add: p_def)
    from placed[OF this res] show ?thesis by simp
  next
    case no: None
    show ?thesis
    proof (cases "cg_quick_join_locked g \<and> cg_allocator_user_id g \<noteq> Some u \<and> \<not> invite")
      case True
      then have "r = Inr None \<and> d' = d1" using e by (auto simp: enter_def Some Let_def u_def[symmetric] k d1_def[symmetric] no)
      with prev(1) show ?thesis by auto
    next
      case unlocked: False
      define sd where "sd = fst (join_game (gd_sessions d1) (cg_session g) u [])"
      show ?thesis
      proof (cases "snd (join_game (gd_sessions d1) (cg_session g) u [])")
        case False
        then have sd: "sd = gd_sessions d1" unfolding sd_def by (rule game_store.join_refused)
        have "r = Inr None \<and> d' = d1\<lparr>gd_sessions := sd\<rparr>"
          using e unlocked False by (auto simp: enter_def Some Let_def u_def[symmetric] k d1_def[symmetric] no sd_def case_prod_beta)
        with sd prev(1) show ?thesis by auto
      next
        case True
        have ms: "game_members sd = (game_members (gd_sessions d1))(cg_session g \<mapsto> finsert u (roster_of (cg_participants g)))"
          unfolding sd_def by (rule game_store.join_occupants[OF True m])
        define used where "used = set (map (\<lambda>(k, p). cp_player_id p) (cg_participants g))"
        have some: "player_id env i used \<noteq> None" using e unlocked True
          by (auto simp: enter_def Some Let_def u_def[symmetric] k d1_def[symmetric] no case_prod_beta used_def split: option.splits)
        then obtain pid where pid: "player_id env i used = Some (Inr pid)"
          using player_id_no_error[OF env, of i used] by (cases "player_id env i used") (auto, metis sum.exhaust)
        define p where "p = \<lparr>cp_identity = i, cp_player_id = pid, cp_internal_ip = ip, cp_internal_port = port,
           cp_invite_remote_player_id = remote, cp_entered_at = env_clock env, cp_external_ip = ext\<rparr>"
        have res: "r = Inr (Some p)" "d' = store_game (g\<lparr>cg_participants := AList.update u p (cg_participants g)\<rparr>) (d1\<lparr>gd_sessions := sd\<rparr>)"
          using e unlocked True pid
          by (auto simp: enter_def Some Let_def u_def[symmetric] k d1_def[symmetric] no case_prod_beta used_def sd_def p_def)
        have "players_ok (AList.update u p (cg_participants g))"
          using player_id_result[OF pid] no by (intro players_add[OF pl]) (auto simp: p_def u_def used_def map_of_eq_None_iff)
        from room[OF this join_game_ok[OF in_step_sound[OF prev(1)]], of "cg_session g" u "[]", folded sd_def] ms
        have "in_step d'" unfolding res by (simp add: roster_of_update)
        from placed[OF this res] show ?thesis by simp
      qed
    qed
  qed
qed

end
