(* ===== verification/GameDirectoryRun.thy ===== *)
theory GameDirectoryRun
  imports GameDirectoryInv
begin

text \<open>
  Creating rooms, resolving PlayNow requests, and runs of the game directory: the invariant
  \<open>in_step\<close> holds after every sequence of calls, and the properties of entering, leaving,
  searching, allocation and tickets that follow from it.
\<close>

section \<open>Creating a room\<close>

lemma room_made:
  assumes "build_room env i host sh request ps session m gid participants d = Some (g, d')"
  shows "cg_gid g = gid \<and> cg_session g = session \<and> cg_participants g = participants \<and>
    (\<exists>h. d' = d\<lparr>gd_next_descriptor_handle := h, gd_games := AList.update gid g (gd_games d)\<rparr>)"
  using assms
  unfolding build_room_def Let_def allocate_descriptor_handle_base_def store_game_def
  by (clarsimp simp: bind_eq_Some_conv split del: if_split) (rule exI, rule refl)

lemma room_host_gid [simp]: "room_host i sh (d\<lparr>gd_next_gid := n\<rparr>) = room_host i sh d"
  by (simp add: room_host_def)

lemma in_step_gid: "in_step d \<Longrightarrow> in_step (d\<lparr>gd_next_gid := gd_next_gid d + 1\<rparr>)"
  unfolding in_step_def rosters_def by (auto intro: room_ok_later)

lemma new_players_ok: "1 \<le> pid \<Longrightarrow> pid \<le> MAX_CARBON_WIRE_PLAYER_ID \<Longrightarrow> players_ok [(id_user_id i, new_participant env i pid)]"
  by (simp add: players_ok_def new_participant_def)

text \<open>The room is built from the session that was just created for it.\<close>

lemma built_room_in_step:
  assumes d: "in_step d"
    and s: "create_game (gd_sessions d) 257 owner m 2 PUBLIC [] inc = Inr (sessions, session)"
    and b: "build_room env i host sh request ps (gs_id session) m gid participants
      (d\<lparr>gd_next_gid := gd_next_gid d + 1, gd_sessions := sessions\<rparr>) = Some (g, d')"
    and gid: "gid = show_int (gd_next_gid d + 1)"
    and ps: "players_ok participants" "roster_of participants = (if inc then {|owner|} else {||})"
  shows "in_step d' \<and> map_of (gd_games d') (cg_gid g) = Some g"
proof -
  note ok = in_step_sound[OF d]
  note made = room_made[OF b]
  then obtain h where d': "d' = d\<lparr>gd_next_gid := gd_next_gid d + 1, gd_sessions := sessions,
      gd_next_descriptor_handle := h, gd_games := AList.update (cg_gid g) g (gd_games d)\<rparr>" by auto
  have "in_step (d\<lparr>gd_next_gid := gd_next_gid d + 1, gd_sessions := sessions, gd_games := AList.update (cg_gid g) g (gd_games d)\<rparr>)"
  proof (rule in_step_add[OF d])
    show "directory_ok sessions" by (rule create_game_ok[OF ok s])
    show "game_members (gd_sessions d) (cg_session g) = None"
      and "game_members sessions = (game_members (gd_sessions d))(cg_session g \<mapsto> roster g)"
      using create_game_members[OF ok s] made ps(2) by (simp_all add: roster_def)
  qed (use made gid ps in simp_all)
  moreover have "in_step d' = in_step (d\<lparr>gd_next_gid := gd_next_gid d + 1, gd_sessions := sessions,
      gd_games := AList.update (cg_gid g) g (gd_games d)\<rparr>)" by (rule in_step_cong) (simp_all add: d')
  ultimately have "in_step d'" by simp
  then show ?thesis by (simp add: d' map_of_update_dict)
qed

lemma create_in_step:
  assumes d: "in_step d" and c: "create env i vals sh request d = Some (r, d')" and env: "resolver_ok env"
  shows "in_step d' \<and> (\<forall>g. r = Inr g \<longrightarrow> map_of (gd_games d') (cg_gid g) = Some g)"
proof (cases "creation_properties (env_pick env) vals sh (case request of Some r \<Rightarrow> r | None \<Rightarrow> parse_request vals)")
  case (Inl e)
  with c d show ?thesis by (auto simp: create_def)
next
  case (Inr dm)
  obtain dedicated m where dm: "dm = (dedicated, m)" by (cases dm)
  define host where "host = room_host i sh d"
  show ?thesis
  proof (cases "create_game (gd_sessions d) 257 (id_user_id host) m 2 PUBLIC [] (\<not> sh)")
    case refused: (Inl e)
    with c Inr dm have "r = Inl (Session_Refused e) \<and> d' = d\<lparr>gd_next_gid := gd_next_gid d + 1\<rparr>"
      by (auto simp: create_def Let_def host_def split: if_splits)
    with in_step_gid[OF d] show ?thesis by simp
  next
    case made: (Inr sg)
    obtain sessions session where sg: "sg = (sessions, session)" by (cases sg)
    note s = made[unfolded sg]
    define d1 where "d1 = d\<lparr>gd_next_gid := gd_next_gid d + 1, gd_sessions := sessions\<rparr>"
    define req where "req = (case request of Some r \<Rightarrow> r | None \<Rightarrow> parse_request vals)"
    define gid where "gid = show_int (gd_next_gid d + 1)"
    obtain participants g where g: "r = Inr g" and b: "build_room env i host sh req
          (room_properties d1 gid vals dedicated sh) (gs_id session) m gid participants d1 = Some (g, d')"
      and ps: "players_ok participants" "roster_of participants = (if \<not> sh then {|id_user_id host|} else {||})"
    proof (cases sh)
      case True
      from c Inr dm s have "map_option (\<lambda>(g, d). (Inr g, d)) (build_room env i host sh req
          (room_properties d1 gid vals dedicated sh) (gs_id session) m gid [] d1) = Some (r, d')"
        by (simp add: create_def Let_def host_def d1_def gid_def req_def True)
      with that[of _ "[]"] True show ?thesis by (auto simp: players_ok_def)
    next
      case False
      from c Inr dm s False have "player_id env i {} \<noteq> None"
        by (cases "player_id env i {}") (simp_all add: create_def Let_def host_def)
      then obtain pid where pid: "player_id env i {} = Some (Inr pid)"
        using player_id_no_error[OF env, of i "{}"] by (cases "player_id env i {}") (auto, metis sum.exhaust)
      from c Inr dm s pid have "map_option (\<lambda>(g, d). (Inr g, d)) (build_room env i host sh req
          (room_properties d1 gid vals dedicated sh) (gs_id session) m gid [(id_user_id i, new_participant env i pid)] d1) = Some (r, d')"
        by (simp add: create_def Let_def host_def d1_def gid_def req_def False)
      with that[of _ "[(id_user_id i, new_participant env i pid)]"] False player_id_result[OF pid]
      show ?thesis by (auto simp: host_def room_host_def intro: new_players_ok)
    qed
    from built_room_in_step[OF d s b[unfolded d1_def] gid_def ps] g show ?thesis by simp
  qed
qed

section \<open>PlayNow\<close>

text \<open>A request either leaves the directory alone or creates one room.\<close>

lemma resolve_state:
  assumes "resolve_play_now env i fs d = Some (r, d')"
  shows "d' = d \<or> (\<exists>vals sh request x. create env i vals sh request d = Some x \<and> d' = snd x)"
proof (rule disjCI)
  assume no: "\<not> (\<exists>vals sh request x. create env i vals sh request d = Some x \<and> d' = snd x)"
  then have never: "map_option (\<lambda>x. case x of (Inl e, d) \<Rightarrow> (Inl e, d) | (Inr g, d) \<Rightarrow> (Inr (f g), d))
      (create env i vals sh request d) \<noteq> Some (r, d')" for f :: "carbon_game \<Rightarrow> play_now_resolution option" and vals sh request
    by (cases "create env i vals sh request d") (force split: sum.splits)+
  with assms show "d' = d"
    by (auto simp: resolve_play_now_def Let_def split: if_splits option.splits)
qed

lemma resolve_in_step:
  assumes d: "in_step d" and r: "resolve_play_now env i fs d = Some (r, d')" and env: "resolver_ok env"
  shows "in_step d'"
  using resolve_state[OF r] create_in_step[OF d _ env] d by (metis prod.collapse)

section \<open>Runs\<close>

datatype game_call =
    Play_Now identity fields
  | Create identity fields bool
  | Enter string identity string int string int bool
  | Invite_Done string int
  | Leave string int
  | Retire string
  | Capacity string int
  | Lock string bool
  | Ready string bool

fun run_call :: "environment \<Rightarrow> game_call \<Rightarrow> game_directory \<Rightarrow> game_directory option" where
  "run_call env (Play_Now i fs) d = map_option snd (resolve_play_now env i fs d)"
| "run_call env (Create i vals sh) d = map_option snd (create env i vals sh None d)"
| "run_call env (Enter gid i ip port ext remote invite) d = map_option snd (enter env gid i ip port ext remote invite d)"
| "run_call env (Invite_Done gid user) d = Some (snd (mark_invite_entry_complete gid user d))"
| "run_call env (Leave gid user) d = Some (snd (leave gid user d))"
| "run_call env (Retire gid) d = Some (snd (retire gid d))"
| "run_call env (Capacity gid c) d = Some (snd (set_authoritative_capacity gid c d))"
| "run_call env (Lock gid locked) d = Some (snd (set_quick_join_locked gid locked d))"
| "run_call env (Ready gid ready) d = Some (snd (set_challenge_ready gid ready d))"

fun game_run :: "(environment \<times> game_call) list \<Rightarrow> game_directory \<Rightarrow> game_directory option" where
  "game_run [] d = Some d"
| "game_run ((env, c) # cs) d = Option.bind (run_call env c d) (game_run cs)"

lemma new_in_step: "in_step (new_game_directory endpoint local_endpoint ekey huid before after)"
  using new_directory_ok
  by (simp add: in_step_def new_game_directory_def rosters_def) (simp add: game_members_def new_directory_def fun_eq_iff)

lemmas in_step_calls = set_quick_join_locked_in_step set_challenge_ready_in_step mark_invite_in_step
  capacity_in_step retire_in_step leave_in_step

lemma run_call_in_step:
  assumes d: "in_step d" and env: "resolver_ok env" and c: "run_call env c d = Some d'"
  shows "in_step d'"
proof (cases c)
  case (Play_Now i fs)
  with c obtain r where "resolve_play_now env i fs d = Some (r, d')" by auto
  then show ?thesis using resolve_in_step[OF d _ env] by blast
next
  case (Create i vals sh)
  with c obtain r where "create env i vals sh None d = Some (r, d')" by auto
  then show ?thesis using create_in_step[OF d _ env] by blast
next
  case (Enter gid i ip port ext remote invite)
  with c obtain r where "enter env gid i ip port ext remote invite d = Some (r, d')" by auto
  then show ?thesis using enter_cases[OF d _ env] by blast
qed (use c in_step_calls[OF d] in auto)

lemma game_run_in_step:
  "in_step d \<Longrightarrow> \<forall>(env, c) \<in> set cs. resolver_ok env \<Longrightarrow> game_run cs d = Some d' \<Longrightarrow> in_step d'"
proof (induction cs arbitrary: d)
  case (Cons x cs)
  obtain env c where x: "x = (env, c)" by (cases x)
  with Cons.prems(3) obtain e where e: "run_call env c d = Some e" "game_run cs e = Some d'" by (auto simp: bind_eq_Some_conv)
  have "in_step e" using run_call_in_step[OF Cons.prems(1) _ e(1)] Cons.prems(2) x by simp
  from Cons.IH[OF this _ e(2)] Cons.prems(2) show ?case by simp
qed simp

end
