(* ===== verification/RoomAllocation.thy ===== *)
theory RoomAllocation
  imports GameDirectory
begin

text \<open>
  The identifiers of a new room: its tick and its descriptor-handle range do not meet
  those of an active room, and the loops that look for them end in a directory of at most
  three million rooms.
\<close>

section \<open>Identifiers of a new room\<close>

lemma finite_used_ticks: "finite (used_ticks d)" "card (used_ticks d) \<le> length (gd_games d)"
proof -
  let ?l = "map (\<lambda>(k, g). int (umask 32 (cg_created_tick_ms g))) (filter (\<lambda>(k, g). cg_created_tick_ms g \<noteq> 0) (gd_games d))"
  have "card (set ?l) \<le> length ?l" by (rule card_length)
  also have "\<dots> \<le> length (gd_games d)" by simp
  finally show "finite (used_ticks d)" "card (used_ticks d) \<le> length (gd_games d)" unfolding used_ticks_code by simp_all
qed

lemma start_tick: "(let c = int (umask 32 ms) in if c = 0 then 1 else c) \<in> {1..0xFFFFFFFF}"
  using umask_less[of 32 ms] by (auto simp: Let_def)

lemma room_tick_fresh:
  "allocate_room_tick_ms ms d = Some t \<Longrightarrow> t \<notin> used_ticks d \<and> 1 \<le> t \<and> t \<le> 0xFFFFFFFF"
  using start_tick[of ms] by (auto simp: allocate_room_tick_ms_def Let_def split: if_splits dest!: next_free_result)

lemma room_tick_returns:
  assumes "length (gd_games d) < 0xFFFFFFFF"
  shows "allocate_room_tick_ms ms d \<noteq> None"
proof -
  define c where "c = (let c = int (umask 32 ms) in if c = 0 then 1 else c)"
  have "1 \<le> c" "c \<le> 0xFFFFFFFF" using start_tick[of ms] unfolding c_def by simp_all
  have "\<exists>x. 1 \<le> x \<and> x \<le> 0xFFFFFFFF \<and> x \<notin> used_ticks d"
    by (rule free_exists) (use finite_used_ticks[of d] assms in auto)
  then obtain x where "1 \<le> x" "x \<le> 0xFFFFFFFF" "\<not> (x \<in> used_ticks d \<or> x = 0)" by auto
  from next_free_terminates[where taken = "\<lambda>c. c \<in> used_ticks d \<or> c = 0", OF this \<open>1 \<le> c\<close> \<open>c \<le> 0xFFFFFFFF\<close>]
  show ?thesis by (auto simp: allocate_room_tick_ms_def Let_def c_def)
qed

text \<open>The walk over descriptor bases: up in steps of ten, then again from 100.\<close>

abbreviation in_space :: "int \<Rightarrow> int \<Rightarrow> bool" where
  "in_space slots b \<equiv> 10 \<le> b \<and> b + (slots - 1) * 10 \<le> 0xFFFFFFFF"

lemma wrap_base_space: "2 \<le> slots \<Longrightarrow> slots \<le> 64 \<Longrightarrow> 10 \<le> b \<Longrightarrow> in_space slots (wrap_base slots b)"
  by (auto simp: wrap_base_def)

definition base_distance :: "int \<Rightarrow> int \<Rightarrow> nat" where
  "base_distance x b = nat (if b \<le> x \<and> 10 dvd x - b then (x - b) div 10 else (0xFFFFFFFF - b) div 10 + 1 + (x - 100) div 10)"

lemma base_walk_decreases:
  assumes "2 \<le> slots" "slots \<le> 64" "in_space slots b" "in_space slots x" "b \<noteq> x" "100 \<le> x" "10 dvd x - 100"
  shows "base_distance x (wrap_base slots (b + 10)) < base_distance x b"
proof (cases "b \<le> x \<and> 10 dvd x - b")
  case True
  then obtain k where k: "x - b = 10 * k" "0 < k" using assms(5) by (auto elim!: dvdE)
  then have "wrap_base slots (b + 10) = b + 10" using assms by (auto simp: wrap_base_def)
  moreover have "base_distance x (b + 10) = nat (k - 1)"
  proof -
    have e: "x - (b + 10) = 10 * (k - 1)" "b + 10 \<le> x" using k by simp_all
    show ?thesis unfolding base_distance_def e(1) using e(2) by simp
  qed
  moreover have "base_distance x b = nat k" unfolding base_distance_def k(1) using True by simp
  ultimately show ?thesis using k(2) by simp
next
  case False
  have m: "0 \<le> (0xFFFFFFFF - b) div 10" "0 \<le> (x - 100) div 10" using assms by auto
  have far: "base_distance x b = nat ((0xFFFFFFFF - b) div 10 + 1 + (x - 100) div 10)"
    using False by (auto simp only: base_distance_def if_False)
  show ?thesis
  proof (cases "0xFFFFFFFF < b + 10 + (slots - 1) * 10")
    case True
    then have "wrap_base slots (b + 10) = 100" by (simp add: wrap_base_def)
    then show ?thesis using far m assms(6,7) by (simp add: base_distance_def[of x 100])
  next
    case stay: False
    have "\<not> (b + 10 \<le> x \<and> 10 dvd x - (b + 10))" using False by (auto simp: algebra_simps dvd_diff_commute dest: dvd_diff[where z = 10])
    then have "base_distance x (b + 10) = nat ((0xFFFFFFFF - (b + 10)) div 10 + 1 + (x - 100) div 10)"
      by (auto simp only: base_distance_def if_False)
    moreover have "(0xFFFFFFFF - (b + 10)) div 10 = (0xFFFFFFFF - b) div 10 - (1::int)" by simp
    moreover have "1 \<le> (0xFFFFFFFF - b) div (10::int)" using stay assms(1) by simp
    ultimately show ?thesis using far m(2) stay by (simp add: wrap_base_def)
  qed
qed

text \<open>A range of at most 64 handles rules out at most 127 bases for another.\<close>

lemma range_blocks:
  assumes "slots \<le> 64" "final - first \<le> (630::int)"
  shows "{k. \<not> (100 + 10 * k + (slots - 1) * 10 < first \<or> final < 100 + 10 * k)} \<subseteq> {(first - 730) div 10 .. (first - 730) div 10 + 126}"
proof
  fix k assume "k \<in> {k. \<not> (100 + 10 * k + (slots - 1) * 10 < first \<or> final < 100 + 10 * k)}"
  then have "first - 730 \<le> 10 * k" "10 * k \<le> first + 530" using assms by auto
  then have "(first - 730) div 10 \<le> k" "k \<le> (first + 530) div 10" by simp_all
  moreover have "(first + 530) div 10 = (first - 730) div 10 + 126" by simp
  ultimately show "k \<in> {(first - 730) div 10 .. (first - 730) div 10 + 126}" by simp
qed

lemma blocked_bases:
  assumes "slots \<le> 64" "\<forall>(first, final) \<in> set R. final - first \<le> 630"
  shows "finite {k. overlaps R slots (100 + 10 * k)} \<and> card {k. overlaps R slots (100 + 10 * k)} \<le> 127 * length R"
  using assms(2)
proof (induction R)
  case Nil
  then show ?case by (simp add: overlaps_def)
next
  case (Cons r R)
  obtain first final where r: "r = (first, final)" by (cases r)
  let ?A = "{k. \<not> (100 + 10 * k + (slots - 1) * 10 < first \<or> final < 100 + 10 * k)}"
  let ?I = "{(first - 730) div 10 .. (first - 730) div 10 + 126}"
  have sub: "?A \<subseteq> ?I" by (rule range_blocks[OF assms(1)]) (use Cons.prems r in simp)
  then have A: "finite ?A" "card ?A \<le> 127" using card_mono[OF _ sub] finite_subset[OF sub] by simp_all
  have "{k. overlaps (r # R) slots (100 + 10 * k)} = ?A \<union> {k. overlaps R slots (100 + 10 * k)}"
    by (auto simp: overlaps_def r)
  moreover have "card (?A \<union> {k. overlaps R slots (100 + 10 * k)}) \<le> 127 + 127 * length R"
    using card_Un_le[of ?A "{k. overlaps R slots (100 + 10 * k)}"] A Cons by simp
  ultimately show ?case using A Cons by simp
qed

lemma free_base:
  assumes "2 \<le> slots" "slots \<le> 64" "\<forall>(first, final) \<in> set R. final - first \<le> 630" "length R \<le> 3000000"
  shows "\<exists>x. in_space slots x \<and> 100 \<le> x \<and> 10 dvd x - 100 \<and> \<not> overlaps R slots x"
proof -
  note b = blocked_bases[OF assms(2,3)]
  have "\<not> {0 .. 429496655} \<subseteq> {k. overlaps R slots (100 + 10 * k)}"
  proof
    assume "{0 .. 429496655} \<subseteq> {k. overlaps R slots (100 + 10 * k)}"
    from card_mono[OF _ this] b assms(4) show False by simp
  qed
  then obtain k where "k \<in> {0 .. 429496655}" "k \<notin> {k. overlaps R slots (100 + 10 * k)}" by blast
  then have "0 \<le> k" "k \<le> 429496655" "\<not> overlaps R slots (100 + 10 * k)" by simp_all
  then show ?thesis using assms(1,2) by (intro exI[of _ "100 + 10 * k"]) simp
qed

lemma base_loop_returns:
  assumes "2 \<le> slots" "slots \<le> 64" "\<forall>(first, final) \<in> set R. final - first \<le> 630" "length R \<le> 3000000" "10 \<le> b"
  shows "\<exists>r. while_option (overlaps R slots) (\<lambda>b. wrap_base slots (b + 10)) (wrap_base slots b) = Some r \<and>
    \<not> overlaps R slots r \<and> in_space slots r"
proof -
  obtain x where x: "in_space slots x" "100 \<le> x" "10 dvd x - 100" "\<not> overlaps R slots x"
    using free_base[OF assms(1-4)] by blast
  have "\<exists>r. while_option (overlaps R slots) (\<lambda>b. wrap_base slots (b + 10)) (wrap_base slots b) = Some r"
  proof (rule measure_while_option_Some[where P = "in_space slots" and f = "base_distance x"])
    fix s assume s: "in_space slots s" "overlaps R slots s"
    then have "s \<noteq> x" using x(4) by auto
    with base_walk_decreases[OF assms(1,2) s(1) x(1) _ x(2,3)] wrap_base_space[OF assms(1,2), of "s + 10"] s(1)
    show "in_space slots (wrap_base slots (s + 10)) \<and> base_distance x (wrap_base slots (s + 10)) < base_distance x s" by simp
  qed (rule wrap_base_space[OF assms(1,2,5)])
  then obtain r where r: "while_option (overlaps R slots) (\<lambda>b. wrap_base slots (b + 10)) (wrap_base slots b) = Some r" ..
  moreover have "in_space slots r"
    by (rule while_option_rule[OF _ r]) (use wrap_base_space[OF assms(1,2)] assms(5) in auto)
  ultimately show ?thesis using while_option_stop[OF r] by blast
qed

text \<open>What a call to the allocators gives, and that a room can be built.\<close>

lemma handle_base_free:
  assumes "allocate_descriptor_handle_base capacity d = Some (base, d')"
  shows "\<not> overlaps (active_ranges d) (max 2 (min 64 capacity)) base \<and> in_space (max 2 (min 64 capacity)) base"
proof -
  let ?s = "max 2 (min 64 capacity)"
  have r: "while_option (overlaps (active_ranges d) ?s) (\<lambda>b. wrap_base ?s (b + 10)) (wrap_base ?s (max 10 (gd_next_descriptor_handle d))) = Some base"
    using assms by (auto simp: allocate_descriptor_handle_base_def Let_def)
  have "in_space ?s base" by (rule while_option_rule[OF _ r]) (use wrap_base_space[of ?s] in auto)
  with while_option_stop[OF r] show ?thesis by simp
qed

definition small_directory :: "game_directory \<Rightarrow> bool" where
  "small_directory d = (length (gd_games d) \<le> 3000000 \<and> (\<forall>(k, g) \<in> set (gd_games d).
     session_capacity (gd_sessions d) g \<le> 64 \<and> cg_descriptor_slot_capacity g \<le> 64))"

lemma small_ranges: "small_directory d \<Longrightarrow> \<forall>(first, final) \<in> set (active_ranges d). final - first \<le> 630"
  by (fastforce simp: small_directory_def active_ranges_def)

lemma handle_base_returns: "small_directory d \<Longrightarrow> allocate_descriptor_handle_base capacity d \<noteq> None"
proof -
  assume d: "small_directory d"
  have "length (active_ranges d) \<le> length (gd_games d)" by (simp add: active_ranges_def)
  with d base_loop_returns[of "max 2 (min 64 capacity)" "active_ranges d" "max 10 (gd_next_descriptor_handle d)", OF _ _ small_ranges[OF d]]
  show ?thesis by (auto simp: allocate_descriptor_handle_base_def Let_def small_directory_def)
qed

lemma build_room_returns:
  assumes "small_directory d"
  shows "build_room env i host sh request ps session m gid participants d \<noteq> None"
proof -
  from assms obtain t where "allocate_room_tick_ms (env_clock_ms env) d = Some t"
    using room_tick_returns[of d] by (auto simp: small_directory_def)
  with handle_base_returns[OF assms] show ?thesis by (simp add: build_room_def Let_def)
qed

text \<open>A new room's tick and handle range do not meet those of an active room.\<close>

lemma room_identifiers:
  assumes "build_room env i host sh request ps session m gid participants d = Some (g, d')"
  shows "cg_created_tick_ms g \<notin> used_ticks d \<and> 1 \<le> cg_created_tick_ms g \<and> cg_created_tick_ms g \<le> 0xFFFFFFFF \<and>
    \<not> overlaps (active_ranges d) (max 2 (min 64 (cg_descriptor_slot_capacity g))) (cg_descriptor_handle_base g) \<and>
    in_space (max 2 (min 64 (cg_descriptor_slot_capacity g))) (cg_descriptor_handle_base g)"
proof -
  obtain t base d1 where t: "allocate_room_tick_ms (env_clock_ms env) d = Some t"
    and h: "allocate_descriptor_handle_base (if sh \<and> get_or ps ''B-U-game_type'' '''' = ''2'' then 8 else m) d = Some (base, d1)"
    and g: "cg_created_tick_ms g = t" "cg_descriptor_handle_base g = base"
      "cg_descriptor_slot_capacity g = (if sh \<and> get_or ps ''B-U-game_type'' '''' = ''2'' then 8 else m)"
    using assms unfolding build_room_def Let_def by (clarsimp simp: bind_eq_Some_conv split del: if_split)
  from room_tick_fresh[OF t] handle_base_free[OF h] show ?thesis unfolding g by simp

qed

end
