(* ===== verification/GameDirectoryTotal.thy ===== *)
theory GameDirectoryTotal
  imports GameDirectoryRun RoomAllocation
begin

text \<open>
  Every call to the game directory returns: capacities stay at most eight, so handle
  ranges stay short, rooms hold at most nine players, and the allocation loops always find
  something free as long as the number of rooms is bounded.
\<close>

section \<open>Capacities and the number of rooms\<close>

definition caps_ok :: "session_directory \<Rightarrow> bool" where
  "caps_ok sd = (\<forall>(i, s) \<in> set (sd_games sd). gs_capacity s \<le> 8)"

lemma caps_written: "caps_ok sd \<Longrightarrow> gs_capacity s \<le> 8 \<Longrightarrow> caps_ok (sd\<lparr>sd_games := AList.update i s (sd_games sd)\<rparr>)"
  by (auto simp: caps_ok_def dest!: in_updateD)

lemma caps_removed: "caps_ok sd \<Longrightarrow> caps_ok (sd\<lparr>sd_games := AList.delete i (sd_games sd)\<rparr>)"
  by (auto simp: caps_ok_def dest!: in_deleteD)

lemma caps_member: "caps_ok sd \<Longrightarrow> map_of (sd_games sd) i = Some s \<Longrightarrow> gs_capacity s \<le> 8"
  by (auto simp: caps_ok_def dest!: map_of_SomeD)

lemma caps_join: "caps_ok sd \<Longrightarrow> caps_ok (fst (join_game sd i u pw))"
  using caps_member[of sd i] by (auto simp: join_game_def caps_written split: option.splits)

lemma caps_leave: "caps_ok sd \<Longrightarrow> caps_ok (fst (leave_game sd i u))"
  using caps_member[of sd i] by (auto simp: leave_game_def Let_def caps_written caps_removed split: option.splits)

lemma caps_leave_all: "caps_ok sd \<Longrightarrow> caps_ok (leave_all s ps sd)"
  unfolding leave_all_def by (induction ps arbitrary: sd) (auto simp: caps_leave)

lemma caps_close: "caps_ok sd \<Longrightarrow> caps_ok (fst (close_game sd i))"
  by (auto simp: close_game_def intro: caps_removed split: option.splits)

lemma caps_resize: "caps_ok sd \<Longrightarrow> c \<le> 8 \<Longrightarrow> caps_ok (fst (resize_game sd i c))"
  by (auto simp: resize_game_def intro: caps_written split: option.splits)

lemma caps_create:
  "caps_ok sd \<Longrightarrow> cap \<le> 8 \<Longrightarrow> create_game sd room owner cap mp vis pw inc = Inr (sd', s) \<Longrightarrow> caps_ok sd'"
  by (auto simp: create_game_def caps_ok_def Let_def dest!: in_updateD split: if_splits)

definition bounded_directory :: "nat \<Rightarrow> game_directory \<Rightarrow> bool" where
  "bounded_directory n d = (in_step d \<and> caps_ok (gd_sessions d) \<and> length (gd_games d) \<le> n \<and>
     (\<forall>(k, g) \<in> set (gd_games d). cg_descriptor_slot_capacity g \<le> 8))"

lemma bounded_step: "bounded_directory n d \<Longrightarrow> in_step d"
  by (simp add: bounded_directory_def)

lemma bounded_small: "bounded_directory n d \<Longrightarrow> n \<le> 3000000 \<Longrightarrow> small_directory d"
  unfolding bounded_directory_def small_directory_def session_capacity_def get_game_def
  by (fastforce dest: caps_member split: option.splits)

lemma length_update_known: "k \<in> fst ` set l \<Longrightarrow> length (AList.update k v l) = length l"
  by (induction l) auto

lemma known_key: "map_of l k = Some g \<Longrightarrow> k \<in> fst ` set l"
  by (force dest: map_of_SomeD)

text \<open>Writing a listed room, and removing one.\<close>

lemma bounded_written:
  assumes "bounded_directory n d" "map_of (gd_games d) (cg_gid g') = Some g"
    and "cg_descriptor_slot_capacity g' = cg_descriptor_slot_capacity g" "caps_ok sessions"
    and "in_step (store_game g' (d\<lparr>gd_sessions := sessions\<rparr>))"
  shows "bounded_directory n (store_game g' (d\<lparr>gd_sessions := sessions\<rparr>))"
proof -
  have "cg_descriptor_slot_capacity g' \<le> 8"
    using assms(1,2,3) by (auto simp: bounded_directory_def dest!: map_of_SomeD)
  then show ?thesis
    using assms(1,4,5) length_update_known[OF known_key[OF assms(2)]]
    by (auto simp: bounded_directory_def store_game_def dest!: in_updateD)
qed

lemma bounded_removed:
  assumes "bounded_directory n d" "caps_ok sessions" "in_step (d\<lparr>gd_sessions := sessions, gd_games := AList.delete k (gd_games d)\<rparr>)"
  shows "bounded_directory n (d\<lparr>gd_sessions := sessions, gd_games := AList.delete k (gd_games d)\<rparr>)"
  using assms length_delete_le[of k "gd_games d"] by (auto simp: bounded_directory_def dest!: in_deleteD)

section \<open>The operations keep the bound\<close>

lemma bounded_room: "bounded_directory n d \<Longrightarrow> map_of (gd_games d) k = Some g \<Longrightarrow> cg_gid g = k"
  using in_step_room[of d k g] by (simp add: bounded_directory_def room_ok_def)

lemma bounded_gate:
  assumes "bounded_directory n d" "map_of (gd_games d) k = Some g" "cg_gid g' = cg_gid g"
    and "cg_descriptor_slot_capacity g' = cg_descriptor_slot_capacity g" "in_step (store_game g' d)"
  shows "bounded_directory n (store_game g' d)"
proof -
  have "map_of (gd_games d) (cg_gid g') = Some g" using assms(2,3) bounded_room[OF assms(1,2)] by simp
  from bounded_written[OF assms(1) this assms(4), of "gd_sessions d"] assms(1,5)
  show ?thesis by (simp add: bounded_directory_def store_game_def)
qed

lemma bounded_lock: "bounded_directory n d \<Longrightarrow> bounded_directory n (snd (set_quick_join_locked gid locked d))"
  using set_quick_join_locked_in_step[OF bounded_step, of n d gid locked]
  by (auto simp: set_quick_join_locked_def intro: bounded_gate split: option.splits)

lemma bounded_ready: "bounded_directory n d \<Longrightarrow> bounded_directory n (snd (set_challenge_ready gid ready d))"
  using set_challenge_ready_in_step[OF bounded_step, of n d gid ready]
  by (auto simp: set_challenge_ready_def Let_def intro: bounded_gate split: option.splits)

lemma bounded_invite: "bounded_directory n d \<Longrightarrow> bounded_directory n (snd (mark_invite_entry_complete gid user d))"
  using mark_invite_in_step[OF bounded_step, of n d gid user]
  by (auto simp: mark_invite_entry_complete_def Let_def intro: bounded_gate split: option.splits)

lemma bounded_sessions:
  "bounded_directory n d \<Longrightarrow> in_step (d\<lparr>gd_sessions := sessions\<rparr>) \<Longrightarrow> caps_ok sessions \<Longrightarrow> bounded_directory n (d\<lparr>gd_sessions := sessions\<rparr>)"
  by (simp add: bounded_directory_def)

lemma bounded_capacity:
  assumes b: "bounded_directory n d"
  shows "bounded_directory n (snd (set_authoritative_capacity gid c d))"
proof (cases "map_of (gd_games d) gid")
  case (Some g)
  define applied where "applied = min 8 (max 2 (max (int (length (cg_participants g))) c))"
  define x where "x = resize_game (gd_sessions d) (cg_session g) applied"
  have caps: "caps_ok (fst x)" using caps_resize[of "gd_sessions d" applied] b by (simp add: x_def applied_def bounded_directory_def)
  have k: "map_of (gd_games d) (cg_gid g) = Some g" using bounded_room[OF b Some] Some by simp
  have eq: "snd (set_authoritative_capacity gid c d) = (if \<not> snd x then d\<lparr>gd_sessions := fst x\<rparr>
      else store_game (g\<lparr>cg_properties := AList.update ''B-U-max_online_player'' (show_int applied) (cg_properties g)\<rparr>) (d\<lparr>gd_sessions := fst x\<rparr>))"
    by (simp add: set_authoritative_capacity_def Some applied_def[symmetric] x_def Let_def case_prod_beta)
  have "in_step (snd (set_authoritative_capacity gid c d))" by (rule capacity_in_step[OF bounded_step[OF b]])
  then show ?thesis unfolding eq using bounded_sessions[OF b _ caps] bounded_written[OF b _ _ caps] k
    by (simp split: if_splits)
qed (use b in \<open>simp add: set_authoritative_capacity_def\<close>)

lemma bounded_retire: "bounded_directory n d \<Longrightarrow> bounded_directory n (snd (retire gid d))"
  using retire_in_step[OF bounded_step, of n d gid]
  by (auto simp: retire_def intro!: bounded_removed caps_close caps_leave_all split: option.splits)
    (simp add: bounded_directory_def)

lemma bounded_leave:
  assumes b: "bounded_directory n d"
  shows "bounded_directory n (snd (leave gid user d))"
proof (cases "map_of (gd_games d) gid")
  case (Some g)
  have k: "map_of (gd_games d) (cg_gid g) = Some g" using bounded_room[OF b Some] Some by simp
  have caps: "caps_ok (fst (leave_game (gd_sessions d) s u))" for s u
    using b by (simp add: bounded_directory_def caps_leave)
  have "in_step (snd (leave gid user d))" by (rule leave_in_step[OF bounded_step[OF b]])
  then show ?thesis using b
    by (cases "map_of (cg_participants g) user")
      (auto simp: leave_def Some Let_def k caps caps_leave_all intro!: bounded_removed bounded_written[OF b])
qed (use b in \<open>simp add: leave_def\<close>)

text \<open>Leaving the other rooms removes rooms or rewrites them, and nothing else.\<close>

lemma leave_step_caps:
  "caps_ok (gd_sessions d) \<Longrightarrow> cg_descriptor_slot_capacity g \<le> 8 \<Longrightarrow> \<forall>(k, g) \<in> set (gd_games d). cg_descriptor_slot_capacity g \<le> 8 \<Longrightarrow>
   caps_ok (gd_sessions (leave_step gid user g d)) \<and> (\<forall>(k, g) \<in> set (gd_games (leave_step gid user g d)). cg_descriptor_slot_capacity g \<le> 8)"
  by (auto simp: leave_step_def leave_one_def store_game_def Let_def caps_leave dest!: in_updateD in_deleteD split: option.splits)

lemma leave_fold_caps:
  "\<forall>(k, g) \<in> set l. cg_descriptor_slot_capacity g \<le> 8 \<Longrightarrow> caps_ok (gd_sessions e) \<Longrightarrow>
   \<forall>(k, g) \<in> set (gd_games e). cg_descriptor_slot_capacity g \<le> 8 \<Longrightarrow>
   caps_ok (gd_sessions (fold (\<lambda>(k, g). leave_step gid user g) l e)) \<and>
   (\<forall>(k, g) \<in> set (gd_games (fold (\<lambda>(k, g). leave_step gid user g) l e)). cg_descriptor_slot_capacity g \<le> 8)"
proof (induction l arbitrary: e)
  case (Cons x l)
  obtain k g where x: "x = (k, g)" by (cases x)
  have g: "cg_descriptor_slot_capacity g \<le> 8" using Cons.prems(1) x by simp
  note s = leave_step_caps[OF Cons.prems(2) g Cons.prems(3), of gid user]
  have "\<forall>(k, g) \<in> set l. cg_descriptor_slot_capacity g \<le> 8" using Cons.prems(1) by simp
  from Cons.IH[OF this conjunct1[OF s] conjunct2[OF s]] show ?case by (simp add: x)
qed simp

lemmas leave_previous_caps = leave_fold_caps[of "gd_games d" d gid user for d gid user, folded leave_previous_def]

lemma fewer_keys: "distinct (map fst l) \<Longrightarrow> fst ` set l \<subseteq> fst ` set m \<Longrightarrow> length l \<le> length m"
  using card_mono[of "fst ` set m" "fst ` set l"] distinct_card[of "map fst l"] card_length[of "map fst m"] by simp

lemma bounded_leave_previous:
  assumes b: "bounded_directory n d"
  shows "bounded_directory n (leave_previous gid user d)"
proof -
  note d = bounded_step[OF b]
  have dist: "distinct (map fst (gd_games d))" using d by (simp add: in_step_def)
  have "\<forall>(k, g) \<in> set (gd_games d). map_of (gd_games d) k = Some g" using dist by auto
  note f = leave_fold[OF d dist this, of gid user, folded leave_previous_def]
  have "fst ` set (gd_games (leave_previous gid user d)) \<subseteq> fst ` set (gd_games d)"
  proof
    fix k assume "k \<in> fst ` set (gd_games (leave_previous gid user d))"
    then have "map_of (gd_games (leave_previous gid user d)) k \<noteq> None" by (simp add: map_of_eq_None_iff)
    then show "k \<in> fst ` set (gd_games d)" using f by (metis map_of_eq_None_iff)
  qed
  moreover have "distinct (map fst (gd_games (leave_previous gid user d)))" using f by (simp add: in_step_def)
  ultimately have "length (gd_games (leave_previous gid user d)) \<le> length (gd_games d)" by (rule fewer_keys[rotated])
  with b f leave_previous_caps[of d gid user] show ?thesis by (simp add: bounded_directory_def)
qed

lemma enter_shape:
  assumes "enter env gid i ip port ext remote invite d = Some (r, d')" "map_of (gd_games d) gid = Some g" "cg_gid g = gid"
  defines "d1 \<equiv> leave_previous gid (id_user_id i) d"
  shows "\<exists>sessions ps. (sessions = gd_sessions d1 \<or> sessions = fst (join_game (gd_sessions d1) (cg_session g) (id_user_id i) [])) \<and>
    (d' = d1\<lparr>gd_sessions := sessions\<rparr> \<or> d' = store_game (g\<lparr>cg_participants := ps\<rparr>) (d1\<lparr>gd_sessions := sessions\<rparr>))"
proof (cases "map_of (cg_participants g) (id_user_id i)")
  case (Some existing)
  with assms have "\<exists>ps. d' = store_game (g\<lparr>cg_participants := ps\<rparr>) (d1\<lparr>gd_sessions := gd_sessions d1\<rparr>)"
    by (auto simp: enter_def Let_def)
  then show ?thesis by blast
next
  case None
  show ?thesis
  proof (cases "cg_quick_join_locked g \<and> cg_allocator_user_id g \<noteq> Some (id_user_id i) \<and> \<not> invite")
    case True
    with assms None have "d' = d1\<lparr>gd_sessions := gd_sessions d1\<rparr>" by (auto simp: enter_def Let_def)
    then show ?thesis by blast
  next
    case False
    let ?s = "fst (join_game (gd_sessions d1) (cg_session g) (id_user_id i) [])"
    have "d' = d1\<lparr>gd_sessions := ?s\<rparr> \<or> (\<exists>ps. d' = store_game (g\<lparr>cg_participants := ps\<rparr>) (d1\<lparr>gd_sessions := ?s\<rparr>))"
      using assms None False
      by (auto simp: enter_def Let_def case_prod_beta split: option.splits sum.splits if_splits)
    then show ?thesis by blast
  qed
qed

lemma bounded_enter:
  assumes b: "bounded_directory n d" and e: "enter env gid i ip port ext remote invite d = Some (r, d')" and env: "resolver_ok env"
  shows "bounded_directory n d'"
proof (cases "map_of (gd_games d) gid")
  case None
  with e b show ?thesis by (simp add: enter_def)
next
  case (Some g)
  note k = bounded_room[OF b Some]
  define d1 where "d1 = leave_previous gid (id_user_id i) d"
  have b1: "bounded_directory n d1" unfolding d1_def by (rule bounded_leave_previous[OF b])
  have g1: "map_of (gd_games d1) gid = Some g" unfolding d1_def using leave_previous_in_step(2)[OF bounded_step[OF b]] Some by simp
  have step: "in_step d'" using enter_cases[OF bounded_step[OF b] e env] by blast
  obtain sessions ps where s: "sessions = gd_sessions d1 \<or> sessions = fst (join_game (gd_sessions d1) (cg_session g) (id_user_id i) [])"
    and d': "d' = d1\<lparr>gd_sessions := sessions\<rparr> \<or> d' = store_game (g\<lparr>cg_participants := ps\<rparr>) (d1\<lparr>gd_sessions := sessions\<rparr>)"
    using enter_shape[OF e Some k, folded d1_def] by blast
  have caps: "caps_ok sessions" using s b1 by (auto simp: bounded_directory_def caps_join)
  from d' show ?thesis
  proof
    assume "d' = d1\<lparr>gd_sessions := sessions\<rparr>"
    with bounded_sessions[OF b1 _ caps] step show ?thesis by simp
  next
    assume d': "d' = store_game (g\<lparr>cg_participants := ps\<rparr>) (d1\<lparr>gd_sessions := sessions\<rparr>)"
    have "map_of (gd_games d1) (cg_gid (g\<lparr>cg_participants := ps\<rparr>)) = Some g" using g1 k by simp
    from bounded_written[OF b1 this _ caps] step show ?thesis unfolding d' by simp
  qed
qed

section \<open>Creating\<close>

lemma positive_int_range: "minimum \<le> dflt \<Longrightarrow> dflt \<le> maximum \<Longrightarrow>
  minimum \<le> positive_int s dflt minimum maximum \<and> positive_int s dflt minimum maximum \<le> maximum"
  by (auto simp: positive_int_def split: option.splits)

lemma creation_capacity:
  "creation_properties pick vals sh request = Inr (ps, m) \<Longrightarrow> 2 \<le> m \<and> m \<le> 8"
  using positive_int_range[of 2 8 8] by (auto simp: creation_properties_def Let_def split: if_splits sum.splits)

lemma player_id_first: "\<exists>x. player_id env i {} = Some x"
  by (auto simp: player_id_def split: option.splits)

text \<open>The three outcomes of a creation.\<close>

lemma create_shape:
  assumes "creation_properties (env_pick env) vals sh (case request of Some r \<Rightarrow> r | None \<Rightarrow> parse_request vals) = Inr (ps, m)"
  shows "(\<exists>e. create env i vals sh request d = Some (Inl e, d\<lparr>gd_next_gid := gd_next_gid d + 1\<rparr>)) \<or>
    (\<exists>owner inc sessions s. create_game (gd_sessions d) 257 owner m 2 PUBLIC [] inc = Inr (sessions, s) \<and>
      ((\<exists>e. create env i vals sh request d = Some (Inl e, d\<lparr>gd_next_gid := gd_next_gid d + 1, gd_sessions := sessions\<rparr>)) \<or>
       (\<exists>host req props gid participants. create env i vals sh request d = map_option (\<lambda>(g, d). (Inr g, d))
          (build_room env i host sh req props (gs_id s) m gid participants (d\<lparr>gd_next_gid := gd_next_gid d + 1, gd_sessions := sessions\<rparr>)))))"
proof (cases "create_game (gd_sessions d) 257 (id_user_id (room_host i sh d)) m 2 PUBLIC [] (\<not> sh)")
  case (Inl e)
  with assms show ?thesis by (auto simp: create_def Let_def)
next
  case (Inr x)
  obtain sessions s where x: "x = (sessions, s)" by (cases x)
  obtain y where y: "player_id env i {} = Some y" using player_id_first by blast
  define d1 where "d1 = d\<lparr>gd_next_gid := gd_next_gid d + 1, gd_sessions := sessions\<rparr>"
  define gid where "gid = show_int (gd_next_gid d + 1)"
  define build where "build = (\<lambda>participants. map_option (\<lambda>(g, d). (Inr g :: game_error + carbon_game, d))
    (build_room env i (room_host i sh d) sh (case request of Some r \<Rightarrow> r | None \<Rightarrow> parse_request vals)
      (room_properties d1 gid vals ps sh) (gs_id s) m gid participants d1))"
  have "create env i vals sh request d = (if sh then build [] else (case y of Inl e \<Rightarrow> Some (Inl e, d1)
      | Inr pid \<Rightarrow> build [(id_user_id i, new_participant env i pid)]))"
    using assms Inr x y by (cases y) (simp_all add: create_def Let_def build_def d1_def gid_def)
  then have "(\<exists>e. create env i vals sh request d = Some (Inl e, d1)) \<or> (\<exists>participants. create env i vals sh request d = build participants)"
    by (auto split: sum.splits if_splits)
  then show ?thesis using Inr x unfolding build_def d1_def by blast
qed

lemma built_pair: "map_option (\<lambda>(g, d). (Inr g, d)) x = Some (r, d') \<Longrightarrow> \<exists>g. x = Some (g, d')"
  by auto

lemma bounded_gid: "bounded_directory n d \<Longrightarrow> bounded_directory n (d\<lparr>gd_next_gid := gd_next_gid d + 1\<rparr>)"
  by (simp add: bounded_directory_def in_step_gid)

lemma build_room_slots:
  "build_room env i host sh request ps session m gid participants d = Some (g, d') \<Longrightarrow> m \<le> 8 \<Longrightarrow>
   cg_descriptor_slot_capacity g \<le> 8"
  unfolding build_room_def Let_def by (clarsimp simp: bind_eq_Some_conv)

lemma length_update_le: "length (AList.update k v l) \<le> Suc (length l)"
  by (induction l) auto

lemma bounded_create:
  assumes b: "bounded_directory n d" and c: "create env i vals sh request d = Some (r, d')" and env: "resolver_ok env"
  shows "bounded_directory (Suc n) d'"
proof (cases "creation_properties (env_pick env) vals sh (case request of Some r \<Rightarrow> r | None \<Rightarrow> parse_request vals)")
  case (Inl e)
  with c b show ?thesis by (auto simp: create_def bounded_directory_def)
next
  case (Inr x)
  obtain ps m where "x = (ps, m)" by (cases x)
  with Inr have p: "creation_properties (env_pick env) vals sh (case request of Some r \<Rightarrow> r | None \<Rightarrow> parse_request vals) = Inr (ps, m)" by simp
  have m: "m \<le> 8" using creation_capacity[OF p] by simp
  have step: "in_step d'" using create_in_step[OF bounded_step[OF b] c env] by blast
  have caps: "caps_ok sessions" if "create_game (gd_sessions d) 257 owner m 2 PUBLIC [] inc = Inr (sessions, s)" for owner inc sessions s
    using caps_create[OF _ m that] b by (simp add: bounded_directory_def)
  have "d' = d\<lparr>gd_next_gid := gd_next_gid d + 1\<rparr> \<or>
    (\<exists>sessions. caps_ok sessions \<and> (d' = d\<lparr>gd_next_gid := gd_next_gid d + 1, gd_sessions := sessions\<rparr> \<or>
      (\<exists>host req props s gid participants g. build_room env i host sh req props s m gid participants
        (d\<lparr>gd_next_gid := gd_next_gid d + 1, gd_sessions := sessions\<rparr>) = Some (g, d'))))"
    using create_shape[OF p, of i d]
  proof (elim disjE exE conjE)
    fix owner inc sessions s host req props gid participants
    assume s: "create_game (gd_sessions d) 257 owner m 2 PUBLIC [] inc = Inr (sessions, s)"
      and made: "create env i vals sh request d = map_option (\<lambda>(g, d). (Inr g, d))
        (build_room env i host sh req props (gs_id s) m gid participants (d\<lparr>gd_next_gid := gd_next_gid d + 1, gd_sessions := sessions\<rparr>))"
    have "\<exists>g. build_room env i host sh req props (gs_id s) m gid participants (d\<lparr>gd_next_gid := gd_next_gid d + 1, gd_sessions := sessions\<rparr>) = Some (g, d')"
      by (rule built_pair[of _ r d']) (use c made in simp)
    with caps[OF s] show ?thesis by blast
  next
    fix owner inc sessions s e
    assume s: "create_game (gd_sessions d) 257 owner m 2 PUBLIC [] inc = Inr (sessions, s)"
      and "create env i vals sh request d = Some (Inl e, d\<lparr>gd_next_gid := gd_next_gid d + 1, gd_sessions := sessions\<rparr>)"
    then have "d' = d\<lparr>gd_next_gid := gd_next_gid d + 1, gd_sessions := sessions\<rparr>" using c by simp
    with caps[OF s] show ?thesis by blast
  qed (use c in simp)
  then consider "d' = d\<lparr>gd_next_gid := gd_next_gid d + 1\<rparr>"
    | sessions where "caps_ok sessions" "d' = d\<lparr>gd_next_gid := gd_next_gid d + 1, gd_sessions := sessions\<rparr>"
    | sessions host req props s gid participants g where "caps_ok sessions" "build_room env i host sh req props s m gid participants
        (d\<lparr>gd_next_gid := gd_next_gid d + 1, gd_sessions := sessions\<rparr>) = Some (g, d')"
    by blast
  then show ?thesis
  proof cases
    case 1
    with bounded_gid[OF b] show ?thesis by (simp add: bounded_directory_def)
  next
    case 2
    with b step show ?thesis by (simp add: bounded_directory_def)
  next
    case 3
    obtain h where "d' = d\<lparr>gd_next_gid := gd_next_gid d + 1, gd_sessions := sessions, gd_next_descriptor_handle := h,
        gd_games := AList.update gid g (gd_games d)\<rparr>" using room_made[OF 3(2)] by auto
    with b step 3(1) build_room_slots[OF 3(2) m] length_update_le[of gid g "gd_games d"] show ?thesis
      by (auto simp: bounded_directory_def dest!: in_updateD)
  qed
qed

lemma create_returns:
  assumes b: "bounded_directory n d" and n: "n \<le> 3000000"
  shows "create env i vals sh request d \<noteq> None"
proof (cases "creation_properties (env_pick env) vals sh (case request of Some r \<Rightarrow> r | None \<Rightarrow> parse_request vals)")
  case (Inl e)
  then show ?thesis by (simp add: create_def)
next
  case (Inr x)
  obtain ps m where "x = (ps, m)" by (cases x)
  with Inr have p: "creation_properties (env_pick env) vals sh (case request of Some r \<Rightarrow> r | None \<Rightarrow> parse_request vals) = Inr (ps, m)" by simp
  have "small_directory (d\<lparr>gd_next_gid := gd_next_gid d + 1, gd_sessions := sessions\<rparr>)"
    if "create_game (gd_sessions d) 257 owner m 2 PUBLIC [] inc = Inr (sessions, s)" for owner inc sessions s
  proof -
    have "caps_ok sessions" using caps_create[OF _ _ that] creation_capacity[OF p] b by (simp add: bounded_directory_def)
    with b n show ?thesis
      unfolding bounded_directory_def small_directory_def session_capacity_def get_game_def
      by (fastforce dest: caps_member split: option.splits)
  qed
  with create_shape[OF p, of i d] build_room_returns show ?thesis by fastforce
qed

section \<open>Every run returns\<close>

lemma bounded_players:
  assumes b: "bounded_directory n d" and g: "map_of (gd_games d) k = Some g"
  shows "length (cg_participants g) \<le> 9"
proof -
  note d = bounded_step[OF b]
  have m: "game_members (gd_sessions d) (cg_session g) = Some (roster g)" by (rule in_step_members[OF d g])
  then obtain s where s: "map_of (sd_games (gd_sessions d)) (cg_session g) = Some s" "gs_participants s = roster g"
    by (auto simp: game_members_def)
  have "int (fcard (roster g |-| {|gs_owner s|})) \<le> 8"
    using directory_gameD[OF in_step_sound[OF d] s(1)] caps_member[OF _ s(1)] b s(2) by (auto simp: game_wf_def bounded_directory_def)
  moreover have "fcard (roster g) \<le> Suc (fcard (roster g |-| {|gs_owner s|}))"
  proof -
    have "fcard (roster g) \<le> fcard (finsert (gs_owner s) (roster g |-| {|gs_owner s|}))" by (rule fcard_mono) auto
    also have "\<dots> = Suc (fcard (roster g |-| {|gs_owner s|}))" by (rule fcard_finsert_disjoint) simp
    finally show ?thesis .
  qed
  moreover have "fcard (roster g) = length (cg_participants g)"
  proof -
    have "distinct (map fst (cg_participants g))" using in_step_room[OF d g] by (simp add: room_ok_def players_ok_def)
    then show ?thesis using distinct_card[of "map fst (cg_participants g)"] by (simp add: roster_def roster_of_def fcard.rep_eq fset_of_list.rep_eq)
  qed
  ultimately show ?thesis by linarith
qed

lemma player_id_returns:
  assumes "resolver_ok env" "finite used" "card used \<le> 9"
  shows "player_id env i used \<noteq> None"
proof -
  have "\<exists>r. next_free MAX_CARBON_WIRE_PLAYER_ID (\<lambda>c. c \<in> used) c = Some r" if "1 \<le> c" "c \<le> MAX_CARBON_WIRE_PLAYER_ID" for c
    using next_free_total[of used MAX_CARBON_WIRE_PLAYER_ID c "\<lambda>c. c \<in> used"] assms(2,3) that
    by (auto simp: MAX_CARBON_WIRE_PLAYER_ID_def)
  with assms(1) show ?thesis
    by (auto simp: player_id_def resolver_ok_def MAX_CARBON_WIRE_PLAYER_ID_def split: option.splits)
qed

lemma enter_returns:
  assumes b: "bounded_directory n d" and env: "resolver_ok env"
  shows "enter env gid i ip port ext remote invite d \<noteq> None"
proof (cases "map_of (gd_games d) gid")
  case (Some g)
  define used where "used = set (map (\<lambda>(k, p). cp_player_id p) (cg_participants g))"
  have "card used \<le> 9" using card_length[of "map (\<lambda>(k, p). cp_player_id p) (cg_participants g)"] bounded_players[OF b Some]
    by (simp add: used_def)
  then have "player_id env i used \<noteq> None" by (intro player_id_returns[OF env]) (simp_all add: used_def)
  then obtain x where "player_id env i ((\<lambda>x. cp_player_id (snd x)) ` set (cg_participants g)) = Some x"
    by (auto simp: used_def case_prod_beta)
  then show ?thesis
    by (auto simp: enter_def Some Let_def case_prod_beta split: option.splits sum.splits)
qed (simp add: enter_def)

lemma resolve_returns: "bounded_directory n d \<Longrightarrow> n \<le> 3000000 \<Longrightarrow> resolve_play_now env i fs d \<noteq> None"
  using create_returns[of n d env i]
  by (simp add: resolve_play_now_def Let_def split: option.split del: not_None_eq)

lemma bounded_later: "bounded_directory n d \<Longrightarrow> bounded_directory (Suc n) d"
  by (simp add: bounded_directory_def)

lemma call_returns:
  assumes b: "bounded_directory n d" and n: "n \<le> 3000000" and env: "resolver_ok env"
  shows "\<exists>d'. run_call env c d = Some d' \<and> bounded_directory (Suc n) d'"
proof -
  have keeps: "bounded_directory (Suc n) d'" if "run_call env c d = Some d'" for d'
  proof (cases c)
    case (Play_Now i fs)
    with that obtain r where "resolve_play_now env i fs d = Some (r, d')" by auto
    from resolve_state[OF this] show ?thesis
      using bounded_create[OF b _ env] bounded_later[OF b] by (metis prod.collapse)
  next
    case (Create i vals sh)
    with that obtain r where "create env i vals sh None d = Some (r, d')" by auto
    then show ?thesis using bounded_create[OF b _ env] by blast
  next
    case (Enter gid i ip port ext remote invite)
    with that obtain r where "enter env gid i ip port ext remote invite d = Some (r, d')" by auto
    then show ?thesis using bounded_later[OF bounded_enter[OF b _ env]] by blast
  qed (use that bounded_later[OF bounded_lock[OF b]] bounded_later[OF bounded_ready[OF b]] bounded_later[OF bounded_invite[OF b]]
      bounded_later[OF bounded_capacity[OF b]] bounded_later[OF bounded_retire[OF b]] bounded_later[OF bounded_leave[OF b]] in auto)
  moreover have "run_call env c d \<noteq> None"
    using create_returns[OF b n] enter_returns[OF b env] resolve_returns[OF b n] by (cases c) auto
  ultimately show ?thesis by blast
qed

lemma new_bounded: "bounded_directory 0 (new_game_directory endpoint local_endpoint ekey huid before after)"
  using new_in_step by (simp add: bounded_directory_def) (simp add: new_game_directory_def new_directory_def caps_ok_def)

lemma run_returns:
  "bounded_directory n d \<Longrightarrow> n + length cs \<le> 3000000 \<Longrightarrow> \<forall>(env, c) \<in> set cs. resolver_ok env \<Longrightarrow>
   \<exists>d'. game_run cs d = Some d' \<and> bounded_directory (n + length cs) d'"
proof (induction cs arbitrary: n d)
  case (Cons x cs)
  obtain env c where x: "x = (env, c)" by (cases x)
  obtain e where e: "run_call env c d = Some e" "bounded_directory (Suc n) e"
    using call_returns[OF Cons.prems(1), of env c] Cons.prems(2,3) x by auto
  from Cons.IH[OF e(2)] Cons.prems(2,3) show ?case by (simp add: x e(1))
qed simp

end
