(* ===== verification/GameDirectoryProps.thy ===== *)
theory GameDirectoryProps
  imports GameDirectoryTotal
begin

text \<open>
  The properties of the Carbon game directory: its invariant over every run, where a player
  is after entering and leaving, what a search returns, what the gates refuse, that the
  identifiers of a new room are fresh and their allocation ends, and that tickets resolve.
\<close>

section \<open>The invariant\<close>

text \<open>
  C18. From an empty directory, whatever calls are made in whatever order (with a player-id
  resolver that keeps its documented range), the rooms stay in step with the neutral
  sessions: room ids are distinct and were handed out, every room has its own session, the
  sessions' members are exactly the rooms' players, and player ids are distinct in a room
  and within 1..32767.
\<close>

theorem game_directory_invariant:
  assumes "\<forall>(env, c) \<in> set cs. resolver_ok env"
    and "game_run cs (new_game_directory endpoint local_endpoint ekey huid before after) = Some d"
  shows "in_step d"
  by (rule game_run_in_step[OF new_in_step assms])

definition ann :: identity where
  "ann = \<lparr>id_account_name = ''ann'', id_persona = ''Ann'', id_profile_id = 1, id_user_id = 11\<rparr>"

definition bob :: identity where
  "bob = \<lparr>id_account_name = ''bob'', id_persona = ''Bob'', id_profile_id = 2, id_user_id = 22\<rparr>"

definition plain_env :: environment where
  "plain_env = \<lparr>env_pick = (\<lambda>s. ''1''), env_player_id_resolver = None, env_uuid = ''u'', env_clock_ms = 7, env_clock = 0\<rparr>"

definition empty_directory :: game_directory where
  "empty_directory = new_game_directory (''h'', 1) None ''k'' 5 False True"

definition two_room_calls :: "(environment \<times> game_call) list" where
  "two_room_calls = [(plain_env, Create ann [] False), (plain_env, Create bob [] False),
     (plain_env, Enter ''235279'' bob ''i'' 1 ''x'' 0 False), (plain_env, Leave ''235279'' 11)]"

lemma plain_resolver: "resolver_ok plain_env"
  by (simp add: resolver_ok_def plain_env_def)

lemma two_room_resolvers: "\<forall>(env, c) \<in> set two_room_calls. resolver_ok env"
  by (simp add: two_room_calls_def plain_resolver)

lemma two_room_length: "length two_room_calls = 4"
  by (simp add: two_room_calls_def)

theorem game_directory_invariant_witness:
  "\<exists>d. game_run two_room_calls empty_directory = Some d \<and> in_step d"
proof -
  obtain d where d: "game_run two_room_calls empty_directory = Some d"
    using run_returns[OF new_bounded _ two_room_resolvers] two_room_length unfolding empty_directory_def by fastforce
  from game_directory_invariant[OF two_room_resolvers d[unfolded empty_directory_def]] d show ?thesis by blast
qed

text \<open>
  C19. The server's allocation loops end: every run of at most three million calls returns,
  in whatever order, with rooms, room ticks, descriptor handles and player ids allocated by
  the \<open>while\<close> loops of the code.
\<close>

theorem game_runs_return:
  assumes "length cs \<le> 3000000" and "\<forall>(env, c) \<in> set cs. resolver_ok env"
  shows "\<exists>d. game_run cs (new_game_directory endpoint local_endpoint ekey huid before after) = Some d"
  using run_returns[OF new_bounded _ assms(2), of endpoint local_endpoint ekey huid before after] assms(1) by auto

theorem game_runs_return_witness: "\<exists>d. game_run two_room_calls empty_directory = Some d"
  unfolding empty_directory_def
  by (rule game_runs_return[OF _ two_room_resolvers]) (simp add: two_room_length)

section \<open>Entering and leaving\<close>

text \<open>
  C20. A player who entered a room is in that room with the returned record and in no other:
  entering takes the player out of every other room first.  The room's session counts the
  player as well.
\<close>

theorem entered_player_in_one_room:
  assumes d: "in_step d" and env: "resolver_ok env"
    and e: "enter env gid i ip port ext remote invite d = Some (Inr (Some p), d')"
  shows "\<exists>g. map_of (gd_games d') gid = Some g \<and> map_of (cg_participants g) (id_user_id i) = Some p \<and>
      (\<exists>m. game_members (gd_sessions d') (cg_session g) = Some m \<and> id_user_id i |\<in>| m) \<and>
      (\<forall>j h. map_of (gd_games d') j = Some h \<and> j \<noteq> gid \<longrightarrow> map_of (cg_participants h) (id_user_id i) = None)"
proof -
  note c = enter_cases[OF d e env]
  then obtain g where g: "map_of (gd_games d') gid = Some g" "map_of (cg_participants g) (id_user_id i) = Some p" by blast
  moreover have "game_members (gd_sessions d') (cg_session g) = Some (roster g)" using in_step_members[OF _ g(1)] c by blast
  moreover have "id_user_id i |\<in>| roster g" unfolding roster_def by (rule roster_member[OF g(2)])
  ultimately show ?thesis using c by blast
qed

text \<open>One room with its host, written out.\<close>

definition ann_session :: game_session where
  "ann_session = \<lparr>gs_id = 1, gs_room = 257, gs_owner = 11, gs_capacity = 8, gs_min_players = 2, gs_visibility = PUBLIC,
     gs_password = [], gs_state = SS_OPEN, gs_participants = {|11|}\<rparr>"

definition ann_player :: carbon_participant where
  "ann_player = \<lparr>cp_identity = ann, cp_player_id = 1, cp_internal_ip = ''0.0.0.0'', cp_internal_port = 0,
     cp_invite_remote_player_id = 0, cp_entered_at = 0, cp_external_ip = ''''\<rparr>"

definition ann_room :: carbon_game where
  "ann_room = \<lparr>cg_gid = ''235279'', cg_ugid = ''u'', cg_lobby_id = ''257'', cg_session = 1, cg_host = ann, cg_properties = [],
     cg_participants = [(11, ann_player)], cg_completed_invite_entries = {||}, cg_server_hosted = False,
     cg_allocator_user_id = None, cg_coop_match_help_type = None, cg_quick_join_locked = False, cg_challenge_ready = False,
     cg_created_tick_ms = 7, cg_descriptor_handle_base = 100, cg_descriptor_slot_capacity = 8, cg_created_at = 0\<rparr>"

definition ann_directory :: game_directory where
  "ann_directory = empty_directory\<lparr>gd_next_gid := 235279, gd_next_descriptor_handle := 180,
     gd_sessions := new_directory\<lparr>sd_games := [(1, ann_session)], sd_next_game := 2\<rparr>, gd_games := [(''235279'', ann_room)]\<rparr>"

lemma ann_gid: "show_int 235279 = ''235279''"
  by (simp add: show_int_def show_nat.simps digit_def char_of_def bit_0)

lemma ann_in_step: "in_step ann_directory"
proof -
  have "room_ok 235279 ''235279'' ann_room"
    unfolding room_ok_def ann_gid[symmetric]
    by (auto simp: ann_room_def ann_gid[symmetric] players_ok_def ann_player_def ann_def MAX_CARBON_WIRE_PLAYER_ID_def)
  moreover have "directory_ok (gd_sessions ann_directory)"
    by (simp add: ann_directory_def directory_ok_def new_directory_def game_wf_def ann_session_def fcard_fempty)
  moreover have "game_members (gd_sessions ann_directory) = map_of (rosters ann_directory)"
    by (auto simp: game_members_def rosters_def ann_directory_def ann_session_def ann_room_def roster_def fun_eq_iff)
  ultimately show ?thesis by (simp add: in_step_def ann_directory_def)
qed

definition entered_by_bob :: "(game_error + carbon_participant option) \<times> game_directory" where
  "entered_by_bob = the (enter plain_env ''235279'' bob ''i'' 1 ''x'' 0 False ann_directory)"

lemma bob_enters: "\<exists>p. enter plain_env ''235279'' bob ''i'' 1 ''x'' 0 False ann_directory = Some (Inr (Some p), snd entered_by_bob)"
  by (simp add: entered_by_bob_def enter_def ann_directory_def ann_room_def leave_previous_def leave_step_def bob_def Let_def
      join_game_def ann_session_def game_can_join_def fcard_finsert_disjoint fcard_fempty player_id_def plain_env_def ann_player_def
      next_free_unfold[of _ _ "1::int"] next_cyclic_def MAX_CARBON_WIRE_PLAYER_ID_def)

theorem entered_player_in_one_room_witness:
  "\<exists>g p. map_of (gd_games (snd entered_by_bob)) ''235279'' = Some g \<and> map_of (cg_participants g) 22 = Some p"
proof -
  obtain p where "enter plain_env ''235279'' bob ''i'' 1 ''x'' 0 False ann_directory = Some (Inr (Some p), snd entered_by_bob)"
    using bob_enters by blast
  from entered_player_in_one_room[OF ann_in_step plain_resolver this] show ?thesis by (auto simp: bob_def)
qed

lemma coordinator_fixed [simp]:
  "coordinator (g\<lparr>cg_participants := ps, cg_completed_invite_entries := es\<rparr>) = coordinator g"
  by (simp add: coordinator_def split: option.split)

lemma leave_games:
  assumes "map_of (gd_games d) gid = Some g" "map_of (cg_participants g) user = Some p" "cg_gid g = gid" "id_user_id (cp_identity p) = user"
  defines "ps \<equiv> AList.delete user (cg_participants g)"
  shows "leave gid user d = (True, if user = coordinator g \<or> ps = []
    then d\<lparr>gd_sessions := leave_all (cg_session g) ps (fst (leave_game (gd_sessions d) (cg_session g) user)), gd_games := AList.delete gid (gd_games d)\<rparr>
    else d\<lparr>gd_sessions := fst (leave_game (gd_sessions d) (cg_session g) user),
      gd_games := AList.update gid (g\<lparr>cg_participants := ps, cg_completed_invite_entries := cg_completed_invite_entries g |-| {|user|}\<rparr>) (gd_games d)\<rparr>)"
  unfolding leave_def assms(1) option.case assms(2) Let_def using assms(3,4)
  by (simp add: store_game_def ps_def)

text \<open>
  Leaving: the host of a client-hosted room, or the player a server-hosted room was
  allocated for, takes the room and its session down; so does the last player.  Anybody
  else only disappears from the room and its session.  No other room or session changes.
\<close>

theorem leave_outcome:
  assumes d: "in_step d" and g: "map_of (gd_games d) gid = Some g" and p: "map_of (cg_participants g) user = Some p"
    and l: "leave gid user d = (b, d')"
  shows "b \<and> (let ps = AList.delete user (cg_participants g) in
      if user = coordinator g \<or> ps = []
      then map_of (gd_games d') gid = None \<and> game_members (gd_sessions d') (cg_session g) = None
      else (\<exists>g'. map_of (gd_games d') gid = Some g' \<and> cg_participants g' = ps \<and> user |\<notin>| cg_completed_invite_entries g') \<and>
        game_members (gd_sessions d') (cg_session g) = Some (roster_of ps)) \<and>
    (\<forall>j h. j \<noteq> gid \<and> map_of (gd_games d) j = Some h \<longrightarrow> map_of (gd_games d') j = Some h \<and>
       game_members (gd_sessions d') (cg_session h) = game_members (gd_sessions d) (cg_session h))"
proof -
  have r: "room_ok (gd_next_gid d) gid g" by (rule in_step_room[OF d g])
  then have k: "cg_gid g = gid" and who: "id_user_id (cp_identity p) = user"
    using players_member[OF _ p] by (simp_all add: room_ok_def)
  define ps where "ps = AList.delete user (cg_participants g)"
  note eq = leave_games[OF g p k who, folded ps_def]
  have step: "in_step d'" using leave_in_step[OF d, of gid user] l by simp
  have others: "map_of (gd_games d') j = map_of (gd_games d) j" if "j \<noteq> gid" for j
    using l eq that by (auto simp: map_of_update_dict map_of_delete_dict)
  have stay: "map_of (gd_games d') j = Some h \<and> game_members (gd_sessions d') (cg_session h) = game_members (gd_sessions d) (cg_session h)"
    if "j \<noteq> gid" "map_of (gd_games d) j = Some h" for j h
    using others[OF that(1)] that(2) in_step_members[OF d that(2)] in_step_members[OF step, of j h] by simp
  show ?thesis
  proof (cases "user = coordinator g \<or> ps = []")
    case True
    have gone: "map_of (gd_games d') gid = None" using l eq True by (auto simp: map_of_delete_dict)
    have "game_members (gd_sessions d') (cg_session g) = None"
    proof (rule ccontr)
      assume "game_members (gd_sessions d') (cg_session g) \<noteq> None"
      then have "cg_session g \<in> fst ` set (rosters d')" using step by (auto simp: in_step_def intro: known_key)
      then obtain j h where jh: "(j, h) \<in> set (gd_games d')" "cg_session h = cg_session g" by (auto simp: rosters_def)
      then have "map_of (gd_games d') j = Some h" using step by (simp add: in_step_def)
      moreover from this gone have "j \<noteq> gid" by auto
      ultimately have "map_of (gd_games d) j = Some h" using others by simp
      moreover have "inj_on (cg_session \<circ> snd) (set (gd_games d))" using d by (simp add: in_step_def distinct_map)
      ultimately show False using inj_onD[of "cg_session \<circ> snd" "set (gd_games d)" "(j, h)" "(gid, g)"] map_of_SomeD[OF g] map_of_SomeD[of _ j h] jh(2) \<open>j \<noteq> gid\<close>
        by simp
    qed
    with gone stay l eq True show ?thesis unfolding ps_def[symmetric] Let_def by auto
  next
    case False
    then have g': "map_of (gd_games d') gid = Some (g\<lparr>cg_participants := ps, cg_completed_invite_entries := cg_completed_invite_entries g |-| {|user|}\<rparr>)"
      using l eq by (auto simp: map_of_update_dict)
    have "game_members (gd_sessions d') (cg_session g) = Some (roster_of ps)" using in_step_members[OF step g'] by (simp add: roster_def)
    with g' stay l eq False show ?thesis unfolding ps_def[symmetric] Let_def by auto
  qed
qed

theorem leave_outcome_witness:
  "\<exists>d'. leave ''235279'' 11 ann_directory = (True, d') \<and> map_of (gd_games d') ''235279'' = None"
proof -
  obtain b d' where l: "leave ''235279'' 11 ann_directory = (b, d')" by (cases "leave ''235279'' 11 ann_directory")
  have g: "map_of (gd_games ann_directory) ''235279'' = Some ann_room" by (simp add: ann_directory_def)
  have p: "map_of (cg_participants ann_room) 11 = Some ann_player" by (simp add: ann_room_def)
  have "coordinator ann_room = 11" by (simp add: coordinator_def ann_room_def ann_def)
  with leave_outcome[OF ann_in_step g p l] l show ?thesis by (simp add: Let_def)
qed

section \<open>Searching\<close>

text \<open>The fold over candidates keeps the best one: no other fit is greater, and no equal one has a lower number.\<close>

definition not_better :: "pyfloat \<times> carbon_game \<Rightarrow> pyfloat \<times> carbon_game \<Rightarrow> bool" where
  "not_better a b = (\<not> fl_less (fst b) (fst a) \<and> (fst a = fst b \<longrightarrow> gid_number (snd b) \<le> gid_number (snd a)))"

lemma not_better_refl: "not_better x x"
  by (cases "fst x") (simp_all add: not_better_def)

lemma not_better_trans:
  "not_better x y \<Longrightarrow> not_better y z \<Longrightarrow> fst x \<noteq> NaN \<Longrightarrow> fst y \<noteq> NaN \<Longrightarrow> fst z \<noteq> NaN \<Longrightarrow> not_better x z"
  by (cases "fst x"; cases "fst y"; cases "fst z"; force simp: not_better_def)

lemma better_wins:
  "fst b \<noteq> NaN \<Longrightarrow> fst c \<noteq> NaN \<Longrightarrow> not_better b (if better c b then c else b) \<and> not_better c (if better c b then c else b)"
  by (cases "fst b"; cases "fst c"; force simp: not_better_def better_def)

lemma best_fold:
  "\<forall>c \<in> set (b # cs). fst c \<noteq> NaN \<Longrightarrow>
   foldl (\<lambda>best c. if better c best then c else best) b cs \<in> set (b # cs) \<and>
   (\<forall>c \<in> set (b # cs). not_better c (foldl (\<lambda>best c. if better c best then c else best) b cs))"
proof (induction cs arbitrary: b)
  case (Cons c cs)
  define b' where "b' = (if better c b then c else b)"
  define r where "r = foldl (\<lambda>best c. if better c best then c else best) b' cs"
  have nan: "\<forall>x \<in> set (b' # cs). fst x \<noteq> NaN" using Cons.prems by (auto simp: b'_def)
  have IH: "r \<in> set (b' # cs)" "\<forall>x \<in> set (b' # cs). not_better x r" using Cons.IH[OF nan] unfolding r_def by blast+
  have "fst r \<noteq> NaN" using IH(1) nan by blast
  moreover have "not_better b b'" "not_better c b'" using better_wins[of b c] Cons.prems by (simp_all add: b'_def)
  ultimately have "not_better b r" "not_better c r"
    using not_better_trans[of _ b' r] IH(2) nan Cons.prems by simp_all
  moreover have "r \<in> set (b # c # cs)" using IH(1) by (auto simp: b'_def split: if_splits)
  ultimately show ?case using IH(2) by (simp add: b'_def[symmetric] r_def[symmetric])
qed (simp add: not_better_refl)

lemma search_fit_conditions:
  "search_fit i fs request d g = Some fit \<Longrightarrow> cg_server_hosted g \<and> \<not> cg_quick_join_locked g \<and>
     int (length (cg_participants g)) < session_capacity (gd_sessions d) g \<and> map_of (cg_participants g) (id_user_id i) = None \<and>
     cg_allocator_user_id g \<noteq> Some (id_user_id i) \<and> strict_match request (match_properties g) \<and>
     match_fit fs (match_properties g) True = Some fit \<and> \<not> fl_less fit (pn_fit_threshold request)"
  by (auto simp: search_fit_def Let_def split: if_splits option.splits)

lemma candidate_iff:
  "(fit, g) \<in> set (search_candidates i fs request d) \<longleftrightarrow> (\<exists>k. (k, g) \<in> set (gd_games d) \<and> search_fit i fs request d g = Some fit)"
  by (force simp: search_candidates_def split: option.splits)

lemma best_is_candidate: "best_candidate cs = Some c \<Longrightarrow> c \<in> set cs"
proof -
  have "foldl (\<lambda>best c. if better c best then c else best) b cs \<in> set (b # cs)" for b cs
  proof (induction cs arbitrary: b)
    case (Cons c cs)
    show ?case using Cons.IH[of b] Cons.IH[of c] by (cases "better c b") auto
  qed simp
  then show "best_candidate cs = Some c \<Longrightarrow> c \<in> set cs" by (auto simp: best_candidate_def split: list.splits)
qed

lemma find_result:
  assumes "is_find (parse_request fs)" "resolve_play_now env i fs d = Some (Inr res, d')"
  shows "d' = d \<and> res = map_option (\<lambda>(fit, g). \<lparr>pr_game = g, pr_avg_fit = fit, pr_created = False\<rparr>)
    (best_candidate (search_candidates i fs (parse_request fs) d))"
  using assms by (auto simp: resolve_play_now_def Let_def)

text \<open>
  C21. What a find request may return: an existing room of the server, not locked, with a
  free seat, which the player is not in and did not allocate, which the strict filter
  accepts and whose fit is not below the client's threshold.  The directory is unchanged.
\<close>

theorem found_room_admissible:
  assumes f: "is_find (parse_request fs)" and r: "resolve_play_now env i fs d = Some (Inr (Some res), d')"
  shows "d' = d \<and> \<not> pr_created res \<and> pr_game res \<in> snd ` set (gd_games d) \<and> cg_server_hosted (pr_game res) \<and>
    \<not> cg_quick_join_locked (pr_game res) \<and>
    int (length (cg_participants (pr_game res))) < session_capacity (gd_sessions d) (pr_game res) \<and>
    map_of (cg_participants (pr_game res)) (id_user_id i) = None \<and> cg_allocator_user_id (pr_game res) \<noteq> Some (id_user_id i) \<and>
    strict_match (parse_request fs) (match_properties (pr_game res)) \<and> \<not> fl_less (pr_avg_fit res) (pn_fit_threshold (parse_request fs))"
proof -
  note res = find_result[OF f r]
  then obtain c where "best_candidate (search_candidates i fs (parse_request fs) d) = Some c"
    by (cases "best_candidate (search_candidates i fs (parse_request fs) d)") auto
  then obtain fit g where b: "best_candidate (search_candidates i fs (parse_request fs) d) = Some (fit, g)" by (cases c) simp
  with res have eq: "res = \<lparr>pr_game = g, pr_avg_fit = fit, pr_created = False\<rparr>" by simp
  from best_is_candidate[OF b] obtain k where "(k, g) \<in> set (gd_games d)" "search_fit i fs (parse_request fs) d g = Some fit"
    unfolding candidate_iff by blast
  with search_fit_conditions[OF this(2)] res show ?thesis by (force simp: eq)
qed

text \<open>
  C22. A find request returns the best admissible room, and nothing only if there is none:
  no admissible room has a greater fit, and among equal fits the oldest room wins.  Fits
  that are not a number are excluded, since they compare with nothing.
\<close>

theorem found_room_best:
  assumes f: "is_find (parse_request fs)" and r: "resolve_play_now env i fs d = Some (Inr res, d')"
    and nan: "\<forall>c \<in> set (search_candidates i fs (parse_request fs) d). fst c \<noteq> NaN"
  shows "case res of None \<Rightarrow> \<forall>(k, g) \<in> set (gd_games d). search_fit i fs (parse_request fs) d g = None
    | Some res \<Rightarrow> search_fit i fs (parse_request fs) d (pr_game res) = Some (pr_avg_fit res) \<and>
       (\<forall>(k, g) \<in> set (gd_games d). \<forall>fit. search_fit i fs (parse_request fs) d g = Some fit \<longrightarrow>
          \<not> fl_less (pr_avg_fit res) fit \<and> (fit = pr_avg_fit res \<longrightarrow> gid_number (pr_game res) \<le> gid_number g))"
proof (cases "search_candidates i fs (parse_request fs) d")
  case Nil
  then have "res = None" using find_result[OF f r] by (simp add: best_candidate_def)
  moreover have "search_fit i fs (parse_request fs) d g = None" if "(k, g) \<in> set (gd_games d)" for k g
  proof (rule ccontr)
    assume "search_fit i fs (parse_request fs) d g \<noteq> None"
    then obtain fit where "search_fit i fs (parse_request fs) d g = Some fit" by blast
    then have "(fit, g) \<in> set (search_candidates i fs (parse_request fs) d)" using that unfolding candidate_iff by blast
    with Nil show False by simp
  qed
  ultimately show ?thesis by auto
next
  case (Cons b cs)
  define c where "c = foldl (\<lambda>best c. if better c best then c else best) b cs"
  have best: "c \<in> set (search_candidates i fs (parse_request fs) d)"
    "\<forall>x \<in> set (search_candidates i fs (parse_request fs) d). not_better x c"
    using best_fold[of b cs] nan unfolding Cons c_def by blast+
  have res: "res = Some \<lparr>pr_game = snd c, pr_avg_fit = fst c, pr_created = False\<rparr>"
    using find_result[OF f r] by (simp add: Cons best_candidate_def c_def[symmetric] case_prod_beta)
  have "search_fit i fs (parse_request fs) d (snd c) = Some (fst c)"
    using best(1) candidate_iff[of "fst c" "snd c"] by auto
  moreover have "\<not> fl_less (fst c) fit \<and> (fit = fst c \<longrightarrow> gid_number (snd c) \<le> gid_number g)"
    if "(k, g) \<in> set (gd_games d)" "search_fit i fs (parse_request fs) d g = Some fit" for k g fit
  proof -
    have "(fit, g) \<in> set (search_candidates i fs (parse_request fs) d)" using that unfolding candidate_iff by blast
    with best(2) show ?thesis by (auto simp: not_better_def)
  qed
  ultimately show ?thesis by (auto simp: res)
qed

text \<open>A server-hosted room that anyone may join, and the plainest search.\<close>

definition open_room :: carbon_game where
  "open_room = ann_room\<lparr>cg_server_hosted := True, cg_allocator_user_id := Some 33\<rparr>"

definition open_directory :: game_directory where
  "open_directory = ann_directory\<lparr>gd_games := [(''235279'', open_room)]\<rparr>"

definition find_fields :: fields where
  "find_fields = [(''sessionType'', ''findServer'')]"

lemma find_fields_find: "is_find (parse_request find_fields)"
  by code_simp

lemma open_room_fits: "search_fit bob find_fields (parse_request find_fields) open_directory open_room \<noteq> None"
  by code_simp

lemma open_in_step: "in_step open_directory"
proof -
  have "in_step (store_game open_room ann_directory)"
    by (rule in_step_gate_only[OF ann_in_step, of "''235279''" ann_room]) (simp_all add: ann_directory_def open_room_def)
  then show ?thesis by (simp add: store_game_def ann_directory_def open_directory_def open_room_def ann_room_def)
qed

definition find_result_of :: "play_now_resolution option" where
  "find_result_of = map_option (\<lambda>(fit, g). \<lparr>pr_game = g, pr_avg_fit = fit, pr_created = False\<rparr>)
    (best_candidate (search_candidates bob find_fields (parse_request find_fields) open_directory))"

lemma open_games: "gd_games open_directory = [(''235279'', open_room)]"
  by (simp add: open_directory_def)

lemma open_found: "\<exists>fit. fit \<noteq> NaN \<and> find_result_of = Some \<lparr>pr_game = open_room, pr_avg_fit = fit, pr_created = False\<rparr> \<and>
  search_candidates bob find_fields (parse_request find_fields) open_directory = [(fit, open_room)]"
proof -
  have "search_fit bob find_fields (parse_request find_fields) open_directory open_room \<noteq> Some NaN" by code_simp
  with open_room_fits obtain fit where "search_fit bob find_fields (parse_request find_fields) open_directory open_room = Some fit" "fit \<noteq> NaN"
    by blast
  then show ?thesis by (simp add: find_result_of_def search_candidates_def open_games best_candidate_def)
qed

lemma open_resolved: "resolve_play_now plain_env bob find_fields open_directory = Some (Inr find_result_of, open_directory)"
  by (simp add: resolve_play_now_def Let_def find_fields_find find_result_of_def)

theorem found_room_admissible_witness:
  "\<exists>res. resolve_play_now plain_env bob find_fields open_directory = Some (Inr (Some res), open_directory) \<and>
     pr_game res = open_room \<and> \<not> cg_quick_join_locked (pr_game res)"
proof -
  obtain res where res: "find_result_of = Some res" "pr_game res = open_room" using open_found by auto
  from found_room_admissible[OF find_fields_find open_resolved[unfolded res(1)]] res open_resolved show ?thesis by auto
qed

theorem found_room_best_witness:
  "\<exists>res. resolve_play_now plain_env bob find_fields open_directory = Some (Inr (Some res), open_directory) \<and>
     search_fit bob find_fields (parse_request find_fields) open_directory (pr_game res) = Some (pr_avg_fit res)"
proof -
  obtain fit where f: "fit \<noteq> NaN" "find_result_of = Some \<lparr>pr_game = open_room, pr_avg_fit = fit, pr_created = False\<rparr>"
    "search_candidates bob find_fields (parse_request find_fields) open_directory = [(fit, open_room)]"
    using open_found by blast
  have "\<forall>c \<in> set (search_candidates bob find_fields (parse_request find_fields) open_directory). fst c \<noteq> NaN"
    using f by simp
  from found_room_best[OF find_fields_find open_resolved this] open_resolved show ?thesis unfolding f(2) by simp
qed

section \<open>Gates\<close>

text \<open>
  A room that is locked for Quick Join refuses everybody but its allocator, its players
  and invited players; the room itself is untouched.  The refused player has nevertheless
  left every other room by then.
\<close>

theorem locked_room_refuses:
  assumes d: "in_step d" and g: "map_of (gd_games d) gid = Some g" and l: "cg_quick_join_locked g"
    and u: "cg_allocator_user_id g \<noteq> Some (id_user_id i)" "map_of (cg_participants g) (id_user_id i) = None"
  shows "\<exists>d'. enter env gid i ip port ext remote False d = Some (Inr None, d') \<and> map_of (gd_games d') gid = Some g \<and>
    (\<forall>j h. map_of (gd_games d') j = Some h \<longrightarrow> map_of (cg_participants h) (id_user_id i) = None)"
proof -
  define d1 where "d1 = leave_previous gid (id_user_id i) d"
  have k: "cg_gid g = gid" using in_step_room[OF d g] by (simp add: room_ok_def)
  have "enter env gid i ip port ext remote False d = Some (Inr None, d1)"
    using g l u k by (simp add: enter_def Let_def d1_def)
  moreover have "map_of (cg_participants h) (id_user_id i) = None" if "map_of (gd_games d1) j = Some h" for j h
    using leave_previous_in_step(4)[OF d that[unfolded d1_def]] leave_previous_in_step(2)[OF d, of gid "id_user_id i"] that u(2) g
    by (cases "j = gid") (auto simp: d1_def)
  ultimately show ?thesis using leave_previous_in_step(2)[OF d, of gid "id_user_id i"] g by (auto simp: d1_def)
qed

definition locked_directory :: game_directory where
  "locked_directory = snd (set_quick_join_locked ''235279'' True open_directory)"

theorem locked_room_refuses_witness:
  "\<exists>d'. enter plain_env ''235279'' bob ''i'' 1 ''x'' 0 False locked_directory = Some (Inr None, d')"
proof -
  have "in_step locked_directory" unfolding locked_directory_def by (rule set_quick_join_locked_in_step[OF open_in_step])
  moreover have "map_of (gd_games locked_directory) ''235279'' = Some (open_room\<lparr>cg_quick_join_locked := True\<rparr>)"
    by (simp add: locked_directory_def set_quick_join_locked_def open_games store_game_def open_room_def ann_room_def)
  ultimately show ?thesis
    using locked_room_refuses[of locked_directory "''235279''" "open_room\<lparr>cg_quick_join_locked := True\<rparr>" bob plain_env "''i''" 1 "''x''" 0]
    by (auto simp: open_room_def ann_room_def bob_def)
qed

section \<open>The identifiers of a new room\<close>

lemma created_room_built:
  assumes "create env i vals sh request d = Some (Inr g, d')"
  shows "\<exists>owner m inc sessions s host req props gid participants.
    create_game (gd_sessions d) 257 owner m 2 PUBLIC [] inc = Inr (sessions, s) \<and>
    build_room env i host sh req props (gs_id s) m gid participants
      (d\<lparr>gd_next_gid := gd_next_gid d + 1, gd_sessions := sessions\<rparr>) = Some (g, d')"
proof -
  obtain ps m where p: "creation_properties (env_pick env) vals sh (case request of Some r \<Rightarrow> r | None \<Rightarrow> parse_request vals) = Inr (ps, m)"
    using assms by (cases "creation_properties (env_pick env) vals sh (case request of Some r \<Rightarrow> r | None \<Rightarrow> parse_request vals)")
      (auto simp: create_def)
  have no: "create env i vals sh request d \<noteq> Some (Inl e, x)" for e x using assms by simp
  from create_shape[OF p, of i d] no obtain owner inc sessions s host req props gid participants
    where c: "create_game (gd_sessions d) 257 owner m 2 PUBLIC [] inc = Inr (sessions, s)"
      and b: "create env i vals sh request d = map_option (\<lambda>(g, d). (Inr g, d)) (build_room env i host sh req props (gs_id s) m gid participants
        (d\<lparr>gd_next_gid := gd_next_gid d + 1, gd_sessions := sessions\<rparr>))" by blast
  from assms have "map_option (\<lambda>(g, d). (Inr g :: game_error + carbon_game, d)) (build_room env i host sh req props (gs_id s) m gid participants
        (d\<lparr>gd_next_gid := gd_next_gid d + 1, gd_sessions := sessions\<rparr>)) = Some (Inr g, d')" unfolding b .
  then have "build_room env i host sh req props (gs_id s) m gid participants
        (d\<lparr>gd_next_gid := gd_next_gid d + 1, gd_sessions := sessions\<rparr>) = Some (g, d')" by auto
  with c show ?thesis by blast
qed

lemma old_capacities:
  assumes d: "in_step d" and c: "create_game (gd_sessions d) 257 owner m 2 PUBLIC [] inc = Inr (sessions, s)" and g: "(k, g) \<in> set (gd_games d)"
  shows "session_capacity sessions g = session_capacity (gd_sessions d) g"
proof -
  have "map_of (gd_games d) k = Some g" using d g by (simp add: in_step_def)
  then have "game_members (gd_sessions d) (cg_session g) \<noteq> None" using in_step_members[OF d] by blast
  then have "cg_session g \<noteq> gs_id s" using create_game_members[OF in_step_sound[OF d] c] by metis
  then show ?thesis using c
    by (auto simp: session_capacity_def get_game_def create_game_def Let_def map_of_update_dict split: if_splits)
qed

text \<open>
  C23. A room that is created gets a room tick between 1 and 0xFFFFFFFF that no room has, and
  a range of descriptor handles, ten apart and below 0x100000000, that meets the range of
  no room.
\<close>

theorem new_room_identifiers:
  assumes d: "in_step d" and c: "create env i vals sh request d = Some (Inr g, d')"
  shows "cg_created_tick_ms g \<notin> used_ticks d \<and> 1 \<le> cg_created_tick_ms g \<and> cg_created_tick_ms g \<le> 0xFFFFFFFF \<and>
    (\<exists>slots. slots = max 2 (min 64 (cg_descriptor_slot_capacity g)) \<and> 10 \<le> cg_descriptor_handle_base g \<and>
       cg_descriptor_handle_base g + (slots - 1) * 10 \<le> 0xFFFFFFFF \<and>
       (\<forall>(first, final) \<in> set (active_ranges d). cg_descriptor_handle_base g + (slots - 1) * 10 < first \<or> final < cg_descriptor_handle_base g))"
proof -
  obtain owner m inc sessions s host req props gid participants
    where cg: "create_game (gd_sessions d) 257 owner m 2 PUBLIC [] inc = Inr (sessions, s)"
      and b: "build_room env i host sh req props (gs_id s) m gid participants
        (d\<lparr>gd_next_gid := gd_next_gid d + 1, gd_sessions := sessions\<rparr>) = Some (g, d')"
    using created_room_built[OF c] by blast
  have "active_ranges (d\<lparr>gd_next_gid := gd_next_gid d + 1, gd_sessions := sessions\<rparr>) = active_ranges d"
    using old_capacities[OF d cg] by (auto simp: active_ranges_def)
  moreover have "used_ticks (d\<lparr>gd_next_gid := gd_next_gid d + 1, gd_sessions := sessions\<rparr>) = used_ticks d"
    by (simp add: used_ticks_def)
  ultimately show ?thesis using room_identifiers[OF b] by (auto simp: overlaps_def)
qed

lemma ann_create: "\<exists>g d'. create plain_env bob [] False None ann_directory = Some (Inr g, d')"
proof -
  have b: "bounded_directory 1 ann_directory" using ann_in_step
    by (simp add: bounded_directory_def) (simp add: ann_directory_def caps_ok_def ann_session_def ann_room_def)
  obtain ps m where p: "creation_properties (env_pick plain_env) [] False (parse_request []) = Inr (ps, m)"
    by (simp add: creation_properties_def Let_def)
  have m: "2 \<le> m" "m \<le> 8" using creation_capacity[OF p] by simp_all
  obtain r d' where r: "create plain_env bob [] False None ann_directory = Some (r, d')"
    using create_returns[OF b, of plain_env bob "[]" False None] by auto
  moreover have "r \<noteq> Inl e" for e
    using r p m by (auto simp: create_def Let_def create_game_def player_id_def plain_env_def room_host_def map_option_case split: option.splits)
  ultimately show ?thesis by (cases r) auto
qed

theorem new_room_identifiers_witness:
  "\<exists>g d'. create plain_env bob [] False None ann_directory = Some (Inr g, d') \<and> cg_created_tick_ms g \<noteq> 7"
proof -
  obtain g d' where c: "create plain_env bob [] False None ann_directory = Some (Inr g, d')" using ann_create by blast
  have "7 \<in> used_ticks ann_directory"
    by (simp add: used_ticks_def ann_directory_def ann_room_def umask_def)
  with new_room_identifiers[OF ann_in_step c] c show ?thesis by metis
qed

section \<open>Tickets\<close>

lemma find_sound: "find P xs = Some x \<Longrightarrow> x \<in> set xs \<and> P x"
  by (induction xs) (auto split: if_splits)

lemma ticket_range: "\<exists>n. ticket digest g p = show_int n \<and> 1000000000 \<le> n \<and> n < 5294967296"
proof -
  let ?raw = "slice 0 4 (digest (utf8_encode (''carbon-ticket:'' @ cg_gid g @ '':'' @ show_int (cp_player_id p) @ '':'' @ show_int (id_user_id (cp_identity p)))))"
  have "length ?raw \<le> 4" by (simp add: slice_def)
  then have "(256::nat) ^ length ?raw \<le> 256 ^ 4" by (rule power_increasing) simp
  then have "be_nat ?raw < 4294967296" using be_nat_less[of ?raw] by simp
  then show ?thesis by (intro exI[of _ "1000000000 + int (be_nat ?raw) mod 9000000000"]) (simp add: ticket_def Let_def)
qed

text \<open>
  The ticket of a player in a room resolves to that player and room, as long as no other
  listed player has the same ticket; it is a decimal number of ten digits.
\<close>

theorem ticket_resolves:
  assumes g: "map_of (gd_games d) gid = Some g" and p: "map_of (cg_participants g) user = Some p"
    and unique: "\<forall>(k, h) \<in> set (gd_games d). \<forall>(u, q) \<in> set (cg_participants h). ticket digest h q = ticket digest g p \<longrightarrow> (h, q) = (g, p)"
  shows "resolve_ticket digest (ticket digest g p) d = Some (g, p) \<and>
    (\<exists>n. ticket digest g p = show_int n \<and> 10 ^ 9 \<le> n \<and> n < 10 ^ 10)"
proof -
  let ?l = "concat (map (\<lambda>(k, g). map (\<lambda>(user, p). (g, p)) (cg_participants g)) (gd_games d))"
  have mem: "(g, p) \<in> set ?l" using map_of_SomeD[OF g] map_of_SomeD[OF p] by force
  have only: "x = (g, p)" if "x \<in> set ?l" "(\<lambda>(h, q). ticket digest h q = ticket digest g p) x" for x
    using that unique by (fastforce split: prod.splits)
  have "find (\<lambda>(h, q). ticket digest h q = ticket digest g p) ?l = Some (g, p)"
  proof (cases "find (\<lambda>(h, q). ticket digest h q = ticket digest g p) ?l")
    case None
    then have "\<not> (\<lambda>(h, q). ticket digest h q = ticket digest g p) (g, p)" using mem unfolding find_None_iff by blast
    then show ?thesis by simp
  next
    case (Some x)
    with find_sound[OF Some] only Some show ?thesis by simp
  qed
  moreover have "\<exists>n. ticket digest g p = show_int n \<and> 10 ^ 9 \<le> n \<and> n < 10 ^ 10"
    using ticket_range[of digest g p] by force
  ultimately show ?thesis by (simp add: resolve_ticket_def)
qed

theorem ticket_resolves_witness:
  "resolve_ticket plain_digest (ticket plain_digest ann_room ann_player) ann_directory = Some (ann_room, ann_player)"
  using ticket_resolves[of ann_directory "''235279''" ann_room 11 ann_player plain_digest]
  by (auto simp: ann_directory_def ann_room_def)

section \<open>Wire ids in the rooms\<close>

text \<open>The directory's resolver is the identity store, read after the player logged in.\<close>

definition wire_resolver :: "(bytes \<Rightarrow> bytes) \<Rightarrow> identity_store \<Rightarrow> identity \<Rightarrow> int" where
  "wire_resolver digest s i = fst (the (wire_player_id digest (id_persona i) s))"

lemma wire_resolver_range:
  assumes "store_ok s" "int (length (is_wire_ids s)) < MAX_CARBON_WIRE_PLAYER_ID"
  shows "0 < wire_resolver digest s i \<and> wire_resolver digest s i \<le> MAX_CARBON_WIRE_PLAYER_ID"
proof -
  obtain n s' where "wire_player_id digest (id_persona i) s = Some (n, s')" using wire_player_id_total[OF assms] by fast
  moreover from this have "1 \<le> n \<and> n \<le> MAX_CARBON_WIRE_PLAYER_ID"
    using wire_player_id_recorded[OF _ assms(1)] wire_player_id_ok[OF _ assms(1)] wire_ids_range by blast
  ultimately show ?thesis by (simp add: wire_resolver_def)
qed

text \<open>
  The identity store and the rooms together: a player who newly enters a room is given
  the store's wire id of the persona whenever nobody in the room has it, and that id is in
  the range the directory insists on.
\<close>

theorem entry_uses_wire_id:
  assumes store: "store_ok s" "int (length (is_wire_ids s)) < MAX_CARBON_WIRE_PLAYER_ID"
    and env: "env_player_id_resolver env = Some (wire_resolver digest s)"
    and g: "map_of (gd_games d) gid = Some g" "map_of (cg_participants g) (id_user_id i) = None"
    and free: "\<forall>(u, q) \<in> set (cg_participants g). cp_player_id q \<noteq> wire_resolver digest s i"
    and e: "enter env gid i ip port ext remote invite d = Some (Inr (Some p), d')"
  shows "cp_player_id p = wire_resolver digest s i \<and> cp_identity p = i \<and> 1 \<le> cp_player_id p \<and> cp_player_id p \<le> MAX_CARBON_WIRE_PLAYER_ID"
proof -
  have "wire_resolver digest s i \<notin> set (map (\<lambda>(k, p). cp_player_id p) (cg_participants g))" using free by auto
  then have "player_id env i (set (map (\<lambda>(k, p). cp_player_id p) (cg_participants g))) = Some (Inr (wire_resolver digest s i))"
    using wire_resolver_range[OF store, of digest i] by (simp add: player_id_def env)
  then show ?thesis using e g wire_resolver_range[OF store, of digest i] by (auto simp: enter_def Let_def case_prod_beta split: if_splits)
qed

definition ones_digest :: "bytes \<Rightarrow> bytes" where
  "ones_digest bs = replicate 16 1"

definition wire_env :: environment where
  "wire_env = plain_env\<lparr>env_player_id_resolver := Some (wire_resolver ones_digest new_identity_store)\<rparr>"

lemma bob_wire_id: "wire_resolver ones_digest new_identity_store bob = 258"
  by code_simp

lemma bob_enters_wired: "\<exists>p d'. enter wire_env ''235279'' bob ''i'' 1 ''x'' 0 False ann_directory = Some (Inr (Some p), d')"
  by (simp add: enter_def ann_directory_def ann_room_def leave_previous_def leave_step_def Let_def join_game_def ann_session_def
      game_can_join_def fcard_finsert_disjoint fcard_fempty player_id_def wire_env_def plain_env_def ann_player_def bob_wire_id
      MAX_CARBON_WIRE_PLAYER_ID_def)

theorem entry_uses_wire_id_witness:
  "\<exists>p d'. enter wire_env ''235279'' bob ''i'' 1 ''x'' 0 False ann_directory = Some (Inr (Some p), d') \<and> cp_player_id p = 258"
proof -
  obtain p d' where e: "enter wire_env ''235279'' bob ''i'' 1 ''x'' 0 False ann_directory = Some (Inr (Some p), d')"
    using bob_enters_wired by blast
  have "int (length (is_wire_ids new_identity_store)) < MAX_CARBON_WIRE_PLAYER_ID"
    by (simp add: new_identity_store_def MAX_CARBON_WIRE_PLAYER_ID_def)
  from entry_uses_wire_id[OF new_identity_store_ok this _ _ _ _ e, of ones_digest ann_room] e bob_wire_id show ?thesis
    by (simp add: wire_env_def ann_directory_def ann_room_def ann_player_def bob_def)
qed

end
