(* ===== verification/Progression.thy ===== *)
theory Progression
  imports IdentityStore "HOL-Library.Product_Lexorder" "HOL-Library.List_Lexorder"
begin

text \<open>
  Account roles, viral vinyls, race awards and the ranked skill of \<open>carbon/progression.py\<close>.
  Statistics are finite doubles, here rationals without rounding.  A progress record is
  shared by everybody who refers to its account, so a reference to one is the account key.
  The JSON file behind the store (\<open>_load\<close>, \<open>_save_locked\<close>) is not modelled.
\<close>

text \<open>\<open>d.get(k, default)\<close>.\<close>

definition dict_get :: "('k \<times> 'v) list \<Rightarrow> 'k \<Rightarrow> 'v \<Rightarrow> 'v" where
  "dict_get d k dflt = (case map_of d k of None \<Rightarrow> dflt | Some v \<Rightarrow> v)"

section \<open>Names\<close>

definition MODERATOR_STAT :: string where "MODERATOR_STAT = ''Moderator''"
definition BEAT_MODERATOR_STAT :: string where "BEAT_MODERATOR_STAT = ''Beat_Moderator''"
definition VIRUS_STATS :: "string list" where "VIRUS_STATS = [''Virus1'', ''Virus2'', ''Virus3'']"
definition SKILL_LEVEL_STAT :: string where "SKILL_LEVEL_STAT = ''Skill_Level''"
definition DEFAULT_SKILL_LEVEL :: rat where "DEFAULT_SKILL_LEVEL = 1000"
definition ONLINE_REP_STAT :: string where "ONLINE_REP_STAT = ''Online_Rep''"
definition TOTAL_GAMES_STARTED_STAT :: string where "TOTAL_GAMES_STARTED_STAT = ''Total_Online_Games_Started''"
definition TOTAL_GAMES_FINISHED_STAT :: string where "TOTAL_GAMES_FINISHED_STAT = ''Total_Online_Games_Finished''"
definition DNF_LOSSES_STAT :: string where "DNF_LOSSES_STAT = ''DNF_Losses''"

definition RANKED_STATS :: "string list" where
  "RANKED_STATS = [SKILL_LEVEL_STAT, ONLINE_REP_STAT, TOTAL_GAMES_STARTED_STAT, TOTAL_GAMES_FINISHED_STAT, DNF_LOSSES_STAT]"

definition SERVER_MANAGED_STATS :: "string list" where
  "SERVER_MANAGED_STATS = MODERATOR_STAT # BEAT_MODERATOR_STAT # VIRUS_STATS @ RANKED_STATS"

definition EA_MODERATOR_ROLE :: string where "EA_MODERATOR_ROLE = ''ea_moderator''"

definition VIRUS_BY_EVENT_TYPE :: "(int \<times> string) list" where
  "VIRUS_BY_EVENT_TYPE = [(3, ''Virus2''), (4, ''Virus3''), (5, ''Virus1''), (13, ''Virus2''), (14, ''Virus3''), (15, ''Virus1'')]"

definition VIRUS_STAT_TO_TOKEN :: "(string \<times> string) list" where
  "VIRUS_STAT_TO_TOKEN = [(''Virus1'', ''VIRUS_KNOCKOUT_FEVER''), (''Virus2'', ''VIRUS_CANYON_CRAZE''),
     (''Virus3'', ''VIRUS_PURSUIT_PANDEMIC'')]"

definition VIRUS_TOKEN_TO_STAT :: "(string \<times> string) list" where
  "VIRUS_TOKEN_TO_STAT = map (\<lambda>(stat, token). (token, stat)) VIRUS_STAT_TO_TOKEN"

definition CARBON_PLAGUE_TOKEN :: string where "CARBON_PLAGUE_TOKEN = ''VIRUS_CARBON_PLAGUE''"

section \<open>Scores\<close>

definition REP_SCORE_TABLE :: "rat list list" where
  "REP_SCORE_TABLE =
    [[28, 0, 0, 0, 0, 0, 0, 0],
     [30, 14, 0, 0, 0, 0, 0, 0],
     [32, 20, 12, 0, 0, 0, 0, 0],
     [34, 24, 16, 10, 0, 0, 0, 0],
     [36, 26, 20, 16, 10, 0, 0, 0],
     [38, 30, 24, 20, 14, 8, 0, 0],
     [40, 32, 28, 24, 18, 12, 6, 0]]"

definition calculate_rep_score :: "int \<Rightarrow> int \<Rightarrow> bool \<Rightarrow> rat" where
  "calculate_rep_score player_count ranking finished =
    (if \<not> finished \<or> \<not> (2 \<le> player_count \<and> player_count \<le> 8) \<or> \<not> (1 \<le> ranking \<and> ranking \<le> 8) then 0
     else REP_SCORE_TABLE ! nat (player_count - 2) ! nat (ranking - 1))"

datatype progression_error = Skill_Lengths_Differ | Account_And_Role_Required | Account_And_Stat_Required

definition clamp_skill :: "rat \<Rightarrow> rat" where
  "clamp_skill x = max 0 (min 3000 x)"

text \<open>What one opponent adds to a player's delta, before the factor.\<close>

definition versus :: "rat \<Rightarrow> rat \<Rightarrow> int \<Rightarrow> int \<Rightarrow> rat" where
  "versus skill other_skill rank other_rank =
    (let difference = max (- 500) (min 500 (skill - other_skill));
         expected = (difference + 500) * (1 / 1000);
         actual = (if rank < other_rank then 1 else 0)
     in actual - expected)"

definition skill_delta :: "rat list \<Rightarrow> int list \<Rightarrow> nat \<Rightarrow> rat" where
  "skill_delta skills ranks i =
    (let factor = 50 / of_nat (length skills) - 1
     in sum_list [versus (skills ! i) (skills ! j) (ranks ! i) (ranks ! j) * factor. j \<leftarrow> [0..<length skills], j \<noteq> i])"

text \<open>One round of the sequential clamp: what exceeds the pool goes to the others in equal shares.\<close>

definition settle_one :: "nat \<Rightarrow> rat list \<Rightarrow> rat list" where
  "settle_one i updated =
    (let x = updated ! i; others = of_nat (length updated - 1)
     in if 3000 < x then (map (\<lambda>y. y + (x - 3000) / others) updated)[i := 3000]
        else if x < 0 then (map (\<lambda>y. y + x / others) updated)[i := 0]
        else updated)"

definition settle :: "rat list \<Rightarrow> rat list" where
  "settle updated = fold settle_one [0..<length updated] updated"

definition calculate_skill_levels :: "rat list \<Rightarrow> int list \<Rightarrow> progression_error + rat list" where
  "calculate_skill_levels current rankings =
    (if length current \<noteq> length rankings then Inl Skill_Lengths_Differ
     else if length current < 2 then Inr (map clamp_skill current)
     else Inr (map clamp_skill (settle (map (\<lambda>i. current ! i + skill_delta current rankings i) [0..<length current]))))"

section \<open>The store\<close>

record account_progress =
  ap_account_name :: string
  ap_persona :: string
  ap_profile_id :: int
  ap_roles :: "string fset"
  ap_stats :: "(string \<times> rat) list"
  ap_stat_texts :: "(string \<times> string) list"

record progression_store =
  ps_accounts :: "(string \<times> account_progress) list"
  ps_profile_to_account :: "(int \<times> string) list"

definition new_progression_store :: progression_store where
  "new_progression_store = \<lparr>ps_accounts = [], ps_profile_to_account = []\<rparr>"

definition account_key :: "string \<Rightarrow> string" where
  "account_key value = casefold (strip value)"

definition new_progress :: "string \<Rightarrow> string \<Rightarrow> int \<Rightarrow> account_progress" where
  "new_progress account_name persona profile_id = \<lparr>ap_account_name = account_name, ap_persona = persona,
     ap_profile_id = profile_id, ap_roles = {||}, ap_stats = [], ap_stat_texts = []\<rparr>"

definition stat_or :: "rat \<Rightarrow> account_progress \<Rightarrow> string \<Rightarrow> rat" where
  "stat_or dflt progress stat = (case map_of (ap_stats progress) stat of None \<Rightarrow> dflt | Some v \<Rightarrow> v)"

definition put_progress :: "string \<Rightarrow> account_progress \<Rightarrow> progression_store \<Rightarrow> progression_store" where
  "put_progress key progress s = s\<lparr>ps_accounts := AList.update key progress (ps_accounts s)\<rparr>"

definition put_stat :: "string \<Rightarrow> string \<Rightarrow> rat \<Rightarrow> progression_store \<Rightarrow> progression_store" where
  "put_stat key stat v s = (case map_of (ps_accounts s) key of
      None \<Rightarrow> s
    | Some progress \<Rightarrow> put_progress key (progress\<lparr>ap_stats := AList.update stat v (ap_stats progress)\<rparr>) s)"

definition account_stat :: "progression_store \<Rightarrow> string \<Rightarrow> string \<Rightarrow> rat" where
  "account_stat s key stat = (case map_of (ps_accounts s) key of None \<Rightarrow> 0 | Some progress \<Rightarrow> stat_or 0 progress stat)"

definition account_roles :: "progression_store \<Rightarrow> string \<Rightarrow> string fset" where
  "account_roles s key = (case map_of (ps_accounts s) key of None \<Rightarrow> {||} | Some progress \<Rightarrow> ap_roles progress)"

definition bind_identity :: "identity \<Rightarrow> progression_store \<Rightarrow> progression_store" where
  "bind_identity i s =
    (let key = account_key (id_account_name i)
     in if key = [] then s
        else let progress = (case map_of (ps_accounts s) key of
                   Some p \<Rightarrow> p | None \<Rightarrow> new_progress (id_account_name i) [] 0);
                 profiles = (if ap_profile_id progress \<noteq> 0 \<and> ap_profile_id progress \<noteq> id_profile_id i
                   then AList.delete (ap_profile_id progress) (ps_profile_to_account s) else ps_profile_to_account s)
             in s\<lparr>ps_accounts := AList.update key (progress\<lparr>ap_account_name := id_account_name i,
                      ap_persona := id_persona i, ap_profile_id := id_profile_id i\<rparr>) (ps_accounts s),
                  ps_profile_to_account := AList.update (id_profile_id i) key profiles\<rparr>)"

definition known_identities :: "(bytes \<Rightarrow> bytes) \<Rightarrow> progression_store \<Rightarrow> identity list" where
  "known_identities digest s =
    sort_key (\<lambda>i. map of_char (casefold (id_persona i)) :: nat list) (concat (map (\<lambda>(key, progress).
      let persona = strip (or_text (ap_persona progress) (ap_account_name progress));
          profile_id = (if ap_profile_id progress = 0 then profile_id_for digest persona else ap_profile_id progress)
      in if persona = [] then []
         else [\<lparr>id_account_name = or_text (ap_account_name progress) persona, id_persona = persona,
                id_profile_id = profile_id, id_user_id = profile_id\<rparr>]) (ps_accounts s)))"

definition progress_for_identity :: "identity \<Rightarrow> progression_store \<Rightarrow> string \<times> progression_store" where
  "progress_for_identity i s =
    (let key = account_key (id_account_name i);
         accounts = (if map_of (ps_accounts s) key = None
           then AList.update key (new_progress (id_account_name i) (id_persona i) (id_profile_id i)) (ps_accounts s)
           else ps_accounts s)
     in (key, s\<lparr>ps_accounts := accounts, ps_profile_to_account := AList.update (id_profile_id i) key (ps_profile_to_account s)\<rparr>))"

definition progress_for_profile :: "int \<Rightarrow> progression_store \<Rightarrow> (string \<times> account_progress) option" where
  "progress_for_profile profile_id s = (case map_of (ps_profile_to_account s) profile_id of
      None \<Rightarrow> None
    | Some key \<Rightarrow> map_option (\<lambda>p. (key, p)) (map_of (ps_accounts s) key))"

definition set_role :: "string \<Rightarrow> string \<Rightarrow> bool \<Rightarrow> progression_store \<Rightarrow> (progression_error + bool) \<times> progression_store" where
  "set_role account_name role enabled s =
    (let key = account_key account_name; clean_role = account_key role
     in if key = [] \<or> clean_role = [] then (Inl Account_And_Role_Required, s)
        else let progress = (case map_of (ps_accounts s) key of
                   Some p \<Rightarrow> p | None \<Rightarrow> new_progress (strip account_name) [] 0);
                 before = (clean_role |\<in>| ap_roles progress);
                 roles = (if enabled then finsert clean_role (ap_roles progress) else ap_roles progress |-| {|clean_role|})
             in (Inr (before \<noteq> enabled), put_progress key (progress\<lparr>ap_roles := roles\<rparr>) s))"

definition set_stat :: "string \<Rightarrow> string \<Rightarrow> rat \<Rightarrow> progression_store \<Rightarrow> (progression_error + bool) \<times> progression_store" where
  "set_stat account_name stat value s =
    (let key = account_key account_name; clean_stat = strip stat
     in if key = [] \<or> clean_stat = [] then (Inl Account_And_Stat_Required, s)
        else let progress = (case map_of (ps_accounts s) key of
                   Some p \<Rightarrow> p | None \<Rightarrow> new_progress (strip account_name) [] 0)
             in (Inr (map_of (ap_stats progress) clean_stat \<noteq> Some value),
                 put_progress key (progress\<lparr>ap_stats := AList.update clean_stat value (ap_stats progress)\<rparr>) s))"

definition read_stat :: "account_progress \<Rightarrow> string \<Rightarrow> rat \<Rightarrow> rat" where
  "read_stat progress clean_stat dflt =
    (if clean_stat = MODERATOR_STAT then (if EA_MODERATOR_ROLE |\<in>| ap_roles progress then 1 else 0)
     else if clean_stat = SKILL_LEVEL_STAT then stat_or DEFAULT_SKILL_LEVEL progress clean_stat
     else stat_or dflt progress clean_stat)"

definition stat_for_identity :: "identity \<Rightarrow> string \<Rightarrow> rat \<Rightarrow> progression_store \<Rightarrow> rat \<times> progression_store" where
  "stat_for_identity i stat dflt s =
    (let (key, s) = progress_for_identity i s
     in (read_stat (the (map_of (ps_accounts s) key)) (strip stat) dflt, s))"

definition stat_for_profile :: "int \<Rightarrow> string \<Rightarrow> rat \<Rightarrow> progression_store \<Rightarrow> rat" where
  "stat_for_profile profile_id stat dflt s = (case progress_for_profile profile_id s of
      None \<Rightarrow> dflt | Some (key, progress) \<Rightarrow> read_stat progress (strip stat) dflt)"

definition has_stat_for_profile :: "int \<Rightarrow> string \<Rightarrow> progression_store \<Rightarrow> bool" where
  "has_stat_for_profile profile_id stat s = (case progress_for_profile profile_id s of
      None \<Rightarrow> False
    | Some (key, progress) \<Rightarrow> strip stat \<in> {MODERATOR_STAT, SKILL_LEVEL_STAT} \<or> map_of (ap_stats progress) (strip stat) \<noteq> None)"

definition stat_text_for_profile :: "int \<Rightarrow> string \<Rightarrow> progression_store \<Rightarrow> string" where
  "stat_text_for_profile profile_id stat s = (case progress_for_profile profile_id s of
      None \<Rightarrow> [] | Some (key, progress) \<Rightarrow> dict_get (ap_stat_texts progress) (strip stat) [])"

definition stats_for_profile :: "int \<Rightarrow> string list \<Rightarrow> progression_store \<Rightarrow> (string \<times> rat) list" where
  "stats_for_profile profile_id keys s = fold (\<lambda>k. AList.update k (stat_for_profile profile_id k 0 s)) keys []"

section \<open>Viral vinyls\<close>

fun import_stats :: "string \<Rightarrow> string list \<Rightarrow> string list \<Rightarrow> progression_store \<Rightarrow> string list \<times> progression_store" where
  "import_stats key requested [] s = ([], s)"
| "import_stats key requested (stat # stats) s =
     (if stat \<in> set requested \<and> account_stat s key stat = 0
      then let (imported, s) = import_stats key requested stats (put_stat key stat 1 s) in (stat # imported, s)
      else import_stats key requested stats s)"

definition import_viral_tokens :: "identity \<Rightarrow> string list \<Rightarrow> progression_store \<Rightarrow> string list \<times> progression_store" where
  "import_viral_tokens i tokens s =
    (let requested = concat (map (\<lambda>item. case map_of VIRUS_TOKEN_TO_STAT (strip item) of None \<Rightarrow> [] | Some stat \<Rightarrow> [stat]) tokens)
     in if requested = [] then ([], s)
        else let (key, s) = progress_for_identity i s in import_stats key requested VIRUS_STATS s)"

definition viral_tokens_for_profile :: "int \<Rightarrow> progression_store \<Rightarrow> string list" where
  "viral_tokens_for_profile profile_id s = (case progress_for_profile profile_id s of
      None \<Rightarrow> []
    | Some (key, progress) \<Rightarrow>
        let tokens = [the (map_of VIRUS_STAT_TO_TOKEN stat). stat \<leftarrow> VIRUS_STATS, stat_or 0 progress stat \<noteq> 0]
        in if length tokens = length VIRUS_STATS then tokens @ [CARBON_PLAGUE_TOKEN] else tokens)"

section \<open>Rank updates\<close>

definition new_rank_value :: "int \<Rightarrow> bool \<Rightarrow> bool \<Rightarrow> rat \<Rightarrow> rat \<Rightarrow> rat" where
  "new_rank_value operation had_old incomplete old numeric =
    (if operation = 1 \<and> had_old \<and> \<not> incomplete then min old numeric
     else if operation = 2 \<and> had_old \<and> \<not> incomplete then max old numeric
     else if operation = 3 then old + numeric
     else numeric)"

definition apply_rank_update ::
  "int \<Rightarrow> string \<Rightarrow> rat \<Rightarrow> int \<Rightarrow> bool \<Rightarrow> string \<Rightarrow> progression_store \<Rightarrow> bool \<times> progression_store" where
  "apply_rank_update profile_id stat numeric operation trusted_server txt s =
    (let clean_stat = strip stat
     in if clean_stat = [] \<or> clean_stat = MODERATOR_STAT then (False, s)
        else if clean_stat \<in> set SERVER_MANAGED_STATS \<and> \<not> trusted_server then (False, s)
        else (case progress_for_profile profile_id s of
            None \<Rightarrow> (False, s)
          | Some (key, progress) \<Rightarrow>
              let had_old = (map_of (ap_stats progress) clean_stat \<noteq> None);
                  old = stat_or 0 progress clean_stat;
                  old_text = dict_get (ap_stat_texts progress) clean_stat [];
                  incomplete = (had_old \<and> txt \<noteq> [] \<and> old_text = []);
                  new = new_rank_value operation had_old incomplete old numeric;
                  value_changed = (\<not> had_old \<or> old \<noteq> new);
                  update_won = (incomplete \<or> \<not> had_old \<or> operation \<notin> {1, 2} \<or> new = numeric);
                  text_changed = (txt \<noteq> [] \<and> update_won \<and> old_text \<noteq> txt)
              in if \<not> value_changed \<and> \<not> text_changed then (False, s)
                 else (True, put_progress key (progress\<lparr>
                     ap_stats := AList.update clean_stat new (ap_stats progress),
                     ap_stat_texts := (if txt \<noteq> [] \<and> update_won then AList.update clean_stat txt (ap_stat_texts progress)
                       else ap_stat_texts progress)\<rparr>) s)))"

section \<open>Races\<close>

record race_awards =
  ra_event_type :: int
  ra_viral_stat :: "string option"
  ra_viral_recipients :: "int list"
  ra_carbon_plague_recipients :: "int list"
  ra_beat_moderator_recipients :: "int list"

record ranked_race_progression =
  rp_awards :: race_awards
  rp_ranked :: bool
  rp_skill_levels :: "(int \<times> rat) list"
  rp_rep_awards :: "(int \<times> rat) list"

definition unique_participants :: "identity list \<Rightarrow> (int \<times> identity) list" where
  "unique_participants participants = fold (\<lambda>i. AList.update (id_profile_id i) i) participants []"

fun progresses_for :: "(int \<times> identity) list \<Rightarrow> progression_store \<Rightarrow> (int \<times> string) list \<times> progression_store" where
  "progresses_for [] s = ([], s)"
| "progresses_for ((profile_id, i) # rest) s =
     (let (key, s) = progress_for_identity i s;
          (progresses, s) = progresses_for rest s
      in ((profile_id, key) # progresses, s))"

text \<open>Set a flag on those who do not have it; the result names them.\<close>

fun grant_flag :: "string \<Rightarrow> (int \<times> string) list \<Rightarrow> progression_store \<Rightarrow> int list \<times> progression_store" where
  "grant_flag stat [] s = ([], s)"
| "grant_flag stat ((profile_id, key) # rest) s =
     (if account_stat s key stat = 0
      then let (recipients, s) = grant_flag stat rest (put_stat key stat 1 s) in (profile_id # recipients, s)
      else grant_flag stat rest s)"

definition has_all_viruses :: "progression_store \<Rightarrow> string \<Rightarrow> bool" where
  "has_all_viruses s key = (\<forall>stat \<in> set VIRUS_STATS. account_stat s key stat \<noteq> 0)"

definition award_race :: "identity list \<Rightarrow> int \<Rightarrow> int list \<Rightarrow> bool \<Rightarrow> progression_store \<Rightarrow> race_awards \<times> progression_store" where
  "award_race participants event_type winner_ids ranked s =
    (let unique = unique_participants participants;
         viral_stat = map_of VIRUS_BY_EVENT_TYPE event_type;
         (progresses, s) = progresses_for unique s;
         has_moderator = (ranked \<and> (\<exists>(p, key) \<in> set progresses. EA_MODERATOR_ROLE |\<in>| account_roles s key));
         virus_present = (case viral_stat of None \<Rightarrow> False
           | Some stat \<Rightarrow> \<exists>(p, key) \<in> set progresses. account_stat s key stat \<noteq> 0);
         already = [p. (p, key) \<leftarrow> progresses, has_all_viruses s key];
         (viral, s) = (if virus_present then grant_flag (the viral_stat) progresses s else ([], s));
         now = [p. (p, key) \<leftarrow> progresses, has_all_viruses s key];
         (beat, s) = (if has_moderator
           then grant_flag BEAT_MODERATOR_STAT
             [(p, the (map_of progresses p)). p \<leftarrow> sort (map fst unique), p \<in> set winner_ids] s
           else ([], s))
     in (\<lparr>ra_event_type = event_type, ra_viral_stat = (if virus_present then viral_stat else None),
          ra_viral_recipients = sort viral, ra_carbon_plague_recipients = sort [p \<leftarrow> now. p \<notin> set already],
          ra_beat_moderator_recipients = sort beat\<rparr>, s))"

definition bump :: "string \<Rightarrow> string \<Rightarrow> rat \<Rightarrow> progression_store \<Rightarrow> progression_store" where
  "bump key stat amount s = put_stat key stat (account_stat s key stat + amount) s"

definition count_race :: "int list \<Rightarrow> (int \<times> string) list \<Rightarrow> progression_store \<Rightarrow> progression_store" where
  "count_race finished progresses s = fold (\<lambda>(p, key) s.
     bump key (if p \<in> set finished then TOTAL_GAMES_FINISHED_STAT else DNF_LOSSES_STAT) 1
       (bump key TOTAL_GAMES_STARTED_STAT 1 s)) progresses s"

fun store_ratings ::
  "int list \<Rightarrow> (int \<times> int) list \<Rightarrow> int \<Rightarrow> (int \<times> string) list \<Rightarrow> (int \<times> rat) list \<Rightarrow> progression_store \<Rightarrow>
   (int \<times> rat) list \<times> (int \<times> rat) list \<times> progression_store" where
  "store_ratings finished ranks player_count progresses [] s = ([], [], s)"
| "store_ratings finished ranks player_count progresses ((p, new_skill) # rest) s =
     (let key = the (map_of progresses p);
          s = put_stat key SKILL_LEVEL_STAT new_skill s;
          rep = calculate_rep_score player_count (dict_get ranks p 0) (p \<in> set finished);
          s = (if rep \<noteq> 0 then bump key ONLINE_REP_STAT rep s else s);
          (skills, reps, s) = store_ratings finished ranks player_count progresses rest s
      in ((p, new_skill) # skills, (p, rep) # reps, s))"

definition race_order :: "(int \<times> int) list \<Rightarrow> int list \<Rightarrow> int list" where
  "race_order ranks profile_ids = sort_key (\<lambda>p. (dict_get ranks p 0 \<le> 0, if dict_get ranks p 0 = 0 then 999 else dict_get ranks p 0, p)) profile_ids"

definition record_authoritative_race ::
  "identity list \<Rightarrow> int \<Rightarrow> (int \<times> int) list \<Rightarrow> int list \<Rightarrow> bool \<Rightarrow> progression_store \<Rightarrow>
   (progression_error + ranked_race_progression) \<times> progression_store" where
  "record_authoritative_race participants event_type rankings finished_ids ranked s =
    (let unique = unique_participants participants;
         finished = [p \<leftarrow> finished_ids. p \<in> fst ` set unique];
         ranks = map (\<lambda>(p, i). (p, dict_get rankings p 0)) unique;
         winners = [p. (p, rank) \<leftarrow> ranks, rank = 1 \<and> p \<in> set finished];
         (awards, s) = award_race (map snd unique) event_type winners ranked s;
         (progresses, s) = progresses_for unique s;
         s = count_race finished progresses s;
         ordered = race_order ranks (map fst unique)
     in if ranked \<and> 2 \<le> length ordered
        then let old_skills = [(case map_of (ps_accounts s) (the (map_of progresses p)) of
                     None \<Rightarrow> DEFAULT_SKILL_LEVEL | Some progress \<Rightarrow> stat_or DEFAULT_SKILL_LEVEL progress SKILL_LEVEL_STAT). p \<leftarrow> ordered];
                 rank_values = [(if dict_get ranks p 0 = 0 then int (length ordered) else dict_get ranks p 0). p \<leftarrow> ordered]
             in case calculate_skill_levels old_skills rank_values of
                  Inl e \<Rightarrow> (Inl e, s)
                | Inr new_skills \<Rightarrow>
                    let (skills, reps, s) = store_ratings finished ranks (int (length ordered)) progresses (zip ordered new_skills) s
                    in (Inr \<lparr>rp_awards = awards, rp_ranked = ranked, rp_skill_levels = skills, rp_rep_awards = reps\<rparr>, s)
        else (Inr \<lparr>rp_awards = awards, rp_ranked = ranked, rp_skill_levels = [], rp_rep_awards = []\<rparr>, s))"

end
