(* ===== verification/SkillRatings.thy ===== *)
theory SkillRatings
  imports Progression
begin

text \<open>
  The ranked scores of \<open>carbon/progression.py\<close>: the reputation table and the skill pool.
\<close>

section \<open>Reputation\<close>

lemma rep_rows:
  assumes "2 \<le> c" "c \<le> (8::int)"
  shows "\<exists>row. REP_SCORE_TABLE ! nat (c - 2) = row \<and> length row = 8 \<and> sorted_wrt (\<ge>) row \<and>
    (\<forall>k < 8. 0 \<le> row ! k \<and> row ! k \<le> 40 \<and> (row ! k \<noteq> 0 \<longleftrightarrow> int k + 1 < c))"
proof -
  have "c \<in> {2, 3, 4, 5, 6, 7, 8}" using assms by auto
  then show ?thesis by (auto simp: REP_SCORE_TABLE_def less_Suc_eq numeral_nat)
qed

text \<open>
  Reputation is awarded to exactly the finishers of a race of 2 to 8 players that are
  not in last place, it is at most 40 points, and a better rank never earns less.
\<close>

theorem rep_score_rule:
  "(calculate_rep_score c r f \<noteq> 0 \<longleftrightarrow> f \<and> 2 \<le> c \<and> c \<le> 8 \<and> 1 \<le> r \<and> r < c) \<and>
   0 \<le> calculate_rep_score c r f \<and> calculate_rep_score c r f \<le> 40 \<and>
   (1 \<le> r \<and> r \<le> r' \<longrightarrow> calculate_rep_score c r' f \<le> calculate_rep_score c r f)"
proof (cases "f \<and> 2 \<le> c \<and> c \<le> 8")
  case True
  then obtain row where row: "REP_SCORE_TABLE ! nat (c - 2) = row" "length row = 8" "sorted_wrt (\<ge>) row"
    "\<forall>k < 8. 0 \<le> row ! k \<and> row ! k \<le> 40 \<and> (row ! k \<noteq> 0 \<longleftrightarrow> int k + 1 < c)" using rep_rows by blast
  have score: "calculate_rep_score c q f = (if 1 \<le> q \<and> q \<le> 8 then row ! nat (q - 1) else 0)" for q
    using True row(1) by (auto simp: calculate_rep_score_def)
  have k: "nat (q - 1) < 8" "int (nat (q - 1)) + 1 = q" if "1 \<le> q" "q \<le> 8" for q using that by auto
  have "row ! nat (r' - 1) \<le> row ! nat (r - 1)" if "1 \<le> r" "r \<le> r'" "r' \<le> 8"
  proof (cases "r = r'")
    case False
    with that row(2) show ?thesis using sorted_wrt_nth_less[OF row(3), of "nat (r - 1)" "nat (r' - 1)"] by simp
  qed simp
  moreover have "0 \<le> calculate_rep_score c q f" "calculate_rep_score c q f \<le> 40" for q
    using row(4) k[of q] by (simp_all add: score)
  moreover have "calculate_rep_score c r f \<noteq> 0 \<longleftrightarrow> f \<and> 2 \<le> c \<and> c \<le> 8 \<and> 1 \<le> r \<and> r < c"
  proof -
    have "row ! nat (r - 1) \<noteq> 0 \<longleftrightarrow> r < c" if "1 \<le> r" "r \<le> 8" using row(4) k[OF that] by simp
    then show ?thesis using True unfolding score[of r] by auto
  qed
  moreover have "0 \<le> row ! nat (q - 1)" if "1 \<le> q" "q \<le> 8" for q using row(4) k[OF that] by simp
  ultimately show ?thesis by (auto simp: score)
qed (auto simp: calculate_rep_score_def)

theorem rep_score_rule_witness:
  "calculate_rep_score 8 3 True \<le> calculate_rep_score 8 1 True \<and> calculate_rep_score 8 7 True \<noteq> 0"
  using rep_score_rule[of 8 1 True 3] rep_score_rule[of 8 7 True 8] by simp


section \<open>The skill pool\<close>

lemma settle_one_length [simp]: "length (settle_one i u) = length u"
  by (simp add: settle_one_def Let_def)

lemma sum_list_shift: "sum_list (map (\<lambda>y. y + c) u) = sum_list u + of_nat (length u) * (c :: rat)"
  by (induction u) (auto simp: algebra_simps)

lemma sum_list_replace: "i < length u \<Longrightarrow> sum_list (u[i := v]) = sum_list u - u ! i + (v :: rat)"
  by (induction u arbitrary: i) (auto split: nat.split)

lemma share_arith: "m \<noteq> 0 \<Longrightarrow> t + (m + 1) * ((x - v) / m) - (x + (x - v) / m) + v = (t :: rat)"
  by (simp add: field_simps)

lemma share_out:
  assumes "2 \<le> length u" "i < length u"
  shows "sum_list ((map (\<lambda>y. y + (u ! i - v) / of_nat (length u - 1)) u)[i := v]) = sum_list (u :: rat list)"
proof -
  have n: "of_nat (length u - 1) \<noteq> (0 :: rat)" "of_nat (length u) = of_nat (length u - 1) + (1 :: rat)"
    using assms(1) by (simp_all add: of_nat_diff)
  have "sum_list ((map (\<lambda>y. y + (u ! i - v) / of_nat (length u - 1)) u)[i := v]) =
      sum_list u + of_nat (length u) * ((u ! i - v) / of_nat (length u - 1)) - (u ! i + (u ! i - v) / of_nat (length u - 1)) + v"
    using assms(2) by (simp add: sum_list_replace sum_list_shift)
  also have "\<dots> = sum_list u" unfolding n(2) by (rule share_arith[OF n(1)])
  finally show ?thesis .
qed

lemma settle_one_sum: "2 \<le> length u \<Longrightarrow> i < length u \<Longrightarrow> sum_list (settle_one i u) = sum_list u"
  using share_out[of u i 3000] share_out[of u i 0] by (simp add: settle_one_def Let_def)

lemma settle_sum: "2 \<le> length u \<Longrightarrow> sum_list (settle u) = sum_list u"
proof -
  have "\<forall>i \<in> set is. i < length u \<Longrightarrow> 2 \<le> length u \<Longrightarrow>
      length (fold settle_one is u) = length u \<and> sum_list (fold settle_one is u) = sum_list u" for "is"
    by (induction "is" arbitrary: u) (auto simp: settle_one_sum)
  then show "2 \<le> length u \<Longrightarrow> sum_list (settle u) = sum_list u" by (simp add: settle_def)
qed

lemma settle_length [simp]: "length (settle u) = length u"
proof -
  have "length (fold settle_one is u) = length u" for "is"
    by (induction "is" arbitrary: u) auto
  then show ?thesis by (simp add: settle_def)
qed

lemma clamp_range: "0 \<le> clamp_skill x \<and> clamp_skill x \<le> 3000"
  by (simp add: clamp_skill_def)

lemma clamp_id: "0 \<le> x \<Longrightarrow> x \<le> 3000 \<Longrightarrow> clamp_skill x = x"
  by (simp add: clamp_skill_def)

text \<open>
  New skill levels stay in the pool from 0 to 3000, one per player, and the only refusal
  is a ranking list of another length.
\<close>

theorem skill_levels_in_pool:
  "case calculate_skill_levels current rankings of
     Inl e \<Rightarrow> e = Skill_Lengths_Differ \<and> length current \<noteq> length rankings
   | Inr new \<Rightarrow> length new = length current \<and> (\<forall>x \<in> set new. 0 \<le> x \<and> x \<le> 3000)"
  by (auto simp: calculate_skill_levels_def clamp_range)

text \<open>A game between two players is worth one point, or none if they tie.\<close>

lemma versus_pair: "versus a b r q + versus b a q r = (if r = q then - 1 else 0)"
  by (auto simp: versus_def Let_def max_def min_def field_simps)

lemma sum_list_guarded:
  "sum_list (concat (map (\<lambda>j. if P j then [f j] else []) xs)) = sum_list (map (\<lambda>j. if P j then f j else 0 :: rat) xs)"
  by (induction xs) auto

lemma delta_sum:
  "skill_delta skills ranks i = (50 / of_nat (length skills) - 1) *
     (\<Sum>j \<in> {..<length skills} - {i}. versus (skills ! i) (skills ! j) (ranks ! i) (ranks ! j))"
proof -
  let ?f = "\<lambda>j. versus (skills ! i) (skills ! j) (ranks ! i) (ranks ! j)"
  let ?c = "50 / of_nat (length skills) - 1 :: rat"
  have "skill_delta skills ranks i = sum_list (map (\<lambda>j. if j \<noteq> i then ?f j * ?c else 0) [0..<length skills])"
    unfolding skill_delta_def Let_def by (rule sum_list_guarded)
  also have "\<dots> = (\<Sum>j < length skills. if j \<noteq> i then ?f j * ?c else 0)"
    by (simp add: interv_sum_list_conv_sum_set_nat atLeast0LessThan)
  also have "\<dots> = (\<Sum>j \<in> {..<length skills} - {i}. ?f j * ?c)"
    by (rule sum.mono_neutral_cong_right) auto
  finally show ?thesis by (simp add: sum_distrib_left mult.commute)
qed

definition tied_pairs :: "int list \<Rightarrow> nat" where
  "tied_pairs ranks = card {(i, j). i < length ranks \<and> j < length ranks \<and> i \<noteq> j \<and> ranks ! i = ranks ! j}"

lemma delta_total:
  assumes "length ranks = length skills"
  shows "(\<Sum>i < length skills. skill_delta skills ranks i) = - (50 / of_nat (length skills) - 1) * of_nat (tied_pairs ranks) / 2"
proof -
  define n where "n = length skills"
  define c where "c = (50 / of_nat n - 1 :: rat)"
  define t where "t i j = versus (skills ! i) (skills ! j) (ranks ! i) (ranks ! j)" for i j
  define T where "T = (\<Sum>i < n. \<Sum>j < n. if i \<noteq> j then t i j else 0)"
  have "(\<Sum>j \<in> {..<n} - {i}. t i j) = (\<Sum>j < n. if i \<noteq> j then t i j else 0)" for i
    by (rule sum.mono_neutral_cong_left) auto
  then have sum: "(\<Sum>i < n. skill_delta skills ranks i) = c * T"
    unfolding delta_sum n_def[symmetric] c_def[symmetric] t_def[symmetric] T_def sum_distrib_left[symmetric] by simp
  have "T + T = (\<Sum>i < n. \<Sum>j < n. if i \<noteq> j then t i j else 0) + (\<Sum>j < n. \<Sum>i < n. if i \<noteq> j then t i j else 0)"
    unfolding T_def by (subst sum.swap) simp
  also have "\<dots> = (\<Sum>i < n. \<Sum>j < n. if i \<noteq> j then t i j + t j i else 0)"
    unfolding sum.distrib[symmetric] by (intro sum.cong refl) auto
  also have "\<dots> = (\<Sum>i < n. \<Sum>j < n. if i \<noteq> j \<and> ranks ! i = ranks ! j then - 1 else 0)"
    by (intro sum.cong refl) (auto simp: t_def versus_pair)
  also have "\<dots> = (\<Sum>p \<in> {..<n} \<times> {..<n}. if fst p \<noteq> snd p \<and> ranks ! fst p = ranks ! snd p then - 1 else 0)"
    by (simp add: sum.cartesian_product case_prod_beta)
  also have "\<dots> = - of_nat (tied_pairs ranks)"
  proof -
    have "{p \<in> {..<n} \<times> {..<n}. fst p \<noteq> snd p \<and> ranks ! fst p = ranks ! snd p} =
        {(i, j). i < length ranks \<and> j < length ranks \<and> i \<noteq> j \<and> ranks ! i = ranks ! j}"
      using assms by (auto simp: n_def)
    then show ?thesis by (simp add: tied_pairs_def sum.If_cases sum_negf Int_def)
  qed
  finally have "T = - of_nat (tied_pairs ranks) / 2" by simp
  then show ?thesis unfolding n_def[symmetric] c_def[symmetric] sum by simp
qed

definition raw_skills :: "rat list \<Rightarrow> int list \<Rightarrow> rat list" where
  "raw_skills current rankings = map (\<lambda>i. current ! i + skill_delta current rankings i) [0..<length current]"

lemma raw_sum:
  "length rankings = length current \<Longrightarrow>
   sum_list (raw_skills current rankings) = sum_list current - (50 / of_nat (length current) - 1) * of_nat (tied_pairs rankings) / 2"
proof -
  assume l: "length rankings = length current"
  have "sum_list (raw_skills current rankings) = (\<Sum>i < length current. current ! i) + (\<Sum>i < length current. skill_delta current rankings i)"
    by (simp add: raw_skills_def interv_sum_list_conv_sum_set_nat atLeast0LessThan sum.distrib)
  moreover have "(\<Sum>i < length current. current ! i) = sum_list current" by (simp add: sum_list_sum_nth atLeast0LessThan)
  moreover have "a + - f * x / 2 = a - f * x / (2 :: rat)" for a f x by simp
  ultimately show ?thesis by (simp only: delta_total[OF l])
qed




end
