(* ===== verification/ProgressionProps.thy ===== *)
theory ProgressionProps
  imports SkillRatings
begin

text \<open>
  The progression store of \<open>carbon/progression.py\<close>: what clients can change, what a race
  adds to the statistics, how viral vinyls spread and when \<open>Beat_Moderator\<close> is earned.
\<close>

section \<open>Reading after writing\<close>

lemma account_stat_put:
  "account_stat (put_stat k st v s) k' st' =
     (if k' = k \<and> st' = st \<and> map_of (ps_accounts s) k \<noteq> None then v else account_stat s k' st')"
  by (auto simp: account_stat_def put_stat_def put_progress_def stat_or_def AList.update_conv' split: option.splits)

lemma account_roles_put [simp]: "account_roles (put_stat k st v s) = account_roles s"
  by (auto simp: fun_eq_iff account_roles_def put_stat_def put_progress_def AList.update_conv' split: option.splits)

lemma known_put [simp]: "(map_of (ps_accounts (put_stat k st v s)) k' = None) = (map_of (ps_accounts s) k' = None)"
  by (auto simp: put_stat_def put_progress_def AList.update_conv' split: option.splits)

lemma known_put' [simp]: "(\<exists>y. map_of (ps_accounts (put_stat k st v s)) k' = Some y) = (\<exists>y. map_of (ps_accounts s) k' = Some y)"
  using known_put[of k st v s k'] by (simp flip: not_None_eq)

lemma account_stat_bump:
  "map_of (ps_accounts s) k \<noteq> None \<Longrightarrow>
   account_stat (bump k st a s) k' st' = account_stat s k' st' + (if k' = k \<and> st' = st then a else 0)"
  by (simp add: bump_def account_stat_put)

lemma account_roles_bump [simp]: "account_roles (bump k st a s) = account_roles s"
  by (simp add: bump_def)

lemma known_bump [simp]: "(map_of (ps_accounts (bump k st a s)) k' = None) = (map_of (ps_accounts s) k' = None)"
  by (simp add: bump_def)

text \<open>Looking a participant up creates an empty record at most.\<close>

lemma identity_stat: "progress_for_identity i s = (key, s') \<Longrightarrow>
   key = account_key (id_account_name i) \<and> map_of (ps_accounts s') key \<noteq> None \<and> account_stat s' = account_stat s \<and>
   account_roles s' = account_roles s \<and> (\<forall>k. map_of (ps_accounts s) k \<noteq> None \<longrightarrow> map_of (ps_accounts s') k \<noteq> None)"
  by (auto simp: progress_for_identity_def Let_def account_stat_def account_roles_def stat_or_def new_progress_def
      AList.update_conv' fun_eq_iff split: option.splits if_splits)

lemma progresses_for_facts:
  "progresses_for unique s = (progresses, s') \<Longrightarrow>
   progresses = map (\<lambda>(p, i). (p, account_key (id_account_name i))) unique \<and> account_stat s' = account_stat s \<and>
   account_roles s' = account_roles s \<and> (\<forall>(p, key) \<in> set progresses. map_of (ps_accounts s') key \<noteq> None) \<and>
   (\<forall>k. map_of (ps_accounts s) k \<noteq> None \<longrightarrow> map_of (ps_accounts s') k \<noteq> None)"
proof (induction unique arbitrary: s progresses s')
  case (Cons x unique)
  obtain p i where x: "x = (p, i)" by (cases x)
  obtain key s1 where one: "progress_for_identity i s = (key, s1)" by fastforce
  obtain rest s2 where two: "progresses_for unique s1 = (rest, s2)" by fastforce
  have eq: "progresses = (p, key) # rest" "s' = s2" using Cons.prems one two by (simp_all add: x)
  from Cons.IH[OF two] identity_stat[OF one] show ?case by (auto simp: eq x)
qed simp

section \<open>Flags\<close>

text \<open>Granting a flag sets it for everybody listed, names those who lacked it, and touches nothing else.\<close>

lemma grant_flag_facts:
  "grant_flag stat progresses s = (recipients, s') \<Longrightarrow> \<forall>(p, key) \<in> set progresses. map_of (ps_accounts s) key \<noteq> None \<Longrightarrow>
   (\<forall>k st. account_stat s' k st =
      (if st = stat \<and> k \<in> snd ` set progresses \<and> account_stat s k st = 0 then 1 else account_stat s k st)) \<and>
   account_roles s' = account_roles s \<and> (\<forall>k. (map_of (ps_accounts s') k = None) = (map_of (ps_accounts s) k = None)) \<and>
   set recipients \<subseteq> {p. \<exists>key. (p, key) \<in> set progresses \<and> account_stat s key stat = 0} \<and>
   (distinct (map snd progresses) \<longrightarrow> set recipients = {p. \<exists>key. (p, key) \<in> set progresses \<and> account_stat s key stat = 0})"
proof (induction progresses arbitrary: s recipients s')
  case (Cons x progresses)
  obtain p key where x: "x = (p, key)" by (cases x)
  define s1 where "s1 = (if account_stat s key stat = 0 then put_stat key stat 1 s else s)"
  obtain rest s2 where two: "grant_flag stat progresses s1 = (rest, s2)" by fastforce
  have eq: "s' = s2" "recipients = (if account_stat s key stat = 0 then p # rest else rest)"
    using Cons.prems(1) two by (auto simp: x s1_def split: if_splits)
  have known: "\<forall>(p, key) \<in> set progresses. map_of (ps_accounts s1) key \<noteq> None" using Cons.prems(2) by (auto simp: s1_def)
  have st1: "account_stat s1 k st = (if k = key \<and> st = stat \<and> account_stat s key stat = 0 then 1 else account_stat s k st)" for k st
    using Cons.prems(2) by (auto simp: s1_def x account_stat_put)
  note IH = Cons.IH[OF two known]
  show ?case
  proof (intro conjI impI)
    show "\<forall>k st. account_stat s' k st =
      (if st = stat \<and> k \<in> snd ` set (x # progresses) \<and> account_stat s k st = 0 then 1 else account_stat s k st)"
      using IH by (auto simp: eq st1 x)
    show "account_roles s' = account_roles s" "\<forall>k. (map_of (ps_accounts s') k = None) = (map_of (ps_accounts s) k = None)"
      using IH by (auto simp: eq s1_def)
    show "set recipients \<subseteq> {p. \<exists>key. (p, key) \<in> set (x # progresses) \<and> account_stat s key stat = 0}"
      using IH by (auto simp: eq st1 x split: if_splits)
    assume dist: "distinct (map snd (x # progresses))"
    then have "account_stat s1 k stat = account_stat s k stat" if "(q, k) \<in> set progresses" for q k
      using that by (force simp: st1 x)
    then have "set rest = {p. \<exists>key. (p, key) \<in> set progresses \<and> account_stat s key stat = 0}"
      using IH dist by (auto simp: x)
    then show "set recipients = {p. \<exists>key. (p, key) \<in> set (x # progresses) \<and> account_stat s key stat = 0}"
      by (auto simp: eq x)
  qed
qed simp

section \<open>Awards\<close>

lemma unique_distinct: "distinct (map fst (unique_participants ps))"
proof -
  have "distinct (map fst (fold (\<lambda>i. AList.update (id_profile_id i) i) ps d))" if "distinct (map fst d)" for d
    using that by (induction ps arbitrary: d) (auto simp: distinct_update)
  then show ?thesis by (simp add: unique_participants_def)
qed

definition participant_keys :: "identity list \<Rightarrow> string set" where
  "participant_keys ps = (\<lambda>(p, i). account_key (id_account_name i)) ` set (unique_participants ps)"

definition winner_keys :: "identity list \<Rightarrow> int list \<Rightarrow> string set" where
  "winner_keys ps winners = {account_key (id_account_name i) | p i. (p, i) \<in> set (unique_participants ps) \<and> p \<in> set winners}"

definition infects :: "identity list \<Rightarrow> int \<Rightarrow> progression_store \<Rightarrow> string \<Rightarrow> bool" where
  "infects ps event_type s stat = (map_of VIRUS_BY_EVENT_TYPE event_type = Some stat \<and>
     (\<exists>key \<in> participant_keys ps. account_stat s key stat \<noteq> 0))"

definition moderated :: "identity list \<Rightarrow> bool \<Rightarrow> progression_store \<Rightarrow> bool" where
  "moderated ps ranked s = (ranked \<and> (\<exists>key \<in> participant_keys ps. EA_MODERATOR_ROLE |\<in>| account_roles s key))"

lemma event_virus: "map_of VIRUS_BY_EVENT_TYPE e = Some stat \<Longrightarrow> stat \<in> set VIRUS_STATS \<and> stat \<noteq> BEAT_MODERATOR_STAT"
  by (auto simp: VIRUS_BY_EVENT_TYPE_def VIRUS_STATS_def BEAT_MODERATOR_STAT_def split: if_splits)

text \<open>Every statistic after the awards of a race, and the accounts that exist.\<close>

lemma award_stats:
  assumes a: "award_race ps event_type winners ranked s = (aw, s')"
  shows "account_stat s' k st =
      (if (infects ps event_type s st \<and> k \<in> participant_keys ps \<or>
           moderated ps ranked s \<and> st = BEAT_MODERATOR_STAT \<and> k \<in> winner_keys ps winners) \<and> account_stat s k st = 0
       then 1 else account_stat s k st)"
    and "account_roles s' = account_roles s"
    and "\<forall>k \<in> participant_keys ps. map_of (ps_accounts s') k \<noteq> None"
    and "ra_viral_stat aw = (if \<exists>stat. infects ps event_type s stat then map_of VIRUS_BY_EVENT_TYPE event_type else None)"
proof -
  define us where "us = unique_participants ps"
  obtain progs s1 where p: "progresses_for us s = (progs, s1)" by fastforce
  note facts = progresses_for_facts[OF p]
  have keys: "snd ` set progs = participant_keys ps" using facts by (force simp: participant_keys_def us_def)
  have over: "(\<exists>(p, key) \<in> set progs. P key) = (\<exists>key \<in> participant_keys ps. P key)" for P
    unfolding keys[symmetric] by force
  have same: "account_stat s1 = account_stat s" "account_roles s1 = account_roles s" using facts by simp_all
  have mod: "(ranked \<and> (\<exists>(p, key) \<in> set progs. EA_MODERATOR_ROLE |\<in>| account_roles s1 key)) = moderated ps ranked s"
    by (simp add: moderated_def over same)
  have vir: "(case map_of VIRUS_BY_EVENT_TYPE event_type of None \<Rightarrow> False
           | Some stat \<Rightarrow> \<exists>(p, key) \<in> set progs. account_stat s1 key stat \<noteq> 0) = (\<exists>stat. infects ps event_type s stat)"
    by (auto simp: infects_def over same split: option.splits)
  obtain viral s2 where v: "(if \<exists>stat. infects ps event_type s stat then grant_flag (the (map_of VIRUS_BY_EVENT_TYPE event_type)) progs s1 else ([], s1)) = (viral, s2)"
    by fastforce
  define ws where "ws = [(p, the (map_of progs p)). p \<leftarrow> sort (map fst us), p \<in> set winners]"
  obtain beat s3 where b: "(if moderated ps ranked s then grant_flag BEAT_MODERATOR_STAT ws s2 else ([], s2)) = (beat, s3)" by fastforce
  have s3: "s' = s3" "ra_viral_stat aw = (if \<exists>stat. infects ps event_type s stat then map_of VIRUS_BY_EVENT_TYPE event_type else None)"
    using a p mod vir v b by (auto simp: award_race_def Let_def us_def ws_def)
  have known1: "\<forall>(p, key) \<in> set progs. map_of (ps_accounts s1) key \<noteq> None" using facts by blast
  have two: "account_stat s2 k st = (if infects ps event_type s st \<and> k \<in> participant_keys ps \<and> account_stat s k st = 0 then 1 else account_stat s k st)"
    and roles2: "account_roles s2 = account_roles s" and known2: "(map_of (ps_accounts s2) k = None) = (map_of (ps_accounts s1) k = None)" for k st
    using v grant_flag_facts[OF _ known1] facts keys by (auto simp: infects_def split: if_splits)
  have "map_of progs p = map_option (\<lambda>i. account_key (id_account_name i)) (map_of us p)" for p
    using facts by (simp add: map_of_map)
  then have look: "the (map_of progs p) = account_key (id_account_name i)" if "(p, i) \<in> set us" for p i
    using that unique_distinct[of ps] unfolding us_def[symmetric] by simp
  have "set ws = (\<lambda>p. (p, the (map_of progs p))) ` (fst ` set us \<inter> set winners)" by (auto simp: ws_def)
  moreover have "fst ` set us \<inter> set winners = fst ` {x \<in> set us. fst x \<in> set winners}" by auto
  ultimately have "snd ` set ws = (\<lambda>x. the (map_of progs (fst x))) ` {x \<in> set us. fst x \<in> set winners}"
    by (simp add: image_image)
  also have "\<dots> = (\<lambda>x. account_key (id_account_name (snd x))) ` {x \<in> set us. fst x \<in> set winners}"
    by (rule image_cong) (auto simp: look)
  also have "\<dots> = winner_keys ps winners" unfolding winner_keys_def us_def[symmetric]
    by (auto simp: image_def Bex_def)
  finally have wkeys: "snd ` set ws = winner_keys ps winners" .
  have "snd ` set ws \<subseteq> participant_keys ps" unfolding wkeys
    by (auto simp: winner_keys_def participant_keys_def image_def Bex_def)
  then have known3: "\<forall>(p, key) \<in> set ws. map_of (ps_accounts s2) key \<noteq> None" using known1 known2 unfolding keys[symmetric] by (auto simp: image_def Bex_def)
  have three: "account_stat s3 k st = (if moderated ps ranked s \<and> st = BEAT_MODERATOR_STAT \<and> k \<in> winner_keys ps winners \<and> account_stat s2 k st = 0 then 1 else account_stat s2 k st)"
    and roles3: "account_roles s3 = account_roles s" and known4: "(map_of (ps_accounts s3) k = None) = (map_of (ps_accounts s2) k = None)" for k st
    using b grant_flag_facts[OF _ known3] roles2 wkeys by (auto split: if_splits)
  have "\<not> infects ps event_type s BEAT_MODERATOR_STAT" using event_virus by (auto simp: infects_def)
  then show "account_stat s' k st = (if (infects ps event_type s st \<and> k \<in> participant_keys ps \<or>
           moderated ps ranked s \<and> st = BEAT_MODERATOR_STAT \<and> k \<in> winner_keys ps winners) \<and> account_stat s k st = 0
       then 1 else account_stat s k st)"
    unfolding s3 three two by auto
  show "account_roles s' = account_roles s" by (simp add: s3 roles3)
  show "\<forall>k \<in> participant_keys ps. map_of (ps_accounts s') k \<noteq> None"
    using known1 known2 known4 unfolding keys[symmetric] s3 by auto
  show "ra_viral_stat aw = (if \<exists>stat. infects ps event_type s stat then map_of VIRUS_BY_EVENT_TYPE event_type else None)"
    by (rule s3(2))
qed

text \<open>
  Viral vinyls spread and are never lost.  After the awards of a race whose event has a
  virus, all participants carry it if one of them did; the result names the virus exactly
  then.  No other account changes, a flag only ever goes from 0 to 1, and roles do not change.
\<close>

theorem virus_spreads:
  assumes a: "award_race ps event_type winners ranked s = (aw, s')" and e: "map_of VIRUS_BY_EVENT_TYPE event_type = Some stat"
  shows "(if \<exists>key \<in> participant_keys ps. account_stat s key stat \<noteq> 0
      then ra_viral_stat aw = Some stat \<and> (\<forall>key \<in> participant_keys ps. account_stat s' key stat \<noteq> 0)
      else ra_viral_stat aw = None \<and> (\<forall>key. account_stat s' key stat = account_stat s key stat)) \<and>
    (\<forall>key st. account_stat s' key st \<noteq> account_stat s key st \<longrightarrow>
       key \<in> participant_keys ps \<and> st \<in> {stat, BEAT_MODERATOR_STAT} \<and> account_stat s key st = 0 \<and> account_stat s' key st = 1) \<and>
    account_roles s' = account_roles s"
proof -
  have inf: "infects ps event_type s st = (st = stat \<and> (\<exists>key \<in> participant_keys ps. account_stat s key stat \<noteq> 0))" for st
    using e by (auto simp: infects_def)
  have sub: "winner_keys ps winners \<subseteq> participant_keys ps" by (force simp: winner_keys_def participant_keys_def)
  have ne: "stat \<noteq> BEAT_MODERATOR_STAT" using event_virus[OF e] by simp
  show ?thesis using award_stats(2,4)[OF a] e sub ne unfolding award_stats(1)[OF a] inf by auto
qed

text \<open>
  \<open>Beat_Moderator\<close> is earned only in a ranked race with an EA moderator among the
  participants, and then by exactly the winners who did not have it.
\<close>

theorem beat_moderator_earned:
  assumes a: "award_race ps event_type winners ranked s = (aw, s')"
  shows "account_stat s' key BEAT_MODERATOR_STAT \<noteq> account_stat s key BEAT_MODERATOR_STAT \<longleftrightarrow>
    ranked \<and> (\<exists>k \<in> participant_keys ps. EA_MODERATOR_ROLE |\<in>| account_roles s k) \<and>
    key \<in> winner_keys ps winners \<and> account_stat s key BEAT_MODERATOR_STAT = 0"
proof -
  have "\<not> infects ps event_type s BEAT_MODERATOR_STAT" using event_virus by (auto simp: infects_def)
  then show ?thesis unfolding award_stats(1)[OF a] by (auto simp: moderated_def)
qed

section \<open>Counting races\<close>

lemma count_race_stats:
  fixes finished :: "int list"
  assumes "\<forall>(p, key) \<in> set progresses. map_of (ps_accounts s) key \<noteq> None"
  defines "s' \<equiv> count_race finished progresses s"
  shows "account_stat s' k TOTAL_GAMES_STARTED_STAT = account_stat s k TOTAL_GAMES_STARTED_STAT
      + of_nat (length (filter (\<lambda>(p, key). key = k) progresses)) \<and>
    account_stat s' k TOTAL_GAMES_FINISHED_STAT = account_stat s k TOTAL_GAMES_FINISHED_STAT
      + of_nat (length (filter (\<lambda>(p, key). key = k \<and> p \<in> set finished) progresses)) \<and>
    account_stat s' k DNF_LOSSES_STAT = account_stat s k DNF_LOSSES_STAT
      + of_nat (length (filter (\<lambda>(p, key). key = k \<and> p \<notin> set finished) progresses)) \<and>
    (st \<notin> {TOTAL_GAMES_STARTED_STAT, TOTAL_GAMES_FINISHED_STAT, DNF_LOSSES_STAT} \<longrightarrow> account_stat s' k st = account_stat s k st) \<and>
    account_roles s' = account_roles s \<and> (\<forall>k. (map_of (ps_accounts s') k = None) = (map_of (ps_accounts s) k = None))"
  using assms(1) unfolding s'_def
proof (induction progresses arbitrary: s)
  case Nil
  then show ?case by (simp add: count_race_def)
next
  case (Cons x progresses)
  obtain p key where x: "x = (p, key)" by (cases x)
  have names: "TOTAL_GAMES_STARTED_STAT \<noteq> TOTAL_GAMES_FINISHED_STAT" "TOTAL_GAMES_STARTED_STAT \<noteq> DNF_LOSSES_STAT"
    "TOTAL_GAMES_FINISHED_STAT \<noteq> DNF_LOSSES_STAT"
    by (simp_all add: TOTAL_GAMES_STARTED_STAT_def TOTAL_GAMES_FINISHED_STAT_def DNF_LOSSES_STAT_def)
  define s1 where "s1 = bump key (if p \<in> set finished then TOTAL_GAMES_FINISHED_STAT else DNF_LOSSES_STAT) 1
       (bump key TOTAL_GAMES_STARTED_STAT 1 s)"
  have step: "count_race finished (x # progresses) s = count_race finished progresses s1"
    by (simp add: count_race_def x s1_def)
  have known: "\<exists>y. map_of (ps_accounts s) key = Some y" using Cons.prems x by simp
  have k1: "(map_of (ps_accounts s1) k = None) = (map_of (ps_accounts s) k = None)" for k by (simp add: s1_def)
  then have "\<forall>(p, key) \<in> set progresses. map_of (ps_accounts s1) key \<noteq> None" using Cons.prems by auto
  note IH = Cons.IH[OF this]
  have st1: "account_stat s1 k st = account_stat s k st + (if k = key \<and> st = TOTAL_GAMES_STARTED_STAT then 1 else 0)
     + (if k = key \<and> st = (if p \<in> set finished then TOTAL_GAMES_FINISHED_STAT else DNF_LOSSES_STAT) then 1 else 0)" for k st
    unfolding s1_def using known by (subst account_stat_bump) (simp_all add: account_stat_bump)
  show ?case unfolding step using IH names by (auto simp: st1 x k1) (simp_all add: s1_def)
qed

lemma store_ratings_stats:
  "store_ratings finished ranks n progresses zs s = (sk, rp, s') \<Longrightarrow>
   (st \<notin> {SKILL_LEVEL_STAT, ONLINE_REP_STAT} \<longrightarrow> account_stat s' k st = account_stat s k st) \<and> account_roles s' = account_roles s"
proof (induction zs arbitrary: s sk rp s')
  case (Cons z zs)
  obtain p v where z: "z = (p, v)" by (cases z)
  define key where "key = the (map_of progresses p)"
  define rep where "rep = calculate_rep_score n (dict_get ranks p 0) (p \<in> set finished)"
  define s1 where "s1 = (if rep \<noteq> 0 then bump key ONLINE_REP_STAT rep (put_stat key SKILL_LEVEL_STAT v s) else put_stat key SKILL_LEVEL_STAT v s)"
  obtain sk' rp' s2 where r: "store_ratings finished ranks n progresses zs s1 = (sk', rp', s2)" by (cases "store_ratings finished ranks n progresses zs s1")
  have "s' = s2" using Cons.prems r by (simp add: z Let_def key_def rep_def s1_def split: if_splits)
  moreover have "st \<notin> {SKILL_LEVEL_STAT, ONLINE_REP_STAT} \<longrightarrow> account_stat s1 k st = account_stat s k st"
    by (auto simp: s1_def bump_def account_stat_put)
  moreover have "account_roles s1 = account_roles s" by (simp add: s1_def)
  ultimately show ?case using Cons.IH[OF r] by simp
qed simp

text \<open>A recorded race is the awards, the counting and, for a ranked one, the ratings.\<close>

lemma record_shape:
  assumes "record_authoritative_race ps event_type rankings finished_ids ranked s = (r, s')"
  defines "us \<equiv> unique_participants ps"
  defines "finished \<equiv> [p \<leftarrow> finished_ids. p \<in> fst ` set us]"
  shows "\<exists>winners aw s1 progs s2. award_race (map snd us) event_type winners ranked s = (aw, s1) \<and> progresses_for us s1 = (progs, s2) \<and>
    (s' = count_race finished progs s2 \<or>
     (\<exists>ranks n zs sk rp. store_ratings finished ranks n progs zs (count_race finished progs s2) = (sk, rp, s')))"
proof -
  define ranks where "ranks = map (\<lambda>(p, i). (p, dict_get rankings p 0)) us"
  define winners where "winners = [p. (p, rank) \<leftarrow> ranks, rank = 1 \<and> p \<in> set finished]"
  obtain aw s1 where a: "award_race (map snd us) event_type winners ranked s = (aw, s1)" by fastforce
  obtain progs s2 where p: "progresses_for us s1 = (progs, s2)" by fastforce
  define s3 where "s3 = count_race finished progs s2"
  have "s' = s3 \<or> (\<exists>ranks n zs sk rp. store_ratings finished ranks n progs zs s3 = (sk, rp, s'))"
    using assms(1) a p
    unfolding record_authoritative_race_def Let_def us_def[symmetric] finished_def[symmetric] ranks_def[symmetric] winners_def[symmetric]
    by (auto simp: s3_def[symmetric] split: if_splits sum.splits prod.splits)
  with a p show ?thesis unfolding s3_def by blast
qed

lemma counting_names:
  "{TOTAL_GAMES_STARTED_STAT, TOTAL_GAMES_FINISHED_STAT, DNF_LOSSES_STAT} \<inter> ({SKILL_LEVEL_STAT, ONLINE_REP_STAT, BEAT_MODERATOR_STAT} \<union> set VIRUS_STATS) = {}"
  by (simp add: TOTAL_GAMES_STARTED_STAT_def TOTAL_GAMES_FINISHED_STAT_def DNF_LOSSES_STAT_def SKILL_LEVEL_STAT_def
      ONLINE_REP_STAT_def BEAT_MODERATOR_STAT_def VIRUS_STATS_def)

lemma award_counts:
  assumes "award_race ps event_type winners ranked s = (aw, s')" and "st \<in> {TOTAL_GAMES_STARTED_STAT, TOTAL_GAMES_FINISHED_STAT, DNF_LOSSES_STAT}"
  shows "account_stat s' k st = account_stat s k st"
proof -
  have "st \<noteq> BEAT_MODERATOR_STAT" "st \<notin> set VIRUS_STATS" using assms(2) counting_names by blast+
  then have "\<not> infects ps event_type s st" using event_virus by (auto simp: infects_def)
  with \<open>st \<noteq> BEAT_MODERATOR_STAT\<close> show ?thesis unfolding award_stats(1)[OF assms(1)] by simp
qed

definition races_of :: "identity list \<Rightarrow> string \<Rightarrow> (int \<Rightarrow> bool) \<Rightarrow> nat" where
  "races_of ps key P = length (filter (\<lambda>x. account_key (id_account_name (snd x)) = key \<and> P (fst x)) (unique_participants ps))"

lemma race_counts:
  assumes "record_authoritative_race ps event_type rankings finished_ids ranked s = (r, s')"
  shows "account_stat s' key TOTAL_GAMES_STARTED_STAT = account_stat s key TOTAL_GAMES_STARTED_STAT + of_nat (races_of ps key (\<lambda>p. True)) \<and>
    account_stat s' key TOTAL_GAMES_FINISHED_STAT = account_stat s key TOTAL_GAMES_FINISHED_STAT + of_nat (races_of ps key (\<lambda>p. p \<in> set finished_ids)) \<and>
    account_stat s' key DNF_LOSSES_STAT = account_stat s key DNF_LOSSES_STAT + of_nat (races_of ps key (\<lambda>p. p \<notin> set finished_ids)) \<and>
    account_roles s' = account_roles s"
proof -
  define us where "us = unique_participants ps"
  define finished where "finished = [p \<leftarrow> finished_ids. p \<in> fst ` set us]"
  obtain winners aw s1 progs s2 where a: "award_race (map snd us) event_type winners ranked s = (aw, s1)"
    and p: "progresses_for us s1 = (progs, s2)"
    and rest: "s' = count_race finished progs s2 \<or>
      (\<exists>ranks n zs sk rp. store_ratings finished ranks n progs zs (count_race finished progs s2) = (sk, rp, s'))"
    using record_shape[OF assms] unfolding us_def finished_def by blast
  note facts = progresses_for_facts[OF p]
  have known: "\<forall>(p, key) \<in> set progs. map_of (ps_accounts s2) key \<noteq> None" using facts by blast
  have last: "account_stat s' key st = account_stat (count_race finished progs s2) key st"
    if "st \<in> {TOTAL_GAMES_STARTED_STAT, TOTAL_GAMES_FINISHED_STAT, DNF_LOSSES_STAT}" for st
  proof -
    have "st \<notin> {SKILL_LEVEL_STAT, ONLINE_REP_STAT}" using that counting_names by blast
    with rest store_ratings_stats[of finished _ _ progs _ "count_race finished progs s2" _ _ s' st key] show ?thesis by blast
  qed
  have first: "account_stat s2 key st = account_stat s key st"
    if "st \<in> {TOTAL_GAMES_STARTED_STAT, TOTAL_GAMES_FINISHED_STAT, DNF_LOSSES_STAT}" for st
    using award_counts[OF a that] facts by simp
  have n: "length (filter (\<lambda>(p, k). k = key \<and> P p) progs) = races_of ps key P" for P
    using facts by (simp add: races_of_def us_def filter_map comp_def case_prod_beta)
  have fin: "races_of ps key (\<lambda>p. p \<in> set finished) = races_of ps key (\<lambda>p. p \<in> set finished_ids)"
      "races_of ps key (\<lambda>p. p \<notin> set finished) = races_of ps key (\<lambda>p. p \<notin> set finished_ids)"
    unfolding races_of_def finished_def us_def by (auto intro!: arg_cong[where f = length] filter_cong)
  have "account_roles s' = account_roles s"
    using rest store_ratings_stats count_race_stats[OF known, of finished] facts award_stats(2)[OF a] by metis
  then show ?thesis
    using count_race_stats[OF known, of finished key] n[of "\<lambda>p. True"] n[of "\<lambda>p. p \<in> set finished"] n[of "\<lambda>p. p \<notin> set finished"]
    by (simp add: last first fin)
qed

text \<open>
  A recorded race counts once for every participant: the account's started races go up by
  the number of participants it has in the race, the finished races by those of them that
  finished and the losses without a finish by the others.
\<close>

theorem race_counts_participants:
  assumes "record_authoritative_race ps event_type rankings finished_ids ranked s = (r, s')"
  shows "account_stat s' key TOTAL_GAMES_STARTED_STAT = account_stat s key TOTAL_GAMES_STARTED_STAT + of_nat (races_of ps key (\<lambda>p. True)) \<and>
    account_stat s' key TOTAL_GAMES_FINISHED_STAT = account_stat s key TOTAL_GAMES_FINISHED_STAT + of_nat (races_of ps key (\<lambda>p. p \<in> set finished_ids)) \<and>
    account_stat s' key DNF_LOSSES_STAT = account_stat s key DNF_LOSSES_STAT + of_nat (races_of ps key (\<lambda>p. p \<notin> set finished_ids)) \<and>
    account_roles s' = account_roles s"
  by (rule race_counts[OF assms])

section \<open>Clients and the server's statistics\<close>

lemma put_progress_stat:
  "account_stat (put_progress k q s) k' st = (if k' = k then stat_or 0 q st else account_stat s k' st)"
  by (auto simp: account_stat_def put_progress_def AList.update_conv')

lemma put_progress_roles:
  "map_of (ps_accounts s) k = Some q' \<Longrightarrow> ap_roles q = ap_roles q' \<Longrightarrow> account_roles (put_progress k q s) = account_roles s"
  by (auto simp: fun_eq_iff account_roles_def put_progress_def AList.update_conv')

lemma profile_known: "progress_for_profile p s = Some (key, progress) \<Longrightarrow> map_of (ps_accounts s) key = Some progress"
  by (auto simp: progress_for_profile_def split: option.splits)

lemma update_cases:
  "(if a then (False, s) else if c then (False, s)
    else case q of None \<Rightarrow> (False, s) | Some (key, progress) \<Rightarrow> if g key progress then (False, s) else (True, h key progress)) = (b, s') \<Longrightarrow>
   s' = s \<or> (\<exists>key progress. \<not> a \<and> \<not> c \<and> q = Some (key, progress) \<and> s' = h key progress)"
  by (auto split: if_splits option.splits)

lemma rank_update_shape:
  "apply_rank_update p stat v oper trusted txt s = (b, s') \<Longrightarrow>
   s' = s \<or> (\<exists>key progress new texts. progress_for_profile p s = Some (key, progress) \<and>
     strip stat \<noteq> MODERATOR_STAT \<and> (strip stat \<notin> set SERVER_MANAGED_STATS \<or> trusted) \<and>
     s' = put_progress key (progress\<lparr>ap_stats := AList.update (strip stat) new (ap_stats progress), ap_stat_texts := texts\<rparr>) s)"
  unfolding apply_rank_update_def Let_def
  by (drule update_cases) blast

lemma rank_update_frame:
  assumes "apply_rank_update p stat v oper trusted txt s = (b, s')"
  shows "(st \<noteq> strip stat \<or> st = MODERATOR_STAT \<or> st \<in> set SERVER_MANAGED_STATS \<and> \<not> trusted \<longrightarrow> account_stat s' k st = account_stat s k st) \<and>
    account_roles s' = account_roles s"
proof (cases "s' = s")
  case False
  then obtain key progress new texts where p: "progress_for_profile p s = Some (key, progress)"
    and g: "strip stat \<noteq> MODERATOR_STAT" "strip stat \<notin> set SERVER_MANAGED_STATS \<or> trusted"
    and s': "s' = put_progress key (progress\<lparr>ap_stats := AList.update (strip stat) new (ap_stats progress), ap_stat_texts := texts\<rparr>) s"
    using rank_update_shape[OF assms] by blast
  note known = profile_known[OF p]
  have "account_stat s key st = stat_or 0 progress st" for st using known by (simp add: account_stat_def)
  then show ?thesis using g unfolding s'
    by (auto simp: put_progress_stat stat_or_def AList.update_conv' put_progress_roles[OF known])
qed simp

record client_update =
  cu_profile_id :: int
  cu_stat :: string
  cu_value :: rat
  cu_update_type :: int
  cu_text :: string

definition client_updates :: "client_update list \<Rightarrow> progression_store \<Rightarrow> progression_store" where
  "client_updates us s = fold (\<lambda>u s. snd (apply_rank_update (cu_profile_id u) (cu_stat u) (cu_value u) (cu_update_type u) False (cu_text u) s)) us s"

lemma client_updates_frame:
  "account_roles (client_updates us s) = account_roles s \<and>
   (st \<in> set SERVER_MANAGED_STATS \<longrightarrow> account_stat (client_updates us s) key st = account_stat s key st)"
proof (induction us arbitrary: s)
  case (Cons u us)
  define s1 where "s1 = snd (apply_rank_update (cu_profile_id u) (cu_stat u) (cu_value u) (cu_update_type u) False (cu_text u) s)"
  have "account_roles s1 = account_roles s \<and> (st \<in> set SERVER_MANAGED_STATS \<longrightarrow> account_stat s1 key st = account_stat s key st)"
    using rank_update_frame[OF prod.collapse[symmetric], where trusted = False] unfolding s1_def by blast
  moreover have "client_updates (u # us) s = client_updates us s1" by (simp add: client_updates_def s1_def)
  ultimately show ?case using Cons.IH[of s1] by simp
qed (simp add: client_updates_def)

text \<open>
  C26. Clients cannot grant themselves anything: no sequence of rank updates from connections
  that are not a server changes a role or any of the statistics the server keeps (moderator
  status, viruses, skill, reputation, race counters) of any account.
\<close>

theorem clients_cannot_grant:
  "account_roles (client_updates us s) = account_roles s \<and>
   (st \<in> set SERVER_MANAGED_STATS \<longrightarrow> account_stat (client_updates us s) key st = account_stat s key st)"
  by (rule client_updates_frame)

definition ann :: identity where
  "ann = \<lparr>id_account_name = ''Ann'', id_persona = ''Ann'', id_profile_id = 1, id_user_id = 1\<rparr>"

definition bob :: identity where
  "bob = \<lparr>id_account_name = ''Bob'', id_persona = ''Bob'', id_profile_id = 2, id_user_id = 2\<rparr>"

theorem clients_cannot_grant_witness:
  "account_stat (client_updates [\<lparr>cu_profile_id = 1, cu_stat = ''Virus1'', cu_value = 1, cu_update_type = 0, cu_text = []\<rparr>] (bind_identity ann new_progression_store))
     ''ann'' ''Virus1'' = account_stat (bind_identity ann new_progression_store) ''ann'' ''Virus1''"
  using clients_cannot_grant[of _ "bind_identity ann new_progression_store" "''Virus1''" "''ann''"]
  by (simp add: SERVER_MANAGED_STATS_def VIRUS_STATS_def)

section \<open>Rank updates as an aggregate\<close>

definition submit :: "int \<Rightarrow> string \<Rightarrow> int \<Rightarrow> rat list \<Rightarrow> progression_store \<Rightarrow> progression_store" where
  "submit p stat oper vs = client_updates (map (\<lambda>v. \<lparr>cu_profile_id = p, cu_stat = stat, cu_value = v, cu_update_type = oper, cu_text = []\<rparr>) vs)"

definition aggregate :: "int \<Rightarrow> rat list \<Rightarrow> rat" where
  "aggregate oper vs = (if oper = 1 then Min (set vs) else if oper = 2 then Max (set vs) else if oper = 3 then sum_list vs else last vs)"

lemma submit_snoc: "submit p stat oper (vs @ [v]) s = snd (apply_rank_update p stat v oper False [] (submit p stat oper vs s))"
  by (simp add: submit_def client_updates_def)

lemma plain_update:
  assumes "progress_for_profile p s = Some (key, progress)" and "strip stat \<noteq> []" and "strip stat \<notin> set SERVER_MANAGED_STATS"
  shows "snd (apply_rank_update p stat v oper False [] s) =
    (let new = new_rank_value oper (map_of (ap_stats progress) (strip stat) \<noteq> None) False (stat_or 0 progress (strip stat)) v
     in if map_of (ap_stats progress) (strip stat) \<noteq> None \<and> stat_or 0 progress (strip stat) = new then s
        else put_progress key (progress\<lparr>ap_stats := AList.update (strip stat) new (ap_stats progress)\<rparr>) s)"
proof -
  have mod: "strip stat \<noteq> MODERATOR_STAT" using assms(3) by (auto simp: SERVER_MANAGED_STATS_def)
  show ?thesis unfolding apply_rank_update_def Let_def using assms mod
    by (cases "map_of (ap_stats progress) (strip stat)") simp_all
qed

lemma update_value:
  assumes "progress_for_profile p s = Some (key, progress)" and "strip stat \<noteq> []" and "strip stat \<notin> set SERVER_MANAGED_STATS"
  shows "\<exists>progress'. progress_for_profile p (snd (apply_rank_update p stat v oper False [] s)) = Some (key, progress') \<and>
    map_of (ap_stats progress') (strip stat) =
      Some (new_rank_value oper (map_of (ap_stats progress) (strip stat) \<noteq> None) False (stat_or 0 progress (strip stat)) v)"
proof -
  have key: "map_of (ps_profile_to_account s) p = Some key" "map_of (ps_accounts s) key = Some progress"
    using assms(1) by (auto simp: progress_for_profile_def split: option.splits)
  have old: "map_of (ap_stats progress) (strip stat) = None \<or> map_of (ap_stats progress) (strip stat) = Some (stat_or 0 progress (strip stat))"
    by (auto simp: stat_or_def split: option.splits)
  have put: "progress_for_profile p (put_progress key q s) = Some (key, q)" for q
    using key by (simp add: progress_for_profile_def put_progress_def AList.update_conv')
  show ?thesis unfolding plain_update[OF assms] Let_def using old assms(1)
    by (cases "map_of (ap_stats progress) (strip stat)") (simp_all add: put AList.update_conv')
qed

text \<open>
  A client's rank updates aggregate as their type says: the values submitted for a new
  statistic leave their minimum (type 1), maximum (type 2), sum (type 3) or the last one.
\<close>

theorem rank_updates_aggregate:
  assumes "progress_for_profile p s = Some (key, progress)" and "strip stat \<noteq> []" and "strip stat \<notin> set SERVER_MANAGED_STATS"
    and "map_of (ap_stats progress) (strip stat) = None" and "vs \<noteq> []"
  shows "account_stat (submit p stat oper vs s) key (strip stat) = aggregate oper vs"
proof -
  have "\<exists>progress'. progress_for_profile p (submit p stat oper vs s) = Some (key, progress') \<and>
     map_of (ap_stats progress') (strip stat) = (if vs = [] then None else Some (aggregate oper vs))" for vs
  proof (induction vs rule: rev_induct)
    case Nil
    then show ?case using assms(1,4) by (simp add: submit_def client_updates_def)
  next
    case (snoc v vs)
    then obtain progress' where p': "progress_for_profile p (submit p stat oper vs s) = Some (key, progress')"
      and old: "map_of (ap_stats progress') (strip stat) = (if vs = [] then None else Some (aggregate oper vs))" by blast
    have "new_rank_value oper (map_of (ap_stats progress') (strip stat) \<noteq> None) False (stat_or 0 progress' (strip stat)) v = aggregate oper (vs @ [v])"
      by (simp add: old stat_or_def new_rank_value_def aggregate_def min.commute max.commute)
    then show ?case using update_value[OF p' assms(2,3), of v oper] by (simp add: submit_snoc)
  qed
  from this[of vs] assms(5) profile_known show ?thesis by (force simp: account_stat_def stat_or_def)
qed

theorem rank_updates_aggregate_witness:
  "account_stat (submit 1 ''Best_Lap'' 1 [9, 7, 8] (bind_identity ann new_progression_store)) ''ann'' ''Best_Lap'' = 7"
proof -
  have key: "account_key ''Ann'' = ''ann''" and stat: "strip ''Best_Lap'' = ''Best_Lap''" by code_simp+
  have "progress_for_profile 1 (bind_identity ann new_progression_store) =
     Some (''ann'', \<lparr>ap_account_name = ''Ann'', ap_persona = ''Ann'', ap_profile_id = 1, ap_roles = {||}, ap_stats = [], ap_stat_texts = []\<rparr>)"
    by (simp add: Let_def bind_identity_def ann_def key new_progression_store_def new_progress_def progress_for_profile_def)
  from rank_updates_aggregate[OF this, where stat = "''Best_Lap''" and vs = "[9, 7, 8]" and oper = 1] show ?thesis
    by (simp add: stat aggregate_def SERVER_MANAGED_STATS_def MODERATOR_STAT_def BEAT_MODERATOR_STAT_def VIRUS_STATS_def
        RANKED_STATS_def SKILL_LEVEL_STAT_def ONLINE_REP_STAT_def TOTAL_GAMES_STARTED_STAT_def TOTAL_GAMES_FINISHED_STAT_def DNF_LOSSES_STAT_def)
qed


text \<open>A race between Ann, a moderator who carries the first virus, and Bob, who wins.\<close>

definition infected_store :: progression_store where
  "infected_store = put_stat ''ann'' ''Virus1'' 1 (snd (set_role ''Ann'' ''ea_moderator'' True
     (bind_identity bob (bind_identity ann new_progression_store))))"

lemma race_names: "account_key ''Ann'' = ''ann''" "account_key ''Bob'' = ''bob''" "account_key ''ea_moderator'' = ''ea_moderator''"
  by code_simp+

lemma race_pair: "unique_participants [ann, bob] = [(1, ann), (2, bob)]"
  by (simp add: unique_participants_def ann_def bob_def)

lemma race_keys: "participant_keys [ann, bob] = {''ann'', ''bob''}" "winner_keys [ann, bob] [2] = {''bob''}"
  by (auto simp: participant_keys_def winner_keys_def race_pair) (simp_all add: ann_def bob_def race_names)

lemma race_flags: "account_stat infected_store ''ann'' ''Virus1'' = 1" "account_stat infected_store ''bob'' st = 0"
    "account_roles infected_store ''ann'' = {|EA_MODERATOR_ROLE|}"
  by (simp_all add: Let_def infected_store_def put_stat_def put_progress_def set_role_def bind_identity_def new_progression_store_def
      new_progress_def ann_def bob_def race_names account_stat_def account_roles_def stat_or_def EA_MODERATOR_ROLE_def)

theorem virus_spreads_witness:
  "account_stat (snd (award_race [ann, bob] 5 [2] True infected_store)) ''bob'' ''Virus1'' \<noteq> 0"
proof -
  have "map_of VIRUS_BY_EVENT_TYPE 5 = Some ''Virus1''" by (simp add: VIRUS_BY_EVENT_TYPE_def)
  from virus_spreads[OF prod.collapse[symmetric] this, where ps = "[ann, bob]" and winners = "[2]" and ranked = True and s = infected_store]
  show ?thesis by (simp add: race_keys race_flags)
qed

theorem beat_moderator_earned_witness:
  "account_stat (snd (award_race [ann, bob] 5 [2] True infected_store)) ''bob'' BEAT_MODERATOR_STAT \<noteq>
   account_stat infected_store ''bob'' BEAT_MODERATOR_STAT"
  using beat_moderator_earned[OF prod.collapse[symmetric], of "[ann, bob]" 5 "[2]" True infected_store "''bob''"]
  by (simp add: race_keys race_flags)

theorem race_counts_participants_witness:
  "account_stat (snd (record_authoritative_race [ann, bob] 5 [(1, 2), (2, 1)] [2] True infected_store)) ''bob'' TOTAL_GAMES_STARTED_STAT = 1 \<and>
   account_stat (snd (record_authoritative_race [ann, bob] 5 [(1, 2), (2, 1)] [2] True infected_store)) ''bob'' TOTAL_GAMES_FINISHED_STAT = 1"
  using race_counts_participants[OF prod.collapse[symmetric], of "[ann, bob]" 5 "[(1, 2), (2, 1)]" "[2]" True infected_store "''bob''"]
  by (simp add: race_flags races_of_def race_pair) (simp add: ann_def bob_def race_names)


section \<open>The ledger of races\<close>

datatype progression_call =
    Bind identity
  | Import identity "string list"
  | Client_Update client_update
  | Race "identity list" int "(int \<times> int) list" "int list" bool
  | Set_Role string string bool
  | Read_Stat identity string

fun run_progression_call :: "progression_call \<Rightarrow> progression_store \<Rightarrow> progression_store" where
  "run_progression_call (Bind i) s = bind_identity i s"
| "run_progression_call (Import i tokens) s = snd (import_viral_tokens i tokens s)"
| "run_progression_call (Client_Update u) s = client_updates [u] s"
| "run_progression_call (Race ps event_type rankings finished ranked) s = snd (record_authoritative_race ps event_type rankings finished ranked s)"
| "run_progression_call (Set_Role account role enabled) s = snd (set_role account role enabled s)"
| "run_progression_call (Read_Stat i stat) s = snd (stat_for_identity i stat 0 s)"

definition balanced :: "progression_store \<Rightarrow> bool" where
  "balanced s = (\<forall>key. account_stat s key TOTAL_GAMES_STARTED_STAT =
     account_stat s key TOTAL_GAMES_FINISHED_STAT + account_stat s key DNF_LOSSES_STAT)"


lemma balanced_same: "(\<And>key st. st \<in> {TOTAL_GAMES_STARTED_STAT, TOTAL_GAMES_FINISHED_STAT, DNF_LOSSES_STAT} \<Longrightarrow>
    account_stat s' key st = account_stat s key st) \<Longrightarrow> balanced s \<Longrightarrow> balanced s'"
  by (simp add: balanced_def)

lemma bind_stat: "account_stat (bind_identity i s) = account_stat s"
  by (auto simp: bind_identity_def Let_def account_stat_def stat_or_def new_progress_def AList.update_conv' fun_eq_iff split: option.splits)

lemma import_stats_stat:
  "st \<notin> set stats \<Longrightarrow> account_stat (snd (import_stats key requested stats s)) k st = account_stat s k st"
proof (induction stats arbitrary: s)
  case (Cons x stats)
  then show ?case using Cons.IH[of "put_stat key x 1 s"] Cons.IH[of s]
    by (auto simp: case_prod_beta account_stat_put)
qed simp

lemma import_stat: "st \<notin> set VIRUS_STATS \<Longrightarrow> account_stat (snd (import_viral_tokens i tokens s)) k st = account_stat s k st"
proof -
  assume st: "st \<notin> set VIRUS_STATS"
  obtain key s1 where one: "progress_for_identity i s = (key, s1)" by fastforce
  show ?thesis using identity_stat[OF one] import_stats_stat[OF st, of key _ s1 k]
    by (simp add: import_viral_tokens_def Let_def one)
qed

lemma set_role_stat: "account_stat (snd (set_role account role enabled s)) = account_stat s"
  by (auto simp: set_role_def Let_def put_progress_stat fun_eq_iff account_stat_def stat_or_def new_progress_def put_progress_def
      AList.update_conv' split: option.splits)

lemma races_split: "races_of ps key (\<lambda>p. True) = races_of ps key P + races_of ps key (\<lambda>p. \<not> P p)"
proof -
  have "length (filter (\<lambda>x. Q x) xs) = length (filter (\<lambda>x. Q x \<and> R x) xs) + length (filter (\<lambda>x. Q x \<and> \<not> R x) xs)"
    for xs :: "(int \<times> identity) list" and Q R by (induction xs) auto
  from this[of "\<lambda>x. account_key (id_account_name (snd x)) = key"] show ?thesis unfolding races_of_def by simp
qed

lemma balanced_call: "balanced s \<Longrightarrow> balanced (run_progression_call c s)"
proof (cases c)
  case (Race ps event_type rankings finished ranked)
  assume b: "balanced s"
  obtain r s' where r: "record_authoritative_race ps event_type rankings finished ranked s = (r, s')" by fastforce
  have "account_stat s' key TOTAL_GAMES_STARTED_STAT = account_stat s' key TOTAL_GAMES_FINISHED_STAT + account_stat s' key DNF_LOSSES_STAT" for key
    using race_counts[OF r, of key] b races_split[of ps key "\<lambda>p. p \<in> set finished"] by (simp add: balanced_def)
  then show ?thesis by (simp add: Race r balanced_def)
next
  case (Client_Update u)
  assume b: "balanced s"
  have "account_stat (client_updates [u] s) key st = account_stat s key st"
    if "st \<in> {TOTAL_GAMES_STARTED_STAT, TOTAL_GAMES_FINISHED_STAT, DNF_LOSSES_STAT}" for key st
    using client_updates_frame[of "[u]" s st key] that by (auto simp: SERVER_MANAGED_STATS_def RANKED_STATS_def)
  then show ?thesis unfolding Client_Update run_progression_call.simps by (rule balanced_same[OF _ b])
next
  case (Import i tokens)
  assume b: "balanced s"
  have "account_stat (snd (import_viral_tokens i tokens s)) key st = account_stat s key st"
    if "st \<in> {TOTAL_GAMES_STARTED_STAT, TOTAL_GAMES_FINISHED_STAT, DNF_LOSSES_STAT}" for key st
    using that counting_names by (intro import_stat) blast
  then show ?thesis unfolding Import run_progression_call.simps by (rule balanced_same[OF _ b])
next
  case (Read_Stat i stat)
  obtain key s1 where "progress_for_identity i s = (key, s1)" by fastforce
  then show "balanced s \<Longrightarrow> ?thesis" using identity_stat[of i s key s1] by (simp add: Read_Stat stat_for_identity_def balanced_def)
qed (simp_all add: balanced_def bind_stat set_role_stat)

text \<open>
  C25. The race ledger balances: whatever sequence of logins, imports, client updates, role
  changes, reads and recorded races happens, every account has started exactly as many races
  as it finished or lost without a finish.
\<close>

theorem race_ledger_balances:
  "account_stat (fold run_progression_call cs new_progression_store) key TOTAL_GAMES_STARTED_STAT =
   account_stat (fold run_progression_call cs new_progression_store) key TOTAL_GAMES_FINISHED_STAT +
   account_stat (fold run_progression_call cs new_progression_store) key DNF_LOSSES_STAT"
proof -
  have "balanced s \<Longrightarrow> balanced (fold run_progression_call cs s)" for s
    by (induction cs arbitrary: s) (auto simp: balanced_call)
  moreover have "balanced new_progression_store" by (simp add: balanced_def new_progression_store_def account_stat_def)
  ultimately show ?thesis unfolding balanced_def by blast
qed

end
