(* ===== verification/Framing.thy ===== *)
theory Framing
  imports PyText
begin

text \<open>
  What the two TCP protocols share: Latin-1 text, \<open>key=value\<close> lines, and the contract of a
  decoder that takes frames off a growing buffer.  The locale \<open>stream_decoder\<close> states the
  contract and proves that the frames do not depend on how the network cut the stream.
\<close>

section \<open>Latin-1\<close>

definition latin1_encode :: "string \<Rightarrow> bytes" where
  "latin1_encode s = map of_char s"

definition latin1_decode :: "bytes \<Rightarrow> string" where
  "latin1_decode bs = map (\<lambda>b. char_of (unat b)) bs"

lemma unat_of_char: "unat (of_char c :: byte) = of_char c"
proof -
  have "(of_char c :: byte) = word_of_nat (of_char c)" by (simp only: of_nat_of_char)
  moreover have "unat (word_of_nat (of_char c) :: byte) = of_char c"
    by (rule unat_word_of_nat_byte) (metis of_char_mod_256 mod_less_divisor zero_less_numeral)
  ultimately show ?thesis by simp
qed

lemma latin1_roundtrip [simp]: "latin1_decode (latin1_encode s) = s"
  by (simp add: latin1_decode_def latin1_encode_def comp_def unat_of_char)

lemma latin1_append [simp]: "latin1_encode (s @ t) = latin1_encode s @ latin1_encode t"
  by (simp add: latin1_encode_def)

lemma length_latin1 [simp]: "length (latin1_encode s) = length s" "length (latin1_decode bs) = length bs"
  by (simp_all add: latin1_encode_def latin1_decode_def)

definition printable :: "bytes \<Rightarrow> bool" where
  "printable bs = (\<forall>b \<in> set bs. 0x20 \<le> unat b \<and> unat b \<le> 0x7E)"

section \<open>Lines of fields\<close>

text \<open>\<open>line.split("=", 1)\<close> of a line with the character in it.\<close>

definition split_first :: "char \<Rightarrow> string \<Rightarrow> string \<times> string" where
  "split_first sep s = (takeWhile (\<lambda>c. c \<noteq> sep) s, drop 1 (dropWhile (\<lambda>c. c \<noteq> sep) s))"

lemma split_first_append: "sep \<notin> set k \<Longrightarrow> split_first sep (k @ sep # v) = (k, v)"
proof -
  assume "sep \<notin> set k"
  then have "takeWhile (\<lambda>c. c \<noteq> sep) (k @ sep # v) = k" "dropWhile (\<lambda>c. c \<noteq> sep) (k @ sep # v) = sep # v"
    by (induction k) auto
  then show ?thesis by (simp add: split_first_def)
qed

text \<open>\<open>text.replace("\r", "\n").replace("\t", "\n")\<close>.\<close>

definition line_breaks :: "string \<Rightarrow> string" where
  "line_breaks s = map (\<lambda>c. if c = CHR 0x0D \<or> c = CHR 0x09 then CHR 0x0A else c) s"

lemma line_breaks_id: "CHR 0x0D \<notin> set s \<Longrightarrow> CHR 0x09 \<notin> set s \<Longrightarrow> line_breaks s = s"
  unfolding line_breaks_def by (rule map_idI) auto

section \<open>Streams of frames\<close>

text \<open>
  One attempt on the buffer: a frame and the bytes it took, nothing yet, or an error and the
  bytes dropped with it.
\<close>

type_synonym ('e, 'f) attempt = "('e \<times> nat) + ('f \<times> nat) option"

definition after_frame :: "'f \<Rightarrow> ('e + 'f list) \<times> bytes \<Rightarrow> ('e + 'f list) \<times> bytes" where
  "after_frame f r = (case r of (Inl e, rest) \<Rightarrow> (Inl e, rest) | (Inr fs, rest) \<Rightarrow> (Inr (f # fs), rest))"

text \<open>Feeding chunk after chunk, up to the first that raises.\<close>

fun feed_all :: "(bytes \<Rightarrow> ('e + 'f list) \<times> bytes) \<Rightarrow> bytes \<Rightarrow> bytes list \<Rightarrow> ('e + 'f list) \<times> bytes" where
  "feed_all drain buffer [] = (Inr [], buffer)"
| "feed_all drain buffer (c # cs) = (case drain (buffer @ c) of
      (Inl e, rest) \<Rightarrow> (Inl e, rest)
    | (Inr fs, rest) \<Rightarrow> (case feed_all drain rest cs of
          (Inl e, rest) \<Rightarrow> (Inl e, rest)
        | (Inr gs, rest) \<Rightarrow> (Inr (fs @ gs), rest)))"

text \<open>The same on the object that holds the buffer.\<close>

fun feed_seq :: "(bytes \<Rightarrow> 'd \<Rightarrow> ('e + 'f list) \<times> 'd) \<Rightarrow> bytes list \<Rightarrow> 'd \<Rightarrow> ('e + 'f list) \<times> 'd" where
  "feed_seq fd [] d = (Inr [], d)"
| "feed_seq fd (c # cs) d = (case fd c d of
      (Inl e, d) \<Rightarrow> (Inl e, d)
    | (Inr fs, d) \<Rightarrow> (case feed_seq fd cs d of (Inl e, d) \<Rightarrow> (Inl e, d) | (Inr gs, d) \<Rightarrow> (Inr (fs @ gs), d)))"

definition prefixed :: "'f list \<Rightarrow> ('e + 'f list) \<times> bytes \<Rightarrow> ('e + 'f list) \<times> bytes" where
  "prefixed fs r = (case r of (Inl e, rest) \<Rightarrow> (Inl e, rest) | (Inr gs, rest) \<Rightarrow> (Inr (fs @ gs), rest))"

lemma prefixed_Nil [simp]: "prefixed [] r = r"
  by (auto simp: prefixed_def split: prod.splits sum.splits)

lemma after_prefixed: "after_frame f (prefixed fs r) = prefixed (f # fs) r"
  by (auto simp: prefixed_def after_frame_def split: prod.splits sum.splits)

locale stream_decoder =
  fixes attempt :: "bytes \<Rightarrow> ('e, 'f) attempt" and drain :: "bytes \<Rightarrow> ('e + 'f list) \<times> bytes"
  assumes drain_step: "drain b = (case attempt b of
        Inl (e, n) \<Rightarrow> (Inl e, drop n b)
      | Inr None \<Rightarrow> (Inr [], b)
      | Inr (Some (f, n)) \<Rightarrow> after_frame f (drain (drop n b)))"
    and attempt_more: "attempt b \<noteq> Inr None \<Longrightarrow> attempt (b @ x) = attempt b"
    and frame_size: "attempt b = Inr (Some (f, n)) \<Longrightarrow> 0 < n \<and> n \<le> length b"
    and error_size: "attempt b = Inl (e, n) \<Longrightarrow> n \<le> length b"
begin

lemma drain_append:
  "drain (b @ x) = (case drain b of (Inl e, r) \<Rightarrow> (Inl e, r @ x) | (Inr fs, r) \<Rightarrow> prefixed fs (drain (r @ x)))"
proof (induction "length b" arbitrary: b rule: less_induct)
  case less
  show ?case
  proof (cases "attempt b")
    case (Inl en)
    obtain e n where en: "en = (e, n)" by (cases en)
    have "n \<le> length b" using error_size Inl en by simp
    then show ?thesis using attempt_more[of b x] Inl by (simp add: drain_step[of b] drain_step[of "b @ x"] en)
  next
    case (Inr o')
    show ?thesis
    proof (cases o')
      case None
      then show ?thesis using Inr by (simp add: drain_step[of b])
    next
      case (Some fn)
      obtain f n where fn: "fn = (f, n)" by (cases fn)
      have n: "0 < n" "n \<le> length b" using frame_size Inr Some fn by auto
      have "drain (b @ x) = after_frame f (drain (drop n b @ x))"
        using attempt_more[of b x] Inr Some n by (simp add: drain_step[of "b @ x"] fn)
      moreover have "drain b = after_frame f (drain (drop n b))" using Inr Some by (simp add: drain_step[of b] fn)
      ultimately show ?thesis using less[of "drop n b"] n
        by (auto simp: after_prefixed after_frame_def split: prod.splits sum.splits)
          (auto simp: prefixed_def split: prod.splits sum.splits)
    qed
  qed
qed

lemma drained_waits: "drain b = (Inr fs, r) \<Longrightarrow> attempt r = Inr None"
proof (induction "length b" arbitrary: b fs rule: less_induct)
  case less
  show ?case
  proof (cases "attempt b = Inr None")
    case False
    then obtain f n where f: "attempt b = Inr (Some (f, n))" using less.prems by (auto simp: drain_step[of b] split: sum.splits option.splits)
    then show ?thesis using less.hyps[of "drop n b"] less.prems frame_size[OF f]
      by (auto simp: drain_step[of b] after_frame_def split: sum.splits prod.splits)
  qed (use less.prems in \<open>simp add: drain_step[of b]\<close>)
qed

lemma drain_error: "drain b = (Inl e, r) \<Longrightarrow> \<exists>b' n. attempt b' = Inl (e, n) \<and> r = drop n b'"
proof (induction "length b" arbitrary: b rule: less_induct)
  case less
  show ?case
  proof (cases "attempt b")
    case (Inl en)
    then show ?thesis using less.prems by (cases en) (auto simp: drain_step[of b])
  next
    case (Inr q)
    then obtain f n where f: "attempt b = Inr (Some (f, n))" using less.prems by (auto simp: drain_step[of b] split: option.splits)
    then show ?thesis using less.hyps[of "drop n b"] less.prems frame_size[OF f]
      by (auto simp: drain_step[of b] after_frame_def split: sum.splits prod.splits)
  qed
qed

lemma drain_waiting: "attempt b = Inr None \<Longrightarrow> drain b = (Inr [], b)"
  by (simp add: drain_step[of b])

text \<open>How the stream is cut does not matter: neither for the frames nor for the error.\<close>

lemma feed_any_cut:
  assumes "attempt b = Inr None"
  shows "fst (feed_all drain b cs) = fst (drain (b @ concat cs)) \<and>
    (is_ok (fst (drain (b @ concat cs))) \<longrightarrow> snd (feed_all drain b cs) = snd (drain (b @ concat cs)))"
  using assms
proof (induction cs arbitrary: b)
  case Nil
  then show ?case by (simp add: drain_waiting)
next
  case (Cons c cs)
  obtain q r where d: "drain (b @ c) = (q, r)" by fastforce
  show ?case
  proof (cases q)
    case (Inl e)
    then show ?thesis using d drain_append[of "b @ c" "concat cs"] by simp
  next
    case (Inr fs)
    have "drain (b @ concat (c # cs)) = prefixed fs (drain (r @ concat cs))"
      using d Inr drain_append[of "b @ c" "concat cs"] by simp
    then show ?thesis using Cons.IH[of r] drained_waits[of "b @ c" fs r] d Inr
      by (auto simp: prefixed_def split: prod.splits sum.splits)
  qed
qed

end

locale framed_codec = stream_decoder attempt drain
  for attempt :: "bytes \<Rightarrow> ('e, 'f) attempt" and drain :: "bytes \<Rightarrow> ('e + 'f list) \<times> bytes" +
  fixes enc :: "'g \<Rightarrow> bytes" and dec :: "'g \<Rightarrow> 'f" and good :: "'g \<Rightarrow> bool"
  assumes attempt_enc: "good g \<Longrightarrow> attempt (enc g) = Inr (Some (dec g, length (enc g)))"
begin

lemma drain_encoded:
  "\<forall>g \<in> set gs. good g \<Longrightarrow> attempt rest = Inr None \<Longrightarrow> drain (concat (map enc gs) @ rest) = (Inr (map dec gs), rest)"
proof (induction gs)
  case Nil
  then show ?case by (simp add: drain_waiting)
next
  case (Cons g gs)
  have "attempt (enc g @ x) = Inr (Some (dec g, length (enc g)))" for x
    using attempt_enc[of g] attempt_more[of "enc g" x] Cons.prems by simp
  with Cons show ?case by (simp add: drain_step[of "enc g @ _"] after_frame_def)
qed

lemma feed_encoded:
  assumes "\<forall>g \<in> set gs. good g" and "attempt rest = Inr None" and "attempt [] = Inr None"
    and "concat chunks = concat (map enc gs) @ rest"
  shows "feed_all drain [] chunks = (Inr (map dec gs), rest)"
  using feed_any_cut[OF assms(3), of chunks] drain_encoded[OF assms(1,2)] assms(4) by (simp add: prod_eq_iff)

end

end
