(* ===== verification/FeslFrame.thy ===== *)
theory FeslFrame
  imports Framing
begin

text \<open>
  The FESL frames of \<open>carbon/fesl/frame.py\<close>: four command bytes, a transaction word, the
  length of the whole frame, and a body that is usually lines of fields.
\<close>

section \<open>Fields\<close>

text \<open>\<open>"\n".join(lines) + "\n\x00"\<close>; the values are the texts \<open>str\<close> gives.\<close>

definition encode_fields :: "(string \<times> string) list \<Rightarrow> bytes" where
  "encode_fields fields = (if fields = [] then [0]
     else latin1_encode (join_with (CHR 0x0A) (map (\<lambda>(key, v). key @ CHR ''='' # v) fields) @ [CHR 0x0A, CHR 0x00]))"

definition decode_line :: "string \<Rightarrow> (string \<times> string) list \<Rightarrow> (string \<times> string) list" where
  "decode_line raw_line fields =
    (let line = strip raw_line; (key, v) = split_first (CHR ''='') line
     in if line = [] \<or> CHR ''='' \<notin> set line then fields else AList.update (strip key) (strip v) fields)"

definition decode_fields :: "bytes \<Rightarrow> (string \<times> string) list" where
  "decode_fields payload =
    (let content = rev (dropWhile (\<lambda>c. c = CHR 0x00) (rev (latin1_decode payload)))
     in fold decode_line (split_on (CHR 0x0A) (line_breaks content)) [])"

section \<open>Frames\<close>

definition HEADER_SIZE :: nat where "HEADER_SIZE = 12"
definition DEFAULT_MAX_FRAME_SIZE :: int where "DEFAULT_MAX_FRAME_SIZE = 65535"

datatype fesl_error = Invalid_Command | Length_Not_A_Word | Invalid_Frame_Command | Length_Below_Header nat | Frame_Exceeds_Limit nat

definition command_bytes :: "string \<Rightarrow> fesl_error + bytes" where
  "command_bytes command = (let raw = latin1_encode command
     in if length raw \<noteq> 4 \<or> \<not> printable raw then Inl Invalid_Command else Inr raw)"

record fesl_frame =
  ff_command :: string
  ff_transaction :: int
  ff_payload :: bytes

definition frame_fields :: "fesl_frame \<Rightarrow> (string \<times> string) list" where
  "frame_fields frame = decode_fields (ff_payload frame)"

definition encode_frame :: "fesl_frame \<Rightarrow> fesl_error + bytes" where
  "encode_frame frame = rbind (command_bytes (ff_command frame)) (\<lambda>command.
     if 2 ^ 32 \<le> HEADER_SIZE + length (ff_payload frame) then Inl Length_Not_A_Word
     else Inr (command @ to_be 4 (umask 32 (ff_transaction frame)) @ to_be 4 (HEADER_SIZE + length (ff_payload frame)) @ ff_payload frame))"

definition from_fields :: "string \<Rightarrow> (string \<times> string) list \<Rightarrow> int \<Rightarrow> fesl_error + fesl_frame" where
  "from_fields command items transaction = rbind (command_bytes command) (\<lambda>raw.
     Inr \<lparr>ff_command = command, ff_transaction = int (umask 32 transaction), ff_payload = encode_fields items\<rparr>)"

definition decode_one :: "int \<Rightarrow> bytes \<Rightarrow> fesl_error + (fesl_frame \<times> nat) option" where
  "decode_one max_frame_size view =
    (if length view < HEADER_SIZE then Inr None
     else let command = latin1_decode (take 4 view);
              transaction = be_nat (slice 4 8 view);
              total_length = be_nat (slice 8 12 view)
          in if \<not> is_ok (command_bytes command) then Inl Invalid_Frame_Command
             else if total_length < HEADER_SIZE then Inl (Length_Below_Header total_length)
             else if max_frame_size < int total_length then Inl (Frame_Exceeds_Limit total_length)
             else if length view < total_length then Inr None
             else Inr (Some (\<lparr>ff_command = command, ff_transaction = int transaction,
                    ff_payload = slice HEADER_SIZE total_length view\<rparr>, total_length)))"

lemma decode_one_size: "decode_one m view = Inr (Some (frame, n)) \<Longrightarrow> 12 \<le> n \<and> n \<le> length view"
  by (auto simp: decode_one_def Let_def HEADER_SIZE_def split: if_splits)

section \<open>The stream decoder\<close>

record fesl_stream_decoder =
  fd_max_frame_size :: int
  fd_buffer :: bytes

definition new_fesl_stream_decoder :: "int \<Rightarrow> fesl_stream_decoder" where
  "new_fesl_stream_decoder max_frame_size = \<lparr>fd_max_frame_size = max_frame_size, fd_buffer = []\<rparr>"

text \<open>The loop of \<open>feed\<close>.  When it raises, the frames decoded before are lost with the call.\<close>

function feed_loop :: "int \<Rightarrow> bytes \<Rightarrow> (fesl_error + fesl_frame list) \<times> bytes" where
  "feed_loop m buffer =
    (if buffer = [] then (Inr [], buffer)
     else case decode_one m buffer of
         Inl e \<Rightarrow> (Inl e, buffer)
       | Inr None \<Rightarrow> (Inr [], buffer)
       | Inr (Some (frame, consumed)) \<Rightarrow> after_frame frame (feed_loop m (drop consumed buffer)))"
  by pat_completeness auto
termination
  by (relation "measure (\<lambda>(m, buffer). length buffer)") (auto dest: decode_one_size)

declare feed_loop.simps [simp del]

definition feed :: "bytes \<Rightarrow> fesl_stream_decoder \<Rightarrow> (fesl_error + fesl_frame list) \<times> fesl_stream_decoder" where
  "feed data d = (let (r, buffer) = feed_loop (fd_max_frame_size d) (fd_buffer d @ data) in (r, d\<lparr>fd_buffer := buffer\<rparr>))"

definition buffered_bytes :: "fesl_stream_decoder \<Rightarrow> nat" where
  "buffered_bytes d = length (fd_buffer d)"

section \<open>The contract\<close>

definition fesl_attempt :: "int \<Rightarrow> bytes \<Rightarrow> (fesl_error, fesl_frame) attempt" where
  "fesl_attempt m b = (case decode_one m b of Inl e \<Rightarrow> Inl (e, 0) | Inr r \<Rightarrow> Inr r)"

lemma decode_one_more: "decode_one m b \<noteq> Inr None \<Longrightarrow> decode_one m (b @ x) = decode_one m b"
  by (auto simp: decode_one_def Let_def HEADER_SIZE_def slice_append_left split: if_splits)

lemma feed_loop_step: "feed_loop m b = (case fesl_attempt m b of
    Inl (e, n) \<Rightarrow> (Inl e, drop n b) | Inr None \<Rightarrow> (Inr [], b)
  | Inr (Some (f, n)) \<Rightarrow> after_frame f (feed_loop m (drop n b)))"
  by (subst feed_loop.simps)
    (auto simp: fesl_attempt_def decode_one_def HEADER_SIZE_def split: sum.splits option.splits prod.splits)

definition sound_frame :: "int \<Rightarrow> fesl_frame \<Rightarrow> bool" where
  "sound_frame m f = (is_ok (encode_frame f) \<and> int (HEADER_SIZE + length (ff_payload f)) \<le> m)"

definition wire_of :: "fesl_frame \<Rightarrow> bytes" where
  "wire_of f = (case encode_frame f of Inl e \<Rightarrow> [] | Inr bs \<Rightarrow> bs)"

definition masked_frame :: "fesl_frame \<Rightarrow> fesl_frame" where
  "masked_frame f = f\<lparr>ff_transaction := int (umask 32 (ff_transaction f))\<rparr>"

lemma wire_of_sound: "is_ok (encode_frame f) \<Longrightarrow> wire_of f =
    latin1_encode (ff_command f) @ to_be 4 (umask 32 (ff_transaction f)) @ to_be 4 (12 + length (ff_payload f)) @ ff_payload f \<and>
    length (ff_command f) = 4 \<and> printable (latin1_encode (ff_command f)) \<and> 12 + length (ff_payload f) < 2 ^ 32"
  by (auto simp: wire_of_def encode_frame_def command_bytes_def HEADER_SIZE_def Let_def split: if_splits)

lemma decode_fesl_wire: "sound_frame m f \<Longrightarrow> decode_one m (wire_of f) = Inr (Some (masked_frame f, length (wire_of f)))"
proof -
  assume f: "sound_frame m f"
  note w = wire_of_sound[of f]
  have ok: "is_ok (encode_frame f)" using f by (simp add: sound_frame_def)
  have len: "length (wire_of f) = 12 + length (ff_payload f)" using w[OF ok] by simp
  have parts: "take 4 (wire_of f) = latin1_encode (ff_command f)" "slice 4 8 (wire_of f) = to_be 4 (umask 32 (ff_transaction f))"
    "slice 8 12 (wire_of f) = to_be 4 (12 + length (ff_payload f))" "slice 12 (12 + length (ff_payload f)) (wire_of f) = ff_payload f"
    using w[OF ok] by (simp_all add: slice_def)
  have "be_nat (to_be 4 (umask 32 (ff_transaction f))) = umask 32 (ff_transaction f)"
    using umask_less[of 32 "ff_transaction f"] by simp
  moreover have "be_nat (to_be 4 (12 + length (ff_payload f))) = 12 + length (ff_payload f)"
    using w[OF ok] by simp
  moreover have "\<not> m < int (12 + length (ff_payload f))" using f by (simp add: sound_frame_def HEADER_SIZE_def)
  moreover have "length (ff_command f) = 4" "printable (latin1_encode (ff_command f))" using w[OF ok] by simp_all
  ultimately show ?thesis unfolding decode_one_def Let_def HEADER_SIZE_def
    by (simp add: parts len command_bytes_def masked_frame_def)
qed

interpretation fesl: framed_codec "fesl_attempt m" "feed_loop m" wire_of masked_frame "sound_frame m" for m
proof unfold_locales
  fix b x e n f g
  show "feed_loop m b = (case fesl_attempt m b of Inl (e, n) \<Rightarrow> (Inl e, drop n b) | Inr None \<Rightarrow> (Inr [], b)
      | Inr (Some (f, n)) \<Rightarrow> after_frame f (feed_loop m (drop n b)))" by (rule feed_loop_step)
  show "fesl_attempt m b \<noteq> Inr None \<Longrightarrow> fesl_attempt m (b @ x) = fesl_attempt m b"
    using decode_one_more[of m b x] by (auto simp: fesl_attempt_def split: sum.splits)
  show "fesl_attempt m b = Inr (Some (f, n)) \<Longrightarrow> 0 < n \<and> n \<le> length b"
    using decode_one_size[of m b f n] by (auto simp: fesl_attempt_def split: sum.splits)
  show "fesl_attempt m b = Inl (e, n) \<Longrightarrow> n \<le> length b" by (auto simp: fesl_attempt_def split: sum.splits)
  show "sound_frame m g \<Longrightarrow> fesl_attempt m (wire_of g) = Inr (Some (masked_frame g, length (wire_of g)))"
    by (simp add: fesl_attempt_def decode_fesl_wire)
qed

end
