(* ===== verification/FeslFields.thy ===== *)
theory FeslFields
  imports FeslFrame
begin

text \<open>The field lists of FESL bodies: what is written is read back.\<close>

lemma dropWhile_eq_self: "dropWhile P xs = xs \<longleftrightarrow> xs = [] \<or> \<not> P (hd xs)"
  by (metis dropWhile.simps(1) dropWhile_eq_self_iff)

lemma strip_id_iff: "strip s = s \<longleftrightarrow> s = [] \<or> \<not> is_space (hd s) \<and> \<not> is_space (last s)"
proof
  assume s: "strip s = s"
  show "s = [] \<or> \<not> is_space (hd s) \<and> \<not> is_space (last s)"
  proof (cases "s = []")
    case False
    define t where "t = dropWhile is_space s"
    have len: "length (strip s) \<le> length t" "length t \<le> length s" unfolding strip_def t_def
      by (auto intro: order_trans[OF length_dropWhile_le])
    then have "length t = length s" using s by simp
    then have t: "t = s" unfolding t_def by (metis append_Nil length_0_conv length_append takeWhile_dropWhile_id add_cancel_right_left)
    have "dropWhile is_space (rev s) = rev s" using s t unfolding strip_def t_def[symmetric] by (metis rev_rev_ident)
    then show ?thesis using t False unfolding t_def dropWhile_eq_self by (simp add: hd_rev)
  qed simp
next
  assume "s = [] \<or> \<not> is_space (hd s) \<and> \<not> is_space (last s)"
  then show "strip s = s"
  proof
    assume s: "\<not> is_space (hd s) \<and> \<not> is_space (last s)"
    then have "dropWhile is_space s = s" by (simp add: dropWhile_eq_self)
    moreover have "dropWhile is_space (rev s) = rev s" using s by (cases "s = []") (simp_all add: dropWhile_eq_self hd_rev)
    ultimately show ?thesis by (simp add: strip_def)
  qed simp
qed

definition clean_field :: "string \<times> string \<Rightarrow> bool" where
  "clean_field f = (strip (fst f) = fst f \<and> strip (snd f) = snd f \<and> CHR ''='' \<notin> set (fst f) \<and>
     {CHR 0x0A, CHR 0x0D, CHR 0x09} \<inter> (set (fst f) \<union> set (snd f)) = {})"

lemma char_nul: "char_of (0 :: nat) = CHR 0x00"
  by (simp add: char_of_def)

lemma equals_sign: "\<not> is_space (CHR ''='')" by code_simp

lemma decode_clean_line:
  assumes "clean_field (k, v)"
  shows "decode_line (k @ CHR ''='' # v) d = AList.update k v d"
proof -
  have k: "strip k = k" "strip v = v" "CHR ''='' \<notin> set k" using assms by (simp_all add: clean_field_def)
  have "strip (k @ CHR ''='' # v) = k @ CHR ''='' # v"
    using k(1,2) equals_sign unfolding strip_id_iff by (cases k) auto
  then show ?thesis using k by (simp add: decode_line_def split_first_append)
qed

lemma decode_blank_line [simp]: "decode_line [] d = d"
  by (simp add: decode_line_def split_first_def)

lemma fold_update_distinct:
  "distinct (map fst (d @ fs)) \<Longrightarrow> fold (\<lambda>(k, v). AList.update k v) fs d = d @ fs"
proof (induction fs arbitrary: d)
  case (Cons f fs)
  obtain k v where f: "f = (k, v)" by (cases f)
  have "AList.update k v d = d @ [(k, v)]" using Cons.prems by (intro update_snoc) (auto simp: f)
  then show ?case using Cons.IH[of "d @ [(k, v)]"] Cons.prems by (simp add: f)
qed simp

lemma join_snoc: "ws \<noteq> [] \<Longrightarrow> join_with sep (ws @ [w]) = join_with sep ws @ sep # w"
  by (induction sep ws rule: join_with.induct) auto

lemma decode_encoded_fields:
  assumes "\<forall>f \<in> set fs. clean_field f" and "distinct (map fst fs)"
  shows "decode_fields (encode_fields fs) = fs"
proof (cases "fs = []")
  case True
  then show ?thesis
    by (simp add: char_nul encode_fields_def decode_fields_def latin1_decode_def line_breaks_def Let_def)
next
  case False
  define lines where "lines = map (\<lambda>(key, v). key @ CHR ''='' # v) fs"
  define body where "body = join_with (CHR 0x0A) (lines @ [[]])"
  have body: "join_with (CHR 0x0A) lines @ [CHR 0x0A] = body" using False by (simp add: body_def lines_def join_snoc)
  have raw: "latin1_decode (encode_fields fs) = body @ [CHR 0x00]"
    using False by (simp add: encode_fields_def lines_def[symmetric] body[symmetric] del: latin1_append)
  have cut: "rev (dropWhile (\<lambda>c. c = CHR 0x00) (rev (body @ [CHR 0x00]))) = body" by (simp flip: body)
  have in_lines: "c \<in> set w \<Longrightarrow> w \<in> set lines \<Longrightarrow> c \<notin> {CHR 0x0A, CHR 0x0D, CHR 0x09}" for c w
    using assms(1) by (fastforce simp: lines_def clean_field_def)
  have "set (join_with sep ws) \<subseteq> insert sep (\<Union>w \<in> set ws. set w)" for sep ws
    by (induction sep ws rule: join_with.induct) auto
  then have "set body \<subseteq> insert (CHR 0x0A) (\<Union>w \<in> set lines. set w)" unfolding body_def by fastforce
  then have "line_breaks body = body" using in_lines by (intro line_breaks_id) auto
  moreover have "split_on (CHR 0x0A) body = lines @ [[]]"
    unfolding body_def using in_lines by (intro split_join) auto
  moreover have "fold decode_line lines d = fold (\<lambda>(k, v). AList.update k v) fs d" for d
    using assms(1) unfolding lines_def
    by (induction fs arbitrary: d) (auto simp: decode_clean_line)
  ultimately show ?thesis using fold_update_distinct[of "[]" fs] assms(2)
    by (simp add: decode_fields_def raw cut Let_def del: rev_append)
qed

text \<open>Trailing NULs do not matter to the reader.\<close>

lemma decode_trailing_nul: "decode_fields (payload @ [0]) = decode_fields payload"
proof -
  have "latin1_decode (payload @ [0]) = latin1_decode payload @ [CHR 0x00]" by (simp add: latin1_decode_def char_nul)
  then show ?thesis by (simp add: decode_fields_def Let_def)
qed

text \<open>
  FESL fields survive the wire: a field list with distinct keys, no line breaks or tabs, no
  surrounding blanks and no equals sign in a key is exactly what the receiver's parser returns.
\<close>

theorem fields_roundtrip:
  assumes "\<forall>f \<in> set fs. clean_field f" and "distinct (map fst fs)"
  shows "decode_fields (encode_fields fs) = fs"
  by (rule decode_encoded_fields[OF assms])

theorem fields_roundtrip_witness:
  "decode_fields (encode_fields [(''TXN'', ''Login''), (''keys.[]'', ''a=b c''), (''empty'', [])])
   = [(''TXN'', ''Login''), (''keys.[]'', ''a=b c''), (''empty'', [])]"
proof -
  have "list_all (\<lambda>s. strip s = s) [''TXN'', ''Login'', ''keys.[]'', ''a=b c'', ''empty'']" by code_simp
  then show ?thesis by (intro fields_roundtrip) (simp_all add: clean_field_def)
qed

section \<open>Streams\<close>

lemma feed_seq_all: "feed_seq feed cs d =
    (let (r, buffer) = feed_all (feed_loop (fd_max_frame_size d)) (fd_buffer d) cs in (r, d\<lparr>fd_buffer := buffer\<rparr>))"
proof (induction cs arbitrary: d)
  case (Cons c cs)
  obtain q b where "feed_loop (fd_max_frame_size d) (fd_buffer d @ c) = (q, b)" by fastforce
  then show ?case using Cons.IH[of "d\<lparr>fd_buffer := b\<rparr>"]
    by (auto simp: feed_def Let_def split: sum.splits prod.splits)
qed simp

lemma fesl_waits: "fesl_attempt m b = Inr None \<longleftrightarrow> decode_one m b = Inr None"
  by (auto simp: fesl_attempt_def split: sum.splits)

lemma fesl_raises: "fesl_attempt m b = Inl (e, n) \<Longrightarrow> decode_one m b = Inl e \<and> n = 0"
  by (cases "decode_one m b") (simp_all add: fesl_attempt_def)


text \<open>
  C30. A FESL stream delivers its frames: if the bytes received so far are the encodings of some
  frames and the beginning of another, in whatever pieces they came, the decoder has answered
  exactly those frames (with their transaction words reduced to 32 bits) and keeps the rest.
\<close>

theorem fesl_stream_roundtrip:
  assumes "\<forall>f \<in> set fs. sound_frame m f" and "decode_one m rest = Inr None"
    and "concat chunks = concat (map wire_of fs) @ rest"
  shows "feed_seq feed chunks (new_fesl_stream_decoder m) = (Inr (map masked_frame fs), \<lparr>fd_max_frame_size = m, fd_buffer = rest\<rparr>)"
proof -
  have "decode_one m [] = Inr None" by (simp add: decode_one_def HEADER_SIZE_def)
  then show ?thesis using fesl.feed_encoded[of fs m rest chunks] assms
    by (simp add: feed_seq_all new_fesl_stream_decoder_def fesl_waits)
qed

text \<open>
  A malformed FESL frame is final: once \<open>feed\<close> has raised, every later call raises the same
  error and only grows the buffer.
\<close>

theorem fesl_error_final:
  assumes "feed x d = (Inl e, d')"
  shows "feed y d' = (Inl e, d'\<lparr>fd_buffer := fd_buffer d' @ y\<rparr>)"
proof -
  have "feed_loop m b = (Inl e, r) \<Longrightarrow> decode_one m r = Inl e" for m b r
    using fesl.drain_error[of m b e r] fesl_raises by fastforce
  then have e: "decode_one (fd_max_frame_size d') (fd_buffer d') = Inl e"
    using assms by (auto simp: feed_def Let_def split: prod.splits)
  have "fd_buffer d' @ y \<noteq> []" using e by (auto simp: decode_one_def HEADER_SIZE_def)
  then have "feed_loop (fd_max_frame_size d') (fd_buffer d' @ y) = (Inl e, fd_buffer d' @ y)"
    using decode_one_more[of "fd_max_frame_size d'" "fd_buffer d'" y] e by (subst feed_loop.simps) simp
  then show ?thesis by (simp add: feed_def)
qed


definition ping_frame :: fesl_frame where
  "ping_frame = \<lparr>ff_command = ''fsys'', ff_transaction = - 1, ff_payload = [0]\<rparr>"

lemma ping_sound: "sound_frame 100 ping_frame" "length (wire_of ping_frame) = 13"
proof -
  have "command_bytes ''fsys'' = Inr (latin1_encode ''fsys'')" by code_simp
  then show "sound_frame 100 ping_frame" "length (wire_of ping_frame) = 13"
    by (simp_all add: sound_frame_def wire_of_def encode_frame_def ping_frame_def HEADER_SIZE_def)
qed

theorem fesl_stream_roundtrip_witness:
  "fst (feed_seq feed [take 5 (wire_of ping_frame), drop 5 (wire_of ping_frame) @ [0x66]] (new_fesl_stream_decoder 100))
   = Inr [\<lparr>ff_command = ''fsys'', ff_transaction = 4294967295, ff_payload = [0]\<rparr>]"
proof -
  have "decode_one 100 [0x66] = Inr None" by (simp add: decode_one_def HEADER_SIZE_def)
  then have "feed_seq feed [take 5 (wire_of ping_frame), drop 5 (wire_of ping_frame) @ [0x66]] (new_fesl_stream_decoder 100) =
     (Inr (map masked_frame [ping_frame]), \<lparr>fd_max_frame_size = 100, fd_buffer = [0x66]\<rparr>)"
    using ping_sound by (intro fesl_stream_roundtrip) simp_all
  moreover have "masked_frame ping_frame = \<lparr>ff_command = ''fsys'', ff_transaction = 4294967295, ff_payload = [0]\<rparr>"
    by (simp add: masked_frame_def ping_frame_def umask_def)
  ultimately show ?thesis by simp
qed

theorem fesl_error_final_witness:
  "fst (feed [1, 2, 3] (snd (feed [0, 0, 0, 0, 0, 0, 0, 1, 0, 0, 0, 13] (new_fesl_stream_decoder 100)))) = Inl Invalid_Frame_Command"
proof -
  have "fst (feed [0, 0, 0, 0, 0, 0, 0, 1, 0, 0, 0, 13] (new_fesl_stream_decoder 100)) = Inl Invalid_Frame_Command"
    by code_simp
  then obtain d' where "feed [0, 0, 0, 0, 0, 0, 0, 1, 0, 0, 0, 13] (new_fesl_stream_decoder 100) = (Inl Invalid_Frame_Command, d')"
    by (metis prod.collapse)
  with fesl_error_final[OF this, of "[1, 2, 3]"] show ?thesis by simp
qed

end
