(* ===== verification/Base64.thy ===== *)
theory Base64
  imports Framing
begin

text \<open>
  \<open>base64.b64encode\<close> and the strict decoder \<open>base64.b64decode(validate=True)\<close> of the Python
  library, with the round trip.
\<close>

definition b64_alphabet :: string where
  "b64_alphabet = ''ABCDEFGHIJKLMNOPQRSTUVWXYZabcdefghijklmnopqrstuvwxyz0123456789+/''"

definition b64_char :: "nat \<Rightarrow> char" where
  "b64_char n = b64_alphabet ! n"

definition b64_val :: "char \<Rightarrow> nat option" where
  "b64_val c = find_at [c] b64_alphabet"

fun b64encode :: "bytes \<Rightarrow> string" where
  "b64encode [] = []"
| "b64encode [a] = [b64_char (unat a div 4), b64_char (unat a mod 4 * 16), CHR ''='', CHR ''='']"
| "b64encode [a, b] = [b64_char (unat a div 4), b64_char (unat a mod 4 * 16 + unat b div 16), b64_char (unat b mod 16 * 4), CHR ''='']"
| "b64encode (a # b # c # bs) = [b64_char (unat a div 4), b64_char (unat a mod 4 * 16 + unat b div 16),
     b64_char (unat b mod 16 * 4 + unat c div 64), b64_char (unat c mod 64)] @ b64encode bs"

text \<open>
  The decoder reads one character at a time: its place in the group of four, the padding read
  at this place, whether padding has started, and the bits left over.
\<close>

fun b64_step :: "nat \<Rightarrow> nat \<Rightarrow> bool \<Rightarrow> nat \<Rightarrow> string \<Rightarrow> bytes option" where
  "b64_step quad pads started left [] = (if quad = 0 then Some [] else None)"
| "b64_step quad pads started left (c # cs) =
     (if c = CHR ''='' then
        (if 2 \<le> quad \<and> 4 \<le> quad + Suc pads then (if cs = [] then Some [] else None)
         else b64_step quad (if 2 \<le> quad then Suc pads else pads) True left cs)
      else case b64_val c of
          None \<Rightarrow> None
        | Some n \<Rightarrow>
            if started then None
            else if quad = 0 then b64_step 1 0 started n cs
            else if quad = 1 then map_option (\<lambda>bs. word_of_nat (left * 4 + n div 16) # bs) (b64_step 2 0 started (n mod 16) cs)
            else if quad = 2 then map_option (\<lambda>bs. word_of_nat (left * 16 + n div 4) # bs) (b64_step 3 0 started (n mod 4) cs)
            else map_option (\<lambda>bs. word_of_nat (left * 64 + n) # bs) (b64_step 0 0 started 0 cs))"

definition b64decode :: "string \<Rightarrow> bytes option" where
  "b64decode s = (if take 1 s = ''='' then None else b64_step 0 0 False 0 s)"

lemma b64_table: "n < 64 \<Longrightarrow> b64_val (b64_char n) = Some n \<and> b64_char n \<noteq> CHR ''='' \<and> \<not> is_space (b64_char n) \<and>
    of_char (b64_char n) < (128 :: nat) \<and> b64_char n \<noteq> CHR ''%'' \<and> b64_char n \<noteq> CHR 0x0A"
proof -
  have "list_all (\<lambda>n. b64_val (b64_char n) = Some n \<and> b64_char n \<noteq> CHR ''='' \<and> \<not> is_space (b64_char n) \<and>
    of_char (b64_char n) < (128 :: nat) \<and> b64_char n \<noteq> CHR ''%'' \<and> b64_char n \<noteq> CHR 0x0A) [0..<64]" by code_simp
  then show "n < 64 \<Longrightarrow> ?thesis" by (simp add: list_all_iff)
qed

lemma byte_quotients [simp]: "unat (b :: byte) div 16 div 16 = 0" "unat (b :: byte) div 64 div 4 = 0"
    "unat (b :: byte) div 16 mod 16 = unat b div 16" "unat (b :: byte) div 64 mod 4 = unat b div 64"
    "unat (b :: byte) div 4 < 64" "unat (b :: byte) div 16 < 16" "unat (b :: byte) div 64 < 4"
  using unat_byte_less[of b] by (simp_all add: div_mult2_eq[symmetric] less_mult_imp_div_less)

lemma b64_sizes: "unat (a :: byte) mod 4 * 16 + unat (b :: byte) div 16 < 64" "unat (a :: byte) mod 16 * 4 + unat (b :: byte) div 64 < 64"
    "unat (a :: byte) mod 64 < 64" "unat (a :: byte) mod 4 * 16 < 64" "unat (a :: byte) mod 16 * 4 < 64"
proof -
  have "unat a mod 4 < 4" "unat a mod 16 < 16" "unat b div 16 < 16" "unat b div 64 < 4" by simp_all
  then show "unat (a :: byte) mod 4 * 16 + unat (b :: byte) div 16 < 64" "unat (a :: byte) mod 16 * 4 + unat (b :: byte) div 64 < 64"
    "unat (a :: byte) mod 64 < 64" "unat (a :: byte) mod 4 * 16 < 64" "unat (a :: byte) mod 16 * 4 < 64" by linarith+
qed

lemma b64_chars: "set (b64encode bs) \<subseteq> insert (CHR ''='') (b64_char ` {..<64})"
  by (induction bs rule: b64encode.induct) (auto simp: b64_sizes)

lemma b64_step_encode: "b64_step 0 0 False 0 (b64encode bs) = Some bs"
  by (induction bs rule: b64encode.induct) (simp_all add: b64_table b64_sizes del: of_nat_add of_nat_mult)

lemma b64_head: "take 1 (b64encode bs) \<noteq> ''=''"
  by (cases bs rule: b64encode.cases) (simp_all add: b64_table b64_sizes)

theorem b64_roundtrip: "b64decode (b64encode bs) = Some bs"
  using b64_step_encode[of bs] b64_head[of bs] by (simp add: b64decode_def)

lemma length_b64encode: "length (b64encode bs) = 4 * ((length bs + 2) div 3)"
proof (induction bs rule: b64encode.induct)
  case (4 a b c bs)
  have "(length (a # b # c # bs) + 2) div 3 = Suc ((length bs + 2) div 3)" by simp
  with 4 show ?case by simp
qed simp_all


lemma b64encode_ascii: "c \<in> set (b64encode bs) \<Longrightarrow>
    of_char c < (128 :: nat) \<and> \<not> is_space c \<and> c \<noteq> CHR ''%'' \<and> c \<noteq> CHR 0x0A"
proof -
  assume "c \<in> set (b64encode bs)"
  then have "c = CHR ''='' \<or> (\<exists>n < 64. c = b64_char n)" using b64_chars[of bs] by auto
  then show ?thesis using b64_table by (auto simp: is_space_def)
qed

end
