(* ===== verification/FeslFragments.thy ===== *)
theory FeslFragments
  imports FeslFields Base64 PyNumber
begin

text \<open>
  Large FESL bodies: \<open>packetize_frame\<close> of \<open>carbon/fesl/frame.py\<close> cuts a body into Base64
  fragments, and \<open>_complete_fields\<close> of \<open>carbon/fesl/service.py\<close> puts fragments together.
\<close>

section \<open>Replacing text\<close>

text \<open>\<open>s.replace(old, new)\<close> for a non-empty \<open>old\<close>.\<close>

function replace_text :: "string \<Rightarrow> string \<Rightarrow> string \<Rightarrow> string" where
  "replace_text old new s =
     (if s = [] then []
      else if old \<noteq> [] \<and> starts_with old s then new @ replace_text old new (drop (length old) s)
      else hd s # replace_text old new (tl s))"
  by pat_completeness auto
termination by (relation "measure (\<lambda>(old, new, s). length s)") (auto simp: less_diff_conv)

declare replace_text.simps [simp del]

lemma replace_Nil [simp]: "replace_text old new [] = []"
  by (simp add: replace_text.simps)

lemma replace_other: "old = c # cs \<Longrightarrow> d \<noteq> c \<Longrightarrow> replace_text old new (d # s) = d # replace_text old new s"
  by (subst replace_text.simps) (simp add: starts_with_def)

lemma replace_here: "old \<noteq> [] \<Longrightarrow> replace_text old new (old @ s) = new @ replace_text old new s"
  by (subst replace_text.simps) simp

lemma replace_absent: "old = c # cs \<Longrightarrow> c \<notin> set s \<Longrightarrow> replace_text old new s = s"
  by (induction s) (auto simp: replace_other)

definition escape :: "string \<Rightarrow> string" where
  "escape s = replace_text ''='' ''%3d'' s"

definition unescape :: "string \<Rightarrow> string" where
  "unescape s = replace_text ''%3D'' ''='' (replace_text ''%3d'' ''='' s)"

lemma escape_Cons: "escape (c # s) = (if c = CHR ''='' then ''%3d'' @ escape s else c # escape s)"
  using replace_here[of "''=''" "''%3d''" s] by (auto simp: escape_def replace_other[of "''=''" "CHR ''=''" "[]"])

lemma unescape_escape:
  assumes "CHR ''%'' \<notin> set s"
  shows "unescape (escape s) = s"
proof -
  have "replace_text ''%3d'' ''='' (escape s) = s" using assms
  proof (induction s)
    case (Cons c s)
    then show ?case using replace_here[of "''%3d''" "''=''" "escape s"]
      by (auto simp: escape_Cons replace_other[of "''%3d''" "CHR ''%''" "''3d''"])
  qed (simp add: escape_def)
  then show ?thesis using assms replace_absent[of "''%3D''" "CHR ''%''" "''3D''" s] by (simp add: unescape_def)
qed

lemma escape_set: "c \<in> set (escape s) \<Longrightarrow> c \<in> set s \<or> c \<in> set ''%3d''"
  by (induction s) (auto simp: escape_Cons split: if_splits, simp add: escape_def)

section \<open>Fragments\<close>

definition FESL_FRAGMENT_SIZE :: int where "FESL_FRAGMENT_SIZE = 8096"

text \<open>\<open>[s[offset : offset + limit] for offset in range(0, len(s), limit)]\<close>.\<close>

function chunks_of :: "nat \<Rightarrow> string \<Rightarrow> string list" where
  "chunks_of limit s = (if limit = 0 \<or> s = [] then [] else take limit s # chunks_of limit (drop limit s))"
  by pat_completeness auto
termination by (relation "measure (\<lambda>(limit, s). length s)") auto

declare chunks_of.simps [simp del]

fun collect :: "('e + 'a) list \<Rightarrow> 'e + 'a list" where
  "collect [] = Inr []"
| "collect (x # xs) = rbind x (\<lambda>y. rbind (collect xs) (\<lambda>ys. Inr (y # ys)))"

datatype packetize_error = Fragment_Size_Not_Positive | Frame_Error fesl_error

definition fragment_fields :: "nat \<Rightarrow> nat \<Rightarrow> string \<Rightarrow> (string \<times> string) list" where
  "fragment_fields decoded_size size' chunk =
     [(''decodedSize'', show_nat decoded_size), (''size'', show_nat size'), (''data'', escape chunk)]"

definition fragment_transaction :: "int \<Rightarrow> nat" where
  "fragment_transaction transaction = umask 28 transaction + 0xB0000000"

definition packetize_frame :: "fesl_frame \<Rightarrow> int \<Rightarrow> packetize_error + fesl_frame list" where
  "packetize_frame frame fragment_size =
    (let payload = ff_payload frame in
     if fragment_size \<le> 0 then Inl Fragment_Size_Not_Positive
     else if int (length payload) \<le> fragment_size then Inr [frame]
     else let logical = (if payload \<noteq> [] \<and> last payload = 0 then butlast payload else payload);
              encoded = b64encode logical;
              transaction = int (fragment_transaction (ff_transaction frame))
          in case collect (map (\<lambda>chunk. from_fields (ff_command frame)
               (fragment_fields (length logical) (length encoded) chunk) transaction) (chunks_of (nat fragment_size) encoded)) of
             Inl e \<Rightarrow> Inl (Frame_Error e) | Inr frames \<Rightarrow> Inr frames)"

section \<open>Reassembly\<close>

definition MAX_ACTIVE_CHUNK_BUFFERS :: nat where "MAX_ACTIVE_CHUNK_BUFFERS = 8"
definition MAX_CHUNKED_PAYLOAD_ENCODED_SIZE :: int where "MAX_CHUNKED_PAYLOAD_ENCODED_SIZE = 2 * 1024 * 1024"

type_synonym chunk_buffers = "((string \<times> nat) \<times> (string \<times> int)) list"

definition complete_fields :: "fesl_frame \<Rightarrow> chunk_buffers \<Rightarrow> (string \<times> string) list option \<times> chunk_buffers" where
  "complete_fields frame buffers =
    (let fs = frame_fields frame; key = (ff_command frame, umask 32 (ff_transaction frame)) in
     if map_of fs ''data'' = None \<or> map_of fs ''size'' = None then (Some fs, buffers)
     else
       let (old_data, old_size) = (case map_of buffers key of None \<Rightarrow> ([], 0) | Some b \<Rightarrow> b);
           size_text = the (map_of fs ''size'')
       in case py_int (if size_text = [] then ''0'' else size_text) of
         None \<Rightarrow> (None, AList.delete key buffers)
       | Some expected_size \<Rightarrow>
         if expected_size \<le> 0 \<or> MAX_CHUNKED_PAYLOAD_ENCODED_SIZE < expected_size \<or> (old_size \<noteq> 0 \<and> old_size \<noteq> expected_size)
         then (None, AList.delete key buffers)
         else if map_of buffers key = None \<and> MAX_ACTIVE_CHUNK_BUFFERS \<le> length buffers then (None, buffers)
         else
           let chunk = unescape (the (map_of fs ''data'')) in
           if \<not> list_all (\<lambda>c. of_char c < (128 :: nat)) chunk then (None, AList.delete key buffers)
           else
             let encoded = old_data @ chunk in
             if expected_size < int (length encoded) then (None, AList.delete key buffers)
             else if int (length encoded) < expected_size then (None, AList.update key (encoded, expected_size) buffers)
             else (case b64decode encoded of
                 None \<Rightarrow> (None, AList.delete key buffers)
               | Some payload \<Rightarrow>
                   (if (case map_of fs ''decodedSize'' of None \<Rightarrow> False
                        | Some t \<Rightarrow> (case py_int t of None \<Rightarrow> - 1 | Some n \<Rightarrow> n) \<noteq> int (length payload))
                    then None else Some (decode_fields (payload @ [0])), AList.delete key buffers)))"

text \<open>A connection that receives frames one after the other.\<close>

fun complete_all :: "fesl_frame list \<Rightarrow> chunk_buffers \<Rightarrow> (string \<times> string) list option list \<times> chunk_buffers" where
  "complete_all [] buffers = ([], buffers)"
| "complete_all (frame # frames) buffers =
     (let (r, buffers) = complete_fields frame buffers; (rs, buffers) = complete_all frames buffers in (r # rs, buffers))"

section \<open>The round trip\<close>

lemma digits_clean: "strip (show_nat n) = show_nat n" "CHR 0x0A \<notin> set (show_nat n)" "CHR 0x0D \<notin> set (show_nat n)"
    "CHR 0x09 \<notin> set (show_nat n)" "CHR ''_'' \<notin> set (show_nat n)" "CHR ''-'' \<notin> set (show_nat n)" "CHR ''+'' \<notin> set (show_nat n)"
proof -
  have d: "is_digit c \<Longrightarrow> \<not> is_space c" for c by (simp add: is_digit_def is_space_def Let_def)
  have "\<forall>c \<in> set (show_nat n). \<not> is_space c" using show_nat_digits d by blast
  then show "strip (show_nat n) = show_nat n" unfolding strip_id_iff by (metis hd_in_set last_in_set)
  have "\<forall>c \<in> set (show_nat n). is_digit c" by (rule show_nat_digits)
  moreover have "\<not> is_digit (CHR 0x0A)" "\<not> is_digit (CHR 0x0D)" "\<not> is_digit (CHR 0x09)" "\<not> is_digit (CHR ''_'')"
     "\<not> is_digit (CHR ''-'')" "\<not> is_digit (CHR ''+'')" by code_simp+
  ultimately show "CHR 0x0A \<notin> set (show_nat n)" "CHR 0x0D \<notin> set (show_nat n)"
    "CHR 0x09 \<notin> set (show_nat n)" "CHR ''_'' \<notin> set (show_nat n)" "CHR ''-'' \<notin> set (show_nat n)" "CHR ''+'' \<notin> set (show_nat n)" by blast+
qed

lemma py_int_show_nat: "n < 10 ^ 7 \<Longrightarrow> py_int (show_nat n) = Some (int n)"
proof -
  assume n: "n < 10 ^ 7"
  have "split_sign (show_nat n) = (False, show_nat n)"
    using digits_clean(6,7)[of n] by (cases "show_nat n") (auto simp: split_sign_def)
  moreover have "digit_groups (show_nat n) = Some (show_nat n)"
    using digits_clean(5)[of n] show_nat_digits[of n] by (simp add: digit_groups_def Let_def split_on_word)
  moreover have "length (show_nat n) \<le> 4300" using length_show_nat[OF n] by simp
  ultimately show ?thesis by (simp add: py_int_def digits_clean)
qed

lemma strip_no_space: "\<forall>c \<in> set s. \<not> is_space c \<Longrightarrow> strip s = s"
  unfolding strip_id_iff by (metis hd_in_set last_in_set)

lemma b64_piece:
  assumes "set chunk \<subseteq> set (b64encode bs)"
  shows "unescape (escape chunk) = chunk" and "list_all (\<lambda>c. of_char c < (128 :: nat)) chunk"
    and "clean_field (''data'', escape chunk)"
proof -
  have c: "c \<in> set chunk \<Longrightarrow> of_char c < (128 :: nat) \<and> \<not> is_space c \<and> c \<noteq> CHR ''%'' \<and> c \<noteq> CHR 0x0A" for c
    using assms b64encode_ascii by blast
  then show "unescape (escape chunk) = chunk" by (intro unescape_escape) auto
  show "list_all (\<lambda>c. of_char c < (128 :: nat)) chunk" using c by (simp add: list_all_iff)
  have "\<not> is_space c" if "c \<in> set ''%3d''" for c using that by (auto simp: is_space_def)
  then have e: "\<forall>c \<in> set (escape chunk). \<not> is_space c" using c escape_set by blast
  moreover have "is_space (CHR 0x0A)" "is_space (CHR 0x0D)" "is_space (CHR 0x09)" by code_simp+
  ultimately have "{CHR 0x0A, CHR 0x0D, CHR 0x09} \<inter> set (escape chunk) = {}" by blast
  moreover have "strip ''data'' = ''data''" by code_simp
  ultimately show "clean_field (''data'', escape chunk)" using strip_no_space[OF e] by (simp add: clean_field_def)
qed

lemma fragment_fields_read:
  assumes "set chunk \<subseteq> set (b64encode bs)"
  shows "decode_fields (encode_fields (fragment_fields m n chunk)) = fragment_fields m n chunk"
proof (rule decode_encoded_fields)
  have "list_all (\<lambda>s. strip s = s) [''decodedSize'', ''size'']" by code_simp
  then show "\<forall>f \<in> set (fragment_fields m n chunk). clean_field f"
    using b64_piece(3)[OF assms] by (simp add: fragment_fields_def clean_field_def digits_clean)
qed (simp add: fragment_fields_def)

definition fragment_frame :: "string \<Rightarrow> nat \<Rightarrow> nat \<Rightarrow> nat \<Rightarrow> string \<Rightarrow> fesl_frame" where
  "fragment_frame command t m n chunk =
     \<lparr>ff_command = command, ff_transaction = int t, ff_payload = encode_fields (fragment_fields m n chunk)\<rparr>"

lemma complete_fragment:
  assumes "set chunk \<subseteq> set (b64encode bs)" and "t < 2 ^ 32" and "0 < n" and "int n \<le> MAX_CHUNKED_PAYLOAD_ENCODED_SIZE" and "m < 10 ^ 7"
    and buffers: "(command, t) \<notin> fst ` set buffers" "length buffers < MAX_ACTIVE_CHUNK_BUFFERS"
    and now: "now = (if old = [] then buffers else buffers @ [((command, t), (old, int n))])"
    and new: "length (old @ chunk) \<le> n" "chunk \<noteq> []"
  shows "complete_fields (fragment_frame command t m n chunk) now =
    (if length (old @ chunk) < n then (None, buffers @ [((command, t), (old @ chunk, int n))])
     else (case b64decode (old @ chunk) of None \<Rightarrow> None
         | Some payload \<Rightarrow> if m = length payload then Some (decode_fields (payload @ [0])) else None, buffers))"
proof -
  have fs: "frame_fields (fragment_frame command t m n chunk) = fragment_fields m n chunk"
    using fragment_fields_read[OF assms(1)] by (simp add: frame_fields_def fragment_frame_def)
  have n: "n < 10 ^ 7" using assms(4) by (simp add: MAX_CHUNKED_PAYLOAD_ENCODED_SIZE_def)
  have key: "umask 32 (int t) = t" using assms(2) by (rule umask_of_nat)
  have nobuf: "map_of buffers (command, t) = None" using buffers(1) by (simp add: map_of_eq_None_iff)
  have look: "map_of now (command, t) = (if old = [] then None else Some (old, int n))"
    using nobuf by (simp add: now map_add_def)
  have "\<forall>b \<in> set buffers. (command, t) \<noteq> fst b" using buffers(1) by force
  then have "AList.delete (command, t) buffers = buffers" by (simp add: AList.delete_eq filter_id_conv case_prod_beta)
  then have del: "AList.delete (command, t) now = buffers"
    by (simp add: now AList.delete_eq)
  have upd: "AList.update (command, t) v now = buffers @ [((command, t), v)]" for v
  proof -
    have "AList.update k v (xs @ [(k, w)]) = xs @ [(k, v)]" if "k \<notin> fst ` set xs" for k :: "string \<times> nat" and w :: "string \<times> int" and xs
      using that by (induction xs) auto
    then show ?thesis using buffers(1) by (simp add: now update_snoc)
  qed
  have fields: "map_of (fragment_fields m n chunk) ''data'' = Some (escape chunk)" "map_of (fragment_fields m n chunk) ''size'' = Some (show_nat n)"
    "map_of (fragment_fields m n chunk) ''decodedSize'' = Some (show_nat m)" by (simp_all add: fragment_fields_def)
  have frame: "ff_command (fragment_frame command t m n chunk) = command" "umask 32 (ff_transaction (fragment_frame command t m n chunk)) = t"
    by (simp_all add: fragment_frame_def key)
  have size: "py_int (if show_nat n = [] then ''0'' else show_nat n) = Some (int n)" using py_int_show_nat[OF n] by simp
  have buffer: "(case map_of now (command, t) of None \<Rightarrow> ([], 0) | Some b \<Rightarrow> b) = (old, if old = [] then 0 else int n)"
    by (simp add: look)
  have free: "\<not> (map_of now (command, t) = None \<and> MAX_ACTIVE_CHUNK_BUFFERS \<le> length now)"
    using buffers(2) look by (cases "old = []") (simp_all add: now)
  have guard: "\<not> (int n \<le> 0 \<or> MAX_CHUNKED_PAYLOAD_ENCODED_SIZE < int n \<or> (if old = [] then 0 else int n) \<noteq> 0 \<and> (if old = [] then 0 else int n) \<noteq> int n)"
    using assms(3,4) by simp
  have fit: "\<not> int n < int (length (old @ chunk))" using new(1) by simp
  show ?thesis
    unfolding complete_fields_def Let_def fs frame fields option.sel buffer prod.case size option.case
      if_not_P[OF guard] if_not_P[OF free] b64_piece(1)[OF assms(1)] if_not_P[OF fit] del upd py_int_show_nat[OF assms(5)]
    using b64_piece(2)[OF assms(1)] by (simp split: option.split)
qed

lemma complete_fragments:
  assumes "t < 2 ^ 32" and "int (length (b64encode logical)) \<le> MAX_CHUNKED_PAYLOAD_ENCODED_SIZE"
    and "length logical < 10 ^ 7"
    and "(command, t) \<notin> fst ` set buffers" and "length buffers < MAX_ACTIVE_CHUNK_BUFFERS"
    and "cs \<noteq> []" and "\<forall>c \<in> set cs. c \<noteq> []" and "old @ concat cs = b64encode logical"
  defines "n \<equiv> length (b64encode logical)"
  shows "complete_all (map (fragment_frame command t (length logical) n) cs)
      (if old = [] then buffers else buffers @ [((command, t), (old, int n))]) =
    (replicate (length cs - 1) None @ [Some (decode_fields (logical @ [0]))], buffers)"
  using assms(6-8)
proof (induction cs arbitrary: old)
  case (Cons c cs)
  have set: "set c \<subseteq> set (b64encode logical)" unfolding Cons.prems(3)[symmetric] by auto
  have len: "length old + length c + length (concat cs) = n" using arg_cong[OF Cons.prems(3), of length] by (simp add: n_def)
  have c: "c \<noteq> []" using Cons.prems(2) by simp
  have "0 < length c" using c by simp
  then have n: "0 < n" "int n \<le> MAX_CHUNKED_PAYLOAD_ENCODED_SIZE" using len assms(2) unfolding n_def by linarith+
  note one = complete_fragment[OF set assms(1) n assms(3,4,5) refl, of old]
  show ?case
  proof (cases "cs = []")
    case True
    then have "old @ c = b64encode logical" using Cons.prems(3) by simp
    moreover from this have "length (old @ c) = n" by (simp add: n_def)
    ultimately have "complete_fields (fragment_frame command t (length logical) n c)
        (if old = [] then buffers else buffers @ [((command, t), (old, int n))]) = (Some (decode_fields (logical @ [0])), buffers)"
      using one c by (simp add: b64_roundtrip del: length_append split del: if_split)
    then show ?thesis using True by (simp split del: if_split)
  next
    case False
    then have "concat cs \<noteq> []" using Cons.prems(2) by (cases cs) auto
    then have "0 < length (concat cs)" by (rule length_greater_0_conv[THEN iffD2])
    then have "length (old @ c) < n" "length (old @ c) \<le> n" using len unfolding length_append by linarith+
    then have "complete_fields (fragment_frame command t (length logical) n c) (if old = [] then buffers else buffers @ [((command, t), (old, int n))])
      = (None, buffers @ [((command, t), (old @ c, int n))])" using one c len by simp
    moreover have "complete_all (map (fragment_frame command t (length logical) n) cs) (buffers @ [((command, t), (old @ c, int n))])
      = (replicate (length cs - 1) None @ [Some (decode_fields (logical @ [0]))], buffers)"
      using Cons.IH[of "old @ c"] False Cons.prems c by simp
    moreover have "length cs = Suc (length cs - 1)" using False by (cases cs) simp_all
    ultimately show ?thesis by (metis (no_types, lifting) complete_all.simps(2) list.simps(9) case_prod_conv
          diff_Suc_1 length_Cons replicate_Suc append_Cons)
  qed
qed simp

lemma chunks_of_concat: "0 < k \<Longrightarrow> concat (chunks_of k s) = s"
  by (induction k s rule: chunks_of.induct) (subst chunks_of.simps, auto)

lemma chunks_of_nonempty: "c \<in> set (chunks_of k s) \<Longrightarrow> c \<noteq> []"
  by (induction k s rule: chunks_of.induct) (subst (asm) (2) chunks_of.simps, auto split: if_splits)

lemma collect_map: "\<forall>x \<in> set xs. f x = Inr (g x) \<Longrightarrow> collect (map f xs) = Inr (map g xs)"
  by (induction xs) auto

lemma fragment_transaction_less: "fragment_transaction t < 2 ^ 32"
  using umask_less[of 28 t] by (simp add: fragment_transaction_def)

lemma packetized:
  assumes "packetize_frame frame limit = Inr frames" and "limit < int (length (ff_payload frame))" and "0 < limit"
  defines "logical \<equiv> (if ff_payload frame \<noteq> [] \<and> last (ff_payload frame) = 0 then butlast (ff_payload frame) else ff_payload frame)"
  shows "frames = map (fragment_frame (ff_command frame) (fragment_transaction (ff_transaction frame)) (length logical)
     (length (b64encode logical))) (chunks_of (nat limit) (b64encode logical))"
proof -
  define cs where "cs = chunks_of (nat limit) (b64encode logical)"
  have mask: "umask 32 (int (fragment_transaction t)) = fragment_transaction t" for t
    using fragment_transaction_less by (rule umask_of_nat)
  show ?thesis
  proof (cases "command_bytes (ff_command frame)")
    case (Inr raw)
    have "collect (map (\<lambda>chunk. from_fields (ff_command frame) (fragment_fields (length logical) (length (b64encode logical)) chunk)
       (int (fragment_transaction (ff_transaction frame)))) cs) =
      Inr (map (fragment_frame (ff_command frame) (fragment_transaction (ff_transaction frame)) (length logical) (length (b64encode logical))) cs)"
      by (rule collect_map) (simp add: from_fields_def Inr fragment_frame_def mask)
    then show ?thesis using assms(1-3) by (simp add: packetize_frame_def Let_def logical_def[symmetric] cs_def)
  next
    case (Inl e)
    have f: "from_fields (ff_command frame) fs t = Inl e" for fs t by (simp add: from_fields_def Inl)
    have "cs = []"
    proof (rule ccontr)
      assume "cs \<noteq> []"
      then obtain c cs' where "cs = c # cs'" by (cases cs) auto
      then show False using assms(1-3) by (simp add: packetize_frame_def Let_def logical_def[symmetric] cs_def[symmetric] f)
    qed
    then show ?thesis using assms(1-3) by (simp add: packetize_frame_def Let_def logical_def[symmetric] cs_def[symmetric])
  qed
qed

text \<open>
  C28. A large FESL body survives fragmentation: whatever \<open>packetize_frame\<close> makes of a frame, a
  connection that receives those frames in order (with fewer than eight other bodies under
  way and within the size limit) answers nothing until the last one, then has exactly the
  fields of the original body, and keeps no fragment.
\<close>

theorem fragments_reassembled:
  assumes "packetize_frame frame limit = Inr frames" and "limit < int (length (ff_payload frame))"
    and "4 * length (ff_payload frame) + 8 \<le> 3 * nat MAX_CHUNKED_PAYLOAD_ENCODED_SIZE"
    and "(ff_command frame, fragment_transaction (ff_transaction frame)) \<notin> fst ` set buffers"
    and "length buffers < MAX_ACTIVE_CHUNK_BUFFERS"
  shows "complete_all frames buffers = (replicate (length frames - 1) None @ [Some (decode_fields (ff_payload frame))], buffers)"
proof -
  define payload where "payload = ff_payload frame"
  define logical where "logical = (if payload \<noteq> [] \<and> last payload = 0 then butlast payload else payload)"
  have limit: "0 < limit" using assms(1) by (auto simp: packetize_frame_def Let_def split: if_splits)
  have split: "payload = logical \<or> payload = logical @ [0]"
  proof (cases "payload \<noteq> [] \<and> last payload = 0")
    case True
    then show ?thesis using append_butlast_last_id[of payload] by (simp add: logical_def)
  qed (auto simp: logical_def)
  have len: "length logical \<le> length payload" "logical \<noteq> []" using split assms(2) limit by (auto simp: payload_def[symmetric])
  define cs where "cs = chunks_of (nat limit) (b64encode logical)"
  have cs: "concat cs = b64encode logical" using limit by (simp add: cs_def chunks_of_concat)
  have ne: "cs \<noteq> []" using cs len(2) by (cases logical rule: b64encode.cases) auto
  have frames: "frames = map (fragment_frame (ff_command frame) (fragment_transaction (ff_transaction frame)) (length logical) (length (b64encode logical))) cs"
    using packetized[OF assms(1,2) limit] by (simp add: logical_def payload_def cs_def)
  have bound: "4 * length payload + 8 \<le> 6291456" using assms(3) by (simp add: payload_def MAX_CHUNKED_PAYLOAD_ENCODED_SIZE_def)
  have "3 * ((length logical + 2) div 3) \<le> length logical + 2" by simp
  then have "length (b64encode logical) \<le> 2097152" "length logical < 10000000"
    using len(1) bound unfolding length_b64encode by linarith+
  then have size: "int (length (b64encode logical)) \<le> MAX_CHUNKED_PAYLOAD_ENCODED_SIZE" "length logical < 10 ^ 7"
    by (simp_all add: MAX_CHUNKED_PAYLOAD_ENCODED_SIZE_def)
  have "decode_fields (logical @ [0]) = decode_fields payload" using split decode_trailing_nul[of logical] by auto
  then show ?thesis
    using complete_fragments[OF fragment_transaction_less size assms(4,5) ne, of "[]"] chunks_of_nonempty cs
    by (simp add: frames payload_def cs_def)
qed


lemma packetize_ok:
  assumes "is_ok (command_bytes (ff_command frame))" and "0 < limit"
  shows "\<exists>frames. packetize_frame frame limit = Inr frames"
proof -
  obtain raw where raw: "command_bytes (ff_command frame) = Inr raw" using assms(1) by (auto simp: is_ok_iff)
  have each: "\<exists>ys. collect (map (\<lambda>chunk. from_fields (ff_command frame) (f chunk) t) cs) = Inr ys" for f t cs
    by (induction cs) (auto simp: from_fields_def raw)
  define logical where "logical = (if ff_payload frame \<noteq> [] \<and> last (ff_payload frame) = 0 then butlast (ff_payload frame) else ff_payload frame)"
  obtain ys where "collect (map (\<lambda>chunk. from_fields (ff_command frame) (fragment_fields (length logical) (length (b64encode logical)) chunk)
       (int (fragment_transaction (ff_transaction frame)))) (chunks_of (nat limit) (b64encode logical))) = Inr ys" using each by blast
  then show ?thesis using assms(2) by (simp add: packetize_frame_def Let_def logical_def[symmetric])
qed

definition rank_frame :: fesl_frame where
  "rank_frame = \<lparr>ff_command = ''rank'', ff_transaction = 5, ff_payload = encode_fields [(''TXN'', ''UpdateStats'')]\<rparr>"

theorem fragments_reassembled_witness:
  "\<exists>frames. packetize_frame rank_frame 10 = Inr frames \<and>
     complete_all frames [] = (replicate (length frames - 1) None @ [Some [(''TXN'', ''UpdateStats'')]], [])"
proof -
  have "is_ok (command_bytes (ff_command rank_frame))" by code_simp
  then obtain frames where frames: "packetize_frame rank_frame 10 = Inr frames" using packetize_ok[of rank_frame 10] by auto
  have size: "length (ff_payload rank_frame) = 17" by (simp add: rank_frame_def encode_fields_def)
  have "list_all (\<lambda>s. strip s = s) [''TXN'', ''UpdateStats'']" by code_simp
  then have "decode_fields (ff_payload rank_frame) = [(''TXN'', ''UpdateStats'')]"
    unfolding rank_frame_def fesl_frame.simps by (intro decode_encoded_fields) (simp_all add: clean_field_def)
  then show ?thesis using fragments_reassembled[OF frames, of "[]"] frames size
    by (simp add: MAX_CHUNKED_PAYLOAD_ENCODED_SIZE_def MAX_ACTIVE_CHUNK_BUFFERS_def)
qed


end
