(* ===== verification/ClassicFrame.thy ===== *)
theory ClassicFrame
  imports FeslFields
begin

text \<open>
  The frames of the Underground 2 and Most Wanted servers (\<open>classic/protocols/frame.py\<close>) and
  their stream decoder (\<open>classic/protocols/stream.py\<close>).  MD5 is an argument.
\<close>

section \<open>Frames\<close>

datatype classic_error =
    Bad_Command | Reserved_Out_Of_Range | Length_Too_Large
  | Incomplete_Header | Bad_Command_Bytes | Bad_Length nat | Incomplete_Payload
  | Signed_Too_Short | Prefix_Too_Large | Bad_Short_Tag

record classic_frame =
  cf_command :: string
  cf_payload :: bytes
  cf_reserved :: int

definition valid_command :: "string \<Rightarrow> bool" where
  "valid_command command = (length (latin1_encode command) = 4 \<and> printable (latin1_encode command))"

definition new_classic_frame :: "string \<Rightarrow> bytes \<Rightarrow> int \<Rightarrow> classic_error + classic_frame" where
  "new_classic_frame command payload reserved =
    (if \<not> valid_command command then Inl Bad_Command
     else if \<not> (0 \<le> reserved \<and> reserved \<le> 0xFFFFFFFF) then Inl Reserved_Out_Of_Range
     else Inr \<lparr>cf_command = command, cf_payload = payload, cf_reserved = reserved\<rparr>)"

definition total_length :: "classic_frame \<Rightarrow> nat" where
  "total_length f = 12 + length (cf_payload f)"

definition classic_encode :: "classic_frame \<Rightarrow> classic_error + bytes" where
  "classic_encode f =
    (if 2 ^ 32 \<le> total_length f then Inl Length_Too_Large
     else Inr (latin1_encode (cf_command f) @ to_be 4 (umask 32 (cf_reserved f)) @ to_be 4 (total_length f) @ cf_payload f))"

definition classic_decode_one :: "bytes \<Rightarrow> classic_error + classic_frame \<times> bytes" where
  "classic_decode_one raw =
    (if length raw < 12 then Inl Incomplete_Header
     else if \<not> printable (take 4 raw) then Inl Bad_Command_Bytes
     else let reserved = be_nat (slice 4 8 raw); size_word = be_nat (slice 8 12 raw)
          in if size_word < 12 then Inl (Bad_Length size_word)
             else if length raw < size_word then Inl Incomplete_Payload
             else rbind (new_classic_frame (latin1_decode (take 4 raw)) (slice 12 size_word raw) (int reserved)) (\<lambda>f.
               Inr (f, drop size_word raw)))"

text \<open>\<open>separator.join(lines)\<close> and a last separator if asked for; the payload is UTF-8.\<close>

fun join_text :: "string \<Rightarrow> string list \<Rightarrow> string" where
  "join_text separator [] = []"
| "join_text separator [w] = w"
| "join_text separator (w # v # ws) = w @ separator @ join_text separator (v # ws)"

definition classic_from_fields ::
  "string \<Rightarrow> (string \<times> string) list \<Rightarrow> int \<Rightarrow> string \<Rightarrow> bool \<Rightarrow> classic_error + classic_frame" where
  "classic_from_fields command items reserved separator final_separator =
    (let lines = map (\<lambda>(key, v). key @ CHR ''='' # v) items;
         body = join_text separator lines @ (if final_separator \<and> lines \<noteq> [] then separator else [])
     in new_classic_frame command (utf8_encode body @ [0]) reserved)"

text \<open>A padded frame whose last eight bytes are the start of the MD5 of everything before.\<close>

definition signed_frame :: "(bytes \<Rightarrow> bytes) \<Rightarrow> string \<Rightarrow> bytes \<Rightarrow> int \<Rightarrow> int \<Rightarrow> classic_error + classic_frame" where
  "signed_frame digest command payload_prefix total_payload_length reserved =
    (if total_payload_length < 8 then Inl Signed_Too_Short
     else let body_capacity = nat (total_payload_length - 8)
          in if body_capacity < length payload_prefix then Inl Prefix_Too_Large
             else let body = payload_prefix @ replicate (body_capacity - length payload_prefix) 0 @ replicate 8 0
                  in rbind (new_classic_frame command body reserved) (\<lambda>f.
                     rbind (classic_encode f) (\<lambda>unsigned.
                     new_classic_frame command
                       (take (length body - 8) body @ take 8 (digest (take (length unsigned - 8) unsigned))) reserved)))"

definition short_frame :: "string \<Rightarrow> classic_error + bytes" where
  "short_frame tag = (let raw = latin1_encode tag
     in if length raw \<noteq> 8 \<or> \<not> printable raw then Inl Bad_Short_Tag else Inr (raw @ to_be 4 12))"

definition classic_line :: "string \<Rightarrow> (string \<times> string) list \<Rightarrow> (string \<times> string) list" where
  "classic_line line result =
    (if CHR ''='' \<notin> set line then result
     else let (key, v) = split_first (CHR ''='') line; name = upper (strip key)
          in if name = [] then result else AList.update name (strip v) result)"

definition classic_fields :: "classic_frame \<Rightarrow> (string \<times> string) list" where
  "classic_fields f =
    (let body = takeWhile (\<lambda>b. b \<noteq> 0) (cf_payload f)
     in fold classic_line (split_on (CHR 0x0A) (line_breaks (latin1_decode body))) [])"

section \<open>The stream decoder\<close>

datatype classic_packet = Full_Frame classic_frame | Short_Frame string

datatype classic_stream_error =
    Limit_Too_Small | Invalid_Length nat | Exceeds_Limit nat | Invalid_Command_Bytes | Invalid_Frame classic_error | Partial_Frame

record classic_stream_decoder =
  cd_max_frame_size :: int
  cd_buffer :: bytes

definition new_classic_stream_decoder :: "int \<Rightarrow> classic_stream_error + classic_stream_decoder" where
  "new_classic_stream_decoder max_frame_size =
    (if max_frame_size < 12 then Inl Limit_Too_Small else Inr \<lparr>cd_max_frame_size = max_frame_size, cd_buffer = []\<rparr>)"

definition printable_some :: "bytes \<Rightarrow> bool" where
  "printable_some raw = (raw \<noteq> [] \<and> printable raw)"

function classic_loop :: "int \<Rightarrow> bytes \<Rightarrow> (classic_stream_error + classic_packet list) \<times> bytes" where
  "classic_loop m buffer =
    (if length buffer < 12 then (Inr [], buffer)
     else let size_word = be_nat (slice 8 12 buffer)
     in if size_word < 12 then (Inl (Invalid_Length size_word), buffer)
        else if m < int size_word then (Inl (Exceeds_Limit size_word), buffer)
        else if length buffer < size_word then (Inr [], buffer)
        else let wire = take size_word buffer
          in if size_word = 12 \<and> printable_some (take 8 wire)
             then after_frame (Short_Frame (latin1_decode (take 8 wire))) (classic_loop m (drop size_word buffer))
             else if \<not> printable_some (take 4 wire) then (Inl Invalid_Command_Bytes, drop size_word buffer)
             else (case classic_decode_one wire of
                 Inl e \<Rightarrow> (Inl (Invalid_Frame e), drop size_word buffer)
               | Inr (frame, trailing) \<Rightarrow>
                   if trailing \<noteq> [] then (Inl Partial_Frame, drop size_word buffer)
                   else after_frame (Full_Frame frame) (classic_loop m (drop size_word buffer))))"
  by pat_completeness auto
termination by (relation "measure (\<lambda>(m, buffer). length buffer)") auto

declare classic_loop.simps [simp del]

definition classic_feed :: "bytes \<Rightarrow> classic_stream_decoder \<Rightarrow> (classic_stream_error + classic_packet list) \<times> classic_stream_decoder" where
  "classic_feed data d = (let (r, buffer) = classic_loop (cd_max_frame_size d) (cd_buffer d @ data) in (r, d\<lparr>cd_buffer := buffer\<rparr>))"

definition pending_bytes :: "classic_stream_decoder \<Rightarrow> nat" where
  "pending_bytes d = length (cd_buffer d)"

section \<open>The contract\<close>

definition classic_attempt :: "int \<Rightarrow> bytes \<Rightarrow> (classic_stream_error, classic_packet) attempt" where
  "classic_attempt m b =
    (if length b < 12 then Inr None
     else let size_word = be_nat (slice 8 12 b)
     in if size_word < 12 then Inl (Invalid_Length size_word, 0)
        else if m < int size_word then Inl (Exceeds_Limit size_word, 0)
        else if length b < size_word then Inr None
        else if size_word = 12 \<and> printable (take 8 b) then Inr (Some (Short_Frame (latin1_decode (take 8 b)), 12))
        else if \<not> printable (take 4 b) then Inl (Invalid_Command_Bytes, size_word)
        else Inr (Some (Full_Frame \<lparr>cf_command = latin1_decode (take 4 b), cf_payload = slice 12 size_word b,
               cf_reserved = int (be_nat (slice 4 8 b))\<rparr>, size_word)))"

lemma of_char_of_byte: "of_char (char_of (unat (b :: byte)) :: char) = b"
proof -
  have "unat (of_char (char_of (unat b) :: char) :: byte) = unat b" by (simp add: unat_of_char)
  then show ?thesis by (simp only: word_unat_eq_iff)
qed

lemma latin1_bytes [simp]: "latin1_encode (latin1_decode bs) = bs"
  by (simp add: latin1_encode_def latin1_decode_def comp_def of_char_of_byte)

lemma be_word_less: "length bs = 4 \<Longrightarrow> be_nat bs < 2 ^ 32"
  using be_nat_less[of bs] by simp

lemma slice_take: "b \<le> n \<Longrightarrow> slice a b (take n xs) = slice a b xs"
  by (simp add: slice_def drop_take min_absorb1)

lemma decode_delimited:
  assumes "12 \<le> length b" and "be_nat (slice 8 12 b) = size_word" and "12 \<le> size_word" and "size_word \<le> length b" and "printable (take 4 b)"
  shows "classic_decode_one (take size_word b) = Inr (\<lparr>cf_command = latin1_decode (take 4 b), cf_payload = slice 12 size_word b,
      cf_reserved = int (be_nat (slice 4 8 b))\<rparr>, [])"
proof -
  have "take 4 (take size_word b) = take 4 b" "slice 4 8 (take size_word b) = slice 4 8 b" "slice 8 12 (take size_word b) = slice 8 12 b"
     "slice 12 size_word (take size_word b) = slice 12 size_word b" "length (take size_word b) = size_word"
    using assms(3,4) by (simp_all add: slice_take min_absorb1)
  moreover have "length (take 4 b) = 4" using assms(1) by simp
  moreover have "be_nat (slice 4 8 b) < 2 ^ 32" using assms(1) by (intro be_word_less) simp
  ultimately show ?thesis using assms
    by (simp add: classic_decode_one_def new_classic_frame_def valid_command_def)
qed

lemma classic_loop_step: "classic_loop m b = (case classic_attempt m b of
    Inl (e, n) \<Rightarrow> (Inl e, drop n b) | Inr None \<Rightarrow> (Inr [], b)
  | Inr (Some (f, n)) \<Rightarrow> after_frame f (classic_loop m (drop n b)))"
proof -
  define size_word where "size_word = be_nat (slice 8 12 b)"
  consider "length b < 12 \<or> size_word < 12 \<or> m < int size_word \<or> length b < size_word"
    | (short) "12 \<le> length b" "size_word = 12" "\<not> m < int size_word" "printable (take 8 b)"
    | (bad) "12 \<le> length b" "12 \<le> size_word" "\<not> m < int size_word" "size_word \<le> length b" "\<not> (size_word = 12 \<and> printable (take 8 b))" "\<not> printable (take 4 b)"
    | (full) "12 \<le> length b" "12 \<le> size_word" "\<not> m < int size_word" "size_word \<le> length b" "\<not> (size_word = 12 \<and> printable (take 8 b))" "printable (take 4 b)"
    by linarith
  then show ?thesis
  proof cases
    case 1
    then show ?thesis by (subst classic_loop.simps) (auto simp: classic_attempt_def Let_def size_word_def[symmetric])
  next
    case short
    then have "take 8 b \<noteq> []" by (cases b) auto
    with short show ?thesis
      by (subst classic_loop.simps) (simp add: classic_attempt_def Let_def size_word_def[symmetric] printable_some_def min_absorb1)
  next
    case bad
    have "\<not> (size_word = 12 \<and> printable_some (take 8 (take size_word b)))" "\<not> printable_some (take 4 (take size_word b))"
      using bad by (auto simp: printable_some_def min_absorb1)
    with bad show ?thesis
      by (subst classic_loop.simps) (simp add: classic_attempt_def Let_def size_word_def[symmetric], blast)
  next
    case full
    have g: "\<not> length b < 12" "\<not> size_word < 12" "\<not> m < int size_word" "\<not> length b < size_word" using full by auto
    have p: "\<not> (size_word = 12 \<and> printable_some (take 8 (take size_word b)))" "\<not> \<not> printable_some (take 4 (take size_word b))"
      using full by (auto simp: printable_some_def min_absorb1)
    have "classic_loop m b = after_frame (Full_Frame \<lparr>cf_command = latin1_decode (take 4 b), cf_payload = slice 12 size_word b,
        cf_reserved = int (be_nat (slice 4 8 b))\<rparr>) (classic_loop m (drop size_word b))"
      unfolding classic_loop.simps[of m b] Let_def size_word_def[symmetric] if_not_P[OF g(1)] if_not_P[OF g(2)] if_not_P[OF g(3)]
        if_not_P[OF g(4)] if_not_P[OF p(1)] if_not_P[OF p(2)] decode_delimited[OF full(1) size_word_def[symmetric] full(2,4,6)]
      by simp
    moreover have "classic_attempt m b = Inr (Some (Full_Frame \<lparr>cf_command = latin1_decode (take 4 b), cf_payload = slice 12 size_word b,
        cf_reserved = int (be_nat (slice 4 8 b))\<rparr>, size_word))"
      unfolding classic_attempt_def Let_def size_word_def[symmetric] if_not_P[OF g(1)] if_not_P[OF g(2)] if_not_P[OF g(3)]
        if_not_P[OF g(4)] if_not_P[OF full(5)] using full(6) by simp
    ultimately show ?thesis by simp
  qed
qed

definition packet_wire :: "classic_packet \<Rightarrow> classic_error + bytes" where
  "packet_wire p = (case p of Full_Frame f \<Rightarrow> classic_encode f | Short_Frame tag \<Rightarrow> short_frame tag)"

definition packet_bytes :: "classic_packet \<Rightarrow> bytes" where
  "packet_bytes p = (case packet_wire p of Inl e \<Rightarrow> [] | Inr bs \<Rightarrow> bs)"

text \<open>
  A packet that fits; a full frame without payload whose reserved word is printable has the
  bytes of a short frame, so it is excluded.
\<close>

definition sound_packet :: "int \<Rightarrow> classic_packet \<Rightarrow> bool" where
  "sound_packet m p = (is_ok (packet_wire p) \<and> int (length (packet_bytes p)) \<le> m \<and>
     (case p of Short_Frame tag \<Rightarrow> True
      | Full_Frame f \<Rightarrow> new_classic_frame (cf_command f) (cf_payload f) (cf_reserved f) = Inr f \<and>
          \<not> (cf_payload f = [] \<and> printable (to_be 4 (nat (cf_reserved f))))))"

lemma attempt_short: "short_frame tag = Inr bs \<Longrightarrow> 12 \<le> m \<Longrightarrow> classic_attempt m bs = Inr (Some (Short_Frame tag, 12)) \<and> length bs = 12"
  by (auto simp: short_frame_def classic_attempt_def Let_def slice_def split: if_splits)

lemma attempt_full:
  assumes "new_classic_frame (cf_command f) (cf_payload f) (cf_reserved f) = Inr f" and "classic_encode f = Inr bs"
    and "int (length bs) \<le> m" and "\<not> (cf_payload f = [] \<and> printable (to_be 4 (nat (cf_reserved f))))"
  shows "classic_attempt m bs = Inr (Some (Full_Frame f, length bs))"
proof -
  have f: "valid_command (cf_command f)" "0 \<le> cf_reserved f" "cf_reserved f \<le> 0xFFFFFFFF"
    using assms(1) by (auto simp: new_classic_frame_def split: if_splits)
  have mask: "umask 32 (cf_reserved f) = nat (cf_reserved f)" using f by (intro umask_small) simp_all
  have bs: "bs = latin1_encode (cf_command f) @ to_be 4 (nat (cf_reserved f)) @ to_be 4 (total_length f) @ cf_payload f"
    and tl: "total_length f < 2 ^ 32" using assms(2) by (auto simp: classic_encode_def mask split: if_splits)
  have len: "length bs = total_length f" using f(1) by (simp add: bs total_length_def valid_command_def)
  have parts: "take 4 bs = latin1_encode (cf_command f)" "slice 4 8 bs = to_be 4 (nat (cf_reserved f))"
      "slice 8 12 bs = to_be 4 (total_length f)" "slice 12 (total_length f) bs = cf_payload f"
      "take 8 bs = latin1_encode (cf_command f) @ to_be 4 (nat (cf_reserved f))"
    using f(1) by (simp_all add: bs slice_def valid_command_def total_length_def)
  have "be_nat (to_be 4 (total_length f)) = total_length f" "be_nat (to_be 4 (nat (cf_reserved f))) = nat (cf_reserved f)"
    using tl f by simp_all
  moreover have "total_length f = 12 \<Longrightarrow> \<not> printable (take 8 bs)"
    using assms(4) by (auto simp: parts total_length_def printable_def)
  moreover have "printable (latin1_encode (cf_command f))" using f(1) by (simp add: valid_command_def)
  moreover have "12 \<le> total_length f" by (simp add: total_length_def)
  ultimately show ?thesis using assms(3) f(2) unfolding classic_attempt_def Let_def len
    by (simp add: parts) 
qed

lemma attempt_packet: "sound_packet m p \<Longrightarrow> classic_attempt m (packet_bytes p) = Inr (Some (p, length (packet_bytes p)))"
proof (cases p)
  case (Short_Frame tag)
  assume s: "sound_packet m p"
  then obtain bs where bs: "short_frame tag = Inr bs" by (auto simp: sound_packet_def packet_wire_def Short_Frame is_ok_iff)
  then have "packet_bytes p = bs" by (simp add: packet_bytes_def packet_wire_def Short_Frame)
  moreover have "length bs = 12" using bs by (auto simp: short_frame_def Let_def split: if_splits)
  ultimately show ?thesis using attempt_short[OF bs, of m] s by (simp add: sound_packet_def Short_Frame)
next
  case (Full_Frame f)
  assume s: "sound_packet m p"
  then obtain bs where bs: "classic_encode f = Inr bs" by (auto simp: sound_packet_def packet_wire_def Full_Frame is_ok_iff)
  then have "packet_bytes p = bs" by (simp add: packet_bytes_def packet_wire_def Full_Frame)
  then show ?thesis using attempt_full[OF _ bs, of m] s by (simp add: sound_packet_def Full_Frame)
qed

interpretation classic: framed_codec "classic_attempt m" "classic_loop m" packet_bytes "\<lambda>p. p" "sound_packet m" for m
proof unfold_locales
  fix b x e n f g
  show "classic_loop m b = (case classic_attempt m b of Inl (e, n) \<Rightarrow> (Inl e, drop n b) | Inr None \<Rightarrow> (Inr [], b)
      | Inr (Some (f, n)) \<Rightarrow> after_frame f (classic_loop m (drop n b)))" by (rule classic_loop_step)
  show "classic_attempt m b \<noteq> Inr None \<Longrightarrow> classic_attempt m (b @ x) = classic_attempt m b"
    by (auto simp: classic_attempt_def Let_def slice_append_left split: if_splits)
  show "classic_attempt m b = Inr (Some (f, n)) \<Longrightarrow> 0 < n \<and> n \<le> length b"
    by (auto simp: classic_attempt_def Let_def split: if_splits)
  show "classic_attempt m b = Inl (e, n) \<Longrightarrow> n \<le> length b"
    by (auto simp: classic_attempt_def Let_def split: if_splits)
  show "sound_packet m g \<Longrightarrow> classic_attempt m (packet_bytes g) = Inr (Some (g, length (packet_bytes g)))"
    by (rule attempt_packet)
qed

end
