(* ===== verification/ClassicStream.thy ===== *)
theory ClassicStream
  imports ClassicFrame
begin

text \<open>
  What the classic frames and their stream decoder guarantee: frames survive any cut of the
  stream, a frame with a bad command is skipped, signed frames carry their digest, and field
  lists are read back.
\<close>

section \<open>Streams\<close>

lemma classic_seq_all: "feed_seq classic_feed cs d =
    (let (r, buffer) = feed_all (classic_loop (cd_max_frame_size d)) (cd_buffer d) cs in (r, d\<lparr>cd_buffer := buffer\<rparr>))"
proof (induction cs arbitrary: d)
  case (Cons c cs)
  obtain q b where "classic_loop (cd_max_frame_size d) (cd_buffer d @ c) = (q, b)" by fastforce
  then show ?case using Cons.IH[of "d\<lparr>cd_buffer := b\<rparr>"]
    by (auto simp: classic_feed_def Let_def split: sum.splits prod.splits)
qed simp

text \<open>
  A classic stream delivers its packets: if the bytes received so far are the encodings of
  some packets and fewer than twelve bytes more, in whatever pieces they came, the decoder
  has answered exactly those packets and keeps the rest.
\<close>

theorem classic_stream_roundtrip:
  assumes "\<forall>p \<in> set ps. sound_packet m p" and "length rest < 12" and "concat chunks = concat (map packet_bytes ps) @ rest"
    and "new_classic_stream_decoder m = Inr d"
  shows "feed_seq classic_feed chunks d = (Inr ps, d\<lparr>cd_buffer := rest\<rparr>)"
proof -
  have d: "d = \<lparr>cd_max_frame_size = m, cd_buffer = []\<rparr>" using assms(4) by (simp add: new_classic_stream_decoder_def split: if_splits)
  have "classic_attempt m [] = Inr None" "classic_attempt m rest = Inr None" using assms(2) by (simp_all add: classic_attempt_def)
  then show ?thesis using classic.feed_encoded[of ps m rest chunks] assms
    by (simp add: classic_seq_all d)
qed

definition lobby_packets :: "classic_packet list" where
  "lobby_packets = [Short_Frame ''~png+ok.'', Full_Frame \<lparr>cf_command = ''news'', cf_payload = [0], cf_reserved = 0\<rparr>]"

lemma lobby_sound: "\<forall>p \<in> set lobby_packets. sound_packet 100 p" "length (packet_bytes (hd lobby_packets)) = 12"
proof -
  have "valid_command ''news''" "length (latin1_encode ''~png+ok.'') = 8" "printable (latin1_encode ''~png+ok.'')"
    by code_simp+
  then show "\<forall>p \<in> set lobby_packets. sound_packet 100 p" "length (packet_bytes (hd lobby_packets)) = 12"
    by (auto simp: lobby_packets_def sound_packet_def packet_wire_def packet_bytes_def classic_encode_def total_length_def
        short_frame_def new_classic_frame_def valid_command_def)
qed

theorem classic_stream_roundtrip_witness:
  "fst (feed_seq classic_feed [take 7 (concat (map packet_bytes lobby_packets)), drop 7 (concat (map packet_bytes lobby_packets))]
     \<lparr>cd_max_frame_size = 100, cd_buffer = []\<rparr>) = Inr lobby_packets"
  using classic_stream_roundtrip[OF lobby_sound(1), of "[]" "[take 7 (concat (map packet_bytes lobby_packets)), drop 7 (concat (map packet_bytes lobby_packets))]"
      "\<lparr>cd_max_frame_size = 100, cd_buffer = []\<rparr>"]
  by (simp add: new_classic_stream_decoder_def)

text \<open>
  C31. The classic decoder recovers from a bad command: a well delimited frame whose command is
  not printable makes the call raise, and the next call answers the packets behind it.
\<close>

theorem classic_decoder_recovers:
  assumes "12 \<le> length bad" and "be_nat (slice 8 12 bad) = length bad" and "int (length bad) \<le> m" and "\<not> printable (take 4 bad)"
    and "\<forall>p \<in> set ps. sound_packet m p"
  defines "d \<equiv> \<lparr>cd_max_frame_size = m, cd_buffer = []\<rparr>"
  shows "fst (classic_feed (bad @ concat (map packet_bytes ps)) d) = Inl Invalid_Command_Bytes \<and>
    fst (classic_feed [] (snd (classic_feed (bad @ concat (map packet_bytes ps)) d))) = Inr ps"
proof -
  have "take 4 bad = take 4 (take 8 bad)" by (simp add: min_absorb1)
  then have "\<not> printable (take 8 bad)" using assms(4) unfolding printable_def by (metis in_set_takeD)
  then have "classic_attempt m bad = Inl (Invalid_Command_Bytes, length bad)"
    using assms(1-4) by (simp add: classic_attempt_def)
  then have "classic_attempt m (bad @ x) = Inl (Invalid_Command_Bytes, length bad)" for x
    using classic.attempt_more[of m bad x] by simp
  then have one: "classic_loop m (bad @ x) = (Inl Invalid_Command_Bytes, x)" for x
    by (simp add: classic_loop_step[of m "bad @ x"])
  have "classic_attempt m [] = Inr None" by (simp add: classic_attempt_def)
  then have "classic_loop m (concat (map packet_bytes ps)) = (Inr ps, [])"
    using classic.drain_encoded[OF assms(5), of "[]"] by simp
  with one show ?thesis by (simp add: classic_feed_def d_def)
qed

theorem classic_decoder_recovers_witness:
  "fst (classic_feed [] (snd (classic_feed ([1, 2, 3, 4, 0, 0, 0, 0, 0, 0, 0, 12] @ concat (map packet_bytes lobby_packets))
     \<lparr>cd_max_frame_size = 100, cd_buffer = []\<rparr>))) = Inr lobby_packets"
proof -
  have "be_nat (slice 8 12 [1, 2, 3, 4, 0, 0, 0, 0, 0, 0, 0, 12]) = 12" "\<not> printable (take 4 [1, 2, 3, 4, 0, 0, 0, 0, 0, 0, 0, 12])"
    by code_simp+
  then show ?thesis
    using classic_decoder_recovers[of "[1, 2, 3, 4, 0, 0, 0, 0, 0, 0, 0, 12]" 100, OF _ _ _ _ lobby_sound(1)] by simp
qed

section \<open>Signed frames\<close>

text \<open>
  A signed frame has the length asked for and ends with the first eight bytes of the MD5 of
  everything before them; it is refused exactly for a bad command or reserved word, a length
  below eight or over a word, or a prefix that does not fit.
\<close>

theorem signed_frame_digest:
  fixes digest :: "bytes \<Rightarrow> bytes"
  assumes "\<And>x. length (digest x) = 16"
  shows "case signed_frame digest command pre n reserved of
      Inr f \<Rightarrow> 8 \<le> n \<and> int (length pre) + 8 \<le> n \<and> int (length (cf_payload f)) = n \<and> take (length pre) (cf_payload f) = pre \<and>
        (\<exists>body. classic_encode f = Inr (body @ take 8 (digest body)))
    | Inl e \<Rightarrow> \<not> valid_command command \<or> reserved < 0 \<or> 0xFFFFFFFF < reserved \<or> n < int (length pre) + 8 \<or> 2 ^ 32 \<le> n + 12"
proof (cases "valid_command command \<and> 0 \<le> reserved \<and> reserved \<le> 0xFFFFFFFF \<and> int (length pre) + 8 \<le> n \<and> n + 12 < 2 ^ 32")
  case True
  define pad where "pad = pre @ replicate (nat (n - 8) - length pre) 0"
  have len: "length pad = nat n - 8" "8 \<le> nat n" "nat n < 4294967284" using True by (auto simp: pad_def)
  define body where "body = latin1_encode command @ to_be 4 (umask 32 reserved) @ to_be 4 (12 + nat n) @ pad"
  have enc: "classic_encode \<lparr>cf_command = command, cf_payload = pad @ tl8, cf_reserved = reserved\<rparr> = Inr (body @ tl8)"
    if "length tl8 = 8" for tl8 using that True len by (simp add: classic_encode_def total_length_def body_def)
  have guards: "\<not> n < 8" "\<not> nat (n - 8) < length pre" using True by auto
  have new: "new_classic_frame command p reserved = Inr \<lparr>cf_command = command, cf_payload = p, cf_reserved = reserved\<rparr>" for p
    using True by (simp add: new_classic_frame_def)
  have body8: "pre @ replicate (nat (n - 8) - length pre) 0 @ replicate 8 0 = pad @ replicate 8 0" by (simp add: pad_def)
  have cut: "take (length (pad @ replicate 8 0) - 8) (pad @ replicate 8 0) = pad" "take (length (body @ replicate 8 0) - 8) (body @ replicate 8 0) = body"
    by simp_all
  have s: "signed_frame digest command pre n reserved = Inr \<lparr>cf_command = command, cf_payload = pad @ take 8 (digest body), cf_reserved = reserved\<rparr>"
    unfolding signed_frame_def Let_def if_not_P[OF guards(1)] if_not_P[OF guards(2)] body8 new rbind_Inr
      enc[of "replicate 8 0", simplified] cut by simp
  show ?thesis unfolding s sum.case using True len assms enc[of "take 8 (digest body)"]
    by (auto simp: pad_def min_absorb1)
next
  case False
  show ?thesis
  proof (cases "signed_frame digest command pre n reserved")
    case (Inl e)
    then show ?thesis using False by auto
  next
    case (Inr f)
    then show ?thesis using False
      by (auto simp: signed_frame_def new_classic_frame_def classic_encode_def total_length_def Let_def rbind_eq_Inr split: if_splits)
  qed
qed

theorem signed_frame_digest_witness:
  "case signed_frame (\<lambda>x. replicate 16 7) ''acct'' [1] 16 0 of Inr f \<Rightarrow> length (cf_payload f) = 16 | Inl e \<Rightarrow> False"
proof -
  have "valid_command ''acct''" by code_simp
  then show ?thesis using signed_frame_digest[where digest = "\<lambda>x. replicate 16 7" and command = "''acct''" and pre = "[1]" and n = 16 and reserved = 0]
    by (auto split: sum.splits)
qed

section \<open>Fields\<close>

definition classic_clean :: "string \<times> string \<Rightarrow> bool" where
  "classic_clean f = (strip (fst f) = fst f \<and> upper (fst f) = fst f \<and> fst f \<noteq> [] \<and> strip (snd f) = snd f \<and>
     CHR ''='' \<notin> set (fst f) \<and> (\<forall>c \<in> set (fst f) \<union> set (snd f). of_char c < (128 :: nat) \<and> c \<notin> {CHR 0x00, CHR 0x0A, CHR 0x0D, CHR 0x09}))"

definition line_break :: "char \<Rightarrow> char" where
  "line_break c = (if c = CHR 0x0D \<or> c = CHR 0x09 then CHR 0x0A else c)"

lemma equals_ascii: "of_char (CHR ''='') < (128 :: nat)"
  by code_simp


lemma utf8_ascii: "\<forall>c \<in> set s. of_char c < (128 :: nat) \<Longrightarrow> utf8_encode s = latin1_encode s"
  by (induction s) (auto simp: utf8_encode_def latin1_encode_def utf8_char_def Let_def of_nat_of_char)

lemma join_text_char: "join_text [c] ws = join_with c ws"
  by (induction "[c]" ws rule: join_text.induct) auto

lemma classic_clean_line:
  "classic_clean (k, v) \<Longrightarrow> classic_line (k @ CHR ''='' # v) d = AList.update k v d"
  by (simp add: classic_line_def split_first_append classic_clean_def)

lemma latin1_nonzero: "CHR 0x00 \<notin> set s \<Longrightarrow> takeWhile (\<lambda>b. b \<noteq> 0) (latin1_encode s @ [0]) = latin1_encode s"
proof -
  assume s: "CHR 0x00 \<notin> set s"
  have "(of_char c :: byte) \<noteq> 0" if "c \<in> set s" for c
  proof
    assume "(of_char c :: byte) = 0"
    then have "of_char c = (0 :: nat)" by (metis unat_of_char unat_0)
    then have "c = CHR 0x00" by (metis char_nul char_of_char)
    with that s show False by simp
  qed
  then show ?thesis by (subst takeWhile_append2) (auto simp: latin1_encode_def)
qed

text \<open>
  Classic fields survive the wire: an ASCII field list with distinct upper-case keys and no
  line breaks, tabs or NULs, written with a line feed or a tab between the fields, is exactly
  what the receiver's parser returns.
\<close>

theorem classic_fields_roundtrip:
  assumes "\<forall>f \<in> set fs. classic_clean f" and "distinct (map fst fs)" and "sep \<in> {CHR 0x0A, CHR 0x09}"
    and "classic_from_fields command fs reserved [sep] final_sep = Inr f"
  shows "classic_fields f = fs"
proof -
  define lines where "lines = map (\<lambda>(key, v). key @ CHR ''='' # v) fs"
  define ws where "ws = lines @ (if final_sep \<and> lines \<noteq> [] then [[]] else [])"
  define body where "body = join_with sep ws"
  have in_lines: "of_char c < (128 :: nat) \<and> c \<notin> {CHR 0x00, CHR 0x0A, CHR 0x0D, CHR 0x09}" if "w \<in> set lines" "c \<in> set w" for w c
    using assms(1) that equals_ascii by (fastforce simp: lines_def classic_clean_def)
  have body_text: "join_text [sep] lines @ (if final_sep \<and> lines \<noteq> [] then [sep] else []) = body"
    by (auto simp: body_def ws_def join_text_char join_snoc)
  have sub: "set (join_with c xs) \<subseteq> insert c (\<Union>w \<in> set xs. set w)" for c xs
    by (induction c xs rule: join_with.induct) auto
  have "set body \<subseteq> insert sep (\<Union>w \<in> set lines. set w)" using sub[of sep ws] by (auto simp: body_def ws_def split: if_splits)
  then have body: "c \<in> set body \<Longrightarrow> c = sep \<or> of_char c < (128 :: nat) \<and> c \<notin> {CHR 0x00, CHR 0x0A, CHR 0x0D, CHR 0x09}" for c
    using in_lines by blast
  have "\<forall>c \<in> set body. of_char c < (128 :: nat)" using body assms(3) by (fastforce simp: of_char_def)
  then have "utf8_encode body = latin1_encode body" by (rule utf8_ascii)
  then have payload: "cf_payload f = latin1_encode body @ [0]"
    using assms(4) by (auto simp: classic_from_fields_def Let_def lines_def[symmetric] body_text new_classic_frame_def split: if_splits)
  have "CHR 0x00 \<notin> set body" using body assms(3) by auto
  then have read: "latin1_decode (takeWhile (\<lambda>b. b \<noteq> 0) (cf_payload f)) = body"
    unfolding payload by (simp add: latin1_nonzero)
  have lb: "line_breaks body = join_with (CHR 0x0A) ws"
  proof -
    have ids: "w \<in> set ws \<Longrightarrow> line_breaks w = w" for w
      using in_lines by (intro line_breaks_id) (auto simp: ws_def split: if_splits)
    have "line_breaks (join_with sep xs) = join_with (line_break sep) (map line_breaks xs)" for xs
      by (induction sep xs rule: join_with.induct) (auto simp: line_breaks_def line_break_def)
    moreover have "line_break sep = CHR 0x0A" using assms(3) by (auto simp: line_break_def)
    moreover have "map line_breaks ws = ws" using ids by (rule map_idI)
    ultimately show ?thesis by (simp add: body_def)
  qed
  show ?thesis
  proof (cases "fs = []")
    case True
    then show ?thesis using read by (simp add: classic_fields_def body_def ws_def lines_def line_breaks_def classic_line_def)
  next
    case False
    have "split_on (CHR 0x0A) (line_breaks body) = ws"
      unfolding lb using in_lines False by (intro split_join) (auto simp: ws_def lines_def split: if_splits)
    moreover have "fold classic_line ws [] = fold classic_line lines []" by (auto simp: ws_def classic_line_def)
    moreover have "fold classic_line lines d = fold (\<lambda>(k, v). AList.update k v) fs d" for d
      using assms(1) unfolding lines_def
      by (induction fs arbitrary: d) (auto simp: classic_clean_line)
    ultimately show ?thesis using fold_update_distinct[of "[]" fs] assms(2)
      by (simp add: classic_fields_def read)
  qed
qed

theorem classic_fields_roundtrip_witness:
  "\<exists>f. classic_from_fields ''auth'' [(''NAME'', ''Ann B''), (''PASS'', ''a=b'')] 0 [CHR 0x0A] True = Inr f \<and>
     classic_fields f = [(''NAME'', ''Ann B''), (''PASS'', ''a=b'')]"
proof -
  have "valid_command ''auth''" by code_simp
  then obtain f where f: "classic_from_fields ''auth'' [(''NAME'', ''Ann B''), (''PASS'', ''a=b'')] 0 [CHR 0x0A] True = Inr f"
    by (auto simp: classic_from_fields_def Let_def new_classic_frame_def)
  have "list_all (\<lambda>s. strip s = s) [''NAME'', ''Ann B'', ''PASS'', ''a=b'']" "list_all (\<lambda>s. upper s = s) [''NAME'', ''PASS'']"
    "list_all (\<lambda>c. of_char c < (128 :: nat)) (''NAME'' @ ''Ann B'' @ ''PASS'' @ ''a=b'')" by code_simp+
  then have "\<forall>f \<in> set [(''NAME'', ''Ann B''), (''PASS'', ''a=b'')]. classic_clean f"
    by (simp add: classic_clean_def)
  from classic_fields_roundtrip[OF this _ _ f] f show ?thesis by simp
qed


end
