(* ===== verification/Password.thy ===== *)
theory Password
  imports ClassicFrame PyNumber GmProtocol
begin

unbundle bit_operations_syntax

text \<open>The reversible password tokens of \<open>classic/protocols/password.py\<close>.\<close>

section \<open>Rotations\<close>

definition rol8 :: "byte \<Rightarrow> nat \<Rightarrow> byte" where
  "rol8 v n = (let n = n mod 8 in push_bit n v OR drop_bit (8 - n) v)"

definition ror8 :: "byte \<Rightarrow> nat \<Rightarrow> byte" where
  "ror8 v n = (let n = n mod 8 in drop_bit n v OR push_bit (8 - n) v)"

section \<open>Tokens\<close>

definition DEFAULT_CLASSIC_MASKS :: "string list" where
  "DEFAULT_CLASSIC_MASKS = [''$b54ca8de40238572024704cc4de73590'', ''$5075626c6963204b6579'', ''Public Key'', ''517'', ''1773180069'']"

definition hex_digit :: "nat \<Rightarrow> char" where
  "hex_digit n = ''0123456789abcdef'' ! n"

definition hex_val :: "char \<Rightarrow> nat option" where
  "hex_val c = (case find_at [c] ''0123456789abcdef'' of Some n \<Rightarrow> Some n
     | None \<Rightarrow> map_option (\<lambda>n. n + 10) (find_at [c] ''ABCDEF''))"

text \<open>\<open>f"{value:02x}"\<close> of a byte.\<close>

definition hex_byte :: "byte \<Rightarrow> string" where
  "hex_byte b = [hex_digit (unat b div 16), hex_digit (unat b mod 16)]"

text \<open>\<open>int(text, 16)\<close> of at most two characters: blanks around it and a sign are accepted.\<close>

fun hex_digits :: "nat \<Rightarrow> string \<Rightarrow> nat option" where
  "hex_digits acc [] = Some acc"
| "hex_digits acc (c # cs) = (case hex_val c of None \<Rightarrow> None | Some n \<Rightarrow> hex_digits (acc * 16 + n) cs)"

definition hex_int :: "string \<Rightarrow> int option" where
  "hex_int s = (let (neg, digits) = split_sign (strip s) in
     if digits = [] then None else map_option (\<lambda>n. if neg then - int n else int n) (hex_digits 0 digits))"

definition mask_bytes :: "string \<Rightarrow> bytes" where
  "mask_bytes m = (let bs = ascii_ignore (if m = [] then ''0'' else m) in if bs = [] then latin1_encode ''0'' else bs)"

fun encode_states :: "bytes \<Rightarrow> byte \<Rightarrow> nat \<Rightarrow> bytes \<Rightarrow> bytes" where
  "encode_states mb state index [] = []"
| "encode_states mb state index (v # vs) =
     (let state = rol8 (v XOR state) 3 XOR mb ! (index mod length mb) in state # encode_states mb state (Suc index) vs)"

definition make_password_token :: "string \<Rightarrow> string \<Rightarrow> string" where
  "make_password_token password m = CHR ''$'' # concat (map hex_byte (encode_states (mask_bytes m) 0 0 (latin1_encode password)))"

fun decode_states :: "bytes \<Rightarrow> byte \<Rightarrow> nat \<Rightarrow> int list \<Rightarrow> bytes" where
  "decode_states mb state index [] = []"
| "decode_states mb state index (e # es) =
     (ror8 (word_of_int (e XOR uint (mb ! (index mod length mb)))) 3 XOR state)
       # decode_states mb (word_of_int e) (Suc index) es"

fun pairs_of :: "string \<Rightarrow> string list" where
  "pairs_of (a # b # cs) = [a, b] # pairs_of cs"
| "pairs_of _ = []"

fun all_some :: "'a option list \<Rightarrow> 'a list option" where
  "all_some [] = Some []"
| "all_some (x # xs) = (case (x, all_some xs) of (Some y, Some ys) \<Rightarrow> Some (y # ys) | _ \<Rightarrow> None)"

definition decode_password_token :: "string \<Rightarrow> string \<Rightarrow> string option" where
  "decode_password_token token m =
    (let content = strip token in
     if \<not> starts_with ''$'' content \<or> length content < 3 \<or> (length content - 1) mod 2 \<noteq> 0 then None
     else case all_some (map hex_int (pairs_of (tl content))) of
         None \<Rightarrow> None
       | Some encoded_values \<Rightarrow> Some (latin1_decode (decode_states (mask_bytes m) 0 0 encoded_values)))"

section \<open>Candidates\<close>

definition field_of :: "(string \<times> string) list \<Rightarrow> string \<Rightarrow> string" where
  "field_of items name = (case find (\<lambda>(key, v). casefold (strip key) = casefold name) items of
     None \<Rightarrow> [] | Some (key, v) \<Rightarrow> strip v)"

definition add_new :: "string \<Rightarrow> string list \<Rightarrow> string list" where
  "add_new v vs = (if v \<noteq> [] \<and> v \<notin> set vs then vs @ [v] else vs)"

definition mask_candidates :: "(string \<times> string) list \<Rightarrow> string \<Rightarrow> string list \<Rightarrow> string list" where
  "mask_candidates items fixed_mask classic_masks =
    fold add_new (map (field_of items) [''MASK'', ''PSES'', ''SESS'', ''CHAL'', ''CHALLENGE'', ''SKEY'', ''LKEY'']
      @ [strip fixed_mask] @ map strip classic_masks) []"

definition password_candidates :: "(string \<times> string) list \<Rightarrow> string \<Rightarrow> string \<Rightarrow> string list \<Rightarrow> string list" where
  "password_candidates items supplied fixed_mask classic_masks =
    (let classic_values = filter (\<lambda>v. v \<noteq> []) (map strip classic_masks)
     in fold (\<lambda>m candidates. case decode_password_token supplied m of
            None \<Rightarrow> candidates
          | Some decoded \<Rightarrow>
              if decoded = [] then candidates
              else fold (\<lambda>c. add_new (make_password_token decoded c)) classic_values (add_new decoded candidates))
        (mask_candidates items fixed_mask classic_values) (if supplied \<noteq> [] then [supplied] else []))"

definition storage_password_candidate :: "string list \<Rightarrow> string" where
  "storage_password_candidate candidates =
    (case find (\<lambda>c. c \<noteq> [] \<and> \<not> starts_with ''$'' c \<and> list_all (\<lambda>x. 32 \<le> (of_char x :: nat) \<and> of_char x < (127 :: nat)) c) (drop 1 candidates) of
       Some c \<Rightarrow> c
     | None \<Rightarrow> (case candidates of [] \<Rightarrow> [] | c # cs \<Rightarrow> c))"

section \<open>The round trip\<close>

lemma ror_rol: "ror8 (rol8 v 3) 3 = v"
  by (simp add: ror8_def rol8_def Let_def, rule bit_eqI)
    (auto simp: bit_simps, metis le_add_diff_inverse not_less)

lemma hex_table: "n < 16 \<Longrightarrow> hex_val (hex_digit n) = Some n \<and> hex_digit n \<notin> {CHR ''-'', CHR ''+''} \<and> \<not> is_space (hex_digit n)"
proof -
  have "list_all (\<lambda>n. hex_val (hex_digit n) = Some n \<and> hex_digit n \<notin> {CHR ''-'', CHR ''+''} \<and> \<not> is_space (hex_digit n)) [0..<16]"
    by code_simp
  then show "n < 16 \<Longrightarrow> ?thesis" by (simp add: list_all_iff)
qed

lemma hex_int_byte: "hex_int (hex_byte b) = Some (uint b)"
proof -
  have n: "unat b div 16 < 16" "unat b mod 16 < 16" using unat_byte_less[of b] by (simp_all add: less_mult_imp_div_less)
  note t = hex_table[OF n(1)] hex_table[OF n(2)]
  have "strip (hex_byte b) = hex_byte b" using t by (simp add: strip_id_iff hex_byte_def)
  moreover have "split_sign (hex_byte b) = (False, hex_byte b)" using t by (simp add: split_sign_def hex_byte_def)
  moreover have "hex_digits 0 (hex_byte b) = Some (unat b)" using t by (simp add: hex_byte_def)
  ultimately show ?thesis by (simp add: hex_int_def hex_byte_def)
qed

lemma pairs_hex: "pairs_of (concat (map hex_byte bs)) = map hex_byte bs"
  by (induction bs) (simp_all add: hex_byte_def)

lemma all_some_map: "all_some (map (\<lambda>x. Some (f x)) xs) = Some (map f xs)"
  by (induction xs) simp_all

lemma hex_strip: "strip (CHR ''$'' # concat (map hex_byte bs)) = CHR ''$'' # concat (map hex_byte bs)"
proof -
  have "\<not> is_space (CHR ''$'')" by code_simp
  moreover have "\<not> is_space c" if "c \<in> set (hex_byte b)" for b c
    using that unat_byte_less[of b] hex_table[of "unat b div 16"] hex_table[of "unat b mod 16"]
    by (auto simp: hex_byte_def less_mult_imp_div_less)
  ultimately have "\<forall>c \<in> set (CHR ''$'' # concat (map hex_byte bs)). \<not> is_space c" by auto
  then show ?thesis unfolding strip_id_iff by (metis hd_in_set last_in_set)
qed

lemma xor_uint: "word_of_int (uint (a :: byte) XOR uint b) = a XOR b"
  by (simp flip: uint_xor)

lemma decode_encode_states: "decode_states mb state index (map uint (encode_states mb state index vs)) = vs"
proof (induction vs arbitrary: state index)
  case (Cons v vs)
  show ?case using Cons.IH
    by (simp add: Let_def xor_uint xor.assoc ror_rol)
qed simp

lemma length_encode_states: "length (encode_states mb state index vs) = length vs"
  by (induction vs arbitrary: state index) (simp_all add: Let_def)

lemma length_token: "length (make_password_token p m) = 1 + 2 * length p"
proof -
  have "length (concat (map hex_byte bs)) = 2 * length bs" for bs by (induction bs) (simp_all add: hex_byte_def)
  then show ?thesis by (simp add: make_password_token_def length_encode_states)
qed

lemma decode_token: "p \<noteq> [] \<Longrightarrow> decode_password_token (make_password_token p m) m = Some p"
proof -
  assume p: "p \<noteq> []"
  have l: "length (concat (map hex_byte bs)) = 2 * length bs" for bs by (induction bs) (simp_all add: hex_byte_def)
  have "2 \<le> 2 * length p" using p by (cases p) simp_all
  then have guards: "\<not> (\<not> starts_with ''$'' (make_password_token p m) \<or> length (make_password_token p m) < 3
       \<or> (length (make_password_token p m) - 1) mod 2 \<noteq> 0)"
    unfolding length_token using p by (simp add: make_password_token_def starts_with_def)
  have "strip (make_password_token p m) = make_password_token p m" unfolding make_password_token_def by (rule hex_strip)
  then show ?thesis
    unfolding decode_password_token_def Let_def by (simp only: if_not_P[OF guards])
      (simp add: make_password_token_def pairs_hex comp_def hex_int_byte all_some_map decode_encode_states)
qed

text \<open>
  Password tokens are reversible: for every password that is not empty and every mask, the
  token decodes to the password under the same mask, and has two digits per character.
\<close>

theorem password_token_roundtrip:
  assumes "p \<noteq> []"
  shows "decode_password_token (make_password_token p m) m = Some p \<and> length (make_password_token p m) = 1 + 2 * length p"
  using decode_token[OF assms] length_token by simp

theorem password_token_roundtrip_witness:
  "decode_password_token (make_password_token ''pass'' ''517'') ''517'' = Some ''pass''"
  using password_token_roundtrip[of "''pass''" "''517''"] by simp

section \<open>Logins\<close>

lemma add_new_facts: "set (add_new v vs) = (if v = [] then set vs else insert v (set vs))" "distinct vs \<Longrightarrow> distinct (add_new v vs)"
    "vs \<noteq> [] \<Longrightarrow> add_new v vs \<noteq> [] \<and> hd (add_new v vs) = hd vs"
  by (auto simp: add_new_def)

definition try_mask :: "string \<Rightarrow> string list \<Rightarrow> string \<Rightarrow> string list \<Rightarrow> string list" where
  "try_mask supplied values' m candidates = (case decode_password_token supplied m of
      None \<Rightarrow> candidates
    | Some decoded \<Rightarrow> if decoded = [] then candidates
        else fold (\<lambda>c. add_new (make_password_token decoded c)) values' (add_new decoded candidates))"

lemma fold_add_new: "cs \<noteq> [] \<Longrightarrow> distinct cs \<Longrightarrow>
    set cs \<subseteq> set (fold (\<lambda>c. add_new (g c)) vs cs) \<and> distinct (fold (\<lambda>c. add_new (g c)) vs cs) \<and>
    fold (\<lambda>c. add_new (g c)) vs cs \<noteq> [] \<and> hd (fold (\<lambda>c. add_new (g c)) vs cs) = hd cs"
proof (induction vs arbitrary: cs)
  case (Cons v vs)
  then show ?case using Cons.IH[of "add_new (g v) cs"] by (auto simp: add_new_facts split: if_splits)
qed simp

lemma try_mask_facts:
  assumes "cs \<noteq> []" and "distinct cs"
  shows "set cs \<subseteq> set (try_mask t vs m cs) \<and> distinct (try_mask t vs m cs) \<and> try_mask t vs m cs \<noteq> [] \<and>
    hd (try_mask t vs m cs) = hd cs \<and> (\<forall>d. decode_password_token t m = Some d \<and> d \<noteq> [] \<longrightarrow> d \<in> set (try_mask t vs m cs))"
proof (cases "decode_password_token t m")
  case (Some d)
  then show ?thesis using assms fold_add_new[of "add_new d cs" "make_password_token d" vs]
    by (auto simp: try_mask_def add_new_facts split: if_splits)
qed (use assms in \<open>simp add: try_mask_def\<close>)

lemma try_masks:
  assumes "cs \<noteq> []" and "distinct cs"
  shows "set cs \<subseteq> set (fold (try_mask t vs) ms cs) \<and> distinct (fold (try_mask t vs) ms cs) \<and> fold (try_mask t vs) ms cs \<noteq> [] \<and>
    hd (fold (try_mask t vs) ms cs) = hd cs \<and>
    (\<forall>m \<in> set ms. \<forall>d. decode_password_token t m = Some d \<and> d \<noteq> [] \<longrightarrow> d \<in> set (fold (try_mask t vs) ms cs))"
  using assms
proof (induction ms arbitrary: cs)
  case (Cons m ms)
  note one = try_mask_facts[OF Cons.prems, of t vs m]
  from one have "try_mask t vs m cs \<noteq> []" "distinct (try_mask t vs m cs)" by auto
  from Cons.IH[OF this] one show ?case by auto
qed simp

text \<open>
  C38. A login with a token reaches the password: if the token was made with any mask the server
  considers (from the request, the fixed one or a classic one), the password is among the
  candidates tried; the token itself is the first candidate and none is tried twice.
\<close>

theorem token_login_reaches_password:
  assumes "p \<noteq> []" and "m \<in> set (mask_candidates items fixed_mask (filter (\<lambda>v. v \<noteq> []) (map strip classic_masks)))"
  defines "cs \<equiv> password_candidates items (make_password_token p m) fixed_mask classic_masks"
  shows "p \<in> set cs \<and> hd cs = make_password_token p m \<and> distinct cs"
proof -
  define values' where "values' = filter (\<lambda>v. v \<noteq> []) (map strip classic_masks)"
  have "make_password_token p m \<noteq> []" by (simp add: make_password_token_def)
  then have "cs = fold (try_mask (make_password_token p m) values') (mask_candidates items fixed_mask values') [make_password_token p m]"
    unfolding cs_def password_candidates_def Let_def values'_def[symmetric] try_mask_def by simp
  then show ?thesis using try_masks[of "[make_password_token p m]" "make_password_token p m" values' "mask_candidates items fixed_mask values'"]
      decode_token[OF assms(1), of m] assms(1,2) unfolding values'_def by auto
qed

theorem token_login_reaches_password_witness:
  "''pass'' \<in> set (password_candidates [(''MASK'', ''abc'')] (make_password_token ''pass'' ''abc'') [] [''517''])"
proof -
  have "''abc'' \<in> set (mask_candidates [(''MASK'', ''abc'')] [] (filter (\<lambda>v. v \<noteq> []) (map strip [''517''])))" by code_simp
  from token_login_reaches_password[OF _ this, of "''pass''"] show ?thesis by simp
qed

end
