(* ===== verification/ClassicDirectory.thy ===== *)
theory ClassicDirectory
  imports PyText "HOL-Library.FSet" "HOL-Library.Product_Lexorder"
begin

text \<open>
  The rooms and games of the classic server (\<open>classic/ea/directory.py\<close>): sessions with
  addresses, invitations, kicks, readiness and race reports.  A wall-clock reading is an
  argument of the operation that takes it.
\<close>

section \<open>Data\<close>

datatype visibility = PUBLIC | PRIVATE

datatype session_state = SS_OPEN | SS_ACTIVE | SS_FINISHED | SS_CLOSED

record room =
  rm_id :: int
  rm_owner :: int
  rm_name :: string
  rm_capacity :: int
  rm_min_players :: int
  rm_visibility :: visibility
  rm_password :: string
  rm_members :: "int fset"

definition room_visible_to :: "room \<Rightarrow> int \<Rightarrow> bool" where
  "room_visible_to r u = (rm_visibility r = PUBLIC \<or> u |\<in>| rm_members r \<or> u = rm_owner r)"

definition room_can_join :: "room \<Rightarrow> int \<Rightarrow> string \<Rightarrow> bool" where
  "room_can_join r u pw =
    (if u |\<in>| rm_members r \<or> u = rm_owner r then True
     else if rm_capacity r \<le> int (fcard (rm_members r)) then False
     else if rm_visibility r = PRIVATE \<and> rm_password r = [] then False
     else rm_password r = [] \<or> rm_password r = pw)"

type_synonym race_report = "(string \<times> string) list"

record game_session =
  gs_id :: int
  gs_room :: int
  gs_owner :: int
  gs_capacity :: int
  gs_min_players :: int
  gs_visibility :: visibility
  gs_password :: string
  gs_state :: session_state
  gs_participants :: "int fset"
  gs_name :: string
  gs_params :: string
  gs_custflags :: string
  gs_sysflags :: string
  gs_host_persona :: string
  gs_host_address :: string
  gs_personas :: "(int \<times> string) list"
  gs_addresses :: "(int \<times> string) list"
  gs_race_addresses :: "(int \<times> string) list"
  gs_wire_ids :: "(int \<times> int) list"
  gs_order :: "int list"
  gs_aux :: "(int \<times> string) list"
  gs_ready :: "int fset"
  gs_kicked :: "int fset"
  gs_invited :: "int fset"
  gs_reported :: "int fset"
  gs_results :: "(int \<times> race_report) list"
  gs_created_at :: rat
  gs_started_at :: rat
  gs_finished_at :: rat
  gs_last_activity_at :: rat

text \<open>
  The slots of a game: the owner first, then the others as they joined, then those without a
  known place by wire id.  The order is kept, so the second component is the game after it.
\<close>

definition keep_order :: "int fset \<Rightarrow> int list \<Rightarrow> int list \<Rightarrow> int list" where
  "keep_order current ordered joined =
    fold (\<lambda>u acc. if u |\<in>| current \<and> u \<notin> set acc then acc @ [u] else acc) joined ordered"

definition slot_key :: "(int \<times> int) list \<Rightarrow> int \<Rightarrow> int \<times> int" where
  "slot_key wire_ids u = (let w = (case map_of wire_ids u of None \<Rightarrow> 0 | Some w \<Rightarrow> w)
     in (if w = 0 then 2 ^ 32 else w, u))"

definition ordered_participants :: "game_session \<Rightarrow> int list \<times> game_session" where
  "ordered_participants g =
    (let current = gs_participants g;
         first = (if gs_owner g |\<in>| current then [gs_owner g] else []);
         ordered = keep_order current first (gs_order g);
         remaining = sort_key (slot_key (gs_wire_ids g)) (sorted_list_of_fset (current |-| fset_of_list ordered))
     in (ordered @ remaining, g\<lparr>gs_order := ordered @ remaining\<rparr>))"

definition game_visible_to :: "game_session \<Rightarrow> int \<Rightarrow> bool" where
  "game_visible_to g u = (gs_visibility g = PUBLIC \<or> gs_password g \<noteq> [] \<or> u = gs_owner g \<or> u |\<in>| gs_participants g \<or> u |\<in>| gs_invited g)"

definition game_can_join :: "game_session \<Rightarrow> int \<Rightarrow> string \<Rightarrow> bool" where
  "game_can_join g u pw =
    (if u |\<in>| gs_participants g \<or> u = gs_owner g then True
     else if gs_state g \<noteq> SS_OPEN \<or> gs_capacity g \<le> int (fcard (gs_participants g)) then False
     else if u |\<in>| gs_invited g then True
     else if gs_visibility g = PRIVATE then gs_password g \<noteq> [] \<and> gs_password g = pw
     else gs_password g = [] \<or> gs_password g = pw)"

record session_directory =
  sd_next_room :: int
  sd_next_game :: int
  sd_rooms :: "(int \<times> room) list"
  sd_games :: "(int \<times> game_session) list"

definition new_directory :: session_directory where
  "new_directory = \<lparr>sd_next_room = 1, sd_next_game = 1, sd_rooms = [], sd_games = []\<rparr>"

datatype directory_error = Invalid_Room_Capacity | Invalid_Game_Capacity

section \<open>Rooms\<close>

definition create_room ::
  "int \<Rightarrow> string \<Rightarrow> int \<Rightarrow> int \<Rightarrow> visibility \<Rightarrow> string \<Rightarrow> session_directory \<Rightarrow> directory_error + room \<times> session_directory" where
  "create_room owner name cap min_players vis pw d =
    (if cap < 1 \<or> min_players < 1 \<or> cap < min_players then Inl Invalid_Room_Capacity
     else let r = \<lparr>rm_id = sd_next_room d, rm_owner = owner, rm_name = name, rm_capacity = cap,
                   rm_min_players = min_players, rm_visibility = vis, rm_password = pw, rm_members = {|owner|}\<rparr>
          in Inr (r, d\<lparr>sd_rooms := AList.update (rm_id r) r (sd_rooms d), sd_next_room := sd_next_room d + 1\<rparr>))"

definition join_room :: "int \<Rightarrow> int \<Rightarrow> string \<Rightarrow> session_directory \<Rightarrow> bool \<times> session_directory" where
  "join_room i u pw d = (case map_of (sd_rooms d) i of
      None \<Rightarrow> (False, d)
    | Some r \<Rightarrow> if \<not> room_can_join r u pw then (False, d)
        else (True, d\<lparr>sd_rooms := AList.update i (r\<lparr>rm_members := finsert u (rm_members r)\<rparr>) (sd_rooms d)\<rparr>))"

definition leave_room :: "int \<Rightarrow> int \<Rightarrow> session_directory \<Rightarrow> bool \<times> session_directory" where
  "leave_room i u d = (case map_of (sd_rooms d) i of
      None \<Rightarrow> (False, d)
    | Some r \<Rightarrow> if u |\<notin>| rm_members r then (False, d)
        else let r = r\<lparr>rm_members := rm_members r |-| {|u|}\<rparr>
             in (True, d\<lparr>sd_rooms := (if rm_members r = {||} then AList.delete (rm_id r) (sd_rooms d)
                                     else AList.update i r (sd_rooms d))\<rparr>))"

definition visible_rooms :: "int \<Rightarrow> session_directory \<Rightarrow> room list" where
  "visible_rooms u d = [r \<leftarrow> map snd (sd_rooms d). room_visible_to r u]"

section \<open>Games\<close>

record game_options =
  go_capacity :: int
  go_min_players :: int
  go_visibility :: visibility
  go_password :: string
  go_include_owner :: bool
  go_name :: string
  go_params :: string
  go_custflags :: string
  go_sysflags :: string
  go_host_persona :: string
  go_host_address :: string

definition create_game :: "int \<Rightarrow> int \<Rightarrow> game_options \<Rightarrow> rat \<Rightarrow> session_directory \<Rightarrow> directory_error + game_session \<times> session_directory" where
  "create_game room_id owner opts now d =
    (if go_capacity opts < 1 \<or> go_min_players opts < 1 \<or> go_capacity opts < go_min_players opts then Inl Invalid_Game_Capacity
     else let own = go_include_owner opts;
              g = \<lparr>gs_id = sd_next_game d, gs_room = room_id, gs_owner = owner, gs_capacity = go_capacity opts,
                   gs_min_players = go_min_players opts, gs_visibility = go_visibility opts, gs_password = go_password opts,
                   gs_state = SS_OPEN, gs_participants = (if own then {|owner|} else {||}), gs_name = go_name opts,
                   gs_params = go_params opts, gs_custflags = go_custflags opts, gs_sysflags = go_sysflags opts,
                   gs_host_persona = go_host_persona opts, gs_host_address = go_host_address opts,
                   gs_personas = (if own then [(owner, go_host_persona opts)] else []),
                   gs_addresses = (if own then [(owner, go_host_address opts)] else []),
                   gs_race_addresses = [], gs_wire_ids = [], gs_order = (if own then [owner] else []), gs_aux = [],
                   gs_ready = {||}, gs_kicked = {||}, gs_invited = {||}, gs_reported = {||}, gs_results = [],
                   gs_created_at = now, gs_started_at = 0, gs_finished_at = 0, gs_last_activity_at = 0\<rparr>
          in Inr (g, d\<lparr>sd_games := AList.update (gs_id g) g (sd_games d), sd_next_game := sd_next_game d + 1\<rparr>))"

definition get_game :: "int \<Rightarrow> session_directory \<Rightarrow> game_session option" where
  "get_game i d = map_of (sd_games d) i"

definition list_games :: "session_directory \<Rightarrow> game_session list" where
  "list_games d = map snd (sd_games d)"

record game_status =
  st_id :: int
  st_room :: int
  st_name :: string
  st_host :: string
  st_state :: session_state
  st_visibility :: visibility
  st_players :: nat
  st_capacity :: int
  st_personas :: "string list"
  st_created_at :: rat
  st_started_at :: rat
  st_finished_at :: rat
  st_last_activity_at :: rat

definition game_status_of :: "game_session \<Rightarrow> game_status" where
  "game_status_of g =
    (let personas = map (\<lambda>u. strip (case map_of (gs_personas g) u of None \<Rightarrow> [] | Some p \<Rightarrow> p)) (sorted_list_of_fset (gs_participants g))
     in \<lparr>st_id = gs_id g, st_room = gs_room g, st_name = gs_name g, st_host = gs_host_persona g, st_state = gs_state g,
         st_visibility = gs_visibility g, st_players = fcard (gs_participants g), st_capacity = gs_capacity g,
         st_personas = [p \<leftarrow> personas. p \<noteq> []], st_created_at = gs_created_at g, st_started_at = gs_started_at g,
         st_finished_at = gs_finished_at g, st_last_activity_at = gs_last_activity_at g\<rparr>)"

definition status_snapshot :: "session_directory \<Rightarrow> game_status list" where
  "status_snapshot d = map game_status_of (sort_key gs_id (map snd (sd_games d)))"

definition admit :: "int \<Rightarrow> string \<Rightarrow> string \<Rightarrow> game_session \<Rightarrow> game_session" where
  "admit u persona address g = g\<lparr>
     gs_participants := finsert u (gs_participants g),
     gs_order := (if u \<in> set (gs_order g) then gs_order g else gs_order g @ [u]),
     gs_invited := gs_invited g |-| {|u|},
     gs_personas := (if persona \<noteq> [] then AList.update u persona (gs_personas g) else gs_personas g),
     gs_addresses := (if address \<noteq> [] then AList.update u address (gs_addresses g) else gs_addresses g)\<rparr>"

definition join_game :: "int \<Rightarrow> int \<Rightarrow> string \<Rightarrow> string \<Rightarrow> string \<Rightarrow> session_directory \<Rightarrow> bool \<times> session_directory" where
  "join_game i u pw persona address d = (case map_of (sd_games d) i of
      None \<Rightarrow> (False, d)
    | Some g \<Rightarrow> if u |\<in>| gs_kicked g \<or> \<not> game_can_join g u pw then (False, d)
        else (True, d\<lparr>sd_games := AList.update i (admit u persona address g) (sd_games d)\<rparr>))"

definition invite_user :: "int \<Rightarrow> int \<Rightarrow> session_directory \<Rightarrow> bool \<times> session_directory" where
  "invite_user i u d = (case map_of (sd_games d) i of
      None \<Rightarrow> (False, d)
    | Some g \<Rightarrow> (True, d\<lparr>sd_games := AList.update i
        (g\<lparr>gs_kicked := gs_kicked g |-| {|u|}, gs_invited := finsert u (gs_invited g)\<rparr>) (sd_games d)\<rparr>))"

definition dismiss :: "int \<Rightarrow> bool \<Rightarrow> game_session \<Rightarrow> game_session" where
  "dismiss u kicked g = g\<lparr>
     gs_participants := gs_participants g |-| {|u|},
     gs_personas := AList.delete u (gs_personas g),
     gs_addresses := AList.delete u (gs_addresses g),
     gs_race_addresses := AList.delete u (gs_race_addresses g),
     gs_wire_ids := AList.delete u (gs_wire_ids g),
     gs_order := [p \<leftarrow> gs_order g. p \<noteq> u],
     gs_aux := AList.delete u (gs_aux g),
     gs_ready := gs_ready g |-| {|u|},
     gs_kicked := (if kicked then finsert u (gs_kicked g) else gs_kicked g)\<rparr>"

definition leave_game :: "int \<Rightarrow> int \<Rightarrow> bool \<Rightarrow> session_directory \<Rightarrow> bool \<times> session_directory" where
  "leave_game i u kicked d = (case map_of (sd_games d) i of
      None \<Rightarrow> (False, d)
    | Some g \<Rightarrow> if u |\<notin>| gs_participants g then (False, d)
        else let g = dismiss u kicked g
             in (True, d\<lparr>sd_games := (if gs_participants g = {||} then AList.delete (gs_id g) (sd_games d)
                                     else AList.update i g (sd_games d))\<rparr>))"

text \<open>The game that \<open>close_game\<close> answers is the object as its holders see it afterwards.\<close>

definition close_game :: "int \<Rightarrow> session_directory \<Rightarrow> game_session option \<times> session_directory" where
  "close_game i d = (map_option (gs_state_update (\<lambda>_. SS_CLOSED)) (map_of (sd_games d) i), d\<lparr>sd_games := AList.delete i (sd_games d)\<rparr>)"

definition set_ready :: "int \<Rightarrow> int \<Rightarrow> bool \<Rightarrow> session_directory \<Rightarrow> bool \<times> session_directory" where
  "set_ready i u ready d = (case map_of (sd_games d) i of
      None \<Rightarrow> (False, d)
    | Some g \<Rightarrow> if u |\<notin>| gs_participants g then (False, d)
        else (True, d\<lparr>sd_games := AList.update i
          (g\<lparr>gs_ready := (if ready then finsert u (gs_ready g) else gs_ready g |-| {|u|})\<rparr>) (sd_games d)\<rparr>))"

definition set_state :: "int \<Rightarrow> session_state \<Rightarrow> rat \<Rightarrow> session_directory \<Rightarrow> bool \<times> session_directory" where
  "set_state i state now d = (case map_of (sd_games d) i of
      None \<Rightarrow> (False, d)
    | Some g \<Rightarrow> (True, d\<lparr>sd_games := AList.update i (g\<lparr>gs_state := state,
          gs_started_at := (if state = SS_ACTIVE \<and> gs_started_at g = 0 then now else gs_started_at g),
          gs_finished_at := (if state = SS_FINISHED \<and> gs_finished_at g = 0 then now else gs_finished_at g)\<rparr>) (sd_games d)\<rparr>))"

text \<open>The answer says whether the report was accepted and whether all participants reported.\<close>

definition record_result :: "int \<Rightarrow> int \<Rightarrow> race_report \<Rightarrow> rat \<Rightarrow> session_directory \<Rightarrow> (bool \<times> bool) \<times> session_directory" where
  "record_result i u result now d = (case map_of (sd_games d) i of
      None \<Rightarrow> ((False, False), d)
    | Some g \<Rightarrow> if u |\<notin>| gs_participants g then ((False, False), d)
        else if u |\<in>| gs_reported g then ((False, gs_participants g |\<subseteq>| gs_reported g), d)
        else let g = g\<lparr>gs_reported := finsert u (gs_reported g), gs_results := AList.update u result (gs_results g)\<rparr>;
                 complete = (gs_participants g |\<subseteq>| gs_reported g);
                 g = (if complete then g\<lparr>gs_state := SS_FINISHED, gs_finished_at := now\<rparr> else g)
             in ((True, complete), d\<lparr>sd_games := AList.update i g (sd_games d)\<rparr>))"

end
