(* ===== verification/ClassicRooms.thy ===== *)
theory ClassicRooms
  imports ClassicDirectory
begin

text \<open>
  What the classic directory promises: slots that do not move, members that stay consistent,
  kicked users that stay out, and races that finish with the last report.
\<close>

section \<open>Slots\<close>

lemma keep_order_facts: "set (keep_order current ordered joined) = set ordered \<union> (set joined \<inter> fset current) \<and>
    (distinct ordered \<longrightarrow> distinct (keep_order current ordered joined)) \<and> (\<exists>more. keep_order current ordered joined = ordered @ more)"
proof (induction joined arbitrary: ordered)
  case (Cons u joined)
  then show ?case using Cons.IH[of "ordered @ [u]"] Cons.IH[of ordered]
    by (auto simp: keep_order_def)
qed (simp add: keep_order_def)

lemma keep_order_filter: "distinct joined \<Longrightarrow> keep_order current ordered joined = ordered @ [u \<leftarrow> joined. u |\<in>| current \<and> u \<notin> set ordered]"
proof (induction joined arbitrary: ordered)
  case (Cons u joined)
  have "[v \<leftarrow> joined. v |\<in>| current \<and> v \<notin> set (ordered @ [u])] = [v \<leftarrow> joined. v |\<in>| current \<and> v \<notin> set ordered]"
    using Cons.prems by (auto intro: filter_cong)
  then show ?case using Cons.IH[of "ordered @ [u]"] Cons.IH[of ordered] Cons.prems
    by (auto simp: keep_order_def)
qed (simp add: keep_order_def)

definition slots :: "game_session \<Rightarrow> int list" where
  "slots g = fst (ordered_participants g)"

definition anchored :: "game_session \<Rightarrow> game_session" where
  "anchored g = snd (ordered_participants g)"

lemma slots_members: "distinct (slots g) \<and> set (slots g) = fset (gs_participants g) \<and>
    (gs_owner g |\<in>| gs_participants g \<longrightarrow> slots g \<noteq> [] \<and> hd (slots g) = gs_owner g)"
proof -
  define first where "first = (if gs_owner g |\<in>| gs_participants g then [gs_owner g] else [])"
  define ordered where "ordered = keep_order (gs_participants g) first (gs_order g)"
  define remaining where "remaining = sort_key (slot_key (gs_wire_ids g)) (sorted_list_of_fset (gs_participants g |-| fset_of_list ordered))"
  have s: "slots g = ordered @ remaining"
    by (simp add: slots_def ordered_participants_def Let_def first_def[symmetric] ordered_def[symmetric] remaining_def[symmetric])
  have o: "set ordered = set first \<union> (set (gs_order g) \<inter> fset (gs_participants g))" "distinct ordered" "\<exists>more. ordered = first @ more"
    using keep_order_facts[of "gs_participants g" first "gs_order g"] by (auto simp: ordered_def first_def)
  have r: "set remaining = fset (gs_participants g) - set ordered" "distinct remaining"
    by (auto simp: remaining_def fset_of_list.rep_eq sorted_list_of_fset.rep_eq)
  have "set first \<subseteq> fset (gs_participants g)" by (auto simp: first_def)
  with s o r show ?thesis by (auto simp: first_def)
qed

lemma anchored_simps: "gs_order (anchored g) = slots g" "gs_participants (anchored g) = gs_participants g" "gs_owner (anchored g) = gs_owner g"
  by (simp_all add: anchored_def slots_def ordered_participants_def Let_def)

text \<open>With a complete order the slots are that order with the owner moved to the front.\<close>

lemma slots_of_order:
  assumes "distinct (gs_order g)" and "set (gs_order g) = fset (gs_participants g)"
  shows "slots g = (if gs_owner g |\<in>| gs_participants g then gs_owner g # [u \<leftarrow> gs_order g. u \<noteq> gs_owner g] else gs_order g)"
proof -
  define first where "first = (if gs_owner g |\<in>| gs_participants g then [gs_owner g] else [])"
  define ordered where "ordered = keep_order (gs_participants g) first (gs_order g)"
  have "set ordered = fset (gs_participants g)"
    using keep_order_facts[of "gs_participants g" first "gs_order g"] assms(2) by (auto simp: ordered_def first_def)
  then have "fset (gs_participants g |-| fset_of_list ordered) = {}" by (simp add: fset_of_list.rep_eq)
  then have none: "gs_participants g |-| fset_of_list ordered = {||}" by (metis bot_fset.rep_eq fset_inject)
  have "sort_key (slot_key (gs_wire_ids g)) (sorted_list_of_fset (gs_participants g |-| fset_of_list ordered)) = []"
    unfolding none sorted_list_of_fset.rep_eq by simp
  then have "slots g = ordered"
    unfolding slots_def ordered_participants_def Let_def first_def[symmetric] ordered_def[symmetric] by (simp only: fst_conv append_Nil2)
  also have "\<dots> = first @ [u \<leftarrow> gs_order g. u |\<in>| gs_participants g \<and> u \<notin> set first]"
    unfolding ordered_def by (rule keep_order_filter[OF assms(1)])
  also have "\<dots> = (if gs_owner g |\<in>| gs_participants g then gs_owner g # [u \<leftarrow> gs_order g. u \<noteq> gs_owner g] else gs_order g)"
    using assms(2) by (auto simp: first_def intro!: filter_cong filter_True)
  finally show ?thesis .
qed

lemma set_filter_minus: "{v \<in> A. v \<noteq> u} = A - {u}"
  by auto

text \<open>
  Slots do not move.  The slots of a game are its participants, each once, with the owner
  first if he plays.  Once they have been asked for, asking again gives the same, a player
  who joins takes the slot after the last, and a player who leaves closes his own slot only.
\<close>

theorem slots_stable:
  "distinct (slots g) \<and> set (slots g) = fset (gs_participants g) \<and>
   (gs_owner g |\<in>| gs_participants g \<longrightarrow> slots g \<noteq> [] \<and> hd (slots g) = gs_owner g) \<and>
   slots (anchored g) = slots g \<and>
   (u \<noteq> gs_owner g \<and> u |\<notin>| gs_participants g \<longrightarrow> slots (admit u persona address (anchored g)) = slots g @ [u]) \<and>
   slots (dismiss u kicked (anchored g)) = [v \<leftarrow> slots g. v \<noteq> u]"
proof -
  have m: "distinct (slots g)" "set (slots g) = fset (gs_participants g)" using slots_members by auto
  have owner: "gs_owner g # [u \<leftarrow> slots g. u \<noteq> gs_owner g] = slots g" if "gs_owner g |\<in>| gs_participants g"
  proof -
    from that obtain rest where s: "slots g = gs_owner g # rest" using slots_members[of g] by (cases "slots g") auto
    have "[v \<leftarrow> rest. v \<noteq> gs_owner g] = rest" using m(1) by (auto simp: s intro!: filter_True)
    with s show ?thesis by simp
  qed
  have again: "slots (anchored g) = slots g"
    using slots_of_order[of "anchored g"] m owner by (simp add: anchored_simps)
  moreover have "slots (admit u persona address (anchored g)) = slots g @ [u]" if u: "u \<noteq> gs_owner g" "u |\<notin>| gs_participants g"
  proof -
    have "gs_order (admit u persona address (anchored g)) = slots g @ [u]" using m u by (simp add: admit_def anchored_simps)
    then have "slots (admit u persona address (anchored g)) =
      (if gs_owner g |\<in>| gs_participants g then gs_owner g # [v \<leftarrow> slots g @ [u]. v \<noteq> gs_owner g] else slots g @ [u])"
      using slots_of_order[of "admit u persona address (anchored g)"] m u by (simp add: admit_def anchored_simps)
    also have "\<dots> = slots g @ [u]" using owner u(1) by simp
    finally show ?thesis .
  qed
  moreover have "slots (dismiss u kicked (anchored g)) = [v \<leftarrow> slots g. v \<noteq> u]"
  proof -
    have "gs_order (dismiss u kicked (anchored g)) = [v \<leftarrow> slots g. v \<noteq> u]" by (simp add: dismiss_def anchored_simps)
    then have s: "slots (dismiss u kicked (anchored g)) =
      (if gs_owner g |\<in>| gs_participants g |-| {|u|} then gs_owner g # [v \<leftarrow> [v \<leftarrow> slots g. v \<noteq> u]. v \<noteq> gs_owner g] else [v \<leftarrow> slots g. v \<noteq> u])"
      using slots_of_order[of "dismiss u kicked (anchored g)"] m by (simp add: dismiss_def anchored_simps set_filter_minus)
    show ?thesis
    proof (cases "gs_owner g |\<in>| gs_participants g |-| {|u|}")
      case True
      then have o: "gs_owner g # [v \<leftarrow> slots g. v \<noteq> gs_owner g] = slots g" "gs_owner g \<noteq> u" using owner by auto
      have "[v \<leftarrow> slots g. v \<noteq> u] = [v \<leftarrow> gs_owner g # [v \<leftarrow> slots g. v \<noteq> gs_owner g]. v \<noteq> u]" unfolding o(1) ..
      also have "\<dots> = gs_owner g # [v \<leftarrow> slots g. v \<noteq> gs_owner g \<and> v \<noteq> u]"
        using o(2) by (simp add: filter_filter)
      finally have "[v \<leftarrow> slots g. v \<noteq> u] = gs_owner g # [v \<leftarrow> slots g. v \<noteq> gs_owner g \<and> v \<noteq> u]" .
      moreover have "[v \<leftarrow> slots g. v \<noteq> gs_owner g \<and> v \<noteq> u] = [v \<leftarrow> [v \<leftarrow> slots g. v \<noteq> u]. v \<noteq> gs_owner g]"
        unfolding filter_filter by (rule filter_cong) auto
      ultimately show ?thesis using s True by (simp del: filter_filter)
    qed (use s in simp)
  qed
  ultimately show ?thesis using slots_members by blast
qed

section \<open>Runs\<close>

datatype directory_call =
    Create_Room int string int int visibility string
  | Join_Room int int string
  | Leave_Room int int
  | Create_Game int int game_options rat
  | Join_Game int int string string string
  | Invite int int
  | Leave_Game int int bool
  | Close_Game int
  | Ready int int bool
  | Set_State int session_state rat
  | Report int int race_report rat
  | Ask_Slots int

fun run_directory_call :: "directory_call \<Rightarrow> session_directory \<Rightarrow> session_directory" where
  "run_directory_call (Create_Room owner name cap mn vis pw) d = (case create_room owner name cap mn vis pw d of Inl e \<Rightarrow> d | Inr (r, d') \<Rightarrow> d')"
| "run_directory_call (Join_Room i u pw) d = snd (join_room i u pw d)"
| "run_directory_call (Leave_Room i u) d = snd (leave_room i u d)"
| "run_directory_call (Create_Game room owner opts now) d = (case create_game room owner opts now d of Inl e \<Rightarrow> d | Inr (g, d') \<Rightarrow> d')"
| "run_directory_call (Join_Game i u pw persona address) d = snd (join_game i u pw persona address d)"
| "run_directory_call (Invite i u) d = snd (invite_user i u d)"
| "run_directory_call (Leave_Game i u kicked) d = snd (leave_game i u kicked d)"
| "run_directory_call (Close_Game i) d = snd (close_game i d)"
| "run_directory_call (Ready i u ready) d = snd (set_ready i u ready d)"
| "run_directory_call (Set_State i state now) d = snd (set_state i state now d)"
| "run_directory_call (Report i u result now) d = snd (record_result i u result now d)"
| "run_directory_call (Ask_Slots i) d = (case map_of (sd_games d) i of None \<Rightarrow> d
     | Some g \<Rightarrow> d\<lparr>sd_games := AList.update i (anchored g) (sd_games d)\<rparr>)"

definition run_directory :: "directory_call list \<Rightarrow> session_directory \<Rightarrow> session_directory" where
  "run_directory cs d = fold run_directory_call cs d"

definition game_ok :: "int \<Rightarrow> game_session \<Rightarrow> bool" where
  "game_ok i g = (gs_id g = i \<and> distinct (gs_order g) \<and> set (gs_order g) = fset (gs_participants g) \<and>
     fst ` set (gs_personas g) \<subseteq> fset (gs_participants g) \<and> fst ` set (gs_addresses g) \<subseteq> fset (gs_participants g) \<and>
     fset (gs_ready g) \<subseteq> fset (gs_participants g) \<and> fset (gs_kicked g) \<inter> fset (gs_participants g) = {} \<and>
     fst ` set (gs_results g) = fset (gs_reported g) \<and> 1 \<le> gs_capacity g \<and>
     int (card (fset (gs_participants g) - {gs_owner g})) \<le> gs_capacity g)"

definition room_ok :: "int \<Rightarrow> room \<Rightarrow> bool" where
  "room_ok i r = (rm_id r = i \<and> 1 \<le> rm_capacity r \<and> fset (rm_members r) \<noteq> {} \<and>
     int (card (fset (rm_members r) - {rm_owner r})) \<le> rm_capacity r)"

definition classic_ok :: "session_directory \<Rightarrow> bool" where
  "classic_ok d = ((\<forall>(i, g) \<in> set (sd_games d). game_ok i g \<and> i < sd_next_game d) \<and>
     (\<forall>(i, r) \<in> set (sd_rooms d). room_ok i r \<and> i < sd_next_room d))"

lemma classic_ok_game: "classic_ok d \<Longrightarrow> map_of (sd_games d) i = Some g \<Longrightarrow> game_ok i g \<and> i < sd_next_game d"
  by (auto simp: classic_ok_def dest!: map_of_SomeD)

lemma in_update: "(i, g) \<in> set (AList.update k v d) \<Longrightarrow> (i = k \<and> g = v) \<or> (i, g) \<in> set d"
  by (induction d) (auto split: if_splits)

lemma classic_ok_put: "classic_ok d \<Longrightarrow> map_of (sd_games d) i = Some g \<Longrightarrow> game_ok i g' \<Longrightarrow>
    classic_ok (d\<lparr>sd_games := AList.update i g' (sd_games d)\<rparr>)"
  using classic_ok_game[of d i g] by (auto simp: classic_ok_def dest!: in_update)

lemma classic_ok_drop: "classic_ok d \<Longrightarrow> classic_ok (d\<lparr>sd_games := AList.delete i (sd_games d)\<rparr>)"
  by (auto simp: classic_ok_def AList.delete_eq)

lemma game_ok_admit:
  assumes "game_ok i g" and "u |\<notin>| gs_kicked g" and "game_can_join g u pw"
  shows "game_ok i (admit u persona address g)"
proof -
  have "int (card (insert u (fset (gs_participants g)) - {gs_owner g})) \<le> gs_capacity g"
  proof (cases "u \<in> fset (gs_participants g) \<or> u = gs_owner g")
    case True
    then have "insert u (fset (gs_participants g)) - {gs_owner g} = fset (gs_participants g) - {gs_owner g}" by auto
    then show ?thesis using assms(1) by (simp add: game_ok_def)
  next
    case False
    then have "int (card (fset (gs_participants g))) < gs_capacity g"
      using assms(3) by (auto simp: game_can_join_def fcard.rep_eq split: if_splits)
    moreover have "card (insert u (fset (gs_participants g)) - {gs_owner g}) \<le> card (insert u (fset (gs_participants g)))"
      by (rule card_mono) auto
    ultimately show ?thesis using False by simp
  qed
  then show ?thesis using assms(1,2)
    by (auto simp: game_ok_def admit_def dest!: in_update)
qed

lemma game_ok_dismiss: "game_ok i g \<Longrightarrow> game_ok i (dismiss u kicked g)"
proof -
  assume g: "game_ok i g"
  have "card (fset (gs_participants g) - {u} - {gs_owner g}) \<le> card (fset (gs_participants g) - {gs_owner g})"
    by (rule card_mono) auto
  with g show ?thesis by (auto simp: game_ok_def dismiss_def AList.delete_eq)
qed

lemma game_ok_anchored: "game_ok i g \<Longrightarrow> game_ok i (anchored g)"
  using slots_members[of g] by (auto simp: game_ok_def anchored_def slots_def ordered_participants_def Let_def)

lemma room_ok_put: "classic_ok d \<Longrightarrow> map_of (sd_rooms d) i = Some r \<Longrightarrow> room_ok i r' \<Longrightarrow>
    classic_ok (d\<lparr>sd_rooms := AList.update i r' (sd_rooms d)\<rparr>)"
  by (auto simp: classic_ok_def dest!: in_update map_of_SomeD)

lemma room_ok_join:
  assumes "room_ok i r" and "room_can_join r u pw"
  shows "room_ok i (r\<lparr>rm_members := finsert u (rm_members r)\<rparr>)"
proof (cases "u \<in> fset (rm_members r) \<or> u = rm_owner r")
  case True
  then have "insert u (fset (rm_members r)) - {rm_owner r} = fset (rm_members r) - {rm_owner r}" by auto
  then show ?thesis using assms(1) by (simp add: room_ok_def)
next
  case False
  then have "int (card (fset (rm_members r))) < rm_capacity r"
    using assms(2) by (auto simp: room_can_join_def fcard.rep_eq split: if_splits)
  moreover have "card (insert u (fset (rm_members r)) - {rm_owner r}) \<le> card (insert u (fset (rm_members r)))"
    by (rule card_mono) auto
  ultimately show ?thesis using False assms(1) by (simp add: room_ok_def)
qed

lemma created_game: "create_game room owner opts now d = Inr (g, d') \<Longrightarrow> game_ok (sd_next_game d) g \<and>
    d' = d\<lparr>sd_games := AList.update (sd_next_game d) g (sd_games d), sd_next_game := sd_next_game d + 1\<rparr>"
  by (auto simp: create_game_def Let_def game_ok_def split: if_splits)

lemma classic_ok_new: "classic_ok d \<Longrightarrow> game_ok (sd_next_game d) g \<Longrightarrow>
    classic_ok (d\<lparr>sd_games := AList.update (sd_next_game d) g (sd_games d), sd_next_game := sd_next_game d + 1\<rparr>)"
  by (auto simp: classic_ok_def dest!: in_update)

lemma classic_ok_call: "classic_ok d \<Longrightarrow> classic_ok (run_directory_call c d)"
proof (cases c)
  case (Create_Room owner name cap mn vis pw)
  then show "classic_ok d \<Longrightarrow> ?thesis"
    by (auto simp: create_room_def Let_def classic_ok_def room_ok_def dest!: in_update)
next
  case (Join_Room i u pw)
  assume d: "classic_ok d"
  show ?thesis
  proof (cases "map_of (sd_rooms d) i")
    case (Some r)
    then have "room_ok i r" using d by (auto simp: classic_ok_def dest!: map_of_SomeD)
    then show ?thesis using room_ok_put[OF d Some] room_ok_join d Some by (simp add: Join_Room join_room_def)
  qed (simp add: Join_Room join_room_def d)
next
  case (Leave_Room i u)
  assume d: "classic_ok d"
  show ?thesis
  proof (cases "map_of (sd_rooms d) i")
    case (Some r)
    then have r: "room_ok i r" using d by (auto simp: classic_ok_def dest!: map_of_SomeD)
    have "card (fset (rm_members r) - {u} - {rm_owner r}) \<le> card (fset (rm_members r) - {rm_owner r})" by (rule card_mono) auto
    moreover have "classic_ok (d\<lparr>sd_rooms := AList.delete k (sd_rooms d)\<rparr>)" for k
      using d by (auto simp: classic_ok_def AList.delete_eq)
    ultimately show ?thesis using room_ok_put[OF d Some, of "r\<lparr>rm_members := rm_members r |-| {|u|}\<rparr>"] r d Some
      by (auto simp: Leave_Room leave_room_def Let_def room_ok_def)
  qed (simp add: Leave_Room leave_room_def d)
next
  case (Create_Game room owner opts now)
  then show "classic_ok d \<Longrightarrow> ?thesis"
    using created_game[of room owner opts now d] classic_ok_new[of d] by (auto split: sum.split)
next
  case (Join_Game i u pw persona address)
  assume d: "classic_ok d"
  show ?thesis
    using d classic_ok_put[OF d] classic_ok_game[OF d] game_ok_admit
    by (auto simp: Join_Game join_game_def split: option.split)
next
  case (Invite i u)
  assume d: "classic_ok d"
  have "game_ok i g \<Longrightarrow> game_ok i (g\<lparr>gs_kicked := gs_kicked g |-| {|u|}, gs_invited := finsert u (gs_invited g)\<rparr>)" for g
    by (auto simp: game_ok_def)
  then show ?thesis using d classic_ok_put[OF d] classic_ok_game[OF d]
    by (auto simp: Invite invite_user_def split: option.split)
next
  case (Leave_Game i u kicked)
  assume d: "classic_ok d"
  show ?thesis using d classic_ok_put[OF d] classic_ok_drop[OF d] classic_ok_game[OF d] game_ok_dismiss
    by (auto simp: Leave_Game leave_game_def Let_def split: option.split)
next
  case (Ready i u ready)
  assume d: "classic_ok d"
  have "game_ok i g \<Longrightarrow> u |\<in>| gs_participants g \<Longrightarrow>
      game_ok i (g\<lparr>gs_ready := (if ready then finsert u (gs_ready g) else gs_ready g |-| {|u|})\<rparr>)" for g
    by (auto simp: game_ok_def)
  then show ?thesis using d classic_ok_put[OF d] classic_ok_game[OF d]
    by (auto simp: Ready set_ready_def split: option.split)
next
  case (Set_State i state now)
  assume d: "classic_ok d"
  have "game_ok i g \<Longrightarrow> game_ok i (g\<lparr>gs_state := state, gs_started_at := a, gs_finished_at := b\<rparr>)" for g a b
    by (auto simp: game_ok_def)
  then show ?thesis using d classic_ok_put[OF d] classic_ok_game[OF d]
    by (auto simp: Set_State set_state_def split: option.split)
next
  case (Report i u result now)
  assume d: "classic_ok d"
  have "fst ` set (AList.update k v ys) = insert k (fst ` set ys)" for k :: int and v :: race_report and ys
    by (induction ys) auto
  then have "game_ok i g \<Longrightarrow> game_ok i (g\<lparr>gs_reported := finsert u (gs_reported g), gs_results := AList.update u result (gs_results g)\<rparr>)"
     "game_ok i g \<Longrightarrow> game_ok i (g\<lparr>gs_state := SS_FINISHED, gs_finished_at := now\<rparr>)" for g
    by (simp_all add: game_ok_def)
  then show ?thesis using d classic_ok_put[OF d] classic_ok_game[OF d]
    by (auto simp: Report record_result_def Let_def split: option.split)
next
  case (Ask_Slots i)
  assume d: "classic_ok d"
  show ?thesis using d classic_ok_put[OF d] classic_ok_game[OF d] game_ok_anchored
    by (auto simp: Ask_Slots split: option.split)
qed (simp_all add: close_game_def classic_ok_drop)

lemma classic_ok_run: "classic_ok d \<Longrightarrow> classic_ok (run_directory cs d)"
  unfolding run_directory_def by (induction cs arbitrary: d) (auto simp: classic_ok_call)

text \<open>
  C32. The classic directory stays consistent: after any calls the slots of every game list its
  players once each, nobody else has a persona, an address or a ready mark, no player is
  banned, reports and reporters agree, and players other than the owner fit the capacity.
\<close>

theorem classic_directory_invariant:
  "classic_ok (run_directory cs new_directory)"
  by (rule classic_ok_run) (simp add: classic_ok_def new_directory_def)


section \<open>Kicks\<close>

definition banned :: "int \<Rightarrow> int \<Rightarrow> session_directory \<Rightarrow> bool" where
  "banned i u d = (i < sd_next_game d \<and> (\<forall>g. map_of (sd_games d) i = Some g \<longrightarrow> u |\<in>| gs_kicked g))"

lemma banned_put:
  "banned i u d \<Longrightarrow> (i' = i \<Longrightarrow> u |\<in>| gs_kicked g') \<Longrightarrow> banned i u (d\<lparr>sd_games := AList.update i' g' (sd_games d)\<rparr>)"
  by (simp add: banned_def AList.update_conv')

lemma banned_drop: "banned i u d \<Longrightarrow> banned i u (d\<lparr>sd_games := AList.delete i' (sd_games d)\<rparr>)"
  by (auto simp: banned_def AList.delete_conv' split: if_splits)

lemma banned_rooms: "banned i u d \<Longrightarrow> banned i u (d\<lparr>sd_rooms := x, sd_next_room := n\<rparr>)" "banned i u d \<Longrightarrow> banned i u (d\<lparr>sd_rooms := x\<rparr>)"
  by (simp_all add: banned_def)

lemma banned_new: "banned i u d \<Longrightarrow> banned i u (d\<lparr>sd_games := AList.update (sd_next_game d) g (sd_games d), sd_next_game := sd_next_game d + 1\<rparr>)"
  by (simp add: banned_def AList.update_conv')

lemma kept_kicked: "gs_kicked (anchored g) = gs_kicked g" "gs_kicked (admit v p a g) = gs_kicked g"
    "u |\<in>| gs_kicked g \<Longrightarrow> u |\<in>| gs_kicked (dismiss v k g)"
  by (simp_all add: anchored_def ordered_participants_def Let_def admit_def dismiss_def)

lemma banned_kicked: "banned i u d \<Longrightarrow> map_of (sd_games d) i' = Some g \<Longrightarrow> i' = i \<Longrightarrow> u |\<in>| gs_kicked g"
  by (simp add: banned_def)

lemma banned_change:
  "banned i u d \<Longrightarrow> map_of (sd_games d) i' = Some g \<Longrightarrow> (i' = i \<Longrightarrow> u |\<in>| gs_kicked g \<Longrightarrow> u |\<in>| gs_kicked g') \<Longrightarrow>
    banned i u (d\<lparr>sd_games := AList.update i' g' (sd_games d)\<rparr>)"
  by (rule banned_put) (auto simp: banned_def)

lemma banned_call: "banned i u d \<Longrightarrow> c \<noteq> Invite i u \<Longrightarrow> banned i u (run_directory_call c d)"
proof (cases c)
  case (Create_Game room owner opts now)
  then show "banned i u d \<Longrightarrow> ?thesis"
    using created_game[of room owner opts now d] banned_new[of i u d] by (auto split: sum.split)
next
  case (Create_Room owner name cap mn vis pw)
  then show "banned i u d \<Longrightarrow> ?thesis" by (simp add: create_room_def Let_def banned_rooms)
next
  case (Leave_Game i' v k)
  assume b: "banned i u d"
  show ?thesis
  proof (cases "map_of (sd_games d) i'")
    case (Some g)
    have "banned i u (d\<lparr>sd_games := AList.update i' (dismiss v k g) (sd_games d)\<rparr>)"
      by (rule banned_put[OF b]) (rule kept_kicked(3)[OF banned_kicked[OF b Some]])
    then show ?thesis using banned_drop[OF b] b Some by (simp add: Leave_Game leave_game_def Let_def)
  qed (simp add: Leave_Game leave_game_def b)
next
  case (Report i' v result now)
  assume b: "banned i u d"
  show ?thesis
    by (auto simp: Report record_result_def Let_def b split: option.split intro!: banned_change[OF b])
next
  case (Join_Game i' v pw persona address)
  assume b: "banned i u d"
  show ?thesis
    by (auto simp: Join_Game join_game_def b kept_kicked split: option.split intro!: banned_change[OF b])
next
  case (Invite i' v)
  assume b: "banned i u d" and "c \<noteq> Invite i u"
  then show ?thesis
    by (auto simp: Invite invite_user_def b split: option.split intro!: banned_change[OF b])
next
  case (Ready i' v ready)
  assume b: "banned i u d"
  show ?thesis
    by (auto simp: Ready set_ready_def b split: option.split intro!: banned_change[OF b])
next
  case (Set_State i' state now)
  assume b: "banned i u d"
  show ?thesis
    by (auto simp: Set_State set_state_def b split: option.split intro!: banned_change[OF b])
next
  case (Ask_Slots i')
  assume b: "banned i u d"
  show ?thesis
    by (auto simp: Ask_Slots b kept_kicked split: option.split intro!: banned_change[OF b])
qed (auto simp: join_room_def leave_room_def close_game_def Let_def banned_rooms banned_drop split: option.split)

lemma banned_run: "banned i u d \<Longrightarrow> Invite i u \<notin> set cs \<Longrightarrow> banned i u (run_directory cs d)"
  unfolding run_directory_def by (induction cs arbitrary: d) (auto simp: banned_call)

text \<open>
  C33. A kicked user stays out: after a successful kick from a game and any further calls without
  an invitation of that user to that game, he is refused whatever password he gives, even if
  he is the owner.
\<close>

theorem kicked_user_stays_out:
  assumes "leave_game i u True (run_directory cs new_directory) = (True, d)" and "Invite i u \<notin> set later"
  shows "join_game i u pw persona address (run_directory later d) = (False, run_directory later d)"
proof -
  define d0 where "d0 = run_directory cs new_directory"
  have ok: "classic_ok d0" unfolding d0_def by (rule classic_ok_run) (simp add: classic_ok_def new_directory_def)
  obtain g where g: "map_of (sd_games d0) i = Some g" "u |\<in>| gs_participants g"
    using assms(1) unfolding d0_def[symmetric] by (auto simp: leave_game_def split: option.splits if_splits)
  have "i < sd_next_game d0" "gs_id (dismiss u True g) = i"
    using classic_ok_game[OF ok g(1)] by (auto simp: game_ok_def dismiss_def)
  have "d = (if gs_participants (dismiss u True g) = {||} then d0\<lparr>sd_games := AList.delete i (sd_games d0)\<rparr>
      else d0\<lparr>sd_games := AList.update i (dismiss u True g) (sd_games d0)\<rparr>)"
    using assms(1) g unfolding d0_def[symmetric] by (simp add: leave_game_def Let_def \<open>gs_id (dismiss u True g) = i\<close> split: if_splits)
  moreover have "u |\<in>| gs_kicked (dismiss u True g)" by (simp add: dismiss_def)
  ultimately have "banned i u d" using \<open>i < sd_next_game d0\<close>
    by (simp add: banned_def AList.update_conv' AList.delete_conv' split: if_splits)
  then have "banned i u (run_directory later d)" using assms(2) by (rule banned_run)
  then show ?thesis by (auto simp: join_game_def banned_def split: option.split)
qed

section \<open>Reports\<close>

fun report_all :: "int \<Rightarrow> (int \<times> race_report) list \<Rightarrow> rat \<Rightarrow> session_directory \<Rightarrow> (bool \<times> bool) list \<times> session_directory" where
  "report_all i [] now d = ([], d)"
| "report_all i ((u, r) # rs) now d =
     (let (a, d) = record_result i u r now d; (as, d) = report_all i rs now d in (a # as, d))"

lemma report_step:
  assumes "map_of (sd_games d) i = Some g" and "u |\<in>| gs_participants g" and "u |\<notin>| gs_reported g"
  shows "\<exists>g'. record_result i u r now d =
     ((True, fset (gs_participants g) \<subseteq> insert u (fset (gs_reported g))), d\<lparr>sd_games := AList.update i g' (sd_games d)\<rparr>) \<and>
     gs_participants g' = gs_participants g \<and> gs_reported g' = finsert u (gs_reported g) \<and>
     (fset (gs_participants g) \<subseteq> insert u (fset (gs_reported g)) \<longrightarrow> gs_state g' = SS_FINISHED \<and> gs_finished_at g' = now)"
  using assms by (auto simp: record_result_def Let_def less_eq_fset.rep_eq)

text \<open>
  The last report finishes a race: when the players of a game who have not reported send
  their reports, in any order, each is accepted, only the last is answered as completing the
  race, and the game is then finished at that moment with everybody reported.
\<close>

theorem last_report_finishes:
  assumes "map_of (sd_games d) i = Some g" and "distinct (map fst rs)" and "rs \<noteq> []"
    and "set (map fst rs) = fset (gs_participants g) - fset (gs_reported g)"
    and "report_all i rs now d = (answers, d')"
  shows "answers = replicate (length rs - 1) (True, False) @ [(True, True)] \<and>
    (\<exists>g'. get_game i d' = Some g' \<and> gs_state g' = SS_FINISHED \<and> gs_finished_at g' = now \<and>
       fset (gs_participants g) \<subseteq> fset (gs_reported g'))"
  using assms
proof (induction rs arbitrary: d g answers d')
  case (Cons x rs)
  obtain u r where x: "x = (u, r)" by (cases x)
  have u: "u |\<in>| gs_participants g" "u |\<notin>| gs_reported g" using Cons.prems(4) by (auto simp: x)
  from report_step[OF Cons.prems(1) u, of r now]
  obtain g1 where one: "record_result i u r now d = ((True, fset (gs_participants g) \<subseteq> insert u (fset (gs_reported g))), d\<lparr>sd_games := AList.update i g1 (sd_games d)\<rparr>)"
    and g1: "gs_participants g1 = gs_participants g" "gs_reported g1 = finsert u (gs_reported g)"
      "fset (gs_participants g) \<subseteq> insert u (fset (gs_reported g)) \<longrightarrow> gs_state g1 = SS_FINISHED \<and> gs_finished_at g1 = now" by blast
  define d1 where "d1 = d\<lparr>sd_games := AList.update i g1 (sd_games d)\<rparr>"
  have look: "map_of (sd_games d1) i = Some g1" by (simp add: d1_def AList.update_conv')
  obtain as d2 where two: "report_all i rs now d1 = (as, d2)" by fastforce
  have res: "answers = (True, fset (gs_participants g) \<subseteq> insert u (fset (gs_reported g))) # as" "d' = d2"
    using Cons.prems(5) one two by (auto simp: x d1_def)
  have left: "set (map fst rs) = fset (gs_participants g1) - fset (gs_reported g1)"
    using Cons.prems(2,4) by (auto simp: x g1)
  show ?case
  proof (cases "rs = []")
    case True
    then have "fset (gs_participants g) \<subseteq> insert u (fset (gs_reported g))" using left by (auto simp: g1)
    then show ?thesis using res two True g1 look by (simp add: get_game_def)
  next
    case False
    then have "\<not> fset (gs_participants g) \<subseteq> insert u (fset (gs_reported g))" using left by (cases rs) (auto simp: g1)
    moreover have "as = replicate (length rs - 1) (True, False) @ [(True, True)] \<and>
      (\<exists>g'. get_game i d2 = Some g' \<and> gs_state g' = SS_FINISHED \<and> gs_finished_at g' = now \<and> fset (gs_participants g1) \<subseteq> fset (gs_reported g'))"
      using Cons.IH[OF look _ False left two] Cons.prems(2) by (simp add: x)
    moreover have "length rs = Suc (length rs - 1)" using False by (cases rs) simp_all
    ultimately show ?thesis using res by (auto simp: g1 simp flip: replicate_Suc)
  qed
qed simp

section \<open>Examples\<close>

definition race_options :: game_options where
  "race_options = \<lparr>go_capacity = 4, go_min_players = 2, go_visibility = PUBLIC, go_password = [], go_include_owner = True,
     go_name = ''race'', go_params = [], go_custflags = ''0'', go_sysflags = ''0'', go_host_persona = ''Ann'', go_host_address = []\<rparr>"

definition two_player_calls :: "directory_call list" where
  "two_player_calls = [Create_Game 0 7 race_options 5, Join_Game 1 9 [] ''Bob'' []]"

definition two_player_game :: game_session where
  "two_player_game = the (get_game 1 (run_directory two_player_calls new_directory))"

lemma two_players: "map_of (sd_games (run_directory two_player_calls new_directory)) 1 = Some two_player_game"
    "gs_participants two_player_game = {|7, 9|}" "gs_reported two_player_game = {||}" "gs_owner two_player_game = 7"
    "gs_order two_player_game = [7, 9]"
  by (auto simp: two_player_game_def get_game_def two_player_calls_def run_directory_def new_directory_def create_game_def race_options_def
      join_game_def game_can_join_def admit_def Let_def fcard.rep_eq)

theorem slots_stable_witness:
  "slots (admit 3 [] [] (anchored two_player_game)) = [7, 9, 3]"
proof -
  have "slots two_player_game = [7, 9]" using slots_of_order[of two_player_game] by (simp add: two_players)
  then show ?thesis using slots_stable[of two_player_game 3] by (simp add: two_players)
qed

theorem kicked_user_stays_out_witness:
  "fst (join_game 1 9 [] [] [] (run_directory [Ready 1 7 True] (snd (leave_game 1 9 True (run_directory two_player_calls new_directory))))) = False"
proof -
  have "leave_game 1 9 True (run_directory two_player_calls new_directory) =
     (True, snd (leave_game 1 9 True (run_directory two_player_calls new_directory)))"
    using two_players by (simp add: leave_game_def Let_def)
  from kicked_user_stays_out[OF this, of "[Ready 1 7 True]"] show ?thesis by simp
qed

theorem last_report_finishes_witness:
  "fst (report_all 1 [(9, []), (7, [])] 60 (run_directory two_player_calls new_directory)) = [(True, False), (True, True)]"
proof -
  obtain answers d' where r: "report_all 1 [(9, []), (7, [])] 60 (run_directory two_player_calls new_directory) = (answers, d')" by fastforce
  have "set (map fst [(9, [] :: race_report), (7, [])]) = fset (gs_participants two_player_game) - fset (gs_reported two_player_game)"
    by (auto simp: two_players)
  from last_report_finishes[OF two_players(1) _ _ this r] have "answers = [(True, False), (True, True)]" by simp
  with r show ?thesis by (simp only: fst_conv)
qed

text \<open>
  A player who leaves without a report does not finish the race: afterwards everybody left has
  reported, further reports are not accepted, and the game stays active.
\<close>

lemma leaver_blocks_finish:
  "(let d = run_directory (two_player_calls @ [Set_State 1 SS_ACTIVE 6, Report 1 7 [] 60, Leave_Game 1 9 False]) new_directory
    in fst (record_result 1 7 [] 61 d) = (False, True) \<and>
       map_option gs_state (get_game 1 (snd (record_result 1 7 [] 61 d))) = Some SS_ACTIVE)"
  by (simp add: two_player_calls_def run_directory_def new_directory_def create_game_def race_options_def get_game_def
      join_game_def game_can_join_def admit_def Let_def fcard.rep_eq set_state_def record_result_def leave_game_def dismiss_def)


end
