(* ===== verification/PyObject.thy ===== *)
theory PyObject
  imports PyNumber
begin

text \<open>
  Values of unknown type as the code meets them in JSON documents, and Python's conversions
  \<open>int(value)\<close>, \<open>float(value)\<close> and \<open>iter(value)\<close> with their exceptions.
\<close>

datatype json =
    J_Null | J_Bool bool | J_Int int | J_Float pyfloat | J_Text string | J_List "json list" | J_Dict "(string \<times> json) list"

datatype conversion_error = Value_Error | Type_Error | Overflow_Error

definition int_of_json :: "json \<Rightarrow> conversion_error + int" where
  "int_of_json v = (case v of
      J_Bool b \<Rightarrow> Inr (if b then 1 else 0)
    | J_Int i \<Rightarrow> Inr i
    | J_Float (Fin q) \<Rightarrow> Inr (if 0 \<le> q then \<lfloor>q\<rfloor> else - \<lfloor>- q\<rfloor>)
    | J_Float NaN \<Rightarrow> Inl Value_Error
    | J_Float _ \<Rightarrow> Inl Overflow_Error
    | J_Text s \<Rightarrow> (case py_int s of None \<Rightarrow> Inl Value_Error | Some i \<Rightarrow> Inr i)
    | _ \<Rightarrow> Inl Type_Error)"

text \<open>An integer beyond the range of binary64 cannot become a float.\<close>

definition float_of_json :: "json \<Rightarrow> conversion_error + pyfloat" where
  "float_of_json v = (case v of
      J_Bool b \<Rightarrow> Inr (Fin (if b then 1 else 0))
    | J_Int i \<Rightarrow> (if \<bar>of_int i :: rat\<bar> < double_limit then Inr (Fin (of_int i)) else Inl Overflow_Error)
    | J_Float x \<Rightarrow> Inr x
    | J_Text s \<Rightarrow> (case py_float s of None \<Rightarrow> Inl Value_Error | Some x \<Rightarrow> Inr x)
    | _ \<Rightarrow> Inl Type_Error)"

definition iterate :: "json \<Rightarrow> conversion_error + json list" where
  "iterate v = (case v of
      J_List xs \<Rightarrow> Inr xs
    | J_Text s \<Rightarrow> Inr (map (\<lambda>c. J_Text [c]) s)
    | J_Dict d \<Rightarrow> Inr (map (\<lambda>(k, _). J_Text k) d)
    | _ \<Rightarrow> Inl Type_Error)"

definition truthy :: "json \<Rightarrow> bool" where
  "truthy v = (v \<notin> {J_Null, J_Bool False, J_Int 0, J_Float (Fin 0), J_Text [], J_List [], J_Dict []})"

fun convert_all :: "('a \<Rightarrow> 'e + 'b) \<Rightarrow> 'a list \<Rightarrow> 'e + 'b list" where
  "convert_all f [] = Inr []"
| "convert_all f (x # xs) = rbind (f x) (\<lambda>y. rbind (convert_all f xs) (\<lambda>ys. Inr (y # ys)))"

lemma convert_all_total: "(\<And>x. x \<in> set xs \<Longrightarrow> f x = Inr (g x)) \<Longrightarrow> convert_all f xs = Inr (map g xs)"
  by (induction xs) auto

lemma convert_all_Inr: "convert_all f xs = Inr ys \<Longrightarrow> length ys = length xs \<and> (\<forall>y \<in> set ys. \<exists>x \<in> set xs. f x = Inr y)"
proof (induction xs arbitrary: ys)
  case (Cons x xs)
  then show ?case by (fastforce simp: rbind_eq_Inr)
qed simp

end
