(* ===== verification/ClassicStats.thy ===== *)
theory ClassicStats
  imports PyObject
begin

text \<open>
  The statistics of one player of the classic server (\<open>ClassicPlayerStats\<close> of
  \<open>classic/ea/ranking.py\<close>): seven counters in each of six categories, the nitrous use per
  category, and the hexadecimal rows the clients read.  Categories are integers, as every
  caller passes them.
\<close>

section \<open>Data\<close>

definition MW_STAT_CATEGORY_COUNT :: nat where "MW_STAT_CATEGORY_COUNT = 5"
definition U2_STAT_CATEGORY_COUNT :: nat where "U2_STAT_CATEGORY_COUNT = 6"
definition STAT_CATEGORY_COUNT :: nat where "STAT_CATEGORY_COUNT = U2_STAT_CATEGORY_COUNT"

definition STAT_FIELDS :: "string list" where
  "STAT_FIELDS = [''rating'', ''wins'', ''losses'', ''disconnects'', ''rep'', ''opponents_rep'', ''opponents_rating'']"

definition STAT_CATEGORY_SIZE :: nat where "STAT_CATEGORY_SIZE = length STAT_FIELDS"
definition STAT_VALUE_COUNT :: nat where "STAT_VALUE_COUNT = STAT_CATEGORY_COUNT * STAT_CATEGORY_SIZE"

definition DEFAULT_CATEGORY :: "int list" where
  "DEFAULT_CATEGORY = [9999, 0, 0, 0, 100, 101, 101]"

definition DEFAULT_VALUES :: "int list" where
  "DEFAULT_VALUES = concat (replicate STAT_CATEGORY_COUNT DEFAULT_CATEGORY)"

record player_stats =
  ps_persona :: string
  ps_values :: "int list"
  ps_nos :: "rat list"

section \<open>Cleaning\<close>

text \<open>A float beyond the range of integers raises an exception that the code does not catch.\<close>

definition safe_nonnegative :: "json \<Rightarrow> conversion_error + int" where
  "safe_nonnegative v = (case int_of_json v of
      Inr i \<Rightarrow> Inr (max 0 i)
    | Inl Overflow_Error \<Rightarrow> Inl Overflow_Error
    | Inl _ \<Rightarrow> Inr 0)"

definition finite_nonnegative :: "pyfloat \<Rightarrow> rat" where
  "finite_nonnegative x = (case x of Fin q \<Rightarrow> max 0 q | _ \<Rightarrow> 0)"

definition safe_nonnegative_float :: "json \<Rightarrow> conversion_error + rat" where
  "safe_nonnegative_float v = (case float_of_json v of
      Inr x \<Rightarrow> Inr (finite_nonnegative x)
    | Inl Overflow_Error \<Rightarrow> Inl Overflow_Error
    | Inl _ \<Rightarrow> Inr 0)"

definition normalize_persona :: "string \<Rightarrow> string" where
  "normalize_persona s = casefold (strip s)"

definition display_name :: "string \<Rightarrow> string" where
  "display_name s = (let d = strip s in if d = [] then ''Player'' else d)"

definition overlay :: "'a list \<Rightarrow> 'a list \<Rightarrow> 'a list" where
  "overlay base new = take (length base) new @ drop (length new) base"

definition create_stats :: "string \<Rightarrow> int list \<Rightarrow> rat list \<Rightarrow> player_stats" where
  "create_stats persona vs nos = \<lparr>ps_persona = display_name persona,
     ps_values = overlay DEFAULT_VALUES (map (max 0) vs),
     ps_nos = overlay (replicate STAT_CATEGORY_COUNT 0) (map (max 0) nos)\<rparr>"

text \<open>\<open>create\<close> with values read from a document; only as many are looked at as there is room for.\<close>

definition read_cells :: "(json \<Rightarrow> conversion_error + 'a) \<Rightarrow> nat \<Rightarrow> json \<Rightarrow> conversion_error + 'a list" where
  "read_cells f room v = (if v = J_Null then Inr [] else rbind (iterate v) (\<lambda>xs. convert_all f (take room xs)))"

definition create_from :: "string \<Rightarrow> json \<Rightarrow> json \<Rightarrow> conversion_error + player_stats" where
  "create_from persona vs nos =
     rbind (read_cells safe_nonnegative STAT_VALUE_COUNT vs) (\<lambda>vs.
     rbind (read_cells safe_nonnegative_float STAT_CATEGORY_COUNT nos) (\<lambda>nos.
     Inr (create_stats persona vs nos)))"

definition new_stats :: "string \<Rightarrow> player_stats" where
  "new_stats persona = create_stats persona [] []"

section \<open>Cells\<close>

definition category_index :: "int \<Rightarrow> nat" where
  "category_index c = nat (max 0 (min (int STAT_CATEGORY_COUNT - 1) c))"

definition cell_offset :: "int \<Rightarrow> nat" where
  "cell_offset c = category_index c * STAT_CATEGORY_SIZE"

definition category_values :: "int \<Rightarrow> player_stats \<Rightarrow> int list" where
  "category_values c s = slice (cell_offset c) (cell_offset c + STAT_CATEGORY_SIZE) (ps_values s)"

definition field_index :: "string \<Rightarrow> nat option" where
  "field_index f = (if f \<in> set STAT_FIELDS then Some (length (takeWhile (\<lambda>g. g \<noteq> f) STAT_FIELDS)) else None)"

definition get_stat :: "int \<Rightarrow> string \<Rightarrow> player_stats \<Rightarrow> int" where
  "get_stat c f s = (case field_index f of None \<Rightarrow> 0 | Some i \<Rightarrow> ps_values s ! (cell_offset c + i))"

definition set_stat :: "int \<Rightarrow> string \<Rightarrow> int \<Rightarrow> player_stats \<Rightarrow> player_stats" where
  "set_stat c f v s = (case field_index f of None \<Rightarrow> s
     | Some i \<Rightarrow> s\<lparr>ps_values := (ps_values s)[cell_offset c + i := max 0 v]\<rparr>)"

section \<open>Results\<close>

text \<open>The categories a result counts in; the code's set has no duplicates and its order does not matter.\<close>

definition result_targets :: "nat \<Rightarrow> bool \<Rightarrow> int list" where
  "result_targets category aggregate = (if aggregate \<and> category \<noteq> 0 then [int category, 0] else [int category])"

definition bump_one :: "string \<Rightarrow> int \<Rightarrow> player_stats \<Rightarrow> player_stats" where
  "bump_one outcome c s =
    (if outcome = ''WIN'' then
       let s = set_stat c ''wins'' (get_stat c ''wins'' s + 1) s in set_stat c ''rep'' (get_stat c ''rep'' s + 100) s
     else if outcome \<in> {''DISC'', ''DISCONNECT'', ''DNF''} then
       let s = set_stat c ''disconnects'' (get_stat c ''disconnects'' s + 1) s in set_stat c ''rep'' (max 0 (get_stat c ''rep'' s - 25)) s
     else
       let s = set_stat c ''losses'' (get_stat c ''losses'' s + 1) s in set_stat c ''rep'' (max 0 (get_stat c ''rep'' s - 5)) s)"

definition bump_result :: "int \<Rightarrow> string \<Rightarrow> bool \<Rightarrow> player_stats \<Rightarrow> player_stats" where
  "bump_result c outcome aggregate s =
     fold (bump_one (upper (strip outcome))) (result_targets (category_index c) aggregate) s"

definition add_mw_nos_used :: "int \<Rightarrow> pyfloat \<Rightarrow> bool \<Rightarrow> player_stats \<Rightarrow> player_stats" where
  "add_mw_nos_used c value aggregate s =
     fold (\<lambda>t s. s\<lparr>ps_nos := (ps_nos s)[nat t := ps_nos s ! nat t + finite_nonnegative value]\<rparr>)
       (result_targets (category_index c) aggregate) s"

definition get_mw_nos_used :: "int \<Rightarrow> player_stats \<Rightarrow> rat" where
  "get_mw_nos_used c s = ps_nos s ! category_index c"

section \<open>Rows on the wire\<close>

definition hex_digit :: "nat \<Rightarrow> char" where
  "hex_digit d = (if d < 10 then char_of (48 + d) else char_of (87 + d))"

fun show_hex :: "nat \<Rightarrow> string" where
  "show_hex n = (if n < 16 then [hex_digit n] else show_hex (n div 16) @ [hex_digit (n mod 16)])"

declare show_hex.simps [simp del]

definition hex_csv :: "int list \<Rightarrow> string" where
  "hex_csv vs = join_with CHR '','' (map (\<lambda>v. show_hex (nat (max 0 v))) vs)"

definition full_hex_csv :: "player_stats \<Rightarrow> string" where
  "full_hex_csv s = hex_csv (ps_values s)"

definition u2_personal_snap_hex_csv :: "int \<Rightarrow> player_stats \<Rightarrow> string" where
  "u2_personal_snap_hex_csv c s = hex_csv [get_stat c ''rep'' s, get_stat c ''wins'' s, get_stat c ''losses'' s]"

definition u2_snap_points_hex :: "int \<Rightarrow> player_stats \<Rightarrow> string" where
  "u2_snap_points_hex c s = show_hex (nat (max 0 (get_stat c ''rep'' s)))"

definition mw_snap_hex_csv :: "int \<Rightarrow> int \<Rightarrow> player_stats \<Rightarrow> string" where
  "mw_snap_hex_csv c visible_rank s = (let vs = category_values c s
     in hex_csv [max 1 visible_rank, vs ! 1, vs ! 2, vs ! 3, vs ! 4, vs ! 5, vs ! 6])"

text \<open>The row holds five categories, so the sixth (\<open>None\<close> here) raises \<open>IndexError\<close>.\<close>

definition mw_personal_hex_csv :: "int \<Rightarrow> player_stats \<Rightarrow> string option" where
  "mw_personal_hex_csv c s =
    (let wire = take (MW_STAT_CATEGORY_COUNT * STAT_CATEGORY_SIZE) (ps_values s);
         first = category_index c * STAT_CATEGORY_SIZE
     in if length wire \<le> first then None else Some (hex_csv (wire[first := get_stat c ''rep'' s])))"

definition u2_profile_wire :: "player_stats \<Rightarrow> int list" where
  "u2_profile_wire s =
    (let wire = (replicate 38 0)[1 := sum_list (map (\<lambda>c. get_stat (int c) ''disconnects'' s) [0..<U2_STAT_CATEGORY_COUNT])]
     in fold (\<lambda>c w. w[8 + c * 5 := get_stat (int c) ''rep'' s, 9 + c * 5 := get_stat (int c) ''wins'' s,
                     10 + c * 5 := get_stat (int c) ''losses'' s]) [0..<U2_STAT_CATEGORY_COUNT] wire)"

definition u2_profile_hex_csv :: "player_stats \<Rightarrow> string" where
  "u2_profile_hex_csv s = hex_csv (u2_profile_wire s) @ '',''"

definition mw_profile_wire :: "player_stats \<Rightarrow> int list" where
  "mw_profile_wire s =
    fold (\<lambda>mode w. let c = int mode + 1; base = 9 + mode * 12 in
        w[base - 1 := get_stat c ''rep'' s, base := get_stat c ''wins'' s, base + 1 := get_stat c ''losses'' s,
          base + 6 := \<lfloor>get_mw_nos_used c s + 1/2\<rfloor>, base + 10 := get_stat c ''disconnects'' s])
      [0..<3] ((replicate 44 0)[1 := get_stat 0 ''disconnects'' s])"

definition mw_profile_hex_csv :: "player_stats \<Rightarrow> string" where
  "mw_profile_hex_csv s = hex_csv (mw_profile_wire s) @ '',''"

definition stats_to_dict :: "player_stats \<Rightarrow> json" where
  "stats_to_dict s = J_Dict [(''persona'', J_Text (ps_persona s)), (''values'', J_List (map J_Int (ps_values s))),
     (''mw_nos_used'', J_List (map (\<lambda>q. J_Float (Fin q)) (ps_nos s)))]"

end
