(* ===== verification/ClassicRanking.thy ===== *)
theory ClassicRanking
  imports ClassicStats "HOL-Library.Product_Lexorder" "HOL-Library.List_Lexorder" "HOL-Library.Char_ord"
begin

text \<open>
  The ranking store of the classic server (\<open>ClassicRankingStore\<close> of \<open>classic/ea/ranking.py\<close>):
  per game the statistics of every persona, the leaderboards, and the document it is saved in.
  \<open>visible\<close> is the constructor's \<open>persona_visible\<close>.  The file system and the text form of JSON
  are left out: saving writes \<open>store_document\<close>, reloading reads \<open>decode_games\<close>.
\<close>

section \<open>Games\<close>

datatype game_id = MOST_WANTED | UNDERGROUND2

datatype game_ref = Game_Id game_id | Game_Name string

definition game_value :: "game_id \<Rightarrow> string" where
  "game_value g = (case g of MOST_WANTED \<Rightarrow> ''most_wanted'' | UNDERGROUND2 \<Rightarrow> ''underground2'')"

definition game_key :: "game_ref \<Rightarrow> string" where
  "game_key g = (case g of Game_Id i \<Rightarrow> game_value i | Game_Name s \<Rightarrow> strip s)"

definition game_category_count :: "string \<Rightarrow> nat" where
  "game_category_count key =
    (if key = game_value MOST_WANTED then MW_STAT_CATEGORY_COUNT else U2_STAT_CATEGORY_COUNT)"

definition game_category :: "string \<Rightarrow> int \<Rightarrow> nat" where
  "game_category key c = nat (max 0 (min (int (game_category_count key) - 1) c))"

type_synonym bucket = "(string \<times> player_stats) list"
type_synonym ranking = "(string \<times> bucket) list"

definition bucket_of :: "string \<Rightarrow> ranking \<Rightarrow> bucket" where
  "bucket_of key r = (case map_of r key of None \<Rightarrow> [] | Some b \<Rightarrow> b)"

definition put_bucket :: "string \<Rightarrow> bucket \<Rightarrow> ranking \<Rightarrow> ranking" where
  "put_bucket key b r = AList.update key b r"

section \<open>Leaderboards\<close>

definition board_key :: "nat \<Rightarrow> player_stats \<Rightarrow> int \<times> int \<times> int \<times> int \<times> string" where
  "board_key c s = (- get_stat (int c) ''rep'' s, - get_stat (int c) ''wins'' s, get_stat (int c) ''losses'' s,
     get_stat (int c) ''disconnects'' s, casefold (ps_persona s))"

definition ordered_rows :: "(string \<Rightarrow> bool) \<Rightarrow> nat \<Rightarrow> bucket \<Rightarrow> bucket" where
  "ordered_rows visible c b = sort_key (\<lambda>(_, s). board_key c s) [(k, s) \<leftarrow> b. visible (ps_persona s)]"

definition rank_category :: "(string \<Rightarrow> bool) \<Rightarrow> nat \<Rightarrow> bucket \<Rightarrow> bucket" where
  "rank_category visible c b =
    fold (\<lambda>(rank, k, s). AList.update k (set_stat (int c) ''rating'' (int rank) s)) (enumerate 1 (ordered_rows visible c b)) b"

definition rebuild_ratings :: "(string \<Rightarrow> bool) \<Rightarrow> nat \<Rightarrow> bucket \<Rightarrow> bucket" where
  "rebuild_ratings visible n b = fold (rank_category visible) [0..<n] b"

definition rebuild_bucket :: "(string \<Rightarrow> bool) \<Rightarrow> string \<Rightarrow> bucket \<Rightarrow> bucket" where
  "rebuild_bucket visible key b = rebuild_ratings visible (game_category_count key) b"

section \<open>Operations\<close>

text \<open>\<open>setdefault\<close> of a row.\<close>

definition ensure_row :: "string \<Rightarrow> string \<Rightarrow> bucket \<Rightarrow> bucket" where
  "ensure_row k persona b = (if map_of b k = None then b @ [(k, new_stats persona)] else b)"

definition row_of :: "string \<Rightarrow> bucket \<Rightarrow> player_stats" where
  "row_of k b = the (map_of b k)"

text \<open>The answers are copies made by \<open>create\<close>.\<close>

definition copy_stats :: "player_stats \<Rightarrow> player_stats" where
  "copy_stats s = create_stats (ps_persona s) (ps_values s) (ps_nos s)"

definition get_or_create :: "(string \<Rightarrow> bool) \<Rightarrow> game_ref \<Rightarrow> string \<Rightarrow> ranking \<Rightarrow> player_stats \<times> ranking" where
  "get_or_create visible game persona r =
    (let display = display_name persona; k = normalize_persona display; key = game_key game; b = bucket_of key r;
         b = (case map_of b k of
             None \<Rightarrow> rebuild_bucket visible key (b @ [(k, new_stats display)])
           | Some s \<Rightarrow> AList.update k (s\<lparr>ps_persona := display\<rparr>) b)
     in (copy_stats (row_of k b), put_bucket key b r))"

definition store_full_hex_csv :: "(string \<Rightarrow> bool) \<Rightarrow> game_ref \<Rightarrow> string \<Rightarrow> ranking \<Rightarrow> string \<times> ranking" where
  "store_full_hex_csv visible game persona r = (let (s, r) = get_or_create visible game persona r in (full_hex_csv s, r))"

definition profile_hex_csv :: "(string \<Rightarrow> bool) \<Rightarrow> game_ref \<Rightarrow> string \<Rightarrow> ranking \<Rightarrow> string \<times> ranking" where
  "profile_hex_csv visible game persona r = (let (s, r) = get_or_create visible game persona r
     in (if game_key game = game_value MOST_WANTED then mw_profile_hex_csv s else u2_profile_hex_csv s, r))"

definition personas :: "(string \<Rightarrow> bool) \<Rightarrow> game_ref \<Rightarrow> ranking \<Rightarrow> string list" where
  "personas visible game r =
    [p \<leftarrow> map (\<lambda>(_, s). ps_persona s) (sort_key (\<lambda>(_, s). casefold (ps_persona s)) (bucket_of (game_key game) r)). visible p]"

record rank_summary =
  rs_persona :: string
  rs_rank :: int
  rs_wins :: int
  rs_losses :: int
  rs_disconnects :: int
  rs_rep :: int
  rs_nos_used :: rat

record full_summary = rank_summary +
  rs_opponents_rep :: int
  rs_opponents_rating :: int

definition rank_summary_of :: "int \<Rightarrow> player_stats \<Rightarrow> rank_summary" where
  "rank_summary_of c s = (let vs = category_values c s in
     \<lparr>rs_persona = ps_persona s, rs_rank = vs ! 0, rs_wins = vs ! 1, rs_losses = vs ! 2, rs_disconnects = vs ! 3,
      rs_rep = vs ! 4, rs_nos_used = get_mw_nos_used c s\<rparr>)"

definition full_summary_of :: "int \<Rightarrow> player_stats \<Rightarrow> full_summary" where
  "full_summary_of c s = (let vs = category_values c s in
     \<lparr>rs_persona = ps_persona s, rs_rank = vs ! 0, rs_wins = vs ! 1, rs_losses = vs ! 2, rs_disconnects = vs ! 3,
      rs_rep = vs ! 4, rs_nos_used = get_mw_nos_used c s, rs_opponents_rep = vs ! 5, rs_opponents_rating = vs ! 6\<rparr>)"

definition summary :: "(string \<Rightarrow> bool) \<Rightarrow> game_ref \<Rightarrow> string \<Rightarrow> int \<Rightarrow> ranking \<Rightarrow> full_summary \<times> ranking" where
  "summary visible game persona c r = (let (s, r) = get_or_create visible game persona r in (full_summary_of c s, r))"

definition leaderboard ::
  "(string \<Rightarrow> bool) \<Rightarrow> game_ref \<Rightarrow> int \<Rightarrow> int \<Rightarrow> int \<Rightarrow> string \<Rightarrow> ranking \<Rightarrow> player_stats list \<times> ranking" where
  "leaderboard visible game c start limit include_persona r =
    (let key = game_key game; k = normalize_persona include_persona; b = bucket_of key r;
         b = (if k = [] then b else ensure_row k include_persona b);
         b = rebuild_bucket visible key b;
         first = nat (max 0 start); window = slice first (first + nat (max 0 limit)) (ordered_rows visible (game_category key c) b)
     in (map (\<lambda>(_, s). copy_stats s) window, put_bucket key b r))"

definition set_opponents :: "player_stats list \<Rightarrow> int \<Rightarrow> player_stats \<Rightarrow> player_stats" where
  "set_opponents rows c s =
    (let average = (\<lambda>f. sum_list (map (get_stat c f) rows) div int (length rows))
     in set_stat c ''opponents_rating'' (average ''rating'') (set_stat c ''opponents_rep'' (average ''rep'') s))"

definition ranking_result ::
  "(string \<Rightarrow> bool) \<Rightarrow> game_ref \<Rightarrow> string \<Rightarrow> int \<Rightarrow> string \<Rightarrow> string list \<Rightarrow> pyfloat \<Rightarrow> ranking \<Rightarrow> rank_summary \<times> ranking" where
  "ranking_result visible game persona c outcome opponent_personas nos_used r =
    (let key = game_key game; display = display_name persona; k = normalize_persona display;
         opponents = [p \<leftarrow> map strip opponent_personas. p \<noteq> [] \<and> normalize_persona p \<noteq> k];
         category = game_category key c; aggregate = (key = game_value MOST_WANTED);
         b = ensure_row k display (bucket_of key r); s = (row_of k b)\<lparr>ps_persona := display\<rparr>
     in if \<not> visible display then (rank_summary_of (int category) s, put_bucket key (AList.update k s b) r)
        else let s = bump_result (int category) outcome aggregate s;
                 s = add_mw_nos_used (int category) nos_used aggregate s;
                 b = fold (\<lambda>p. ensure_row (normalize_persona p) p) opponents b;
                 rows = map (\<lambda>p. row_of (normalize_persona p) b) opponents;
                 s = (if rows = [] then s else fold (set_opponents rows) (result_targets category aggregate) s);
                 b = rebuild_bucket visible key (AList.update k s b)
             in (rank_summary_of (int category) (row_of k b), put_bucket key b r))"

datatype update_error = Unsupported_Field string | Invalid_Value string | Overflow_Value | Negative_Value string | No_Fields

definition update_value :: "bool \<Rightarrow> string \<times> json \<Rightarrow> update_error + string \<times> int" where
  "update_value relative fv = (case fv of (raw, v) \<Rightarrow> let f = strip raw in
     if f \<notin> set STAT_FIELDS - {''rating''} then Inl (Unsupported_Field f)
     else (case int_of_json v of
         Inl Overflow_Error \<Rightarrow> Inl Overflow_Value
       | Inl _ \<Rightarrow> Inl (Invalid_Value f)
       | Inr i \<Rightarrow> if \<not> relative \<and> i < 0 then Inl (Negative_Value f) else Inr (f, i)))"

definition normalized_updates :: "bool \<Rightarrow> (string \<times> json) list \<Rightarrow> update_error + (string \<times> int) list" where
  "normalized_updates relative updates =
    rbind (convert_all (update_value relative) updates) (\<lambda>fvs.
      let d = fold (\<lambda>(f, i). AList.update f i) fvs [] in if d = [] then Inl No_Fields else Inr d)"

definition apply_update :: "bool \<Rightarrow> nat \<Rightarrow> string \<times> int \<Rightarrow> player_stats \<Rightarrow> player_stats" where
  "apply_update relative category fv s = (case fv of (f, i) \<Rightarrow>
     set_stat (int category) f (if relative then get_stat (int category) f s + i else i) s)"

definition update_fields ::
  "(string \<Rightarrow> bool) \<Rightarrow> game_ref \<Rightarrow> string \<Rightarrow> int \<Rightarrow> (string \<times> json) list \<Rightarrow> bool \<Rightarrow> ranking \<Rightarrow> update_error + full_summary \<times> ranking" where
  "update_fields visible game persona c updates relative r =
    rbind (normalized_updates relative updates) (\<lambda>fvs.
      let key = game_key game; display = display_name persona; k = normalize_persona display;
          category = game_category key c; b = ensure_row k display (bucket_of key r);
          s = fold (apply_update relative category) fvs ((row_of k b)\<lparr>ps_persona := display\<rparr>);
          b = rebuild_bucket visible key (AList.update k s b)
      in Inr (full_summary_of (int category) (row_of k b), put_bucket key b r))"

definition reset :: "(string \<Rightarrow> bool) \<Rightarrow> game_ref \<Rightarrow> string \<Rightarrow> int option \<Rightarrow> ranking \<Rightarrow> player_stats \<times> ranking" where
  "reset visible game persona c r =
    (let key = game_key game; display = display_name persona; k = normalize_persona display;
         b = ensure_row k display (bucket_of key r); s = (row_of k b)\<lparr>ps_persona := display\<rparr>;
         s = (case c of
             None \<Rightarrow> s\<lparr>ps_values := DEFAULT_VALUES, ps_nos := replicate STAT_CATEGORY_COUNT 0\<rparr>
           | Some c \<Rightarrow> let category = game_category key c; first = category * STAT_CATEGORY_SIZE
               in s\<lparr>ps_values := splice first (first + STAT_CATEGORY_SIZE) DEFAULT_CATEGORY (ps_values s),
                    ps_nos := (ps_nos s)[category := 0]\<rparr>);
         b = rebuild_bucket visible key (AList.update k s b)
     in (copy_stats (row_of k b), put_bucket key b r))"

definition remove_persona :: "(string \<Rightarrow> bool) \<Rightarrow> game_ref \<Rightarrow> string \<Rightarrow> ranking \<Rightarrow> bool \<times> ranking" where
  "remove_persona visible game persona r =
    (let key = game_key game; k = normalize_persona persona; b = bucket_of key r
     in if map_of b k = None then (False, put_bucket key b r)
        else (True, put_bucket key (rebuild_bucket visible key (AList.delete k b)) r))"

section \<open>The saved document\<close>

definition STORE_VERSION :: int where "STORE_VERSION = 2"

definition store_document :: "ranking \<Rightarrow> json" where
  "store_document r = J_Dict [(''version'', J_Int STORE_VERSION),
     (''games'', J_Dict (map (\<lambda>(g, b). (g, J_Dict [(''personas'', J_Dict (map (\<lambda>(k, s). (k, stats_to_dict s)) (sort_key fst b)))]))
       (sort_key fst r)))]"

text \<open>Version 1 held URL, Circuit, Sprint, Drag, Drift; the retail order is Circuit, Sprint, Drag, Drift, Street X, URL.\<close>

definition migrate_u2_v1_values :: "json \<Rightarrow> json" where
  "migrate_u2_v1_values v = (case v of
      J_List old \<Rightarrow> if length old < 35 then v
        else let block = (\<lambda>i. slice (7 * i) (7 * i + STAT_CATEGORY_SIZE) old)
             in J_List (block 1 @ block 2 @ block 3 @ block 4 @ map J_Int DEFAULT_CATEGORY @ block 0)
    | _ \<Rightarrow> v)"

definition dict_field :: "string \<Rightarrow> json \<Rightarrow> json option" where
  "dict_field f v = (case v of J_Dict d \<Rightarrow> map_of d f | _ \<Rightarrow> None)"

definition field_or_null :: "string \<Rightarrow> json \<Rightarrow> json" where
  "field_or_null f v = (case dict_field f v of None \<Rightarrow> J_Null | Some x \<Rightarrow> x)"

text \<open>\<open>show\<close> is \<open>str\<close> of a value that is not text.\<close>

definition document_version :: "json \<Rightarrow> conversion_error + int" where
  "document_version raw = (case dict_field ''version'' raw of
      None \<Rightarrow> Inr 1
    | Some v \<Rightarrow> (case int_of_json v of Inl Overflow_Error \<Rightarrow> Inl Overflow_Error | Inl _ \<Rightarrow> Inr 1 | Inr i \<Rightarrow> Inr i))"

definition document_persona :: "(json \<Rightarrow> string) \<Rightarrow> string \<Rightarrow> json \<Rightarrow> string" where
  "document_persona show raw_key v = strip (case field_or_null ''persona'' v of
      J_Text s \<Rightarrow> if s = [] then raw_key else s
    | x \<Rightarrow> if truthy x then show x else raw_key)"

fun decode_personas :: "(json \<Rightarrow> string) \<Rightarrow> bool \<Rightarrow> (string \<times> json) list \<Rightarrow> bucket \<Rightarrow> conversion_error + bucket" where
  "decode_personas show migrate [] b = Inr b"
| "decode_personas show migrate ((raw_key, v) # rest) b = (case v of
      J_Dict _ \<Rightarrow> let persona = document_persona show raw_key v in
        if persona = [] then decode_personas show migrate rest b
        else let vs = field_or_null ''values'' v; vs = (if migrate then migrate_u2_v1_values vs else vs)
             in rbind (create_from persona vs (field_or_null ''mw_nos_used'' v)) (\<lambda>s.
                decode_personas show migrate rest (AList.update (normalize_persona persona) s b))
    | _ \<Rightarrow> decode_personas show migrate rest b)"

fun decode_buckets :: "(json \<Rightarrow> string) \<Rightarrow> int \<Rightarrow> (string \<times> json) list \<Rightarrow> ranking \<Rightarrow> conversion_error + ranking" where
  "decode_buckets show version [] r = Inr r"
| "decode_buckets show version ((g, v) # rest) r =
    (case (case dict_field ''personas'' v of None \<Rightarrow> J_Dict [] | Some x \<Rightarrow> x) of
      J_Dict ps \<Rightarrow> rbind (decode_personas show (g = game_value UNDERGROUND2 \<and> version < STORE_VERSION) ps [])
        (\<lambda>b. decode_buckets show version rest (AList.update g b r))
    | _ \<Rightarrow> decode_buckets show version rest r)"

definition decode_games :: "(json \<Rightarrow> string) \<Rightarrow> json \<Rightarrow> conversion_error + ranking" where
  "decode_games show raw = rbind (document_version raw) (\<lambda>version.
     case (case dict_field ''games'' raw of None \<Rightarrow> J_Dict [] | Some x \<Rightarrow> x) of
       J_Dict games \<Rightarrow> decode_buckets show version games []
     | _ \<Rightarrow> Inr [])"

text \<open>What a load or a reload does with the document it read.\<close>

definition adopt_document :: "(string \<Rightarrow> bool) \<Rightarrow> (json \<Rightarrow> string) \<Rightarrow> json \<Rightarrow> conversion_error + ranking" where
  "adopt_document visible show raw =
     rbind (decode_games show raw) (\<lambda>r. Inr (map (\<lambda>(g, b). (g, rebuild_bucket visible g b)) r))"

end
