(* ===== verification/ClassicBoards.thy ===== *)
theory ClassicBoards
  imports ClassicRanking
begin

text \<open>
  What the ranking store keeps: rows are well formed whatever is loaded or reported, and the
  stored ratings are the positions on the leaderboards.
\<close>

section \<open>Rows\<close>

lemmas stat_sizes = STAT_VALUE_COUNT_def STAT_CATEGORY_COUNT_def U2_STAT_CATEGORY_COUNT_def MW_STAT_CATEGORY_COUNT_def
  STAT_CATEGORY_SIZE_def STAT_FIELDS_def

lemma size_values [simp]: "STAT_CATEGORY_SIZE = 7" "STAT_CATEGORY_COUNT = 6" "STAT_VALUE_COUNT = 42"
  by (simp_all add: stat_sizes)

lemma default_values: "length DEFAULT_VALUES = 42" "\<forall>v \<in> set DEFAULT_VALUES. 0 \<le> v"
    "length DEFAULT_CATEGORY = 7" "\<forall>v \<in> set DEFAULT_CATEGORY. 0 \<le> v"
  by (simp_all add: DEFAULT_VALUES_def DEFAULT_CATEGORY_def numeral_eq_Suc)

definition stats_ok :: "player_stats \<Rightarrow> bool" where
  "stats_ok s = (length (ps_values s) = STAT_VALUE_COUNT \<and> (\<forall>v \<in> set (ps_values s). 0 \<le> v) \<and>
     length (ps_nos s) = STAT_CATEGORY_COUNT \<and> (\<forall>q \<in> set (ps_nos s). 0 \<le> q))"

lemma field_index_less: "field_index f = Some i \<Longrightarrow> i < 7"
  by (auto simp: field_index_def STAT_FIELDS_def split: if_splits)

lemma field_index_inj: "field_index f = Some i \<Longrightarrow> field_index g = Some i \<Longrightarrow> f = g"
  by (auto simp: field_index_def STAT_FIELDS_def split: if_splits)

lemma category_index_less: "category_index c < 6"
  by (simp add: category_index_def)

lemma category_index_id [simp]: "c < 6 \<Longrightarrow> category_index (int c) = c"
  by (simp add: category_index_def)

lemma cell_less: "field_index f = Some i \<Longrightarrow> cell_offset c + i < 42"
  using category_index_less[of c] field_index_less[of f i] by (simp add: cell_offset_def)

lemma split_seven: "i < 7 \<Longrightarrow> j < 7 \<Longrightarrow> a * 7 + i = b * 7 + j \<longleftrightarrow> a = b \<and> i = (j :: nat)"
  by presburger

lemma cell_eq: "field_index f = Some i \<Longrightarrow> field_index g = Some j \<Longrightarrow>
    cell_offset c + i = cell_offset d + j \<longleftrightarrow> category_index c = category_index d \<and> f = g"
  using split_seven[OF field_index_less field_index_less, of f i g j] field_index_inj[of f i g]
  by (auto simp: cell_offset_def)

lemma get_set_stat:
  assumes "stats_ok s" and "field_index f \<noteq> None"
  shows "get_stat c f (set_stat d g v s) = (if category_index c = category_index d \<and> f = g then max 0 v else get_stat c f s)"
proof -
  obtain i where i: "field_index f = Some i" using assms(2) by blast
  show ?thesis
  proof (cases "field_index g")
    case (Some j)
    have "cell_offset d + j < length (ps_values s)" using cell_less[OF Some] assms(1) by (simp add: stats_ok_def)
    then show ?thesis using cell_eq[OF i Some, of c d] by (simp add: get_stat_def set_stat_def i Some nth_list_update eq_commute)
  qed (use i in \<open>auto simp: set_stat_def\<close>)
qed

lemma get_stat_nonneg: "stats_ok s \<Longrightarrow> 0 \<le> get_stat c f s"
  using cell_less[of f _ c] by (auto simp: get_stat_def stats_ok_def split: option.split)

lemma set_stat_keeps [simp]: "ps_persona (set_stat c f v s) = ps_persona s" "ps_nos (set_stat c f v s) = ps_nos s"
  by (simp_all add: set_stat_def split: option.split)

lemma set_stat_ok: "stats_ok s \<Longrightarrow> stats_ok (set_stat c f v s)"
  by (auto simp: stats_ok_def set_stat_def split: option.split dest!: set_update_subset_insert[THEN subsetD])

lemma overlay_facts: "length (overlay base new) = length base" "set (overlay base new) \<subseteq> set base \<union> set new"
  by (auto simp: overlay_def min_def dest: in_set_takeD in_set_dropD)

lemma create_stats_ok: "stats_ok (create_stats persona vs nos)"
  using overlay_facts(2)[of DEFAULT_VALUES "map (max 0) vs"] overlay_facts(2)[of "replicate 6 0" "map (max 0) nos"] default_values
  by (fastforce simp: stats_ok_def create_stats_def overlay_facts)

lemma overlay_full: "length new = length base \<Longrightarrow> overlay base new = new"
  by (simp add: overlay_def)

lemma max_zero_id: "\<forall>v \<in> set vs. 0 \<le> (v :: 'a :: {linorder, zero}) \<Longrightarrow> map (max 0) vs = vs"
  by (induction vs) auto

lemma strip_display [simp]: "strip (display_name s) = display_name s" "display_name s \<noteq> []" "display_name (display_name s) = display_name s"
proof -
  have "strip ''Player'' = ''Player''" by code_simp
  then show "strip (display_name s) = display_name s" by (simp add: display_name_def Let_def strip_idem)
  then show "display_name (display_name s) = display_name s" "display_name s \<noteq> []"
    by (simp_all add: display_name_def Let_def split: if_splits)
qed

lemma display_id: "strip s = s \<Longrightarrow> s \<noteq> [] \<Longrightarrow> display_name s = s"
  by (simp add: display_name_def)

lemma copy_stats_id: "stats_ok s \<Longrightarrow> strip (ps_persona s) = ps_persona s \<Longrightarrow> ps_persona s \<noteq> [] \<Longrightarrow> copy_stats s = s"
  by (simp add: copy_stats_def create_stats_def stats_ok_def max_zero_id overlay_full default_values display_id)

section \<open>Buckets\<close>

definition row_ok :: "string \<Rightarrow> player_stats \<Rightarrow> bool" where
  "row_ok k s = (stats_ok s \<and> k = casefold (ps_persona s) \<and> strip (ps_persona s) = ps_persona s \<and> ps_persona s \<noteq> [])"

definition bucket_ok :: "bucket \<Rightarrow> bool" where
  "bucket_ok b = (distinct (map fst b) \<and> (\<forall>(k, s) \<in> set b. row_ok k s))"

lemma bucket_ok_Nil [simp]: "bucket_ok []"
  by (simp add: bucket_ok_def)

lemma bucket_row: "bucket_ok b \<Longrightarrow> map_of b k = Some s \<Longrightarrow> row_ok k s"
  by (auto simp: bucket_ok_def dest!: map_of_SomeD)

lemma in_update_row: "x \<in> set (AList.update k v d) \<Longrightarrow> x = (k, v) \<or> x \<in> set d"
  by (induction d) (auto split: if_splits)

lemma bucket_ok_update: "bucket_ok b \<Longrightarrow> row_ok k s \<Longrightarrow> bucket_ok (AList.update k s b)"
  by (auto simp: bucket_ok_def distinct_update dest!: in_update_row)

lemma row_ok_new: "k = normalize_persona persona \<Longrightarrow> strip persona \<noteq> [] \<Longrightarrow> row_ok k (new_stats persona)"
  using create_stats_ok[of persona "[]" "[]"]
  by (auto simp: row_ok_def new_stats_def normalize_persona_def create_stats_def display_name_def strip_idem)

lemma display_key [simp]: "normalize_persona (display_name p) = casefold (display_name p)"
  by (simp add: normalize_persona_def)

lemma bucket_ok_ensure:
  "bucket_ok b \<Longrightarrow> k = normalize_persona persona \<Longrightarrow> strip persona \<noteq> [] \<Longrightarrow> bucket_ok (ensure_row k persona b)"
  using row_ok_new[of k persona] by (auto simp: ensure_row_def bucket_ok_def map_of_eq_None_iff)

lemma ensure_row_lookup: "map_of (ensure_row k persona b) k' =
    (if k' = k \<and> map_of b k = None then Some (new_stats persona) else map_of b k')"
  by (auto simp: ensure_row_def map_add_def split: option.split)

lemma map_of_row_of: "map_of (ensure_row k persona b) k = Some (row_of k (ensure_row k persona b))"
  by (auto simp: row_of_def ensure_row_lookup)

section \<open>Leaderboards\<close>

lemma map_insort: "map g (insort_key (\<lambda>x. K (g x)) x xs) = insort_key K (g x) (map g xs)"
  by (induction xs) auto

lemma map_sort: "map g (sort_key (\<lambda>x. K (g x)) xs) = sort_key K (map g xs)"
  by (induction xs) (simp_all add: map_insort)

lemma insort_key_cong: "K x = L x \<Longrightarrow> (\<And>y. y \<in> set ys \<Longrightarrow> K y = L y) \<Longrightarrow> insort_key K x ys = insort_key L x ys"
  by (induction ys) auto

lemma sort_key_cong_on: "(\<And>x. x \<in> set xs \<Longrightarrow> K x = L x) \<Longrightarrow> sort_key K xs = sort_key L xs"
proof (induction xs)
  case (Cons x xs)
  have "sort_key K xs = sort_key L xs" by (rule Cons.IH) (simp add: Cons.prems)
  moreover have "insort_key K x (sort_key L xs) = insort_key L x (sort_key L xs)"
    by (rule insort_key_cong) (simp_all add: Cons.prems)
  ultimately show ?case by simp
qed simp

text \<open>Changes that keep the sort keys and the visibility of the rows keep the leaderboard.\<close>

lemma ordered_rows_map:
  assumes "\<And>k s. (k, s) \<in> set b \<Longrightarrow> board_key c (f k s) = board_key c s \<and> visible (ps_persona (f k s)) = visible (ps_persona s)"
  shows "ordered_rows visible c (map (\<lambda>(k, s). (k, f k s)) b) = map (\<lambda>(k, s). (k, f k s)) (ordered_rows visible c b)"
proof -
  define g where "g = (\<lambda>(k :: string, s). (k, f k s))"
  define rows where "rows = [(k, s) \<leftarrow> b. visible (ps_persona s)]"
  have "[(k, s) \<leftarrow> map g b. visible (ps_persona s)] = map g rows"
    unfolding rows_def filter_map by (rule arg_cong[of _ _ "map g"], rule filter_cong) (auto simp: g_def assms)
  then have "ordered_rows visible c (map g b) = sort_key (\<lambda>(_, s). board_key c s) (map g rows)"
    by (simp add: ordered_rows_def)
  also have "\<dots> = map g (sort_key (\<lambda>x. (\<lambda>(_, s). board_key c s) (g x)) rows)" by (rule map_sort[symmetric])
  also have "sort_key (\<lambda>x. (\<lambda>(_, s). board_key c s) (g x)) rows = sort_key (\<lambda>(_, s). board_key c s) rows"
    by (rule sort_key_cong_on) (auto simp: g_def rows_def assms)
  finally show ?thesis by (simp add: ordered_rows_def g_def rows_def)
qed

lemma ordered_rows_set: "set (ordered_rows visible c b) = {(k, s) \<in> set b. visible (ps_persona s)}"
  by (auto simp: ordered_rows_def)

lemma distinct_keys_sort: "distinct (map fst xs) \<Longrightarrow> distinct (map fst (sort_key K xs))"
  by (metis distinct_sort mset_map mset_sort mset_eq_imp_distinct_iff)

lemma ordered_rows_distinct: "distinct (map fst b) \<Longrightarrow> distinct (map fst (ordered_rows visible c b))"
  unfolding ordered_rows_def by (intro distinct_keys_sort) (auto simp: distinct_map intro: inj_on_subset)

lemma ordered_rows_sorted: "sorted (map (\<lambda>(_, s). board_key c s) (ordered_rows visible c b))"
  by (simp add: ordered_rows_def)

definition ranked :: "(string \<Rightarrow> bool) \<Rightarrow> nat \<Rightarrow> bucket \<Rightarrow> bool" where
  "ranked visible n b = (\<forall>c < n. map (\<lambda>(_, s). get_stat (int c) ''rating'' s) (ordered_rows visible c b) =
     map int [1..<Suc (length (ordered_rows visible c b))])"

section \<open>Rebuilding the ratings\<close>

lemma fold_ranks:
  assumes "distinct (map fst xs)"
  shows "(k \<notin> fst ` set xs \<longrightarrow> map_of (fold (\<lambda>(i, k, s). AList.update k (h i s)) (enumerate n xs) b) k = map_of b k) \<and>
    (\<forall>p < length xs. map_of (fold (\<lambda>(i, k, s). AList.update k (h i s)) (enumerate n xs) b) (fst (xs ! p)) = Some (h (n + p) (snd (xs ! p))))"
  using assms
proof (induction xs arbitrary: n b k)
  case (Cons x xs)
  obtain j s where x: "x = (j, s)" by (cases x)
  define b' where "b' = AList.update j (h n s) b"
  have all: "fold (\<lambda>(i, k, s). AList.update k (h i s)) (enumerate n (x # xs)) b =
      fold (\<lambda>(i, k, s). AList.update k (h i s)) (enumerate (Suc n) xs) b'" by (simp add: x b'_def)
  have d: "distinct (map fst xs)" "j \<notin> fst ` set xs" using Cons.prems by (auto simp: x)
  have look: "map_of b' k = (if k = j then Some (h n s) else map_of b k)" for k by (simp add: b'_def AList.update_conv')
  show ?case
  proof (intro conjI impI allI)
    assume "k \<notin> fst ` set (x # xs)"
    then show "map_of (fold (\<lambda>(i, k, s). AList.update k (h i s)) (enumerate n (x # xs)) b) k = map_of b k"
      unfolding all using Cons.IH[OF d(1), of k "Suc n" b'] by (simp add: x look)
  next
    fix p assume p: "p < length (x # xs)"
    show "map_of (fold (\<lambda>(i, k, s). AList.update k (h i s)) (enumerate n (x # xs)) b) (fst ((x # xs) ! p)) =
        Some (h (n + p) (snd ((x # xs) ! p)))"
      unfolding all using Cons.IH[OF d(1), of j "Suc n" b'] d(2) p by (cases p) (simp_all add: x look)
  qed
qed simp

lemma fold_update_keys: "fst ` set (map snd es) \<subseteq> fst ` set b \<Longrightarrow>
    map fst (fold (\<lambda>(i, k, s). AList.update k (h i s)) es b) = map fst b"
proof (induction es arbitrary: b)
  case (Cons e es)
  obtain i k s where e: "e = (i, k, s)" by (cases e) auto
  have "map fst (AList.update k (h i s) b) = map fst b" using Cons.prems by (auto simp: e update_keys)
  moreover from this have "fst ` set (AList.update k (h i s) b) = fst ` set b" by (metis list.set_map)
  ultimately show ?case using Cons.IH[of "AList.update k (h i s) b"] Cons.prems by (simp add: e)
qed simp

lemma alist_as_map: "distinct (map fst b) \<Longrightarrow> map fst b' = map fst b \<Longrightarrow>
    b' = map (\<lambda>(k, s). (k, the (map_of b' k))) b"
proof -
  assume d: "distinct (map fst b)" "map fst b' = map fst b"
  then have "b' = map (\<lambda>(k, s). (k, the (map_of b' k))) b'" by (intro map_idI[symmetric]) auto
  also have "\<dots> = map (\<lambda>k. (k, the (map_of b' k))) (map fst b')" by (simp add: case_prod_beta)
  also have "\<dots> = map (\<lambda>(k, s). (k, the (map_of b' k))) b" by (simp add: d(2) case_prod_beta)
  finally show ?thesis .
qed

definition rating_field :: string where "rating_field = ''rating''"

lemma stat_fields [simp]: "field_index ''rating'' = Some 0" "field_index ''wins'' = Some 1" "field_index ''losses'' = Some 2"
   "field_index ''disconnects'' = Some 3" "field_index ''rep'' = Some 4" "field_index ''opponents_rep'' = Some 5"
   "field_index ''opponents_rating'' = Some 6"
  by (simp_all add: field_index_def STAT_FIELDS_def)

lemma board_key_rating: "stats_ok s \<Longrightarrow> board_key c (set_stat d ''rating'' v s) = board_key c s"
  by (simp add: board_key_def get_set_stat)

text \<open>One pass: the rows keep everything but the rating of one category, which becomes their position.\<close>

lemma rank_category_facts:
  assumes "bucket_ok b" and "c < 6"
  obtains f where "rank_category visible c b = map (\<lambda>(k, s). (k, f k s)) b"
    and "\<And>k s. (k, s) \<in> set b \<Longrightarrow> f k s = s \<or> (\<exists>v. f k s = set_stat (int c) ''rating'' v s)"
    and "map (\<lambda>(k, s). get_stat (int c) ''rating'' (f k s)) (ordered_rows visible c b) =
      map int [1..<Suc (length (ordered_rows visible c b))]"
proof -
  define xs where "xs = ordered_rows visible c b"
  define h where "h = (\<lambda>rank s. set_stat (int c) ''rating'' (int rank) s)"
  define b' where "b' = rank_category visible c b"
  have b': "b' = fold (\<lambda>(i, k, s). AList.update k (h i s)) (enumerate 1 xs) b"
    by (simp add: b'_def rank_category_def xs_def h_def)
  have d: "distinct (map fst b)" using assms(1) by (simp add: bucket_ok_def)
  have dx: "distinct (map fst xs)" unfolding xs_def by (rule ordered_rows_distinct[OF d])
  have sub: "set xs \<subseteq> set b" by (auto simp: xs_def ordered_rows_set)
  have snds: "map snd (enumerate 1 xs) = xs" by simp
  have keys: "map fst b' = map fst b" unfolding b' by (rule fold_update_keys, unfold snds) (rule image_mono[OF sub])
  define f where "f = (\<lambda>k (s :: player_stats). the (map_of b' k))"
  have at: "f (fst (xs ! p)) s = h (1 + p) (snd (xs ! p))" if "p < length xs" for p s
    using fold_ranks[OF dx, of undefined h 1 b] that by (simp add: f_def b')
  have "f k s = s \<or> (\<exists>v. f k s = set_stat (int c) ''rating'' v s)" if ks: "(k, s) \<in> set b" for k s
  proof (cases "k \<in> fst ` set xs")
    case True
    then obtain p where p: "p < length xs" "fst (xs ! p) = k" by (auto simp: in_set_conv_nth image_iff)
    then have "xs ! p \<in> set b" using sub by auto
    then have "snd (xs ! p) = s" using ks p(2) d by (metis eq_key_imp_eq_value prod.collapse)
    then show ?thesis using at[OF p(1), of s] p(2) by (auto simp: h_def)
  next
    case False
    then have "map_of b' k = map_of b k" using fold_ranks[OF dx, of k h 1 b] by (simp add: b')
    then show ?thesis using ks d by (simp add: f_def)
  qed
  moreover have "map (\<lambda>(k, s). get_stat (int c) ''rating'' (f k s)) xs = map int [1..<Suc (length xs)]"
  proof (rule nth_equalityI)
    fix p assume "p < length (map (\<lambda>(k, s). get_stat (int c) ''rating'' (f k s)) xs)"
    then have p: "p < length xs" by simp
    have "stats_ok (snd (xs ! p))"
      using nth_mem[OF p] sub assms(1) by (auto simp: bucket_ok_def row_ok_def dest!: subsetD)
    then show "map (\<lambda>(k, s). get_stat (int c) ''rating'' (f k s)) xs ! p = map int [1..<Suc (length xs)] ! p"
      using p at[OF p] assms(2) by (simp add: case_prod_beta h_def get_set_stat del: upt_Suc)
  qed (simp del: upt_Suc)
  ultimately show thesis using that alist_as_map[OF d keys] by (simp add: f_def b'_def xs_def)
qed

lemma row_ok_rating: "row_ok k s \<Longrightarrow> row_ok k (set_stat c f v s)"
  by (simp add: row_ok_def set_stat_ok)

lemma rank_category_step:
  assumes "bucket_ok b" and "c < 6" and "ranked visible c b"
  shows "bucket_ok (rank_category visible c b)" and "ranked visible (Suc c) (rank_category visible c b)"
proof -
  from rank_category_facts[OF assms(1,2)] obtain f where
    f: "rank_category visible c b = map (\<lambda>(k, s). (k, f k s)) b"
       "\<And>k s. (k, s) \<in> set b \<Longrightarrow> f k s = s \<or> (\<exists>v. f k s = set_stat (int c) ''rating'' v s)"
       "map (\<lambda>(k, s). get_stat (int c) ''rating'' (f k s)) (ordered_rows visible c b) =
          map int [1..<Suc (length (ordered_rows visible c b))]" by blast
  have rows: "row_ok k s \<and> row_ok k (f k s)" if "(k, s) \<in> set b" for k s
    using that assms(1) f(2)[OF that] row_ok_rating by (auto simp: bucket_ok_def)
  have "map fst (map (\<lambda>(k, s). (k, f k s)) b) = map fst b" by (simp add: case_prod_beta comp_def)
  then show "bucket_ok (rank_category visible c b)" using rows assms(1)
    unfolding bucket_ok_def f(1) by (auto simp del: map_map)
  have keeps: "board_key c' (f k s) = board_key c' s \<and> visible (ps_persona (f k s)) = visible (ps_persona s)"
    if "(k, s) \<in> set b" for k s c' using f(2)[OF that] rows[OF that] by (auto simp: board_key_rating row_ok_def)
  have ord: "ordered_rows visible c' (rank_category visible c b) = map (\<lambda>(k, s). (k, f k s)) (ordered_rows visible c' b)" for c'
    unfolding f(1) by (rule ordered_rows_map) (rule keeps)
  have other: "get_stat (int c') ''rating'' (f k s) = get_stat (int c') ''rating'' s" if "(k, s) \<in> set b" "c' < c" for k s c'
    using f(2)[OF that(1)] rows[OF that(1)] that(2) assms(2) by (auto simp: get_set_stat row_ok_def)
  show "ranked visible (Suc c) (rank_category visible c b)" unfolding ranked_def
  proof (intro allI impI)
    fix c' assume c': "c' < Suc c"
    show "map (\<lambda>(_, s). get_stat (int c') ''rating'' s) (ordered_rows visible c' (rank_category visible c b)) =
      map int [1..<Suc (length (ordered_rows visible c' (rank_category visible c b)))]"
    proof (cases "c' = c")
      case True
      then show ?thesis using f(3)[unfolded case_prod_beta] by (simp add: ord case_prod_beta comp_def del: upt_Suc)
    next
      case False
      then have less: "c' < c" using c' by simp
      then have "map (\<lambda>(k, s). get_stat (int c') ''rating'' (f k s)) (ordered_rows visible c' b) =
          map (\<lambda>(_, s). get_stat (int c') ''rating'' s) (ordered_rows visible c' b)"
        by (intro map_cong) (auto simp: ordered_rows_set other)
      also have "\<dots> = map int [1..<Suc (length (ordered_rows visible c' b))]" using assms(3) less unfolding ranked_def by blast
      finally have "map (\<lambda>x. get_stat (int c') ''rating'' (f (fst x) (snd x))) (ordered_rows visible c' b) =
          map int [1..<Suc (length (ordered_rows visible c' b))]" by (simp only: case_prod_unfold)
      then show ?thesis unfolding ord by (simp add: case_prod_beta comp_def del: upt_Suc)
    qed
  qed
qed

lemma rebuild_ranked: "bucket_ok b \<Longrightarrow> n \<le> 6 \<Longrightarrow> bucket_ok (rebuild_ratings visible n b) \<and> ranked visible n (rebuild_ratings visible n b)"
proof (induction n)
  case (Suc n)
  then show ?case using rank_category_step[of "rebuild_ratings visible n b" n visible] by (simp add: rebuild_ratings_def)
qed (simp add: rebuild_ratings_def ranked_def)

lemma count_le [simp]: "game_category_count g \<le> 6"
  by (simp add: game_category_count_def stat_sizes)

lemma rebuild_bucket_ok: "bucket_ok b \<Longrightarrow> bucket_ok (rebuild_bucket visible g b)"
    "bucket_ok b \<Longrightarrow> ranked visible (game_category_count g) (rebuild_bucket visible g b)"
  using rebuild_ranked[OF _ count_le] by (auto simp: rebuild_bucket_def)


section \<open>The store\<close>

definition ranking_ok :: "ranking \<Rightarrow> bool" where
  "ranking_ok r = (distinct (map fst r) \<and> (\<forall>(g, b) \<in> set r. bucket_ok b))"

definition ranked_store :: "(string \<Rightarrow> bool) \<Rightarrow> ranking \<Rightarrow> bool" where
  "ranked_store visible r = (\<forall>(g, b) \<in> set r. ranked visible (game_category_count g) b)"

lemma ranking_ok_Nil: "ranking_ok []"
  by (simp add: ranking_ok_def)

lemma ranked_Nil [simp]: "ranked visible n []"
  by (simp add: ranked_def ordered_rows_def)

lemma bucket_of_ok: "ranking_ok r \<Longrightarrow> bucket_ok (bucket_of g r)"
  by (auto simp: ranking_ok_def bucket_of_def split: option.split dest!: map_of_SomeD)

lemma bucket_of_ranked: "ranked_store visible r \<Longrightarrow> ranked visible (game_category_count g) (bucket_of g r)"
  by (auto simp: ranked_store_def bucket_of_def split: option.split dest!: map_of_SomeD)

lemma in_put: "x \<in> set (put_bucket g b r) \<Longrightarrow> x = (g, b) \<or> x \<in> set r"
  unfolding put_bucket_def by (induction r) (auto split: if_splits)

lemma put_bucket_ok: "ranking_ok r \<Longrightarrow> bucket_ok b \<Longrightarrow> ranking_ok (put_bucket g b r)"
  using in_put[of _ g b r] by (fastforce simp: ranking_ok_def put_bucket_def distinct_update)

lemma put_bucket_ranked: "ranked_store visible r \<Longrightarrow> ranked visible (game_category_count g) b \<Longrightarrow> ranked_store visible (put_bucket g b r)"
  using in_put[of _ g b r] by (fastforce simp: ranked_store_def)

lemma bucket_of_put [simp]: "bucket_of g (put_bucket g b r) = b"
  by (simp add: bucket_of_def put_bucket_def AList.update_conv')

lemma bump_ok: "stats_ok s \<Longrightarrow> stats_ok (bump_result c outcome agg s)"
  by (simp add: bump_result_def result_targets_def bump_one_def Let_def set_stat_ok)

lemma bump_persona [simp]: "ps_persona (bump_result c outcome agg s) = ps_persona s"
  by (simp add: bump_result_def result_targets_def bump_one_def Let_def)

lemma nos_update_ok: "stats_ok s \<Longrightarrow> 0 \<le> q \<Longrightarrow> t < 6 \<Longrightarrow> stats_ok (s\<lparr>ps_nos := (ps_nos s)[t := ps_nos s ! t + q]\<rparr>)"
  by (auto simp: stats_ok_def dest!: set_update_subset_insert[THEN subsetD])

lemma finite_nonnegative_ge: "0 \<le> finite_nonnegative x"
  by (simp add: finite_nonnegative_def split: pyfloat.split)

lemma fold_keeps_row:
  "(\<And>x s. x \<in> set xs \<Longrightarrow> stats_ok s \<Longrightarrow> stats_ok (f x s) \<and> ps_persona (f x s) = ps_persona s) \<Longrightarrow> stats_ok s \<Longrightarrow>
    stats_ok (fold f xs s) \<and> ps_persona (fold f xs s) = ps_persona s"
  by (induction xs arbitrary: s) auto

lemma add_nos_ok: "stats_ok s \<Longrightarrow> stats_ok (add_mw_nos_used c q agg s)"
  unfolding add_mw_nos_used_def
  by (rule fold_keeps_row[THEN conjunct1])
     (use category_index_less[of c] in \<open>auto simp: result_targets_def nos_update_ok finite_nonnegative_ge split: if_splits\<close>)

lemma add_nos_persona [simp]: "ps_persona (add_mw_nos_used c q agg s) = ps_persona s"
  by (simp add: add_mw_nos_used_def result_targets_def)

lemma fold_ensure_ok:
  "bucket_ok b \<Longrightarrow> \<forall>p \<in> set ps. strip p \<noteq> [] \<Longrightarrow> bucket_ok (fold (\<lambda>p. ensure_row (normalize_persona p) p) ps b)"
  by (induction ps arbitrary: b) (auto intro: bucket_ok_ensure)

lemma ensured_row:
  "bucket_ok b \<Longrightarrow> row_ok (normalize_persona (display_name p))
     ((row_of (normalize_persona (display_name p)) (ensure_row (normalize_persona (display_name p)) (display_name p) b))\<lparr>ps_persona := display_name p\<rparr>)"
proof -
  assume b: "bucket_ok b"
  have "bucket_ok (ensure_row (normalize_persona (display_name p)) (display_name p) b)"
    by (rule bucket_ok_ensure[OF b]) simp_all
  from bucket_row[OF this map_of_row_of] show ?thesis by (simp add: row_ok_def stats_ok_def)
qed

lemma row_ok_change: "row_ok k s \<Longrightarrow> stats_ok s' \<Longrightarrow> ps_persona s' = ps_persona s \<Longrightarrow> row_ok k s'"
  by (simp add: row_ok_def)

datatype rank_call =
    Get_Or_Create game_ref string
  | Leaderboard game_ref int int int string
  | Ranking_Result game_ref string int string "string list" pyfloat
  | Update_Fields game_ref string int "(string \<times> json) list" bool
  | Reset game_ref string "int option"
  | Remove_Persona game_ref string
  | Reload json

fun run_rank_call :: "(string \<Rightarrow> bool) \<Rightarrow> (json \<Rightarrow> string) \<Rightarrow> rank_call \<Rightarrow> ranking \<Rightarrow> ranking" where
  "run_rank_call visible show (Get_Or_Create game p) r = snd (get_or_create visible game p r)"
| "run_rank_call visible show (Leaderboard game c start limit p) r = snd (leaderboard visible game c start limit p r)"
| "run_rank_call visible show (Ranking_Result game p c outcome opponents nos) r = snd (ranking_result visible game p c outcome opponents nos r)"
| "run_rank_call visible show (Update_Fields game p c updates relative) r =
     (case update_fields visible game p c updates relative r of Inl _ \<Rightarrow> r | Inr (_, r') \<Rightarrow> r')"
| "run_rank_call visible show (Reset game p c) r = snd (reset visible game p c r)"
| "run_rank_call visible show (Remove_Persona game p) r = snd (remove_persona visible game p r)"
| "run_rank_call visible show (Reload doc) r = (case adopt_document visible show doc of Inl _ \<Rightarrow> r | Inr r' \<Rightarrow> r')"

definition run_ranking :: "(string \<Rightarrow> bool) \<Rightarrow> (json \<Rightarrow> string) \<Rightarrow> rank_call list \<Rightarrow> ranking" where
  "run_ranking visible show cs = fold (run_rank_call visible show) cs []"


section \<open>Well-formedness\<close>

lemma row_ok_rename: "row_ok k s \<Longrightarrow> k = casefold (display_name p) \<Longrightarrow> row_ok k (s\<lparr>ps_persona := display_name p\<rparr>)"
  by (simp add: row_ok_def stats_ok_def)

lemma bucket_ok_snoc: "bucket_ok b \<Longrightarrow> map_of b k = None \<Longrightarrow> row_ok k s \<Longrightarrow> bucket_ok (b @ [(k, s)])"
  by (auto simp: bucket_ok_def map_of_eq_None_iff)

lemma get_or_create_ok: "ranking_ok r \<Longrightarrow> ranking_ok (snd (get_or_create visible game p r))"
proof -
  assume r: "ranking_ok r"
  define b where "b = bucket_of (game_key game) r"
  have b: "bucket_ok b" unfolding b_def by (rule bucket_of_ok[OF r])
  show ?thesis
  proof (cases "map_of b (casefold (display_name p))")
    case None
    have "row_ok (casefold (display_name p)) (new_stats (display_name p))" using row_ok_new[of _ "display_name p"] by simp
    then have "bucket_ok (b @ [(casefold (display_name p), new_stats (display_name p))])" by (rule bucket_ok_snoc[OF b None])
    from put_bucket_ok[OF r rebuild_bucket_ok(1)[OF this]] show ?thesis
      using None by (simp add: get_or_create_def Let_def flip: b_def)
  next
    case (Some s)
    from put_bucket_ok[OF r bucket_ok_update[OF b row_ok_rename[OF bucket_row[OF b Some]]]] show ?thesis
      using Some by (simp add: get_or_create_def Let_def flip: b_def)
  qed
qed

lemma ensure_named_ok: "bucket_ok b \<Longrightarrow> k = normalize_persona p \<Longrightarrow> k \<noteq> [] \<Longrightarrow> bucket_ok (ensure_row k p b)"
  by (rule bucket_ok_ensure) (auto simp: normalize_persona_def casefold_def)

lemma leaderboard_ok: "ranking_ok r \<Longrightarrow> ranking_ok (snd (leaderboard visible game c start limit p r))"
  using bucket_of_ok[of r "game_key game"] ensure_named_ok[of "bucket_of (game_key game) r" _ p]
  by (auto simp: leaderboard_def Let_def intro!: put_bucket_ok rebuild_bucket_ok)

lemma set_opponents_keeps: "stats_ok s \<Longrightarrow> stats_ok (set_opponents rows c s) \<and> ps_persona (set_opponents rows c s) = ps_persona s"
  by (simp add: set_opponents_def Let_def set_stat_ok)

lemma bumped_row_ok: "row_ok k s \<Longrightarrow> row_ok k (add_mw_nos_used c nos agg (bump_result c outcome agg s))"
  by (simp add: row_ok_def bump_ok add_nos_ok)

lemma opponents_row_ok: "row_ok k s \<Longrightarrow> row_ok k (fold (set_opponents rows) ts s)"
  using fold_keeps_row[of ts "set_opponents rows" s] set_opponents_keeps by (simp add: row_ok_def)

lemma ranking_result_ok: "ranking_ok r \<Longrightarrow> ranking_ok (snd (ranking_result visible game p c outcome opponents nos r))"
proof -
  assume r: "ranking_ok r"
  define k where "k = normalize_persona (display_name p)"
  define b where "b = ensure_row k (display_name p) (bucket_of (game_key game) r)"
  define s where "s = (row_of k b)\<lparr>ps_persona := display_name p\<rparr>"
  define ops where "ops = [p \<leftarrow> map strip opponents. p \<noteq> [] \<and> normalize_persona p \<noteq> k]"
  have b: "bucket_ok b" unfolding b_def k_def by (rule bucket_ok_ensure[OF bucket_of_ok[OF r]]) simp_all
  have s: "row_ok k s" unfolding s_def b_def k_def by (rule ensured_row[OF bucket_of_ok[OF r]])
  have "bucket_ok (fold (\<lambda>p. ensure_row (normalize_persona p) p) ops b)"
    by (rule fold_ensure_ok[OF b]) (auto simp: ops_def strip_idem)
  then show ?thesis using bucket_ok_update[OF _ bumped_row_ok[OF s]] bucket_ok_update[OF _ opponents_row_ok[OF bumped_row_ok[OF s]]]
      bucket_ok_update[OF b s] b
    unfolding ranking_result_def Let_def k_def[symmetric] b_def[symmetric] s_def[symmetric] ops_def[symmetric]
    by (auto intro!: put_bucket_ok[OF r] rebuild_bucket_ok)
qed

lemma apply_update_keeps: "stats_ok s \<Longrightarrow> stats_ok (apply_update relative c fv s) \<and> ps_persona (apply_update relative c fv s) = ps_persona s"
  by (simp add: apply_update_def set_stat_ok split: prod.split)

lemma updated_row_ok: "row_ok k s \<Longrightarrow> row_ok k (fold (apply_update relative c) fvs s)"
  using fold_keeps_row[of fvs "apply_update relative c" s] apply_update_keeps by (simp add: row_ok_def)

lemma update_fields_ok: "ranking_ok r \<Longrightarrow> update_fields visible game p c updates relative r = Inr (x, r') \<Longrightarrow> ranking_ok r'"
proof -
  assume r: "ranking_ok r" and u: "update_fields visible game p c updates relative r = Inr (x, r')"
  have b: "bucket_ok (ensure_row (normalize_persona (display_name p)) (display_name p) (bucket_of (game_key game) r))"
    by (rule bucket_ok_ensure[OF bucket_of_ok[OF r]]) simp_all
  show ?thesis using u updated_row_ok[OF ensured_row[OF bucket_of_ok[OF r]]]
    by (auto simp: update_fields_def rbind_eq_Inr Let_def simp del: display_key intro!: put_bucket_ok[OF r] rebuild_bucket_ok bucket_ok_update[OF b])
qed

lemma splice_set: "set (splice a b new xs) \<subseteq> set xs \<union> set new"
  by (auto simp: splice_def dest: in_set_takeD in_set_dropD)

lemma game_category_less: "game_category g c < game_category_count g"
  by (auto simp: game_category_def game_category_count_def stat_sizes)

lemma reset_row_ok:
  assumes "row_ok k s"
  shows "row_ok k (s\<lparr>ps_values := DEFAULT_VALUES, ps_nos := replicate STAT_CATEGORY_COUNT 0\<rparr>)"
    and "c < 6 \<Longrightarrow> row_ok k (s\<lparr>ps_values := splice (c * 7) (c * 7 + 7) DEFAULT_CATEGORY (ps_values s), ps_nos := (ps_nos s)[c := 0]\<rparr>)"
proof -
  show "row_ok k (s\<lparr>ps_values := DEFAULT_VALUES, ps_nos := replicate STAT_CATEGORY_COUNT 0\<rparr>)"
    using assms default_values by (simp add: row_ok_def stats_ok_def)
  assume "c < 6"
  then have "length (splice (c * 7) (c * 7 + 7) DEFAULT_CATEGORY (ps_values s)) = 42"
    using assms default_values by (simp add: length_splice row_ok_def stats_ok_def)
  then show "row_ok k (s\<lparr>ps_values := splice (c * 7) (c * 7 + 7) DEFAULT_CATEGORY (ps_values s), ps_nos := (ps_nos s)[c := 0]\<rparr>)"
    using assms default_values splice_set[of "c * 7" "c * 7 + 7" DEFAULT_CATEGORY "ps_values s"]
    by (auto simp: row_ok_def stats_ok_def dest!: set_update_subset_insert[THEN subsetD])
qed

lemma reset_ok: "ranking_ok r \<Longrightarrow> ranking_ok (snd (reset visible game p c r))"
proof -
  assume r: "ranking_ok r"
  have b: "bucket_ok (ensure_row (normalize_persona (display_name p)) (display_name p) (bucket_of (game_key game) r))"
    by (rule bucket_ok_ensure[OF bucket_of_ok[OF r]]) simp_all
  have "game_category g c < 6" for g c by (rule less_le_trans[OF game_category_less count_le])
  then show ?thesis using reset_row_ok[OF ensured_row[OF bucket_of_ok[OF r]]]
    by (auto simp: reset_def Let_def simp del: display_key intro!: put_bucket_ok[OF r] rebuild_bucket_ok bucket_ok_update[OF b] split: option.split)
qed

lemma remove_persona_ok: "ranking_ok r \<Longrightarrow> ranking_ok (snd (remove_persona visible game p r))"
proof -
  assume r: "ranking_ok r"
  have "bucket_ok (AList.delete k (bucket_of g r))" for k g
    using bucket_of_ok[OF r, of g] by (auto simp: bucket_ok_def AList.delete_eq distinct_map intro: inj_on_subset)
  then show ?thesis using bucket_of_ok[OF r]
    by (auto simp: remove_persona_def Let_def intro!: put_bucket_ok[OF r] rebuild_bucket_ok)
qed

lemma row_ok_created: "strip p \<noteq> [] \<Longrightarrow> row_ok (normalize_persona p) (create_stats p vs nos)"
  using create_stats_ok[of p vs nos]
  by (auto simp: row_ok_def normalize_persona_def display_name_def strip_idem create_stats_def)

lemma decode_personas_ok: "decode_personas show migrate ps b = Inr b' \<Longrightarrow> bucket_ok b \<Longrightarrow> bucket_ok b'"
proof (induction ps arbitrary: b)
  case (Cons x ps)
  obtain k v where x: "x = (k, v)" by (cases x)
  have "strip (document_persona show k v) = document_persona show k v" by (simp add: document_persona_def strip_idem)
  then have "row_ok (normalize_persona (document_persona show k v)) s" if "create_from (document_persona show k v) vs nos = Inr s" "document_persona show k v \<noteq> []"
    for vs nos s
    using that row_ok_created[of "document_persona show k v"] by (auto simp: create_from_def rbind_eq_Inr)
  then show ?case using Cons.prems
    by (auto simp: x Let_def rbind_eq_Inr intro: Cons.IH Cons.IH[OF _ bucket_ok_update] split: json.splits if_splits)
qed simp

lemma decode_buckets_ok: "decode_buckets show version gs r = Inr r' \<Longrightarrow> ranking_ok r \<Longrightarrow> ranking_ok r'"
proof (induction gs arbitrary: r)
  case (Cons x gs)
  obtain g v where x: "x = (g, v)" by (cases x)
  have "ranking_ok (AList.update g b r)" if "bucket_ok b" for b using put_bucket_ok[OF Cons.prems(2) that] by (simp add: put_bucket_def)
  then show ?case using Cons decode_personas_ok[OF _ bucket_ok_Nil]
    by (fastforce simp: x rbind_eq_Inr split: json.splits option.splits)
qed simp

lemma adopt_ok: "adopt_document visible show doc = Inr r \<Longrightarrow> ranking_ok r \<and> ranked_store visible r"
proof -
  assume "adopt_document visible show doc = Inr r"
  then obtain r0 where d: "decode_games show doc = Inr r0" and r: "r = map (\<lambda>(g, b). (g, rebuild_bucket visible g b)) r0"
    by (auto simp: adopt_document_def rbind_eq_Inr)
  have "ranking_ok r0"
  proof (cases "case dict_field ''games'' doc of None \<Rightarrow> J_Dict [] | Some x \<Rightarrow> x")
    case (J_Dict games)
    then show ?thesis using d decode_buckets_ok[OF _ ranking_ok_Nil] by (auto simp: decode_games_def rbind_eq_Inr)
  qed (use d in \<open>auto simp: decode_games_def rbind_eq_Inr ranking_ok_Nil\<close>)
  moreover have "map fst r = map fst r0" by (simp add: r case_prod_unfold comp_def)
  ultimately show ?thesis using rebuild_bucket_ok by (auto simp: ranking_ok_def ranked_store_def r simp del: map_map)
qed

lemma rank_call_ok: "ranking_ok r \<Longrightarrow> ranking_ok (run_rank_call visible show c r)"
  by (cases c) (auto simp: get_or_create_ok leaderboard_ok ranking_result_ok reset_ok remove_persona_ok
      dest: update_fields_ok adopt_ok split: sum.split)

lemma run_ranking_ok: "ranking_ok (run_ranking visible show cs)"
proof -
  have "ranking_ok r \<Longrightarrow> ranking_ok (fold (run_rank_call visible show) cs r)" for r
    by (induction cs arbitrary: r) (auto simp: rank_call_ok)
  then show ?thesis by (simp add: run_ranking_def ranking_ok_Nil)
qed

text \<open>
  C35. Statistics stay well typed: whatever is reported, edited, reset or loaded from a document,
  every row of every game has 42 non-negative counters and 6 non-negative amounts, and is filed
  under the folded form of its own trimmed, non-empty persona, once.
\<close>

theorem statistics_well_typed:
  "ranking_ok (run_ranking visible show cs)"
  by (rule run_ranking_ok)


end
