(* ===== verification/ClassicStandings.thy ===== *)
theory ClassicStandings
  imports ClassicBoards
begin

text \<open>
  The leaderboards of the classic server: stored ratings are positions, a result counts once,
  and a saved store is read back.
\<close>

section \<open>Ratings are positions\<close>

lemma ranked_map:
  assumes "\<And>k s c. (k, s) \<in> set b \<Longrightarrow> board_key c (f k s) = board_key c s \<and> visible (ps_persona (f k s)) = visible (ps_persona s) \<and>
      get_stat (int c) ''rating'' (f k s) = get_stat (int c) ''rating'' s"
  shows "ranked visible n (map (\<lambda>(k, s). (k, f k s)) b) = ranked visible n b"
proof -
  have ord: "ordered_rows visible c (map (\<lambda>(k, s). (k, f k s)) b) = map (\<lambda>(k, s). (k, f k s)) (ordered_rows visible c b)" for c
    by (rule ordered_rows_map) (use assms in blast)
  have "map (\<lambda>(_, s). get_stat (int c) ''rating'' s) (map (\<lambda>(k, s). (k, f k s)) (ordered_rows visible c b)) =
      map (\<lambda>(_, s). get_stat (int c) ''rating'' s) (ordered_rows visible c b)" for c
    unfolding map_map by (rule map_cong) (auto simp: ordered_rows_set assms)
  then show ?thesis unfolding ranked_def ord by (simp only: length_map)
qed

lemma update_as_map: "distinct (map fst b) \<Longrightarrow> map_of b k = Some s \<Longrightarrow>
    AList.update k v b = map (\<lambda>(k', s'). (k', if k' = k then v else s')) b"
proof (induction b)
  case (Cons x b)
  have "map (\<lambda>(k', s'). (k', if k' = k then v else s')) b = b" if "k \<notin> fst ` set b"
    using that by (intro map_idI) force
  then show ?case using Cons by (cases x) auto
qed simp

definition folds_case :: "(string \<Rightarrow> bool) \<Rightarrow> bool" where
  "folds_case visible = (\<forall>p q. casefold p = casefold q \<longrightarrow> visible p = visible q)"

lemma ranked_rename:
  assumes "bucket_ok b" and "map_of b k = Some s" and "k = casefold q" and "folds_case visible" and "ranked visible n b"
  shows "ranked visible n (AList.update k (s\<lparr>ps_persona := q\<rparr>) b)"
proof -
  have d: "distinct (map fst b)" using assms(1) by (simp add: bucket_ok_def)
  have same: "casefold q = casefold (ps_persona s)" using bucket_row[OF assms(1,2)] assms(3) by (simp add: row_ok_def)
  have "ranked visible n (map (\<lambda>(k', s'). (k', if k' = k then s\<lparr>ps_persona := q\<rparr> else s')) b) = ranked visible n b"
  proof (rule ranked_map)
    fix k' s' c assume "(k', s') \<in> set b"
    then have "map_of b k' = Some s'" using d by simp
    then have "k' = k \<Longrightarrow> s' = s" using assms(2) by simp
    moreover have "visible q = visible (ps_persona s)" using assms(4) same unfolding folds_case_def by blast
    ultimately show "board_key c (if k' = k then s\<lparr>ps_persona := q\<rparr> else s') = board_key c s' \<and>
        visible (ps_persona (if k' = k then s\<lparr>ps_persona := q\<rparr> else s')) = visible (ps_persona s') \<and>
        get_stat (int c) ''rating'' (if k' = k then s\<lparr>ps_persona := q\<rparr> else s') = get_stat (int c) ''rating'' s'"
      using same by (cases "k' = k") (simp_all add: board_key_def get_stat_def)
  qed
  then show ?thesis using assms(5) by (simp add: update_as_map[OF d assms(2)])
qed

lemma ranked_hidden:
  assumes "\<not> visible (display_name p)" and "ranked visible n b"
  shows "ranked visible n (ensure_row k (display_name p) b)"
proof -
  have "ordered_rows visible c (ensure_row k (display_name p) b) = ordered_rows visible c b" for c
    using assms(1) by (simp add: ensure_row_def ordered_rows_def new_stats_def create_stats_def)
  then show ?thesis using assms(2) unfolding ranked_def by simp
qed

lemma ranked_store_Nil: "ranked_store visible []"
  by (simp add: ranked_store_def)

lemma rebuilt_ranked: "bucket_ok b \<Longrightarrow> ranked_store visible r \<Longrightarrow> ranked_store visible (put_bucket g (rebuild_bucket visible g b) r)"
  by (intro put_bucket_ranked rebuild_bucket_ok(2))

lemma rank_call_ranked:
  assumes "folds_case visible" and r: "ranking_ok r" and "ranked_store visible r"
  shows "ranked_store visible (run_rank_call visible show c r)"
proof (cases c)
  case (Get_Or_Create game p)
  define b where "b = bucket_of (game_key game) r"
  have b: "bucket_ok b" "ranked visible (game_category_count (game_key game)) b"
    unfolding b_def by (rule bucket_of_ok[OF r], rule bucket_of_ranked[OF assms(3)])
  show ?thesis
  proof (cases "map_of b (casefold (display_name p))")
    case None
    have "row_ok (casefold (display_name p)) (new_stats (display_name p))" using row_ok_new[of _ "display_name p"] by simp
    then have "bucket_ok (b @ [(casefold (display_name p), new_stats (display_name p))])" by (rule bucket_ok_snoc[OF b(1) None])
    from rebuilt_ranked[OF this assms(3)] None show ?thesis
      by (simp add: Get_Or_Create get_or_create_def Let_def flip: b_def)
  next
    case (Some s)
    from put_bucket_ranked[OF assms(3) ranked_rename[OF b(1) Some refl assms(1) b(2)]] Some show ?thesis
      by (simp add: Get_Or_Create get_or_create_def Let_def flip: b_def)
  qed
next
  case (Leaderboard game c start limit p)
  have "bucket_ok (if normalize_persona p = [] then bucket_of (game_key game) r
      else ensure_row (normalize_persona p) p (bucket_of (game_key game) r))"
    using bucket_of_ok[OF r] ensure_named_ok[OF bucket_of_ok[OF r] refl] by simp
  from rebuilt_ranked[OF this assms(3)] show ?thesis by (simp add: Leaderboard leaderboard_def Let_def)
next
  case (Ranking_Result game p c outcome opponents nos)
  define k where "k = normalize_persona (display_name p)"
  define b where "b = ensure_row k (display_name p) (bucket_of (game_key game) r)"
  define s where "s = (row_of k b)\<lparr>ps_persona := display_name p\<rparr>"
  define ops where "ops = [p \<leftarrow> map strip opponents. p \<noteq> [] \<and> normalize_persona p \<noteq> k]"
  have b: "bucket_ok b" unfolding b_def k_def by (rule bucket_ok_ensure[OF bucket_of_ok[OF r]]) simp_all
  have s: "row_ok k s" unfolding s_def b_def k_def by (rule ensured_row[OF bucket_of_ok[OF r]])
  have o: "bucket_ok (fold (\<lambda>p. ensure_row (normalize_persona p) p) ops b)"
    by (rule fold_ensure_ok[OF b]) (auto simp: ops_def strip_idem)
  have hid: "ranked visible (game_category_count (game_key game)) (AList.update k s b)" if "\<not> visible (display_name p)"
    unfolding s_def
  proof (rule ranked_rename[OF b _ _ assms(1)])
    show "map_of b k = Some (row_of k b)" unfolding b_def by (rule map_of_row_of)
    show "k = casefold (display_name p)" by (simp add: k_def)
    show "ranked visible (game_category_count (game_key game)) b" unfolding b_def
      by (rule ranked_hidden[OF that bucket_of_ranked[OF assms(3)]])
  qed
  show ?thesis using put_bucket_ranked[OF assms(3) hid]
      rebuilt_ranked[OF bucket_ok_update[OF o bumped_row_ok[OF s]] assms(3)]
      rebuilt_ranked[OF bucket_ok_update[OF o opponents_row_ok[OF bumped_row_ok[OF s]]] assms(3)]
    unfolding Ranking_Result run_rank_call.simps ranking_result_def Let_def k_def[symmetric] b_def[symmetric] s_def[symmetric] ops_def[symmetric]
    by (cases "ops = []") simp_all
next
  case (Update_Fields game p c updates relative)
  have b: "bucket_ok (ensure_row (normalize_persona (display_name p)) (display_name p) (bucket_of (game_key game) r))"
    by (rule bucket_ok_ensure[OF bucket_of_ok[OF r]]) simp_all
  show ?thesis using assms(3) updated_row_ok[OF ensured_row[OF bucket_of_ok[OF r]]]
    by (auto simp: Update_Fields update_fields_def rbind_def Let_def simp del: display_key
        intro!: rebuilt_ranked bucket_ok_update[OF b] split: sum.split)
next
  case (Reset game p c)
  have b: "bucket_ok (ensure_row (normalize_persona (display_name p)) (display_name p) (bucket_of (game_key game) r))"
    by (rule bucket_ok_ensure[OF bucket_of_ok[OF r]]) simp_all
  have "game_category g c < 6" for g c by (rule less_le_trans[OF game_category_less count_le])
  then show ?thesis using assms(3) reset_row_ok[OF ensured_row[OF bucket_of_ok[OF r]]]
    by (auto simp: Reset reset_def Let_def simp del: display_key intro!: rebuilt_ranked bucket_ok_update[OF b] split: option.split)
next
  case (Remove_Persona game p)
  have "bucket_ok (AList.delete k (bucket_of g r))" for k g
    using bucket_of_ok[OF r, of g] by (auto simp: bucket_ok_def AList.delete_eq distinct_map intro: inj_on_subset)
  then show ?thesis using assms(3) bucket_of_ranked[OF assms(3)]
    by (auto simp: Remove_Persona remove_persona_def Let_def intro!: rebuild_bucket_ok(2) put_bucket_ranked)
next
  case (Reload doc)
  then show ?thesis using assms(3) by (auto dest: adopt_ok split: sum.split)
qed

lemma run_ranking_ranked: "folds_case visible \<Longrightarrow> ranked_store visible (run_ranking visible show cs)"
proof -
  assume v: "folds_case visible"
  have "ranking_ok r \<Longrightarrow> ranked_store visible r \<Longrightarrow> ranked_store visible (fold (run_rank_call visible show) cs r)" for r
    by (induction cs arbitrary: r) (auto simp: rank_call_ok rank_call_ranked[OF v])
  then show ?thesis by (simp add: run_ranking_def ranking_ok_Nil ranked_store_Nil)
qed


section \<open>Windows\<close>

text \<open>
  A leaderboard page shows consecutive places: after any calls, the rows from \<open>start\<close> on, at
  most \<open>limit\<close> of them, carry the ratings \<open>start + 1\<close>, \<open>start + 2\<close> and so on in the category asked for,
  and there are as many as fit.
\<close>

theorem leaderboard_page:
  fixes str_of :: "json \<Rightarrow> string" and cs :: "rank_call list"
  assumes "leaderboard visible game c start limit p (run_ranking visible str_of cs) = (rows, r)"
  defines "category \<equiv> game_category (game_key game) c" and "first \<equiv> nat (max 0 start)"
  shows "map (get_stat (int category) ''rating'') rows = map int [Suc first..<Suc first + length rows] \<and>
    length rows = min (nat (max 0 limit)) (length (ordered_rows visible category (bucket_of (game_key game) r)) - first)"
proof -
  define b0 where "b0 = (if normalize_persona p = [] then bucket_of (game_key game) (run_ranking visible str_of cs)
      else ensure_row (normalize_persona p) p (bucket_of (game_key game) (run_ranking visible str_of cs)))"
  define b where "b = rebuild_bucket visible (game_key game) b0"
  define xs where "xs = ordered_rows visible category b"
  define n where "n = nat (max 0 limit)"
  have "bucket_ok b0" using bucket_of_ok[OF run_ranking_ok] ensure_named_ok[OF bucket_of_ok[OF run_ranking_ok] refl]
    by (simp add: b0_def)
  then have b: "bucket_ok b" "ranked visible (game_category_count (game_key game)) b"
    unfolding b_def by (rule rebuild_bucket_ok)+
  have ratings: "map (\<lambda>(_, s). get_stat (int category) ''rating'' s) xs = map int [1..<Suc (length xs)]"
    using b(2) game_category_less[of "game_key game" c] unfolding ranked_def xs_def category_def by blast
  have r: "rows = map (\<lambda>(_, s). copy_stats s) (slice first (first + n) xs)" "bucket_of (game_key game) r = b"
    using assms(1) by (auto simp: leaderboard_def Let_def b_def b0_def xs_def first_def category_def n_def)
  have "copy_stats s = s" if "(k, s) \<in> set (slice first (first + n) xs)" for k s
  proof -
    have "(k, s) \<in> set b" using that by (auto simp: slice_def xs_def ordered_rows_set dest!: in_set_takeD in_set_dropD)
    then show ?thesis using b(1) copy_stats_id by (auto simp: bucket_ok_def row_ok_def)
  qed
  then have rows: "rows = map snd (slice first (first + n) xs)" unfolding r(1) by (intro map_cong) auto
  then have "map (get_stat (int category) ''rating'') rows = slice first (first + n) (map (\<lambda>(_, s). get_stat (int category) ''rating'' s) xs)"
    by (simp add: slice_def take_map drop_map comp_def case_prod_unfold)
  also have "\<dots> = map int (slice first (first + n) [1..<Suc (length xs)])" unfolding ratings by (simp add: slice_def take_map drop_map del: upt_Suc)
  also have "slice first (first + n) [1..<Suc (length xs)] = [Suc first..<Suc first + length rows]"
    by (rule nth_equalityI) (auto simp: rows slice_def nth_take nth_drop simp del: upt_Suc)
  finally show ?thesis by (simp add: rows r(2) xs_def n_def)
qed

section \<open>Counting\<close>

definition counted :: "nat \<Rightarrow> player_stats \<Rightarrow> int" where
  "counted c s = get_stat (int c) ''wins'' s + get_stat (int c) ''losses'' s + get_stat (int c) ''disconnects'' s"

lemma counted_set_other:
  "stats_ok s \<Longrightarrow> f \<notin> {''wins'', ''losses'', ''disconnects''} \<Longrightarrow> counted c (set_stat t f v s) = counted c s"
  by (auto simp: counted_def get_set_stat)

lemma get_stat_same_category: "category_index t = category_index u \<Longrightarrow> get_stat t f s = get_stat u f s"
  by (simp add: get_stat_def cell_offset_def split: option.split)

lemma counted_step:
  assumes "stats_ok s" and "c < 6" and "f \<in> {''wins'', ''losses'', ''disconnects''}"
  shows "counted c (set_stat t f (get_stat t f s + 1) s) = counted c s + (if c = category_index t then 1 else 0)"
proof -
  have "0 \<le> get_stat (int (category_index t)) f s" by (rule get_stat_nonneg[OF assms(1)])
  then show ?thesis using assms get_stat_same_category[of t "int c" f s]
    by (elim insertE emptyE) (simp_all add: counted_def get_set_stat)
qed

lemma counted_bump_one: "stats_ok s \<Longrightarrow> c < 6 \<Longrightarrow> counted c (bump_one outcome t s) = counted c s + (if c = category_index t then 1 else 0)"
  by (simp add: bump_one_def Let_def counted_set_other set_stat_ok counted_step del: if_split)

lemma bump_one_ok: "stats_ok s \<Longrightarrow> stats_ok (bump_one outcome t s)"
  by (simp add: bump_one_def Let_def set_stat_ok)

lemma counted_nos: "counted c (add_mw_nos_used t q agg s) = counted c s"
  by (simp add: counted_def add_mw_nos_used_def result_targets_def get_stat_def split: option.split)

lemma counted_opponents: "stats_ok s \<Longrightarrow> counted c (fold (set_opponents rows) ts s) = counted c s"
proof (induction ts arbitrary: s)
  case (Cons t ts)
  have "counted c (set_opponents rows t s) = counted c s"
    using Cons.prems by (simp add: set_opponents_def Let_def counted_set_other set_stat_ok)
  then show ?case using Cons set_opponents_keeps by simp
qed simp

lemma counted_bump: "stats_ok s \<Longrightarrow> c < 6 \<Longrightarrow> category < 6 \<Longrightarrow>
    counted c (bump_result (int category) outcome agg s) = counted c s + (if c = category \<or> agg \<and> c = 0 then 1 else 0)"
  using category_index_id[of 0] by (auto simp: bump_result_def result_targets_def counted_bump_one bump_one_ok)

definition same_but_rating :: "player_stats \<Rightarrow> player_stats \<Rightarrow> bool" where
  "same_but_rating s s' = (stats_ok s \<and> stats_ok s' \<and> ps_persona s' = ps_persona s \<and> ps_nos s' = ps_nos s \<and>
     (\<forall>c f. f \<noteq> ''rating'' \<longrightarrow> get_stat c f s' = get_stat c f s))"

lemma get_set_other: "stats_ok s \<Longrightarrow> f \<noteq> g \<Longrightarrow> get_stat c f (set_stat d g v s) = get_stat c f s"
  by (cases "field_index f") (simp_all add: get_set_stat, simp add: get_stat_def)

lemma same_rating_set: "stats_ok s \<Longrightarrow> same_but_rating s (set_stat c ''rating'' v s)"
  by (simp add: same_but_rating_def set_stat_ok get_set_other)

lemma same_trans: "same_but_rating a b \<Longrightarrow> same_but_rating b c \<Longrightarrow> same_but_rating a c"
  by (simp add: same_but_rating_def)

lemma map_of_mapped: "map_of (map (\<lambda>(k, s). (k, f k s)) b) k = map_option (f k) (map_of b k)"
  by (induction b) auto

lemma rebuild_same: "bucket_ok b \<Longrightarrow> n \<le> 6 \<Longrightarrow> map_of b k = Some s \<Longrightarrow>
    \<exists>s'. map_of (rebuild_ratings visible n b) k = Some s' \<and> same_but_rating s s'"
proof (induction n)
  case 0
  then show ?case using bucket_row[OF 0(1,3)] by (simp add: rebuild_ratings_def same_but_rating_def row_ok_def)
next
  case (Suc n)
  define b1 where "b1 = rebuild_ratings visible n b"
  have b1: "bucket_ok b1" unfolding b1_def using rebuild_ranked[of b n visible] Suc.prems by simp
  obtain s1 where s1: "map_of b1 k = Some s1" "same_but_rating s s1" using Suc by (auto simp: b1_def)
  have "n < 6" using Suc.prems by simp
  from rank_category_facts[OF b1 this, of visible] obtain f where
    f: "rank_category visible n b1 = map (\<lambda>(k, s). (k, f k s)) b1"
       "\<And>k s. (k, s) \<in> set b1 \<Longrightarrow> f k s = s \<or> (\<exists>v. f k s = set_stat (int n) ''rating'' v s)" by blast
  have "stats_ok s1" using bucket_row[OF b1 s1(1)] by (simp add: row_ok_def)
  then have "same_but_rating s1 (f k s1)" using f(2)[OF map_of_SomeD[OF s1(1)]] same_rating_set by (auto simp: same_but_rating_def)
  then show ?case using s1 same_trans by (auto simp: rebuild_ratings_def b1_def[unfolded rebuild_ratings_def, symmetric] f(1) map_of_mapped)
qed

lemma same_counted: "same_but_rating s s' \<Longrightarrow> counted c s' = counted c s"
  by (simp add: same_but_rating_def counted_def)

lemma ensure_keeps: "map_of b k = Some s \<Longrightarrow> map_of (ensure_row k' p b) k = Some s"
  by (auto simp: ensure_row_lookup)

lemma fold_ensure_lookup: "map_of b k = Some s \<Longrightarrow> map_of (fold (\<lambda>p. ensure_row (normalize_persona p) p) ps b) k = Some s"
  by (induction ps arbitrary: b) (simp_all add: ensure_keeps)


text \<open>
  C36. A result counts once.  After any calls, reporting a result of a visible persona raises his wins,
  losses and disconnects together by exactly one in the category played, and for Most Wanted
  in the aggregate category too, in no other; nobody else's row changes except for the
  ratings, no other game changes, and the answer shows his new counters.
\<close>

theorem result_counts_once:
  fixes visible :: "string \<Rightarrow> bool" and str_of :: "json \<Rightarrow> string" and cs :: "rank_call list" and game :: game_ref and p :: string
  defines "r \<equiv> run_ranking visible str_of cs" and "g \<equiv> game_key game" and "k \<equiv> normalize_persona (display_name p)"
  assumes "visible (display_name p)" and "ranking_result visible game p c outcome opponents nos r = (answer, r')"
  shows "\<exists>s'. map_of (bucket_of g r') k = Some s' \<and> answer = rank_summary_of (int (game_category g c)) s' \<and>
    (\<forall>c' < 6. counted c' s' = counted c' (row_of k (ensure_row k (display_name p) (bucket_of g r))) +
       (if c' = game_category g c \<or> g = game_value MOST_WANTED \<and> c' = 0 then 1 else 0)) \<and>
    (\<forall>k2 s2. k2 \<noteq> k \<longrightarrow> map_of (bucket_of g r) k2 = Some s2 \<longrightarrow>
       (\<exists>s3. map_of (bucket_of g r') k2 = Some s3 \<and> same_but_rating s2 s3)) \<and>
    (\<forall>g2. g2 \<noteq> g \<longrightarrow> map_of r' g2 = map_of r g2)"
proof -
  have r: "ranking_ok r" unfolding r_def by (rule run_ranking_ok)
  define category where "category = game_category g c"
  define agg where "agg = (g = game_value MOST_WANTED)"
  define b where "b = ensure_row k (display_name p) (bucket_of g r)"
  define s where "s = (row_of k b)\<lparr>ps_persona := display_name p\<rparr>"
  define ops where "ops = [p \<leftarrow> map strip opponents. p \<noteq> [] \<and> normalize_persona p \<noteq> k]"
  define b1 where "b1 = fold (\<lambda>p. ensure_row (normalize_persona p) p) ops b"
  define rows where "rows = map (\<lambda>p. row_of (normalize_persona p) b1) ops"
  define s1 where "s1 = add_mw_nos_used (int category) nos agg (bump_result (int category) outcome agg s)"
  define s2 where "s2 = (if rows = [] then s1 else fold (set_opponents rows) (result_targets category agg) s1)"
  define b2 where "b2 = AList.update k s2 b1"
  have res: "r' = put_bucket g (rebuild_bucket visible g b2) r"
      "answer = rank_summary_of (int category) (row_of k (rebuild_bucket visible g b2))"
    using assms(4,5)
    unfolding ranking_result_def Let_def g_def[symmetric] k_def[symmetric] b_def[symmetric] s_def[symmetric] ops_def[symmetric]
      b1_def[symmetric] rows_def[symmetric] category_def[symmetric] agg_def[symmetric] s1_def[symmetric] s2_def[symmetric] b2_def[symmetric]
    by simp_all
  have b: "bucket_ok b" unfolding b_def k_def by (rule bucket_ok_ensure[OF bucket_of_ok[OF r]]) simp_all
  have s: "row_ok k s" unfolding s_def b_def k_def by (rule ensured_row[OF bucket_of_ok[OF r]])
  have b1: "bucket_ok b1" unfolding b1_def by (rule fold_ensure_ok[OF b]) (auto simp: ops_def strip_idem)
  have s1: "row_ok k s1" unfolding s1_def by (rule bumped_row_ok[OF s])
  have "row_ok k s2" unfolding s2_def using s1 opponents_row_ok[OF s1] by simp
  then have b2: "bucket_ok b2" unfolding b2_def by (rule bucket_ok_update[OF b1])
  have same: "\<exists>s'. map_of (rebuild_bucket visible g b2) k2 = Some s' \<and> same_but_rating s0 s'" if "map_of b2 k2 = Some s0" for k2 s0
    unfolding rebuild_bucket_def by (rule rebuild_same[OF b2 count_le that])
  have "map_of b2 k = Some s2" by (simp add: b2_def AList.update_conv')
  from same[OF this] obtain s' where s': "map_of (rebuild_bucket visible g b2) k = Some s'" "same_but_rating s2 s'" by blast
  have "category < 6" unfolding category_def by (rule less_le_trans[OF game_category_less count_le])
  then have "counted c' s' = counted c' (row_of k b) + (if c' = category \<or> agg \<and> c' = 0 then 1 else 0)" if "c' < 6" for c'
  proof -
    assume cat: "category < 6"
    have "counted c' s' = counted c' s1" using same_counted[OF s'(2)] counted_opponents[of s1] s1 by (simp add: s2_def row_ok_def)
    also have "\<dots> = counted c' s + (if c' = category \<or> agg \<and> c' = 0 then 1 else 0)"
      unfolding s1_def counted_nos by (rule counted_bump) (use s that cat in \<open>simp_all add: row_ok_def\<close>)
    also have "counted c' s = counted c' (row_of k b)" by (simp add: s_def counted_def get_stat_def split: option.split)
    finally show ?thesis .
  qed
  moreover have "\<exists>s3. map_of (rebuild_bucket visible g b2) k2 = Some s3 \<and> same_but_rating s0 s3"
    if "k2 \<noteq> k" "map_of (bucket_of g r) k2 = Some s0" for k2 s0
  proof (rule same)
    have "map_of b1 k2 = Some s0" unfolding b1_def b_def by (rule fold_ensure_lookup, rule ensure_keeps, rule that(2))
    then show "map_of b2 k2 = Some s0" using that(1) by (simp add: b2_def AList.update_conv')
  qed
  ultimately show ?thesis using s'(1) res
    by (simp add: category_def agg_def row_of_def put_bucket_def AList.update_conv' flip: b_def) (simp flip: put_bucket_def)
qed

section \<open>Saving and loading\<close>

lemma read_values: "stats_ok s \<Longrightarrow> read_cells safe_nonnegative STAT_VALUE_COUNT (J_List (map J_Int (ps_values s))) = Inr (ps_values s)"
proof -
  assume s: "stats_ok s"
  have "convert_all safe_nonnegative (map J_Int vs) = Inr vs" if "\<forall>v \<in> set vs. 0 \<le> v" for vs
    using that by (induction vs) (simp_all add: safe_nonnegative_def int_of_json_def)
  with s show ?thesis by (simp add: read_cells_def iterate_def stats_ok_def)
qed

lemma read_nos: "stats_ok s \<Longrightarrow> read_cells safe_nonnegative_float STAT_CATEGORY_COUNT (J_List (map (\<lambda>q. J_Float (Fin q)) (ps_nos s))) = Inr (ps_nos s)"
proof -
  assume s: "stats_ok s"
  have "convert_all safe_nonnegative_float (map (\<lambda>q. J_Float (Fin q)) vs) = Inr vs" if "\<forall>v \<in> set vs. 0 \<le> v" for vs
    using that by (induction vs) (simp_all add: safe_nonnegative_float_def float_of_json_def finite_nonnegative_def)
  with s show ?thesis by (simp add: read_cells_def iterate_def stats_ok_def)
qed

lemma read_row: "row_ok k s \<Longrightarrow> document_persona str_of k (stats_to_dict s) = ps_persona s \<and>
    create_from (ps_persona s) (field_or_null ''values'' (stats_to_dict s)) (field_or_null ''mw_nos_used'' (stats_to_dict s)) = Inr s"
  using read_values[of s] read_nos[of s] copy_stats_id[of s]
  by (simp add: row_ok_def document_persona_def stats_to_dict_def field_or_null_def dict_field_def create_from_def copy_stats_def
      del: size_values)

lemma decode_saved_personas:
  "\<forall>(k, s) \<in> set ps. row_ok k s \<Longrightarrow> distinct (map fst (b @ ps)) \<Longrightarrow>
    decode_personas str_of False (map (\<lambda>(k, s). (k, stats_to_dict s)) ps) b = Inr (b @ ps)"
proof (induction ps arbitrary: b)
  case (Cons x ps)
  obtain k s where x: "x = (k, s)" by (cases x)
  have s: "row_ok k s" using Cons.prems(1) by (simp add: x)
  have "normalize_persona (ps_persona s) = k" "ps_persona s \<noteq> []" using s by (simp_all add: row_ok_def normalize_persona_def)
  moreover have "AList.update k s b = b @ [(k, s)]" by (rule update_snoc) (use Cons.prems(2) in \<open>simp add: x\<close>)
  moreover have "\<exists>d. stats_to_dict s = J_Dict d" by (simp add: stats_to_dict_def)
  ultimately show ?case using Cons.IH[of "b @ [(k, s)]"] Cons.prems read_row[OF s, of str_of] by (auto simp: x Let_def)
qed simp

lemma distinct_sorted_keys: "distinct (map fst xs) \<Longrightarrow> distinct (map fst (sort_key fst xs))"
  by (rule distinct_keys_sort)

lemma decode_saved_buckets:
  "\<forall>(g, b) \<in> set gs. bucket_ok b \<Longrightarrow> distinct (map fst (r @ gs)) \<Longrightarrow>
    decode_buckets str_of STORE_VERSION (map (\<lambda>(g, b). (g, J_Dict [(''personas'', J_Dict (map (\<lambda>(k, s). (k, stats_to_dict s)) (sort_key fst b)))])) gs) r =
      Inr (r @ map (\<lambda>(g, b). (g, sort_key fst b)) gs)"
proof (induction gs arbitrary: r)
  case (Cons x gs)
  obtain g b where x: "x = (g, b)" by (cases x)
  have b: "bucket_ok b" using Cons.prems(1) by (simp add: x)
  have "decode_personas str_of False (map (\<lambda>(k, s). (k, stats_to_dict s)) (sort_key fst b)) [] = Inr ([] @ sort_key fst b)"
    by (rule decode_saved_personas) (use b distinct_sorted_keys in \<open>auto simp: bucket_ok_def\<close>)
  moreover have "AList.update g (sort_key fst b) r = r @ [(g, sort_key fst b)]"
    by (rule update_snoc) (use Cons.prems(2) in \<open>simp add: x\<close>)
  ultimately show ?case using Cons.IH[of "r @ [(g, sort_key fst b)]"] Cons.prems by (simp add: x dict_field_def)
qed simp



section \<open>Examples\<close>

definition example_calls :: "rank_call list" where
  "example_calls = [Ranking_Result (Game_Id UNDERGROUND2) ''Ann'' 1 ''win'' ['' Bob '', ''ANN''] (Fin 0)]"

definition example_bucket :: bucket where
  "example_bucket = bucket_of ''underground2'' (run_ranking (\<lambda>_. True) (\<lambda>_. []) example_calls)"

lemma example_length: "length (ordered_rows (\<lambda>_. True) 1 example_bucket) = 2"
  unfolding example_bucket_def example_calls_def run_ranking_def by code_simp



theorem leaderboard_page_witness:
  "\<exists>rows r. leaderboard (\<lambda>_. True) (Game_Id UNDERGROUND2) 1 0 100 [] (run_ranking (\<lambda>_. True) (\<lambda>_. []) example_calls) = (rows, r) \<and>
     map (get_stat (int (game_category ''underground2'' 1)) ''rating'') rows = map int [1..<1 + length rows]"
proof -
  obtain rows r where l: "leaderboard (\<lambda>_. True) (Game_Id UNDERGROUND2) 1 0 100 [] (run_ranking (\<lambda>_. True) (\<lambda>_. []) example_calls) = (rows, r)"
    by fastforce
  have "game_key (Game_Id UNDERGROUND2) = ''underground2''" by (simp add: game_key_def game_value_def)
  then show ?thesis using leaderboard_page[OF l] l by (auto simp del: upt_Suc)
qed

theorem result_counts_once_witness:
  "\<exists>s'. map_of (bucket_of ''underground2'' (snd (ranking_result (\<lambda>_. True) (Game_Id UNDERGROUND2) ''Ann'' 1 ''win'' ['' Bob ''] (Fin 0)
       (run_ranking (\<lambda>_. True) (\<lambda>_. []) [])))) ''ann'' = Some s' \<and> counted 1 s' = 1"
proof -
  obtain answer r' where r: "ranking_result (\<lambda>_. True) (Game_Id UNDERGROUND2) ''Ann'' 1 ''win'' ['' Bob ''] (Fin 0)
       (run_ranking (\<lambda>_. True) (\<lambda>_. []) []) = (answer, r')" by fastforce
  have "counted 1 (row_of ''ann'' (ensure_row ''ann'' ''Ann'' (bucket_of ''underground2'' (run_ranking (\<lambda>_. True) (\<lambda>_. []) [])))) = 0"
    unfolding run_ranking_def by code_simp
  moreover have "normalize_persona (display_name ''Ann'') = ''ann''" "display_name ''Ann'' = ''Ann''" by code_simp+
  moreover have "game_key (Game_Id UNDERGROUND2) = ''underground2''" "game_category ''underground2'' 1 = 1"
    by (simp add: game_key_def game_value_def, code_simp)
  ultimately show ?thesis using result_counts_once[of "\<lambda>_. True" "''Ann''", OF TrueI r] r by fastforce
qed


end
