(* ===== verification/Outbound.thy ===== *)
theory Outbound
  imports Confirmations ProtoTunnel CommUdp SessionCodec
begin

text \<open>
  \<open>EndpointPublisher\<close> of \<open>server/carbon/rebroadcaster/outbound.py\<close>: it wraps GameManager bodies in
  CommUDP packets with their reliable sequence numbers, packs them into tunnel datagrams,
  registers them for confirmation and moves the cipher position of the endpoint.  Log lines
  are left out.  The wires are the dictionary the publisher shares with the confirmation
  manager, so both copies are written together; the clock is an argument.
\<close>

section \<open>State\<close>

record publisher =
  pb_key :: bytes
  pb_crypt :: crypt_fn

record outbound =
  ob_wires :: "(address \<times> endpoint_wire_state) list"
  ob_confirmations :: "confirmation_manager option"
  ob_replies :: "(bytes \<times> address) list"

datatype publish_error =
    EmptyKey
  | UnknownDestination address
  | TunnelFailed tunnel_error
  | ActiveFailed session_codec_error
  | EmptyAggregate | AggregateTooLong | HistoryRecordTooLong nat
  | EmptyBatch | BatchTooLong
  | SinglePacketTooLarge

definition new_publisher :: "bytes \<Rightarrow> crypt_fn \<Rightarrow> publish_error + publisher" where
  "new_publisher key crypt = (if key = [] then Inl EmptyKey else Inr \<lparr>pb_key = key, pb_crypt = crypt\<rparr>)"

definition set_wires :: "(address \<times> endpoint_wire_state) list \<Rightarrow> outbound \<Rightarrow> outbound" where
  "set_wires ws ob = ob\<lparr>ob_wires := ws, ob_confirmations := map_option (cm_wires_update (\<lambda>_. ws)) (ob_confirmations ob)\<rparr>"

definition put_wire :: "address \<Rightarrow> endpoint_wire_state \<Rightarrow> outbound \<Rightarrow> outbound" where
  "put_wire a w ob = set_wires (AList.update a w (ob_wires ob)) ob"

definition with_wire :: "address \<Rightarrow> outbound \<Rightarrow> (endpoint_wire_state \<Rightarrow> publish_error + 'a) \<Rightarrow> publish_error + 'a" where
  "with_wire a ob f = (case map_of (ob_wires ob) a of None \<Rightarrow> Inl (UnknownDestination a) | Some w \<Rightarrow> f w)"

definition lift_tunnel :: "tunnel_error + 'a \<Rightarrow> publish_error + 'a" where
  "lift_tunnel r = (case r of Inl e \<Rightarrow> Inl (TunnelFailed e) | Inr x \<Rightarrow> Inr x)"

definition active_packet :: "int \<Rightarrow> int \<Rightarrow> bytes \<Rightarrow> publish_error + tunnel_packet" where
  "active_packet sequence acknowledgement body = (case encode_active sequence acknowledgement body of
      Inl e \<Rightarrow> Inl (ActiveFailed e) | Inr payload \<Rightarrow> Inr \<lparr>tp_channel = 1, tp_payload = payload\<rparr>)"

section \<open>Datagrams\<close>

definition active_sequences :: "tunnel_packet list \<Rightarrow> int list" where
  "active_sequences packets = concat (map (\<lambda>p. case parse_channel_one p of
      Some (Active a) \<Rightarrow> [int (umask 28 (int (ca_sequence a)))] | _ \<Rightarrow> []) packets)"

definition register_window :: "rat \<Rightarrow> address \<Rightarrow> bytes \<Rightarrow> int list \<Rightarrow> string option \<Rightarrow> bool \<Rightarrow> outbound \<Rightarrow> outbound" where
  "register_window now a encoded sequences label application ob =
    (case (label, ob_confirmations ob) of
       (Some l, Some m) \<Rightarrow> if sequences = [] then ob
         else ob\<lparr>ob_confirmations := Some (snd (register a [encoded] (hd sequences) (last sequences) l application now m))\<rparr>
     | _ \<Rightarrow> ob)"

definition cipher_step :: "tunnel_packet list \<Rightarrow> int" where
  "cipher_step packets = max 1 ((int (cipher_region_size packets DEFAULT_ENCRYPTED_CHANNELS) + 3) div 4)"

definition append_datagram ::
  "publisher \<Rightarrow> rat \<Rightarrow> tunnel_datagram \<Rightarrow> address \<Rightarrow> string option \<Rightarrow> bool \<Rightarrow> outbound \<Rightarrow> publish_error + outbound" where
  "append_datagram pb now d a label application ob =
    (let ob = set_wires (dict_setdefault a initial_wire_state (ob_wires ob)) ob
     in with_wire a ob (\<lambda>w.
        rbind (lift_tunnel (encode_tunnel_datagram (pb_crypt pb) d (if ew_tunnel_key w \<noteq> [] then ew_tunnel_key w else pb_key pb)))
        (\<lambda>encoded.
          let ob = ob\<lparr>ob_replies := ob_replies ob @ [(encoded, a)]\<rparr>;
              ob = register_window now a encoded (active_sequences (td_packets d)) label application ob
          in Inr (put_wire a (w\<lparr>ew_next_offset_words := td_offset_words d + cipher_step (td_packets d)\<rparr>) ob))))"

text \<open>Every caller sends at the endpoint's own position.\<close>

definition append_packets ::
  "publisher \<Rightarrow> rat \<Rightarrow> tunnel_packet list \<Rightarrow> address \<Rightarrow> string option \<Rightarrow> bool \<Rightarrow> outbound \<Rightarrow> publish_error + outbound" where
  "append_packets pb now packets a label application ob = with_wire a ob (\<lambda>w.
     append_datagram pb now \<lparr>td_offset_words = ew_next_offset_words w, td_packets = packets\<rparr> a label application ob)"

section \<open>Sequences\<close>

definition take_server_sequence :: "endpoint_wire_state \<Rightarrow> int \<times> endpoint_wire_state" where
  "take_server_sequence w = (let s = int (umask 28 (ew_next_server_sequence w))
     in (s, w\<lparr>ew_next_server_sequence := int (umask 28 (s + 1))\<rparr>))"

definition append_transport_ack :: "publisher \<Rightarrow> rat \<Rightarrow> address \<Rightarrow> outbound \<Rightarrow> publish_error + outbound" where
  "append_transport_ack pb now a ob = with_wire a ob (\<lambda>w.
     append_packets pb now [\<lparr>tp_channel = 1, tp_payload = to_be 4 (umask 28 (ew_next_server_sequence w)) @
       to_be 4 (umask 28 (ew_last_client_sequence w))\<rparr>] a None False ob)"

fun active_bodies_packets :: "endpoint_wire_state \<Rightarrow> bytes list \<Rightarrow> publish_error + tunnel_packet list \<times> endpoint_wire_state" where
  "active_bodies_packets w [] = Inr ([], w)"
| "active_bodies_packets w (body # bodies) =
     (let (s, w) = take_server_sequence w
      in rbind (active_packet s (int (umask 28 (ew_last_client_sequence w))) body) (\<lambda>p.
         rbind (active_bodies_packets w bodies) (\<lambda>(ps, w). Inr (p # ps, w))))"

definition append_active_bodies ::
  "publisher \<Rightarrow> rat \<Rightarrow> address \<Rightarrow> bytes list \<Rightarrow> string option \<Rightarrow> outbound \<Rightarrow> publish_error + outbound" where
  "append_active_bodies pb now a bodies label ob = with_wire a ob (\<lambda>w.
     rbind (active_bodies_packets w bodies) (\<lambda>(packets, w).
       let ob = put_wire a w ob
       in if packets = [] then Inr ob else append_packets pb now packets a label False ob))"

definition append_active_body ::
  "publisher \<Rightarrow> rat \<Rightarrow> address \<Rightarrow> bytes \<Rightarrow> string option \<Rightarrow> bool \<Rightarrow> outbound \<Rightarrow> publish_error + int \<times> outbound" where
  "append_active_body pb now a body label application ob = with_wire a ob (\<lambda>w.
     let (s, w) = take_server_sequence w; ob = put_wire a w ob
     in rbind (active_packet s (int (umask 28 (ew_last_client_sequence w))) body) (\<lambda>p.
        rbind (append_packets pb now [p] a label application ob) (\<lambda>ob. Inr (s, ob))))"

section \<open>Reliable history\<close>

text \<open>The newest record first, then each older one followed by its length in one byte.\<close>

fun append_history :: "bytes list \<Rightarrow> bytes \<Rightarrow> publish_error + bytes" where
  "append_history [] payload = Inr payload"
| "append_history (r # rs) payload =
     (if 0xFF < length r then Inl (HistoryRecordTooLong (length r)) else append_history rs (payload @ r @ [word_of_nat (length r)]))"

definition commudp_aggregate_payload :: "bytes list \<Rightarrow> publish_error + bytes" where
  "commudp_aggregate_payload newest_to_oldest =
    (let records = map (\<lambda>r. r @ [0x04]) newest_to_oldest
     in if records = [] then Inl EmptyAggregate
        else if 16 < length records then Inl AggregateTooLong
        else append_history (tl records) (hd records))"

definition append_active_record_batch ::
  "publisher \<Rightarrow> rat \<Rightarrow> address \<Rightarrow> bytes list \<Rightarrow> string option \<Rightarrow> outbound \<Rightarrow> publish_error + int \<times> outbound" where
  "append_active_record_batch pb now a records label ob =
    (if records = [] then Inl EmptyBatch else if 16 < length records then Inl BatchTooLong
     else with_wire a ob (\<lambda>w.
       let n = int (length records); base = int (umask 28 (ew_next_server_sequence w));
           latest = int (umask 28 (base + n - 1)); sequence = push_bit 28 (n - 1) OR latest
       in rbind (commudp_aggregate_payload (rev records)) (\<lambda>payload.
          rbind (active_packet sequence (int (umask 28 (ew_last_client_sequence w))) payload) (\<lambda>p.
            let ob = put_wire a (w\<lparr>ew_next_server_sequence := int (umask 28 (base + n))\<rparr>) ob
            in rbind (append_packets pb now [p] a label False ob) (\<lambda>ob. Inr (latest, ob))))))"

section \<open>Batches\<close>

definition fits_native :: "tunnel_packet list \<Rightarrow> bool" where
  "fits_native candidate =
    (let identity_count = length [p \<leftarrow> candidate. tp_channel p = 7]
     in identity_count \<le> 1 \<and> length candidate - identity_count \<le> NATIVE_MAX_VIRTUAL_PACKETS \<and>
        wire_size candidate \<le> NATIVE_MAX_UDP_BYTES)"

fun split_batches :: "tunnel_packet list \<Rightarrow> tunnel_packet list \<Rightarrow> publish_error + tunnel_packet list list" where
  "split_batches current [] = Inr (if current = [] then [] else [current])"
| "split_batches current (p # ps) =
     (if current \<noteq> [] \<and> \<not> fits_native (current @ [p])
      then if \<not> fits_native [p] then Inl SinglePacketTooLarge
           else rbind (split_batches [p] ps) (\<lambda>bs. Inr (current # bs))
      else if \<not> fits_native (current @ [p]) then Inl SinglePacketTooLarge
           else split_batches (current @ [p]) ps)"

fun append_batches ::
  "publisher \<Rightarrow> rat \<Rightarrow> tunnel_packet list list \<Rightarrow> address \<Rightarrow> string option \<Rightarrow> outbound \<Rightarrow> publish_error + outbound" where
  "append_batches pb now [] a label ob = Inr ob"
| "append_batches pb now (b # bs) a label ob =
     rbind (append_packets pb now b a label False (set_wires (dict_setdefault a initial_wire_state (ob_wires ob)) ob))
       (append_batches pb now bs a label)"

definition append_packet_batches ::
  "publisher \<Rightarrow> rat \<Rightarrow> tunnel_packet list \<Rightarrow> address \<Rightarrow> string option \<Rightarrow> outbound \<Rightarrow> publish_error + nat \<times> outbound" where
  "append_packet_batches pb now packets a label ob =
     rbind (split_batches [] packets) (\<lambda>batches.
     rbind (append_batches pb now batches a label ob) (\<lambda>ob. Inr (length batches, ob)))"

end
