(* ===== verification/OutboundProps.thy ===== *)
theory OutboundProps
  imports Outbound
begin

text \<open>
  What the publisher guarantees: the keystream of an endpoint is never used twice, packets are
  batched without loss, and a batch of records can be read back from its packet.
\<close>

section \<open>Positions\<close>

definition cipher_position :: "outbound \<Rightarrow> address \<Rightarrow> int" where
  "cipher_position ob a = (case map_of (ob_wires ob) a of None \<Rightarrow> 0 | Some w \<Rightarrow> ew_next_offset_words w)"

lemma set_wires_simps [simp]: "ob_wires (set_wires ws ob) = ws" "ob_replies (set_wires ws ob) = ob_replies ob"
  by (simp_all add: set_wires_def)

lemma put_wire_simps [simp]: "ob_wires (put_wire a w ob) = AList.update a w (ob_wires ob)" "ob_replies (put_wire a w ob) = ob_replies ob"
  by (simp_all add: put_wire_def)

lemma register_window_simps [simp]: "ob_wires (register_window now a e s l app ob) = ob_wires ob"
    "ob_replies (register_window now a e s l app ob) = ob_replies ob"
  by (simp_all add: register_window_def split: option.split)

lemma with_wire_Inr: "with_wire a ob f = Inr x \<longleftrightarrow> (\<exists>w. map_of (ob_wires ob) a = Some w \<and> f w = Inr x)"
  by (simp add: with_wire_def split: option.split)

lemma lift_tunnel_Inr [simp]: "lift_tunnel r = Inr x \<longleftrightarrow> r = Inr x"
  by (simp add: lift_tunnel_def split: sum.split)

type_synonym transmission = "address \<times> int \<times> tunnel_packet list"

text \<open>A transmission stands for a reply: the datagram of these packets, enciphered from that position on.\<close>

definition transmitted :: "crypt_fn \<Rightarrow> transmission \<Rightarrow> bytes \<times> address \<Rightarrow> bool" where
  "transmitted crypt t reply = (case t of (a, off, packets) \<Rightarrow> snd reply = a \<and>
     (\<exists>key. encode_tunnel_datagram crypt \<lparr>td_offset_words = off, td_packets = packets\<rparr> key = Inr (fst reply)))"

lemma append_packets_sent:
  assumes "append_packets pb now packets a label app ob = Inr ob'"
  shows "\<exists>encoded. ob_replies ob' = ob_replies ob @ [(encoded, a)] \<and> transmitted (pb_crypt pb) (a, cipher_position ob a, packets) (encoded, a) \<and>
    cipher_position ob' a = cipher_position ob a + cipher_step packets \<and> (\<forall>b. b \<noteq> a \<longrightarrow> cipher_position ob' b = cipher_position ob b)"
  using assms
  by (auto simp: append_packets_def append_datagram_def with_wire_Inr rbind_eq_Inr Let_def transmitted_def cipher_position_def
      AList.update_conv' map_of_setdefault split: if_splits)

lemma cipher_step_covers: "int (cipher_region_size packets DEFAULT_ENCRYPTED_CHANNELS) \<le> 4 * cipher_step packets"
  unfolding cipher_step_def by linarith

section \<open>Runs\<close>

inductive publisher_run :: "publisher \<Rightarrow> outbound \<Rightarrow> transmission list \<Rightarrow> outbound \<Rightarrow> bool" for pb ob where
  Start: "publisher_run pb ob [] ob"
| Send: "publisher_run pb ob sent ob1 \<Longrightarrow> append_packets pb now packets a label app ob1 = Inr ob2 \<Longrightarrow>
    publisher_run pb ob (sent @ [(a, cipher_position ob1 a, packets)]) ob2"
| Keep: "publisher_run pb ob sent ob1 \<Longrightarrow> cipher_position ob2 = cipher_position ob1 \<Longrightarrow> ob_replies ob2 = ob_replies ob1 \<Longrightarrow>
    publisher_run pb ob sent ob2"

definition disjoint_spans :: "transmission list \<Rightarrow> bool" where
  "disjoint_spans sent = sorted_wrt (\<lambda>(a, off, packets) (a', off', packets').
     a = a' \<longrightarrow> 4 * off + int (cipher_region_size packets DEFAULT_ENCRYPTED_CHANNELS) \<le> 4 * off') sent"

lemma publisher_run_sound:
  "publisher_run pb ob sent ob' \<Longrightarrow> disjoint_spans sent \<and>
    (\<forall>(a, off, packets) \<in> set sent. 4 * off + int (cipher_region_size packets DEFAULT_ENCRYPTED_CHANNELS) \<le> 4 * cipher_position ob' a) \<and>
    (\<exists>replies. ob_replies ob' = ob_replies ob @ replies \<and> list_all2 (transmitted (pb_crypt pb)) sent replies)"
proof (induction rule: publisher_run.induct)
  case (Send sent ob1 now packets a label app ob2)
  from append_packets_sent[OF Send.hyps(2)] obtain encoded where
    e: "ob_replies ob2 = ob_replies ob1 @ [(encoded, a)]" "transmitted (pb_crypt pb) (a, cipher_position ob1 a, packets) (encoded, a)"
      "cipher_position ob2 a = cipher_position ob1 a + cipher_step packets" "\<And>b. b \<noteq> a \<Longrightarrow> cipher_position ob2 b = cipher_position ob1 b" by blast
  from Send.IH obtain replies where r: "ob_replies ob1 = ob_replies ob @ replies" "list_all2 (transmitted (pb_crypt pb)) sent replies" by blast
  have step: "0 \<le> cipher_step packets" by (simp add: cipher_step_def)
  have grow: "cipher_position ob1 b \<le> cipher_position ob2 b" for b using e(3) e(4)[of b] step by (cases "b = a") simp_all
  have "disjoint_spans (sent @ [(a, cipher_position ob1 a, packets)])"
    using Send.IH by (auto simp: disjoint_spans_def sorted_wrt_append)
  moreover have "4 * off + int (cipher_region_size ps DEFAULT_ENCRYPTED_CHANNELS) \<le> 4 * cipher_position ob2 b"
    if "(b, off, ps) \<in> set (sent @ [(a, cipher_position ob1 a, packets)])" for b off ps
    using that Send.IH grow[of b] e(3) cipher_step_covers[of packets] by (auto intro: order_trans)
  moreover have "\<exists>replies. ob_replies ob2 = ob_replies ob @ replies \<and>
      list_all2 (transmitted (pb_crypt pb)) (sent @ [(a, cipher_position ob1 a, packets)]) replies"
    using e(1,2) r by (intro exI[of _ "replies @ [(encoded, a)]"]) (simp add: list_all2_appendI)
  ultimately show ?case by blast
qed (auto simp: disjoint_spans_def)

lemma publisher_run_trans: "publisher_run pb ob1 sent2 ob2 \<Longrightarrow> publisher_run pb ob sent1 ob1 \<Longrightarrow> publisher_run pb ob (sent1 @ sent2) ob2"
proof (induction rule: publisher_run.induct)
  case (Send sent obx now packets a label app oby)
  show ?case using publisher_run.Send[OF Send.IH[OF Send.prems] Send.hyps(2)] by simp
next
  case (Keep sent obx oby)
  show ?case using publisher_run.Keep[OF Keep.IH[OF Keep.prems] Keep.hyps(2,3)] .
qed simp

lemma publisher_run_send: "append_packets pb now packets a label app ob = Inr ob' \<Longrightarrow> \<exists>sent. publisher_run pb ob sent ob'"
  by (blast intro: publisher_run.Send publisher_run.Start)

lemma publisher_run_keep_send:
  "append_packets pb now packets a label app ob1 = Inr ob' \<Longrightarrow> cipher_position ob1 = cipher_position ob \<Longrightarrow> ob_replies ob1 = ob_replies ob \<Longrightarrow>
    \<exists>sent. publisher_run pb ob sent ob'"
  by (blast intro: publisher_run.Send publisher_run.Keep publisher_run.Start)

lemma put_wire_position: "map_of (ob_wires ob) a = Some w \<Longrightarrow> ew_next_offset_words w' = ew_next_offset_words w \<Longrightarrow>
    cipher_position (put_wire a w' ob) = cipher_position ob"
  by (auto simp: cipher_position_def AList.update_conv')

lemma setdefault_position: "cipher_position (set_wires (dict_setdefault a initial_wire_state (ob_wires ob)) ob) = cipher_position ob"
  by (rule ext) (auto simp: cipher_position_def map_of_setdefault initial_wire_state_def split: option.split)

lemma active_bodies_offset: "active_bodies_packets w bodies = Inr (ps, w') \<Longrightarrow> ew_next_offset_words w' = ew_next_offset_words w"
  by (induction bodies arbitrary: w ps w') (auto simp: take_server_sequence_def Let_def rbind_eq_Inr)

section \<open>Calls\<close>

datatype publish_call =
    Transport_Ack address
  | Active_Bodies address "bytes list" "string option"
  | Active_Body address bytes "string option" bool
  | Record_Batch address "bytes list" "string option"
  | Packet_Batches address "tunnel_packet list" "string option"
  | Packets address "tunnel_packet list" "string option" bool

fun run_publish_call :: "publisher \<Rightarrow> rat \<Rightarrow> publish_call \<Rightarrow> outbound \<Rightarrow> publish_error + outbound" where
  "run_publish_call pb now (Transport_Ack a) ob = append_transport_ack pb now a ob"
| "run_publish_call pb now (Active_Bodies a bodies label) ob = append_active_bodies pb now a bodies label ob"
| "run_publish_call pb now (Active_Body a body label app) ob = rbind (append_active_body pb now a body label app ob) (\<lambda>(_, ob). Inr ob)"
| "run_publish_call pb now (Record_Batch a records label) ob = rbind (append_active_record_batch pb now a records label ob) (\<lambda>(_, ob). Inr ob)"
| "run_publish_call pb now (Packet_Batches a packets label) ob = rbind (append_packet_batches pb now packets a label ob) (\<lambda>(_, ob). Inr ob)"
| "run_publish_call pb now (Packets a packets label app) ob = append_packets pb now packets a label app ob"

fun run_publisher :: "publisher \<Rightarrow> (rat \<times> publish_call) list \<Rightarrow> outbound \<Rightarrow> publish_error + outbound" where
  "run_publisher pb [] ob = Inr ob"
| "run_publisher pb ((now, c) # cs) ob = rbind (run_publish_call pb now c ob) (run_publisher pb cs)"

lemma append_batches_run: "append_batches pb now bs a label ob = Inr ob' \<Longrightarrow> \<exists>sent. publisher_run pb ob sent ob'"
proof (induction bs arbitrary: ob)
  case (Cons b bs)
  then obtain ob1 where ob1: "append_packets pb now b a label False (set_wires (dict_setdefault a initial_wire_state (ob_wires ob)) ob) = Inr ob1"
    "append_batches pb now bs a label ob1 = Inr ob'" by (auto simp: rbind_eq_Inr)
  from publisher_run_keep_send[OF ob1(1) setdefault_position] obtain s1 where "publisher_run pb ob s1 ob1" by auto
  with Cons.IH[OF ob1(2)] publisher_run_trans show ?case by blast
qed (auto intro: publisher_run.Start)

lemma publish_call_run: "run_publish_call pb now c ob = Inr ob' \<Longrightarrow> \<exists>sent. publisher_run pb ob sent ob'"
proof (cases c)
  case (Active_Bodies a bodies label)
  assume "run_publish_call pb now c ob = Inr ob'"
  then obtain w ps w' where w: "map_of (ob_wires ob) a = Some w" "active_bodies_packets w bodies = Inr (ps, w')"
      "(if ps = [] then Inr (put_wire a w' ob) else append_packets pb now ps a label False (put_wire a w' ob)) = Inr ob'"
    by (auto simp: Active_Bodies append_active_bodies_def with_wire_Inr rbind_eq_Inr Let_def)
  have pos: "cipher_position (put_wire a w' ob) = cipher_position ob" by (rule put_wire_position[OF w(1) active_bodies_offset[OF w(2)]])
  show ?thesis
  proof (cases "ps = []")
    case True
    then show ?thesis using w(3) publisher_run.Keep[OF publisher_run.Start pos] by fastforce
  next
    case False
    then show ?thesis using w(3) publisher_run_keep_send[OF _ pos] by auto
  qed
next
  case (Active_Body a body label app)
  assume "run_publish_call pb now c ob = Inr ob'"
  then obtain w p where w: "map_of (ob_wires ob) a = Some w"
      "append_packets pb now [p] a label app (put_wire a (snd (take_server_sequence w)) ob) = Inr ob'"
    by (auto simp: Active_Body append_active_body_def with_wire_Inr rbind_eq_Inr Let_def case_prod_unfold)
  have "cipher_position (put_wire a (snd (take_server_sequence w)) ob) = cipher_position ob"
    by (rule put_wire_position[OF w(1)]) (simp add: take_server_sequence_def Let_def)
  then show ?thesis using publisher_run_keep_send[OF w(2)] by auto
next
  case (Record_Batch a records label)
  assume "run_publish_call pb now c ob = Inr ob'"
  then obtain w p n where w: "map_of (ob_wires ob) a = Some w"
      "append_packets pb now [p] a label False (put_wire a (w\<lparr>ew_next_server_sequence := n\<rparr>) ob) = Inr ob'"
    by (auto simp: Record_Batch append_active_record_batch_def with_wire_Inr rbind_eq_Inr Let_def split: if_splits)
  have "cipher_position (put_wire a (w\<lparr>ew_next_server_sequence := n\<rparr>) ob) = cipher_position ob"
    by (rule put_wire_position[OF w(1)]) simp
  then show ?thesis using publisher_run_keep_send[OF w(2)] by auto
next
  case (Packet_Batches a packets label)
  then show "run_publish_call pb now c ob = Inr ob' \<Longrightarrow> ?thesis"
    by (auto simp: append_packet_batches_def rbind_eq_Inr dest: append_batches_run)
qed (auto simp: append_transport_ack_def with_wire_Inr dest: publisher_run_send)

lemma run_publisher_run: "run_publisher pb cs ob = Inr ob' \<Longrightarrow> \<exists>sent. publisher_run pb ob sent ob'"
proof (induction cs arbitrary: ob)
  case (Cons c cs)
  then show ?case using publish_call_run publisher_run_trans by (cases c) (fastforce simp: rbind_eq_Inr)
qed (auto intro: publisher_run.Start)


section \<open>Batches\<close>

lemma fits_native_last: "fits_native (ps @ [p]) \<Longrightarrow> fits_native [p]"
  by (auto simp: fits_native_def Let_def wire_size_def NATIVE_MAX_VIRTUAL_PACKETS_def)

lemma split_batches_facts:
  "(current \<noteq> [] \<longrightarrow> fits_native current) \<Longrightarrow>
   (case split_batches current ps of
      Inl e \<Rightarrow> e = SinglePacketTooLarge \<and> (\<exists>p \<in> set ps. \<not> fits_native [p])
    | Inr bs \<Rightarrow> concat bs = current @ ps \<and> (\<forall>b \<in> set bs. b \<noteq> [] \<and> fits_native b) \<and> (\<forall>p \<in> set ps. fits_native [p]))"
proof (induction current ps rule: split_batches.induct)
  case (2 current p ps)
  show ?case
  proof (cases "fits_native (current @ [p])")
    case True
    then have "split_batches current (p # ps) = split_batches (current @ [p]) ps" by simp
    then show ?thesis using 2(2) True fits_native_last[OF True] by (auto split: sum.splits)
  next
    case False
    show ?thesis
    proof (cases "current \<noteq> [] \<and> fits_native [p]")
      case True
      then have "split_batches current (p # ps) = rbind (split_batches [p] ps) (\<lambda>bs. Inr (current # bs))" using False by simp
      then show ?thesis using 2(1) 2(3) True False by (cases "split_batches [p] ps") auto
    next
      case no: False
      then have "split_batches current (p # ps) = Inl SinglePacketTooLarge" "\<not> fits_native [p]"
        using False by (cases "current = []"; simp)+
      then show ?thesis by simp
    qed
  qed
qed auto

text \<open>
  Packets are batched without loss: the batches are the packets in their order, none is empty
  and each fits a native datagram; the only failure is a single packet that does not fit one.
\<close>

theorem batches_complete:
  "case split_batches [] packets of
     Inl e \<Rightarrow> e = SinglePacketTooLarge \<and> (\<exists>p \<in> set packets. \<not> fits_native [p])
   | Inr bs \<Rightarrow> concat bs = packets \<and> (\<forall>b \<in> set bs. b \<noteq> [] \<and> fits_native b)"
  using split_batches_facts[of "[]" packets] by (auto split: sum.splits)

section \<open>Record batches\<close>

text \<open>The receiver's reading of a packet with \<open>n\<close> older records, from its end.\<close>

fun read_history :: "nat \<Rightarrow> bytes \<Rightarrow> bytes list option" where
  "read_history 0 payload = Some [payload]"
| "read_history (Suc n) payload =
    (if payload = [] then None
     else let l = unat (last payload); body = butlast payload in
       if length body < l then None
       else map_option (\<lambda>rs. rs @ [drop (length body - l) body]) (read_history n (take (length body - l) body)))"

lemma read_appended: "append_history rs payload = Inr out \<Longrightarrow> read_history n payload = Some xs \<Longrightarrow>
    read_history (n + length rs) out = Some (xs @ rs)"
proof (induction rs arbitrary: payload n xs)
  case (Cons r rs)
  have r: "length r \<le> 0xFF" and out: "append_history rs (payload @ r @ [word_of_nat (length r)]) = Inr out"
    using Cons.prems(1) by (auto split: if_splits)
  have "butlast (payload @ r @ [word_of_nat (length r)]) = payload @ r" by (metis append_assoc butlast_snoc)
  then have "read_history (Suc n) (payload @ r @ [word_of_nat (length r)]) = Some (xs @ [r])"
    using r Cons.prems(2) by (simp add: Let_def unat_of_nat)
  from Cons.IH[OF out this] show ?case by simp
qed simp

lemma record_batch_payload:
  assumes "commudp_aggregate_payload (rev records) = Inr payload"
  shows "read_history (length records - 1) payload = Some (map (\<lambda>r. r @ [0x04]) (rev records)) \<and> records \<noteq> [] \<and> length records \<le> 16 \<and> payload \<noteq> []"
proof -
  define rs where "rs = map (\<lambda>r. r @ [0x04 :: byte]) (rev records)"
  have p: "rs \<noteq> []" "length rs \<le> 16" "append_history (tl rs) (hd rs) = Inr payload" "length rs = length records"
    using assms by (auto simp: commudp_aggregate_payload_def rs_def Let_def split: if_splits)
  have grow: "append_history xs y = Inr out \<Longrightarrow> y \<noteq> [] \<Longrightarrow> out \<noteq> []" for xs y out
    by (induction xs arbitrary: y) (auto split: if_splits)
  have "hd rs \<noteq> []" using p(1) hd_in_set[of rs] by (auto simp: rs_def)
  then show ?thesis using p read_appended[OF p(3), of 0 "[hd rs]"] grow[OF p(3)] by (simp add: rs_def)
qed

lemma split_nibble: "0 \<le> n \<Longrightarrow> 0 \<le> low \<Longrightarrow> low < 2 ^ 28 \<Longrightarrow> push_bit 28 n OR low = n * 2 ^ 28 + (low :: int)"
proof -
  assume "0 \<le> n" "0 \<le> low" "low < 2 ^ 28"
  then obtain x y :: nat where xy: "n = int x" "low = int y" "y < 2 ^ 28"
    by (metis nonneg_int_cases of_nat_less_numeral_power_cancel_iff)
  have "push_bit 28 (int x) OR int y = int (push_bit 28 x OR y)" by (simp add: of_nat_or_eq push_bit_of_nat)
  then show ?thesis using push_or_nat[OF xy(3), of x] by (simp add: xy)
qed

lemma nibble_parts: "0 \<le> low \<Longrightarrow> low < 2 ^ 28 \<Longrightarrow> (n * 2 ^ 28 + low) div 2 ^ 28 = n \<and> (n * 2 ^ 28 + low) mod 2 ^ 28 = (low :: int)"
  by simp

text \<open>
  C8. A batch of records is one packet that can be read back: the top four bits of its sequence count
  the older records, the low bits are the answered sequence number, the payload read from its
  end gives the records newest first, each with its terminator, and the endpoint's next
  number has moved by the number of records.
\<close>

theorem record_batch_roundtrip:
  assumes "append_active_record_batch pb now a records label ob = Inr (latest, ob')" and "map_of (ob_wires ob) a = Some w"
  shows "\<exists>sequence payload p. encode_active sequence (int (umask 28 (ew_last_client_sequence w))) payload = Inr (tp_payload p) \<and> tp_channel p = 1 \<and>
    sequence div 2 ^ 28 = int (length records) - 1 \<and> sequence mod 2 ^ 28 = latest \<and>
    latest = (ew_next_server_sequence w + int (length records) - 1) mod 2 ^ 28 \<and>
    read_history (nat (sequence div 2 ^ 28)) payload = Some (map (\<lambda>r. r @ [0x04]) (rev records)) \<and>
    append_packets pb now [p] a label False
      (put_wire a (w\<lparr>ew_next_server_sequence := (ew_next_server_sequence w + int (length records)) mod 2 ^ 28\<rparr>) ob) = Inr ob'"
proof -
  define n where "n = int (length records)"
  define base where "base = int (umask 28 (ew_next_server_sequence w))"
  have m: "int (umask 28 v) = v mod 2 ^ 28" for v by (simp add: umask_def)
  obtain payload p where p: "commudp_aggregate_payload (rev records) = Inr payload"
      "active_packet (push_bit 28 (n - 1) OR latest) (int (umask 28 (ew_last_client_sequence w))) payload = Inr p"
      "append_packets pb now [p] a label False (put_wire a (w\<lparr>ew_next_server_sequence := int (umask 28 (base + n))\<rparr>) ob) = Inr ob'"
      "latest = int (umask 28 (base + n - 1))"
    using assms by (auto simp: append_active_record_batch_def with_wire_Inr rbind_eq_Inr Let_def n_def base_def split: if_splits)
  from record_batch_payload[OF p(1)] have r: "read_history (length records - 1) payload = Some (map (\<lambda>r. r @ [0x04]) (rev records))"
      "1 \<le> n" "length records \<noteq> 0" by (auto simp: n_def Suc_le_eq)
  have low: "0 \<le> latest" "latest < 2 ^ 28" by (simp_all add: p(4) m)
  then have s: "push_bit 28 (n - 1) OR latest = (n - 1) * 2 ^ 28 + latest" using r(2) by (intro split_nibble) simp_all
  have enc: "encode_active ((n - 1) * 2 ^ 28 + latest) (int (umask 28 (ew_last_client_sequence w))) payload = Inr (tp_payload p)" "tp_channel p = 1"
    using p(2) unfolding s active_packet_def by (auto split: sum.splits)
  have dm: "((n - 1) * 2 ^ 28 + latest) div 2 ^ 28 = n - 1" "((n - 1) * 2 ^ 28 + latest) mod 2 ^ 28 = latest"
    using nibble_parts[OF low, of "n - 1"] by blast+
  have vals: "latest = (ew_next_server_sequence w + n - 1) mod 2 ^ 28" "int (umask 28 (base + n)) = (ew_next_server_sequence w + n) mod 2 ^ 28"
    unfolding p(4) m base_def by (metis add_diff_eq mod_add_left_eq, metis mod_add_left_eq)
  have "nat (n - 1) = length records - 1" using r(3) by (simp add: n_def nat_diff_distrib)
  then show ?thesis using enc dm vals r(1) p(3)
    by (intro exI[of _ "(n - 1) * 2 ^ 28 + latest"] exI[of _ payload] exI[of _ p]) (simp add: n_def)
qed


section \<open>Examples\<close>

definition sample_address :: address where "sample_address = (''10.0.0.5'', 3658)"

definition sample_publisher :: publisher where
  "sample_publisher = \<lparr>pb_key = [1, 2, 3], pb_crypt = (\<lambda>key offset data. map (\<lambda>b. b XOR 0x5A) data)\<rparr>"

definition sample_outbound :: outbound where
  "sample_outbound = \<lparr>ob_wires = [(sample_address, initial_wire_state)], ob_confirmations = None, ob_replies = []\<rparr>"

definition sample_calls :: "(rat \<times> publish_call) list" where
  "sample_calls = [(0, Active_Body sample_address [0, 0, 0, 0, 0x1C, 4] None False), (1, Transport_Ack sample_address)]"

lemmas sending_defs = append_active_body_def append_transport_ack_def append_active_record_batch_def commudp_aggregate_payload_def
  with_wire_def take_server_sequence_def Let_def umask_def active_packet_def encode_active_def u32_def append_packets_def append_datagram_def
  dict_setdefault_def set_wires_def put_wire_def lift_tunnel_def register_window_def encode_tunnel_datagram_def encode_datagram_def order_packets_def
  wire_size_def NATIVE_MAX_UDP_BYTES_def NATIVE_MAX_VIRTUAL_PACKETS_def NATIVE_MAX_VIRTUAL_PAYLOAD_def DEFAULT_ENCRYPTED_CHANNELS_def
  cipher_step_def cipher_region_size_def

lemma sample_run: "is_ok (run_publisher sample_publisher sample_calls sample_outbound)"
  by (simp add: sample_calls_def sample_outbound_def sample_publisher_def sample_address_def sending_defs initial_wire_state_def)


lemma sample_batch: "is_ok (append_active_record_batch sample_publisher 0 sample_address [[1, 2], [3]] None sample_outbound)"
  by (simp add: sample_outbound_def sample_publisher_def sample_address_def sending_defs initial_wire_state_def)

theorem record_batch_roundtrip_witness:
  "\<exists>sequence payload. sequence mod 2 ^ 28 = (0x102 :: int) \<and> read_history (nat (sequence div 2 ^ 28)) payload = Some [[3, 4], [1, 2, 4]]"
proof -
  obtain latest ob' where r: "append_active_record_batch sample_publisher 0 sample_address [[1, 2], [3]] None sample_outbound = Inr (latest, ob')"
    using sample_batch by (auto simp: is_ok_iff)
  have "map_of (ob_wires sample_outbound) sample_address = Some initial_wire_state" by (simp add: sample_outbound_def)
  from record_batch_roundtrip[OF r this] obtain sequence payload where
    "sequence mod 2 ^ 28 = latest" "latest = (ew_next_server_sequence initial_wire_state + 2 - 1) mod 2 ^ 28"
    "read_history (nat (sequence div 2 ^ 28)) payload = Some (map (\<lambda>r. r @ [0x04]) (rev [[1, 2], [3]]))" by auto
  then show ?thesis by (intro exI[of _ sequence] exI[of _ payload]) (simp add: initial_wire_state_def)
qed

text \<open>
  A bare acknowledgement whose sequence number has come round to 1, ..., 6 reads as a control
  packet.
\<close>

lemma ack_reads_as_control:
  "parse_channel_one \<lparr>tp_channel = 1, tp_payload = to_be 4 (umask 28 3) @ to_be 4 n\<rparr> =
     Some (Control \<lparr>cc_kind = DISCONNECT, cc_connection_id = be_nat (to_be 4 n)\<rparr>)"
  by (simp add: parse_channel_one_def umask_def commudp_member_def slice_append_left be_nat_to_be)


end
