(* ===== verification/ServiceState.thy ===== *)
theory ServiceState
  imports Outbound GameDirectory RaceSession RaceState Results WorldState
    "HOL-Library.Product_Lexorder" "HOL-Library.List_Lexorder" "HOL-Library.Char_ord"
begin

text \<open>
  The dictionaries that \<open>CarbonRebroadcasterService\<close> (\<open>carbon/rebroadcaster/service.py\<close>)
  shares between its coordinators, its small helpers (the roles of a room, the order of its
  endpoints, the footers) and its readers of timer and state messages.  An address resolves
  to a game and a participant; the game is an object shared with the directory, so its
  current value is read from there while the room exists.  The clock is an argument.
\<close>

section \<open>Shared state\<close>

record ticket_resolution =
  tk_game :: carbon_game
  tk_participant :: carbon_participant

record service_state =
  sv_out :: outbound
  sv_bindings :: "(address \<times> ticket_resolution) list"
  sv_races :: "(string \<times> game_race_state) list"
  sv_ready_epochs :: "(string \<times> ready_epoch) list"
  sv_ready_generations :: "(string \<times> int) list"
  sv_games :: game_directory
  sv_trackers :: "(string \<times> race_result_tracker) list"
  sv_joiner_windows :: "source_key fset"
  sv_transitions_sent :: "string fset"
  sv_object_ids :: "((string \<times> source_key \<times> int) \<times> int) list"
  sv_object_next :: "(string \<times> int) list"
  sv_commit_times :: "(string \<times> rat) list"
  sv_participant_endpoints :: "(source_key \<times> address) list"
  sv_published_joins :: "(string \<times> int) fset"
  sv_reconnect_pending :: "source_key fset"
  sv_diagnostics :: "(string \<times> int \<times> string \<times> string) fset"

abbreviation sv_wires :: "service_state \<Rightarrow> (address \<times> endpoint_wire_state) list" where
  "sv_wires sv \<equiv> ob_wires (sv_out sv)"

text \<open>What an operation can raise.\<close>

datatype service_error =
    Publishing publish_error
  | RaceRefused race_state_error
  | PropertiesRefused race_session_error
  | UnboundAddress address
  | NoSuchEndpoint
  | MissingRace string
  | ByteOutOfRange nat
  | TruncatedTimer

definition lift_publish :: "publish_error + 'a \<Rightarrow> service_error + 'a" where
  "lift_publish r = (case r of Inl e \<Rightarrow> Inl (Publishing e) | Inr x \<Rightarrow> Inr x)"

definition lift_race :: "race_state_error + 'a \<Rightarrow> service_error + 'a" where
  "lift_race r = (case r of Inl e \<Rightarrow> Inl (RaceRefused e) | Inr x \<Rightarrow> Inr x)"

lemma lift_publish_Inr [simp]: "lift_publish r = Inr x \<longleftrightarrow> r = Inr x"
  by (cases r) (auto simp: lift_publish_def)

lemma lift_race_Inr [simp]: "lift_race r = Inr x \<longleftrightarrow> r = Inr x"
  by (cases r) (auto simp: lift_race_def)

text \<open>\<open>self._wire[address]\<close> and \<open>self._bindings[address]\<close>.\<close>

definition sv_with_wire :: "address \<Rightarrow> service_state \<Rightarrow> (endpoint_wire_state \<Rightarrow> service_error + 'a) \<Rightarrow> service_error + 'a" where
  "sv_with_wire a sv f = (case map_of (sv_wires sv) a of None \<Rightarrow> Inl (Publishing (UnknownDestination a)) | Some w \<Rightarrow> f w)"

definition sv_with_binding :: "address \<Rightarrow> service_state \<Rightarrow> (ticket_resolution \<Rightarrow> service_error + 'a) \<Rightarrow> service_error + 'a" where
  "sv_with_binding a sv f = (case map_of (sv_bindings sv) a of None \<Rightarrow> Inl (UnboundAddress a) | Some t \<Rightarrow> f t)"

definition sv_put_wire :: "address \<Rightarrow> endpoint_wire_state \<Rightarrow> service_state \<Rightarrow> service_state" where
  "sv_put_wire a w sv = sv\<lparr>sv_out := put_wire a w (sv_out sv)\<rparr>"

definition put_race :: "string \<Rightarrow> game_race_state \<Rightarrow> service_state \<Rightarrow> service_state" where
  "put_race gid r sv = sv\<lparr>sv_races := AList.update gid r (sv_races sv)\<rparr>"

text \<open>\<open>self._race.setdefault(gid, GameRaceState())\<close>: the race, which is then stored.\<close>

definition race_of :: "string \<Rightarrow> service_state \<Rightarrow> game_race_state" where
  "race_of gid sv = (case map_of (sv_races sv) gid of None \<Rightarrow> initial_race_state | Some r \<Rightarrow> r)"

definition ensure_race :: "string \<Rightarrow> service_state \<Rightarrow> service_state" where
  "ensure_race gid sv = sv\<lparr>sv_races := dict_setdefault gid initial_race_state (sv_races sv)\<rparr>"

definition send_packets ::
  "publisher \<Rightarrow> rat \<Rightarrow> tunnel_packet list \<Rightarrow> address \<Rightarrow> string \<Rightarrow> service_state \<Rightarrow> service_error + service_state" where
  "send_packets pb now packets a label sv =
     rbind (lift_publish (append_packets pb now packets a (Some label) False (sv_out sv))) (\<lambda>ob. Inr (sv\<lparr>sv_out := ob\<rparr>))"

section \<open>Games and roles\<close>

definition tk_gid :: "ticket_resolution \<Rightarrow> string" where
  "tk_gid t = cg_gid (tk_game t)"

definition live_game :: "service_state \<Rightarrow> ticket_resolution \<Rightarrow> carbon_game" where
  "live_game sv t = (case get_room (tk_gid t) (sv_games sv) of Some g \<Rightarrow> g | None \<Rightarrow> tk_game t)"

definition tk_player_id :: "ticket_resolution \<Rightarrow> int" where
  "tk_player_id t = cp_player_id (tk_participant t)"

definition tk_user_id :: "ticket_resolution \<Rightarrow> int" where
  "tk_user_id t = id_user_id (cp_identity (tk_participant t))"

definition source_key_for :: "ticket_resolution \<Rightarrow> source_key" where
  "source_key_for t = (tk_gid t, tk_user_id t)"

definition is_challenge :: "carbon_game \<Rightarrow> bool" where
  "is_challenge g \<longleftrightarrow> get_or (cg_properties g) ''B-U-game_type'' '''' = ''2''"

definition coordinator_user_id :: "carbon_game \<Rightarrow> int option" where
  "coordinator_user_id g = (case cg_allocator_user_id g of
      Some u \<Rightarrow> Some u
    | None \<Rightarrow> (case cg_participants g of [] \<Rightarrow> None | (k, p) # rest \<Rightarrow> Some (id_user_id (cp_identity p))))"

definition is_host :: "service_state \<Rightarrow> ticket_resolution \<Rightarrow> bool" where
  "is_host sv t = (let g = live_game sv t in
     if \<not> cg_server_hosted g then tk_user_id t = id_user_id (cg_host g)
     else (case coordinator_user_id g of None \<Rightarrow> False | Some u \<Rightarrow> tk_user_id t = u))"

definition host_endpoint :: "service_state \<Rightarrow> carbon_game \<Rightarrow> address option" where
  "host_endpoint sv g =
     (if \<not> cg_server_hosted g then map_of (sv_participant_endpoints sv) (cg_gid g, id_user_id (cg_host g))
      else (case coordinator_user_id g of None \<Rightarrow> None | Some u \<Rightarrow> map_of (sv_participant_endpoints sv) (cg_gid g, u)))"

definition bound_participants :: "service_state \<Rightarrow> carbon_game \<Rightarrow> (carbon_participant \<times> address) list" where
  "bound_participants sv g = concat (map (\<lambda>(k, p).
     case map_of (sv_participant_endpoints sv) (cg_gid g, id_user_id (cp_identity p)) of
       None \<Rightarrow> [] | Some a \<Rightarrow> [(p, a)]) (cg_participants g))"

text \<open>Endpoints are sorted by role, then player id, then address.\<close>

definition is_coordinator :: "service_state \<Rightarrow> ticket_resolution \<Rightarrow> bool" where
  "is_coordinator sv t = (let g = live_game sv t in
     cg_server_hosted g \<and> (case coordinator_user_id g of None \<Rightarrow> False | Some u \<Rightarrow> tk_user_id t = u))"

definition endpoint_key :: "service_state \<Rightarrow> address \<times> ticket_resolution \<Rightarrow> bool \<times> int \<times> address" where
  "endpoint_key sv = (\<lambda>(a, t). (\<not> is_coordinator sv t, tk_player_id t, a))"

definition session_endpoints :: "service_state \<Rightarrow> string \<Rightarrow> address list" where
  "session_endpoints sv gid = map fst (sort_key (endpoint_key sv) [(a, t) \<leftarrow> sv_bindings sv. tk_gid t = gid])"

definition peers :: "service_state \<Rightarrow> address \<Rightarrow> address list" where
  "peers sv a = (case map_of (sv_bindings sv) a of
      None \<Rightarrow> [] | Some t \<Rightarrow> [p \<leftarrow> session_endpoints sv (tk_gid t). p \<noteq> a])"

definition reply_spacing_seconds_for :: "service_state \<Rightarrow> address \<Rightarrow> rat" where
  "reply_spacing_seconds_for sv a = (case map_of (sv_bindings sv) a of
      None \<Rightarrow> 12 / 1000
    | Some t \<Rightarrow> (case map_of (sv_races sv) (tk_gid t) of
          Some r \<Rightarrow> if RACING \<le> rs_phase r then 0 else 12 / 1000
        | None \<Rightarrow> 12 / 1000))"

section \<open>Footers\<close>

definition server_tick_ms :: "rat \<Rightarrow> nat" where
  "server_tick_ms now = umask 32 \<lfloor>now * 1000\<rfloor>"

definition tick_before :: "nat \<Rightarrow> nat" where
  "tick_before server_tick = (let tick = umask 32 (int server_tick - 1) in if tick = 0 then 0xFFFFFFFF else tick)"

definition tick_after :: "nat \<Rightarrow> nat" where
  "tick_after client_tick = (let tick = umask 32 (int client_tick + 1) in if tick = 0 then 1 else tick)"

definition server_footer_from_client :: "rat \<Rightarrow> bytes \<Rightarrow> bytes" where
  "server_footer_from_client now raw =
     (let server_tick = server_tick_ms now;
          client_tick = (if 8 \<le> length raw then be_nat (slice 4 8 raw) else 0);
          (client_tick, server_tick) =
            (if client_tick = 0 then (tick_before server_tick, server_tick)
             else if client_tick = server_tick then (client_tick, tick_after client_tick)
             else (client_tick, server_tick))
      in to_be 4 client_tick @ to_be 4 server_tick @ [0, 0, 0, 0])"

definition footer_for :: "rat \<Rightarrow> service_state \<Rightarrow> address \<Rightarrow> bytes" where
  "footer_for now sv a =
     (let server_tick = server_tick_ms now;
          client_tick = (case map_of (sv_wires sv) a of None \<Rightarrow> 0 | Some w \<Rightarrow> umask 32 (ew_fallback_client_tick_ms w));
          client_tick = (if client_tick = 0 \<or> client_tick = server_tick then tick_before server_tick else client_tick)
      in to_be 4 client_tick @ to_be 4 server_tick @ [0, 0, 0, 0])"

text \<open>\<open>wire.footer or self._footer_for(destination, binding)\<close>\<close>

definition wire_footer :: "rat \<Rightarrow> service_state \<Rightarrow> address \<Rightarrow> endpoint_wire_state \<Rightarrow> bytes" where
  "wire_footer now sv a w = (if ew_footer w = [] then footer_for now sv a else ew_footer w)"

section \<open>Reading state and timer messages\<close>

definition ol_type :: "ol_message_type \<Rightarrow> nat option" where
  "ol_type t = Some (nat (ol_value t))"

definition current_active_game_body :: "bytes \<Rightarrow> bytes option" where
  "current_active_game_body logical =
     (if logical_type logical \<noteq> ol_type ACTIVE_GAME_MESSAGE \<or> length logical < 11 then None
      else let finish = 7 + be_nat (slice 5 7 logical) + 4
           in if length logical < finish then None else Some (take finish logical))"

definition ACTIVE_MARKER :: bytes where
  "ACTIVE_MARKER = [0x00, 0x00, 0x00, 0x00, 0x1C]"

function active_bodies_from :: "bytes \<Rightarrow> nat \<Rightarrow> bytes list \<Rightarrow> bytes list" where
  "active_bodies_from logical cursor bodies = (case find_from ACTIVE_MARKER logical cursor of
      None \<Rightarrow> bodies
    | Some offset \<Rightarrow>
        if length logical < offset + 7 then bodies
        else let finish = offset + 7 + be_nat (slice (offset + 5) (offset + 7) logical) + 4;
                 body = slice offset finish logical
             in active_bodies_from logical (offset + length ACTIVE_MARKER)
                  (if finish \<le> length logical \<and> body \<notin> set bodies then bodies @ [body] else bodies))"
  by pat_completeness auto

termination
  by (relation "measure (\<lambda>(logical, cursor, _). length logical - cursor)")
    (auto simp: ACTIVE_MARKER_def dest!: find_from_Some)

declare active_bodies_from.simps [simp del]

definition active_game_bodies :: "bytes \<Rightarrow> bytes list" where
  "active_game_bodies logical = active_bodies_from logical 0 []"

definition state_name :: "bytes \<Rightarrow> string option" where
  "state_name logical =
     (if logical_type logical \<noteq> ol_type ACTIVE_GAME_MESSAGE \<or> length logical < 11 then None
      else let finish = 7 + be_nat (slice 5 7 logical)
           in if length logical < finish + 4 then None else Some (utf8_decode (slice 7 finish logical)))"

definition state_value :: "bytes \<Rightarrow> nat option" where
  "state_value logical =
     (if logical_type logical \<noteq> ol_type ACTIVE_GAME_MESSAGE \<or> length logical < 11 then None
      else let offset = 7 + be_nat (slice 5 7 logical)
           in if length logical < offset + 4 then None else Some (be_nat (slice offset (offset + 4) logical)))"

text \<open>\<open>struct.unpack(">f", raw)\<close>\<close>

definition unpack_f32 :: "bytes \<Rightarrow> pyfloat" where
  "unpack_f32 raw =
     (let n = be_nat raw; e = (n div 0x800000) mod 256; m = n mod 0x800000;
          scaled = (\<lambda>m. if 150 \<le> e then of_nat m * 2 ^ (e - 150) else of_nat m / 2 ^ (150 - max 1 e));
          signed = (\<lambda>x. if 0x80000000 \<le> n then - x else x)
      in if e = 255 then (if m \<noteq> 0 then NaN else if 0x80000000 \<le> n then NegInf else PosInf)
         else Fin (signed (scaled (if e = 0 then m else 0x800000 + m))))"

definition RACE_COUNTDOWN :: nat where
  "RACE_COUNTDOWN = 5"

definition timer_id :: "bytes \<Rightarrow> nat" where
  "timer_id timer = be_nat (slice 5 9 timer)"

definition timer_clock :: "bytes \<Rightarrow> pyfloat" where
  "timer_clock timer = unpack_f32 (slice 9 13 timer)"

definition timer_duration :: "bytes \<Rightarrow> pyfloat" where
  "timer_duration timer = unpack_f32 (slice 13 17 timer)"

definition current_timer_body :: "bytes \<Rightarrow> bytes option" where
  "current_timer_body logical =
     (if logical_type logical \<noteq> ol_type START_TIMER \<or> length logical < 17 then None else Some (take 17 logical))"

definition timer_logical_deadline :: "bytes \<Rightarrow> service_error + pyfloat" where
  "timer_logical_deadline timer =
     (if length timer < 17 then Inl TruncatedTimer else Inr (fl_add (timer_clock timer) (timer_duration timer)))"

definition deadline_drifts :: "pyfloat \<Rightarrow> bool" where
  "deadline_drifts drift \<longleftrightarrow> fl_less (Fin (50 / 1000)) (fl_abs drift)"

definition record_countdown_wire_timer ::
  "game_race_state \<Rightarrow> bytes \<Rightarrow> service_error + (int \<times> pyfloat \<times> pyfloat) \<times> game_race_state" where
  "record_countdown_wire_timer race timer =
     (let current = take 17 timer in rbind (timer_logical_deadline current) (\<lambda>deadline.
        let drift = (if rs_countdown_generation_id race \<noteq> 0 then fl_sub deadline (rs_countdown_wire_deadline race) else Fin 0);
            renewed = (rs_countdown_generation_id race = 0 \<or> deadline_drifts drift);
            race = (if renewed then race\<lparr>rs_countdown_generation_id := rs_countdown_generation_id race + 1,
                      rs_countdown_initial_timer := current\<rparr> else race);
            drift = (if renewed then Fin 0 else drift);
            race = race\<lparr>rs_countdown_wire_deadline := deadline, rs_countdown_latest_timer := current,
                      rs_latest_match_timer := current\<rparr>
        in Inr ((rs_countdown_generation_id race, deadline, drift), race)))"

end
