(* ===== verification/RoomLifecycle.thy ===== *)
theory RoomLifecycle
  imports ServiceState
begin

text \<open>
  \<open>RoomLifecycleCoordinator\<close> of \<open>carbon/rebroadcaster/room_lifecycle.py\<close> with the two
  \<open>clear_room\<close> methods it calls: dropping the state of a room, locking and reopening its
  access, aborting a Ready epoch and preparing the same room for another race.  Log lines
  and the reasons they carry are left out.
\<close>

section \<open>Clearing a room\<close>

definition clear_objects :: "string \<Rightarrow> service_state \<Rightarrow> service_state" where
  "clear_objects gid sv = sv\<lparr>sv_object_ids := [((room, key, generation), i) \<leftarrow> sv_object_ids sv. room \<noteq> gid],
     sv_object_next := AList.delete gid (sv_object_next sv)\<rparr>"

definition forget_prerequisite :: "endpoint_wire_state \<Rightarrow> endpoint_wire_state" where
  "forget_prerequisite w = w\<lparr>ew_room_commit_prerequisite_sequence := 0, ew_room_commit_prerequisite_wait_logged := False\<rparr>"

text \<open>A loop over endpoints that skips those without a wire.\<close>

definition update_wire :: "(endpoint_wire_state \<Rightarrow> endpoint_wire_state) \<Rightarrow> address \<Rightarrow> service_state \<Rightarrow> service_state" where
  "update_wire f a sv = (case map_of (sv_wires sv) a of None \<Rightarrow> sv | Some w \<Rightarrow> sv_put_wire a (f w) sv)"

definition update_wires :: "(endpoint_wire_state \<Rightarrow> endpoint_wire_state) \<Rightarrow> address list \<Rightarrow> service_state \<Rightarrow> service_state" where
  "update_wires f = fold (update_wire f)"

definition clear_commit :: "string \<Rightarrow> service_state \<Rightarrow> service_state" where
  "clear_commit gid sv = update_wires forget_prerequisite [a. (a, t) \<leftarrow> sv_bindings sv, tk_gid t = gid]
     (sv\<lparr>sv_commit_times := AList.delete gid (sv_commit_times sv)\<rparr>)"

definition discard_results :: "string \<Rightarrow> service_state \<Rightarrow> bool \<times> service_state" where
  "discard_results gid sv = (map_of (sv_trackers sv) gid \<noteq> None, sv\<lparr>sv_trackers := AList.delete gid (sv_trackers sv)\<rparr>)"

definition clear_unbound_transport_state :: "string \<Rightarrow> service_state \<Rightarrow> service_state" where
  "clear_unbound_transport_state gid sv =
    (let sv = clear_objects gid sv;
         sv = sv\<lparr>sv_races := AList.delete gid (sv_races sv)\<rparr>;
         sv = snd (discard_results gid sv)
     in sv\<lparr>sv_joiner_windows := ffilter (\<lambda>key. fst key \<noteq> gid) (sv_joiner_windows sv),
           sv_ready_epochs := AList.delete gid (sv_ready_epochs sv),
           sv_ready_generations := AList.delete gid (sv_ready_generations sv),
           sv_transitions_sent := sv_transitions_sent sv |-| {|gid|}\<rparr>)"

definition retire_transport_state :: "string \<Rightarrow> service_state \<Rightarrow> service_state" where
  "retire_transport_state gid sv =
    (let sv = clear_commit gid (clear_unbound_transport_state gid sv)
     in sv\<lparr>sv_published_joins := ffilter (\<lambda>key. fst key \<noteq> gid) (sv_published_joins sv),
           sv_reconnect_pending := ffilter (\<lambda>key. fst key \<noteq> gid) (sv_reconnect_pending sv),
           sv_participant_endpoints := [(key, a) \<leftarrow> sv_participant_endpoints sv. fst key \<noteq> gid],
           sv_diagnostics := ffilter (\<lambda>item. fst item \<noteq> gid) (sv_diagnostics sv)\<rparr>)"

section \<open>Access\<close>

definition set_games :: "bool \<times> game_directory \<Rightarrow> service_state \<Rightarrow> service_state" where
  "set_games r sv = sv\<lparr>sv_games := snd r\<rparr>"

text \<open>The gate that hides or shows the room in Quick Join after a race or an abort.\<close>

definition reopen_listing :: "string \<Rightarrow> bool \<Rightarrow> service_state \<Rightarrow> service_state" where
  "reopen_listing gid challenge sv =
     set_games (if challenge then set_challenge_ready gid False (sv_games sv) else set_quick_join_locked gid False (sv_games sv)) sv"

definition lock_room ::
  "carbon_game \<Rightarrow> game_race_state \<Rightarrow> service_state \<Rightarrow> (service_error + bool \<times> game_race_state) \<times> service_state" where
  "lock_room g race sv =
    (case lock_room_access race of
       Inl e \<Rightarrow> (Inl (RaceRefused e), sv)
     | Inr (changed, race) \<Rightarrow>
         let still_open = (is_challenge g \<and> cg_challenge_ready g \<and> gd_quick_join_after_ready (sv_games sv))
         in (Inr (changed, race), set_games (set_quick_join_locked (cg_gid g) (\<not> still_open) (sv_games sv)) sv))"

section \<open>Aborting a Ready epoch\<close>

definition abort_wire :: "endpoint_wire_state \<Rightarrow> endpoint_wire_state" where
  "abort_wire w = w\<lparr>ew_ready_epoch_generation := 0, ew_ready_requested := False, ew_active_game_ready := False,
     ew_match_timer_retry := None, ew_match_timer_sequence := 0, ew_match_timer_generation_id := 0,
     ew_ready_seed_final_sequence := 0, ew_ready_seed_used_latency_history := False\<rparr>"

definition abort_race :: "game_race_state \<Rightarrow> game_race_state" where
  "abort_race r = r\<lparr>rs_phase := SESSION_SETUP, rs_room_access := OPEN, rs_countdown_deadline := Fin 0, rs_latest_match_timer := [],
     rs_countdown_wire_deadline := Fin 0, rs_countdown_generation_id := 0, rs_countdown_initial_timer := [],
     rs_countdown_latest_timer := []\<rparr>"

definition abort_ready_epoch :: "string \<Rightarrow> service_state \<Rightarrow> service_state" where
  "abort_ready_epoch gid sv =
    (let had_epoch = (map_of (sv_ready_epochs sv) gid \<noteq> None);
         sv = sv\<lparr>sv_ready_epochs := AList.delete gid (sv_ready_epochs sv)\<rparr>;
         sv = (if had_epoch then update_wires abort_wire (session_endpoints sv gid) sv else sv);
         sv = (case map_of (sv_races sv) gid of
             None \<Rightarrow> sv
           | Some race \<Rightarrow> if rs_phase race \<le> COUNTDOWN
               then put_race gid (abort_race race)
                      (reopen_listing gid (case get_room gid (sv_games sv) of None \<Rightarrow> False | Some g \<Rightarrow> is_challenge g) sv)
               else sv)
     in sv\<lparr>sv_transitions_sent := sv_transitions_sent sv |-| {|gid|}\<rparr>)"

section \<open>Another race in the same room\<close>

definition rematch_wire :: "endpoint_wire_state \<Rightarrow> endpoint_wire_state" where
  "rematch_wire w = (reset_race_state (w\<lparr>ew_ready_requested := False, ew_start_lock_final_sequence := 0,
     ew_latency_info_sent := False, ew_race_ready_seen := False, ew_gameplay_ready := False, ew_active_game_ready := False,
     ew_match_timer_retry := None, ew_match_timer_sequence := 0, ew_match_timer_generation_id := 0,
     ew_ready_seed_final_sequence := 0, ew_ready_seed_used_latency_history := False,
     ew_pending_ai_registration_windows := [], ew_ai_registration_ready_refresh_sent := False,
     ew_ready_epoch_generation := 0\<rparr>))\<lparr>ew_pursuit_tag_log_not_before := 0\<rparr>"

definition reset_finished_race_for_rematch :: "string \<Rightarrow> service_state \<Rightarrow> bool \<times> service_state" where
  "reset_finished_race_for_rematch gid sv = (case map_of (sv_races sv) gid of
      None \<Rightarrow> (False, sv)
    | Some previous \<Rightarrow> if rs_phase previous \<noteq> FINISHED then (False, sv)
        else let sv = put_race gid initial_race_state sv;
                 sv = snd (discard_results gid sv);
                 sv = sv\<lparr>sv_transitions_sent := sv_transitions_sent sv |-| {|gid|}\<rparr>;
                 sv = clear_commit gid sv
             in (True, update_wires rematch_wire (session_endpoints sv gid) sv))"

section \<open>Reopening a finished room\<close>

text \<open>\<open>bytes((len(record),))\<close>, which raises above 255.\<close>

definition length_byte :: "bytes \<Rightarrow> service_error + bytes" where
  "length_byte r = (if 0xFF < length r then Inl (ByteOutOfRange (length r)) else Inr [word_of_nat (length r)])"

text \<open>Packets of consecutive sequences: for each a flag, an acknowledgement and a body.\<close>

fun flagged_packets :: "int \<Rightarrow> (int \<times> int \<times> bytes) list \<Rightarrow> service_error + tunnel_packet list" where
  "flagged_packets sequence [] = Inr []"
| "flagged_packets sequence ((flag, acknowledgement, body) # rest) =
     rbind (lift_publish (active_packet (push_bit 28 flag OR int (umask 28 sequence)) acknowledgement body)) (\<lambda>p.
     rbind (flagged_packets (sequence + 1) rest) (\<lambda>ps. Inr (p # ps)))"

fun encode_all_properties :: "host_properties list \<Rightarrow> service_error + bytes list" where
  "encode_all_properties [] = Inr []"
| "encode_all_properties (p # ps) = (case encode_host_properties p of
      Inl e \<Rightarrow> Inl (PropertiesRefused e)
    | Inr b \<Rightarrow> rbind (encode_all_properties ps) (\<lambda>bs. Inr (b # bs)))"

fun source_windows :: "int \<Rightarrow> int \<Rightarrow> bytes list \<Rightarrow> bytes list \<Rightarrow> service_error + (int \<times> int \<times> bytes) list" where
  "source_windows index ack sent [] = Inr []"
| "source_windows index ack sent (p # ps) =
     rbind (lift_publish (commudp_aggregate_payload (p # sent))) (\<lambda>body.
     rbind (source_windows (index + 1) ack (p # sent) ps) (\<lambda>rest. Inr ((index, ack, body) # rest)))"

text \<open>A record after its newer ones: its bytes, then its length.\<close>

definition history :: "bytes \<Rightarrow> service_error + bytes" where
  "history r = rbind (length_byte r) (\<lambda>n. Inr (r @ n))"

definition peer_windows :: "int \<Rightarrow> bytes \<Rightarrow> bytes list \<Rightarrow> service_error + (int \<times> int \<times> bytes) list" where
  "peer_windows ack footer properties =
    (let footer_record = footer @ NGL_FOOTER_FLAG;
         r0 = properties ! 0 @ PLAIN_TERMINATOR; r1 = properties ! 1 @ PLAIN_TERMINATOR;
         r2 = properties ! 2 @ PLAIN_TERMINATOR; r3 = properties ! 3 @ PLAIN_TERMINATOR
     in rbind (history footer_record) (\<lambda>hf. rbind (history r0) (\<lambda>h0. rbind (history r1) (\<lambda>h1. rbind (history r2) (\<lambda>h2.
        Inr [(0, ack, footer_record), (1, ack, r0 @ hf), (2, ack, r1 @ h0 @ hf), (2, ack, r2 @ h1 @ h0), (2, ack, r3 @ h2 @ h1)])))))"

definition reopen_endpoint ::
  "publisher \<Rightarrow> rat \<Rightarrow> address \<Rightarrow> bytes list \<Rightarrow> address \<Rightarrow> service_state \<Rightarrow> service_error + service_state" where
  "reopen_endpoint pb now source properties a sv = sv_with_wire a sv (\<lambda>w.
     let ack = int (umask 28 (ew_last_client_sequence w)); base = int (umask 28 (ew_next_server_sequence w))
     in rbind (if a = source then source_windows 0 ack [] properties
               else peer_windows ack (wire_footer now sv a w) properties) (\<lambda>windows.
        rbind (flagged_packets base windows) (\<lambda>packets.
        rbind (send_packets pb now packets a ''room-reopen'' sv) (\<lambda>sv. sv_with_wire a sv (\<lambda>w.
          Inr (sv_put_wire a (w\<lparr>ew_next_server_sequence := int (umask 28 (base + int (length packets)))\<rparr>) sv))))))"

fun each_endpoint :: "(address \<Rightarrow> 's \<Rightarrow> 'e + 's) \<Rightarrow> address list \<Rightarrow> 's \<Rightarrow> 'e + 's" where
  "each_endpoint f [] sv = Inr sv"
| "each_endpoint f (a # as) sv = rbind (f a sv) (each_endpoint f as)"

definition reopen_finished_room ::
  "publisher \<Rightarrow> rat \<Rightarrow> address \<Rightarrow> ticket_resolution \<Rightarrow> service_state \<Rightarrow> service_error + bool \<times> service_state" where
  "reopen_finished_room pb now source t sv =
    (let gid = tk_gid t; sv = ensure_race gid sv
     in if rs_phase (race_of gid sv) \<noteq> FINISHED then Inr (False, sv)
        else let (done, sv) = reset_finished_race_for_rematch gid (abort_ready_epoch gid sv)
        in if \<not> done then Inr (False, sv)
        else let sv = put_race gid ((race_of gid sv)\<lparr>rs_post_race_reopened := True\<rparr>) sv;
                 sv = reopen_listing gid (is_challenge (live_game sv t)) sv;
                 g = live_game sv t
             in rbind (encode_all_properties (reopen_host_properties (session_capacity (gd_sessions (sv_games sv)) g)
                       (if cg_server_hosted g then False else is_ranked g))) (\<lambda>properties.
                rbind (each_endpoint (reopen_endpoint pb now source properties) (session_endpoints sv gid) sv) (\<lambda>sv.
                  Inr (True, sv))))"

end
