(* ===== verification/ReadySeed.thy ===== *)
theory ReadySeed
  imports RoomLifecycle
begin

text \<open>
  \<open>ReadySeedCoordinator\<close> of \<open>carbon/rebroadcaster/ready_seed.py\<close>: it recognises the five
  packets with which a Challenge host asks for Ready and publishes them in the windows of
  each role, five packets to the host and three (seven with a latency history) to a guest.
\<close>

section \<open>Recognising the seed\<close>

record seed_parts =
  sp_timer :: "bytes option"
  sp_attributes :: "bytes option"
  sp_state1 :: "bytes option"
  sp_matchmaking_off :: bool
  sp_disable_joins :: bool

definition no_parts :: seed_parts where
  "no_parts = \<lparr>sp_timer = None, sp_attributes = None, sp_state1 = None, sp_matchmaking_off = False, sp_disable_joins = False\<rparr>"

definition active_logical :: "commudp_active \<Rightarrow> bytes" where
  "active_logical a = game_manager_body (ca_payload a)"

definition active_flag :: "commudp_active \<Rightarrow> nat" where
  "active_flag a = (ca_sequence a div 2 ^ 28) mod 16"

definition scan_packet :: "bytes \<Rightarrow> seed_parts \<Rightarrow> seed_parts" where
  "scan_packet logical sp =
    (let kind = logical_type logical in
     if kind = ol_type START_TIMER then
       (case current_timer_body logical of
          None \<Rightarrow> sp
        | Some current \<Rightarrow>
            if timer_id current = RACE_COUNTDOWN \<and> fl_less (Fin 0) (timer_duration current) \<and> fl_le (timer_duration current) (Fin 300)
            then sp\<lparr>sp_timer := Some current\<rparr> else sp)
     else if kind = ol_type GAME_ATTRIBUTES then sp\<lparr>sp_attributes := Some logical\<rparr>
     else if kind = ol_type ACTIVE_GAME_MESSAGE then
       (case current_active_game_body logical of
          None \<Rightarrow> sp
        | Some current \<Rightarrow> if state_value current = Some 1 then sp\<lparr>sp_state1 := Some current\<rparr> else sp)
     else if kind = ol_type MATCHMAKING_OFF_REQUEST then sp\<lparr>sp_matchmaking_off := True\<rparr>
     else if kind = ol_type DISABLE_JOINS_REQUEST then sp\<lparr>sp_disable_joins := True\<rparr>
     else sp)"

definition parts :: "commudp_active list \<Rightarrow> (bytes \<times> bytes \<times> bytes) option" where
  "parts active_packets =
    (let sp = fold (\<lambda>a. scan_packet (active_logical a)) active_packets no_parts
     in case (sp_timer sp, sp_attributes sp, sp_state1 sp) of
          (Some timer, Some attributes, Some state1) \<Rightarrow>
            if \<not> sp_matchmaking_off sp \<or> \<not> sp_disable_joins sp then None
            else if length active_packets \<noteq> 5 \<or> map active_flag active_packets \<noteq> [2, 0, 0, 1, 2] then None
            else Some (timer, attributes, state1)
        | _ \<Rightarrow> None)"

section \<open>Publication\<close>

definition CONTROL_80 :: bytes where
  "CONTROL_80 = [0x01, 0x8C, 0x00, 0x00, 0x00, 0x82, 0x80, 0x00, 0x00, 0x00, 0x02]"

definition CONTROL_81 :: bytes where
  "CONTROL_81 = [0x01, 0x8C, 0x00, 0x00, 0x00, 0x82, 0x81, 0x00, 0x00, 0x00, 0x02]"

definition prepare_wire :: "int \<Rightarrow> endpoint_wire_state \<Rightarrow> endpoint_wire_state" where
  "prepare_wire generation w = w\<lparr>ew_ready_epoch_generation := generation, ew_ready_requested := False,
     ew_active_game_ready := False, ew_match_timer_retry := None, ew_ready_seed_final_sequence := 0\<rparr>"

text \<open>Some packets in one datagram, from a given sequence on.\<close>

definition send_window ::
  "publisher \<Rightarrow> rat \<Rightarrow> int \<Rightarrow> (int \<times> int \<times> bytes) list \<Rightarrow> address \<Rightarrow> string \<Rightarrow> service_state \<Rightarrow> service_error + service_state" where
  "send_window pb now base window a label sv =
     rbind (flagged_packets base window) (\<lambda>packets. send_packets pb now packets a label sv)"

definition modify_wire ::
  "(endpoint_wire_state \<Rightarrow> endpoint_wire_state) \<Rightarrow> address \<Rightarrow> service_state \<Rightarrow> service_error + service_state" where
  "modify_wire f a sv = sv_with_wire a sv (\<lambda>w. Inr (sv_put_wire a (f w) sv))"

definition seed_sent :: "int \<Rightarrow> endpoint_wire_state \<Rightarrow> endpoint_wire_state" where
  "seed_sent seed_base w = w\<lparr>ew_next_server_sequence := int (umask 28 (seed_base + 3)),
     ew_match_timer_sequence := int (umask 28 seed_base),
     ew_ready_seed_final_sequence := int (umask 28 (seed_base + 2))\<rparr>"

definition append_host ::
  "publisher \<Rightarrow> rat \<Rightarrow> address \<Rightarrow> int \<Rightarrow> bytes \<times> bytes \<times> bytes \<Rightarrow> service_state \<Rightarrow> service_error + service_state" where
  "append_host pb now a generation = (\<lambda>(timer, attributes, state1) sv. sv_with_wire a sv (\<lambda>w.
     let sv = sv_put_wire a (prepare_wire generation w) sv;
         ack = int (umask 28 (ew_last_client_sequence w)); base = int (umask 28 (ew_next_server_sequence w));
         timer_window = timer @ [0x04] @ CONTROL_80 @ [0x04, 0x0C] @ CONTROL_81 @ [0x04]
     in rbind (send_window pb now base
          [(0, ack, CONTROL_81 @ [0x04]), (1, ack, CONTROL_80 @ [0x04] @ CONTROL_81 @ [0x04, 0x04])] a ''ready-seed-host-prelude'' sv) (\<lambda>sv.
        rbind (send_window pb now (base + 2)
          [(2, ack, timer_window @ [0x04]), (0, ack, attributes @ [0x04]), (0, ack, state1 @ [0x04])] a ''ready-seed-host'' sv)
        (modify_wire (seed_sent (base + 2)) a))))"

definition is_latency_info :: "bytes \<Rightarrow> bool" where
  "is_latency_info latency \<longleftrightarrow> length latency = 13 \<and> logical_type latency = ol_type LATENCY_INFO"

definition aggregate :: "bytes list \<Rightarrow> service_error + bytes" where
  "aggregate records = lift_publish (commudp_aggregate_payload records)"

text \<open>The latency history a guest is sent before its seed, when both latencies are known.\<close>

definition guest_history ::
  "publisher \<Rightarrow> rat \<Rightarrow> address \<Rightarrow> int \<Rightarrow> int \<Rightarrow> bytes \<Rightarrow> bytes \<Rightarrow> service_state \<Rightarrow> service_error + service_state" where
  "guest_history pb now a base ack host_latency guest_latency sv =
     rbind (aggregate [guest_latency, host_latency]) (\<lambda>latencies.
     rbind (send_window pb now base [(0, ack, host_latency @ PLAIN_TERMINATOR), (1, ack, latencies)] a ''ready-seed-guest-latency'' sv) (\<lambda>sv.
     rbind (aggregate [CONTROL_81, guest_latency, host_latency]) (\<lambda>first.
     rbind (aggregate [CONTROL_80, CONTROL_81, guest_latency]) (\<lambda>second.
       send_window pb now (base + 2) [(2, ack, first), (2, ack, second)] a ''ready-seed-guest-prelude'' sv))))"

definition guest_seed ::
  "publisher \<Rightarrow> rat \<Rightarrow> address \<Rightarrow> int \<Rightarrow> int \<Rightarrow> bytes \<times> bytes \<times> bytes \<Rightarrow> service_state \<Rightarrow> service_error + service_state" where
  "guest_seed pb now a seed_base ack = (\<lambda>(timer, attributes, state1) sv.
     rbind (aggregate [timer, CONTROL_80, CONTROL_81]) (\<lambda>first.
     rbind (send_window pb now seed_base [(2, ack, first), (0, ack, attributes @ [0x04]), (0, ack, state1 @ [0x04])] a ''ready-seed-guest'' sv)
       (modify_wire (seed_sent seed_base) a)))"

definition find_host :: "service_state \<Rightarrow> address list \<Rightarrow> service_error + address" where
  "find_host sv endpoints = (case find (\<lambda>a. case map_of (sv_bindings sv) a of None \<Rightarrow> False | Some t \<Rightarrow> is_host sv t) endpoints of
     None \<Rightarrow> Inl NoSuchEndpoint | Some a \<Rightarrow> Inr a)"

definition append_guest ::
  "publisher \<Rightarrow> rat \<Rightarrow> address \<Rightarrow> address list \<Rightarrow> int \<Rightarrow> bytes \<times> bytes \<times> bytes \<Rightarrow> service_state \<Rightarrow>
    service_error + bool \<times> service_state" where
  "append_guest pb now a endpoints generation seed sv = sv_with_wire a sv (\<lambda>w.
     let sv = sv_put_wire a (prepare_wire generation w) sv;
         ack = int (umask 28 (ew_last_client_sequence w)); base = int (umask 28 (ew_next_server_sequence w))
     in rbind (find_host sv endpoints) (\<lambda>host. sv_with_wire host sv (\<lambda>hw.
        let host_latency = ew_latest_latency_info hw; guest_latency = ew_latest_latency_info w;
            has_latency_pair = (is_latency_info host_latency \<and> is_latency_info guest_latency)
        in rbind (if has_latency_pair then guest_history pb now a base ack host_latency guest_latency sv else Inr sv) (\<lambda>sv.
           rbind (modify_wire (ew_ready_seed_used_latency_history_update (\<lambda>_. has_latency_pair)) a sv) (\<lambda>sv.
           rbind (guest_seed pb now a (if has_latency_pair then int (umask 28 (base + 4)) else base) ack seed sv) (\<lambda>sv.
             Inr (has_latency_pair, sv)))))))"

end
