(* ===== verification/ReadyEpoch.thy ===== *)
theory ReadyEpoch
  imports ReadySeed
begin

text \<open>
  \<open>ReadyEpochCoordinator\<close> of \<open>carbon/rebroadcaster/ready_epoch.py\<close>: it opens a Ready epoch
  from the host's seed, relays the host's eight-packet countdown bundle and the three-packet
  snapshots after it.  A handler returns the packets it has consumed, by their positions in
  the received datagram.
\<close>

section \<open>Shared pieces\<close>

definition positions :: "commudp_active list \<Rightarrow> nat list" where
  "positions active_packets = [0..<length active_packets]"

definition active_state :: "bytes \<Rightarrow> nat option" where
  "active_state logical = (case current_active_game_body logical of None \<Rightarrow> None | Some body \<Rightarrow> state_value body)"

definition payload_hash :: "commudp_active list \<Rightarrow> int" where
  "payload_hash active_packets = int (unat (crc32 (concat (map active_logical active_packets))))"

definition binding_is_host :: "service_state \<Rightarrow> address \<Rightarrow> bool" where
  "binding_is_host sv a = (case map_of (sv_bindings sv) a of None \<Rightarrow> False | Some t \<Rightarrow> is_host sv t)"

definition invited_guest :: "service_state \<Rightarrow> address \<Rightarrow> bool" where
  "invited_guest sv a = (case map_of (sv_bindings sv) a of
      None \<Rightarrow> False | Some t \<Rightarrow> \<not> is_host sv t \<and> cp_invite_remote_player_id (tk_participant t) \<noteq> 0)"

definition invited_dedicated_flow :: "service_state \<Rightarrow> carbon_game \<Rightarrow> address list \<Rightarrow> bool" where
  "invited_dedicated_flow sv g endpoints \<longleftrightarrow> cg_server_hosted g \<and> (\<exists>a \<in> set endpoints. invited_guest sv a)"

definition put_epoch :: "string \<Rightarrow> ready_epoch \<Rightarrow> service_state \<Rightarrow> service_state" where
  "put_epoch gid e sv = sv\<lparr>sv_ready_epochs := AList.update gid e (sv_ready_epochs sv)\<rparr>"

text \<open>The received bodies to one endpoint, under its own sequences and acknowledgement.\<close>

definition relay_window ::
  "publisher \<Rightarrow> rat \<Rightarrow> (address \<Rightarrow> endpoint_wire_state \<Rightarrow> int) \<Rightarrow> commudp_active list \<Rightarrow> address \<Rightarrow> service_state \<Rightarrow>
    service_error + service_state" where
  "relay_window pb now ack_for active_packets a sv = sv_with_wire a sv (\<lambda>w.
     let base = int (umask 28 (ew_next_server_sequence w))
     in rbind (send_window pb now base (map (\<lambda>p. (int (active_flag p), ack_for a w, active_logical p @ [0x04])) active_packets)
          a ''ready-epoch-window'' sv)
        (modify_wire (ew_next_server_sequence_update (\<lambda>_. int (umask 28 (base + int (length active_packets))))) a))"

definition current_ack :: "address \<Rightarrow> endpoint_wire_state \<Rightarrow> int" where
  "current_ack a w = int (umask 28 (ew_last_client_sequence w))"

section \<open>The host's countdown bundle\<close>

definition BUNDLE_TYPES :: "nat option list" where
  "BUNDLE_TYPES = map ol_type [GAME_ATTRIBUTES, START_TIMER, GAME_ATTRIBUTES, ACTIVE_GAME_MESSAGE, ACTIVE_GAME_MESSAGE,
     START_TIMER, GAME_ATTRIBUTES, ACTIVE_GAME_MESSAGE]"

text \<open>The timer of a datagram with the exact shape of the bundle.\<close>

definition bundle_timer :: "commudp_active list \<Rightarrow> bytes option" where
  "bundle_timer active_packets =
    (let logicals = map active_logical active_packets in
     if length active_packets \<noteq> 8 then None
     else if map logical_type logicals \<noteq> BUNDLE_TYPES then None
     else if map active_flag active_packets \<noteq> [0, 0, 0, 0, 1, 2, 0, 0] then None
     else if active_state (logicals ! 3) \<noteq> Some 7 then None
     else if active_state (logicals ! 4) \<noteq> Some 14 then None
     else if active_state (logicals ! 7) \<noteq> Some 7 then None
     else (case current_timer_body (logicals ! 1) of
         None \<Rightarrow> None
       | Some timer \<Rightarrow> if timer_id timer = RACE_COUNTDOWN then Some timer else None))"

definition bundle_ack :: "service_state \<Rightarrow> bool \<Rightarrow> ready_epoch \<Rightarrow> address \<Rightarrow> endpoint_wire_state \<Rightarrow> int" where
  "bundle_ack sv invited epoch a w =
     (if invited \<and> \<not> binding_is_host sv a \<and> re_guest_state_final_sequence epoch \<noteq> 0
      then int (umask 28 (re_guest_state_final_sequence epoch)) else current_ack a w)"

definition countdown_wire :: "int \<Rightarrow> endpoint_wire_state \<Rightarrow> endpoint_wire_state" where
  "countdown_wire generation w = w\<lparr>ew_match_timer_sequence := int (umask 28 (ew_next_server_sequence w - 3)),
     ew_match_timer_generation_id := generation, ew_ready_requested := True, ew_match_timer_retry := None\<rparr>"

definition start_countdown ::
  "rat \<Rightarrow> string \<Rightarrow> carbon_game \<Rightarrow> address list \<Rightarrow> ready_epoch \<Rightarrow> commudp_active list \<Rightarrow> bytes \<Rightarrow> service_state \<Rightarrow>
    service_error + service_state" where
  "start_countdown now gid g endpoints epoch active_packets timer sv =
    (let duration = timer_duration timer;
         race = (race_of gid sv)\<lparr>rs_attributes := active_logical (hd active_packets), rs_countdown_duration := duration\<rparr>
     in rbind (record_countdown_wire_timer race timer) (\<lambda>((generation, deadline, drift), race).
        let race = race\<lparr>rs_countdown_deadline := fl_add (Fin now) duration\<rparr>
        in rbind (each_endpoint (modify_wire (countdown_wire generation)) endpoints sv) (\<lambda>sv.
        rbind (lift_race (begin_countdown now race)) (\<lambda>(begun, race).
          let sv = put_epoch gid (epoch\<lparr>re_native_bundle_hash := payload_hash active_packets, re_wire_deadline := deadline,
                     re_stage := COUNTDOWN_ACTIVE\<rparr>) sv;
              locking = lock_room g race sv
          in rbind (fst locking) (\<lambda>(changed, race). Inr (put_race gid race (snd locking)))))))"

definition relay_native_ready_bundle ::
  "publisher \<Rightarrow> rat \<Rightarrow> ticket_resolution \<Rightarrow> commudp_active list \<Rightarrow> service_state \<Rightarrow> service_error + nat list \<times> service_state" where
  "relay_native_ready_bundle pb now t active_packets sv =
    (let gid = tk_gid t; g = live_game sv t in
     case (map_of (sv_ready_epochs sv) gid, bundle_timer active_packets) of
       (Some epoch, Some timer) \<Rightarrow>
         if \<not> is_host sv t \<or> re_stage epoch \<noteq> STATE_PAIR_SENT_WAIT_HOST_NATIVE_BUNDLE \<or> tk_player_id t \<noteq> re_host_pid epoch
         then Inr ([], sv)
         else rbind (timer_logical_deadline timer) (\<lambda>deadline.
           if deadline_drifts (fl_sub deadline (re_wire_deadline epoch)) then Inr ([], sv)
           else let endpoints = session_endpoints sv gid; invited = invited_dedicated_flow sv g endpoints
             in rbind (each_endpoint (relay_window pb now (bundle_ack sv invited epoch) active_packets) endpoints sv) (\<lambda>sv.
                rbind (start_countdown now gid g endpoints epoch active_packets timer sv) (\<lambda>sv.
                  Inr (positions active_packets, sv))))
     | _ \<Rightarrow> Inr ([], sv))"

section \<open>Snapshots of the countdown\<close>

definition snapshot_timer :: "commudp_active list \<Rightarrow> bytes option" where
  "snapshot_timer active_packets =
    (let logicals = map active_logical active_packets in
     if length active_packets \<noteq> 3 then None
     else if map active_flag active_packets \<noteq> [0, 0, 1] then None
     else (case current_timer_body (logicals ! 0) of
         None \<Rightarrow> None
       | Some timer \<Rightarrow>
           if timer_id timer \<noteq> RACE_COUNTDOWN \<or> active_state (logicals ! 1) \<noteq> Some 7 \<or> active_state (logicals ! 2) \<noteq> Some 14
           then None else Some timer))"

definition relay_native_ready_snapshot ::
  "publisher \<Rightarrow> rat \<Rightarrow> ticket_resolution \<Rightarrow> commudp_active list \<Rightarrow> service_state \<Rightarrow> service_error + nat list \<times> service_state" where
  "relay_native_ready_snapshot pb now t active_packets sv =
    (let gid = tk_gid t in
     case (map_of (sv_ready_epochs sv) gid, snapshot_timer active_packets) of
       (Some epoch, Some timer) \<Rightarrow>
         if re_stage epoch \<noteq> COUNTDOWN_ACTIVE \<or> \<not> is_host sv t \<or> tk_player_id t \<noteq> re_host_pid epoch
         then Inr ([], sv)
         else rbind (timer_logical_deadline timer) (\<lambda>deadline.
           if deadline_drifts (fl_sub deadline (re_wire_deadline epoch)) then Inr ([], sv)
           else rbind (each_endpoint (relay_window pb now current_ack active_packets) (session_endpoints sv gid) sv) (\<lambda>sv.
                rbind (record_countdown_wire_timer (race_of gid sv) timer) (\<lambda>((generation, deadline, drift), race).
                  Inr (positions active_packets, put_epoch gid (epoch\<lparr>re_wire_deadline := deadline\<rparr>) (put_race gid race sv)))))
     | _ \<Rightarrow> Inr ([], sv))"

section \<open>Opening an epoch\<close>

definition first_binding :: "service_state \<Rightarrow> (ticket_resolution \<Rightarrow> bool) \<Rightarrow> address list \<Rightarrow> service_error + address \<times> ticket_resolution" where
  "first_binding sv P endpoints =
    (case find (\<lambda>a. case map_of (sv_bindings sv) a of None \<Rightarrow> False | Some t \<Rightarrow> P t) endpoints of
       None \<Rightarrow> Inl NoSuchEndpoint | Some a \<Rightarrow> sv_with_binding a sv (\<lambda>t. Inr (a, t)))"

definition source_sequence :: "commudp_active \<Rightarrow> int" where
  "source_sequence a = int (umask 28 (int (ca_sequence a)))"

definition is_duplicate_seed :: "ready_epoch \<Rightarrow> commudp_active list \<Rightarrow> bool" where
  "is_duplicate_seed e active_packets \<longleftrightarrow> re_stage e \<noteq> ABORTED \<and>
     re_source_first_sequence e = source_sequence (hd active_packets) \<and> re_source_payload_hash e = payload_hash active_packets"

definition new_epoch ::
  "int \<Rightarrow> ticket_resolution \<Rightarrow> ticket_resolution \<Rightarrow> commudp_active list \<Rightarrow> bytes \<Rightarrow> pyfloat \<Rightarrow> endpoint_wire_state \<Rightarrow> ready_epoch" where
  "new_epoch generation host guest active_packets attributes deadline guest_wire =
     \<lparr>re_generation = generation, re_stage = SEED_SENT_WAIT_GUEST_13_15, re_host_pid = tk_player_id host,
      re_guest_pid = tk_player_id guest, re_source_first_sequence = source_sequence (hd active_packets),
      re_source_final_sequence = source_sequence (last active_packets), re_source_payload_hash = payload_hash active_packets,
      re_attributes = attributes, re_wire_deadline = deadline, re_state13 = [], re_state15 = [],
      re_guest_pre_state_sequence = int (umask 28 (ew_last_client_sequence guest_wire)), re_guest_state_final_sequence = 0,
      re_guest_state_window_started = False, re_seed_ack_wait_logged = False, re_native_bundle_hash = 0\<rparr>"

definition publish_seed ::
  "publisher \<Rightarrow> rat \<Rightarrow> address list \<Rightarrow> int \<Rightarrow> bytes \<times> bytes \<times> bytes \<Rightarrow> address \<Rightarrow> service_state \<Rightarrow> service_error + service_state" where
  "publish_seed pb now endpoints generation seed a sv =
     (if binding_is_host sv a then append_host pb now a generation seed sv
      else rbind (append_guest pb now a endpoints generation seed sv) (\<lambda>(latency_pair, sv). Inr sv))"

definition open_epoch ::
  "publisher \<Rightarrow> rat \<Rightarrow> string \<Rightarrow> address list \<Rightarrow> commudp_active list \<Rightarrow> bytes \<times> bytes \<times> bytes \<Rightarrow> service_state \<Rightarrow>
    service_error + service_state" where
  "open_epoch pb now gid endpoints active_packets seed sv =
    (case seed of (timer, attributes, state1) \<Rightarrow>
     rbind (first_binding sv (is_host sv) endpoints) (\<lambda>(host_endpoint, host).
     rbind (first_binding sv (\<lambda>t. \<not> is_host sv t) endpoints) (\<lambda>(guest_endpoint, guest).
     let generation = (case map_of (sv_ready_generations sv) gid of None \<Rightarrow> 0 | Some n \<Rightarrow> n) + 1;
         sv = sv\<lparr>sv_ready_generations := AList.update gid generation (sv_ready_generations sv)\<rparr>
     in rbind (timer_logical_deadline timer) (\<lambda>deadline. sv_with_wire guest_endpoint sv (\<lambda>guest_wire.
        let sv = put_epoch gid (new_epoch generation host guest active_packets attributes deadline guest_wire) sv
        in rbind (each_endpoint (publish_seed pb now endpoints generation seed) endpoints sv) (\<lambda>sv.
           let race = (race_of gid sv)\<lparr>rs_attributes := attributes, rs_countdown_duration := timer_duration timer\<rparr>
           in rbind (record_countdown_wire_timer race timer) (\<lambda>((timer_generation, wire_deadline, drift), race).
              each_endpoint (modify_wire (ew_match_timer_generation_id_update (\<lambda>_. timer_generation))) endpoints
                (put_race gid race sv))))))))"

definition relay_retail_ready_seed ::
  "publisher \<Rightarrow> rat \<Rightarrow> ticket_resolution \<Rightarrow> commudp_active list \<Rightarrow> service_state \<Rightarrow> service_error + nat list \<times> service_state" where
  "relay_retail_ready_seed pb now t active_packets sv =
    (let gid = tk_gid t; endpoints = session_endpoints sv gid in
     if \<not> is_host sv t \<or> \<not> is_challenge (live_game sv t) \<or> length endpoints < 2 then Inr ([], sv)
     else let sv = ensure_race gid sv; phase = rs_phase (race_of gid sv)
     in if phase \<noteq> SESSION_SETUP \<and> phase \<noteq> FINISHED \<and> map_of (sv_ready_epochs sv) gid = None then Inr ([], sv)
     else case parts active_packets of
        None \<Rightarrow> Inr ([], sv)
      | Some seed \<Rightarrow>
          let sv = set_games (set_challenge_ready gid True (sv_games sv)) sv; existing = map_of (sv_ready_epochs sv) gid
          in if (case existing of None \<Rightarrow> False | Some e \<Rightarrow> is_duplicate_seed e active_packets)
             then Inr (positions active_packets, sv)
             else let sv = (if existing \<noteq> None then abort_ready_epoch gid sv else sv);
                      sv = (if rs_phase (race_of gid sv) = FINISHED then snd (reset_finished_race_for_rematch gid sv) else sv)
             in rbind (open_epoch pb now gid endpoints active_packets seed sv) (\<lambda>sv. Inr (positions active_packets, sv)))"

end
