(* ===== verification/ReadyState.thy ===== *)
theory ReadyState
  imports ReadyEpoch
begin

text \<open>
  \<open>ReadyStateCoordinator\<close> of \<open>carbon/rebroadcaster/ready_state.py\<close>: the first state
  exchange of a joining guest, and the gate that holds the guest's states 13 and 15 back
  until every endpoint has acknowledged its Ready seed, with the windows that release them.
\<close>

section \<open>The joiner's state-13 window\<close>

record joiner_scan =
  js_state13 :: "bytes option"
  js_state5 :: "bytes option"
  js_matched :: "nat list"

definition named :: "nat \<Rightarrow> string \<Rightarrow> bytes \<Rightarrow> bool" where
  "named state persona body \<longleftrightarrow> state_value body = Some state \<and> state_name body = Some persona"

definition or_else :: "'a option \<Rightarrow> 'a option \<Rightarrow> 'a option" where
  "or_else x y = (case x of None \<Rightarrow> y | Some v \<Rightarrow> Some v)"

definition scan_joiner :: "string \<Rightarrow> nat \<times> commudp_active \<Rightarrow> joiner_scan \<Rightarrow> joiner_scan" where
  "scan_joiner persona = (\<lambda>(i, active) js.
     case current_active_game_body (active_logical active) of
       None \<Rightarrow> js
     | Some current \<Rightarrow>
         let historical = find (named 13 persona) (tl (active_game_bodies (active_logical active))) in
         if named 13 persona current
         then js\<lparr>js_state13 := or_else (js_state13 js) (Some current), js_matched := js_matched js @ [i]\<rparr>
         else if named 5 persona current \<and> historical \<noteq> None
         then js\<lparr>js_state5 := Some current, js_state13 := or_else (js_state13 js) historical, js_matched := js_matched js @ [i]\<rparr>
         else js)"

definition joiner_states :: "string \<Rightarrow> commudp_active list \<Rightarrow> joiner_scan" where
  "joiner_states persona active_packets =
     fold (scan_joiner persona) (zip (positions active_packets) active_packets)
       \<lparr>js_state13 = None, js_state5 = None, js_matched = []\<rparr>"

text \<open>The host endpoints the window goes to; none at all while a latency is unknown.\<close>

fun host_wires ::
  "service_state \<Rightarrow> address \<Rightarrow> endpoint_wire_state \<Rightarrow> address list \<Rightarrow> service_error + (address \<times> endpoint_wire_state) list option" where
  "host_wires sv source guest [] = Inr (Some [])"
| "host_wires sv source guest (a # as) =
     (if a = source \<or> \<not> binding_is_host sv a then host_wires sv source guest as
      else sv_with_wire a sv (\<lambda>w.
        if ew_latest_latency_info guest = [] \<or> ew_latest_latency_info w = [] then Inr None
        else rbind (host_wires sv source guest as) (\<lambda>rest. Inr (map_option ((#) (a, w)) rest))))"

definition guest_window :: "int \<Rightarrow> bytes \<Rightarrow> bytes \<Rightarrow> service_error + (int \<times> int \<times> bytes) list" where
  "guest_window ack state5 record13 =
     rbind (length_byte record13) (\<lambda>n. Inr [(0, ack, record13), (1, ack, state5 @ PLAIN_TERMINATOR @ record13 @ n)])"

definition host_window :: "int \<Rightarrow> bytes \<Rightarrow> bytes \<Rightarrow> bytes \<Rightarrow> bytes \<Rightarrow> service_error + (int \<times> int \<times> bytes) list" where
  "host_window ack state5 record13 helper host =
     rbind (history helper) (\<lambda>hh. rbind (history host) (\<lambda>ho. rbind (history record13) (\<lambda>h13.
       Inr [(2, ack, record13 @ hh @ ho), (2, ack, state5 @ PLAIN_TERMINATOR @ h13 @ hh)])))"

text \<open>The prepared packets of the hosts; none at all when a record is too long for its length byte.\<close>

fun host_datagrams ::
  "rat \<Rightarrow> service_state \<Rightarrow> bytes \<Rightarrow> bytes \<Rightarrow> bytes \<Rightarrow> (address \<times> endpoint_wire_state) list \<Rightarrow>
    service_error + (address \<times> tunnel_packet list) list option" where
  "host_datagrams now sv state13 state5 helper_latency [] = Inr (Some [])"
| "host_datagrams now sv state13 state5 helper_latency ((a, w) # rest) =
     (let helper = helper_latency @ PLAIN_TERMINATOR; host = ew_latest_latency_info w @ PLAIN_TERMINATOR;
          record13 = state13 @ wire_footer now sv a w @ DESTINATION_FOOTER_FLAG
      in if 0xFF < length helper \<or> 0xFF < length host \<or> 0xFF < length record13 then Inr None
         else rbind (host_window (current_ack a w) state5 record13 helper host) (\<lambda>window.
              rbind (flagged_packets (int (umask 28 (ew_next_server_sequence w))) window) (\<lambda>packets.
              rbind (host_datagrams now sv state13 state5 helper_latency rest) (\<lambda>more.
                Inr (map_option ((#) (a, packets)) more)))))"

text \<open>A prepared window of two packets, and the sequence behind it.\<close>

definition send_pair :: "publisher \<Rightarrow> rat \<Rightarrow> address \<times> tunnel_packet list \<Rightarrow> service_state \<Rightarrow> service_error + service_state" where
  "send_pair pb now = (\<lambda>(a, packets) sv. sv_with_wire a sv (\<lambda>w.
     rbind (send_packets pb now packets a ''ready-state-window'' sv)
       (modify_wire (ew_next_server_sequence_update (\<lambda>_. int (umask 28 (int (umask 28 (ew_next_server_sequence w)) + 2)))) a)))"

fun send_pairs :: "publisher \<Rightarrow> rat \<Rightarrow> (address \<times> tunnel_packet list) list \<Rightarrow> service_state \<Rightarrow> service_error + service_state" where
  "send_pairs pb now [] sv = Inr sv"
| "send_pairs pb now (d # ds) sv = rbind (send_pair pb now d sv) (send_pairs pb now ds)"

definition publish_joiner ::
  "publisher \<Rightarrow> rat \<Rightarrow> address \<Rightarrow> ticket_resolution \<Rightarrow> address list \<Rightarrow> bytes \<Rightarrow> bytes \<Rightarrow> nat list \<Rightarrow> service_state \<Rightarrow>
    service_error + nat list \<times> service_state" where
  "publish_joiner pb now source t endpoints state13 state5 matched sv = sv_with_wire source sv (\<lambda>guest.
     rbind (host_wires sv source guest endpoints) (\<lambda>hosts. case hosts of
       None \<Rightarrow> Inr ([], sv)
     | Some [] \<Rightarrow> Inr ([], sv)
     | Some (h # hs) \<Rightarrow>
         let record13 = state13 @ wire_footer now sv source guest @ DESTINATION_FOOTER_FLAG
         in if 0xFF < length record13 then Inr ([], sv)
            else rbind (guest_window (current_ack source guest) state5 record13) (\<lambda>window.
                 rbind (flagged_packets (int (umask 28 (ew_next_server_sequence guest))) window) (\<lambda>packets.
                 rbind (host_datagrams now sv state13 state5 (ew_latest_latency_info guest) (h # hs)) (\<lambda>prepared.
                 case prepared of
                   None \<Rightarrow> Inr ([], sv)
                 | Some datagrams \<Rightarrow>
                     rbind (send_pairs pb now ((source, packets) # datagrams) sv) (\<lambda>sv.
                       Inr (matched, sv\<lparr>sv_joiner_windows := finsert (source_key_for t) (sv_joiner_windows sv)\<rparr>)))))))"

definition relay_joiner_state13_window ::
  "publisher \<Rightarrow> rat \<Rightarrow> address \<Rightarrow> ticket_resolution \<Rightarrow> commudp_active list \<Rightarrow> service_state \<Rightarrow>
    service_error + nat list \<times> service_state" where
  "relay_joiner_state13_window pb now source t active_packets sv =
    (let gid = tk_gid t; persona = id_persona (cp_identity (tk_participant t)) in
     if is_host sv t \<or> \<not> is_challenge (live_game sv t) \<or> map_of (sv_ready_epochs sv) gid \<noteq> None then Inr ([], sv)
     else let sv = ensure_race gid sv; race = race_of gid sv; endpoints = session_endpoints sv gid
     in if rs_phase race \<noteq> SESSION_SETUP \<or> \<not> rs_room_commit_sent race \<or> length endpoints < 2 then Inr ([], sv)
     else let js = joiner_states persona active_packets
     in if source_key_for t |\<in>| sv_joiner_windows sv then Inr (js_matched js, sv)
     else (case js_state13 js of
         None \<Rightarrow> Inr ([], sv)
       | Some state13 \<Rightarrow>
           if state_name state13 \<noteq> Some persona then Inr ([], sv)
           else publish_joiner pb now source t endpoints state13
                  (case js_state5 js of Some s5 \<Rightarrow> s5 | None \<Rightarrow> named_state persona 5) (js_matched js) sv))"

section \<open>The guest's states 13 and 15\<close>

record state_scan =
  ss_state13 :: "bytes option"
  ss_state15 :: "bytes option"
  ss_starts :: bool
  ss_matched :: "nat list"

definition scan_body :: "string \<Rightarrow> nat \<Rightarrow> bytes \<Rightarrow> state_scan \<Rightarrow> state_scan" where
  "scan_body persona i body ss =
     (if named 13 persona body
      then ss\<lparr>ss_state13 := Some body, ss_starts := True, ss_matched := List.insert i (ss_matched ss)\<rparr>
      else if named 15 [] body
      then ss\<lparr>ss_state15 := Some body, ss_starts := True, ss_matched := List.insert i (ss_matched ss)\<rparr>
      else ss)"

definition scan_states :: "string \<Rightarrow> nat \<times> commudp_active \<Rightarrow> state_scan \<Rightarrow> state_scan" where
  "scan_states persona = (\<lambda>(i, active) ss.
     let logical = active_logical active; kind = logical_type logical;
         ss = (if kind = ol_type ENABLE_JOINS_REQUEST \<or> kind = ol_type MATCHMAKING_ON_REQUEST then ss\<lparr>ss_starts := True\<rparr> else ss)
     in fold (scan_body persona i) (active_game_bodies logical) ss)"

definition no_states :: state_scan where
  "no_states = \<lparr>ss_state13 = None, ss_state15 = None, ss_starts = False, ss_matched = []\<rparr>"

definition guest_states :: "string \<Rightarrow> commudp_active list \<Rightarrow> state_scan" where
  "guest_states persona active_packets = fold (scan_states persona) (zip (positions active_packets) active_packets) no_states"

definition keep_state :: "bytes \<Rightarrow> bytes option \<Rightarrow> bytes" where
  "keep_state old seen = (case seen of None \<Rightarrow> old | Some s \<Rightarrow> s)"

definition cache_states :: "int \<Rightarrow> state_scan \<Rightarrow> ready_epoch \<Rightarrow> ready_epoch" where
  "cache_states client_sequence ss e =
    (let e = (if re_guest_state_window_started e then e
              else if ss_starts ss then e\<lparr>re_guest_state_window_started := True\<rparr>
              else e\<lparr>re_guest_pre_state_sequence := client_sequence\<rparr>);
         e = e\<lparr>re_state13 := keep_state (re_state13 e) (ss_state13 ss), re_state15 := keep_state (re_state15 e) (ss_state15 ss)\<rparr>
     in if ss_state13 ss \<noteq> None \<or> ss_state15 ss \<noteq> None then e\<lparr>re_guest_state_final_sequence := client_sequence\<rparr> else e)"

text \<open>An endpoint whose client has not acknowledged the last packet of its seed.\<close>

definition seed_pending :: "endpoint_wire_state \<Rightarrow> bool" where
  "seed_pending w \<longleftrightarrow> (let target = int (umask 28 (ew_ready_seed_final_sequence w))
     in target \<noteq> 0 \<and> \<not> sequence_acked (ew_last_client_acknowledgement w) target)"

fun any_pending :: "service_state \<Rightarrow> address list \<Rightarrow> service_error + bool" where
  "any_pending sv [] = Inr False"
| "any_pending sv (a # as) = sv_with_wire a sv (\<lambda>w. rbind (any_pending sv as) (\<lambda>rest. Inr (seed_pending w \<or> rest)))"

section \<open>Releasing the state pair\<close>

definition send_states ::
  "publisher \<Rightarrow> rat \<Rightarrow> (int \<times> int \<times> bytes) list \<Rightarrow> address \<Rightarrow> service_state \<Rightarrow> service_error + service_state" where
  "send_states pb now window a sv = sv_with_wire a sv (\<lambda>w.
     let base = int (umask 28 (ew_next_server_sequence w))
     in rbind (send_window pb now base window a ''ready-state-window'' sv)
        (modify_wire (ew_next_server_sequence_update (\<lambda>_. int (umask 28 (base + int (length window))))) a))"

definition append_ready_state_pair ::
  "publisher \<Rightarrow> rat \<Rightarrow> address \<Rightarrow> ready_epoch \<Rightarrow> int \<Rightarrow> service_state \<Rightarrow> service_error + service_state" where
  "append_ready_state_pair pb now a e ack sv = sv_with_wire a sv (\<lambda>w.
     let footer = wire_footer now sv a w
     in send_states pb now
          [(1, ack, re_state13 e @ [0x04] @ CONTROL_81 @ footer @ [0x44]),
           (2, ack, re_state15 e @ [0x04] @ re_state13 e @ [0x04, 0x12] @ CONTROL_81 @ footer @ [0x44])] a sv)"

definition control_and_pair ::
  "publisher \<Rightarrow> rat \<Rightarrow> address \<Rightarrow> ready_epoch \<Rightarrow> service_state \<Rightarrow> service_error + service_state" where
  "control_and_pair pb now a e sv = sv_with_wire a sv (\<lambda>w.
     let ack = (if binding_is_host sv a then int (umask 28 (re_source_final_sequence e)) else current_ack a w)
     in rbind (send_states pb now [(0, ack, CONTROL_81)] a sv) (append_ready_state_pair pb now a e ack))"

definition invite_host_window :: "int \<Rightarrow> bytes \<Rightarrow> bytes \<Rightarrow> bytes \<Rightarrow> service_error + (int \<times> int \<times> bytes) list" where
  "invite_host_window ack footer state13 state15 =
    (let control = CONTROL_81 @ PLAIN_TERMINATOR
     in rbind (history state13) (\<lambda>h13. rbind (history state15) (\<lambda>h15.
        Inr [(0, ack, footer @ NGL_FOOTER_FLAG),
             (1, ack, control @ footer @ NGL_FOOTER_WITH_TRAILER),
             (2, ack, state13 @ control @ REDUNDANT_BODY_SEPARATOR @ footer @ NGL_FOOTER_WITH_TRAILER),
             (2, ack, state15 @ h13 @ control @ REDUNDANT_BODY_SEPARATOR),
             (2, ack, state13 @ h15 @ h13)])))"

definition append_invite_host ::
  "publisher \<Rightarrow> rat \<Rightarrow> address \<Rightarrow> ready_epoch \<Rightarrow> service_state \<Rightarrow> service_error + service_state" where
  "append_invite_host pb now a e sv = sv_with_wire a sv (\<lambda>w.
     rbind (invite_host_window (current_ack a w) (wire_footer now sv a w)
              (re_state13 e @ PLAIN_TERMINATOR) (re_state15 e @ PLAIN_TERMINATOR)) (\<lambda>window.
       send_states pb now window a sv))"

definition invite_guest_window ::
  "int \<Rightarrow> int \<Rightarrow> bytes \<Rightarrow> bytes \<Rightarrow> bytes \<Rightarrow> bytes \<Rightarrow> service_error + (int \<times> int \<times> bytes) list" where
  "invite_guest_window first_ack ack footer_record latency state13 state15 =
    (let control = CONTROL_81 @ PLAIN_TERMINATOR
     in rbind (history latency) (\<lambda>hl. rbind (history footer_record) (\<lambda>hf. rbind (history control) (\<lambda>hc.
        rbind (history state13) (\<lambda>h13. rbind (history state15) (\<lambda>h15.
        Inr [(1, if first_ack \<noteq> 0 then first_ack else ack, footer_record @ hl),
             (1, ack, control @ hf),
             (2, ack, state13 @ hc @ hf),
             (3, ack, state15 @ h13 @ hc @ hf),
             (3, ack, state13 @ h15 @ h13 @ hc)]))))))"

definition append_invite_guest ::
  "publisher \<Rightarrow> rat \<Rightarrow> address \<Rightarrow> ready_epoch \<Rightarrow> service_state \<Rightarrow> service_error + service_state" where
  "append_invite_guest pb now a e sv = sv_with_wire a sv (\<lambda>w.
     let final = int (umask 28 (re_guest_state_final_sequence e));
         ack = (if final = 0 then current_ack a w else final)
     in rbind (invite_guest_window (int (umask 28 (re_guest_pre_state_sequence e))) ack
              (wire_footer now sv a w @ NGL_FOOTER_FLAG) (ew_latest_latency_info w @ PLAIN_TERMINATOR)
              (re_state13 e @ PLAIN_TERMINATOR) (re_state15 e @ PLAIN_TERMINATOR)) (\<lambda>window.
        send_states pb now window a sv))"

definition release_states ::
  "publisher \<Rightarrow> rat \<Rightarrow> bool \<Rightarrow> ready_epoch \<Rightarrow> address \<Rightarrow> service_state \<Rightarrow> service_error + service_state" where
  "release_states pb now invited e a sv = sv_with_wire a sv (\<lambda>w.
     if ew_ready_epoch_generation w \<noteq> re_generation e then Inr sv
     else if invited \<and> binding_is_host sv a then append_invite_host pb now a e sv
     else if invited \<and> \<not> binding_is_host sv a \<and> is_latency_info (ew_latest_latency_info w) then append_invite_guest pb now a e sv
     else control_and_pair pb now a e sv)"

definition release_when_acknowledged ::
  "publisher \<Rightarrow> rat \<Rightarrow> ticket_resolution \<Rightarrow> nat list \<Rightarrow> ready_epoch \<Rightarrow> service_state \<Rightarrow> service_error + nat list \<times> service_state" where
  "release_when_acknowledged pb now t matched e sv =
    (let gid = tk_gid t; endpoints = session_endpoints sv gid in
     if re_state13 e = [] \<or> re_state15 e = [] then Inr (matched, sv)
     else if length endpoints < 2 then Inr ([], sv)
     else rbind (any_pending sv endpoints) (\<lambda>pending.
       if pending then Inr (matched, put_epoch gid (e\<lparr>re_seed_ack_wait_logged := True\<rparr>) sv)
       else rbind (each_endpoint (release_states pb now (invited_dedicated_flow sv (live_game sv t) endpoints) e) endpoints sv) (\<lambda>sv.
         Inr (matched, put_epoch gid (e\<lparr>re_stage := STATE_PAIR_SENT_WAIT_HOST_NATIVE_BUNDLE\<rparr>) sv))))"

definition relay_clean_state13_ack ::
  "publisher \<Rightarrow> rat \<Rightarrow> address \<Rightarrow> ticket_resolution \<Rightarrow> commudp_active list \<Rightarrow> service_state \<Rightarrow>
    service_error + nat list \<times> service_state" where
  "relay_clean_state13_ack pb now source t active_packets sv =
    (case map_of (sv_ready_epochs sv) (tk_gid t) of
       None \<Rightarrow> Inr ([], sv)
     | Some e \<Rightarrow>
         if re_stage e \<noteq> SEED_SENT_WAIT_GUEST_13_15 then Inr ([], sv)
         else if \<not> is_host sv t \<and> tk_player_id t = re_guest_pid e
         then sv_with_wire source sv (\<lambda>w.
           let ss = guest_states (id_persona (cp_identity (tk_participant t))) active_packets;
               e = cache_states (current_ack source w) ss e
           in release_when_acknowledged pb now t (ss_matched ss) e (put_epoch (tk_gid t) e sv))
         else release_when_acknowledged pb now t [] e sv)"

end
