(* ===== verification/ServiceProps.thy ===== *)
theory ServiceProps
  imports ReadyState OutboundProps
begin

text \<open>
  What publishing leaves alone.  Every window of the Ready and room coordinators changes the
  outbound part of the service only, as a run of the publisher, and at the endpoint it is
  sent to; the frame lemmas here carry the proofs about whole handlers.
\<close>

section \<open>Reading a handler's result\<close>

lemma sv_with_wire_Inr: "sv_with_wire a sv f = Inr x \<longleftrightarrow> (\<exists>w. map_of (sv_wires sv) a = Some w \<and> f w = Inr x)"
  by (simp add: sv_with_wire_def split: option.split)

lemma sv_with_binding_Inr: "sv_with_binding a sv f = Inr x \<longleftrightarrow> (\<exists>t. map_of (sv_bindings sv) a = Some t \<and> f t = Inr x)"
  by (simp add: sv_with_binding_def split: option.split)

lemmas handler_results = sv_with_wire_Inr sv_with_binding_Inr rbind_eq_Inr Let_def

lemma sv_put_wire_simps [simp]: "sv_wires (sv_put_wire a w sv) = AList.update a w (sv_wires sv)"
    "sv_bindings (sv_put_wire a w sv) = sv_bindings sv" "sv_games (sv_put_wire a w sv) = sv_games sv"
    "sv_races (sv_put_wire a w sv) = sv_races sv" "sv_ready_epochs (sv_put_wire a w sv) = sv_ready_epochs sv"
    "sv_ready_generations (sv_put_wire a w sv) = sv_ready_generations sv"
    "ob_replies (sv_out (sv_put_wire a w sv)) = ob_replies (sv_out sv)"
  by (simp_all add: sv_put_wire_def)

section \<open>Publishing\<close>

text \<open>From one state to another by publishing and by writing wires only.\<close>

definition published :: "publisher \<Rightarrow> service_state \<Rightarrow> service_state \<Rightarrow> bool" where
  "published pb sv sv' \<longleftrightarrow> sv' = sv\<lparr>sv_out := sv_out sv'\<rparr> \<and> (\<exists>sent. publisher_run pb (sv_out sv) sent (sv_out sv'))"

lemma published_refl [simp]: "published pb sv sv"
  by (auto simp: published_def intro: publisher_run.Start)

lemma published_trans: "published pb sv1 sv2 \<Longrightarrow> published pb sv2 sv3 \<Longrightarrow> published pb sv1 sv3"
proof -
  assume a: "published pb sv1 sv2" "published pb sv2 sv3"
  then obtain s1 s2 where "publisher_run pb (sv_out sv1) s1 (sv_out sv2)" "publisher_run pb (sv_out sv2) s2 (sv_out sv3)"
    by (auto simp: published_def)
  then have "\<exists>sent. publisher_run pb (sv_out sv1) sent (sv_out sv3)" using publisher_run_trans by blast
  moreover have "sv3 = sv1\<lparr>sv_out := sv_out sv3\<rparr>" using a unfolding published_def
    by (metis service_state.surjective service_state.update_convs(1))
  ultimately show ?thesis by (simp add: published_def)
qed

lemma published_frame:
  "published pb sv sv' \<Longrightarrow> sv_bindings sv' = sv_bindings sv \<and> sv_races sv' = sv_races sv \<and> sv_ready_epochs sv' = sv_ready_epochs sv \<and>
     sv_ready_generations sv' = sv_ready_generations sv \<and> sv_games sv' = sv_games sv \<and> sv_trackers sv' = sv_trackers sv \<and>
     sv_joiner_windows sv' = sv_joiner_windows sv \<and> sv_transitions_sent sv' = sv_transitions_sent sv"
  by (auto simp: published_def dest: arg_cong[of sv' _ sv_bindings] arg_cong[of sv' _ sv_races] arg_cong[of sv' _ sv_ready_epochs]
     arg_cong[of sv' _ sv_ready_generations] arg_cong[of sv' _ sv_games] arg_cong[of sv' _ sv_trackers]
     arg_cong[of sv' _ sv_joiner_windows] arg_cong[of sv' _ sv_transitions_sent])

lemma published_put_wire:
  "map_of (sv_wires sv) a = Some w \<Longrightarrow> ew_next_offset_words w' = ew_next_offset_words w \<Longrightarrow> published pb sv (sv_put_wire a w' sv)"
  unfolding published_def sv_put_wire_def
  using publisher_run.Keep[OF publisher_run.Start, of "put_wire a w' (sv_out sv)" "sv_out sv" pb] put_wire_position[of "sv_out sv" a w w']
  by auto

lemma published_send: "send_packets pb now packets a label sv = Inr sv' \<Longrightarrow> published pb sv sv'"
  by (auto simp: send_packets_def published_def handler_results dest: publisher_run_send)

lemma published_window: "send_window pb now base window a label sv = Inr sv' \<Longrightarrow> published pb sv sv'"
  by (auto simp: send_window_def handler_results dest: published_send)

lemma published_modify:
  "(\<And>w. ew_next_offset_words (f w) = ew_next_offset_words w) \<Longrightarrow> modify_wire f a sv = Inr sv' \<Longrightarrow> published pb sv sv'"
  by (auto simp: modify_wire_def handler_results intro: published_put_wire)

lemma published_each:
  "(\<And>a sv sv'. f a sv = Inr sv' \<Longrightarrow> published pb sv sv') \<Longrightarrow> each_endpoint f as sv = Inr sv' \<Longrightarrow> published pb sv sv'"
proof (induction as arbitrary: sv)
  case (Cons a as)
  then obtain sv1 where "f a sv = Inr sv1" "each_endpoint f as sv1 = Inr sv'" by (auto simp: rbind_eq_Inr)
  with Cons.IH Cons.prems(1) show ?case by (blast intro: published_trans)
qed simp

lemma live_game_cong: "sv_games sv' = sv_games sv \<Longrightarrow> live_game sv' = live_game sv"
  by (rule ext) (simp add: live_game_def)

lemma is_host_cong: "sv_games sv' = sv_games sv \<Longrightarrow> is_host sv' = is_host sv"
proof (rule ext)
  fix t assume "sv_games sv' = sv_games sv"
  from live_game_cong[OF this] show "is_host sv' t = is_host sv t" by (simp only: is_host_def)
qed

lemma session_endpoints_cong:
  "sv_games sv' = sv_games sv \<Longrightarrow> sv_bindings sv' = sv_bindings sv \<Longrightarrow> session_endpoints sv' = session_endpoints sv"
proof (rule ext)
  fix gid assume g: "sv_games sv' = sv_games sv" and b: "sv_bindings sv' = sv_bindings sv"
  have "endpoint_key sv' = endpoint_key sv" by (simp only: endpoint_key_def is_coordinator_def live_game_cong[OF g])
  with b show "session_endpoints sv' gid = session_endpoints sv gid" by (simp only: session_endpoints_def)
qed

lemma set_session_endpoints: "a \<in> set (session_endpoints sv gid) \<longleftrightarrow> (\<exists>t. (a, t) \<in> set (sv_bindings sv) \<and> tk_gid t = gid)"
  by (force simp: session_endpoints_def)

lemma distinct_session_endpoints: "distinct (map fst (sv_bindings sv)) \<Longrightarrow> distinct (session_endpoints sv gid)"
proof -
  assume "distinct (map fst (sv_bindings sv))"
  then have "distinct (map fst (filter (\<lambda>(a, t). tk_gid t = gid) (sv_bindings sv)))" by (rule distinct_map_filter)
  moreover have "distinct (map fst xs) \<longleftrightarrow> distinct (map fst (sort_key f xs))" for f :: "address \<times> ticket_resolution \<Rightarrow> bool \<times> int \<times> address" and xs
    by (metis mset_map mset_sort mset_eq_imp_distinct_iff)
  ultimately show ?thesis by (simp add: session_endpoints_def)
qed

section \<open>Windows at one endpoint\<close>

lemma send_packets_wires:
  assumes "send_packets pb now packets a label sv = Inr sv'"
  shows "\<exists>w. map_of (sv_wires sv) a = Some w \<and> map_of (sv_wires sv') =
    (map_of (sv_wires sv))(a \<mapsto> w\<lparr>ew_next_offset_words := ew_next_offset_words w + cipher_step packets\<rparr>)"
proof -
  from assms obtain ob' where "append_packets pb now packets a (Some label) False (sv_out sv) = Inr ob'" "sv' = sv\<lparr>sv_out := ob'\<rparr>"
    by (auto simp: send_packets_def handler_results)
  then show ?thesis
    by (auto simp: append_packets_def append_datagram_def with_wire_Inr rbind_eq_Inr Let_def AList.update_conv' map_of_setdefault
      fun_eq_iff split: if_splits)
qed

lemma send_packets_reply:
  assumes "send_packets pb now packets a label sv = Inr sv'"
  shows "\<exists>encoded. ob_replies (sv_out sv') = ob_replies (sv_out sv) @ [(encoded, a)]"
  using assms append_packets_sent by (fastforce simp: send_packets_def handler_results)

lemma flagged_packets_length: "flagged_packets s window = Inr packets \<Longrightarrow> length packets = length window"
  by (induction s window arbitrary: packets rule: flagged_packets.induct) (auto simp: rbind_eq_Inr)

lemma send_window_wires:
  "send_window pb now base window a label sv = Inr sv' \<Longrightarrow>
    \<exists>w n. map_of (sv_wires sv) a = Some w \<and> map_of (sv_wires sv') = (map_of (sv_wires sv))(a \<mapsto> w\<lparr>ew_next_offset_words := n\<rparr>)"
proof -
  assume "send_window pb now base window a label sv = Inr sv'"
  then obtain packets where "send_packets pb now packets a label sv = Inr sv'" by (auto simp: send_window_def handler_results)
  from send_packets_wires[OF this] show ?thesis by blast
qed

lemma modify_wire_wires:
  "modify_wire f a sv = Inr sv' \<longleftrightarrow> (\<exists>w. map_of (sv_wires sv) a = Some w \<and> sv' = sv_put_wire a (f w) sv)"
  by (auto simp: modify_wire_def handler_results)

text \<open>A step at one endpoint at a time, over distinct endpoints.\<close>

definition local_step :: "(address \<Rightarrow> endpoint_wire_state \<Rightarrow> endpoint_wire_state \<Rightarrow> bool) \<Rightarrow> address \<Rightarrow> service_state \<Rightarrow> service_state \<Rightarrow> bool" where
  "local_step R a sv sv' \<longleftrightarrow> (\<exists>w w'. map_of (sv_wires sv) a = Some w \<and> R a w w' \<and> map_of (sv_wires sv') = (map_of (sv_wires sv))(a \<mapsto> w'))"

lemma each_endpoint_local:
  assumes "\<And>a sv sv'. f a sv = Inr sv' \<Longrightarrow> local_step R a sv sv'" "distinct as" "each_endpoint f as sv = Inr sv'"
  shows "(\<forall>a \<in> set as. \<exists>w w'. map_of (sv_wires sv) a = Some w \<and> map_of (sv_wires sv') a = Some w' \<and> R a w w') \<and>
    (\<forall>a. a \<notin> set as \<longrightarrow> map_of (sv_wires sv') a = map_of (sv_wires sv) a)"
  using assms(2,3)
proof (induction as arbitrary: sv)
  case (Cons a as)
  then obtain sv1 where f: "f a sv = Inr sv1" and rest: "each_endpoint f as sv1 = Inr sv'" by (auto simp: rbind_eq_Inr)
  from assms(1)[OF f] obtain w w' where w: "map_of (sv_wires sv) a = Some w" "R a w w'"
      "map_of (sv_wires sv1) = (map_of (sv_wires sv))(a \<mapsto> w')" by (auto simp: local_step_def)
  have ih: "(\<forall>b \<in> set as. \<exists>w w'. map_of (sv_wires sv1) b = Some w \<and> map_of (sv_wires sv') b = Some w' \<and> R b w w')"
      "(\<forall>b. b \<notin> set as \<longrightarrow> map_of (sv_wires sv') b = map_of (sv_wires sv1) b)"
    using Cons.IH[OF _ rest] Cons.prems(1) by auto
  have "a \<notin> set as" using Cons.prems(1) by simp
  then have "map_of (sv_wires sv') a = map_of (sv_wires sv1) a" using ih(2) by blast
  then have "map_of (sv_wires sv') a = Some w'" using w(3) by simp
  with w(1,2) have "\<exists>w w'. map_of (sv_wires sv) a = Some w \<and> map_of (sv_wires sv') a = Some w' \<and> R a w w'" by blast
  moreover have "\<exists>w w'. map_of (sv_wires sv) b = Some w \<and> map_of (sv_wires sv') b = Some w' \<and> R b w w'" if "b \<in> set as" for b
    using bspec[OF ih(1) that] w(3) \<open>a \<notin> set as\<close> that by (cases "b = a") auto
  moreover have "map_of (sv_wires sv') b = map_of (sv_wires sv) b" if "b \<notin> set (a # as)" for b
  proof -
    have "map_of (sv_wires sv') b = map_of (sv_wires sv1) b" using that ih(2)[rule_format, of b] by simp
    then show ?thesis using that w(3) by simp
  qed
  ultimately show ?case by (metis set_ConsD)
qed simp

end
