(* ===== verification/ReadyExamples.thy ===== *)
theory ReadyExamples
  imports ServiceProps
begin

text \<open>
  A room with a host and one guest, the seed its host sends and the state while the guest's
  states are held: concrete inputs on which the theorems about the Ready negotiation are
  applied.
\<close>

section \<open>A room and its seed\<close>

definition plain_publisher :: publisher where
  "plain_publisher = \<lparr>pb_key = [1], pb_crypt = (\<lambda>key offset data. data)\<rparr>"

definition sample_identity :: "string \<Rightarrow> int \<Rightarrow> identity" where
  "sample_identity persona user = \<lparr>id_account_name = persona, id_persona = persona, id_profile_id = user, id_user_id = user\<rparr>"

definition sample_participant :: "string \<Rightarrow> int \<Rightarrow> carbon_participant" where
  "sample_participant persona user = \<lparr>cp_identity = sample_identity persona user, cp_player_id = user, cp_internal_ip = [], cp_internal_port = 0,
     cp_invite_remote_player_id = 0, cp_entered_at = 0, cp_external_ip = []\<rparr>"

definition sample_game :: carbon_game where
  "sample_game = \<lparr>cg_gid = ''7'', cg_ugid = [], cg_lobby_id = [], cg_session = 0, cg_host = sample_identity ''H'' 1,
     cg_properties = [(''B-U-game_type'', ''2'')], cg_participants = [(1, sample_participant ''H'' 1), (2, sample_participant ''G'' 2)],
     cg_completed_invite_entries = {||}, cg_server_hosted = False, cg_allocator_user_id = None, cg_coop_match_help_type = None,
     cg_quick_join_locked = False, cg_challenge_ready = False, cg_created_tick_ms = 0, cg_descriptor_handle_base = 0,
     cg_descriptor_slot_capacity = 0, cg_created_at = 0\<rparr>"

definition sample_ticket :: "string \<Rightarrow> int \<Rightarrow> ticket_resolution" where
  "sample_ticket persona user = \<lparr>tk_game = sample_game, tk_participant = sample_participant persona user\<rparr>"

definition host_address :: address where "host_address = (''h'', 1)"
definition guest_address :: address where "guest_address = (''g'', 2)"

definition sample_wire :: endpoint_wire_state where
  "sample_wire = initial_wire_state\<lparr>ew_footer := [0]\<rparr>"

definition sample_service :: service_state where
  "sample_service = \<lparr>sv_out = \<lparr>ob_wires = [(host_address, sample_wire), (guest_address, sample_wire)], ob_confirmations = None, ob_replies = []\<rparr>,
     sv_bindings = [(host_address, sample_ticket ''H'' 1), (guest_address, sample_ticket ''G'' 2)], sv_races = [], sv_ready_epochs = [],
     sv_ready_generations = [], sv_games = new_game_directory (''x'', 1) None ''k'' 1 True True, sv_trackers = [], sv_joiner_windows = {||},
     sv_transitions_sent = {||}, sv_object_ids = [], sv_object_next = [], sv_commit_times = [], sv_participant_endpoints = [],
     sv_published_joins = {||}, sv_reconnect_pending = {||}, sv_diagnostics = {||}\<rparr>"

lemma sample_live: "live_game sample_service (sample_ticket p u) = sample_game"
  by (simp add: live_game_def sample_service_def new_game_directory_def get_room_def sample_ticket_def)

lemma sample_is_host: "is_host sample_service (sample_ticket p u) \<longleftrightarrow> u = 1"
  by (simp add: is_host_def sample_live sample_game_def Let_def) (simp add: tk_user_id_def sample_ticket_def sample_participant_def sample_identity_def)

lemma sample_endpoints: "session_endpoints sample_service ''7'' = [host_address, guest_address]"
proof -
  have k: "endpoint_key sample_service (a, sample_ticket p u) = (True, u, a)" for a p u
    by (simp add: endpoint_key_def is_coordinator_def sample_live sample_game_def Let_def)
      (simp add: tk_player_id_def sample_ticket_def sample_participant_def)
  have "tk_gid (sample_ticket p u) = ''7''" for p u by (simp add: tk_gid_def sample_ticket_def sample_game_def)
  then show ?thesis by (simp add: session_endpoints_def sample_service_def[THEN arg_cong[of _ _ sv_bindings]] k insort_key.simps)
qed

definition seed_packet :: "nat \<Rightarrow> bytes \<Rightarrow> commudp_active" where
  "seed_packet sequence logical = \<lparr>ca_sequence = sequence, ca_acknowledgement = 0, ca_payload = replicate 8 0 @ logical @ [0x04], ca_game_manager = None\<rparr>"

definition sample_timer :: bytes where
  "sample_timer = [0, 0, 0, 0, 0x1B, 0, 0, 0, 5, 0, 0, 0, 0, 0x41, 0xF4, 0, 0]"

definition sample_seed :: "commudp_active list" where
  "sample_seed = [seed_packet (2 * 2 ^ 28 + 256) sample_timer, seed_packet 257 [0, 0, 0, 0, 0x1D], seed_packet 258 [0, 0, 0, 0, 0x1C, 0, 0, 0, 0, 0, 1],
     seed_packet (2 ^ 28 + 259) [0, 0, 0, 0, 0x14], seed_packet (2 * 2 ^ 28 + 260) [0, 0, 0, 0, 0x18]]"

lemma sample_logical: "active_logical (seed_packet n logical) = logical"
  by (simp add: active_logical_def seed_packet_def game_manager_body_def Let_def)

lemma sample_parts: "parts sample_seed = Some (sample_timer, [0, 0, 0, 0, 0x1D], [0, 0, 0, 0, 0x1C, 0, 0, 0, 0, 0, 1])"
proof -
  have s: "scan_packet sample_timer sp = sp\<lparr>sp_timer := Some sample_timer\<rparr>"
    "scan_packet [0, 0, 0, 0, 0x1D] sp = sp\<lparr>sp_attributes := Some [0, 0, 0, 0, 0x1D]\<rparr>"
    "scan_packet [0, 0, 0, 0, 0x1C, 0, 0, 0, 0, 0, 1] sp = sp\<lparr>sp_state1 := Some [0, 0, 0, 0, 0x1C, 0, 0, 0, 0, 0, 1]\<rparr>"
    "scan_packet [0, 0, 0, 0, 0x14] sp = sp\<lparr>sp_matchmaking_off := True\<rparr>"
    "scan_packet [0, 0, 0, 0, 0x18] sp = sp\<lparr>sp_disable_joins := True\<rparr>" for sp
    by (simp_all add: scan_packet_def sample_timer_def logical_type_def ol_type_def LOGICAL_PREFIX_def current_timer_body_def timer_id_def
      timer_duration_def RACE_COUNTDOWN_def slice_def be_nat_def unpack_f32_def Let_def current_active_game_body_def state_value_def)
  show ?thesis
    by (simp add: parts_def sample_seed_def sample_logical s no_parts_def Let_def) (simp add: active_flag_def seed_packet_def)
qed

lemmas window_defs = send_window_def flagged_packets.simps send_packets_def lift_publish_def active_packet_def encode_active_def u32_def umask_def
  append_packets_def append_datagram_def with_wire_def dict_setdefault_def set_wires_def put_wire_def lift_tunnel_def register_window_def
  encode_tunnel_datagram_def encode_datagram_def order_packets_def wire_size_def NATIVE_MAX_UDP_BYTES_def NATIVE_MAX_VIRTUAL_PACKETS_def
  NATIVE_MAX_VIRTUAL_PAYLOAD_def DEFAULT_ENCRYPTED_CHANNELS_def cipher_step_def cipher_region_size_def modify_wire_def sv_with_wire_def sv_put_wire_def

lemma sample_host_window: "is_ok (append_host plain_publisher 0 host_address 1 (sample_timer, [0, 0, 0, 0, 0x1D], [0, 0, 0, 0, 0x1C, 0, 0, 0, 0, 0, 1]) sample_service)"
  by (simp add: append_host_def sample_service_def window_defs host_address_def guest_address_def sample_wire_def initial_wire_state_def prepare_wire_def
    CONTROL_81_def CONTROL_80_def sample_timer_def plain_publisher_def seed_sent_def Let_def)

definition seeded_service :: service_state where
  "seeded_service = sample_service\<lparr>sv_races := [(''7'', initial_race_state)]\<rparr>"

lemmas sample_defs = sample_service_def host_address_def guest_address_def sample_wire_def initial_wire_state_def plain_publisher_def
  sample_ticket_def sample_participant_def sample_identity_def sample_game_def new_game_directory_def

lemma sample_open: "is_ok (open_epoch plain_publisher 0 ''7'' [host_address, guest_address] sample_seed
    (sample_timer, [0, 0, 0, 0, 0x1D], [0, 0, 0, 0, 0x1C, 0, 0, 0, 0, 0, 1]) seeded_service)"
  by (simp add: open_epoch_def seeded_service_def sample_defs first_binding_def is_host_def live_game_def get_room_def tk_user_id_def tk_gid_def
    sv_with_binding_def timer_logical_deadline_def sample_timer_def put_epoch_def publish_seed_def binding_is_host_def
    append_host_def append_guest_def guest_seed_def aggregate_def commudp_aggregate_payload_def find_host_def is_latency_info_def
    window_defs prepare_wire_def CONTROL_81_def CONTROL_80_def seed_sent_def race_of_def initial_race_state_def put_race_def
    record_countdown_wire_timer_def Let_def)

lemma sample_relay:
  "\<exists>sv'. relay_retail_ready_seed plain_publisher 0 (sample_ticket ''H'' 1) sample_seed sample_service = Inr ([0, 1, 2, 3, 4], sv')"
proof -
  obtain sv' where o: "open_epoch plain_publisher 0 ''7'' [host_address, guest_address] sample_seed
    (sample_timer, [0, 0, 0, 0, 0x1D], [0, 0, 0, 0, 0x1C, 0, 0, 0, 0, 0, 1]) seeded_service = Inr sv'" using sample_open by (auto simp: is_ok_iff)
  have g: "tk_gid (sample_ticket ''H'' 1) = ''7''" by (simp add: tk_gid_def sample_ticket_def sample_game_def)
  have c: "is_challenge sample_game" by (simp add: is_challenge_def sample_game_def get_or_def)
  have e: "ensure_race ''7'' sample_service = seeded_service"
    by (simp add: ensure_race_def seeded_service_def dict_setdefault_def) (simp add: sample_service_def)
  have r: "race_of ''7'' seeded_service = initial_race_state" by (simp add: race_of_def seeded_service_def)
  have d: "set_games (set_challenge_ready ''7'' True (sv_games seeded_service)) seeded_service = seeded_service"
    by (simp add: set_games_def set_challenge_ready_def seeded_service_def sample_service_def new_game_directory_def)
  have m: "map_of (sv_ready_epochs seeded_service) ''7'' = None" by (simp add: seeded_service_def sample_service_def)
  show ?thesis unfolding relay_retail_ready_seed_def Let_def g sample_live sample_endpoints sample_parts e d
    by (simp add: sample_is_host c r m o initial_race_state_def positions_def sample_seed_def[THEN arg_cong[of _ _ length]] upt_rec)
qed

definition sample_epoch :: ready_epoch where
  "sample_epoch = (new_epoch 1 (sample_ticket ''H'' 1) (sample_ticket ''G'' 2) sample_seed [] (Fin (61 / 2)) sample_wire)
     \<lparr>re_state13 := named_state ''G'' 13, re_state15 := anonymous_state 15\<rparr>"

definition waiting_service :: service_state where
  "waiting_service = sample_service\<lparr>sv_out := \<lparr>ob_wires = [(host_address, sample_wire\<lparr>ew_ready_epoch_generation := 1\<rparr>),
       (guest_address, sample_wire\<lparr>ew_ready_epoch_generation := 1\<rparr>)], ob_confirmations = None, ob_replies = []\<rparr>,
     sv_ready_epochs := [(''7'', sample_epoch)], sv_ready_generations := [(''7'', 1)]\<rparr>"

lemma waiting_same: "live_game waiting_service = live_game sample_service" "is_host waiting_service = is_host sample_service"
    "session_endpoints waiting_service = session_endpoints sample_service"
proof -
  have g: "sv_games waiting_service = sv_games sample_service" "sv_bindings waiting_service = sv_bindings sample_service"
    by (simp_all add: waiting_service_def)
  show "live_game waiting_service = live_game sample_service" by (rule live_game_cong[OF g(1)])
  show "is_host waiting_service = is_host sample_service" by (rule is_host_cong[OF g(1)])
  show "session_endpoints waiting_service = session_endpoints sample_service" by (rule session_endpoints_cong[OF g])
qed

lemma sample_epoch_simps: "re_stage sample_epoch = SEED_SENT_WAIT_GUEST_13_15" "re_generation sample_epoch = 1" "re_guest_pid sample_epoch = 2"
    "re_state13 sample_epoch = [0, 0, 0, 0, 28, 0, 1, 71, 0, 0, 0, 13]" "re_state15 sample_epoch = [0, 0, 0, 0, 28, 0, 0, 0, 0, 0, 15]"
    "re_source_final_sequence sample_epoch = 260"
  by (simp_all add: sample_epoch_def new_epoch_def named_state_def anonymous_state_def utf8_encode_def utf8_char_def olmsg_def LOGICAL_PREFIX_def to_be_numeral umask_def
     source_sequence_def sample_seed_def seed_packet_def tk_player_id_def sample_ticket_def sample_participant_def)

lemma sample_release:
  "is_ok (relay_clean_state13_ack plain_publisher 0 host_address (sample_ticket ''H'' 1) [] waiting_service)"
proof -
  have g: "tk_gid (sample_ticket ''H'' 1) = ''7''" by (simp add: tk_gid_def sample_ticket_def sample_game_def)
  have e: "map_of (sv_ready_epochs waiting_service) ''7'' = Some sample_epoch" by (simp add: waiting_service_def)
  have p: "any_pending waiting_service [host_address, guest_address] = Inr False"
    by (simp add: sv_with_wire_def waiting_service_def sample_defs seed_pending_def umask_def)
  have i: "invited_dedicated_flow waiting_service sample_game [host_address, guest_address] = False"
    by (simp add: invited_dedicated_flow_def sample_game_def)
  have r: "is_ok (each_endpoint (release_states plain_publisher 0 False sample_epoch) [host_address, guest_address] waiting_service)"
    by (simp add: release_states_def control_and_pair_def append_ready_state_pair_def send_states_def current_ack_def wire_footer_def
      binding_is_host_def sample_epoch_simps waiting_service_def sample_defs is_host_def live_game_def get_room_def tk_user_id_def tk_gid_def
      window_defs CONTROL_81_def Let_def)
  from r obtain sv' where "each_endpoint (release_states plain_publisher 0 False sample_epoch) [host_address, guest_address] waiting_service = Inr sv'"
    unfolding is_ok_iff by blast
  then show ?thesis
    unfolding relay_clean_state13_ack_def g e option.case release_when_acknowledged_def Let_def waiting_same sample_endpoints p sample_live i rbind_Inr
    by (simp add: sample_epoch_simps sample_is_host is_ok_iff del: each_endpoint.simps)
qed

end
