(* ===== verification/ReadyProps.thy ===== *)
theory ReadyProps
  imports ReadyExamples
begin

text \<open>
  The Ready negotiation of a room: its windows are well formed and read back, the guest's
  states are held until every seed is acknowledged, and whatever the handlers do in whatever
  order, the negotiation of a room only moves forward.
\<close>

section \<open>Windows read back\<close>

lemma active_packet_parsed:
  assumes "active_packet s ack body = Inr p"
  shows "parse_channel_one p = Some (Active \<lparr>ca_sequence = nat s, ca_acknowledgement = nat ack, ca_payload = tp_payload p,
      ca_game_manager = parse_game_manager (tp_payload p)\<rparr>) \<and> 0 \<le> s \<and> drop 8 (tp_payload p) = body \<and> tp_channel p = 1"
proof -
  from assms obtain payload where e: "encode_active s ack body = Inr payload" and p: "p = \<lparr>tp_channel = 1, tp_payload = payload\<rparr>"
    by (auto simp: active_packet_def split: sum.splits)
  from e have r: "0 \<le> s" "s \<le> 0xFFFFFFFF" "0 \<le> ack" "ack \<le> 0xFFFFFFFF" "body \<noteq> []" "payload = to_be 4 (nat s) @ to_be 4 (nat ack) @ body"
    by (auto simp: encode_active_def u32_def rbind_eq_Inr split: if_splits)
  then have "length payload \<noteq> 8" "drop 8 payload = body" by simp_all
  moreover have "be_nat (slice 0 4 payload) = nat s" "be_nat (slice 4 8 payload) = nat ack"
    using r by (simp_all add: slice_def be_nat_to_be nat_less_iff)
  moreover have "8 \<le> length payload" using r(6) by simp
  ultimately show ?thesis using r(1) by (simp add: p parse_channel_one_def parse_active_def)
qed

text \<open>What the receiver reads in a packet: flag, sequence, acknowledgement and body.\<close>

definition read_packet :: "tunnel_packet \<Rightarrow> (int \<times> int \<times> int \<times> bytes) option" where
  "read_packet p = (case parse_channel_one p of
      Some (Active a) \<Rightarrow> Some (int (ca_sequence a) div 2 ^ 28, int (ca_sequence a) mod 2 ^ 28, int (ca_acknowledgement a), drop 8 (ca_payload a))
    | _ \<Rightarrow> None)"

lemma read_flagged:
  assumes "active_packet (push_bit 28 flag OR int (umask 28 s)) ack body = Inr p" "0 \<le> flag" "0 \<le> ack"
  shows "read_packet p = Some (flag, s mod 2 ^ 28, ack, body)"
proof -
  have "int (umask 28 s) < 2 ^ 28" using umask_less[of 28 s] by simp
  then have sp: "push_bit 28 flag OR int (umask 28 s) = flag * 2 ^ 28 + int (umask 28 s)" using split_nibble[OF assms(2)] by simp
  from active_packet_parsed[OF assms(1)] have p: "parse_channel_one p = Some (Active \<lparr>ca_sequence = nat (flag * 2 ^ 28 + int (umask 28 s)),
      ca_acknowledgement = nat ack, ca_payload = tp_payload p, ca_game_manager = parse_game_manager (tp_payload p)\<rparr>)" "drop 8 (tp_payload p) = body"
    "0 \<le> flag * 2 ^ 28 + int (umask 28 s)" unfolding sp by auto
  have "int (umask 28 s) = s mod 2 ^ 28" by (simp add: umask_def)
  then show ?thesis using p assms(3) nibble_parts[of "int (umask 28 s)" flag] umask_less[of 28 s] by (simp add: read_packet_def)
qed

text \<open>
  C9. A window is read back by the receiver as it was meant: the packets carry the given flags,
  consecutive sequence numbers modulo 2^28 from the base on, the given acknowledgements and
  the bodies unchanged.
\<close>

theorem windows_read_back:
  "flagged_packets base window = Inr packets \<Longrightarrow> (\<forall>(flag, ack, body) \<in> set window. 0 \<le> flag \<and> 0 \<le> ack) \<Longrightarrow>
   map read_packet packets = map (\<lambda>(i, flag, ack, body). Some (flag, (base + int i) mod 2 ^ 28, ack, body)) (enumerate 0 window)"
proof (induction base window arbitrary: packets rule: flagged_packets.induct)
  case (2 base flag ack body rest)
  from "2.prems"(1) obtain p ps where p: "active_packet (push_bit 28 flag OR int (umask 28 base)) ack body = Inr p"
      "flagged_packets (base + 1) rest = Inr ps" "packets = p # ps" by (auto simp: rbind_eq_Inr)
  have "read_packet p = Some (flag, base mod 2 ^ 28, ack, body)" using read_flagged[OF p(1)] "2.prems"(2) by simp
  moreover have "map read_packet ps = map (\<lambda>(i, flag, ack, body). Some (flag, (base + 1 + int i) mod 2 ^ 28, ack, body)) (enumerate 0 rest)"
    using "2.IH" p(2) "2.prems"(2) by (cases p) auto
  moreover have "map (\<lambda>(i, flag, ack, body). Some (flag, (base + 1 + int i) mod 2 ^ 28, ack, body)) (enumerate 0 rest) =
      map (\<lambda>(i, flag, ack, body). Some (flag, (base + int i) mod 2 ^ 28, ack, body)) (enumerate (Suc 0) rest)"
    by (rule nth_equalityI) (auto simp: nth_enumerate_eq split: prod.splits simp: algebra_simps)
  ultimately show ?case by (simp add: p(3) split_def)
qed simp

section \<open>Handlers publish\<close>

lemma published_sequence: "modify_wire (ew_next_server_sequence_update f) a sv = Inr sv' \<Longrightarrow> published pb sv sv'"
  by (erule published_modify[rotated]) simp

lemma published_states: "send_states pb now window a sv = Inr sv' \<Longrightarrow> published pb sv sv'"
  by (auto simp: send_states_def handler_results dest!: published_window published_sequence[of _ _ _ _ pb] intro: published_trans)

lemma published_relay_window: "relay_window pb now ack actives a sv = Inr sv' \<Longrightarrow> published pb sv sv'"
  by (auto simp: relay_window_def handler_results dest!: published_window published_sequence[of _ _ _ _ pb] intro: published_trans)

lemma published_release: "release_states pb now invited e a sv = Inr sv' \<Longrightarrow> published pb sv sv'"
  by (auto simp: release_states_def append_invite_host_def append_invite_guest_def control_and_pair_def append_ready_state_pair_def
      handler_results dest!: published_states intro: published_trans split: if_splits)

lemma published_seed_sent: "modify_wire (seed_sent b) a sv = Inr sv' \<Longrightarrow> published pb sv sv'"
  by (erule published_modify[rotated]) (simp add: seed_sent_def)

lemma published_latency: "modify_wire (ew_ready_seed_used_latency_history_update f) a sv = Inr sv' \<Longrightarrow> published pb sv sv'"
  by (erule published_modify[rotated]) simp

lemma published_prepare: "map_of (sv_wires sv) a = Some w \<Longrightarrow> published pb sv (sv_put_wire a (prepare_wire g w) sv)"
  by (rule published_put_wire) (simp_all add: prepare_wire_def)

lemma published_host: "append_host pb now a g seed sv = Inr sv' \<Longrightarrow> published pb sv sv'"
proof -
  assume "append_host pb now a g seed sv = Inr sv'"
  then show ?thesis
    by (cases seed) (auto simp: append_host_def handler_results dest!: published_window published_seed_sent[of _ _ _ _ pb]
        published_prepare[of _ _ _ pb g] intro: published_trans)
qed

lemma published_history: "guest_history pb now a b ack h l sv = Inr sv' \<Longrightarrow> published pb sv sv'"
  by (auto simp: guest_history_def handler_results dest!: published_window intro: published_trans)

lemma published_guest_seed: "guest_seed pb now a b ack seed sv = Inr sv' \<Longrightarrow> published pb sv sv'"
  by (cases seed) (auto simp: guest_seed_def handler_results dest!: published_window published_seed_sent[of _ _ _ _ pb] intro: published_trans)

lemma published_guest: "append_guest pb now a as g seed sv = Inr (pair, sv') \<Longrightarrow> published pb sv sv'"
  unfolding append_guest_def handler_results
  by (auto split: if_splits dest!: published_history published_guest_seed published_latency[of _ _ _ _ pb] published_prepare[of _ _ _ pb g]
      intro: published_trans)

lemma published_publish_seed: "publish_seed pb now as g seed a sv = Inr sv' \<Longrightarrow> published pb sv sv'"
  by (auto simp: publish_seed_def rbind_eq_Inr split: if_splits dest: published_host published_guest)

lemma published_pair: "send_pair pb now d sv = Inr sv' \<Longrightarrow> published pb sv sv'"
  by (cases d) (auto simp: send_pair_def handler_results dest!: published_send published_sequence[of _ _ _ _ pb] intro: published_trans)

lemma published_pairs: "send_pairs pb now ds sv = Inr sv' \<Longrightarrow> published pb sv sv'"
proof (induction ds arbitrary: sv)
  case (Cons d ds)
  then obtain sv1 where "send_pair pb now d sv = Inr sv1" "send_pairs pb now ds sv1 = Inr sv'" by (auto simp: rbind_eq_Inr)
  with Cons.IH show ?case by (blast intro: published_trans dest: published_pair)
qed simp

section \<open>What a handler does to the epochs\<close>

lemma put_epoch_simps [simp]: "sv_out (put_epoch gid e sv) = sv_out sv" "sv_bindings (put_epoch gid e sv) = sv_bindings sv"
    "sv_games (put_epoch gid e sv) = sv_games sv" "sv_races (put_epoch gid e sv) = sv_races sv"
    "sv_ready_epochs (put_epoch gid e sv) = AList.update gid e (sv_ready_epochs sv)"
    "sv_ready_generations (put_epoch gid e sv) = sv_ready_generations sv"
  by (simp_all add: put_epoch_def)

lemma put_race_simps [simp]: "sv_out (put_race gid r sv) = sv_out sv" "sv_bindings (put_race gid r sv) = sv_bindings sv"
    "sv_games (put_race gid r sv) = sv_games sv" "sv_races (put_race gid r sv) = AList.update gid r (sv_races sv)"
    "sv_ready_epochs (put_race gid r sv) = sv_ready_epochs sv" "sv_ready_generations (put_race gid r sv) = sv_ready_generations sv"
  by (simp_all add: put_race_def)

lemma endpoints_put_epoch [simp]: "session_endpoints (put_epoch gid e sv) = session_endpoints sv"
  by (rule session_endpoints_cong) simp_all

lemma any_pending_False: "any_pending sv as = Inr False \<longleftrightarrow> (\<forall>a \<in> set as. \<exists>w. map_of (sv_wires sv) a = Some w \<and> \<not> seed_pending w)"
proof (induction as)
  case (Cons a as)
  then show ?case by (cases "any_pending sv as") (auto simp: handler_results)
qed simp

lemma cache_states_kept: "re_stage (cache_states n ss e) = re_stage e" "re_generation (cache_states n ss e) = re_generation e"
    "re_host_pid (cache_states n ss e) = re_host_pid e" "re_wire_deadline (cache_states n ss e) = re_wire_deadline e"
  by (simp_all add: cache_states_def Let_def)

definition released :: "service_state \<Rightarrow> address list \<Rightarrow> ready_epoch \<Rightarrow> bool" where
  "released sv endpoints e \<longleftrightarrow> re_stage e = STATE_PAIR_SENT_WAIT_HOST_NATIVE_BUNDLE \<and> re_state13 e \<noteq> [] \<and> re_state15 e \<noteq> [] \<and>
     2 \<le> length endpoints \<and> (\<forall>a \<in> set endpoints. \<exists>w. map_of (sv_wires sv) a = Some w \<and> \<not> seed_pending w)"

lemma release_effect:
  assumes "release_when_acknowledged pb now t matched e sv = Inr (consumed, sv')" "map_of (sv_ready_epochs sv) (tk_gid t) = Some e"
    "re_stage e = SEED_SENT_WAIT_GUEST_13_15"
  shows "\<exists>e'. map_of (sv_ready_epochs sv') = (map_of (sv_ready_epochs sv))(tk_gid t \<mapsto> e') \<and> re_generation e' = re_generation e \<and>
    re_state13 e' = re_state13 e \<and> re_state15 e' = re_state15 e \<and> sv_ready_generations sv' = sv_ready_generations sv \<and> sv_races sv' = sv_races sv \<and>
    (re_stage e' = SEED_SENT_WAIT_GUEST_13_15 \<and> sv_out sv' = sv_out sv \<or> released sv (session_endpoints sv (tk_gid t)) e')"
proof -
  let ?as = "session_endpoints sv (tk_gid t)"
  consider (keep) "sv' = sv"
    | (wait) "sv' = put_epoch (tk_gid t) (e\<lparr>re_seed_ack_wait_logged := True\<rparr>) sv"
    | (release) sv1 where "re_state13 e \<noteq> []" "re_state15 e \<noteq> []" "2 \<le> length ?as" "any_pending sv ?as = Inr False"
        "each_endpoint (release_states pb now (invited_dedicated_flow sv (live_game sv t) ?as) e) ?as sv = Inr sv1"
        "sv' = put_epoch (tk_gid t) (e\<lparr>re_stage := STATE_PAIR_SENT_WAIT_HOST_NATIVE_BUNDLE\<rparr>) sv1"
    using assms(1) by (auto simp: release_when_acknowledged_def rbind_eq_Inr Let_def split: if_splits)
  then show ?thesis
  proof cases
    case keep
    then show ?thesis using assms(2,3) by (auto intro!: exI[of _ e])
  next
    case wait
    then show ?thesis using assms(3) by (auto simp: AList.update_conv')
  next
    case release
    have "published pb sv sv1" by (rule published_each[OF published_release release(5)])
    note frame = published_frame[OF this]
    show ?thesis using release frame by (auto simp: released_def AList.update_conv' any_pending_False)
  qed
qed


section \<open>Epochs move forward\<close>

fun stage_rank :: "ready_stage \<Rightarrow> nat" where
  "stage_rank SEED_SENT_WAIT_GUEST_13_15 = 1" | "stage_rank STATE_PAIR_SENT_WAIT_HOST_NATIVE_BUNDLE = 2"
| "stage_rank COUNTDOWN_ACTIVE = 3" | "stage_rank ABORTED = 4"

definition epoch_of :: "service_state \<Rightarrow> string \<Rightarrow> ready_epoch option" where
  "epoch_of sv = map_of (sv_ready_epochs sv)"

definition generation_of :: "service_state \<Rightarrow> string \<Rightarrow> int" where
  "generation_of sv gid = (case map_of (sv_ready_generations sv) gid of None \<Rightarrow> 0 | Some n \<Rightarrow> n)"

definition states_known :: "ready_epoch \<Rightarrow> bool" where
  "states_known e \<longleftrightarrow> re_state13 e \<noteq> [] \<and> re_state15 e \<noteq> []"

definition advanced :: "ready_epoch \<Rightarrow> ready_epoch \<Rightarrow> bool" where
  "advanced e e' \<longleftrightarrow> re_generation e' = re_generation e \<and> stage_rank (re_stage e) \<le> stage_rank (re_stage e') \<and> re_stage e' \<noteq> ABORTED \<and>
     (re_stage e' = SEED_SENT_WAIT_GUEST_13_15 \<or> states_known e' \<or>
      re_stage e \<noteq> SEED_SENT_WAIT_GUEST_13_15 \<and> re_state13 e' = re_state13 e \<and> re_state15 e' = re_state15 e)"

text \<open>What one handler may do to the epochs: nothing, or a move in the one room it serves.\<close>

definition epoch_step :: "string \<Rightarrow> service_state \<Rightarrow> service_state \<Rightarrow> bool" where
  "epoch_step gid sv sv' \<longleftrightarrow>
     (\<forall>other. other \<noteq> gid \<longrightarrow> epoch_of sv' other = epoch_of sv other \<and> generation_of sv' other = generation_of sv other) \<and>
     (generation_of sv' gid = generation_of sv gid \<and>
        (epoch_of sv' gid = epoch_of sv gid \<or> epoch_of sv' gid = None \<or>
         (\<exists>e e'. epoch_of sv gid = Some e \<and> epoch_of sv' gid = Some e' \<and> advanced e e')) \<or>
      generation_of sv' gid = generation_of sv gid + 1 \<and>
        (\<exists>e'. epoch_of sv' gid = Some e' \<and> re_stage e' = SEED_SENT_WAIT_GUEST_13_15 \<and> re_generation e' = generation_of sv' gid))"

lemma epoch_step_same: "sv_ready_epochs sv' = sv_ready_epochs sv \<Longrightarrow> sv_ready_generations sv' = sv_ready_generations sv \<Longrightarrow> epoch_step gid sv sv'"
  by (simp add: epoch_step_def epoch_of_def generation_of_def)

lemma epoch_step_frame:
  "epoch_step gid sv1 sv2 \<Longrightarrow> sv_ready_epochs sv1 = sv_ready_epochs sv \<Longrightarrow> sv_ready_generations sv1 = sv_ready_generations sv \<Longrightarrow>
     sv_ready_epochs sv' = sv_ready_epochs sv2 \<Longrightarrow> sv_ready_generations sv' = sv_ready_generations sv2 \<Longrightarrow> epoch_step gid sv sv'"
  by (simp add: epoch_step_def epoch_of_def generation_of_def)

lemma published_epoch_step: "published pb sv sv' \<Longrightarrow> epoch_step gid sv sv'"
  using published_frame by (blast intro: epoch_step_same)

lemma epoch_step_put:
  "epoch_of sv gid = Some e \<Longrightarrow> advanced e e' \<Longrightarrow> map_of (sv_ready_epochs sv') = (map_of (sv_ready_epochs sv))(gid \<mapsto> e') \<Longrightarrow>
     sv_ready_generations sv' = sv_ready_generations sv \<Longrightarrow> epoch_step gid sv sv'"
  by (auto simp: epoch_step_def epoch_of_def generation_of_def)

lemma states_step: "relay_clean_state13_ack pb now source t actives sv = Inr (consumed, sv') \<Longrightarrow> epoch_step (tk_gid t) sv sv'"
proof -
  assume r: "relay_clean_state13_ack pb now source t actives sv = Inr (consumed, sv')"
  show ?thesis
  proof (cases "\<exists>e. epoch_of sv (tk_gid t) = Some e \<and> re_stage e = SEED_SENT_WAIT_GUEST_13_15")
    case False
    with r show ?thesis by (auto simp: relay_clean_state13_ack_def epoch_of_def split: option.splits intro: epoch_step_same)
  next
    case True
    then obtain e where e: "map_of (sv_ready_epochs sv) (tk_gid t) = Some e" "re_stage e = SEED_SENT_WAIT_GUEST_13_15" by (auto simp: epoch_of_def)
    show ?thesis
    proof (cases "\<not> is_host sv t \<and> tk_player_id t = re_guest_pid e")
      case guest: True
      define ss where "ss = guest_states (id_persona (cp_identity (tk_participant t))) actives"
      from guest r e obtain w where "release_when_acknowledged pb now t (ss_matched ss) (cache_states (current_ack source w) ss e)
          (put_epoch (tk_gid t) (cache_states (current_ack source w) ss e) sv) = Inr (consumed, sv')"
        by (auto simp: relay_clean_state13_ack_def handler_results ss_def)
      from release_effect[OF this] e show ?thesis
        by (auto simp: AList.update_conv' cache_states_kept advanced_def released_def states_known_def epoch_of_def intro!: epoch_step_put[of sv _ e])
    next
      case False
      then have "release_when_acknowledged pb now t [] e sv = Inr (consumed, sv')" using r e by (auto simp: relay_clean_state13_ack_def)
      from release_effect[OF this e] e show ?thesis
        by (auto simp: advanced_def released_def states_known_def epoch_of_def intro!: epoch_step_put[of sv _ e])
    qed
  qed
qed

text \<open>An accepted bundle, taken apart.\<close>

definition bundle_admitted :: "service_state \<Rightarrow> ticket_resolution \<Rightarrow> commudp_active list \<Rightarrow> ready_epoch \<Rightarrow> bytes \<Rightarrow> bool" where
  "bundle_admitted sv t actives e timer \<longleftrightarrow> epoch_of sv (tk_gid t) = Some e \<and> bundle_timer actives = Some timer \<and> is_host sv t \<and>
     re_stage e = STATE_PAIR_SENT_WAIT_HOST_NATIVE_BUNDLE \<and> tk_player_id t = re_host_pid e \<and>
     (\<exists>deadline. timer_logical_deadline timer = Inr deadline \<and> \<not> deadline_drifts (fl_sub deadline (re_wire_deadline e)))"

lemma bundle_cases:
  assumes "relay_native_ready_bundle pb now t actives sv = Inr (consumed, sv')"
  obtains "consumed = []" "sv' = sv"
  | e timer sv1 where "bundle_admitted sv t actives e timer" "consumed = positions actives"
      "each_endpoint (relay_window pb now (bundle_ack sv (invited_dedicated_flow sv (live_game sv t) (session_endpoints sv (tk_gid t))) e) actives)
         (session_endpoints sv (tk_gid t)) sv = Inr sv1"
      "start_countdown now (tk_gid t) (live_game sv t) (session_endpoints sv (tk_gid t)) e actives timer sv1 = Inr sv'"
  using assms
  by (auto simp: relay_native_ready_bundle_def bundle_admitted_def epoch_of_def rbind_eq_Inr Let_def split: option.splits if_splits)

lemma lock_room_effect:
  assumes "fst (lock_room g race sv) = Inr (changed, race')" "sv' = snd (lock_room g race sv)"
  shows "rs_room_access race' = LOCKED \<and> rs_phase race' = rs_phase race \<and> rs_countdown_deadline race' = rs_countdown_deadline race \<and>
    sv_out sv' = sv_out sv \<and> sv_bindings sv' = sv_bindings sv \<and> sv_races sv' = sv_races sv \<and>
    sv_ready_epochs sv' = sv_ready_epochs sv \<and> sv_ready_generations sv' = sv_ready_generations sv"
  using assms by (auto simp: lock_room_def lock_room_access_def set_games_def Let_def split: if_split_asm)

lemma published_countdown_wire: "modify_wire (countdown_wire g) a sv = Inr sv' \<Longrightarrow> published pb sv sv'"
  by (erule published_modify[rotated]) (simp add: countdown_wire_def)

lemma start_countdown_effect:
  assumes "start_countdown now gid g as e actives timer sv = Inr sv'"
  obtains generation deadline drift race race1 race2 begun sv1 where
    "record_countdown_wire_timer ((race_of gid sv)\<lparr>rs_attributes := active_logical (hd actives), rs_countdown_duration := timer_duration timer\<rparr>) timer
       = Inr ((generation, deadline, drift), race)"
    "each_endpoint (modify_wire (countdown_wire generation)) as sv = Inr sv1"
    "begin_countdown now (race\<lparr>rs_countdown_deadline := fl_add (Fin now) (timer_duration timer)\<rparr>) = Inr (begun, race1)"
    "rs_room_access race2 = LOCKED" "rs_phase race2 = rs_phase race1"
    "sv_out sv' = sv_out sv1" "sv_bindings sv' = sv_bindings sv1"
    "map_of (sv_races sv') = (map_of (sv_races sv1))(gid \<mapsto> race2)"
    "map_of (sv_ready_epochs sv') = (map_of (sv_ready_epochs sv1))(gid \<mapsto> e\<lparr>re_native_bundle_hash := payload_hash actives,
       re_wire_deadline := deadline, re_stage := COUNTDOWN_ACTIVE\<rparr>)"
    "sv_ready_generations sv' = sv_ready_generations sv1"
proof -
  from assms obtain generation deadline drift race sv1 begun race1 changed race2 where
    r: "record_countdown_wire_timer ((race_of gid sv)\<lparr>rs_attributes := active_logical (hd actives), rs_countdown_duration := timer_duration timer\<rparr>) timer
       = Inr ((generation, deadline, drift), race)"
    "each_endpoint (modify_wire (countdown_wire generation)) as sv = Inr sv1"
    "begin_countdown now (race\<lparr>rs_countdown_deadline := fl_add (Fin now) (timer_duration timer)\<rparr>) = Inr (begun, race1)"
    "fst (lock_room g race1 (put_epoch gid (e\<lparr>re_native_bundle_hash := payload_hash actives, re_wire_deadline := deadline,
       re_stage := COUNTDOWN_ACTIVE\<rparr>) sv1)) = Inr (changed, race2)"
    "sv' = put_race gid race2 (snd (lock_room g race1 (put_epoch gid (e\<lparr>re_native_bundle_hash := payload_hash actives,
       re_wire_deadline := deadline, re_stage := COUNTDOWN_ACTIVE\<rparr>) sv1)))"
    by (auto simp: start_countdown_def rbind_eq_Inr Let_def)
  from lock_room_effect[OF r(4) refl] that[OF r(1-3)] r(5) show ?thesis by (auto simp: AList.update_conv')
qed

lemma bundle_step: "relay_native_ready_bundle pb now t actives sv = Inr (consumed, sv') \<Longrightarrow> epoch_step (tk_gid t) sv sv'"
proof (erule bundle_cases)
  fix e timer sv1
  assume adm: "bundle_admitted sv t actives e timer"
    and win: "each_endpoint (relay_window pb now (bundle_ack sv (invited_dedicated_flow sv (live_game sv t) (session_endpoints sv (tk_gid t))) e) actives)
         (session_endpoints sv (tk_gid t)) sv = Inr sv1"
    and start: "start_countdown now (tk_gid t) (live_game sv t) (session_endpoints sv (tk_gid t)) e actives timer sv1 = Inr sv'"
  note f1 = published_frame[OF published_each[OF published_relay_window win]]
  from start show ?thesis
  proof (rule start_countdown_effect)
    fix generation deadline and sv2 :: service_state
    assume m: "each_endpoint (modify_wire (countdown_wire generation)) (session_endpoints sv (tk_gid t)) sv1 = Inr sv2"
      and e: "map_of (sv_ready_epochs sv') = (map_of (sv_ready_epochs sv2))(tk_gid t \<mapsto>
          e\<lparr>re_native_bundle_hash := payload_hash actives, re_wire_deadline := deadline, re_stage := COUNTDOWN_ACTIVE\<rparr>)"
      and g: "sv_ready_generations sv' = sv_ready_generations sv2"
    note f2 = published_frame[OF published_each[OF published_countdown_wire[of _ _ _ _ pb] m]]
    show ?thesis using adm e g f1 f2 by (intro epoch_step_put[of sv _ e]) (auto simp: bundle_admitted_def advanced_def)
  qed
qed (simp add: epoch_step_same)

lemma snapshot_step: "relay_native_ready_snapshot pb now t actives sv = Inr (consumed, sv') \<Longrightarrow> epoch_step (tk_gid t) sv sv'"
proof -
  assume r: "relay_native_ready_snapshot pb now t actives sv = Inr (consumed, sv')"
  then consider "sv' = sv" | e sv1 deadline race where "map_of (sv_ready_epochs sv) (tk_gid t) = Some e" "re_stage e = COUNTDOWN_ACTIVE"
      "each_endpoint (relay_window pb now current_ack actives) (session_endpoints sv (tk_gid t)) sv = Inr sv1"
      "sv' = put_epoch (tk_gid t) (e\<lparr>re_wire_deadline := deadline\<rparr>) (put_race (tk_gid t) race sv1)"
    by (auto simp: relay_native_ready_snapshot_def rbind_eq_Inr Let_def split: option.splits if_splits)
  then show ?thesis
  proof cases
    case 2
    note f = published_frame[OF published_each[OF published_relay_window 2(3)]]
    show ?thesis using 2 f by (intro epoch_step_put[of sv _ e]) (auto simp: epoch_of_def advanced_def AList.update_conv')
  qed (simp add: epoch_step_same)
qed

lemma ensure_race_simps [simp]: "sv_ready_epochs (ensure_race gid sv) = sv_ready_epochs sv" "sv_out (ensure_race gid sv) = sv_out sv"
    "sv_ready_generations (ensure_race gid sv) = sv_ready_generations sv" "sv_bindings (ensure_race gid sv) = sv_bindings sv"
    "sv_games (ensure_race gid sv) = sv_games sv"
  by (simp_all add: ensure_race_def)

lemma publish_joiner_frame:
  assumes "publish_joiner pb now source t as s13 s5 matched sv = Inr (consumed, sv')"
  shows "sv_ready_epochs sv' = sv_ready_epochs sv \<and> sv_ready_generations sv' = sv_ready_generations sv"
proof -
  from assms obtain w where w: "map_of (sv_wires sv) source = Some w" by (auto simp: publish_joiner_def sv_with_wire_Inr)
  with assms obtain hosts where h: "host_wires sv source w as = Inr hosts"
    by (auto simp: publish_joiner_def sv_with_wire_Inr rbind_eq_Inr)
  note r = assms[unfolded publish_joiner_def sv_with_wire_def w option.case h rbind_Inr Let_def]
  show ?thesis
  proof (cases "hosts = None \<or> hosts = Some [] \<or> sv' = sv")
    case True
    with r show ?thesis by auto
  next
    case False
    then obtain k ks where hosts: "hosts = Some (k # ks)" by (cases hosts) (auto simp: neq_Nil_conv)
    from r False obtain packets prepared where p: "host_datagrams now sv s13 s5 (ew_latest_latency_info w) (k # ks) = Inr prepared"
        "(case prepared of None \<Rightarrow> Inr ([], sv) | Some datagrams \<Rightarrow> rbind (send_pairs pb now ((source, packets) # datagrams) sv) (\<lambda>sv.
           Inr (matched, sv\<lparr>sv_joiner_windows := finsert (source_key_for t) (sv_joiner_windows sv)\<rparr>))) = Inr (consumed, sv')"
      unfolding hosts option.case list.case by (auto simp only: rbind_eq_Inr split: if_split_asm)
    from p(2) False show ?thesis
      by (cases prepared) (auto simp: rbind_eq_Inr simp del: send_pairs.simps dest!: published_frame[OF published_pairs])
  qed
qed

lemma joiner_step: "relay_joiner_state13_window pb now source t actives sv = Inr (consumed, sv') \<Longrightarrow> epoch_step gid sv sv'"
  by (rule epoch_step_same) (auto simp: relay_joiner_state13_window_def Let_def split: if_splits option.splits dest!: publish_joiner_frame)

section \<open>Aborting and reopening\<close>

lemma set_games_simps [simp]: "sv_out (set_games r sv) = sv_out sv" "sv_bindings (set_games r sv) = sv_bindings sv"
    "sv_races (set_games r sv) = sv_races sv" "sv_ready_epochs (set_games r sv) = sv_ready_epochs sv"
    "sv_ready_generations (set_games r sv) = sv_ready_generations sv" "sv_games (set_games r sv) = snd r"
  by (simp_all add: set_games_def)

lemma reopen_listing_simps [simp]: "sv_out (reopen_listing gid c sv) = sv_out sv" "sv_bindings (reopen_listing gid c sv) = sv_bindings sv"
    "sv_races (reopen_listing gid c sv) = sv_races sv" "sv_ready_epochs (reopen_listing gid c sv) = sv_ready_epochs sv"
    "sv_ready_generations (reopen_listing gid c sv) = sv_ready_generations sv"
  by (simp_all add: reopen_listing_def)

lemma published_update_wires:
  "(\<And>w. ew_next_offset_words (f w) = ew_next_offset_words w) \<Longrightarrow> published pb sv (update_wires f as sv)"
proof (induction as arbitrary: sv)
  case (Cons a as)
  have "published pb sv (update_wire f a sv)" using Cons.prems by (auto simp: update_wire_def split: option.split intro: published_put_wire)
  with Cons show ?case by (simp add: update_wires_def) (blast intro: published_trans)
qed (simp add: update_wires_def)

lemma offsets_kept: "ew_next_offset_words (abort_wire w) = ew_next_offset_words w" "ew_next_offset_words (forget_prerequisite w) = ew_next_offset_words w"
    "ew_next_offset_words (rematch_wire w) = ew_next_offset_words w"
  by (simp_all add: abort_wire_def forget_prerequisite_def rematch_wire_def reset_race_state_def)

lemmas update_frames = published_frame[OF published_update_wires[of abort_wire, OF offsets_kept(1)]]
  published_frame[OF published_update_wires[of forget_prerequisite, OF offsets_kept(2)]]
  published_frame[OF published_update_wires[of rematch_wire, OF offsets_kept(3)]]

lemma abort_frame: "sv_bindings (abort_ready_epoch gid sv) = sv_bindings sv" "sv_ready_epochs (abort_ready_epoch gid sv) = AList.delete gid (sv_ready_epochs sv)"
    "sv_ready_generations (abort_ready_epoch gid sv) = sv_ready_generations sv"
  by (auto simp: abort_ready_epoch_def Let_def update_frames split: option.split)

lemma clear_commit_frame: "sv_bindings (clear_commit gid sv) = sv_bindings sv" "sv_ready_epochs (clear_commit gid sv) = sv_ready_epochs sv"
    "sv_ready_generations (clear_commit gid sv) = sv_ready_generations sv" "sv_races (clear_commit gid sv) = sv_races sv"
    "sv_games (clear_commit gid sv) = sv_games sv"
  by (simp_all add: clear_commit_def update_frames)

lemma reset_frame: "sv_bindings (snd (reset_finished_race_for_rematch gid sv)) = sv_bindings sv"
    "sv_ready_epochs (snd (reset_finished_race_for_rematch gid sv)) = sv_ready_epochs sv"
    "sv_ready_generations (snd (reset_finished_race_for_rematch gid sv)) = sv_ready_generations sv"
  by (auto simp: reset_finished_race_for_rematch_def Let_def update_frames clear_commit_frame discard_results_def split: option.split)

lemma abort_step: "epoch_step gid sv (abort_ready_epoch gid sv)"
  by (simp add: epoch_step_def epoch_of_def generation_of_def abort_frame AList.delete_conv')

lemma published_reopen: "reopen_endpoint pb now source ps a sv = Inr sv' \<Longrightarrow> published pb sv sv'"
proof -
  assume "reopen_endpoint pb now source ps a sv = Inr sv'"
  then obtain packets sv1 w n where "send_packets pb now packets a ''room-reopen'' sv = Inr sv1" "map_of (sv_wires sv1) a = Some w"
      "sv' = sv_put_wire a (w\<lparr>ew_next_server_sequence := n\<rparr>) sv1"
    by (auto simp: reopen_endpoint_def handler_results)
  then show ?thesis by (auto dest!: published_send intro!: published_trans[OF _ published_put_wire])
qed

lemma reopen_step: "reopen_finished_room pb now source t sv = Inr (opened, sv') \<Longrightarrow> epoch_step (tk_gid t) sv sv'"
proof -
  assume r: "reopen_finished_room pb now source t sv = Inr (opened, sv')"
  define sv1 where "sv1 = snd (reset_finished_race_for_rematch (tk_gid t) (abort_ready_epoch (tk_gid t) (ensure_race (tk_gid t) sv)))"
  define sv2 where "sv2 = reopen_listing (tk_gid t) (is_challenge (live_game (put_race (tk_gid t) ((race_of (tk_gid t) sv1)\<lparr>rs_post_race_reopened := True\<rparr>) sv1) t))
     (put_race (tk_gid t) ((race_of (tk_gid t) sv1)\<lparr>rs_post_race_reopened := True\<rparr>) sv1)"
  have step: "epoch_step (tk_gid t) sv (abort_ready_epoch (tk_gid t) (ensure_race (tk_gid t) sv))"
    by (rule epoch_step_frame[OF abort_step]) simp_all
  have frame: "sv_ready_epochs sv2 = sv_ready_epochs (abort_ready_epoch (tk_gid t) (ensure_race (tk_gid t) sv))"
      "sv_ready_generations sv2 = sv_ready_generations (abort_ready_epoch (tk_gid t) (ensure_race (tk_gid t) sv))"
    by (simp_all add: sv2_def sv1_def reset_frame)
  from r consider "sv' = ensure_race (tk_gid t) sv" | "sv' = sv1"
    | properties where "each_endpoint (reopen_endpoint pb now source properties) (session_endpoints sv2 (tk_gid t)) sv2 = Inr sv'"
    unfolding reopen_finished_room_def Let_def split_def rbind_eq_Inr sv1_def[symmetric] sv2_def[symmetric]
    by (auto simp: rbind_eq_Inr split: if_split_asm)
  then show ?thesis
  proof cases
    case 3
    from published_frame[OF published_each[OF published_reopen this]] show ?thesis by (intro epoch_step_frame[OF step]) (simp_all add: frame)
  next
    case 2
    then show ?thesis by (intro epoch_step_frame[OF step]) (simp_all add: sv1_def reset_frame)
  qed (simp add: epoch_step_same)
qed

text \<open>An opened epoch, taken apart.\<close>

lemma open_epoch_effect:
  assumes "open_epoch pb now gid endpoints actives seed sv = Inr sv'"
  obtains e sv1 sv2 timer_generation race where
    "re_stage e = SEED_SENT_WAIT_GUEST_13_15" "re_generation e = generation_of sv gid + 1"
    "re_source_first_sequence e = source_sequence (hd actives)" "re_source_payload_hash e = payload_hash actives"
    "sv1 = put_epoch gid e (sv\<lparr>sv_ready_generations := AList.update gid (generation_of sv gid + 1) (sv_ready_generations sv)\<rparr>)"
    "each_endpoint (publish_seed pb now endpoints (generation_of sv gid + 1) seed) endpoints sv1 = Inr sv2"
    "each_endpoint (modify_wire (ew_match_timer_generation_id_update (\<lambda>_. timer_generation))) endpoints (put_race gid race sv2) = Inr sv'"
    "sv_bindings sv' = sv_bindings sv" "sv_games sv' = sv_games sv"
    "map_of (sv_ready_epochs sv') = (map_of (sv_ready_epochs sv))(gid \<mapsto> e)"
    "map_of (sv_ready_generations sv') = (map_of (sv_ready_generations sv))(gid \<mapsto> generation_of sv gid + 1)"
proof -
  obtain timer attributes state1 where seed: "seed = (timer, attributes, state1)" by (cases seed)
  from assms obtain host guest deadline guest_wire sv2 timer_generation race where
    w: "each_endpoint (publish_seed pb now endpoints (generation_of sv gid + 1) seed) endpoints
        (put_epoch gid (new_epoch (generation_of sv gid + 1) host guest actives attributes deadline guest_wire)
          (sv\<lparr>sv_ready_generations := AList.update gid (generation_of sv gid + 1) (sv_ready_generations sv)\<rparr>)) = Inr sv2"
    and m: "each_endpoint (modify_wire (ew_match_timer_generation_id_update (\<lambda>_. timer_generation))) endpoints (put_race gid race sv2) = Inr sv'"
    by (auto simp: open_epoch_def seed handler_results generation_of_def)
  note f = published_frame[OF published_each[OF published_publish_seed w]]
  have "published pb (put_race gid race sv2) sv'" by (rule published_each[OF _ m]) (erule published_modify[rotated], simp)
  note g = published_frame[OF this]
  show ?thesis by (rule that[OF _ _ _ _ refl w m]) (use f g in \<open>auto simp: new_epoch_def AList.update_conv'\<close>)
qed

text \<open>The state in which an epoch is opened: the old one aborted, a finished race reset.\<close>

definition seed_received :: "string \<Rightarrow> service_state \<Rightarrow> service_state" where
  "seed_received gid sv = (let sv = ensure_race gid sv in set_games (set_challenge_ready gid True (sv_games sv)) sv)"

definition seed_cleared :: "string \<Rightarrow> service_state \<Rightarrow> service_state" where
  "seed_cleared gid sv = (let sv = (if epoch_of sv gid \<noteq> None then abort_ready_epoch gid sv else sv)
     in if rs_phase (race_of gid sv) = FINISHED then snd (reset_finished_race_for_rematch gid sv) else sv)"

lemma seed_received_simps [simp]: "sv_out (seed_received gid sv) = sv_out sv" "sv_bindings (seed_received gid sv) = sv_bindings sv"
    "sv_ready_epochs (seed_received gid sv) = sv_ready_epochs sv" "sv_ready_generations (seed_received gid sv) = sv_ready_generations sv"
  by (simp_all add: seed_received_def)

lemma seed_cleared_frame: "sv_bindings (seed_cleared gid sv) = sv_bindings sv"
    "sv_ready_generations (seed_cleared gid sv) = sv_ready_generations sv"
    "map_of (sv_ready_epochs (seed_cleared gid sv)) = (map_of (sv_ready_epochs sv))(gid := None)"
  by (auto simp: seed_cleared_def Let_def reset_frame abort_frame AList.delete_conv' epoch_of_def)

lemma seed_cases:
  assumes "relay_retail_ready_seed pb now t actives sv = Inr (consumed, sv')"
  obtains "consumed = []" "sv' = sv \<or> sv' = ensure_race (tk_gid t) sv"
  | e where "epoch_of sv (tk_gid t) = Some e" "is_duplicate_seed e actives" "consumed = positions actives" "sv' = seed_received (tk_gid t) sv"
      "parts actives \<noteq> None"
  | seed where "parts actives = Some seed" "consumed = positions actives" "is_host sv t" "is_challenge (live_game sv t)"
      "2 \<le> length (session_endpoints sv (tk_gid t))"
      "open_epoch pb now (tk_gid t) (session_endpoints sv (tk_gid t)) actives seed (seed_cleared (tk_gid t) (seed_received (tk_gid t) sv)) = Inr sv'"
proof -
  let ?sv = "seed_received (tk_gid t) sv"
  have e: "map_of (sv_ready_epochs ?sv) (tk_gid t) = epoch_of sv (tk_gid t)" by (simp add: epoch_of_def)
  from assms consider "consumed = []" "sv' = sv \<or> sv' = ensure_race (tk_gid t) sv"
    | seed where "parts actives = Some seed" "is_host sv t" "is_challenge (live_game sv t)" "2 \<le> length (session_endpoints sv (tk_gid t))"
      "(if (case epoch_of sv (tk_gid t) of None \<Rightarrow> False | Some e \<Rightarrow> is_duplicate_seed e actives) then Inr (positions actives, ?sv)
        else rbind (open_epoch pb now (tk_gid t) (session_endpoints sv (tk_gid t)) actives seed (seed_cleared (tk_gid t) ?sv))
          (\<lambda>sv. Inr (positions actives, sv))) = Inr (consumed, sv')"
    unfolding relay_retail_ready_seed_def seed_received_def seed_cleared_def Let_def epoch_of_def
    by (auto split: if_split_asm option.split_asm)
  then show ?thesis
  proof cases
    case 2
    then show ?thesis using that(2,3) by (auto simp: rbind_eq_Inr split: if_split_asm option.split_asm)
  qed (use that(1) in blast)
qed

lemma seed_step: "relay_retail_ready_seed pb now t actives sv = Inr (consumed, sv') \<Longrightarrow> epoch_step (tk_gid t) sv sv'"
proof (erule seed_cases)
  fix seed
  assume "open_epoch pb now (tk_gid t) (session_endpoints sv (tk_gid t)) actives seed (seed_cleared (tk_gid t) (seed_received (tk_gid t) sv)) = Inr sv'"
  then show ?thesis
    by (rule open_epoch_effect) (auto simp: epoch_step_def epoch_of_def generation_of_def seed_cleared_frame)
qed (auto intro: epoch_step_same)

section \<open>Runs\<close>

text \<open>
  Any handler of the Ready negotiation, called for any room with any packets; \<open>Elsewhere\<close> is
  every other part of the service, which writes wires, bindings, races and the directory as
  it likes but neither the epochs nor the generation counters.
\<close>

inductive ready_run :: "publisher \<Rightarrow> service_state \<Rightarrow> service_state \<Rightarrow> bool" for pb sv where
  Start: "ready_run pb sv sv"
| Seed: "ready_run pb sv sv1 \<Longrightarrow> relay_retail_ready_seed pb now t actives sv1 = Inr (consumed, sv2) \<Longrightarrow> ready_run pb sv sv2"
| States: "ready_run pb sv sv1 \<Longrightarrow> relay_clean_state13_ack pb now source t actives sv1 = Inr (consumed, sv2) \<Longrightarrow> ready_run pb sv sv2"
| Bundle: "ready_run pb sv sv1 \<Longrightarrow> relay_native_ready_bundle pb now t actives sv1 = Inr (consumed, sv2) \<Longrightarrow> ready_run pb sv sv2"
| Snapshot: "ready_run pb sv sv1 \<Longrightarrow> relay_native_ready_snapshot pb now t actives sv1 = Inr (consumed, sv2) \<Longrightarrow> ready_run pb sv sv2"
| Joiner: "ready_run pb sv sv1 \<Longrightarrow> relay_joiner_state13_window pb now source t actives sv1 = Inr (consumed, sv2) \<Longrightarrow> ready_run pb sv sv2"
| Abort: "ready_run pb sv sv1 \<Longrightarrow> ready_run pb sv (abort_ready_epoch gid sv1)"
| Reopen: "ready_run pb sv sv1 \<Longrightarrow> reopen_finished_room pb now source t sv1 = Inr (opened, sv2) \<Longrightarrow> ready_run pb sv sv2"
| Elsewhere: "ready_run pb sv sv1 \<Longrightarrow> sv_ready_epochs sv2 = sv_ready_epochs sv1 \<Longrightarrow>
    sv_ready_generations sv2 = sv_ready_generations sv1 \<Longrightarrow> ready_run pb sv sv2"

lemma ready_run_steps:
  assumes "ready_run pb sv sv'" "P sv" "\<And>gid sv1 sv2. P sv1 \<Longrightarrow> epoch_step gid sv1 sv2 \<Longrightarrow> P sv2"
  shows "P sv'"
  using assms(1)
proof induction
  case Start
  then show ?case by (rule assms(2))
next
  case (Joiner sv1 now source t actives consumed sv2)
  from Joiner.IH joiner_step[OF Joiner.hyps(2), of undefined] show ?case by (rule assms(3))
next
  case (Elsewhere sv1 sv2)
  from Elsewhere.IH epoch_step_same[OF Elsewhere.hyps(2,3), of undefined] show ?case by (rule assms(3))
qed (blast intro: assms(3) seed_step states_step bundle_step snapshot_step abort_step reopen_step)+

text \<open>How far the negotiation of a room is: its generation, then its stage; no epoch comes last.\<close>

definition room_position :: "service_state \<Rightarrow> string \<Rightarrow> int \<times> nat" where
  "room_position sv gid = (generation_of sv gid, case epoch_of sv gid of None \<Rightarrow> 5 | Some e \<Rightarrow> stage_rank (re_stage e))"

lemma stage_rank_bounds: "1 \<le> stage_rank s" "stage_rank s \<le> 4"
  by (cases s; simp)+

definition epochs_ok :: "service_state \<Rightarrow> bool" where
  "epochs_ok sv \<longleftrightarrow> (\<forall>gid e. epoch_of sv gid = Some e \<longrightarrow> re_generation e = generation_of sv gid \<and> re_stage e \<noteq> ABORTED \<and>
     (re_stage e \<noteq> SEED_SENT_WAIT_GUEST_13_15 \<longrightarrow> states_known e))"

lemma epochs_ok_step: "epochs_ok sv \<Longrightarrow> epoch_step gid sv sv' \<Longrightarrow> epochs_ok sv'"
  unfolding epochs_ok_def
proof (intro allI impI)
  fix other e
  assume ok: "\<forall>gid e. epoch_of sv gid = Some e \<longrightarrow> re_generation e = generation_of sv gid \<and> re_stage e \<noteq> ABORTED \<and>
      (re_stage e \<noteq> SEED_SENT_WAIT_GUEST_13_15 \<longrightarrow> states_known e)"
    and step: "epoch_step gid sv sv'" and e: "epoch_of sv' other = Some e"
  show "re_generation e = generation_of sv' other \<and> re_stage e \<noteq> ABORTED \<and> (re_stage e \<noteq> SEED_SENT_WAIT_GUEST_13_15 \<longrightarrow> states_known e)"
  proof (cases "other = gid")
    case False
    with step e ok show ?thesis by (auto simp: epoch_step_def)
  next
    case True
    from step True e consider "epoch_of sv gid = Some e" "generation_of sv' gid = generation_of sv gid"
      | e0 where "epoch_of sv gid = Some e0" "advanced e0 e" "generation_of sv' gid = generation_of sv gid"
      | "re_stage e = SEED_SENT_WAIT_GUEST_13_15" "re_generation e = generation_of sv' gid"
      by (auto simp: epoch_step_def)
    then show ?thesis
    proof cases
      case 2
      with ok have "re_generation e0 = generation_of sv gid" "re_stage e0 \<noteq> SEED_SENT_WAIT_GUEST_13_15 \<longrightarrow> states_known e0" by auto
      with 2 True show ?thesis by (auto simp: advanced_def states_known_def)
    qed (use ok True in auto)
  qed
qed

lemma room_position_step: "epoch_step gid sv sv' \<Longrightarrow> room_position sv other \<le> room_position sv' other"
  using stage_rank_bounds(2)[of "re_stage (the (epoch_of sv gid))"]
  by (cases "other = gid") (auto simp: epoch_step_def room_position_def advanced_def less_eq_prod_def split: option.splits)


section \<open>Examples\<close>

theorem windows_read_back_witness:
  "\<exists>packets. flagged_packets 0x0FFFFFFF [(2, 3, [1]), (0, 4, [5])] = Inr packets \<and>
     map read_packet packets = [Some (2, 0x0FFFFFFF, 3, [1]), Some (0, 0, 4, [5])]"
proof -
  have "is_ok (flagged_packets 0x0FFFFFFF [(2, 3, [1]), (0, 4, [5])])" by (simp add: window_defs)
  then obtain packets where p: "flagged_packets 0x0FFFFFFF [(2, 3, [1]), (0, 4, [5])] = Inr packets" by (auto simp: is_ok_iff)
  from windows_read_back[OF p] p show ?thesis by simp
qed



end
