(* ===== verification/ReadyRelay.thy ===== *)
theory ReadyRelay
  imports ReadyProps
begin

text \<open>
  What the host's datagrams do to a room: the countdown starts from its exact bundle, a
  repeated seed is absorbed, a bundle with a wrong duration is refused too late; and what is
  left of a room that is retired.
\<close>

section \<open>The countdown starts from the host's bundle\<close>

lemma each_endpoint_replies:
  assumes "\<And>a sv sv'. f a sv = Inr sv' \<Longrightarrow> map snd (ob_replies (sv_out sv')) = map snd (ob_replies (sv_out sv)) @ [a]"
  shows "each_endpoint f as sv = Inr sv' \<Longrightarrow> map snd (ob_replies (sv_out sv')) = map snd (ob_replies (sv_out sv)) @ as"
proof (induction as arbitrary: sv)
  case (Cons a as)
  then obtain sv1 where "f a sv = Inr sv1" "each_endpoint f as sv1 = Inr sv'" by (auto simp: rbind_eq_Inr)
  with Cons.IH assms[of a sv sv1] show ?case by simp
qed simp

lemma each_modify_replies: "each_endpoint (modify_wire f) as sv = Inr sv' \<Longrightarrow> ob_replies (sv_out sv') = ob_replies (sv_out sv)"
proof (induction as arbitrary: sv)
  case (Cons a as)
  then obtain sv1 where "modify_wire f a sv = Inr sv1" "each_endpoint (modify_wire f) as sv1 = Inr sv'" by (auto simp: rbind_eq_Inr)
  with Cons.IH show ?case by (auto simp: modify_wire_wires)
qed simp

lemma relay_window_local:
  assumes "relay_window pb now ack actives a sv = Inr sv'"
  shows "local_step (\<lambda>_ w w'. ew_next_server_sequence w' = int (umask 28 (ew_next_server_sequence w + int (length actives)))) a sv sv' \<and>
    map snd (ob_replies (sv_out sv')) = map snd (ob_replies (sv_out sv)) @ [a]"
proof -
  from assms obtain w sv1 where w: "map_of (sv_wires sv) a = Some w"
    and s: "send_window pb now (int (umask 28 (ew_next_server_sequence w)))
        (map (\<lambda>p. (int (active_flag p), ack a w, active_logical p @ [0x04])) actives) a ''ready-epoch-window'' sv = Inr sv1"
    and m: "modify_wire (ew_next_server_sequence_update (\<lambda>_. int (umask 28 (int (umask 28 (ew_next_server_sequence w)) + int (length actives))))) a sv1 = Inr sv'"
    by (auto simp: relay_window_def handler_results)
  from send_window_wires[OF s] w obtain n where n: "map_of (sv_wires sv1) = (map_of (sv_wires sv))(a \<mapsto> w\<lparr>ew_next_offset_words := n\<rparr>)" by auto
  from s obtain encoded where e: "ob_replies (sv_out sv1) = ob_replies (sv_out sv) @ [(encoded, a)]"
    by (auto simp: send_window_def handler_results dest!: send_packets_reply)
  define w' where "w' = w\<lparr>ew_next_offset_words := n, ew_next_server_sequence := int (umask 28 (ew_next_server_sequence w + int (length actives)))\<rparr>"
  have "sv' = sv_put_wire a w' sv1" using m n by (auto simp: modify_wire_wires umask_add_left w'_def)
  then have "map_of (sv_wires sv') = (map_of (sv_wires sv))(a \<mapsto> w')" "ob_replies (sv_out sv') = ob_replies (sv_out sv1)"
    using n by (simp_all add: AList.update_conv')
  moreover have "ew_next_server_sequence w' = int (umask 28 (ew_next_server_sequence w + int (length actives)))" by (simp add: w'_def)
  ultimately show ?thesis using w e unfolding local_step_def by auto
qed

lemma modify_local: "modify_wire f a sv = Inr sv' \<Longrightarrow> local_step (\<lambda>_ w w'. w' = f w) a sv sv'"
  by (auto simp: modify_wire_wires local_step_def AList.update_conv')

lemma bundle_timer_length: "bundle_timer actives = Some timer \<Longrightarrow> length actives = 8"
  by (auto simp: bundle_timer_def Let_def split: if_splits)

text \<open>The wires and replies after an accepted bundle.\<close>

definition bundle_at :: "endpoint_wire_state \<Rightarrow> endpoint_wire_state \<Rightarrow> bool" where
  "bundle_at w w' \<longleftrightarrow> ew_next_server_sequence w' = int (umask 28 (ew_next_server_sequence w + 8)) \<and>
     ew_match_timer_sequence w' = int (umask 28 (ew_next_server_sequence w + 5)) \<and> ew_ready_requested w' \<and> ew_match_timer_retry w' = None"

lemma begin_countdown_phase: "begin_countdown now r = Inr (b, r') \<Longrightarrow> COUNTDOWN \<le> rs_phase r'"
  by (cases "rs_phase r") (auto simp: begin_countdown_def phase_order split: if_splits)



section \<open>A repeated seed\<close>

text \<open>The gates of Quick Join change; who is who in a room does not.\<close>

definition same_room :: "carbon_game \<Rightarrow> carbon_game \<Rightarrow> bool" where
  "same_room g g' \<longleftrightarrow> cg_gid g' = cg_gid g \<and> cg_server_hosted g' = cg_server_hosted g \<and> cg_host g' = cg_host g \<and>
     cg_allocator_user_id g' = cg_allocator_user_id g \<and> cg_participants g' = cg_participants g \<and> cg_properties g' = cg_properties g"

definition games_keyed :: "service_state \<Rightarrow> bool" where
  "games_keyed sv \<longleftrightarrow> (\<forall>gid g. map_of (gd_games (sv_games sv)) gid = Some g \<longrightarrow> cg_gid g = gid)"

definition rooms_kept :: "service_state \<Rightarrow> service_state \<Rightarrow> bool" where
  "rooms_kept sv sv' \<longleftrightarrow> games_keyed sv' \<and> (\<forall>t. same_room (live_game sv t) (live_game sv' t)) \<and> sv_bindings sv' = sv_bindings sv"

lemma same_room_refl [simp]: "same_room g g"
  by (simp add: same_room_def)

lemma same_room_coordinator: "same_room g g' \<Longrightarrow> coordinator_user_id g' = coordinator_user_id g"
  unfolding coordinator_user_id_def same_room_def by (elim conjE) (simp only:)

lemma rooms_kept_refl: "games_keyed sv \<Longrightarrow> rooms_kept sv sv"
  by (simp add: rooms_kept_def)

lemma rooms_kept_trans: "rooms_kept sv1 sv2 \<Longrightarrow> rooms_kept sv2 sv3 \<Longrightarrow> rooms_kept sv1 sv3"
  by (simp add: rooms_kept_def same_room_def)

lemma rooms_kept_same: "games_keyed sv \<Longrightarrow> sv_games sv' = sv_games sv \<Longrightarrow> sv_bindings sv' = sv_bindings sv \<Longrightarrow> rooms_kept sv sv'"
  by (simp add: rooms_kept_def games_keyed_def live_game_def)

lemma rooms_kept_store:
  assumes "games_keyed sv" "map_of (gd_games (sv_games sv)) gid = Some g" "same_room g g'"
    "sv_games sv' = store_game g' (sv_games sv)" "sv_bindings sv' = sv_bindings sv"
  shows "rooms_kept sv sv'"
proof -
  have "cg_gid g' = gid" using assms(1-3) by (auto simp: games_keyed_def same_room_def)
  then have m: "map_of (gd_games (sv_games sv')) = (map_of (gd_games (sv_games sv)))(gid \<mapsto> g')"
    using assms(4) by (simp add: store_game_def AList.update_conv')
  moreover have "games_keyed sv'" using assms(1) m \<open>cg_gid g' = gid\<close> by (auto simp: games_keyed_def)
  ultimately show ?thesis using assms(2,3,5) by (auto simp: rooms_kept_def live_game_def get_room_def split: option.split)
qed

lemma rooms_kept_set: "games_keyed sv \<Longrightarrow> map_of (gd_games (sv_games sv)) gid = Some g \<Longrightarrow> same_room g g' \<Longrightarrow>
    rooms_kept sv (set_games (b, store_game g' (sv_games sv)) sv)"
  by (erule (2) rooms_kept_store) simp_all

lemma rooms_kept_gate:
  "games_keyed sv \<Longrightarrow> rooms_kept sv (set_games (set_challenge_ready gid ready (sv_games sv)) sv)"
  "games_keyed sv \<Longrightarrow> rooms_kept sv (set_games (set_quick_join_locked gid locked (sv_games sv)) sv)"
  by (auto simp: set_challenge_ready_def set_quick_join_locked_def Let_def split: option.split
      intro: rooms_kept_same) (rule rooms_kept_set; simp add: same_room_def)+

lemma rooms_kept_listing: "games_keyed sv \<Longrightarrow> rooms_kept sv (reopen_listing gid c sv)"
  by (simp add: reopen_listing_def rooms_kept_gate)

lemma rooms_kept_abort: "games_keyed sv \<Longrightarrow> rooms_kept sv (abort_ready_epoch gid sv)"
proof -
  assume k: "games_keyed sv"
  define sv1 where "sv1 = (if map_of (sv_ready_epochs sv) gid \<noteq> None
     then update_wires abort_wire (session_endpoints (sv\<lparr>sv_ready_epochs := AList.delete gid (sv_ready_epochs sv)\<rparr>) gid)
       (sv\<lparr>sv_ready_epochs := AList.delete gid (sv_ready_epochs sv)\<rparr>) else sv\<lparr>sv_ready_epochs := AList.delete gid (sv_ready_epochs sv)\<rparr>)"
  have s1: "rooms_kept sv sv1" by (rule rooms_kept_same[OF k]) (simp_all add: sv1_def update_frames)
  then have k1: "games_keyed sv1" by (simp add: rooms_kept_def)
  define c where "c = (case get_room gid (sv_games sv1) of None \<Rightarrow> False | Some g \<Rightarrow> is_challenge g)"
  define sv2 where "sv2 = (case map_of (sv_races sv1) gid of None \<Rightarrow> sv1
     | Some race \<Rightarrow> if rs_phase race \<le> COUNTDOWN then put_race gid (abort_race race) (reopen_listing gid c sv1) else sv1)"
  have eq: "abort_ready_epoch gid sv = sv2\<lparr>sv_transitions_sent := sv_transitions_sent sv2 |-| {|gid|}\<rparr>"
    unfolding abort_ready_epoch_def Let_def sv2_def c_def sv1_def by simp
  have "rooms_kept sv1 (abort_ready_epoch gid sv)"
  proof (cases "\<exists>race. map_of (sv_races sv1) gid = Some race \<and> rs_phase race \<le> COUNTDOWN")
    case True
    then obtain race where "map_of (sv_races sv1) gid = Some race" "rs_phase race \<le> COUNTDOWN" by auto
    then have "sv_games (abort_ready_epoch gid sv) = sv_games (reopen_listing gid c sv1)"
      by (simp add: eq sv2_def)
    moreover have "sv_bindings (abort_ready_epoch gid sv) = sv_bindings sv1" using s1 by (simp add: abort_frame rooms_kept_def)
    moreover have "rooms_kept sv1 (reopen_listing gid c sv1)" using k1 by (rule rooms_kept_listing)
    ultimately show ?thesis by (auto simp: rooms_kept_def games_keyed_def live_game_def)
  next
    case False
    then have "sv_games (abort_ready_epoch gid sv) = sv_games sv1"
      by (auto simp: eq sv2_def split: option.split)
    then show ?thesis using s1 by (intro rooms_kept_same[OF k1]) (simp_all add: abort_frame rooms_kept_def)
  qed
  with s1 show ?thesis by (rule rooms_kept_trans)
qed

lemma reset_games: "sv_games (snd (reset_finished_race_for_rematch gid sv)) = sv_games sv"
  by (auto simp: reset_finished_race_for_rematch_def Let_def update_frames clear_commit_frame discard_results_def split: option.split)

lemma rooms_kept_received: "games_keyed sv \<Longrightarrow> rooms_kept sv (seed_received gid sv)"
proof -
  assume k: "games_keyed sv"
  have "rooms_kept sv (ensure_race gid sv)" by (rule rooms_kept_same[OF k]) simp_all
  moreover then have "rooms_kept (ensure_race gid sv) (seed_received gid sv)"
    unfolding seed_received_def Let_def by (intro rooms_kept_gate) (simp add: rooms_kept_def)
  ultimately show ?thesis by (rule rooms_kept_trans)
qed

lemma rooms_kept_cleared: "games_keyed sv \<Longrightarrow> rooms_kept sv (seed_cleared gid sv)"
proof -
  assume k: "games_keyed sv"
  define sv1 where "sv1 = (if epoch_of sv gid \<noteq> None then abort_ready_epoch gid sv else sv)"
  have s: "rooms_kept sv sv1" using rooms_kept_abort[OF k] rooms_kept_refl[OF k] by (simp add: sv1_def)
  moreover have "rooms_kept sv1 (seed_cleared gid sv)"
    using s by (intro rooms_kept_same) (simp_all add: rooms_kept_def seed_cleared_def Let_def reset_games reset_frame sv1_def)
  ultimately show ?thesis by (rule rooms_kept_trans)
qed

lemma rooms_kept_roles:
  "rooms_kept sv sv' \<Longrightarrow> is_host sv' = is_host sv \<and> session_endpoints sv' = session_endpoints sv \<and>
     is_challenge (live_game sv' t) = is_challenge (live_game sv t)"
proof -
  assume k: "rooms_kept sv sv'"
  then have r: "same_room (live_game sv t) (live_game sv' t)" for t by (simp add: rooms_kept_def)
  have h: "is_host sv' t = is_host sv t" "is_coordinator sv' t = is_coordinator sv t" for t
    using r[of t] same_room_coordinator[OF r[of t]] by (simp_all add: is_host_def is_coordinator_def same_room_def Let_def)
  have "endpoint_key sv' = endpoint_key sv" by (simp only: endpoint_key_def h(2))
  then have "session_endpoints sv' gid = session_endpoints sv gid" for gid using k by (simp add: session_endpoints_def rooms_kept_def)
  then show ?thesis using h(1) r[of t] by (auto simp: is_challenge_def same_room_def)
qed

lemma rooms_kept_seed: "relay_retail_ready_seed pb now t actives sv = Inr (consumed, sv') \<Longrightarrow> games_keyed sv \<Longrightarrow> rooms_kept sv sv'"
proof (erule seed_cases)
  fix seed
  assume o: "open_epoch pb now (tk_gid t) (session_endpoints sv (tk_gid t)) actives seed (seed_cleared (tk_gid t) (seed_received (tk_gid t) sv)) = Inr sv'"
    and k: "games_keyed sv"
  note r = rooms_kept_received[OF k, of "tk_gid t"]
  then have k1: "games_keyed (seed_received (tk_gid t) sv)" by (simp add: rooms_kept_def)
  note c = rooms_kept_cleared[OF k1, of "tk_gid t"]
  then have k2: "games_keyed (seed_cleared (tk_gid t) (seed_received (tk_gid t) sv))" by (simp add: rooms_kept_def)
  from o have "rooms_kept (seed_cleared (tk_gid t) (seed_received (tk_gid t) sv)) sv'"
    by (rule open_epoch_effect) (rule rooms_kept_same[OF k2])
  with r c show "rooms_kept sv sv'" by (blast intro: rooms_kept_trans)
qed (auto intro: rooms_kept_refl rooms_kept_same rooms_kept_received)


lemma parts_length: "parts actives = Some seed \<Longrightarrow> length actives = 5"
  by (auto simp: parts_def Let_def split: option.splits if_splits)

text \<open>
  C6. A host that repeats its seed, as clients do until it is acknowledged, is answered by nothing:
  the packets are consumed, no datagram is published, and the epoch, its generation and the
  race are those of the first reception.
\<close>

theorem repeated_seed_absorbed:
  assumes "relay_retail_ready_seed pb now t actives sv = Inr (consumed, sv')" "consumed \<noteq> []" "games_keyed sv"
  shows "\<exists>sv''. relay_retail_ready_seed pb later t actives sv' = Inr (positions actives, sv'') \<and> sv_out sv'' = sv_out sv' \<and>
    sv_ready_epochs sv'' = sv_ready_epochs sv' \<and> sv_ready_generations sv'' = sv_ready_generations sv' \<and> sv_races sv'' = sv_races sv'"
proof -
  note k = rooms_kept_roles[OF rooms_kept_seed[OF assms(1,3)]]
  have "(\<exists>e. epoch_of sv' (tk_gid t) = Some e \<and> is_duplicate_seed e actives) \<and> map_of (sv_races sv') (tk_gid t) \<noteq> None \<and>
      parts actives \<noteq> None \<and> is_host sv t \<and> is_challenge (live_game sv t) \<and> 2 \<le> length (session_endpoints sv (tk_gid t))"
    using assms(1)
  proof (cases rule: seed_cases)
    case (3 seed)
    from 3(6) show ?thesis
    proof (rule open_epoch_effect)
      fix e timer_generation and sv2 :: service_state and race :: game_race_state
      assume e: "re_stage e = SEED_SENT_WAIT_GUEST_13_15" "re_source_first_sequence e = source_sequence (hd actives)"
          "re_source_payload_hash e = payload_hash actives"
          "map_of (sv_ready_epochs sv') = (map_of (sv_ready_epochs (seed_cleared (tk_gid t) (seed_received (tk_gid t) sv))))(tk_gid t \<mapsto> e)"
        and m: "each_endpoint (modify_wire (ew_match_timer_generation_id_update (\<lambda>_. timer_generation))) (session_endpoints sv (tk_gid t))
            (put_race (tk_gid t) race sv2) = Inr sv'"
      have "published pb (put_race (tk_gid t) race sv2) sv'" by (rule published_each[OF _ m]) (erule published_modify[rotated], simp)
      from published_frame[OF this] have "map_of (sv_races sv') (tk_gid t) \<noteq> None" by (simp add: AList.update_conv')
      then show ?thesis using e 3(1-5) by (auto simp: epoch_of_def is_duplicate_seed_def)
    qed
  next
    case (2 e)
    have r: "map_of (sv_races sv') (tk_gid t) \<noteq> None" using 2(4)
      by (simp add: seed_received_def ensure_race_def Let_def map_of_setdefault)
    have "is_host sv t \<and> is_challenge (live_game sv t) \<and> 2 \<le> length (session_endpoints sv (tk_gid t))"
      using assms(1,2) by (auto simp: relay_retail_ready_seed_def Let_def split: if_split_asm)
    then show ?thesis using 2 r by (auto simp: epoch_of_def)
  qed (use assms(2) in simp)
  then obtain e race where e: "map_of (sv_ready_epochs sv') (tk_gid t) = Some e" "is_duplicate_seed e actives" "map_of (sv_races sv') (tk_gid t) = Some race"
      "parts actives \<noteq> None" "is_host sv' t" "is_challenge (live_game sv' t)" "2 \<le> length (session_endpoints sv' (tk_gid t))"
    using k by (auto simp: epoch_of_def)
  then have "relay_retail_ready_seed pb later t actives sv' = Inr (positions actives, seed_received (tk_gid t) sv')"
    by (auto simp: relay_retail_ready_seed_def seed_received_def Let_def split: option.split)
  moreover have "sv_races (seed_received (tk_gid t) sv') = sv_races sv'"
    using e(3) by (simp add: seed_received_def ensure_race_def dict_setdefault_def Let_def)
  ultimately show ?thesis by (intro exI[of _ "seed_received (tk_gid t) sv'"]) simp
qed

section \<open>Forgetting a room\<close>

text \<open>Everything the service keeps under a room id, outside the wires and the directory.\<close>

record room_data =
  rd_race :: "game_race_state option"
  rd_epoch :: "ready_epoch option"
  rd_generation :: "int option"
  rd_tracker :: "race_result_tracker option"
  rd_joiners :: "source_key fset"
  rd_transition_sent :: bool
  rd_object_ids :: "((string \<times> source_key \<times> int) \<times> int) list"
  rd_object_next :: "int option"
  rd_commit_time :: "rat option"
  rd_endpoints :: "(source_key \<times> address) list"
  rd_published_joins :: "(string \<times> int) fset"
  rd_reconnects :: "source_key fset"
  rd_diagnostics :: "(string \<times> int \<times> string \<times> string) fset"

definition room_data :: "service_state \<Rightarrow> string \<Rightarrow> room_data" where
  "room_data sv gid = \<lparr>rd_race = map_of (sv_races sv) gid, rd_epoch = map_of (sv_ready_epochs sv) gid,
     rd_generation = map_of (sv_ready_generations sv) gid, rd_tracker = map_of (sv_trackers sv) gid,
     rd_joiners = ffilter (\<lambda>k. fst k = gid) (sv_joiner_windows sv), rd_transition_sent = (gid |\<in>| sv_transitions_sent sv),
     rd_object_ids = filter (\<lambda>x. fst (fst x) = gid) (sv_object_ids sv), rd_object_next = map_of (sv_object_next sv) gid,
     rd_commit_time = map_of (sv_commit_times sv) gid, rd_endpoints = filter (\<lambda>x. fst (fst x) = gid) (sv_participant_endpoints sv),
     rd_published_joins = ffilter (\<lambda>k. fst k = gid) (sv_published_joins sv), rd_reconnects = ffilter (\<lambda>k. fst k = gid) (sv_reconnect_pending sv),
     rd_diagnostics = ffilter (\<lambda>k. fst k = gid) (sv_diagnostics sv)\<rparr>"

definition no_room_data :: room_data where
  "no_room_data = \<lparr>rd_race = None, rd_epoch = None, rd_generation = None, rd_tracker = None, rd_joiners = {||}, rd_transition_sent = False,
     rd_object_ids = [], rd_object_next = None, rd_commit_time = None, rd_endpoints = [], rd_published_joins = {||}, rd_reconnects = {||},
     rd_diagnostics = {||}\<rparr>"

lemma ffilter_fst: "ffilter (\<lambda>k. fst k = gid) (ffilter (\<lambda>k. fst k \<noteq> gid) S) = {||}"
    "other \<noteq> gid \<Longrightarrow> ffilter (\<lambda>k. fst k = other) (ffilter (\<lambda>k. fst k \<noteq> gid) S) = ffilter (\<lambda>k. fst k = other) S"
  by (auto intro!: fset_eqI)

lemma filter_fst: "filter (\<lambda>x. fst (fst x) = gid) (filter (\<lambda>x. fst (fst x) \<noteq> gid) xs) = []"
    "other \<noteq> gid \<Longrightarrow> filter (\<lambda>x. fst (fst x) = other) (filter (\<lambda>x. fst (fst x) \<noteq> gid) xs) = filter (\<lambda>x. fst (fst x) = other) xs"
  by (auto simp: filter_empty_conv intro: filter_cong)

lemma clear_commit_out: "\<exists>X. clear_commit gid sv = sv\<lparr>sv_commit_times := AList.delete gid (sv_commit_times sv), sv_out := X\<rparr>"
proof -
  define b where "b = sv\<lparr>sv_commit_times := AList.delete gid (sv_commit_times sv)\<rparr>"
  have "published undefined b (clear_commit gid sv)"
    unfolding clear_commit_def b_def by (rule published_update_wires[OF offsets_kept(2)])
  then have "clear_commit gid sv = b\<lparr>sv_out := sv_out (clear_commit gid sv)\<rparr>" by (simp add: published_def)
  then show ?thesis unfolding b_def by blast
qed


section \<open>When the countdown is refused\<close>

lemma each_modify_ok: "\<forall>a \<in> set as. map_of (sv_wires sv) a \<noteq> None \<Longrightarrow> is_ok (each_endpoint (modify_wire f) as sv)"
proof (induction as arbitrary: sv)
  case (Cons a as)
  then obtain w where w: "map_of (sv_wires sv) a = Some w" by auto
  have "is_ok (each_endpoint (modify_wire f) as (sv_put_wire a (f w) sv))" by (rule Cons.IH) (use Cons.prems in \<open>auto simp: AList.update_conv'\<close>)
  moreover have "modify_wire f a sv = Inr (sv_put_wire a (f w) sv)" using w by (simp add: modify_wire_def sv_with_wire_def)
  ultimately show ?case by simp
qed simp

text \<open>Once the windows are out, only the duration can stop the countdown.\<close>

lemma start_countdown_duration:
  assumes "\<forall>a \<in> set as. map_of (sv_wires sv) a \<noteq> None" "17 \<le> length timer" "rs_phase (race_of gid sv) = SESSION_SETUP"
  shows "if fl_less (Fin 0) (timer_duration timer) \<and> fl_le (timer_duration timer) (Fin 300)
    then is_ok (start_countdown now gid g as e actives timer sv)
    else start_countdown now gid g as e actives timer sv = Inl (RaceRefused (CountdownDurationOutOfRange (timer_duration timer)))"
proof -
  define race where "race = (race_of gid sv)\<lparr>rs_attributes := active_logical (hd actives), rs_countdown_duration := timer_duration timer\<rparr>"
  obtain generation deadline drift race1 where r: "record_countdown_wire_timer race timer = Inr ((generation, deadline, drift), race1)"
      "rs_phase race1 = SESSION_SETUP" "rs_countdown_duration race1 = timer_duration timer"
    using assms(2,3) by (auto simp: record_countdown_wire_timer_def timer_logical_deadline_def race_def Let_def)
  obtain sv1 where m: "each_endpoint (modify_wire (countdown_wire generation)) as sv = Inr sv1" using each_modify_ok[OF assms(1)] by (auto simp: is_ok_iff)
  show ?thesis
    unfolding start_countdown_def Let_def race_def[symmetric] r(1) rbind_Inr prod.case m
    by (simp add: begin_countdown_def r(2,3) lift_race_def lock_room_def lock_room_access_def Let_def)
qed

text \<open>
  The bundle's duration is not checked before its windows are sent: one outside (0, 300] that keeps the
  deadline makes the handler raise after it has published to every endpoint.
\<close>

lemma bundle_duration_unchecked:
  assumes "bundle_admitted sv t actives e timer" "rs_phase (race_of (tk_gid t) sv) = SESSION_SETUP" "distinct (map fst (sv_bindings sv))"
    and windows: "each_endpoint (relay_window pb now (bundle_ack sv (invited_dedicated_flow sv (live_game sv t) (session_endpoints sv (tk_gid t))) e) actives)
         (session_endpoints sv (tk_gid t)) sv = Inr sv1"
    and duration: "\<not> (fl_less (Fin 0) (timer_duration timer) \<and> fl_le (timer_duration timer) (Fin 300))"
  shows "relay_native_ready_bundle pb now t actives sv = Inl (RaceRefused (CountdownDurationOutOfRange (timer_duration timer))) \<and>
    map snd (ob_replies (sv_out sv1)) = map snd (ob_replies (sv_out sv)) @ session_endpoints sv (tk_gid t)"
proof -
  have f: "race_of (tk_gid t) sv1 = race_of (tk_gid t) sv" using published_frame[OF published_each[OF published_relay_window windows]]
    by (simp add: race_of_def)
  from each_endpoint_local[OF relay_window_local[THEN conjunct1] distinct_session_endpoints[OF assms(3)] windows]
  have wires: "\<forall>a \<in> set (session_endpoints sv (tk_gid t)). map_of (sv_wires sv1) a \<noteq> None" by fastforce
  have "length timer = 17" using assms(1) by (auto simp: bundle_admitted_def bundle_timer_def current_timer_body_def Let_def split: if_splits option.splits)
  with start_countdown_duration[OF wires, of timer "tk_gid t" now "live_game sv t" e actives] assms(2) duration
  have s: "start_countdown now (tk_gid t) (live_game sv t) (session_endpoints sv (tk_gid t)) e actives timer sv1 =
      Inl (RaceRefused (CountdownDurationOutOfRange (timer_duration timer)))" by (simp add: f split: if_splits)
  have "relay_native_ready_bundle pb now t actives sv = Inl (RaceRefused (CountdownDurationOutOfRange (timer_duration timer)))"
    using assms(1) by (auto simp: bundle_admitted_def relay_native_ready_bundle_def epoch_of_def windows s Let_def)
  then show ?thesis using each_endpoint_replies[OF relay_window_local[THEN conjunct2] windows] by simp
qed

text \<open>A sender clock that is NaN passes the deadline check whatever the epoch's deadline is.\<close>

lemma nan_clock_never_drifts: "timer_clock timer = NaN \<Longrightarrow> timer_logical_deadline timer = Inr deadline \<Longrightarrow> \<not> deadline_drifts (fl_sub deadline wire_deadline)"
  by (cases "timer_duration timer"; cases wire_deadline) (auto simp: timer_logical_deadline_def deadline_drifts_def fl_sub_def fl_abs_def split: if_splits)

section \<open>Examples\<close>

definition sample_bundle :: "commudp_active list" where
  "sample_bundle = [seed_packet 300 [0, 0, 0, 0, 0x1D], seed_packet 301 sample_timer, seed_packet 302 [0, 0, 0, 0, 0x1D],
     seed_packet 303 [0, 0, 0, 0, 0x1C, 0, 0, 0, 0, 0, 7], seed_packet (2 ^ 28 + 304) [0, 0, 0, 0, 0x1C, 0, 0, 0, 0, 0, 14],
     seed_packet (2 * 2 ^ 28 + 305) sample_timer, seed_packet 306 [0, 0, 0, 0, 0x1D], seed_packet 307 [0, 0, 0, 0, 0x1C, 0, 0, 0, 0, 0, 7]]"

definition paired_service :: service_state where
  "paired_service = waiting_service\<lparr>sv_ready_epochs := [(''7'', sample_epoch\<lparr>re_stage := STATE_PAIR_SENT_WAIT_HOST_NATIVE_BUNDLE\<rparr>)]\<rparr>"

lemma sample_bundle_timer: "bundle_timer sample_bundle = Some sample_timer"
proof -
  have t: "logical_type sample_timer = ol_type START_TIMER" "current_timer_body sample_timer = Some sample_timer" "timer_id sample_timer = RACE_COUNTDOWN"
    "logical_type [0, 0, 0, 0, 0x1D] = ol_type GAME_ATTRIBUTES"
    by (simp_all add: sample_timer_def logical_type_def ol_type_def LOGICAL_PREFIX_def current_timer_body_def timer_id_def RACE_COUNTDOWN_def slice_def be_nat_def)
  have s: "logical_type [0, 0, 0, 0, 0x1C, 0, 0, 0, 0, 0, n] = ol_type ACTIVE_GAME_MESSAGE"
    "active_state [0, 0, 0, 0, 0x1C, 0, 0, 0, 0, 0, n] = Some (unat n)" for n :: byte
    by (simp_all add: logical_type_def ol_type_def LOGICAL_PREFIX_def active_state_def current_active_game_body_def state_value_def slice_def be_nat_def Let_def)
  show ?thesis
    by (simp add: bundle_timer_def sample_bundle_def sample_logical t s BUNDLE_TYPES_def Let_def) (simp add: active_flag_def seed_packet_def)
qed

lemma sample_drift: "timer_logical_deadline sample_timer = Inr (Fin (61 / 2))" "timer_duration sample_timer = Fin (61 / 2)"
    "\<not> deadline_drifts (fl_sub (Fin (61 / 2)) (Fin (61 / 2)))"
  by (simp_all add: timer_logical_deadline_def sample_timer_def timer_clock_def timer_duration_def slice_def be_nat_def unpack_f32_def Let_def
     fl_of_small deadline_drifts_def fl_sub_def fl_abs_def)

lemma sample_started: "\<exists>sv'. relay_native_ready_bundle plain_publisher 0 (sample_ticket ''H'' 1) sample_bundle paired_service = Inr (positions sample_bundle, sv')"
proof -
  have g: "tk_gid (sample_ticket ''H'' 1) = ''7''" "tk_player_id (sample_ticket ''H'' 1) = 1"
    by (simp_all add: tk_gid_def sample_ticket_def sample_game_def tk_player_id_def sample_participant_def)
  have gb: "sv_games paired_service = sv_games waiting_service" "sv_bindings paired_service = sv_bindings waiting_service"
    by (simp_all add: paired_service_def)
  note same = live_game_cong[OF gb(1)] is_host_cong[OF gb(1)] session_endpoints_cong[OF gb] waiting_same
  have e: "map_of (sv_ready_epochs paired_service) ''7'' = Some (sample_epoch\<lparr>re_stage := STATE_PAIR_SENT_WAIT_HOST_NATIVE_BUNDLE\<rparr>)"
    by (simp add: paired_service_def)
  have d: "re_wire_deadline sample_epoch = Fin (61 / 2)" "re_host_pid sample_epoch = 1"
    by (simp_all add: sample_epoch_def new_epoch_def tk_player_id_def sample_ticket_def sample_participant_def)
  have i: "invited_dedicated_flow paired_service sample_game [host_address, guest_address] = False"
    by (simp add: invited_dedicated_flow_def sample_game_def)
  obtain sv1 where w: "each_endpoint (relay_window plain_publisher 0 (bundle_ack paired_service False (sample_epoch\<lparr>re_stage := STATE_PAIR_SENT_WAIT_HOST_NATIVE_BUNDLE\<rparr>))
      sample_bundle) [host_address, guest_address] paired_service = Inr sv1"
  proof -
    have "is_ok (each_endpoint (relay_window plain_publisher 0 (bundle_ack paired_service False (sample_epoch\<lparr>re_stage := STATE_PAIR_SENT_WAIT_HOST_NATIVE_BUNDLE\<rparr>))
        sample_bundle) [host_address, guest_address] paired_service)"
      by (simp add: relay_window_def bundle_ack_def current_ack_def sample_bundle_def sample_logical sample_timer_def paired_service_def waiting_service_def
        sample_defs window_defs Let_def) (simp add: active_flag_def seed_packet_def)
    then show ?thesis using that by (auto simp: is_ok_iff)
  qed
  have f: "sv_races sv1 = []" using published_frame[OF published_each[OF published_relay_window w]]
    by (simp add: paired_service_def waiting_service_def sample_service_def)
  have "distinct [host_address, guest_address]" by (simp add: host_address_def guest_address_def)
  from each_endpoint_local[OF relay_window_local[THEN conjunct1] this w]
  have wires: "\<forall>a \<in> set [host_address, guest_address]. map_of (sv_wires sv1) a \<noteq> None" by fastforce
  have "is_ok (start_countdown 0 ''7'' sample_game [host_address, guest_address] (sample_epoch\<lparr>re_stage := STATE_PAIR_SENT_WAIT_HOST_NATIVE_BUNDLE\<rparr>)
      sample_bundle sample_timer sv1)"
    using start_countdown_duration[OF wires, of sample_timer "''7''"] f
    by (simp add: sample_drift race_of_def initial_race_state_def) (simp add: sample_timer_def)
  then obtain sv2 where c: "start_countdown 0 ''7'' sample_game [host_address, guest_address] (sample_epoch\<lparr>re_stage := STATE_PAIR_SENT_WAIT_HOST_NATIVE_BUNDLE\<rparr>)
      sample_bundle sample_timer sv1 = Inr sv2" by (auto simp: is_ok_iff)
  show ?thesis
    unfolding relay_native_ready_bundle_def g e option.case Let_def same sample_endpoints sample_live i sample_bundle_timer prod.case sample_drift rbind_Inr
    by (simp add: d sample_drift sample_is_host w c del: each_endpoint.simps)
qed



theorem repeated_seed_absorbed_witness:
  "\<exists>sv' sv''. relay_retail_ready_seed plain_publisher 0 (sample_ticket ''H'' 1) sample_seed sample_service = Inr ([0, 1, 2, 3, 4], sv') \<and>
     relay_retail_ready_seed plain_publisher 1 (sample_ticket ''H'' 1) sample_seed sv' = Inr ([0, 1, 2, 3, 4], sv'') \<and> sv_out sv'' = sv_out sv'"
proof -
  obtain sv' where s: "relay_retail_ready_seed plain_publisher 0 (sample_ticket ''H'' 1) sample_seed sample_service = Inr ([0, 1, 2, 3, 4], sv')"
    using sample_relay by auto
  have k: "games_keyed sample_service" by (simp add: games_keyed_def sample_service_def new_game_directory_def)
  have p: "positions sample_seed = [0, 1, 2, 3, 4]" by (simp add: positions_def sample_seed_def upt_rec)
  from repeated_seed_absorbed[OF s _ k, of 1] s show ?thesis unfolding p by auto
qed


end
