(* ===== verification/RaceResults.thy ===== *)
theory RaceResults
  imports ServiceState Progression
begin

text \<open>
  \<open>RaceResultCoordinator\<close> of \<open>carbon/rebroadcaster/race_results.py\<close>: it keeps one result
  tracker per room, decides which finish messages and reports count, and once a race is
  complete finalises it, grants the rewards and prepares the final message.  Log lines and
  the journal file are left out.  A handler returns its outcome, or the exception, with the
  state it leaves.
\<close>

section \<open>Outcomes\<close>

record race_results =
  rc_trackers :: "(string \<times> race_result_tracker) list"
  rc_progression :: progression_store

record accepted_leader =
  al_gid :: string
  al_ranked :: bool
  al_profile_id :: int
  al_player_id :: int
  al_server_car_id :: int
  al_finish_reason :: int
  al_rank :: nat

record relayed_racer =
  rf_gid :: string
  rf_source :: address
  rf_player_id :: int
  rf_server_car_id :: int
  rf_finish_reason :: int
  rf_endpoint_count :: nat

datatype result_authority = NativeLeaderOrder | UnanimousReports | ReportQuorum

record final_commit =
  fc_gid :: string
  fc_ranked :: bool
  fc_body :: bytes
  fc_results :: player_game_results
  fc_placements :: "authoritative_placement list"
  fc_progression :: ranked_race_progression
  fc_winner_profile_ids :: "int list"
  fc_authority :: result_authority

record result_outcome =
  ro_publications :: "bytes list"
  ro_final :: "final_commit option"
  ro_leader :: "accepted_leader option"
  ro_racer :: "relayed_racer option"

datatype result_failure = ResultFailed result_error | RatingFailed progression_error

definition no_outcome :: result_outcome where
  "no_outcome = \<lparr>ro_publications = [], ro_final = None, ro_leader = None, ro_racer = None\<rparr>"

section \<open>Trackers\<close>

definition tracker_for :: "carbon_game \<Rightarrow> race_results \<Rightarrow> race_result_tracker" where
  "tracker_for g rc = (case map_of (rc_trackers rc) (cg_gid g) of
      None \<Rightarrow> new_tracker (is_ranked g) | Some t \<Rightarrow> t\<lparr>tr_ranked := is_ranked g\<rparr>)"

definition put_tracker :: "carbon_game \<Rightarrow> race_result_tracker \<Rightarrow> race_results \<Rightarrow> race_results" where
  "put_tracker g t rc = rc\<lparr>rc_trackers := AList.update (cg_gid g) t (rc_trackers rc)\<rparr>"

definition discard_tracker :: "string \<Rightarrow> race_results \<Rightarrow> bool \<times> race_results" where
  "discard_tracker gid rc = (map_of (rc_trackers rc) gid \<noteq> None, rc\<lparr>rc_trackers := AList.delete gid (rc_trackers rc)\<rparr>)"

definition award_room :: "carbon_game \<Rightarrow> int \<Rightarrow> int list \<Rightarrow> race_results \<Rightarrow> race_awards \<times> race_results" where
  "award_room g event_type winners rc =
    (let (awards, s) = award_race (map (\<lambda>(k, p). cp_identity p) (cg_participants g)) event_type winners (is_ranked g) (rc_progression rc)
     in (awards, rc\<lparr>rc_progression := s\<rparr>))"

section \<open>Finish messages\<close>

definition handle_leader_finished ::
  "carbon_game \<Rightarrow> carbon_participant \<Rightarrow> game_race_state \<Rightarrow> bytes \<Rightarrow> race_results \<Rightarrow> (result_failure + result_outcome) \<times> race_results" where
  "handle_leader_finished g p race logical rc =
    (if rs_phase race \<noteq> RACING then (Inr no_outcome, rc)
     else case decode_finish_signal logical (Some LEADER_FINISHED_TYPE) of
       Inl e \<Rightarrow> (Inr no_outcome, rc)
     | Inr signal \<Rightarrow>
         let t = tracker_for g rc; profile = id_profile_id (cp_identity p); car = fs_server_car_id signal;
             (bound, t) = (if map_of (tr_car_by_profile t) profile = None then bind_car profile car t else (True, t))
         in if \<not> bound then (Inr no_outcome, put_tracker g t rc)
            else if map_of (tr_car_by_profile t) profile \<noteq> Some car then (Inr no_outcome, put_tracker g t rc)
            else let (recorded, t) = record_finish profile signal t; rc = put_tracker g t rc
            in if \<not> recorded then (Inr no_outcome, rc)
               else (case encode_finish_signal \<lparr>fs_server_car_id = car, fs_finish_reason = 0\<rparr> LEADER_FINISHED_TYPE of
                   Inl e \<Rightarrow> (Inl (ResultFailed e), rc)
                 | Inr body \<Rightarrow> (Inr (no_outcome\<lparr>ro_publications := [body],
                     ro_leader := Some \<lparr>al_gid = cg_gid g, al_ranked = is_ranked g, al_profile_id = profile,
                       al_player_id = cp_player_id p, al_server_car_id = car, al_finish_reason = fs_finish_reason signal,
                       al_rank = length (tr_finish_order t)\<rparr>\<rparr>), rc)))"

definition handle_client_racer_finished ::
  "address \<Rightarrow> carbon_game \<Rightarrow> carbon_participant \<Rightarrow> game_race_state \<Rightarrow> bytes \<Rightarrow> nat \<Rightarrow> (result_failure + result_outcome) \<times> game_race_state" where
  "handle_client_racer_finished source g p race logical endpoint_count =
    (if rs_phase race \<noteq> RACING then (Inr no_outcome, race)
     else case decode_finish_signal logical (Some RACER_FINISHED_TYPE) of
       Inl e \<Rightarrow> (Inr no_outcome, race)
     | Inr signal \<Rightarrow>
         let car = fs_server_car_id signal in
         if car \<le> 0 then (Inr no_outcome, race)
         else if car |\<in>| rs_relayed_racer_finished race then (Inr no_outcome, race)
         else let race = race\<lparr>rs_relayed_racer_finished := finsert car (rs_relayed_racer_finished race)\<rparr>
         in (case encode_finish_signal signal RACER_FINISHED_TYPE of
               Inl e \<Rightarrow> (Inl (ResultFailed e), race)
             | Inr body \<Rightarrow> (Inr (no_outcome\<lparr>ro_publications := [body],
                 ro_racer := Some \<lparr>rf_gid = cg_gid g, rf_source = source, rf_player_id = cp_player_id p, rf_server_car_id = car,
                   rf_finish_reason = fs_finish_reason signal, rf_endpoint_count = endpoint_count\<rparr>\<rparr>), race)))"

section \<open>Finalising a race\<close>

definition race_participants :: "carbon_game \<Rightarrow> carbon_participant list" where
  "race_participants g = sort_key cp_player_id (map snd (cg_participants g))"

definition all_finished :: "race_result_tracker \<Rightarrow> int list \<Rightarrow> bool" where
  "all_finished t profiles \<longleftrightarrow> profiles \<noteq> [] \<and> list_all (\<lambda>p. case map_of (tr_car_by_profile t) p of
     None \<Rightarrow> False | Some car \<Rightarrow> map_of (tr_finish_signals t) car \<noteq> None) profiles"

definition authority_of :: "race_result_tracker \<Rightarrow> int list \<Rightarrow> result_authority" where
  "authority_of t profiles = (if tr_ranked t \<and> all_finished t profiles then NativeLeaderOrder
     else if tr_ranked t then UnanimousReports else ReportQuorum)"

definition race_mode_of :: "carbon_game \<Rightarrow> int" where
  "race_mode_of g = (let text_value = strip (get_or (cg_properties g) ''B-U-game_mode'' ''0'')
     in case py_int (if text_value = [] then ''0'' else text_value) of None \<Rightarrow> 0 | Some v \<Rightarrow> v)"

text \<open>
  The first row of a car gets the reputation its driver earned.  The source keeps it as a
  double until the row is packed; here it becomes a single-precision number at once, with
  the packing error raised here.
\<close>

fun set_reward :: "int \<Rightarrow> f32 \<Rightarrow> racer_result list \<Rightarrow> racer_result list" where
  "set_reward car xp [] = []"
| "set_reward car xp (r # rs) = (if rr_server_car_id r = car then r\<lparr>rr_delta_xp := xp\<rparr> # rs else r # set_reward car xp rs)"

fun reward_rows :: "(int \<times> rat) list \<Rightarrow> authoritative_placement list \<Rightarrow> racer_result list \<Rightarrow> result_error + racer_result list" where
  "reward_rows reps [] rows = Inr rows"
| "reward_rows reps (a # as) rows =
     (if ap_server_car_id a \<notin> rr_server_car_id ` set rows then reward_rows reps as rows
      else case pack_f32 (dict_get reps (authoritative_placement.ap_profile_id a) 0) of
        None \<Rightarrow> Inl StructOutOfRange
      | Some xp \<Rightarrow> reward_rows reps as (set_reward (ap_server_car_id a) (f32_of xp) rows))"

definition final_message ::
  "time_tuple \<Rightarrow> carbon_game \<Rightarrow> result_authority \<Rightarrow> finalized_race \<Rightarrow> ranked_race_progression \<Rightarrow> result_failure + final_commit" where
  "final_message now g authority f progression =
    (case rbind (reward_rows (rp_rep_awards progression) (fr_placements f) (pg_racers (fr_results f))) (\<lambda>rows.
        let results = (fr_results f)\<lparr>pg_racers := rows\<rparr>
        in rbind (encode_results results FINAL_GAME_RESULTS_TYPE now) (\<lambda>body. Inr (results, body))) of
       Inl e \<Rightarrow> Inl (ResultFailed e)
     | Inr (results, body) \<Rightarrow> Inr \<lparr>fc_gid = cg_gid g, fc_ranked = fr_ranked f, fc_body = body, fc_results = results,
         fc_placements = fr_placements f, fc_progression = progression, fc_winner_profile_ids = fr_winner_profile_ids f,
         fc_authority = authority\<rparr>)"

definition maybe_finalize :: "time_tuple \<Rightarrow> carbon_game \<Rightarrow> race_results \<Rightarrow> (result_failure + final_commit option) \<times> race_results" where
  "maybe_finalize now g rc =
    (let t = tracker_for g rc; rc = put_tracker g t rc; participants = race_participants g;
         profiles = map (\<lambda>p. id_profile_id (cp_identity p)) participants
     in if tr_final_sent t then (Inr None, rc)
        else if \<not> is_complete t profiles then (Inr None, rc)
        else (case finalize (map (\<lambda>p. (id_profile_id (cp_identity p), cp_player_id p)) participants) (race_mode_of g) t of
            Inl e \<Rightarrow> (Inl (ResultFailed e), rc)
          | Inr (f, t') \<Rightarrow>
              let rc = put_tracker g t' rc;
                  rankings = map (\<lambda>a. (authoritative_placement.ap_profile_id a, ap_ranking a)) (rev (fr_placements f));
                  finished = map authoritative_placement.ap_profile_id (filter ap_finished (fr_placements f));
                  (progression, s) = record_authoritative_race (map cp_identity participants) (pg_race_mode (fr_results f)) rankings
                    finished (fr_ranked f) (rc_progression rc);
                  rc = rc\<lparr>rc_progression := s\<rparr>
              in (case progression of
                    Inl e \<Rightarrow> (Inl (RatingFailed e), rc)
                  | Inr pr \<Rightarrow> (map_sum id Some (final_message now g (authority_of t profiles) f pr), rc))))"

definition finalize_if_complete :: "time_tuple \<Rightarrow> carbon_game \<Rightarrow> race_results \<Rightarrow> (result_failure + result_outcome) \<times> race_results" where
  "finalize_if_complete now g rc =
    (case maybe_finalize now g rc of
       (Inl e, rc) \<Rightarrow> (Inl e, rc)
     | (Inr None, rc) \<Rightarrow> (Inr no_outcome, rc)
     | (Inr (Some f), rc) \<Rightarrow> (Inr (no_outcome\<lparr>ro_publications := [fc_body f], ro_final := Some f\<rparr>), rc))"

definition handle_result_report ::
  "time_tuple \<Rightarrow> carbon_game \<Rightarrow> carbon_participant \<Rightarrow> bytes \<Rightarrow> race_results \<Rightarrow> (result_failure + result_outcome) \<times> race_results" where
  "handle_result_report now g p logical rc =
    (case decode_results logical of
       Inl e \<Rightarrow> (Inr no_outcome, rc)
     | Inr decoded \<Rightarrow>
         if int (dg_message_type decoded) = FINAL_GAME_RESULTS_TYPE then (Inr no_outcome, rc)
         else (case record_report (id_profile_id (cp_identity p)) (dg_results decoded) (tracker_for g rc) of
             Inl e \<Rightarrow> (Inl (ResultFailed e), put_tracker g (tracker_for g rc) rc)
           | Inr (accepted, t) \<Rightarrow> finalize_if_complete now g (put_tracker g t rc)))"

definition commit_outcome :: "result_outcome \<Rightarrow> game_race_state \<Rightarrow> race_state_error + game_race_state" where
  "commit_outcome outcome race = (case ro_final outcome of
      None \<Rightarrow> Inr race
    | Some f \<Rightarrow> if rs_phase race = RACING then rbind (mark_finished race) (\<lambda>(changed, race). Inr race) else Inr race)"

end
