(* ===== verification/RaceResultsProps.thy ===== *)
theory RaceResultsProps
  imports RaceResults ProgressionProps "HOL-Library.Sublist"
begin

text \<open>
  What the results of a room's race add up to.  A run is any sequence of finish messages,
  reports, completeness checks and discards, each with the room as the directory holds it
  at that moment.  The lemmas show that a race counts once for its participants however
  often its messages arrive, that the evidence stays consistent, and that the final message
  carries what was decided.
\<close>

section \<open>Runs\<close>

datatype result_call =
    Leader_Finished carbon_game carbon_participant game_race_state bytes
  | Result_Report time_tuple carbon_game carbon_participant bytes
  | Check_Final time_tuple carbon_game
  | Discard string

fun run_result_call :: "result_call \<Rightarrow> race_results \<Rightarrow> (result_failure + result_outcome) \<times> race_results" where
  "run_result_call (Leader_Finished g p race logical) rc = handle_leader_finished g p race logical rc"
| "run_result_call (Result_Report now g p logical) rc = handle_result_report now g p logical rc"
| "run_result_call (Check_Final now g) rc = finalize_if_complete now g rc"
| "run_result_call (Discard gid) rc = (Inr no_outcome, snd (discard_tracker gid rc))"

fun call_game :: "result_call \<Rightarrow> carbon_game option" where
  "call_game (Leader_Finished g p race logical) = Some g"
| "call_game (Result_Report now g p logical) = Some g"
| "call_game (Check_Final now g) = Some g"
| "call_game (Discard gid) = None"

text \<open>Whether a room's race has been finalised since its tracker was last discarded.\<close>

definition decided :: "string \<Rightarrow> race_results \<Rightarrow> bool" where
  "decided gid rc = (case map_of (rc_trackers rc) gid of None \<Rightarrow> False | Some t \<Rightarrow> tr_final_sent t)"

text \<open>The room a call finalises the race of, if it does, and the final result it publishes.\<close>

definition newly_decided :: "result_call \<Rightarrow> race_results \<Rightarrow> carbon_game option" where
  "newly_decided c rc = (case call_game c of None \<Rightarrow> None
     | Some g \<Rightarrow> if \<not> decided (cg_gid g) rc \<and> decided (cg_gid g) (snd (run_result_call c rc)) then Some g else None)"

definition published_final :: "result_call \<Rightarrow> race_results \<Rightarrow> final_commit option" where
  "published_final c rc = (case fst (run_result_call c rc) of Inl e \<Rightarrow> None | Inr outcome \<Rightarrow> ro_final outcome)"

fun decided_races :: "result_call list \<Rightarrow> race_results \<Rightarrow> carbon_game list" where
  "decided_races [] rc = []"
| "decided_races (c # cs) rc = (case newly_decided c rc of None \<Rightarrow> [] | Some g \<Rightarrow> [g]) @ decided_races cs (snd (run_result_call c rc))"

fun published_finals :: "result_call list \<Rightarrow> race_results \<Rightarrow> final_commit list" where
  "published_finals [] rc = []"
| "published_finals (c # cs) rc = (case published_final c rc of None \<Rightarrow> [] | Some f \<Rightarrow> [f]) @ published_finals cs (snd (run_result_call c rc))"

definition run_results :: "result_call list \<Rightarrow> race_results \<Rightarrow> race_results" where
  "run_results cs rc = foldl (\<lambda>rc c. snd (run_result_call c rc)) rc cs"

definition new_race_results :: "progression_store \<Rightarrow> race_results" where
  "new_race_results s = \<lparr>rc_trackers = [], rc_progression = s\<rparr>"

text \<open>The races of an account among the rosters of some rooms.\<close>

definition starts_in :: "carbon_game \<Rightarrow> string \<Rightarrow> nat" where
  "starts_in g key = races_of (map cp_identity (race_participants g)) key (\<lambda>p. True)"

section \<open>One call\<close>

definition trackers_ok :: "race_results \<Rightarrow> bool" where
  "trackers_ok rc \<longleftrightarrow> (\<forall>gid t. map_of (rc_trackers rc) gid = Some t \<longrightarrow> tracker_ok t)"

lemma tracker_for_ok: "trackers_ok rc \<Longrightarrow> tracker_ok (tracker_for g rc)"
  using tracker_ok_reached[of "is_ranked g" "[]"]
  by (auto simp: tracker_for_def trackers_ok_def tracker_ok_def cars_ok_def signals_ok_def split: option.splits)

lemma tracker_for_sent: "tr_final_sent (tracker_for g rc) = decided (cg_gid g) rc"
  by (simp add: tracker_for_def decided_def new_tracker_def split: option.splits)

lemma put_tracker_facts [simp]:
  "rc_progression (put_tracker g t rc) = rc_progression rc"
  "decided gid (put_tracker g t rc) = (if gid = cg_gid g then tr_final_sent t else decided gid rc)"
  "put_tracker g t' (put_tracker g t rc) = put_tracker g t' rc"
  by (simp_all add: put_tracker_def decided_def AList.update_conv')

lemma set_progression_facts [simp]:
  "trackers_ok (rc\<lparr>rc_progression := s\<rparr>) = trackers_ok rc" "decided gid (rc\<lparr>rc_progression := s\<rparr>) = decided gid rc"
  by (simp_all add: trackers_ok_def decided_def)

lemma tracker_for_put: "tracker_for g (put_tracker g t rc) = t\<lparr>tr_ranked := is_ranked g\<rparr>"
  by (simp add: tracker_for_def put_tracker_def AList.update_conv')

lemma trackers_ok_put: "trackers_ok rc \<Longrightarrow> tracker_ok t \<Longrightarrow> trackers_ok (put_tracker g t rc)"
  by (auto simp: trackers_ok_def put_tracker_def AList.update_conv')

text \<open>A step that leaves the awards and the decisions alone and keeps the evidence consistent.\<close>

definition quiet :: "race_results \<Rightarrow> race_results \<Rightarrow> bool" where
  "quiet rc rc' \<longleftrightarrow> rc_progression rc' = rc_progression rc \<and> (\<forall>gid. decided gid rc' = decided gid rc) \<and> (trackers_ok rc \<longrightarrow> trackers_ok rc')"

lemma quiet_refl [simp]: "quiet rc rc" by (simp add: quiet_def)

lemma quiet_put: "tr_final_sent t = decided (cg_gid g) rc \<Longrightarrow> (trackers_ok rc \<Longrightarrow> tracker_ok t) \<Longrightarrow> quiet rc (put_tracker g t rc)"
  by (simp add: quiet_def trackers_ok_put)

lemma bind_car_sent: "tr_final_sent (snd (bind_car profile car t)) = tr_final_sent t"
  by (simp add: bind_car_def)

lemma record_finish_sent: "tr_final_sent (snd (record_finish profile signal t)) = tr_final_sent t"
  using bind_car_sent[of profile "fs_server_car_id signal" t] by (auto simp: record_finish_def Let_def split: prod.splits)

lemma bind_car_sent': "bind_car profile car t = (b, t') \<Longrightarrow> tr_final_sent t' = tr_final_sent t"
  using bind_car_sent[of profile car t] by simp

lemma record_report_sent:
  assumes "record_report profile report t = Inr (changed, t')"
  shows "tr_final_sent t' = tr_final_sent t"
proof -
  from assms obtain n where n: "normalized report = Inr n" by (auto simp: record_report_def rbind_eq_Inr)
  define car where "car = pg_reporting_server_car_id n"
  obtain b t1 where t1: "(if car > 0 then bind_car profile car t else (True, t)) = (b, t1)" by fastforce
  then have "tr_final_sent t1 = tr_final_sent t" by (auto split: if_splits dest: bind_car_sent')
  moreover have "tr_final_sent t' = tr_final_sent t1"
    using assms t1 unfolding record_report_def by (auto simp: n car_def[symmetric] split: if_splits)
  ultimately show ?thesis by simp
qed

lemma leader_quiet:
  assumes h: "handle_leader_finished g p race logical rc = (r, rc')"
  shows "quiet rc rc'"
proof (cases "rs_phase race = RACING \<and> is_ok (decode_finish_signal logical (Some LEADER_FINISHED_TYPE))")
  case True
  then obtain s where s: "rs_phase race = RACING" "decode_finish_signal logical (Some LEADER_FINISHED_TYPE) = Inr s" by (auto simp: is_ok_iff)
  define prof where "prof = id_profile_id (cp_identity p)"
  define t where "t = tracker_for g rc"
  have t: "tr_final_sent t = decided (cg_gid g) rc" "trackers_ok rc \<Longrightarrow> tracker_ok t"
    by (simp_all add: t_def tracker_for_sent tracker_for_ok)
  obtain bound u where u: "(if map_of (tr_car_by_profile t) prof = None then bind_car prof (fs_server_car_id s) t else (True, t)) = (bound, u)"
    by fastforce
  then have us: "u = t \<or> u = snd (bind_car prof (fs_server_car_id s) t)" by (auto split: if_splits)
  obtain recorded v where v: "record_finish prof s u = (recorded, v)" by fastforce
  have "rc' = put_tracker g u rc \<or> rc' = put_tracker g v rc"
    using h s unfolding handle_leader_finished_def
    by (simp add: t_def[symmetric] prof_def[symmetric] u v Let_def split: if_splits sum.splits)
  moreover have "quiet rc (put_tracker g u rc)"
    using us by (intro quiet_put) (auto simp: t bind_car_sent bind_car_ok)
  moreover have "v = snd (record_finish prof s u)" by (simp add: v)
  then have "quiet rc (put_tracker g v rc)"
    using us by (intro quiet_put) (auto simp: t record_finish_sent bind_car_sent record_finish_ok bind_car_ok)
  ultimately show ?thesis by blast
next
  case False
  then show ?thesis using h by (auto simp: handle_leader_finished_def is_ok_iff split: if_splits sum.splits)
qed

lemma leader_no_final: "handle_leader_finished g p race logical rc = (Inr outcome, rc') \<Longrightarrow> ro_final outcome = None"
  by (auto simp: handle_leader_finished_def Let_def case_prod_beta no_outcome_def split: if_splits sum.splits)

text \<open>Finalising either leaves everything as it is, or decides the race and counts it.\<close>

definition counts_race :: "carbon_game \<Rightarrow> race_results \<Rightarrow> race_results \<Rightarrow> bool" where
  "counts_race g rc rc' \<longleftrightarrow> \<not> decided (cg_gid g) rc \<and> (\<forall>gid. decided gid rc' = (gid = cg_gid g \<or> decided gid rc)) \<and>
     (trackers_ok rc \<longrightarrow> trackers_ok rc') \<and>
     (\<forall>key. account_stat (rc_progression rc') key TOTAL_GAMES_STARTED_STAT
        = account_stat (rc_progression rc) key TOTAL_GAMES_STARTED_STAT + of_nat (starts_in g key))"

lemma finalize_sent: "finalize participants fallback t = Inr (f, t') \<Longrightarrow> t' = t\<lparr>tr_final_sent := True\<rparr> \<and> \<not> tr_final_sent t"
  by (auto simp: finalize_def rbind_eq_Inr Let_def split: if_splits)

lemma map_sum_Inr: "map_sum f h x = Inr y \<longleftrightarrow> (\<exists>z. x = Inr z \<and> y = h z)"
  by (cases x) auto

lemma final_message_gid: "final_message now g authority f progression = Inr final \<Longrightarrow> fc_gid final = cg_gid g"
  by (auto simp: final_message_def split: sum.splits)

text \<open>The parts of a finalisation that is not refused.\<close>

lemma maybe_finalize_parts:
  assumes "maybe_finalize now g rc = (Inr (Some f), rc')"
  shows "\<exists>result t' progression authority.
    finalize (map (\<lambda>p. (id_profile_id (cp_identity p), cp_player_id p)) (race_participants g)) (race_mode_of g) (tracker_for g rc) = Inr (result, t') \<and>
    final_message now g authority result progression = Inr f \<and> fc_progression f = progression \<and> fc_placements f = fr_placements result \<and>
    fc_winner_profile_ids f = fr_winner_profile_ids result"
  using assms unfolding maybe_finalize_def Let_def
  by (auto simp: map_sum_Inr final_message_def split: if_splits sum.splits prod.splits)

lemma maybe_finalize_shape:
  assumes "maybe_finalize now g rc = (r, rc')"
  shows "quiet rc rc' \<and> \<not> (\<exists>f. r = Inr (Some f)) \<or> counts_race g rc rc' \<and> (\<forall>f. r = Inr (Some f) \<longrightarrow> fc_gid f = cg_gid g)"
proof -
  define t where "t = tracker_for g rc"
  define ids where "ids = map (\<lambda>p. (id_profile_id (cp_identity p), cp_player_id p)) (race_participants g)"
  have t: "tr_final_sent t = decided (cg_gid g) rc" "trackers_ok rc \<Longrightarrow> tracker_ok t"
    by (simp_all add: t_def tracker_for_sent tracker_for_ok)
  then have q: "quiet rc (put_tracker g t rc)" by (rule quiet_put)
  show ?thesis
  proof (cases "finalize ids (race_mode_of g) t")
    case (Inl e)
    then have "quiet rc rc' \<and> \<not> (\<exists>f. r = Inr (Some f))"
      using assms q unfolding maybe_finalize_def Let_def t_def[symmetric] ids_def[symmetric] by (auto split: if_splits)
    then show ?thesis by blast
  next
    case (Inr ft)
    obtain f t' where ft: "ft = (f, t')" by (cases ft)
    note sent = finalize_sent[OF Inr[unfolded ft]]
    show ?thesis
    proof (cases "tr_final_sent t \<or> \<not> is_complete t (map (\<lambda>p. id_profile_id (cp_identity p)) (race_participants g))")
      case True
      then have "quiet rc rc' \<and> \<not> (\<exists>f. r = Inr (Some f))"
        using assms q unfolding maybe_finalize_def Let_def t_def[symmetric] ids_def[symmetric] by (auto split: if_splits)
      then show ?thesis by blast
    next
      case False
      define ranking_map where "ranking_map = map (\<lambda>a. (authoritative_placement.ap_profile_id a, ap_ranking a)) (rev (fr_placements f))"
      define finished where "finished = map authoritative_placement.ap_profile_id (filter ap_finished (fr_placements f))"
      obtain pr s' where s: "record_authoritative_race (map cp_identity (race_participants g)) (pg_race_mode (fr_results f)) ranking_map finished
          (fr_ranked f) (rc_progression rc) = (pr, s')" by fastforce
      let ?done = "(put_tracker g t' rc)\<lparr>rc_progression := s'\<rparr>"
      let ?profiles = "map (\<lambda>p. id_profile_id (cp_identity p)) (race_participants g)"
      have e: "maybe_finalize now g rc = (case pr of Inl e \<Rightarrow> (Inl (RatingFailed e), ?done)
          | Inr pr \<Rightarrow> (map_sum id Some (final_message now g (authority_of t ?profiles) f pr), ?done))"
        using False Inr s unfolding maybe_finalize_def Let_def t_def[symmetric] ids_def[symmetric] ft ranking_map_def finished_def
        by (cases pr) simp_all
      then have rc': "rc' = ?done" using assms by (simp split: sum.splits)
      have sent_ok: "tracker_ok t \<Longrightarrow> tracker_ok t'" using sent by (simp add: tracker_ok_def cars_ok_def signals_ok_def)
      have "trackers_ok rc \<longrightarrow> trackers_ok rc'"
        using trackers_ok_put[of rc t' g] sent_ok t(2) by (simp add: rc')
      moreover have "decided gid rc' = (gid = cg_gid g \<or> decided gid rc)" for gid
        using sent by (simp add: rc')
      moreover have "account_stat (rc_progression rc') key TOTAL_GAMES_STARTED_STAT
        = account_stat (rc_progression rc) key TOTAL_GAMES_STARTED_STAT + of_nat (starts_in g key)" for key
        using race_counts[OF s, of key] by (simp add: rc' starts_in_def)
      moreover have "\<forall>f. r = Inr (Some f) \<longrightarrow> fc_gid f = cg_gid g"
        using assms e by (auto simp: map_sum_Inr split: sum.splits dest!: final_message_gid)
      ultimately show ?thesis using sent t(1) by (simp add: counts_race_def)
    qed
  qed
qed

lemma quiet_counts: "quiet rc rc1 \<Longrightarrow> counts_race g rc1 rc2 \<Longrightarrow> counts_race g rc rc2"
  by (auto simp: quiet_def counts_race_def)

lemma quiet_trans: "quiet rc rc1 \<Longrightarrow> quiet rc1 rc2 \<Longrightarrow> quiet rc rc2"
  by (auto simp: quiet_def)

lemma finalize_if_shape:
  assumes "finalize_if_complete now g rc = (r, rc')"
  shows "quiet rc rc' \<and> (\<forall>out. r = Inr out \<longrightarrow> ro_final out = None) \<or>
    counts_race g rc rc' \<and> (\<forall>out f. r = Inr out \<longrightarrow> ro_final out = Some f \<longrightarrow> fc_gid f = cg_gid g)"
proof -
  obtain m rc1 where m: "maybe_finalize now g rc = (m, rc1)" by fastforce
  then have "rc1 = rc'" "r = (case m of Inl e \<Rightarrow> Inl e | Inr None \<Rightarrow> Inr no_outcome
      | Inr (Some f) \<Rightarrow> Inr (no_outcome\<lparr>ro_publications := [fc_body f], ro_final := Some f\<rparr>))"
    using assms by (auto simp: finalize_if_complete_def split: sum.splits option.splits)
  then show ?thesis using maybe_finalize_shape[OF m] by (auto simp: no_outcome_def split: sum.splits option.splits)
qed

lemma report_shape:
  assumes h: "handle_result_report now g p logical rc = (r, rc')"
  shows "quiet rc rc' \<and> (\<forall>out. r = Inr out \<longrightarrow> ro_final out = None) \<or>
    counts_race g rc rc' \<and> (\<forall>out f. r = Inr out \<longrightarrow> ro_final out = Some f \<longrightarrow> fc_gid f = cg_gid g)"
proof (cases "\<exists>dec. decode_results logical = Inr dec \<and> int (dg_message_type dec) \<noteq> FINAL_GAME_RESULTS_TYPE")
  case False
  then have "rc' = rc \<and> r = Inr no_outcome" using h by (auto simp: handle_result_report_def split: sum.splits)
  then show ?thesis by (simp add: no_outcome_def)
next
  case True
  then obtain dec where dec: "decode_results logical = Inr dec" "int (dg_message_type dec) \<noteq> FINAL_GAME_RESULTS_TYPE" by blast
  define t where "t = tracker_for g rc"
  have t: "tr_final_sent t = decided (cg_gid g) rc" "trackers_ok rc \<Longrightarrow> tracker_ok t"
    by (simp_all add: t_def tracker_for_sent tracker_for_ok)
  show ?thesis
  proof (cases "record_report (id_profile_id (cp_identity p)) (dg_results dec) t")
    case (Inl e)
    then have "rc' = put_tracker g t rc" "r = Inl (ResultFailed e)"
      using h dec by (simp_all add: handle_result_report_def t_def)
    then show ?thesis using quiet_put[OF t] by simp
  next
    case (Inr au)
    obtain a u where "au = (a, u)" by (cases au)
    with Inr have u: "record_report (id_profile_id (cp_identity p)) (dg_results dec) t = Inr (a, u)" by simp
    have q: "quiet rc (put_tracker g u rc)"
      by (rule quiet_put) (simp_all add: record_report_sent[OF u] t record_report_ok[OF _ u])
    have "finalize_if_complete now g (put_tracker g u rc) = (r, rc')"
      using h dec u by (simp add: handle_result_report_def t_def)
    from finalize_if_shape[OF this] show ?thesis
    proof (elim disjE conjE)
      assume "quiet (put_tracker g u rc) rc'" "\<forall>out. r = Inr out \<longrightarrow> ro_final out = None"
      with quiet_trans[OF q] show ?thesis by simp
    next
      assume "counts_race g (put_tracker g u rc) rc'" "\<forall>out f. r = Inr out \<longrightarrow> ro_final out = Some f \<longrightarrow> fc_gid f = cg_gid g"
      with quiet_counts[OF q] show ?thesis by simp
    qed
  qed
qed

section \<open>Whole runs\<close>

text \<open>Every call is quiet, or counts the race of its room, or discards a tracker.\<close>

lemma call_shape:
  assumes h: "run_result_call c rc = (r, rc')"
  shows "case call_game c of
      None \<Rightarrow> (\<exists>gid. c = Discard gid) \<and> (\<forall>out. r = Inr out \<longrightarrow> ro_final out = None)
    | Some g \<Rightarrow> quiet rc rc' \<and> (\<forall>out. r = Inr out \<longrightarrow> ro_final out = None) \<or>
        counts_race g rc rc' \<and> (\<forall>out f. r = Inr out \<longrightarrow> ro_final out = Some f \<longrightarrow> fc_gid f = cg_gid g)"
  using assms
proof (cases c)
  case (Leader_Finished g p race logical)
  then show ?thesis using h leader_quiet leader_no_final by (auto 0 3)
next
  case (Result_Report now g p logical)
  then show ?thesis using report_shape[of now g p logical rc r rc'] h by simp
next
  case (Check_Final now g)
  then show ?thesis using finalize_if_shape[of now g rc r rc'] h by simp
next
  case (Discard gid)
  then show ?thesis using h by (auto simp: no_outcome_def)
qed

lemma discard_facts:
  assumes "rc' = snd (discard_tracker gid rc)"
  shows "rc_progression rc' = rc_progression rc" "decided g rc' = (g \<noteq> gid \<and> decided g rc)" "trackers_ok rc \<Longrightarrow> trackers_ok rc'"
  using assms by (auto simp: discard_tracker_def decided_def trackers_ok_def AList.delete_conv' split: if_splits)

definition discards :: "string \<Rightarrow> result_call list \<Rightarrow> nat" where
  "discards gid cs = length (filter (\<lambda>c. c = Discard gid) cs)"

definition races_decided :: "string \<Rightarrow> carbon_game list \<Rightarrow> nat" where
  "races_decided gid gs = length (filter (\<lambda>g. cg_gid g = gid) gs)"

lemma run_result_step:
  fixes c rc
  defines "rc' \<equiv> snd (run_result_call c rc)"
  shows "trackers_ok rc \<Longrightarrow> trackers_ok rc'"
    and "account_stat (rc_progression rc') key TOTAL_GAMES_STARTED_STAT = account_stat (rc_progression rc) key TOTAL_GAMES_STARTED_STAT
      + of_nat (case newly_decided c rc of None \<Rightarrow> 0 | Some g \<Rightarrow> starts_in g key)"
    and "races_decided gid (case newly_decided c rc of None \<Rightarrow> [] | Some g \<Rightarrow> [g]) + of_bool (decided gid rc)
      \<le> of_bool (decided gid rc') + discards gid [c]"
    and "published_final c rc = Some f \<Longrightarrow> \<exists>g. newly_decided c rc = Some g \<and> fc_gid f = cg_gid g"
proof -
  obtain r where r: "run_result_call c rc = (r, rc')" using prod.collapse unfolding rc'_def by metis
  note shape = call_shape[OF r]
  have "(trackers_ok rc \<longrightarrow> trackers_ok rc') \<and>
    account_stat (rc_progression rc') key TOTAL_GAMES_STARTED_STAT = account_stat (rc_progression rc) key TOTAL_GAMES_STARTED_STAT
      + of_nat (case newly_decided c rc of None \<Rightarrow> 0 | Some g \<Rightarrow> starts_in g key) \<and>
    races_decided gid (case newly_decided c rc of None \<Rightarrow> [] | Some g \<Rightarrow> [g]) + of_bool (decided gid rc)
      \<le> of_bool (decided gid rc') + discards gid [c] \<and>
    (published_final c rc = Some f \<longrightarrow> (\<exists>g. newly_decided c rc = Some g \<and> fc_gid f = cg_gid g))"
  proof (cases "call_game c")
    case None
    with shape obtain g where c: "c = Discard g" by auto
    then have rc': "rc' = snd (discard_tracker g rc)" using r by simp
    show ?thesis using discard_facts[OF rc'] None
      by (auto simp: c newly_decided_def published_final_def races_decided_def discards_def no_outcome_def)
  next
    case (Some g)
    then have "c \<noteq> Discard gid" by auto
    then have d: "discards gid [c] = 0" by (simp add: discards_def)
    from shape Some consider
      (q) "quiet rc rc'" "\<forall>out. r = Inr out \<longrightarrow> ro_final out = None"
      | (c) "counts_race g rc rc'" "\<forall>out f. r = Inr out \<longrightarrow> ro_final out = Some f \<longrightarrow> fc_gid f = cg_gid g" by auto
    then show ?thesis
    proof cases
      case q
      then have "newly_decided c rc = None" using Some r by (simp add: newly_decided_def quiet_def)
      with q r d show ?thesis by (auto simp: quiet_def races_decided_def published_final_def split: sum.splits)
    next
      case c
      then have n: "newly_decided c rc = Some g" using Some r by (simp add: newly_decided_def counts_race_def)
      from c(1) have "races_decided gid [g] + of_bool (decided gid rc) \<le> (of_bool (decided gid rc') :: nat)"
        by (auto simp: counts_race_def races_decided_def)
      with c r n show ?thesis by (auto simp: d counts_race_def published_final_def split: sum.splits)
    qed
  qed
  then show "trackers_ok rc \<Longrightarrow> trackers_ok rc'"
    "account_stat (rc_progression rc') key TOTAL_GAMES_STARTED_STAT = account_stat (rc_progression rc) key TOTAL_GAMES_STARTED_STAT
      + of_nat (case newly_decided c rc of None \<Rightarrow> 0 | Some g \<Rightarrow> starts_in g key)"
    "races_decided gid (case newly_decided c rc of None \<Rightarrow> [] | Some g \<Rightarrow> [g]) + of_bool (decided gid rc)
      \<le> of_bool (decided gid rc') + discards gid [c]"
    "published_final c rc = Some f \<Longrightarrow> \<exists>g. newly_decided c rc = Some g \<and> fc_gid f = cg_gid g" by blast+
qed

lemma decided_races_counted:
  "account_stat (rc_progression (run_results cs rc)) key TOTAL_GAMES_STARTED_STAT
   = account_stat (rc_progression rc) key TOTAL_GAMES_STARTED_STAT + of_nat (sum_list (map (\<lambda>g. starts_in g key) (decided_races cs rc)))"
proof (induction cs arbitrary: rc)
  case (Cons c cs)
  then show ?case using run_result_step(2)[of c rc key]
    by (simp add: run_results_def add.assoc split: option.splits)
qed (simp add: run_results_def)

lemma decided_races_bounded:
  "races_decided gid (decided_races cs rc) + of_bool (decided gid rc) \<le> of_bool (decided gid (run_results cs rc)) + discards gid cs"
proof (induction cs arbitrary: rc)
  case (Cons c cs)
  have "races_decided gid (xs @ ys) = races_decided gid xs + races_decided gid ys" for xs ys by (simp add: races_decided_def)
  moreover have "discards gid (c # cs) = discards gid [c] + discards gid cs" by (simp add: discards_def)
  ultimately show ?case using Cons.IH[of "snd (run_result_call c rc)"] run_result_step(3)[of gid c rc]
    by (simp add: run_results_def)
qed (simp add: run_results_def races_decided_def)

lemma finals_decided: "subseq (map fc_gid (published_finals cs rc)) (map cg_gid (decided_races cs rc))"
proof (induction cs arbitrary: rc)
  case (Cons c cs)
  note IH = Cons.IH[of "snd (run_result_call c rc)"]
  show ?case
  proof (cases "published_final c rc")
    case None
    with IH show ?thesis by (auto split: option.splits)
  next
    case (Some f)
    from run_result_step(4)[OF this] IH Some show ?thesis by auto
  qed
qed simp

lemma run_trackers_ok: "trackers_ok rc \<Longrightarrow> trackers_ok (run_results cs rc)"
  by (induction cs arbitrary: rc) (simp_all add: run_results_def run_result_step(1))

text \<open>
  C12. A race counts exactly once.  In whatever order the finish messages, the reports and the
  completeness checks of any rooms arrive, and however often, every account has started
  exactly as many more races as it has places in the rosters of the races that were decided;
  a room's race is decided at most once until its tracker is discarded; every final result
  that is published belongs to a race decided in that very call, in the same order; and the
  evidence of every room stays consistent.
\<close>

theorem race_counted_once:
  "account_stat (rc_progression (run_results cs (new_race_results s))) key TOTAL_GAMES_STARTED_STAT
     = account_stat s key TOTAL_GAMES_STARTED_STAT + of_nat (sum_list (map (\<lambda>g. starts_in g key) (decided_races cs (new_race_results s))))
   \<and> races_decided gid (decided_races cs (new_race_results s)) \<le> Suc (discards gid cs)
   \<and> subseq (map fc_gid (published_finals cs (new_race_results s))) (map cg_gid (decided_races cs (new_race_results s)))
   \<and> trackers_ok (run_results cs (new_race_results s))"
proof -
  have "trackers_ok (new_race_results s)" by (simp add: trackers_ok_def new_race_results_def)
  moreover have "races_decided gid (decided_races cs (new_race_results s)) \<le> Suc (discards gid cs)"
    using decided_races_bounded[of gid cs "new_race_results s"] by (auto simp: of_bool_def split: if_splits)
  ultimately show ?thesis using decided_races_counted[of cs "new_race_results s" key] finals_decided run_trackers_ok
    by (simp add: new_race_results_def)
qed

section \<open>What the final message says\<close>

lemma find_unique: "distinct (map k xs) \<Longrightarrow> x \<in> set xs \<Longrightarrow> find (\<lambda>y. k y = k x) (xs @ ys) = Some x"
  by (induction xs) force+

lemma find_map_same: "(\<And>x. P (h x) = P x) \<Longrightarrow> find P (map h xs) = map_option h (find P xs)"
  by (induction xs) simp_all

lemma find_append: "find P xs = Some x \<Longrightarrow> find P (xs @ ys) = Some x"
  by (induction xs) (simp_all split: if_splits)

lemma set_reward_cars [simp]: "map rr_server_car_id (set_reward car xp rows) = map rr_server_car_id rows"
  by (induction rows) simp_all

lemma set_reward_set [simp]: "rr_server_car_id ` set (set_reward car xp rows) = rr_server_car_id ` set rows"
  by (metis set_reward_cars set_map)

lemma set_reward_length [simp]: "length (set_reward car xp rows) = length rows"
  by (induction rows) simp_all

lemma find_set_reward: "find (\<lambda>r. rr_server_car_id r = c) (set_reward car xp rows)
   = (if c = car then map_option (rr_delta_xp_update (\<lambda>x. xp)) (find (\<lambda>r. rr_server_car_id r = c) rows)
      else find (\<lambda>r. rr_server_car_id r = c) rows)"
  by (induction rows) auto

lemma reward_rows_other:
  "reward_rows reps as rows = Inr rows' \<Longrightarrow> c \<notin> ap_server_car_id ` set as \<Longrightarrow>
   find (\<lambda>r. rr_server_car_id r = c) rows' = find (\<lambda>r. rr_server_car_id r = c) rows"
  by (induction reps as rows rule: reward_rows.induct) (auto simp: find_set_reward split: if_splits option.splits)

lemma reward_rows_length: "reward_rows reps as rows = Inr rows' \<Longrightarrow> length rows' = length rows"
  by (induction reps as rows rule: reward_rows.induct) (auto split: if_splits option.splits)

lemma reward_rows_find:
  assumes "reward_rows reps as rows = Inr rows'" "distinct (map ap_server_car_id as)" "a \<in> set as"
    "find (\<lambda>r. rr_server_car_id r = ap_server_car_id a) rows = Some r"
  shows "\<exists>xp. pack_f32 (dict_get reps (authoritative_placement.ap_profile_id a) 0) = Some xp \<and>
    find (\<lambda>r. rr_server_car_id r = ap_server_car_id a) rows' = Some (r\<lparr>rr_delta_xp := f32_of xp\<rparr>)"
  using assms
proof (induction reps as rows rule: reward_rows.induct)
  case (2 reps b bs rows)
  show ?case
  proof (cases "a = b")
    case True
    have "r \<in> set rows \<and> rr_server_car_id r = ap_server_car_id a" using 2(6) by (auto simp: find_Some_iff)
    then have "ap_server_car_id a \<in> rr_server_car_id ` set rows" by (metis imageI)
    then obtain xp where xp: "pack_f32 (dict_get reps (authoritative_placement.ap_profile_id a) 0) = Some xp"
      "reward_rows reps bs (set_reward (ap_server_car_id a) (f32_of xp) rows) = Inr rows'"
      using 2(3) True by (auto split: option.splits)
    have "ap_server_car_id a \<notin> ap_server_car_id ` set bs" using 2(4) True by auto
    from reward_rows_other[OF xp(2) this] xp(1) 2(6) show ?thesis by (simp add: find_set_reward)
  next
    case False
    then have a: "a \<in> set bs" using 2(5) by simp
    then have "ap_server_car_id a \<in> ap_server_car_id ` set bs" by (rule imageI)
    moreover have "ap_server_car_id b \<notin> ap_server_car_id ` set bs" using 2(4) by simp
    ultimately have ab: "ap_server_car_id a \<noteq> ap_server_car_id b" by metis
    show ?thesis
    proof (cases "ap_server_car_id b \<in> rr_server_car_id ` set rows")
      case True
      with 2(3) obtain xp where xp: "pack_f32 (dict_get reps (authoritative_placement.ap_profile_id b) 0) = Some xp"
        "reward_rows reps bs (set_reward (ap_server_car_id b) (f32_of xp) rows) = Inr rows'" by (auto split: option.splits)
      have "\<not> ap_server_car_id b \<notin> rr_server_car_id ` set rows" using True by simp
      from 2(2)[OF this xp(1,2) _ a] 2(4,6) ab show ?thesis by (simp add: find_set_reward)
    next
      case False
      with 2(1)[OF False _ _ a] 2(3,4,6) show ?thesis by simp
    qed
  qed
qed simp

lemma place_participant_row:
  assumes "place_participant t profiles p = Inr (row, a)"
  shows "rr_server_car_id row = ap_server_car_id a \<and> rr_ranking row = ap_ranking a \<and> clean_racer row = Inr row"
proof -
  obtain profile player where p: "p = (profile, player)" by (cases p)
  from assms obtain raw where raw: "clean_racer raw = Inr row" "rr_server_car_id raw = ap_server_car_id a" "rr_ranking raw = ap_ranking a"
    unfolding p place_participant_def Let_def by (auto simp: rbind_eq_Inr)
  then have "row = canonical_racer raw" by (simp add: clean_racer_Inr)
  with raw canonical_clean[of raw] show ?thesis by (auto simp: is_ok_iff canonical_racer_def)
qed

lemma normalized_rows:
  assumes "normalized p = Inr q"
  shows "results_normal q" "pg_number_of_racers q = pg_number_of_racers p \<and> pg_number_of_racers p \<le> 8"
    "length (pg_racers p) = 8 \<Longrightarrow> pg_racers q = map canonical_racer (pg_racers p)"
  using normalized_normal[OF assms] assms
  by (auto simp: normalized_def rbind_eq_Inr Let_def MAX_RACERS_def clean_all_Inr split: if_splits)

text \<open>The rows of a finalised ranked race, by car.\<close>

lemma finalize_rows:
  assumes "finalize participants fallback t = Inr (result, t')" "tr_ranked t" "distinct (map ap_server_car_id (fr_placements result))"
    "a \<in> set (fr_placements result)"
  shows "results_normal (fr_results result) \<and> pg_number_of_racers (fr_results result) = int (length participants) \<and>
    (\<exists>row. row_for_car (fr_results result) (ap_server_car_id a) = Some row \<and> rr_ranking row = ap_ranking a)"
proof -
  from assms(1,2) obtain placed raw where placed: "place_all t (map fst participants) participants = Inr placed"
    and pl: "fr_placements result = map snd placed" and n: "normalized raw = Inr (fr_results result)"
    and raw: "pg_number_of_racers raw = int (length participants)"
      "pg_racers raw = map fst placed @ replicate (MAX_RACERS - length placed) EMPTY_RACER"
    by (auto simp: finalize_def rbind_eq_Inr Let_def split: if_splits)
  have len: "length placed = length participants" using list_all2_lengthD[OF place_all_list[OF placed]] by simp
  note nr = normalized_rows[OF n]
  have small: "length placed \<le> 8" using nr(2) raw(1) len by simp
  from assms(4) obtain row where row: "(row, a) \<in> set placed" by (auto simp: pl)
  then obtain i where i: "i < length placed" "placed ! i = (row, a)" by (auto simp: in_set_conv_nth)
  have each: "place_participant t (map fst participants) (participants ! j) = Inr (placed ! j)" if "j < length placed" for j
    using place_all_list[OF placed] that by (simp add: list_all2_conv_all_nth)
  have cars: "map rr_server_car_id (map fst placed) = map ap_server_car_id (map snd placed)"
  proof -
    have "rr_server_car_id (fst x) = ap_server_car_id (snd x)" if "x \<in> set placed" for x
    proof -
      from that obtain j where "j < length placed" "placed ! j = x" by (auto simp: in_set_conv_nth)
      with each[of j] place_participant_row[of t "map fst participants" "participants ! j" "fst x" "snd x"] show ?thesis by simp
    qed
    then show ?thesis by simp
  qed
  have r: "rr_server_car_id row = ap_server_car_id a" "rr_ranking row = ap_ranking a" "clean_racer row = Inr row"
    using each[OF i(1)] place_participant_row i(2) by auto
  have "distinct (map rr_server_car_id (map fst placed))" unfolding cars pl[symmetric] by (rule assms(3))
  then have "find (\<lambda>x. rr_server_car_id x = rr_server_car_id row) (pg_racers raw) = Some row"
    unfolding raw(2) using row by (intro find_unique) force+
  moreover have "pg_racers (fr_results result) = map canonical_racer (pg_racers raw)"
    using nr(3) small by (simp add: raw(2) MAX_RACERS_def)
  ultimately have "row_for_car (fr_results result) (ap_server_car_id a) = Some (canonical_racer row)"
    using r by (simp add: row_for_car_def find_map_same canonical_racer_def)
  with r nr(1,2) raw(1) show ?thesis by (auto simp: canonical_of_clean)
qed

lemma placements_cars:
  assumes "cars_ok t" "\<And>a. a \<in> set as \<Longrightarrow> map_of (tr_car_by_profile t) (authoritative_placement.ap_profile_id a) = Some (ap_server_car_id a)"
    "distinct (map authoritative_placement.ap_profile_id as)"
  shows "distinct (map ap_server_car_id as)"
proof -
  have "ap_server_car_id a \<noteq> ap_server_car_id b" if "a \<in> set as" "b \<in> set as"
    "authoritative_placement.ap_profile_id a \<noteq> authoritative_placement.ap_profile_id b" for a b
    using assms(1) assms(2)[OF that(1)] assms(2)[OF that(2)] that(3) by (auto simp: cars_ok_def)
  with assms(3) show ?thesis by (auto simp: distinct_map inj_on_def)
qed

lemma final_message_reads:
  assumes "final_message now g authority result progression = Inr f" "results_normal (fr_results result)"
    "distinct (map ap_server_car_id (fr_placements result))"
  shows "\<exists>d. decode_results (fc_body f) = Inr d \<and> int (dg_message_type d) = FINAL_GAME_RESULTS_TYPE \<and> dg_trailing d = [] \<and>
    pg_number_of_racers (dg_results d) = pg_number_of_racers (fr_results result) \<and>
    (\<forall>a \<in> set (fr_placements result). \<forall>row. row_for_car (fr_results result) (ap_server_car_id a) = Some row \<longrightarrow>
       (\<exists>xp row'. pack_f32 (dict_get (rp_rep_awards progression) (authoritative_placement.ap_profile_id a) 0) = Some xp \<and>
          row_for_car (dg_results d) (ap_server_car_id a) = Some row' \<and> rr_ranking row' = rr_ranking row \<and> rr_delta_xp row' = f32_of xp))"
proof -
  from assms(1) obtain rows where rows: "reward_rows (rp_rep_awards progression) (fr_placements result) (pg_racers (fr_results result)) = Inr rows"
    and body: "encode_results ((fr_results result)\<lparr>pg_racers := rows\<rparr>) FINAL_GAME_RESULTS_TYPE now = Inr (fc_body f)"
    by (auto simp: final_message_def rbind_eq_Inr Let_def split: sum.splits)
  from results_read_back[OF body, of "[]"] obtain q d where q: "normalized ((fr_results result)\<lparr>pg_racers := rows\<rparr>) = Inr q"
    and d: "decode_results (fc_body f) = Inr d" "int (dg_message_type d) = FINAL_GAME_RESULTS_TYPE" "dg_trailing d = []" "dg_results d = q"
    by (auto simp: result_types)
  note nq = normalized_rows[OF q]
  have "length rows = 8" using reward_rows_length[OF rows] assms(2) by (simp add: results_normal_def)
  then have qr: "pg_racers q = map canonical_racer rows" using nq(3) by simp
  have "\<exists>xp row'. pack_f32 (dict_get (rp_rep_awards progression) (authoritative_placement.ap_profile_id a) 0) = Some xp \<and>
          row_for_car (dg_results d) (ap_server_car_id a) = Some row' \<and> rr_ranking row' = rr_ranking row \<and> rr_delta_xp row' = f32_of xp"
    if "a \<in> set (fr_placements result)" "row_for_car (fr_results result) (ap_server_car_id a) = Some row" for a row
    using reward_rows_find[OF rows assms(3) that(1)] that(2)
    by (auto simp: row_for_car_def d(4) qr find_map_same canonical_racer_def)
  then show ?thesis using d nq(2) by simp
qed

text \<open>
  C13. The final message of a ranked race in which every player crossed the line says what
  the server decided: read back, it has one row for each participant's car, with the place
  the car took in the server's own finish order and the reputation its driver was granted;
  the winner announced with it drove the car that finished first.
\<close>

theorem final_message_carries_decision:
  assumes "trackers_ok rc" "is_ranked g" "distinct (map (\<lambda>p. id_profile_id (cp_identity p)) (race_participants g))"
    "\<And>p. p \<in> set (race_participants g) \<Longrightarrow>
      \<exists>car \<in> set (tr_finish_order (tracker_for g rc)). map_of (tr_car_by_profile (tracker_for g rc)) (id_profile_id (cp_identity p)) = Some car"
    "maybe_finalize now g rc = (Inr (Some f), rc')"
  shows "\<exists>d. decode_results (fc_body f) = Inr d \<and> int (dg_message_type d) = FINAL_GAME_RESULTS_TYPE \<and>
    pg_number_of_racers (dg_results d) = int (length (race_participants g)) \<and>
    (\<forall>p \<in> set (race_participants g). \<exists>car row xp.
       map_of (tr_car_by_profile (tracker_for g rc)) (id_profile_id (cp_identity p)) = Some car \<and>
       row_for_car (dg_results d) car = Some row \<and> 0 < rr_ranking row \<and>
       nat (rr_ranking row) \<le> length (tr_finish_order (tracker_for g rc)) \<and>
       tr_finish_order (tracker_for g rc) ! (nat (rr_ranking row) - 1) = car \<and>
       pack_f32 (dict_get (rp_rep_awards (fc_progression f)) (id_profile_id (cp_identity p)) 0) = Some xp \<and> rr_delta_xp row = f32_of xp \<and>
       (id_profile_id (cp_identity p) \<in> set (fc_winner_profile_ids f)) = (car = hd (tr_finish_order (tracker_for g rc))))"
proof -
  define t where "t = tracker_for g rc"
  define ids where "ids = map (\<lambda>p. (id_profile_id (cp_identity p), cp_player_id p)) (race_participants g)"
  obtain result t' progression authority where fin: "finalize ids (race_mode_of g) t = Inr (result, t')"
    and msg: "final_message now g authority result progression = Inr f" and f: "fc_progression f = progression"
      "fc_winner_profile_ids f = fr_winner_profile_ids result"
    using maybe_finalize_parts[OF assms(5)] unfolding t_def ids_def by blast
  have ok: "tracker_ok t" unfolding t_def by (rule tracker_for_ok[OF assms(1)])
  have ranked: "tr_ranked t" using assms(2) by (simp add: t_def tracker_for_def new_tracker_def split: option.splits)
  have native: "native_finish_complete t (map fst ids)"
    using assms(4) ok ranked unfolding t_def[symmetric]
    by (fastforce simp: native_finish_complete_def ids_def list_all_iff tracker_ok_def signals_ok_def)
  have placed: "map (\<lambda>a. (authoritative_placement.ap_profile_id a, ap_player_id a)) (fr_placements result) = ids"
    and each: "\<And>a. a \<in> set (fr_placements result) \<Longrightarrow>
      map_of (tr_car_by_profile t) (authoritative_placement.ap_profile_id a) = Some (ap_server_car_id a) \<and> 0 < ap_ranking a \<and>
      nat (ap_ranking a) \<le> length (tr_finish_order t) \<and> tr_finish_order t ! (nat (ap_ranking a) - 1) = ap_server_car_id a"
    and winners: "fr_winner_profile_ids result
        = filter (\<lambda>p. map_of (tr_car_by_profile t) p = Some (hd (tr_finish_order t))) (map fst ids)"
    using native_order_decides[OF ok native fin] by blast+
  have profiles: "map authoritative_placement.ap_profile_id (fr_placements result) = map (\<lambda>p. id_profile_id (cp_identity p)) (race_participants g)"
    using arg_cong[OF placed, of "map fst"] by (simp add: ids_def comp_def)
  have dist: "distinct (map ap_server_car_id (fr_placements result))"
    using ok each assms(3) unfolding profiles[symmetric] tracker_ok_def by (blast intro: placements_cars)
  have rows: "results_normal (fr_results result)" "pg_number_of_racers (fr_results result) = int (length ids)"
    "\<exists>row. row_for_car (fr_results result) (ap_server_car_id a) = Some row \<and> rr_ranking row = ap_ranking a"
    if "a \<in> set (fr_placements result)" for a
    using finalize_rows[OF fin ranked dist that] by blast+
  have "ids \<noteq> []" using fin by (cases "ids = []") (simp_all add: finalize_def split: if_splits)
  then obtain a0 where "a0 \<in> set (fr_placements result)" using placed by (cases "fr_placements result") auto
  from final_message_reads[OF msg rows(1)[OF this] dist] rows(2)[OF this] obtain d where
    d: "decode_results (fc_body f) = Inr d" "int (dg_message_type d) = FINAL_GAME_RESULTS_TYPE"
       "pg_number_of_racers (dg_results d) = int (length ids)" and
    read: "\<And>a row. a \<in> set (fr_placements result) \<Longrightarrow> row_for_car (fr_results result) (ap_server_car_id a) = Some row \<Longrightarrow>
       \<exists>xp row'. pack_f32 (dict_get (rp_rep_awards progression) (authoritative_placement.ap_profile_id a) 0) = Some xp \<and>
          row_for_car (dg_results d) (ap_server_car_id a) = Some row' \<and> rr_ranking row' = rr_ranking row \<and> rr_delta_xp row' = f32_of xp"
    by auto
  have "\<exists>car row xp. map_of (tr_car_by_profile t) prof = Some car \<and>
       row_for_car (dg_results d) car = Some row \<and> 0 < rr_ranking row \<and> nat (rr_ranking row) \<le> length (tr_finish_order t) \<and>
       tr_finish_order t ! (nat (rr_ranking row) - 1) = car \<and>
       pack_f32 (dict_get (rp_rep_awards (fc_progression f)) prof 0) = Some xp \<and> rr_delta_xp row = f32_of xp \<and>
       (prof \<in> set (fc_winner_profile_ids f)) = (car = hd (tr_finish_order t))"
    if prof: "prof \<in> set (map fst ids)" for prof
  proof -
    from prof obtain a where a: "a \<in> set (fr_placements result)" "authoritative_placement.ap_profile_id a = prof"
      unfolding placed[symmetric] by auto
    then obtain row where "row_for_car (fr_results result) (ap_server_car_id a) = Some row" "rr_ranking row = ap_ranking a"
      using rows(3) by blast
    with read[OF a(1)] each[OF a(1)] a(2) prof show ?thesis by (fastforce simp: f winners)
  qed
  then show ?thesis using d by (auto simp: t_def ids_def)
qed

section \<open>A race of two\<close>

text \<open>Bob's car crosses the line first (the message arrives twice), then Ann's.\<close>

definition duo_player :: "identity \<Rightarrow> int \<Rightarrow> carbon_participant" where
  "duo_player i pid = \<lparr>cp_identity = i, cp_player_id = pid, cp_internal_ip = ''0.0.0.0'', cp_internal_port = 0,
     cp_invite_remote_player_id = 0, cp_entered_at = 0, cp_external_ip = ''''\<rparr>"

definition duo_room :: carbon_game where
  "duo_room = \<lparr>cg_gid = ''7'', cg_ugid = ''u'', cg_lobby_id = ''257'', cg_session = 1, cg_host = ann, cg_properties = [(''B-U-ranked'', ''1'')],
     cg_participants = [(1, duo_player ann 31), (2, duo_player bob 32)], cg_completed_invite_entries = {||}, cg_server_hosted = False,
     cg_allocator_user_id = None, cg_coop_match_help_type = None, cg_quick_join_locked = False, cg_challenge_ready = False,
     cg_created_tick_ms = 7, cg_descriptor_handle_base = 100, cg_descriptor_slot_capacity = 8, cg_created_at = 0\<rparr>"

definition duo_tracker :: race_result_tracker where
  "duo_tracker = foldl tracker_after (new_tracker True)
     [RecordFinish 2 \<lparr>fs_server_car_id = 6, fs_finish_reason = 0\<rparr>, RecordFinish 1 \<lparr>fs_server_car_id = 5, fs_finish_reason = 0\<rparr>]"

definition duo_evidence :: race_results where
  "duo_evidence = (new_race_results new_progression_store)\<lparr>rc_trackers := [(''7'', duo_tracker)]\<rparr>"

definition duo_time :: time_tuple where
  "duo_time = \<lparr>tm_year = 2008, tm_mon = 1, tm_mday = 1, tm_hour = 1, tm_min = 1, tm_sec = 1, tm_wday = 1, tm_yday = 1, tm_isdst = 0\<rparr>"

definition duo_rows :: "f32 \<Rightarrow> f32 \<Rightarrow> racer_result list" where
  "duo_rows xp5 xp6 = [EMPTY_RACER\<lparr>rr_ranking := 2, rr_server_car_id := 5, rr_delta_xp := xp5\<rparr>,
     EMPTY_RACER\<lparr>rr_ranking := 1, rr_server_car_id := 6, rr_delta_xp := xp6\<rparr>] @ replicate 6 EMPTY_RACER"

definition duo_result :: finalized_race where
  "duo_result = \<lparr>fr_results = (empty_results 0)\<lparr>pg_number_of_racers := 2, pg_reporting_server_car_id := 6, pg_racers := duo_rows 0 0\<rparr>,
     fr_placements = [\<lparr>authoritative_placement.ap_profile_id = 1, ap_player_id = 31, ap_server_car_id = 5, ap_ranking = 2, ap_finish_reason = 0, ap_finished = True, ap_lost_connection = False\<rparr>,
       \<lparr>authoritative_placement.ap_profile_id = 2, ap_player_id = 32, ap_server_car_id = 6, ap_ranking = 1, ap_finish_reason = 0, ap_finished = True, ap_lost_connection = False\<rparr>],
     fr_winner_profile_ids = [2], fr_ranked = True\<rparr>"

lemma duo_finalize: "finalize [(1, 31), (2, 32)] 0 duo_tracker = Inr (duo_result, duo_tracker\<lparr>tr_final_sent := True\<rparr>)"
  by code_simp

lemma skill_levels_two: "\<exists>a b. calculate_skill_levels [x, y] [r, q] = Inr [a, b]"
proof -
  have "length (fold settle_one is xs) = length xs" for "is" xs
    by (induction "is" arbitrary: xs) (simp_all add: settle_one_def Let_def)
  then have "\<exists>zs. calculate_skill_levels [x, y] [r, q] = Inr zs \<and> length zs = 2"
    by (simp add: calculate_skill_levels_def settle_def)
  then show ?thesis by (auto simp: numeral_2_eq_2 length_Suc_conv)
qed

lemma store_two: "\<exists>sk s'. store_ratings [1, 2] [(1, 2), (2, 1)] 2 progs [(2, a), (1, b)] s = (sk, [(2, 28), (1, 0)], s')"
  by (simp add: Let_def dict_get_def calculate_rep_score_def REP_SCORE_TABLE_def case_prod_beta)

lemma duo_order: "race_order [(1, 2), (2, 1)] [1, 2] = [2, 1]"
  by (simp add: race_order_def dict_get_def)

lemma duo_record: "\<exists>pr s'. record_authoritative_race [ann, bob] 0 [(2, 1), (1, 2)] [1, 2] True s = (Inr pr, s') \<and> rp_rep_awards pr = [(2, 28), (1, 0)]"
proof -
  obtain aw s1 where aw: "award_race [ann, bob] 0 [2] True s = (aw, s1)" by fastforce
  obtain progs s2 where pr: "progresses_for [(1, ann), (2, bob)] s1 = (progs, s2)" by fastforce
  define s3 where "s3 = count_race [1, 2] progs s2"
  obtain x y where xy: "[(case map_of (ps_accounts s3) (the (map_of progs p)) of
      None \<Rightarrow> DEFAULT_SKILL_LEVEL | Some progress \<Rightarrow> stat_or DEFAULT_SKILL_LEVEL progress SKILL_LEVEL_STAT). p \<leftarrow> [2, 1]] = [x, y]" by simp
  obtain a b where ab: "calculate_skill_levels [x, y] [1, 2] = Inr [a, b]" using skill_levels_two by blast
  obtain sk s4 where st: "store_ratings [1, 2] [(1, 2), (2, 1)] 2 progs [(2, a), (1, b)] s3 = (sk, [(2, 28), (1, 0)], s4)" using store_two by blast
  show ?thesis using aw pr xy ab st
    by (simp add: record_authoritative_race_def race_pair Let_def dict_get_def s3_def[symmetric] duo_order
        del: store_ratings.simps progresses_for.simps)
qed

lemma duo_pack: "pack_f32 28 = Some [0x41, 0xE0, 0, 0]" "pack_f32 0 = Some [0, 0, 0, 0]"
   by (simp_all add: pack_f32_def normalise_numeral to_be_numeral Let_def)

lemma duo_rows_clean: "clean_all (duo_rows 0 0x41E00000) = Inr (duo_rows 0 0x41E00000)"
  by (rule clean_all_clean) (simp add: duo_rows_def clean_racer_def EMPTY_RACER_def MAX_RACERS_def racer_floats_def f32_finite_def umask_def)

lemma duo_rewards: "rp_rep_awards pr = [(2, 28), (1, 0)] \<Longrightarrow>
   reward_rows (rp_rep_awards pr) (fr_placements duo_result) (pg_racers (fr_results duo_result)) = Inr (duo_rows 0 0x41E00000)"
  by (simp add: duo_result_def duo_rows_def duo_pack dict_get_def f32_of_def EMPTY_RACER_def be_nat_def)

lemma duo_encodes: "\<exists>body. encode_results ((fr_results duo_result)\<lparr>pg_racers := duo_rows 0 0x41E00000\<rparr>) FINAL_GAME_RESULTS_TYPE now = Inr body"
proof -
  have n: "normalized ((fr_results duo_result)\<lparr>pg_racers := duo_rows 0 0x41E00000\<rparr>) = Inr ((fr_results duo_result)\<lparr>pg_racers := duo_rows 0 0x41E00000\<rparr>)"
    (is "normalized ?q = _")
    using duo_rows_clean by (simp add: normalized_def MAX_RACERS_def duo_result_def empty_results_def umask_def) (simp add: duo_rows_def)
  have "is_ok (encode_run encode_slot xs)" if "\<forall>x \<in> set xs. clean_racer x = Inr x \<and> fits_i32 (rr_server_car_id x)" for xs
    using that by (induction xs) (auto simp: is_ok_iff encode_slot_def pack_slot_def)
  moreover have "\<forall>x \<in> set (duo_rows 0 0x41E00000). clean_racer x = Inr x \<and> fits_i32 (rr_server_car_id x)"
    by (simp add: duo_rows_def clean_racer_def EMPTY_RACER_def MAX_RACERS_def racer_floats_def f32_finite_def umask_def fits_i32_def)
  ultimately obtain rows where "encode_run encode_slot (duo_rows 0 0x41E00000) = Inr rows" by (auto simp: is_ok_iff)
  then show ?thesis by (simp add: encode_results_def n result_types pack_header_def) (simp add: duo_result_def fits_i32_def)
qed

lemma duo_final: "\<exists>f rc'. maybe_finalize duo_time duo_room duo_evidence = (Inr (Some f), rc')"
proof -
  have t: "tracker_for duo_room duo_evidence = duo_tracker" by code_simp
  have ids: "map (\<lambda>p. (id_profile_id (cp_identity p), cp_player_id p)) (race_participants duo_room) = [(1, 31), (2, 32)]" 
     "map (\<lambda>p. id_profile_id (cp_identity p)) (race_participants duo_room) = [1, 2]"
     "map cp_identity (race_participants duo_room) = [ann, bob]" by code_simp+
  have c: "is_complete duo_tracker [1, 2]" "race_mode_of duo_room = 0" "\<not> tr_final_sent duo_tracker" by code_simp+
  obtain pr s' where pr: "record_authoritative_race [ann, bob] 0 [(2, 1), (1, 2)] [1, 2] True (rc_progression duo_evidence) = (Inr pr, s')"
    "rp_rep_awards pr = [(2, 28), (1, 0)]" using duo_record by blast
  obtain body where "encode_results ((fr_results duo_result)\<lparr>pg_racers := duo_rows 0 0x41E00000\<rparr>) FINAL_GAME_RESULTS_TYPE duo_time = Inr body"
    using duo_encodes by blast
  then have "\<exists>f. final_message duo_time duo_room authority duo_result pr = Inr f" for authority
    by (simp add: final_message_def duo_rewards[OF pr(2)])
  then obtain f where "final_message duo_time duo_room (authority_of duo_tracker [1, 2]) duo_result pr = Inr f" by blast
  moreover have "map (\<lambda>a. (authoritative_placement.ap_profile_id a, ap_ranking a)) (rev (fr_placements duo_result)) = [(2, 1), (1, 2)]"
    "map authoritative_placement.ap_profile_id (filter ap_finished (fr_placements duo_result)) = [1, 2]" 
    "pg_race_mode (fr_results duo_result) = 0" "fr_ranked duo_result" by (simp_all add: duo_result_def empty_results_def)
  ultimately show ?thesis using pr(1)
    by (simp add: maybe_finalize_def t ids c duo_finalize Let_def)
qed

definition racing :: game_race_state where
  "racing = initial_race_state\<lparr>rs_phase := RACING\<rparr>"

definition duo_messages :: "result_call list" where
  "duo_messages = [Leader_Finished duo_room (duo_player bob 32) racing (LOGICAL_PREFIX @ [0x0D, 0, 0, 0, 0, 0, 0, 0, 6]),
     Leader_Finished duo_room (duo_player bob 32) racing (LOGICAL_PREFIX @ [0x0D, 0, 0, 0, 0, 0, 0, 0, 6]),
     Leader_Finished duo_room (duo_player ann 31) racing (LOGICAL_PREFIX @ [0x0D, 0, 0, 0, 0, 0, 0, 0, 5])]"

lemma duo_collected: "run_results duo_messages (new_race_results new_progression_store) = duo_evidence"
  by code_simp

theorem final_message_carries_decision_witness:
  "\<exists>f rc' d row. maybe_finalize duo_time duo_room (run_results duo_messages (new_race_results new_progression_store)) = (Inr (Some f), rc') \<and> decode_results (fc_body f) = Inr d \<and>
     row_for_car (dg_results d) 6 = Some row \<and> rr_ranking row = 1 \<and> 2 \<in> set (fc_winner_profile_ids f)"
proof -
  obtain f rc' where f: "maybe_finalize duo_time duo_room duo_evidence = (Inr (Some f), rc')" using duo_final by blast
  have t: "tracker_for duo_room duo_evidence = duo_tracker" by code_simp
  have "tracker_ok duo_tracker" unfolding duo_tracker_def by (rule tracker_ok_reached)
  then have ok: "trackers_ok duo_evidence" by (simp add: trackers_ok_def duo_evidence_def)
  have ps: "race_participants duo_room = [duo_player ann 31, duo_player bob 32]" by code_simp
  have tr: "tr_finish_order duo_tracker = [6, 5]" "tr_car_by_profile duo_tracker = [(2, 6), (1, 5)]" by code_simp+
  have ranked: "is_ranked duo_room" by code_simp
  have profiles: "distinct (map (\<lambda>p. id_profile_id (cp_identity p)) (race_participants duo_room))"
    by (simp add: ps duo_player_def ann_def bob_def)
  have cars: "\<exists>car \<in> set (tr_finish_order (tracker_for duo_room duo_evidence)).
      map_of (tr_car_by_profile (tracker_for duo_room duo_evidence)) (id_profile_id (cp_identity p)) = Some car"
    if "p \<in> set (race_participants duo_room)" for p
    using that by (auto simp: ps t tr duo_player_def ann_def bob_def)
  from final_message_carries_decision[OF ok ranked profiles cars f] obtain d where d: "decode_results (fc_body f) = Inr d"
    and "\<exists>row. row_for_car (dg_results d) 6 = Some row \<and> 0 < rr_ranking row \<and> nat (rr_ranking row) \<le> 2 \<and>
       [6, 5] ! (nat (rr_ranking row) - 1) = (6 :: int) \<and> 2 \<in> set (fc_winner_profile_ids f)"
    by (auto simp: ps t tr duo_player_def ann_def bob_def numeral_2_eq_2)
  then obtain row where row: "row_for_car (dg_results d) 6 = Some row" "0 < rr_ranking row" "nat (rr_ranking row) \<le> 2"
    "[6, 5] ! (nat (rr_ranking row) - 1) = (6 :: int)" "2 \<in> set (fc_winner_profile_ids f)" by blast
  then have "nat (rr_ranking row) - 1 = 0" by (cases "nat (rr_ranking row) - 1") auto
  then have "rr_ranking row = 1" using row(2) by linarith
  with f d row show ?thesis unfolding duo_collected by blast
qed

end
