(* ===== verification/Spec2Isabelle.thy ===== *)
theory Spec2Isabelle
  imports Rc4 ProtoTunnel GmProtocol CommUdp SessionCodec PlayerCodec SessionObject RaceState Retry
    WireState Confirmations WorldState Handshake RaceSession ResultCodec Results SessionDirectory Matchmaking
    Allocation IdentityStore CarbonGame GameDirectory GameDirectoryInv GameDirectoryRun RoomAllocation GameDirectoryTotal
    GameDirectoryProps Progression SkillRatings ProgressionProps
    Framing FeslFrame FeslFields Base64 FeslFragments ClassicFrame ClassicStream Password
    ClassicDirectory ClassicRooms PyObject ClassicStats ClassicRanking ClassicBoards ClassicStandings
    Outbound OutboundProps ServiceState RoomLifecycle ReadySeed ReadyEpoch ReadyState ServiceProps ReadyExamples
    ReadyProps ReadyRelay RaceResults RaceResultsProps
begin

text \<open>
  \<^bold>\<open>A model of the Carbon race server of NFS-Online-Server.\<close>

  The program is a game server for Need for Speed: Carbon.  Clients find a room through the
  Theater service (\<open>src/server/carbon/theater\<close>), then speak UDP to the rebroadcaster
  (\<open>src/server/carbon/rebroadcaster\<close>), which runs the GameManager protocol
  (\<open>src/server/carbon/gamemanager\<close>) over two transport layers
  (\<open>src/server/carbon/transport\<close>): a partly RC4-enciphered tunnel datagram that carries
  virtual packets per channel, and the CommUDP reliability protocol on channel 1.

  \<^bold>\<open>Theories and the code they model.\<close>  Shared vocabulary: Prelude (bytes, slices,
  big-endian integers, results, dictionaries), PyText and PyNumber (the string, integer and
  float operations of Python that the code uses), Float32 (\<open>struct.pack(">f")\<close>), Codec and
  Lifecycle (interfaces).

  \<^item> Transport: Rc4 (\<open>transport/rc4.py\<close>), ProtoTunnel (\<open>transport/prototunnel.py\<close>), CommUdp
    (\<open>transport/commudp.py\<close>).  The datagram codec takes the cipher as an argument and is
    used with the model of \<open>rc4_xor\<close>.
  \<^item> GameManager codecs: GmProtocol (\<open>gamemanager/protocol.py\<close> and \<open>fesl/primitives.py\<close>),
    SessionCodec, PlayerCodec, SessionObject, RaceSession (\<open>race_session.py\<close>) and
    ResultCodec (the wire half of \<open>results.py\<close>).
  \<^item> GameManager state: RaceState (the phase machine \<open>GameRaceState\<close>) and Results
    (\<open>RaceResultTracker\<close>, the arbitration of a race's placements).
  \<^item> Rebroadcaster: Retry (\<open>retry.py\<close>), WireState (\<open>state.py\<close>), Confirmations
    (\<open>confirmations.py\<close>), Outbound and OutboundProps (\<open>outbound.py\<close>), WorldState (\<open>world_state.py\<close>), Handshake (\<open>handshake.py\<close>).
  \<^item> Ready negotiation: ServiceState (the dictionaries of \<open>service.py\<close> that its coordinators share, roles
    and message readers), RoomLifecycle (\<open>room_lifecycle.py\<close>), ReadySeed, ReadyEpoch and ReadyState
    (\<open>ready_seed.py\<close>, \<open>ready_epoch.py\<close>, \<open>ready_state.py\<close>).  ServiceProps has the frame lemmas of publishing,
    ReadyExamples a concrete room, ReadyProps and ReadyRelay the properties.
  \<^item> Race results: RaceResults (\<open>race_results.py\<close>: the trackers of the rooms, finish messages and reports,
    finalising, rewards and the final message, on Results and Progression), RaceResultsProps its properties.
  \<^item> Rooms: SessionDirectory (\<open>ea/directory.py\<close>, rooms and games without Carbon's protocol),
    Matchmaking (\<open>theater/matchmaking.py\<close>), IdentityStore (\<open>accounts/identity.py\<close>), CarbonGame
    (the room record of \<open>theater/directory.py\<close> with its published rows) and GameDirectory
    (\<open>CarbonGameDirectory\<close>, which keeps one session of SessionDirectory per room).
    Allocation is the \<open>while\<close> loop both use for identifiers.  GameDirectoryInv and
    GameDirectoryRun prove that rooms and sessions stay in step, RoomAllocation and
    GameDirectoryTotal that every call returns, GameDirectoryProps states the properties.

  \<^item> Progression (\<open>progression.py\<close>): statistics, roles, viral vinyls, race awards and ranked
    skill; SkillRatings and ProgressionProps state the properties.

  \<^item> TCP framing: Framing (interfaces \<open>stream_decoder\<close> and \<open>framed_codec\<close>), FeslFrame and FeslFields
    (\<open>fesl/frame.py\<close>), Base64 and FeslFragments (large bodies, with \<open>_complete_fields\<close> of
    \<open>fesl/service.py\<close>), ClassicFrame and ClassicStream (\<open>classic/protocols/frame.py\<close> and
    \<open>stream.py\<close>), Password (\<open>classic/protocols/password.py\<close>).

  \<^item> Classic server: ClassicDirectory (\<open>classic/ea/directory.py\<close>, rooms and games with invitations,
    kicks and race reports), ClassicRooms states its properties.  PyObject (values of unknown type
    and their conversions), ClassicStats and ClassicRanking (\<open>classic/ea/ranking.py\<close>, statistics and
    leaderboards), ClassicBoards and ClassicStandings state theirs.

  \<^bold>\<open>Conventions.\<close>  A Python \<open>bytes\<close> is a list of 8-bit words; an unbounded \<open>int\<close> is an
  \<open>int\<close> (a \<open>nat\<close> where it is a length or was read from bytes); \<open>& 0xFFFFFFFF\<close> is \<open>umask 32\<close>.
  A dataclass is a record, an enum a datatype, a \<open>dict\<close> an association list in insertion
  order, a \<open>set\<close> a finite set.  Statistics are rationals.  A method that changes its object returns the new state; one
  that raises returns a sum with the exception on the left.  A lock makes its method one
  step, so concurrent use is a sequence of calls, and the invariants quantify over all such
  sequences.  Times are rationals.  Text is Latin-1.

  \<^bold>\<open>What is shown.\<close>  Codecs: what an encoder does not refuse, the decoder reads back, and
  the refused inputs are characterised (interface \<open>record_codec\<close>, interpreted for the
  player record, and the slot codec of result messages).  The cipher cache refines the plain stream cipher.
  State machines: the race phase and the handshake only move forward (interface
  \<open>monotone_lifecycle\<close>).  Reliability: bounded resending (interface \<open>bounded_retry\<close>),
  cumulative acknowledgement across the wrap of the 28-bit sequence space, an exact
  duplicate window, a keystream that is never used twice.  Ready negotiation: the guest's states wait for every seed, the countdown starts
  from the host's exact bundle, a repeated seed changes nothing, and however the handlers interleave a
  room's negotiation only moves forward.  World state: averages and clocks stay in range, the echo is exact,
  virtual sequences cycle.  Results: evidence stays consistent whatever arrives, and the
  final order is the server's own when it is complete, a unanimous one otherwise; a room's race counts
  once however often its messages arrive, and the final message carries the places and rewards that were decided.  Rooms:
  ids, capacities and membership (interface \<open>membership_store\<close>, for rooms and for games),
  fits between 0 and 1, and only concrete values published.  The game directory: its rooms
  refine the neutral sessions (the members of a session are exactly the players of its room),
  a player is in one room at a time, a search returns an admissible room of the best fit,
  identifiers of a new room are fresh.  Identities: wire ids are stable and unique, and a
  duplicate login displaces the established session.  Progression: what clients can change,
  what a race adds to the ledgers, how vinyls spread, what the skill pool keeps.  TCP: how the
  network cuts a stream does not matter, large bodies are put together again, passwords are
  recovered from tokens.  Classic rooms: slots that do not move, kicks that last, races that finish
  with the last report.  Classic ranking: ratings are the places on the leaderboards, a result counts
  once, a saved store is read back.

  \<^bold>\<open>Bounds and fuel.\<close>  The loops are structural or carry a measure.  The allocation
  loops, which could run for ever on a full space, are \<open>while_option\<close>; \<open>game_runs_return\<close> shows
  that runs of up to three million calls never exhaust one.  The only fuel is the 256 steps of
  the scaling loop in Float32, shown sufficient there by lemma \<open>normalise_scaled\<close>.

  \<^bold>\<open>Not modelled.\<close>  The socket loops, the dispatch of \<open>rebroadcaster/service.py\<close> and \<open>active_router.py\<close>, room
  commit, race start, session publication and the modules beside them, Theater service, the commands of the FESL service, the accounts database, the DLC,
  advertisement and messenger services, the lobby, race and ranking services of the classic server, and
  the launcher.  Of the game directory,
  the web status view and the socket probe for a local endpoint (a parameter) are left out, of
  the progression store its JSON file.
  A handler that raises gives its error and not the half-written state it leaves behind.
  Rounding of binary64 arithmetic is not modelled (infinities and NaN are, where text or wire data is parsed),
  nor are code points above 255.

  \<^bold>\<open>Plan.\<close>  Next: session objects, room commit and race start of the rebroadcaster over the
  same shared state; then the advertisement protocol and the usersets of the classic server.
\<close>

end
